(* ===== verification/Prelude.thy ===== *)
theory Prelude
  imports Main "HOL-Library.Monad_Syntax" "HOL-Library.Sublist"
begin

text \<open>
  Shared vocabulary of the development: results with a thrown error as the left
  summand, JavaScript string helpers (decimal printing, padding, trimming), and
  relational tables as lists of row records with the SQL statements the code
  issues against them.  The collections \<open>table_simps\<close> and \<open>clock_simps\<close> carry
  the automation of the component theories.
\<close>

named_theorems table_simps "facts about SQL style table operations"
named_theorems clock_simps "facts about calendar arithmetic"

section \<open>Names\<close>

type_synonym uuid = string

text \<open>An instant: epoch milliseconds.  An ISO 8601 string read by \<open>Date.parse\<close> is
  an \<open>instant option\<close>, with \<open>None\<close> for the NaN of an unparseable string.\<close>
type_synonym instant = int

section \<open>Results: a thrown error is the left summand\<close>

definition and_then :: "'e + 'a \<Rightarrow> ('a \<Rightarrow> 'e + 'b) \<Rightarrow> 'e + 'b" where
  "and_then r f = (case r of Inl e \<Rightarrow> Inl e | Inr x \<Rightarrow> f x)"

lemma and_then_simps [simp]:
  "and_then (Inl e) f = Inl e"
  "and_then (Inr x) f = f x"
  by (simp_all add: and_then_def)

lemma and_then_Inr_iff:
  "and_then r f = Inr y \<longleftrightarrow> (\<exists>x. r = Inr x \<and> f x = Inr y)"
  by (cases r) simp_all

lemma and_thenE:
  assumes "and_then r f = Inr y"
  obtains x where "r = Inr x" "f x = Inr y"
  using assms by (cases r) simp_all

section \<open>Strings as JavaScript prints them\<close>

definition digit_char :: "nat \<Rightarrow> char" where
  "digit_char n = char_of (48 + n)"

definition is_digit :: "char \<Rightarrow> bool" where
  "is_digit c \<longleftrightarrow> 48 \<le> (of_char c :: nat) \<and> (of_char c :: nat) \<le> 57"

definition digit_val :: "char \<Rightarrow> nat" where
  "digit_val c = of_char c - 48"

text \<open>\<open>String(n)\<close> for a non-negative integer.\<close>
fun str_nat :: "nat \<Rightarrow> string" where
  "str_nat n = (if n < 10 then [digit_char n] else str_nat (n div 10) @ [digit_char (n mod 10)])"

declare str_nat.simps [simp del]

text \<open>\<open>s.padStart(w, c)\<close>\<close>
definition pad_start :: "nat \<Rightarrow> char \<Rightarrow> string \<Rightarrow> string" where
  "pad_start w c s = replicate (w - length s) c @ s"

text \<open>\<open>Number(s)\<close> on a run of decimal digits.\<close>
definition number_of :: "string \<Rightarrow> nat" where
  "number_of s = foldl (\<lambda>a c. 10 * a + digit_val c) 0 s"

text \<open>The Latin-1 characters \<open>String.prototype.trim\<close> removes.\<close>
definition js_space :: "char \<Rightarrow> bool" where
  "js_space c \<longleftrightarrow> (of_char c :: nat) \<in> {9, 10, 11, 12, 13, 32, 160}"

definition js_trim_start :: "string \<Rightarrow> string" where
  "js_trim_start s = dropWhile js_space s"

definition js_trim_end :: "string \<Rightarrow> string" where
  "js_trim_end s = rev (dropWhile js_space (rev s))"

definition js_trim :: "string \<Rightarrow> string" where
  "js_trim s = js_trim_end (js_trim_start s)"

lemma digit_char_is_digit [simp]: "n < 10 \<Longrightarrow> is_digit (digit_char n)"
  by (simp add: is_digit_def digit_char_def of_char_of take_bit_eq_mod)

lemma digit_val_digit_char [simp]: "n < 10 \<Longrightarrow> digit_val (digit_char n) = n"
  by (simp add: digit_val_def digit_char_def of_char_of take_bit_eq_mod)

lemma digit_char_0 [simp]: "digit_char 0 = CHR ''0''"
  by code_simp

lemma str_nat_1: "n < 10 \<Longrightarrow> str_nat n = [digit_char n]"
  by (simp add: str_nat.simps)

lemma str_nat_2: "10 \<le> n \<Longrightarrow> n < 100 \<Longrightarrow> str_nat n = [digit_char (n div 10), digit_char (n mod 10)]"
  by (subst str_nat.simps) (simp add: str_nat_1)

lemma str_nat_3: "100 \<le> n \<Longrightarrow> n < 1000 \<Longrightarrow>
  str_nat n = [digit_char (n div 100), digit_char (n div 10 mod 10), digit_char (n mod 10)]"
  by (subst str_nat.simps) (simp add: str_nat_2 div_mult2_eq [symmetric])

lemma str_nat_4: "1000 \<le> n \<Longrightarrow> n < 10000 \<Longrightarrow>
  str_nat n = [digit_char (n div 1000), digit_char (n div 100 mod 10),
               digit_char (n div 10 mod 10), digit_char (n mod 10)]"
  by (subst str_nat.simps) (simp add: str_nat_3 div_mult2_eq [symmetric])

lemma pad2: "n < 100 \<Longrightarrow>
  pad_start 2 (CHR ''0'') (str_nat n) = [digit_char (n div 10), digit_char (n mod 10)]"
  by (cases "n < 10") (simp_all add: pad_start_def str_nat_1 str_nat_2)

lemma pad4: "n < 10000 \<Longrightarrow>
  pad_start 4 (CHR ''0'') (str_nat n) =
    [digit_char (n div 1000), digit_char (n div 100 mod 10),
     digit_char (n div 10 mod 10), digit_char (n mod 10)]"
proof -
  assume n: "n < 10000"
  consider "n < 10" | "10 \<le> n" "n < 100" | "100 \<le> n" "n < 1000" | "1000 \<le> n"
    by linarith
  then show ?thesis
  proof cases
    case 1
    then show ?thesis by (simp add: pad_start_def str_nat_1 numeral_3_eq_3)
  next
    case 2
    then show ?thesis by (simp add: pad_start_def str_nat_2 numeral_2_eq_2)
  next
    case 3
    then show ?thesis by (simp add: pad_start_def str_nat_3)
  next
    case 4
    then show ?thesis using n by (simp add: pad_start_def str_nat_4)
  qed
qed

lemma number_of_2: "n < 100 \<Longrightarrow> number_of [digit_char (n div 10), digit_char (n mod 10)] = n"
  by (simp add: number_of_def)

lemma number_of_4: "n < 10000 \<Longrightarrow>
  number_of [digit_char (n div 1000), digit_char (n div 100 mod 10),
             digit_char (n div 10 mod 10), digit_char (n mod 10)] = n"
proof -
  assume "n < 10000"
  then have "n div 1000 < 10" by simp
  moreover have "n div 1000 = n div 10 div 10 div 10" "n div 100 = n div 10 div 10"
    by (simp_all add: div_mult2_eq [symmetric])
  ultimately show ?thesis
    by (simp add: number_of_def)
qed

section \<open>Tables\<close>

text \<open>A table is the list of its rows, in insertion order.  \<open>sql_update p f\<close> is
  \<open>UPDATE ... SET f WHERE p\<close>, \<open>sql_one p\<close> the first row of \<open>SELECT ... WHERE p\<close>,
  \<open>sql_count p\<close> the \<open>rowCount\<close> of the statement.\<close>
definition sql_update :: "('r \<Rightarrow> bool) \<Rightarrow> ('r \<Rightarrow> 'r) \<Rightarrow> 'r list \<Rightarrow> 'r list" where
  "sql_update p f rs = map (\<lambda>r. if p r then f r else r) rs"

definition sql_one :: "('r \<Rightarrow> bool) \<Rightarrow> 'r list \<Rightarrow> 'r option" where
  "sql_one p rs = find p rs"

definition sql_count :: "('r \<Rightarrow> bool) \<Rightarrow> 'r list \<Rightarrow> nat" where
  "sql_count p rs = length (filter p rs)"

lemma sql_update_Nil [simp, table_simps]: "sql_update p f [] = []"
  by (simp add: sql_update_def)

lemma sql_update_Cons [simp, table_simps]:
  "sql_update p f (r # rs) = (if p r then f r else r) # sql_update p f rs"
  by (simp add: sql_update_def)

lemma sql_update_none [table_simps]: "(\<And>r. r \<in> set rs \<Longrightarrow> \<not> p r) \<Longrightarrow> sql_update p f rs = rs"
  by (induction rs) auto

lemma sql_one_simps [simp, table_simps]:
  "sql_one p [] = None"
  "sql_one p (r # rs) = (if p r then Some r else sql_one p rs)"
  by (simp_all add: sql_one_def)

lemma sql_one_Some: "sql_one p rs = Some r \<Longrightarrow> p r \<and> r \<in> set rs"
  by (induction rs) (auto split: if_splits)

lemma sql_one_None: "sql_one p rs = None \<longleftrightarrow> (\<forall>r\<in>set rs. \<not> p r)"
  by (induction rs) auto

lemma sql_count_simps [simp, table_simps]:
  "sql_count p [] = 0"
  "sql_count p (r # rs) = (if p r then Suc (sql_count p rs) else sql_count p rs)"
  by (simp_all add: sql_count_def)

lemma sql_count_0: "sql_count p rs = 0 \<longleftrightarrow> (\<forall>r\<in>set rs. \<not> p r)"
  by (induction rs) auto

lemma set_sql_update: "set (sql_update p f rs) = (\<lambda>r. if p r then f r else r) ` set rs"
  by (simp add: sql_update_def)

lemma length_sql_update [simp]: "length (sql_update p f rs) = length rs"
  by (simp add: sql_update_def)

lemma sql_update_all:
  "(\<And>r. r \<in> set rs \<Longrightarrow> P r) \<Longrightarrow> (\<And>r. r \<in> set rs \<Longrightarrow> p r \<Longrightarrow> P r \<Longrightarrow> P (f r)) \<Longrightarrow>
   r \<in> set (sql_update p f rs) \<Longrightarrow> P r"
  by (auto simp: set_sql_update)

text \<open>The first row \<open>SELECT\<close> finds in a table whose key is unique is the row with that key.\<close>
lemma sql_one_key:
  "distinct (map key rs) \<Longrightarrow> r \<in> set rs \<Longrightarrow> sql_one (\<lambda>x. key x = key r) rs = Some r"
  by (induction rs) (auto simp: rev_image_eqI)

lemma sql_update_map_key:
  "(\<And>r. p r \<Longrightarrow> key (f r) = key r) \<Longrightarrow> map key (sql_update p f rs) = map key rs"
  by (induction rs) auto

lemma sql_one_update_same:
  "(\<And>r. p r \<Longrightarrow> key (f r) = key r) \<Longrightarrow>
   sql_one (\<lambda>x. key x = k) (sql_update p f rs) =
     map_option (\<lambda>r. if p r then f r else r) (sql_one (\<lambda>x. key x = k) rs)"
  by (induction rs) auto

lemma sql_one_append: "sql_one p (xs @ ys) = (case sql_one p xs of None \<Rightarrow> sql_one p ys | Some x \<Rightarrow> Some x)"
  by (induction xs) auto

lemma sql_one_member: "sql_one p rs = Some r \<Longrightarrow> r \<in> set rs"
  by (drule sql_one_Some) blast

lemma sql_update_ident [simp]: "sql_update p (\<lambda>r. r) rs = rs"
  by (induction rs) auto

lemma sql_count_le: "x \<in> set rs \<Longrightarrow> p x \<Longrightarrow> 0 < sql_count p rs"
  using sql_count_0 [of p rs] by auto

text \<open>Updating the one row with a key changes a count by that row alone.\<close>
lemma sql_count_update_key:
  assumes "distinct (map key rs)" "x \<in> set rs"
  shows "sql_count p (sql_update (\<lambda>r. key r = key x) f rs) + (if p x then 1 else 0) =
    sql_count p rs + (if p (f x) then 1 else 0)"
  using assms
proof (induction rs)
  case (Cons r rs)
  show ?case
  proof (cases "r = x")
    case True
    then have "sql_update (\<lambda>r. key r = key x) f rs = rs"
      using Cons.prems(1) by (intro sql_update_none) (auto simp: image_iff)
    then show ?thesis using True by simp
  next
    case False
    then have "key r \<noteq> key x" using Cons.prems by (auto simp: image_iff)
    then show ?thesis using Cons False by simp
  qed
qed simp

section \<open>Guarded updates\<close>

text \<open>
  Every state change of a stored row is one statement
  \<open>UPDATE t SET change WHERE key = $1 AND guard RETURNING ...\<close>: a compare and swap
  on one row.  The locale is that contract: the change keeps the key, and makes the
  guard false, so that of two callers at most one finds a row.
\<close>

definition cas :: "('r \<Rightarrow> 'k) \<Rightarrow> ('r \<Rightarrow> bool) \<Rightarrow> ('r \<Rightarrow> 'r) \<Rightarrow> 'k \<Rightarrow> 'r list \<Rightarrow> 'r list \<times> 'r option" where
  "cas key guard change k rs =
    (let hit = (\<lambda>r. key r = k \<and> guard r) in
     (sql_update hit change rs, map_option change (sql_one hit rs)))"

locale guarded_update =
  fixes key :: "'r \<Rightarrow> 'k" and guard :: "'r \<Rightarrow> bool" and change :: "'r \<Rightarrow> 'r"
  assumes keeps_key: "key (change r) = key r"
    and consumes_guard: "\<not> guard (change r)"
begin

lemma cas_keys: "map key (fst (cas key guard change k rs)) = map key rs"
  by (simp add: cas_def Let_def sql_update_map_key keeps_key)

lemma cas_lookup:
  "sql_one (\<lambda>r. key r = j) (fst (cas key guard change k rs)) =
     map_option (\<lambda>r. if key r = k \<and> guard r then change r else r) (sql_one (\<lambda>r. key r = j) rs)"
  by (simp add: cas_def Let_def sql_one_update_same keeps_key)

lemma cas_other:
  "j \<noteq> k \<Longrightarrow> sql_one (\<lambda>r. key r = j) (fst (cas key guard change k rs)) = sql_one (\<lambda>r. key r = j) rs"
  unfolding cas_lookup
  by (cases "sql_one (\<lambda>r. key r = j) rs") (auto dest!: sql_one_Some)

lemma cas_miss: "snd (cas key guard change k rs) = None \<Longrightarrow> fst (cas key guard change k rs) = rs"
  by (auto simp: cas_def Let_def sql_one_None intro!: sql_update_none)

text \<open>The second of two compare and swaps on one key finds nothing and changes nothing.\<close>
lemma cas_once:
  "cas key guard change k (fst (cas key guard change k rs)) = (fst (cas key guard change k rs), None)"
  by (auto simp: cas_def Let_def set_sql_update consumes_guard sql_one_None intro!: sql_update_none split: if_splits)

lemma cas_hit:
  "distinct (map key rs) \<Longrightarrow>
   snd (cas key guard change k rs) = Some r' \<longleftrightarrow>
     (\<exists>r. sql_one (\<lambda>r. key r = k) rs = Some r \<and> guard r \<and> r' = change r)"
proof (induction rs)
  case (Cons x rs)
  show ?case
  proof (cases "key x = k")
    case True
    then have n: "\<forall>r\<in>set rs. key r \<noteq> k" using Cons.prems by (auto simp: image_iff)
    then have "sql_one (\<lambda>r. key r = k \<and> guard r) rs = None" unfolding sql_one_None by blast
    then show ?thesis using True by (auto simp: cas_def Let_def)
  next
    case False
    then show ?thesis using Cons by (simp add: cas_def Let_def)
  qed
qed (simp add: cas_def)

end

end
