(* ===== verification/LocalClock.thy ===== *)
theory LocalClock
  imports Prelude
begin

text \<open>
  \<open>packages/contracts/src/localClock.ts\<close> and \<open>packages/domain/src/rules/localClock.ts\<close>:
  the calendar of \<open>Date.UTC\<close> and \<open>toISOString\<close>, the wall clock of a zone, and the
  instant at which a zone reads a given date and time.  The tz database behind
  \<open>Intl\<close> is the parameter \<open>tzdb\<close>: for a known zone, its offset from UTC in seconds
  at every instant.
\<close>

section \<open>The calendar of the ECMAScript Date object\<close>

datatype clock_code = INSTANT_INVALID | ZONE_UNKNOWN | DATE_INVALID | RANGE_ERROR

type_synonym tzdb = "string \<Rightarrow> (instant \<Rightarrow> int) option"

definition ms_per_day :: int where
  "ms_per_day = 86400000"

definition leap_year :: "int \<Rightarrow> bool" where
  "leap_year y \<longleftrightarrow> y mod 4 = 0 \<and> (y mod 100 \<noteq> 0 \<or> y mod 400 = 0)"

text \<open>The day number, counted from 1 January 1970, of the first day of a year.\<close>
definition day_from_year :: "int \<Rightarrow> int" where
  "day_from_year y = 365 * (y - 1970) + (y - 1969) div 4 - (y - 1901) div 100 + (y - 1601) div 400"

definition month_start :: "bool \<Rightarrow> int \<Rightarrow> int" where
  "month_start leap m = (let l = (if leap then 1 else 0) in
    if m \<le> 0 then 0 else if m = 1 then 31 else if m = 2 then 59 + l else if m = 3 then 90 + l
    else if m = 4 then 120 + l else if m = 5 then 151 + l else if m = 6 then 181 + l
    else if m = 7 then 212 + l else if m = 8 then 243 + l else if m = 9 then 273 + l
    else if m = 10 then 304 + l else 334 + l)"

definition month_of_day :: "bool \<Rightarrow> int \<Rightarrow> int" where
  "month_of_day leap d =
    (if d < month_start leap 1 then 0 else if d < month_start leap 2 then 1
     else if d < month_start leap 3 then 2 else if d < month_start leap 4 then 3
     else if d < month_start leap 5 then 4 else if d < month_start leap 6 then 5
     else if d < month_start leap 7 then 6 else if d < month_start leap 8 then 7
     else if d < month_start leap 9 then 8 else if d < month_start leap 10 then 9
     else if d < month_start leap 11 then 10 else 11)"

text \<open>\<open>MakeDay\<close>: a month outside 0..11 and a day outside the month carry over.\<close>
definition make_day :: "int \<Rightarrow> int \<Rightarrow> int \<Rightarrow> int" where
  "make_day y m d = (let ym = y + m div 12; mn = m mod 12 in
     day_from_year ym + month_start (leap_year ym) mn + d - 1)"

definition year_of :: "int \<Rightarrow> int" where
  "year_of n = (let y = 1970 + 400 * n div 146097 in
     if day_from_year (y + 1) \<le> n then y + 1 else if day_from_year y \<le> n then y else y - 1)"

definition month_of :: "int \<Rightarrow> int" where
  "month_of n = (let y = year_of n in month_of_day (leap_year y) (n - day_from_year y))"

definition date_of :: "int \<Rightarrow> int" where
  "date_of n = (let y = year_of n in
     n - day_from_year y - month_start (leap_year y) (month_of n) + 1)"

text \<open>0 is Sunday.\<close>
definition week_day :: "int \<Rightarrow> int" where
  "week_day n = (n + 4) mod 7"

text \<open>\<open>Date.UTC\<close> reads a year 0..99 as 1900..1999.\<close>
definition utc_day :: "int \<Rightarrow> int \<Rightarrow> int \<Rightarrow> int" where
  "utc_day y m d = make_day (if 0 \<le> y \<and> y \<le> 99 then 1900 + y else y) m d"

definition date_utc :: "int \<Rightarrow> int \<Rightarrow> int \<Rightarrow> int \<Rightarrow> int \<Rightarrow> int \<Rightarrow> int \<Rightarrow> instant" where
  "date_utc y m d h mi s ms =
     ms_per_day * utc_day y m d + 3600000 * h + 60000 * mi + 1000 * s + ms"

text \<open>\<open>YYYY-MM-DD\<close>, and the first ten characters of \<open>toISOString()\<close>.\<close>
definition iso_date :: "int \<Rightarrow> int \<Rightarrow> int \<Rightarrow> string" where
  "iso_date y m d = pad_start 4 (CHR ''0'') (str_nat (nat y)) @ ''-'' @
     pad_start 2 (CHR ''0'') (str_nat (nat m)) @ ''-'' @ pad_start 2 (CHR ''0'') (str_nat (nat d))"

definition iso_of_day :: "int \<Rightarrow> string" where
  "iso_of_day n = (let y = year_of n; m = month_of n + 1; d = date_of n in
     if 0 \<le> y \<and> y \<le> 9999 then iso_date y m d
     else take 10 ((if y < 0 then ''-'' else ''+'') @
       pad_start 6 (CHR ''0'') (str_nat (nat (abs y))) @ drop 4 (iso_date 0 m d)))"

text \<open>\<open>DATE_PATTERN\<close> and its three captured numbers.\<close>
definition parse_date :: "string \<Rightarrow> (int \<times> int \<times> int) option" where
  "parse_date s = (case s of
     [a, b, c, d, p, e, f, q, g, h] \<Rightarrow>
       if list_all is_digit [a, b, c, d, e, f, g, h] \<and> p = CHR ''-'' \<and> q = CHR ''-''
       then Some (int (number_of [a, b, c, d]), int (number_of [e, f]), int (number_of [g, h]))
       else None
   | _ \<Rightarrow> None)"

section \<open>The wall clock of a zone\<close>

record LocalParts =
  lp_date :: string
  lp_year :: int
  lp_month :: int
  lp_day :: int
  lp_hour :: int
  lp_minute :: int
  lp_second :: int
  lp_weekday :: int
  lp_minuteOfDay :: int

definition isKnownTimeZone :: "tzdb \<Rightarrow> string \<Rightarrow> bool" where
  "isKnownTimeZone tz zone \<longleftrightarrow> tz zone \<noteq> None"

text \<open>The fields \<open>Intl\<close> prints for a wall clock reading, given as the epoch
  milliseconds at which UTC would read the same; years before 1 are printed as
  the year of their era.\<close>
definition wall_parts :: "int \<Rightarrow> LocalParts" where
  "wall_parts w = (let n = w div ms_per_day; t = w mod ms_per_day;
     y = (if year_of n \<le> 0 then 1 - year_of n else year_of n);
     m = month_of n + 1; d = date_of n; h = t div 3600000; mi = t div 60000 mod 60 in
     \<lparr> lp_date = iso_date y m d, lp_year = y, lp_month = m, lp_day = d, lp_hour = h,
       lp_minute = mi, lp_second = t div 1000 mod 60, lp_weekday = week_day n,
       lp_minuteOfDay = h * 60 + mi \<rparr>)"

definition localParts :: "tzdb \<Rightarrow> instant option \<Rightarrow> string \<Rightarrow> clock_code + LocalParts" where
  "localParts tz i zone = (case i of
     None \<Rightarrow> Inl INSTANT_INVALID
   | Some ms \<Rightarrow> (case tz zone of
       None \<Rightarrow> Inl ZONE_UNKNOWN
     | Some off \<Rightarrow> Inr (wall_parts (ms + 1000 * off ms))))"

text \<open>The \<open>%\<close> of JavaScript takes the sign of its left operand.\<close>
definition js_rem :: "int \<Rightarrow> int \<Rightarrow> int" where
  "js_rem a b = (if a < 0 then - ((- a) mod b) else a mod b)"

text \<open>\<open>Math.round(p / q)\<close> for a positive \<open>q\<close>.\<close>
definition js_round_div :: "int \<Rightarrow> int \<Rightarrow> int" where
  "js_round_div p q = (2 * p + q) div (2 * q)"

definition zoneOffsetMinutes :: "tzdb \<Rightarrow> instant \<Rightarrow> string \<Rightarrow> clock_code + int" where
  "zoneOffsetMinutes tz ms zone = and_then (localParts tz (Some ms) zone) (\<lambda>parts.
     let remainder = js_rem ms 1000;
         asUtc = date_utc (lp_year parts) (lp_month parts - 1) (lp_day parts) (lp_hour parts)
           (lp_minute parts) (lp_second parts) (if remainder < 0 then 1000 + remainder else remainder)
     in Inr (js_round_div (asUtc - ms) 60000))"

record LocalTimeOfDay =
  tod_hour :: int
  tod_minute :: int
  tod_second :: "int option"
  tod_millisecond :: "int option"

definition time_of_day :: "int \<Rightarrow> int \<Rightarrow> LocalTimeOfDay" where
  "time_of_day h m = \<lparr> tod_hour = h, tod_minute = m, tod_second = None, tod_millisecond = None \<rparr>"

definition localInstant :: "tzdb \<Rightarrow> string \<Rightarrow> LocalTimeOfDay \<Rightarrow> string \<Rightarrow> clock_code + instant" where
  "localInstant tz date time zone = (case parse_date date of
     None \<Rightarrow> Inl DATE_INVALID
   | Some (y, m, d) \<Rightarrow>
       (let guess = date_utc y (m - 1) d (tod_hour time) (tod_minute time)
          (case tod_second time of None \<Rightarrow> 0 | Some s \<Rightarrow> s)
          (case tod_millisecond time of None \<Rightarrow> 0 | Some ms \<Rightarrow> ms) in
        and_then (zoneOffsetMinutes tz guess zone) (\<lambda>o1.
          let first = guess - o1 * 60000 in
          and_then (zoneOffsetMinutes tz first zone) (\<lambda>o2.
            let second = guess - o2 * 60000;
                result = (if second \<noteq> first then second else first) in
            and_then (localParts tz (Some result) zone) (\<lambda>readsBack.
              if lp_hour readsBack \<noteq> tod_hour time \<or> lp_minute readsBack \<noteq> tod_minute time
              then Inr (max first second) else Inr result)))))"

definition is_hour :: "char \<Rightarrow> char \<Rightarrow> bool" where
  "is_hour a b \<longleftrightarrow> is_digit a \<and> is_digit b \<and> number_of [a, b] \<le> 23"

text \<open>\<open>TIME_PATTERN\<close>\<close>
definition parse_time :: "string \<Rightarrow> (int \<times> int) option" where
  "parse_time s = (case s of
     [a, b, c, d, e] \<Rightarrow>
       if is_hour a b \<and> c = CHR '':'' \<and> is_digit d \<and> is_digit e \<and> number_of [d, e] \<le> 59
       then Some (int (number_of [a, b]), int (number_of [d, e])) else None
   | _ \<Rightarrow> None)"

definition CALLBACK_DATE_ONLY_LOCAL_TIME :: string where
  "CALLBACK_DATE_ONLY_LOCAL_TIME = ''09:00''"

definition callbackInstant :: "tzdb \<Rightarrow> string \<Rightarrow> string option \<Rightarrow> string \<Rightarrow> instant option" where
  "callbackInstant tz localDate localTime zone = (case parse_date (js_trim localDate) of
     None \<Rightarrow> None
   | Some (y, month, day) \<Rightarrow>
       (let calendar = utc_day y (month - 1) day in
        if month_of calendar \<noteq> month - 1 \<or> date_of calendar \<noteq> day then None else
        let time = (case localTime of None \<Rightarrow> CALLBACK_DATE_ONLY_LOCAL_TIME
                    | Some t \<Rightarrow> if js_trim t = [] then CALLBACK_DATE_ONLY_LOCAL_TIME else js_trim t) in
        (case parse_time time of
           None \<Rightarrow> None
         | Some (h, mi) \<Rightarrow>
             if \<not> isKnownTimeZone tz zone then None else
             (case localInstant tz (js_trim localDate) (time_of_day h mi) zone of
                Inl _ \<Rightarrow> None | Inr i \<Rightarrow> Some i))))"

section \<open>Dates in a zone (rules/localClock.ts)\<close>

definition localDate :: "tzdb \<Rightarrow> instant option \<Rightarrow> string \<Rightarrow> clock_code + string" where
  "localDate tz i zone = and_then (localParts tz i zone) (\<lambda>parts. Inr (lp_date parts))"

definition localTimeLabel :: "LocalParts \<Rightarrow> string" where
  "localTimeLabel parts = pad_start 2 (CHR ''0'') (str_nat (nat (lp_hour parts))) @ '':'' @
     pad_start 2 (CHR ''0'') (str_nat (nat (lp_minute parts)))"

definition endOfLocalDay :: "tzdb \<Rightarrow> instant option \<Rightarrow> string \<Rightarrow> clock_code + instant" where
  "endOfLocalDay tz i zone = and_then (localParts tz i zone) (\<lambda>parts.
     localInstant tz (lp_date parts)
       \<lparr> tod_hour = 23, tod_minute = 59, tod_second = Some 59, tod_millisecond = Some 999 \<rparr> zone)"

definition addCalendarDays :: "string \<Rightarrow> int \<Rightarrow> clock_code + string" where
  "addCalendarDays date days = (case parse_date date of
     None \<Rightarrow> Inl DATE_INVALID
   | Some (y, m, d) \<Rightarrow>
       (let n = utc_day y (m - 1) d;
            moved = make_day (year_of n) (month_of n) (date_of n + days) in
        if \<bar>moved\<bar> > 100000000 then Inl RANGE_ERROR else Inr (iso_of_day moved)))"

definition weekdayOfDate :: "string \<Rightarrow> clock_code + int" where
  "weekdayOfDate date = (case parse_date date of
     None \<Rightarrow> Inl DATE_INVALID
   | Some (y, m, d) \<Rightarrow> Inr (week_day (utc_day y (m - 1) d)))"

section \<open>Calendar facts\<close>

lemma div_step: "0 < (k::int) \<Longrightarrow> (x + 1) div k = x div k + (if (x + 1) mod k = 0 then 1 else 0)"
proof -
  assume k: "0 < k"
  have x: "x = k * (x div k) + x mod k" by simp
  have b: "0 \<le> x mod k" "x mod k < k" using k by simp_all
  show ?thesis
  proof (cases "x mod k + 1 = k")
    case True
    then have "x + 1 = k * (x div k + 1)" using x by (metis add.assoc distrib_left mult.right_neutral)
    then show ?thesis using k by simp
  next
    case False
    then have r: "x mod k + 1 < k" "0 \<le> x mod k + 1" using b by linarith+
    have "x + 1 = k * (x div k) + (x mod k + 1)" using x by linarith
    then have "(x + 1) div k = x div k" "(x + 1) mod k = x mod k + 1"
      using r int_div_pos_eq int_mod_pos_eq by blast+
    then show ?thesis using b by simp
  qed
qed

lemma int_div_bounds: "0 < (k::int) \<Longrightarrow> k * (x div k) \<le> x \<and> x < k * (x div k) + k"
  using pos_mod_bound [of k x] pos_mod_sign [of k x] mult_div_mod_eq [of k x] by linarith

lemma div_shift: "0 < (k::int) \<Longrightarrow> c = m + 1 \<Longrightarrow> m mod k = 0 \<Longrightarrow>
  (y + 1 - c) div k = (y - c) div k + (if y mod k = 0 then 1 else 0)"
  using div_step [of k "y - c"] by (simp add: algebra_simps mod_eq_0_iff_dvd dvd_diff_left_iff)

lemma day_from_year_Suc:
  "day_from_year (y + 1) = day_from_year y + (if leap_year y then 366 else 365)"
proof -
  have d: "y mod 100 = 0 \<longrightarrow> y mod 4 = 0" "y mod 400 = 0 \<longrightarrow> y mod 100 = 0"
    using dvd_trans [of 4 100 y] dvd_trans [of 100 400 y] by (simp_all add: mod_eq_0_iff_dvd)
  define p q r where "p = (y - 1969) div 4" and "q = (y - 1901) div 100" and "r = (y - 1601) div 400"
  have s: "(y + 1 - 1969) div 4 = p + (if y mod 4 = 0 then 1 else 0)"
    "(y + 1 - 1901) div 100 = q + (if y mod 100 = 0 then 1 else 0)"
    "(y + 1 - 1601) div 400 = r + (if y mod 400 = 0 then 1 else 0)"
    unfolding p_def q_def r_def
    by (rule div_shift [where m = 1968] div_shift [where m = 1900] div_shift [where m = 1600]; simp)+
  show ?thesis
    unfolding day_from_year_def leap_year_def s p_def [symmetric] q_def [symmetric] r_def [symmetric]
    using d by (cases "y mod 4 = 0"; cases "y mod 100 = 0"; cases "y mod 400 = 0") simp_all
qed

lemma day_from_year_bounds:
  "146097 * (y - 1970) - 506 \<le> 400 * day_from_year y"
  "400 * day_from_year y \<le> 146097 * (y - 1970) + 589"
  using int_div_bounds [of 4 "y - 1969"] int_div_bounds [of 100 "y - 1901"]
    int_div_bounds [of 400 "y - 1601"]
  unfolding day_from_year_def by simp_all

lemma year_of_bounds: "day_from_year (year_of n) \<le> n" "n < day_from_year (year_of n + 1)"
proof -
  define y where "y = 1970 + 400 * n div 146097"
  have q: "146097 * (y - 1970) \<le> 400 * n" "400 * n < 146097 * (y - 1970) + 146097"
    using int_div_bounds [of 146097 "400 * n"] unfolding y_def by simp_all
  have lo: "day_from_year (y - 1) \<le> n" using day_from_year_bounds(2) [of "y - 1"] q by (simp add: algebra_simps)
  have hi: "n < day_from_year (y + 2)" using day_from_year_bounds(1) [of "y + 2"] q by (simp add: algebra_simps)
  have yo: "year_of n = (if day_from_year (y + 1) \<le> n then y + 1
     else if day_from_year y \<le> n then y else y - 1)"
    by (simp add: year_of_def y_def)
  show "day_from_year (year_of n) \<le> n" using lo by (simp add: yo)
  show "n < day_from_year (year_of n + 1)" using hi by (simp add: yo add.commute)
qed

lemma day_from_year_mono: "a \<le> b \<Longrightarrow> day_from_year a \<le> day_from_year b"
proof (induction b rule: int_ge_induct)
  case (step i)
  then show ?case using day_from_year_Suc [of i] by (simp split: if_splits)
qed simp

lemma year_of_range: "day_from_year a \<le> n \<Longrightarrow> n < day_from_year b \<Longrightarrow> a \<le> year_of n \<and> year_of n < b"
  using year_of_bounds [of n] day_from_year_mono [of "year_of n + 1" a] day_from_year_mono [of b "year_of n"]
  by linarith

lemma month_of_range: "0 \<le> month_of n \<and> month_of n \<le> 11"
  by (simp add: month_of_def month_of_day_def Let_def)

lemma month_of_day:
  "0 \<le> d \<Longrightarrow> d < (if leap then 366 else 365) \<Longrightarrow>
   month_start leap (month_of_day leap d) \<le> d \<and> d < month_start leap (month_of_day leap d) + 31"
  by (cases leap) (simp_all add: month_of_day_def month_start_def)

lemma date_of_range: "1 \<le> date_of n \<and> date_of n \<le> 31"
proof -
  define d where "d = n - day_from_year (year_of n)"
  have d: "0 \<le> d" "d < (if leap_year (year_of n) then 366 else 365)"
    using year_of_bounds [of n] day_from_year_Suc [of "year_of n"] unfolding d_def by (simp_all split: if_splits)
  show ?thesis using month_of_day [OF d]
    by (simp add: date_of_def month_of_def Let_def d_def)
qed

text \<open>The calendar fields of a day number give the day number back, and \<open>setUTCDate\<close>
  moves it by whole days.\<close>
lemma make_day_fields: "make_day (year_of n) (month_of n) (date_of n + k) = n + k"
proof -
  have "month_of n div 12 = 0" "month_of n mod 12 = month_of n"
    using month_of_range [of n] by simp_all
  then show ?thesis by (simp add: make_day_def Let_def date_of_def)
qed

lemma week_day_range: "0 \<le> week_day n \<and> week_day n \<le> 6"
  using pos_mod_bound [of 7 "n + 4"] pos_mod_sign [of 7 "n + 4"] unfolding week_day_def by linarith

section \<open>Dates as strings\<close>

text \<open>The days whose year has four digits and is not read as a two digit year:
  1 January 100 to 31 December 9999.\<close>
definition in_calendar :: "int \<Rightarrow> bool" where
  "in_calendar n \<longleftrightarrow> -683003 \<le> n \<and> n < 2932897"

lemma in_calendar_year: "in_calendar n \<Longrightarrow> 100 \<le> year_of n \<and> year_of n \<le> 9999"
proof -
  assume "in_calendar n"
  moreover have "day_from_year 100 = -683003" "day_from_year 10000 = 2932897"
    by (simp_all add: day_from_year_def)
  ultimately show ?thesis using year_of_range [of 100 n 10000] by (simp add: in_calendar_def)
qed

lemma parse_iso_date:
  "0 \<le> y \<Longrightarrow> y \<le> 9999 \<Longrightarrow> 0 \<le> m \<Longrightarrow> m \<le> 99 \<Longrightarrow> 0 \<le> d \<Longrightarrow> d \<le> 99 \<Longrightarrow>
   parse_date (iso_date y m d) = Some (y, m, d)"
  by (simp add: iso_date_def pad2 pad4 parse_date_def number_of_2 number_of_4)

lemma iso_of_day_eq: "in_calendar n \<Longrightarrow> iso_of_day n = iso_date (year_of n) (month_of n + 1) (date_of n)"
  using in_calendar_year [of n] by (simp add: iso_of_day_def Let_def)

lemma parse_iso_of_day:
  "in_calendar n \<Longrightarrow> parse_date (iso_of_day n) = Some (year_of n, month_of n + 1, date_of n)"
  using in_calendar_year [of n] month_of_range [of n] date_of_range [of n]
  by (simp add: iso_of_day_eq parse_iso_date)

lemma utc_day_fields: "in_calendar n \<Longrightarrow> utc_day (year_of n) (month_of n) (date_of n) = n"
  using in_calendar_year [of n] make_day_fields [of n 0] by (simp add: utc_day_def)

lemma addCalendarDays_iso [clock_simps]:
  assumes "in_calendar n" "in_calendar (n + k)"
  shows "addCalendarDays (iso_of_day n) k = Inr (iso_of_day (n + k))"
  using assms by (simp add: addCalendarDays_def parse_iso_of_day utc_day_fields make_day_fields)
    (auto simp: in_calendar_def Let_def abs_if)

lemma weekdayOfDate_iso [clock_simps]:
  "in_calendar n \<Longrightarrow> weekdayOfDate (iso_of_day n) = Inr (week_day n)"
  by (simp add: weekdayOfDate_def parse_iso_of_day utc_day_fields)

lemma iso_of_day_inj: "in_calendar a \<Longrightarrow> in_calendar b \<Longrightarrow> iso_of_day a = iso_of_day b \<longleftrightarrow> a = b"
  by (metis parse_iso_of_day utc_day_fields option.inject prod.inject add_right_cancel)

lemma week_day_add: "week_day (n + k) = (week_day n + k) mod 7"
  unfolding week_day_def by (simp add: mod_simps algebra_simps)

section \<open>Zones\<close>

lemma wall_date: "in_calendar (w div ms_per_day) \<Longrightarrow> lp_date (wall_parts w) = iso_of_day (w div ms_per_day)"
  using in_calendar_year [of "w div ms_per_day"]
  by (simp add: wall_parts_def Let_def iso_of_day_eq)

lemma wall_weekday [simp]: "lp_weekday (wall_parts w) = week_day (w div ms_per_day)"
  by (simp add: wall_parts_def Let_def)

lemma wall_clock:
  "lp_hour (wall_parts w) = w mod ms_per_day div 3600000"
  "lp_minute (wall_parts w) = w mod ms_per_day div 60000 mod 60"
  "lp_minuteOfDay (wall_parts w) = w mod ms_per_day div 60000"
proof -
  have *: "60 * (t div 3600000) + t div 60000 mod 60 = t div 60000" for t :: int
  proof -
    have "t div 3600000 = t div 60000 div 60" by (simp add: zdiv_zmult2_eq [symmetric])
    then show ?thesis by simp
  qed
  show "lp_hour (wall_parts w) = w mod ms_per_day div 3600000"
    "lp_minute (wall_parts w) = w mod ms_per_day div 60000 mod 60"
    by (simp_all add: wall_parts_def Let_def)
  show "lp_minuteOfDay (wall_parts w) = w mod ms_per_day div 60000"
    using * [of "w mod ms_per_day"] by (simp add: wall_parts_def Let_def mult.commute)
qed

lemma minuteOfDay_range: "0 \<le> lp_minuteOfDay (wall_parts w) \<and> lp_minuteOfDay (wall_parts w) < 1440"
proof -
  define t where "t = w mod ms_per_day"
  have "0 \<le> t" "t < 86400000" by (simp_all add: t_def ms_per_day_def)
  then have "0 \<le> t div 60000 \<and> t div 60000 < 1440"
    using int_div_bounds [of 60000 t] by simp
  then show ?thesis by (simp add: wall_clock t_def)
qed

lemma hms_eq: "(t::int) = 1000 * a + r \<Longrightarrow> a = 60 * b + s \<Longrightarrow> b = 60 * c + m \<Longrightarrow>
  3600000 * c + 60000 * m + 1000 * s + r = t"
  by simp

lemma hms: "3600000 * (t div 1000 div 60 div 60) + 60000 * (t div 1000 div 60 mod 60) +
    1000 * (t div 1000 mod 60) + t mod 1000 = (t::int)"
  by (rule hms_eq) (rule mult_div_mod_eq [symmetric])+

lemma date_utc_sum: "utc_day y m d = n \<Longrightarrow> 3600000 * h + 60000 * mi + 1000 * s + x = t \<Longrightarrow>
  date_utc y m d h mi s x = ms_per_day * n + t"
  by (simp add: date_utc_def)

text \<open>A zone whose offset at an instant is a whole number of minutes: the rounding
  of \<open>zoneOffsetMinutes\<close> returns exactly that number.\<close>
lemma zoneOffset_exact:
  assumes tz: "tz zone = Some off" and o: "off ms = 60 * m"
    and cal: "in_calendar ((ms + 60000 * m) div ms_per_day)"
  shows "zoneOffsetMinutes tz ms zone = Inr m"
proof -
  define w where "w = ms + 60000 * m"
  define n where "n = w div ms_per_day"
  define t where "t = w mod ms_per_day"
  have t: "0 \<le> t" "t < ms_per_day" by (simp_all add: t_def ms_per_day_def)
  have r: "(if js_rem ms 1000 < 0 then 1000 + js_rem ms 1000 else js_rem ms 1000) = w mod 1000"
  proof -
    have "w mod 1000 = ms mod 1000"
      using mod_mult_self2 [of ms 1000 "60 * m"] by (simp add: w_def algebra_simps)
    moreover have "(- ms) mod 1000 = (if ms mod 1000 = 0 then 0 else 1000 - ms mod 1000)"
      by (rule zmod_zminus1_eq_if)
    ultimately show ?thesis by (auto simp: js_rem_def)
  qed
  have y: "year_of n \<ge> 100" using in_calendar_year cal by (simp add: n_def w_def)
  have tt: "3600000 * (t div 3600000) + 60000 * (t div 60000 mod 60) + 1000 * (t div 1000 mod 60) + t mod 1000 = t"
  proof -
    have "t div 60000 = t div 1000 div 60" "t div 3600000 = t div 1000 div 60 div 60"
      by (simp_all add: zdiv_zmult2_eq [symmetric])
    then show ?thesis
      using hms [of t] by (simp only:)
  qed
  have "t mod 1000 = w mod 1000"
    by (simp add: t_def ms_per_day_def mod_mod_cancel)
  then have "date_utc (year_of n) (month_of n) (date_of n) (t div 3600000) (t div 60000 mod 60)
      (t div 1000 mod 60) (w mod 1000) = ms_per_day * n + t"
    using tt utc_day_fields cal unfolding n_def w_def by (intro date_utc_sum) (simp_all only:)
  also have "ms_per_day * n + t = w" unfolding n_def t_def by (rule mult_div_mod_eq)
  finally have "date_utc (year_of n) (month_of n) (date_of n) (t div 3600000) (t div 60000 mod 60)
      (t div 1000 mod 60) (w mod 1000) = w" .
  moreover have "js_round_div (w - ms) 60000 = m"
    by (simp add: js_round_div_def w_def)
  moreover have "localParts tz (Some ms) zone = Inr (wall_parts w)"
    by (simp add: localParts_def tz o w_def)
  moreover have "lp_year (wall_parts w) = year_of n" "lp_month (wall_parts w) - 1 = month_of n"
    "lp_day (wall_parts w) = date_of n" "lp_hour (wall_parts w) = t div 3600000"
    "lp_minute (wall_parts w) = t div 60000 mod 60" "lp_second (wall_parts w) = t div 1000 mod 60"
    using y by (simp_all add: wall_parts_def Let_def n_def t_def)
  ultimately show ?thesis
    by (simp only: zoneOffsetMinutes_def and_then_simps Let_def r)
qed

section \<open>Wall clock times and instants\<close>

text \<open>What a zone reads at an instant, and a zone whose only transition near an
  instant \<open>g\<close> is at \<open>T\<close>, from \<open>a\<close> to \<open>b\<close> minutes.\<close>
definition reads :: "(instant \<Rightarrow> int) \<Rightarrow> instant \<Rightarrow> int" where
  "reads off t = t + 1000 * off t"

definition one_transition :: "(instant \<Rightarrow> int) \<Rightarrow> instant \<Rightarrow> instant \<Rightarrow> int \<Rightarrow> int \<Rightarrow> bool" where
  "one_transition off g T a b \<longleftrightarrow>
     (\<forall>t. \<bar>t - g\<bar> \<le> ms_per_day \<longrightarrow> off t = (if t < T then 60 * a else 60 * b)) \<and>
     (\<forall>t. \<bar>off t\<bar> \<le> 86400) \<and> \<bar>a - b\<bar> < 1440"

lemma wall_minute:
  "lp_hour (wall_parts (60000 * q)) = q mod 1440 div 60"
  "lp_minute (wall_parts (60000 * q)) = q mod 1440 mod 60"
proof -
  have "60000 * q mod ms_per_day = 60000 * (q mod 1440)"
    using mult_mod_right [of 60000 q 1440] by (simp add: ms_per_day_def)
  moreover have "60000 * x div 3600000 = x div 60" for x :: int
    using div_mult_mult1 [of 60000 x 60] by simp
  moreover have "60000 * x div 60000 = x" for x :: int by simp
  ultimately show "lp_hour (wall_parts (60000 * q)) = q mod 1440 div 60"
    "lp_minute (wall_parts (60000 * q)) = q mod 1440 mod 60"
    by (simp_all only: wall_clock)
qed

text \<open>The same hour and minute are read at two wall clock times less than a day apart
  only when they are the same.\<close>
lemma wall_minute_eq:
  assumes "0 \<le> h" "h < 24" "0 \<le> m" "m < 60" and k: "\<bar>k\<bar> < 1440"
  shows "lp_hour (wall_parts (60000 * (1440 * n + 60 * h + m + k))) = h \<and>
         lp_minute (wall_parts (60000 * (1440 * n + 60 * h + m + k))) = m \<longleftrightarrow> k = 0"
proof -
  let ?q = "1440 * n + 60 * h + m + k"
  have "?q mod 1440 div 60 = h \<and> ?q mod 1440 mod 60 = m \<longleftrightarrow> ?q mod 1440 = 60 * h + m"
  proof
    assume "?q mod 1440 div 60 = h \<and> ?q mod 1440 mod 60 = m"
    then show "?q mod 1440 = 60 * h + m" using mult_div_mod_eq [of 60 "?q mod 1440"] by metis
  next
    assume e: "?q mod 1440 = 60 * h + m"
    have "(60 * h + m) div 60 = h" "(60 * h + m) mod 60 = m"
      using assms by (auto intro: int_div_pos_eq int_mod_pos_eq)
    then show "?q mod 1440 div 60 = h \<and> ?q mod 1440 mod 60 = m" by (simp only: e)
  qed
  also have "\<dots> \<longleftrightarrow> k = 0"
  proof
    assume e: "?q mod 1440 = 60 * h + m"
    have "(60 * h + m) mod 1440 = 60 * h + m" using assms by (intro mod_pos_pos_trivial) simp_all
    with e have "?q mod 1440 = (60 * h + m) mod 1440" by simp
    then have "1440 dvd ?q - (60 * h + m)" by (simp only: mod_eq_dvd_iff)
    then have "1440 dvd 1440 * n + k" by (simp add: algebra_simps)
    then have "1440 dvd k" by (simp add: dvd_add_right_iff)
    then show "k = 0" using k dvd_imp_le_int [of k 1440] by (cases "k = 0") simp_all
  next
    assume "k = 0"
    then have "?q = 1440 * n + (60 * h + m)" by simp
    then show "?q mod 1440 = 60 * h + m" by (rule int_mod_pos_eq) (use assms in simp_all)
  qed
  finally show ?thesis by (simp only: wall_minute)
qed

text \<open>The two corrections and the gap rule, in terms of the zone's offsets.\<close>
lemma localInstant_eval:
  assumes n: "in_calendar (n - 2)" "in_calendar (n + 2)" and hm: "0 \<le> h" "h < 24" "0 \<le> m" "m < 60"
    and tz: "tz zone = Some off"
    and g: "g = 60000 * (1440 * n + 60 * h + m)"
    and f: "f = g - 60000 * o1" and s: "s = g - 60000 * o2"
    and o: "off g = 60 * o1" "off f = 60 * o2" "off s = 60 * o3"
    and b: "\<bar>o1\<bar> \<le> 1440" "\<bar>o2\<bar> \<le> 1440" "\<bar>o3\<bar> \<le> 1440" "\<bar>o3 - o2\<bar> < 1440"
  shows "localInstant tz (iso_of_day n) (time_of_day h m) zone =
    Inr (if reads off s = g then s else max f s)"
proof -
  have cal: "in_calendar ((60000 * (1440 * n + j)) div ms_per_day)" if "-2880 \<le> j" "j < 4320" for j
  proof -
    have "60000 * (1440 * n + j) = ms_per_day * n + 60000 * j" by (simp add: ms_per_day_def)
    then have "(60000 * (1440 * n + j)) div ms_per_day = n + 60000 * j div ms_per_day"
      by (simp add: ms_per_day_def)
    moreover have "60000 * j div ms_per_day = j div 1440"
      using div_mult_mult1 [of 60000 j 1440] by (simp add: ms_per_day_def)
    moreover have "-2 \<le> j div 1440 \<and> j div 1440 \<le> 2"
      using that int_div_bounds [of 1440 j] by linarith
    ultimately show ?thesis using n by (simp add: in_calendar_def)
  qed
  have z: "zoneOffsetMinutes tz g zone = Inr o1" "zoneOffsetMinutes tz f zone = Inr o2"
  proof -
    have c: "in_calendar ((g + 60000 * o1) div ms_per_day)" "in_calendar ((f + 60000 * o2) div ms_per_day)"
    proof -
      have e: "g + 60000 * o1 = 60000 * (1440 * n + (60 * h + m + o1))"
        "f + 60000 * o2 = 60000 * (1440 * n + (60 * h + m - o1 + o2))" by (simp_all add: f g)
      show "in_calendar ((g + 60000 * o1) div ms_per_day)"
        unfolding e by (rule cal) (use b hm in linarith)+
      show "in_calendar ((f + 60000 * o2) div ms_per_day)"
        unfolding e by (rule cal) (use b hm in linarith)+
    qed
    show "zoneOffsetMinutes tz g zone = Inr o1" by (rule zoneOffset_exact [of tz zone off, OF tz o(1) c(1)])
    show "zoneOffsetMinutes tz f zone = Inr o2" by (rule zoneOffset_exact [of tz zone off, OF tz o(2) c(2)])
  qed
  have d: "in_calendar n" using n by (simp add: in_calendar_def)
  have guess: "date_utc (year_of n) (month_of n) (date_of n) h m 0 0 = g"
    using utc_day_fields [OF d] by (simp add: date_utc_def g ms_per_day_def)
  have rd: "reads off s = 60000 * (1440 * n + 60 * h + m + (o3 - o2))"
    unfolding reads_def o(3) by (simp add: s g)
  have rb: "lp_hour (wall_parts (reads off s)) = h \<and> lp_minute (wall_parts (reads off s)) = m
      \<longleftrightarrow> reads off s = g"
    unfolding rd using wall_minute_eq [OF hm b(4), of n] by (simp add: g)
  have lp: "localParts tz (Some s) zone = Inr (wall_parts (reads off s))"
    by (simp add: localParts_def tz reads_def)
  have fs: "g - o1 * 60000 = f" "g - o2 * 60000 = s" "month_of n + 1 - 1 = month_of n"
    "(if s \<noteq> f then s else f) = s" by (simp_all add: f s)
  have "localInstant tz (iso_of_day n) (time_of_day h m) zone =
    and_then (localParts tz (Some s) zone) (\<lambda>p.
      if lp_hour p \<noteq> h \<or> lp_minute p \<noteq> m then Inr (max f s) else Inr s)"
    unfolding localInstant_def parse_iso_of_day [OF d] time_of_day_def Let_def
    by (simp only: option.case prod.case LocalTimeOfDay.simps fs guess z and_then_simps)
  then show ?thesis using rb lp by (auto split: if_splits)
qed

lemma localInstant_transition:
  assumes n: "in_calendar (n - 2)" "in_calendar (n + 2)" and hm: "0 \<le> h" "h < 24" "0 \<le> m" "m < 60"
    and tz: "tz zone = Some off"
    and g: "g = 60000 * (1440 * n + 60 * h + m)"
    and z: "one_transition off g T a b" and bound: "\<bar>a\<bar> \<le> 1440" "\<bar>b\<bar> \<le> 1440"
    and f: "f = g - 60000 * (if g < T then a else b)"
    and s: "s = g - 60000 * (if f < T then a else b)"
  shows "localInstant tz (iso_of_day n) (time_of_day h m) zone = Inr (if reads off s = g then s else max f s)"
    "reads off f = f + 60000 * (if f < T then a else b)"
    "reads off s = s + 60000 * (if s < T then a else b)"
    "reads off t = g \<Longrightarrow> (t < T \<and> t = g - 60000 * a) \<or> (T \<le> t \<and> t = g - 60000 * b)"
proof -
  have o: "off t = (if t < T then 60 * a else 60 * b)" if "\<bar>t - g\<bar> \<le> ms_per_day" for t
    using z that by (simp add: one_transition_def)
  define o1 o2 o3 where "o1 = (if g < T then a else b)" and "o2 = (if f < T then a else b)"
    and "o3 = (if s < T then a else b)"
  have fs: "f = g - 60000 * o1" "s = g - 60000 * o2" by (simp_all only: f s o1_def o2_def)
  have b: "\<bar>o1\<bar> \<le> 1440" "\<bar>o2\<bar> \<le> 1440" "\<bar>o3\<bar> \<le> 1440" "\<bar>o3 - o2\<bar> < 1440"
    using bound z by (auto simp: o1_def o2_def o3_def one_transition_def)
  have near: "\<bar>g - g\<bar> \<le> ms_per_day" "\<bar>f - g\<bar> \<le> ms_per_day" "\<bar>s - g\<bar> \<le> ms_per_day"
    using b by (simp_all add: fs ms_per_day_def)
  have off: "off g = 60 * o1" "off f = 60 * o2" "off s = 60 * o3"
    using o [OF near(1)] o [OF near(2)] o [OF near(3)] by (simp_all add: o1_def o2_def o3_def)
  show "localInstant tz (iso_of_day n) (time_of_day h m) zone = Inr (if reads off s = g then s else max f s)"
    by (rule localInstant_eval [where tz = tz and zone = zone and off = off, OF n hm tz g fs off b])
  show "reads off f = f + 60000 * (if f < T then a else b)" "reads off s = s + 60000 * (if s < T then a else b)"
    unfolding reads_def off by (simp_all add: o2_def o3_def)
  show "(t < T \<and> t = g - 60000 * a) \<or> (T \<le> t \<and> t = g - 60000 * b)" if "reads off t = g"
  proof -
    have "\<bar>off t\<bar> \<le> 86400" using z by (simp add: one_transition_def)
    then have "\<bar>t - g\<bar> \<le> ms_per_day" using that by (simp add: reads_def ms_per_day_def)
    from o [OF this] that show ?thesis by (auto simp: reads_def split: if_splits)
  qed
qed

lemma localInstant_west_lemma:
  assumes n: "in_calendar (n - 2)" "in_calendar (n + 2)" and hm: "0 \<le> h" "h < 24" "0 \<le> m" "m < 60"
    and tz: "tz zone = Some off"
    and g: "g = 60000 * (1440 * n + 60 * h + m)"
    and z: "one_transition off g T a b" and west: "-1440 \<le> a" "a \<le> 0" "-1440 \<le> b" "b \<le> 0"
  shows "\<exists>r. localInstant tz (iso_of_day n) (time_of_day h m) zone = Inr r \<and>
    (if \<exists>t. reads off t = g then reads off r = g \<and> (\<forall>t. reads off t = g \<longrightarrow> r \<le> t)
     else T \<le> r \<and> g < reads off r)"
proof -
  define f where "f = g - 60000 * (if g < T then a else b)"
  define s where "s = g - 60000 * (if f < T then a else b)"
  have "\<bar>a\<bar> \<le> 1440" "\<bar>b\<bar> \<le> 1440" using west by simp_all
  note tr = localInstant_transition [where tz = tz and zone = zone, OF n hm tz g z this f_def s_def]
  note ev = tr(1) note rs = tr(2,3) note all = tr(4)
  show ?thesis
  proof (cases "reads off s = g")
    case True
    have "s \<le> t" if "reads off t = g" for t
      using all [OF that] west True rs
      by (auto simp: s_def f_def split: if_splits)
    with True ev show ?thesis by auto
  next
    case False
    then have "T \<le> f" "a < b" "s < T" "s = g - 60000 * b" "f = g - 60000 * a"
      using rs west by (auto simp: s_def f_def split: if_splits)
    moreover from this have "\<nexists>t. reads off t = g"
      using all by fastforce
    ultimately show ?thesis using False ev rs by auto
  qed
qed

text \<open>C1: in a zone west of UTC (every zone the product calls or mails into), around one
  offset transition, \<open>localInstant\<close> returns an instant at which the zone reads the date
  and time asked for whenever there is one, and the earlier of the two when the time is
  repeated (a fold); a time the zone skips (a gap) resolves to an instant at or after the
  transition that reads later than the time asked for, never earlier.\<close>
theorem localInstant_west:
  assumes n: "in_calendar (n - 2)" "in_calendar (n + 2)" and hm: "0 \<le> h" "h < 24" "0 \<le> m" "m < 60"
    and tz: "tz zone = Some off"
    and g: "g = 60000 * (1440 * n + 60 * h + m)"
    and z: "one_transition off g T a b" and west: "-1440 \<le> a" "a \<le> 0" "-1440 \<le> b" "b \<le> 0"
  shows "\<exists>r. localInstant tz (iso_of_day n) (time_of_day h m) zone = Inr r \<and>
    (if \<exists>t. reads off t = g then reads off r = g \<and> (\<forall>t. reads off t = g \<longrightarrow> r \<le> t)
     else T \<le> r \<and> g < reads off r)"
  by (rule localInstant_west_lemma [where tz = tz and zone = zone and off = off, OF assms])


text \<open>02:30 on 8 March 2026 in New York does not exist.\<close>
definition new_york_2026 :: tzdb where
  "new_york_2026 = [''America/New_York'' \<mapsto> (\<lambda>t. if t < 1772953200000 then 60 * (-300) else 60 * (-240))]"

text \<open>02:30 on 25 October 2026 happens twice in Berlin.\<close>
definition berlin_2026 :: tzdb where
  "berlin_2026 = [''Europe/Berlin'' \<mapsto> (\<lambda>t. if t < 1792890000000 then 60 * 120 else 60 * 60)]"

theorem localInstant_west_witness:
  "\<exists>r. localInstant new_york_2026 (iso_of_day 20520) (time_of_day 2 30) ''America/New_York'' = Inr r \<and>
    (if \<exists>t. reads (\<lambda>t. if t < 1772953200000 then 60 * (-300) else 60 * (-240)) t = 1772937000000
     then reads (\<lambda>t. if t < 1772953200000 then 60 * (-300) else 60 * (-240)) r = 1772937000000 \<and>
       (\<forall>t. reads (\<lambda>t. if t < 1772953200000 then 60 * (-300) else 60 * (-240)) t = 1772937000000 \<longrightarrow> r \<le> t)
     else 1772953200000 \<le> r \<and> 1772937000000 < reads (\<lambda>t. if t < 1772953200000 then 60 * (-300) else 60 * (-240)) r)"
  by (rule localInstant_west [where a = "-300" and b = "-240"])
    (simp_all add: in_calendar_def new_york_2026_def one_transition_def)


text \<open>in a zone east of UTC the same function chooses the later of the two instants of
  a repeated wall clock time, the one after the transition, although the comment above it
  promises the first; gaps still resolve forward.\<close>
theorem localInstant_east:
  assumes n: "in_calendar (n - 2)" "in_calendar (n + 2)" and hm: "0 \<le> h" "h < 24" "0 \<le> m" "m < 60"
    and tz: "tz zone = Some off"
    and g: "g = 60000 * (1440 * n + 60 * h + m)"
    and z: "one_transition off g T a b" and east: "a \<le> 1440" "0 \<le> a" "b \<le> 1440" "0 \<le> b"
  shows "\<exists>r. localInstant tz (iso_of_day n) (time_of_day h m) zone = Inr r \<and>
    (if \<exists>t. reads off t = g then reads off r = g \<and> (\<forall>t. reads off t = g \<longrightarrow> t \<le> r)
     else T \<le> r \<and> g < reads off r)"
proof -
  define f where "f = g - 60000 * (if g < T then a else b)"
  define s where "s = g - 60000 * (if f < T then a else b)"
  have "\<bar>a\<bar> \<le> 1440" "\<bar>b\<bar> \<le> 1440" using east by simp_all
  note tr = localInstant_transition [where tz = tz and zone = zone, OF n hm tz g z this f_def s_def]
  note ev = tr(1) note rs = tr(2,3) note all = tr(4)
  show ?thesis
  proof (cases "reads off s = g")
    case True
    have "t \<le> s" if "reads off t = g" for t
      using all [OF that] east True rs
      by (auto simp: s_def f_def split: if_splits)
    with True ev show ?thesis by auto
  next
    case False
    then have "f < T" "a < b" "T \<le> s" "s = g - 60000 * a" "f = g - 60000 * b"
      using rs east by (auto simp: s_def f_def split: if_splits)
    moreover from this have "\<nexists>t. reads off t = g"
      using all by fastforce
    moreover have "reads off s = s + 60000 * b"
      using rs \<open>T \<le> s\<close> by simp
    ultimately show ?thesis using False ev by (auto simp: max_def)
  qed
qed

theorem localInstant_east_witness:
  "\<exists>r. localInstant berlin_2026 (iso_of_day 20751) (time_of_day 2 30) ''Europe/Berlin'' = Inr r \<and>
    (if \<exists>t. reads (\<lambda>t. if t < 1792890000000 then 60 * 120 else 60 * 60) t = 1792895400000
     then reads (\<lambda>t. if t < 1792890000000 then 60 * 120 else 60 * 60) r = 1792895400000 \<and>
       (\<forall>t. reads (\<lambda>t. if t < 1792890000000 then 60 * 120 else 60 * 60) t = 1792895400000 \<longrightarrow> t \<le> r)
     else 1792890000000 \<le> r \<and> 1792895400000 < reads (\<lambda>t. if t < 1792890000000 then 60 * 120 else 60 * 60) r)"
  by (rule localInstant_east [where a = "120" and b = "60"])
    (simp_all add: in_calendar_def berlin_2026_def one_transition_def)

end
