(* ===== verification/BusinessDays.thy ===== *)
theory BusinessDays
  imports LocalClock
begin

text \<open>
  \<open>packages/domain/src/rules/businessDays.ts\<close> and \<open>cadence.ts\<close>: business days under a
  workspace's holiday calendar and the due instants of sequence steps.  The code's
  bounded search for a day is \<open>seek_day\<close>, shared with the sending window: the date it
  stopped at and whether the test held there.
\<close>

definition BUSINESS_DAY_RULE_VERSION :: string where
  "BUSINESS_DAY_RULE_VERSION = ''business-day.1''"

definition ELAPSED_RULE_VERSION :: string where
  "ELAPSED_RULE_VERSION = ''elapsed.1''"

record WorkspaceHolidayCalendar =
  hc_version :: string
  hc_dates :: "string list"

definition EMPTY_HOLIDAY_CALENDAR :: WorkspaceHolidayCalendar where
  "EMPTY_HOLIDAY_CALENDAR = \<lparr> hc_version = ''none.1'', hc_dates = [] \<rparr>"

datatype SequenceDelay = Elapsed (delay_hours: int) | Business_days (delay_days: int)

record ResolvedDueInstant =
  due_at :: instant
  due_sourceZone :: string
  due_ruleVersion :: string
  due_localDate :: string

fun seek_day :: "(string \<Rightarrow> clock_code + bool) \<Rightarrow> nat \<Rightarrow> string \<Rightarrow> clock_code + (string \<times> bool)" where
  "seek_day test 0 date = Inr (date, False)"
| "seek_day test (Suc k) date = and_then (test date) (\<lambda>found.
     if found then Inr (date, True)
     else and_then (addCalendarDays date 1) (seek_day test k))"

definition isWeekend :: "string \<Rightarrow> clock_code + bool" where
  "isWeekend date = and_then (weekdayOfDate date) (\<lambda>weekday. Inr (weekday = 0 \<or> weekday = 6))"

definition isBusinessDay :: "WorkspaceHolidayCalendar \<Rightarrow> string \<Rightarrow> clock_code + bool" where
  "isBusinessDay calendar date = and_then (isWeekend date) (\<lambda>weekend.
     Inr (\<not> weekend \<and> date \<notin> set (hc_dates calendar)))"

definition nextBusinessDayOnOrAfter ::
    "WorkspaceHolidayCalendar \<Rightarrow> string \<Rightarrow> clock_code + string" where
  "nextBusinessDayOnOrAfter calendar date =
     and_then (seek_day (isBusinessDay calendar) 400 date) (\<lambda>(candidate, found).
       if found then Inr candidate else Inl DATE_INVALID)"

fun business_day_steps :: "WorkspaceHolidayCalendar \<Rightarrow> nat \<Rightarrow> string \<Rightarrow> clock_code + string" where
  "business_day_steps calendar 0 candidate = Inr candidate"
| "business_day_steps calendar (Suc remaining) candidate =
     and_then (addCalendarDays candidate 1) (\<lambda>d.
     and_then (nextBusinessDayOnOrAfter calendar d) (business_day_steps calendar remaining))"

definition addBusinessDays ::
    "WorkspaceHolidayCalendar \<Rightarrow> string \<Rightarrow> int \<Rightarrow> clock_code + string" where
  "addBusinessDays calendar date days =
     (if days < 0 then Inl DATE_INVALID
      else and_then (nextBusinessDayOnOrAfter calendar date) (business_day_steps calendar (nat days)))"

record ResolveDelayInput =
  rd_from :: "instant option"
  rd_delay :: SequenceDelay
  rd_zone :: string
  rd_calendar :: "WorkspaceHolidayCalendar option"
  rd_localTimeOfDay :: "LocalTimeOfDay option"

text \<open>\<open>toISOString\<close> throws on an instant more than 100 000 000 days from the epoch.\<close>
definition toISOString :: "instant \<Rightarrow> clock_code + instant" where
  "toISOString i = (if \<bar>i\<bar> > 8640000000000000 then Inl RANGE_ERROR else Inr i)"

definition resolveDelay :: "tzdb \<Rightarrow> ResolveDelayInput \<Rightarrow> clock_code + ResolvedDueInstant" where
  "resolveDelay tz input =
     (let calendar = (case rd_calendar input of None \<Rightarrow> EMPTY_HOLIDAY_CALENDAR | Some c \<Rightarrow> c) in
      case rd_from input of
        None \<Rightarrow> Inl INSTANT_INVALID
      | Some parsed \<Rightarrow> (case rd_delay input of
          Elapsed hours \<Rightarrow>
            and_then (toISOString (parsed + hours * 3600000)) (\<lambda>dueAt.
            and_then (localDate tz (Some dueAt) (rd_zone input)) (\<lambda>ld.
              Inr \<lparr> due_at = dueAt, due_sourceZone = rd_zone input,
                    due_ruleVersion = ELAPSED_RULE_VERSION, due_localDate = ld \<rparr>))
        | Business_days days \<Rightarrow>
            and_then (localDate tz (rd_from input) (rd_zone input)) (\<lambda>startDate.
            and_then (addBusinessDays calendar startDate days) (\<lambda>targetDate.
            and_then (localInstant tz targetDate
                (case rd_localTimeOfDay input of None \<Rightarrow> time_of_day 8 0 | Some t \<Rightarrow> t)
                (rd_zone input)) (\<lambda>dueAt.
              Inr \<lparr> due_at = dueAt, due_sourceZone = rd_zone input,
                    due_ruleVersion = BUSINESS_DAY_RULE_VERSION @ ''+'' @ hc_version calendar,
                    due_localDate = targetDate \<rparr>)))))"

definition startAnchoredDueAt :: "instant option \<Rightarrow> int \<Rightarrow> clock_code + instant" where
  "startAnchoredDueAt startedAt delayHours = (case startedAt of
     None \<Rightarrow> Inl INSTANT_INVALID
   | Some parsed \<Rightarrow> toISOString (parsed + delayHours * 3600000))"

section \<open>The start-anchored due rule (rules/cadence.ts)\<close>

datatype StepChannel = Channel_email | Channel_call_task

datatype NoAnswer = NoAnswer_advance | NoAnswer_retry_call

record SequenceStep =
  step_id :: uuid
  step_ordinal :: int
  step_channel :: StepChannel
  step_delay :: SequenceDelay
  step_onNoAnswer :: "NoAnswer option"

definition resolveStepDue :: "tzdb \<Rightarrow> SequenceStep \<Rightarrow> instant option \<Rightarrow> string \<Rightarrow>
    WorkspaceHolidayCalendar option \<Rightarrow> clock_code + ResolvedDueInstant" where
  "resolveStepDue tz step startedAt zone calendar = resolveDelay tz
     \<lparr> rd_from = startedAt, rd_delay = step_delay step, rd_zone = zone,
       rd_calendar = calendar, rd_localTimeOfDay = None \<rparr>"

section \<open>Business days as day numbers\<close>

definition business_day :: "WorkspaceHolidayCalendar \<Rightarrow> int \<Rightarrow> bool" where
  "business_day calendar n \<longleftrightarrow>
     1 \<le> week_day n \<and> week_day n \<le> 5 \<and> iso_of_day n \<notin> set (hc_dates calendar)"

lemma isBusinessDay_iso [clock_simps]:
  "in_calendar n \<Longrightarrow> isBusinessDay calendar (iso_of_day n) = Inr (business_day calendar n)"
  using week_day_range [of n]
  by (auto simp: isBusinessDay_def isWeekend_def weekdayOfDate_iso business_day_def)

text \<open>The search finds the first day of its range that passes the test, and otherwise
  stops at the end of the range.\<close>
lemma seek_day_first:
  assumes "\<And>j. n \<le> j \<Longrightarrow> j < n + int k \<Longrightarrow> test (iso_of_day j) = Inr (good j)"
    and "in_calendar n" "in_calendar (n + int k)"
  shows "(\<exists>r. n \<le> r \<and> r < n + int k \<and> good r \<and> (\<forall>j. n \<le> j \<and> j < r \<longrightarrow> \<not> good j) \<and>
            seek_day test k (iso_of_day n) = Inr (iso_of_day r, True)) \<or>
         ((\<forall>j. n \<le> j \<and> j < n + int k \<longrightarrow> \<not> good j) \<and>
            seek_day test k (iso_of_day n) = Inr (iso_of_day (n + int k), False))"
  using assms
proof (induction k arbitrary: n)
  case 0
  then show ?case by auto
next
  case (Suc k)
  show ?case
  proof (cases "good n")
    case True
    then show ?thesis using Suc.prems(1) [of n] by (intro disjI1 exI [of _ n]) auto
  next
    case False
    have c: "in_calendar (n + 1)" using Suc.prems(2,3) by (simp add: in_calendar_def)
    have step: "seek_day test (Suc k) (iso_of_day n) = seek_day test k (iso_of_day (n + 1))"
      using Suc.prems(1) [of n] False addCalendarDays_iso [OF Suc.prems(2) c] by simp
    have d: "in_calendar (n + 1 + int k)" using Suc.prems(3) by (simp add: algebra_simps)
    have e: "n + int (Suc k) = n + 1 + int k" by simp
    have ok: "test (iso_of_day j) = Inr (good j)" if "n + 1 \<le> j" "j < n + 1 + int k" for j
      using that Suc.prems(1) by simp
    have later: "n + 1 \<le> j" if "n \<le> j" "good j" for j
      using that False by (cases "j = n") simp_all
    have "(\<exists>r. n + 1 \<le> r \<and> r < n + 1 + int k \<and> good r \<and> (\<forall>j. n + 1 \<le> j \<and> j < r \<longrightarrow> \<not> good j) \<and>
            seek_day test k (iso_of_day (n + 1)) = Inr (iso_of_day r, True)) \<or>
         ((\<forall>j. n + 1 \<le> j \<and> j < n + 1 + int k \<longrightarrow> \<not> good j) \<and>
            seek_day test k (iso_of_day (n + 1)) = Inr (iso_of_day (n + 1 + int k), False))"
      by (rule Suc.IH [OF _ c d]) (rule ok)
    then show ?thesis unfolding step e
    proof (elim disjE exE conjE)
      fix r assume r: "n + 1 \<le> r" "r < n + 1 + int k" "good r" "\<forall>j. n + 1 \<le> j \<and> j < r \<longrightarrow> \<not> good j"
        "seek_day test k (iso_of_day (n + 1)) = Inr (iso_of_day r, True)"
      then show "(\<exists>r. n \<le> r \<and> r < n + 1 + int k \<and> good r \<and> (\<forall>j. n \<le> j \<and> j < r \<longrightarrow> \<not> good j) \<and>
            seek_day test k (iso_of_day (n + 1)) = Inr (iso_of_day r, True)) \<or>
         ((\<forall>j. n \<le> j \<and> j < n + 1 + int k \<longrightarrow> \<not> good j) \<and>
            seek_day test k (iso_of_day (n + 1)) = Inr (iso_of_day (n + 1 + int k), False))"
        using later by (intro disjI1 exI [of _ r] conjI) (simp_all, blast)
    next
      assume "\<forall>j. n + 1 \<le> j \<and> j < n + 1 + int k \<longrightarrow> \<not> good j"
        "seek_day test k (iso_of_day (n + 1)) = Inr (iso_of_day (n + 1 + int k), False)"
      then show "(\<exists>r. n \<le> r \<and> r < n + 1 + int k \<and> good r \<and> (\<forall>j. n \<le> j \<and> j < r \<longrightarrow> \<not> good j) \<and>
            seek_day test k (iso_of_day (n + 1)) = Inr (iso_of_day r, True)) \<or>
         ((\<forall>j. n \<le> j \<and> j < n + 1 + int k \<longrightarrow> \<not> good j) \<and>
            seek_day test k (iso_of_day (n + 1)) = Inr (iso_of_day (n + 1 + int k), False))"
        using later by (intro disjI2 conjI) (blast, simp)
    qed
  qed
qed

lemma next_business_day_cases:
  assumes "in_calendar n" "in_calendar (n + 400)"
  shows "(\<exists>r. n \<le> r \<and> r < n + 400 \<and> business_day calendar r \<and>
            (\<forall>j. n \<le> j \<and> j < r \<longrightarrow> \<not> business_day calendar j) \<and>
            nextBusinessDayOnOrAfter calendar (iso_of_day n) = Inr (iso_of_day r)) \<or>
         ((\<forall>j. n \<le> j \<and> j < n + 400 \<longrightarrow> \<not> business_day calendar j) \<and>
            nextBusinessDayOnOrAfter calendar (iso_of_day n) = Inl DATE_INVALID)"
proof -
  have "isBusinessDay calendar (iso_of_day j) = Inr (business_day calendar j)"
    if "n \<le> j" "j < n + int 400" for j
    using that assms by (intro isBusinessDay_iso) (simp add: in_calendar_def)
  from seek_day_first [of n 400 "isBusinessDay calendar" "business_day calendar", OF this assms(1)] assms(2)
  show ?thesis by (auto simp: nextBusinessDayOnOrAfter_def)
qed


lemma weekdays_in_400_days: "285 \<le> card {j. n \<le> j \<and> j < n + 400 \<and> 1 \<le> week_day j \<and> week_day j \<le> 5}"
proof -
  define f where "f = (\<lambda>(r, i). n + (r - 4 - n) mod 7 + 7 * int i)"
  let ?D = "{1..5::int} \<times> {0..<57::nat}"
  have wd: "week_day (f (r, i)) = r" if "1 \<le> r" "r \<le> 5" for r i
  proof -
    have "week_day (f (r, i)) = (n + 4 + (r - 4 - n) mod 7 + 7 * int i) mod 7"
      by (simp add: week_day_def f_def algebra_simps)
    also have "\<dots> = r mod 7" by (simp add: mod_simps)
    finally show ?thesis using that by simp
  qed
  have inj: "inj_on f ?D"
  proof (rule inj_onI, clarify)
    fix r i r' i' assume d: "r \<in> {1..5}" "r' \<in> {1..5}" and e: "f (r, i) = f (r', i')"
    have "r = r'" using wd [of r i] wd [of r' i'] d e by simp
    then show "r = r' \<and> i = i'" using e by (simp add: f_def)
  qed
  have sub: "f ` ?D \<subseteq> {j. n \<le> j \<and> j < n + 400 \<and> 1 \<le> week_day j \<and> week_day j \<le> 5}"
  proof clarify
    fix r i assume d: "r \<in> {1..5::int}" "i \<in> {0..<57::nat}"
    have "0 \<le> (r - 4 - n) mod 7" "(r - 4 - n) mod 7 < 7" by simp_all
    then have "n \<le> f (r, i)" "f (r, i) < n + 400" using d by (simp_all add: f_def)
    then show "n \<le> f (r, i) \<and> f (r, i) < n + 400 \<and> 1 \<le> week_day (f (r, i)) \<and> week_day (f (r, i)) \<le> 5"
      using wd d by simp
  qed
  have "finite {j. n \<le> j \<and> j < n + 400 \<and> 1 \<le> week_day j \<and> week_day j \<le> 5}"
    by (rule finite_subset [of _ "{n..n + 400}"]) auto
  from card_mono [OF this sub] show ?thesis by (simp add: card_image [OF inj])
qed

text \<open>Fewer than 285 holidays cannot cover the weekdays of 400 days.\<close>
lemma business_day_exists:
  assumes "in_calendar n" "in_calendar (n + 400)" "length (hc_dates calendar) < 285"
  shows "\<exists>j. n \<le> j \<and> j < n + 400 \<and> business_day calendar j"
proof (rule ccontr)
  let ?W = "{j. n \<le> j \<and> j < n + 400 \<and> 1 \<le> week_day j \<and> week_day j \<le> 5}"
  assume "\<not> ?thesis"
  then have "iso_of_day ` ?W \<subseteq> set (hc_dates calendar)" by (auto simp: business_day_def)
  then have "card (iso_of_day ` ?W) \<le> length (hc_dates calendar)"
    by (meson List.finite_set card_length card_mono le_trans)
  moreover have "inj_on iso_of_day ?W"
    using assms(1,2) iso_of_day_inj by (intro inj_onI) (auto simp: in_calendar_def)
  ultimately show False using weekdays_in_400_days [of n] assms(3) by (simp add: card_image)
qed

text \<open>under a calendar of fewer than 285 holidays the search for a business day never
  throws: it returns the first day on or after the given one that is neither a weekend
  nor a holiday, within 400 days.\<close>
theorem nextBusinessDay_first:
  assumes "in_calendar n" "in_calendar (n + 400)" "length (hc_dates calendar) < 285"
  shows "\<exists>r. nextBusinessDayOnOrAfter calendar (iso_of_day n) = Inr (iso_of_day r) \<and>
    n \<le> r \<and> r < n + 400 \<and> business_day calendar r \<and>
    (\<forall>j. n \<le> j \<and> j < r \<longrightarrow> \<not> business_day calendar j)"
  using next_business_day_cases [OF assms(1,2), of calendar] business_day_exists [OF assms] by blast

theorem nextBusinessDay_first_witness:
  "\<exists>r. nextBusinessDayOnOrAfter \<lparr> hc_version = ''us'', hc_dates = [''2026-12-25''] \<rparr> (iso_of_day 20812) =
      Inr (iso_of_day r) \<and> 20812 \<le> r \<and> r < 20812 + 400 \<and>
    business_day \<lparr> hc_version = ''us'', hc_dates = [''2026-12-25''] \<rparr> r \<and>
    (\<forall>j. 20812 \<le> j \<and> j < r \<longrightarrow> \<not> business_day \<lparr> hc_version = ''us'', hc_dates = [''2026-12-25''] \<rparr> j)"
  by (rule nextBusinessDay_first) (simp_all add: in_calendar_def)

definition business_days_between :: "WorkspaceHolidayCalendar \<Rightarrow> int \<Rightarrow> int \<Rightarrow> int set" where
  "business_days_between calendar a b = {j. a \<le> j \<and> j \<le> b \<and> business_day calendar j}"

lemma finite_business_days [simp]: "finite (business_days_between calendar a b)"
  by (rule finite_subset [of _ "{a..b}"]) (auto simp: business_days_between_def)

lemma business_day_steps_count:
  assumes "in_calendar c" "in_calendar (c + 400 * (int k + 1))" "length (hc_dates calendar) < 285"
    and "business_day calendar c"
  shows "\<exists>r. business_day_steps calendar k (iso_of_day c) = Inr (iso_of_day r) \<and> c \<le> r \<and>
    business_day calendar r \<and> card (business_days_between calendar c r) = k + 1"
  using assms
proof (induction k arbitrary: c)
  case 0
  have "business_days_between calendar c c = {c}"
    using 0 by (auto simp: business_days_between_def)
  then show ?case using 0 by (intro exI [of _ c]) simp
next
  case (Suc k)
  have cal: "in_calendar (c + 1)" "in_calendar (c + 1 + 400)"
    using Suc.prems by (simp_all add: in_calendar_def)
  obtain r where r: "nextBusinessDayOnOrAfter calendar (iso_of_day (c + 1)) = Inr (iso_of_day r)"
      "c + 1 \<le> r" "r < c + 1 + 400" "business_day calendar r"
      "\<forall>j. c + 1 \<le> j \<and> j < r \<longrightarrow> \<not> business_day calendar j"
    using next_business_day_cases [OF cal, of calendar] business_day_exists [OF cal Suc.prems(3)] by blast
  have "in_calendar r" "in_calendar (r + 400 * (int k + 1))"
    using r Suc.prems by (simp_all add: in_calendar_def)
  from Suc.IH [OF this Suc.prems(3) r(4)] obtain q where
    q: "business_day_steps calendar k (iso_of_day r) = Inr (iso_of_day q)" "r \<le> q" "business_day calendar q"
      "card (business_days_between calendar r q) = k + 1" by blast
  have gap: "j = c \<or> r \<le> j" if "c \<le> j" "business_day calendar j" for j
  proof (cases "j = c")
    case False
    then have "c + 1 \<le> j" using that by simp
    then show ?thesis using r(5) that(2) by force
  qed simp
  have "business_days_between calendar c q = insert c (business_days_between calendar r q)"
    using r(2) q(2) Suc.prems(4) gap unfolding business_days_between_def by fastforce
  moreover have "c \<notin> business_days_between calendar r q" using r by (simp add: business_days_between_def)
  ultimately show ?case
    using q r addCalendarDays_iso [OF Suc.prems(1) cal(1)] by (intro exI [of _ q]) simp
qed

text \<open>C4: \<open>addBusinessDays\<close> of \<open>d\<close> days returns a business day, and from the start date up
  to it there are exactly \<open>d + 1\<close> business days (the day the count starts on included),
  under a calendar of fewer than 285 holidays.\<close>
theorem addBusinessDays_counts:
  assumes "in_calendar n" "in_calendar (n + 400 * (int d + 2))" "length (hc_dates calendar) < 285"
  shows "\<exists>r. addBusinessDays calendar (iso_of_day n) (int d) = Inr (iso_of_day r) \<and> n \<le> r \<and>
    business_day calendar r \<and> card (business_days_between calendar n r) = d + 1"
proof -
  have "in_calendar (n + 400)" using assms by (simp add: in_calendar_def)
  from next_business_day_cases [OF assms(1) this, of calendar] business_day_exists [OF assms(1) this assms(3)]
  obtain c where c: "nextBusinessDayOnOrAfter calendar (iso_of_day n) = Inr (iso_of_day c)" "n \<le> c"
      "c < n + 400" "business_day calendar c" "\<forall>j. n \<le> j \<and> j < c \<longrightarrow> \<not> business_day calendar j" by blast
  then have "in_calendar c" "in_calendar (c + 400 * (int d + 1))"
    using assms by (simp_all add: in_calendar_def)
  from business_day_steps_count [OF this assms(3) c(4)] obtain r where
    r: "business_day_steps calendar d (iso_of_day c) = Inr (iso_of_day r)" "c \<le> r"
      "business_day calendar r" "card (business_days_between calendar c r) = d + 1" by blast
  have "business_days_between calendar n r = business_days_between calendar c r"
    using c r by (force simp: business_days_between_def)
  then show ?thesis using r c by (intro exI [of _ r]) (simp add: addBusinessDays_def)
qed

theorem addBusinessDays_counts_witness:
  "\<exists>r. addBusinessDays EMPTY_HOLIDAY_CALENDAR (iso_of_day 20520) (int 3) = Inr (iso_of_day r) \<and> 20520 \<le> r \<and>
    business_day EMPTY_HOLIDAY_CALENDAR r \<and>
    card (business_days_between EMPTY_HOLIDAY_CALENDAR 20520 r) = 3 + 1"
  by (rule addBusinessDays_counts) (simp_all add: in_calendar_def EMPTY_HOLIDAY_CALENDAR_def)

end
