(* ===== verification/SendingWindow.thy ===== *)
theory SendingWindow
  imports BusinessDays
begin

text \<open>
  \<open>packages/domain/src/rules/sendingWindow.ts\<close>: where a due email goes out.  Inside a
  window it stays where it is; otherwise it moves to the opening of the same or the next
  sending day on the firm's own clock.
\<close>

record EmailWindow =
  openMinute :: int
  preferredEndMinute :: int
  closeMinute :: int

definition PROSPECTING_EMAIL_WINDOW :: EmailWindow where
  "PROSPECTING_EMAIL_WINDOW =
     \<lparr> openMinute = 9 * 60, preferredEndMinute = 11 * 60, closeMinute = 11 * 60 \<rparr>"

definition PROSPECTING_DEFAULT_HOUR :: int where
  "PROSPECTING_DEFAULT_HOUR = 10"

definition EMAIL_WINDOW :: EmailWindow where
  "EMAIL_WINDOW = \<lparr> openMinute = 8 * 60, preferredEndMinute = 12 * 60, closeMinute = 17 * 60 \<rparr>"

definition EMAIL_WINDOW_WEEKDAYS :: "int list" where
  "EMAIL_WINDOW_WEEKDAYS = [1, 2, 3, 4, 5]"

datatype EmailWindowBand = Band_morning | Band_overflow

record EmailSendPlacement =
  sendAt :: instant
  band :: EmailWindowBand
  inPlace :: bool
  placed_localDate :: string
  placed_sourceZone :: string

record PlaceEmailSendOptions =
  opt_calendar :: "WorkspaceHolidayCalendar option"
  opt_prospecting :: bool

definition isSendingDay :: "string \<Rightarrow> int \<Rightarrow> WorkspaceHolidayCalendar \<Rightarrow> bool" where
  "isSendingDay date weekday calendar \<longleftrightarrow>
     weekday \<in> set EMAIL_WINDOW_WEEKDAYS \<and> date \<notin> set (hc_dates calendar)"

text \<open>The test of the forward search: the weekday is read at local noon.\<close>
definition sendingDayAtNoon ::
    "tzdb \<Rightarrow> string \<Rightarrow> WorkspaceHolidayCalendar \<Rightarrow> string \<Rightarrow> clock_code + bool" where
  "sendingDayAtNoon tz zone calendar date =
     and_then (localInstant tz date (time_of_day 12 0) zone) (\<lambda>noon.
     and_then (localParts tz (Some noon) zone) (\<lambda>parts.
       Inr (isSendingDay date (lp_weekday parts) calendar)))"

definition placeEmailSend :: "tzdb \<Rightarrow> instant option \<Rightarrow> string \<Rightarrow> PlaceEmailSendOptions \<Rightarrow>
    clock_code + EmailSendPlacement" where
  "placeEmailSend tz dueAt zone options =
     (let calendar = (case opt_calendar options of None \<Rightarrow> EMPTY_HOLIDAY_CALENDAR | Some c \<Rightarrow> c) in
      and_then (localParts tz dueAt zone) (\<lambda>parts.
      let w = (if opt_prospecting options then PROSPECTING_EMAIL_WINDOW else EMAIL_WINDOW);
          nextHour = (if opt_prospecting options then PROSPECTING_DEFAULT_HOUR else 8);
          bandOf = (\<lambda>m. if m < preferredEndMinute w then Band_morning else Band_overflow);
          sendingDay = isSendingDay (lp_date parts) (lp_weekday parts) calendar in
      if sendingDay \<and> openMinute w \<le> lp_minuteOfDay parts \<and> lp_minuteOfDay parts < closeMinute w
      then Inr \<lparr> sendAt = the dueAt, band = bandOf (lp_minuteOfDay parts), inPlace = True,
                 placed_localDate = lp_date parts, placed_sourceZone = zone \<rparr>
      else
        let openToday = (sendingDay \<and> lp_minuteOfDay parts < openMinute w) in
        and_then (if openToday then Inr (lp_date parts) else addCalendarDays (lp_date parts) 1) (\<lambda>start.
        and_then (seek_day (sendingDayAtNoon tz zone calendar) 400 start) (\<lambda>(date, _).
        and_then (localInstant tz date (time_of_day nextHour 0) zone) (\<lambda>at.
          Inr \<lparr> sendAt = at, band = Band_morning, inPlace = False,
                placed_localDate = date, placed_sourceZone = zone \<rparr>)))))"

section \<open>Where a send lands\<close>

text \<open>What the placement relies on of the tz database: offsets in whole minutes west of
  UTC and less than a day, at most one transition within a day of a local 08:00, 10:00 or
  12:00, and that time read exactly once.\<close>
definition daytime_clear :: "(instant \<Rightarrow> int) \<Rightarrow> bool" where
  "daytime_clear off \<longleftrightarrow> (\<forall>n h. h \<in> {8, 10, 12} \<longrightarrow>
     (let g = 60000 * (1440 * n + 60 * h) in
      (\<exists>T a b. one_transition off g T a b \<and> -1440 \<le> a \<and> a \<le> 0 \<and> -1440 \<le> b \<and> b \<le> 0) \<and>
      (\<exists>!t. reads off t = g)))"

lemma daytime_clearD:
  "daytime_clear off \<Longrightarrow> h \<in> {8, 10, 12} \<Longrightarrow>
   (\<exists>T a b. one_transition off (60000 * (1440 * n + 60 * h)) T a b \<and> -1440 \<le> a \<and> a \<le> 0 \<and> -1440 \<le> b \<and> b \<le> 0) \<and>
   (\<exists>!t. reads off t = 60000 * (1440 * n + 60 * h))"
  unfolding daytime_clear_def Let_def by blast

lemma daytime_instant:
  assumes "daytime_clear off" "tz zone = Some off" "in_calendar (n - 2)" "in_calendar (n + 2)"
    and h: "h \<in> {8, 10, 12}"
  shows "\<exists>r. localInstant tz (iso_of_day n) (time_of_day h 0) zone = Inr r \<and>
    reads off r = ms_per_day * n + 3600000 * h"
proof -
  define g where "g = 60000 * (1440 * n + 60 * h + 0)"
  obtain T a b where z: "one_transition off g T a b" "-1440 \<le> a" "a \<le> 0" "-1440 \<le> b" "b \<le> 0"
    and u: "\<exists>!t. reads off t = g"
    using daytime_clearD [OF assms(1) h, of n] unfolding g_def add_0_right by blast
  have "0 \<le> h" "h < 24" using h by auto
  have ex: "\<exists>t. reads off t = g" using u by blast
  obtain r where "localInstant tz (iso_of_day n) (time_of_day h 0) zone = Inr r"
    "if \<exists>t. reads off t = g then reads off r = g \<and> (\<forall>t. reads off t = g \<longrightarrow> r \<le> t)
     else T \<le> r \<and> g < reads off r"
    using localInstant_west_lemma [where tz = tz and zone = zone,
      OF assms(3,4) \<open>0 \<le> h\<close> \<open>h < 24\<close> order.refl zero_less_numeral assms(2) g_def z] by blast
  then have "\<exists>r. localInstant tz (iso_of_day n) (time_of_day h 0) zone = Inr r \<and> reads off r = g"
    unfolding if_P [OF ex] by blast
  moreover have "g = ms_per_day * n + 3600000 * h" by (simp add: g_def ms_per_day_def)
  ultimately show ?thesis by simp
qed

text \<open>A later wall clock time that is read only once is a later instant.\<close>
lemma reads_once_mono:
  assumes z: "one_transition off g T a b" and u: "\<exists>!t. reads off t = g"
    and r: "reads off r = g" and t: "reads off t < g"
  shows "t < r"
proof (rule ccontr)
  assume "\<not> t < r"
  have o: "off x = (if x < T then 60 * a else 60 * b)" if "\<bar>x - g\<bar> \<le> ms_per_day" for x
    using z that by (simp add: one_transition_def)
  have bd: "\<bar>off r\<bar> \<le> 86400" "\<bar>off t\<bar> \<le> 86400" using z by (simp_all add: one_transition_def)
  have near: "\<bar>r - g\<bar> \<le> ms_per_day" "\<bar>t - g\<bar> \<le> ms_per_day"
    using bd r t \<open>\<not> t < r\<close> by (simp_all add: reads_def ms_per_day_def abs_le_iff)
  have "r < T" "T \<le> t" "r + 60000 * a = g" "t + 60000 * b < g"
    using o [OF near(1)] o [OF near(2)] r t \<open>\<not> t < r\<close> by (auto simp: reads_def split: if_splits)
  define x where "x = g - 60000 * b"
  have "T \<le> x" using \<open>T \<le> t\<close> \<open>t + 60000 * b < g\<close> by (simp add: x_def)
  moreover have "\<bar>x - g\<bar> \<le> ms_per_day"
    using o [OF near(2)] \<open>T \<le> t\<close> bd by (simp add: x_def ms_per_day_def abs_le_iff)
  ultimately have "reads off x = g" using o [of x] by (simp add: reads_def x_def)
  with u r have "x = r" by blast
  then show False using \<open>T \<le> x\<close> \<open>r < T\<close> by simp
qed

definition sending_day :: "WorkspaceHolidayCalendar \<Rightarrow> int \<Rightarrow> bool" where
  "sending_day calendar n \<longleftrightarrow> isSendingDay (iso_of_day n) (week_day n) calendar"

lemma sending_day_business: "sending_day calendar n \<longleftrightarrow> business_day calendar n"
  using week_day_range [of n]
  by (auto simp: sending_day_def isSendingDay_def business_day_def EMAIL_WINDOW_WEEKDAYS_def)

lemma noon_day: "(ms_per_day * n + 3600000 * h) div ms_per_day = n" if "0 \<le> h" "h < 24"
  by (rule int_div_pos_eq [where r = "3600000 * h"]) (use that in \<open>simp_all add: ms_per_day_def\<close>)

lemma sendingDayAtNoon_iso:
  assumes "daytime_clear off" "tz zone = Some off" "in_calendar (n - 2)" "in_calendar (n + 2)"
  shows "sendingDayAtNoon tz zone calendar (iso_of_day n) = Inr (sending_day calendar n)"
proof -
  obtain r where r: "localInstant tz (iso_of_day n) (time_of_day 12 0) zone = Inr r"
      "reads off r = ms_per_day * n + 3600000 * 12"
    using daytime_instant [where h = 12 and tz = tz and zone = zone, OF assms] by auto
  have "(r + 1000 * off r) div ms_per_day = n"
    using noon_day [of 12 n] r(2) by (simp add: reads_def)
  then show ?thesis
    by (simp add: sendingDayAtNoon_def r(1) localParts_def assms(2) sending_day_def)
qed


lemma reads_later:
  assumes "daytime_clear off" "h \<in> {8, 10, 12}" "reads off r = ms_per_day * n + 3600000 * h"
    and "reads off t < ms_per_day * n + 3600000 * h"
  shows "t < r"
proof -
  have g: "60000 * (1440 * n + 60 * h) = ms_per_day * n + 3600000 * h" by (simp add: ms_per_day_def)
  obtain T a b where "one_transition off (60000 * (1440 * n + 60 * h)) T a b"
      "\<exists>!t. reads off t = 60000 * (1440 * n + 60 * h)"
    using daytime_clearD [OF assms(1,2), of n] by blast
  then show ?thesis using reads_once_mono assms(3,4) unfolding g by blast
qed

lemma noon_minute: "(ms_per_day * n + 3600000 * h) mod ms_per_day div 60000 = 60 * h" if "0 \<le> h" "h < 24"
proof -
  have "(ms_per_day * n + 3600000 * h) mod ms_per_day = 3600000 * h"
    by (rule int_mod_pos_eq [where q = n]) (use that in \<open>simp_all add: ms_per_day_def\<close>)
  moreover have "3600000 * h div 60000 = 60 * h" by simp
  ultimately show ?thesis by simp
qed

definition window_of :: "PlaceEmailSendOptions \<Rightarrow> EmailWindow" where
  "window_of options = (if opt_prospecting options then PROSPECTING_EMAIL_WINDOW else EMAIL_WINDOW)"

definition calendar_of :: "PlaceEmailSendOptions \<Rightarrow> WorkspaceHolidayCalendar" where
  "calendar_of options =
     (case opt_calendar options of None \<Rightarrow> EMPTY_HOLIDAY_CALENDAR | Some c \<Rightarrow> c)"

text \<open>The forward branch: from the first candidate day on, the opening of the first
  sending day.\<close>
lemma place_forward:
  assumes z: "daytime_clear off" "tz zone = Some off" and c: "in_calendar (n - 2)" "in_calendar (n + 402)"
    and holidays: "length (hc_dates calendar) < 285" and h: "h \<in> {8, 10, 12}"
  shows "\<exists>r at. seek_day (sendingDayAtNoon tz zone calendar) 400 (iso_of_day n) = Inr (iso_of_day r, True) \<and>
    n \<le> r \<and> business_day calendar r \<and> (\<forall>j. n \<le> j \<and> j < r \<longrightarrow> \<not> business_day calendar j) \<and>
    localInstant tz (iso_of_day r) (time_of_day h 0) zone = Inr at \<and>
    reads off at = ms_per_day * r + 3600000 * h"
proof -
  have cal: "in_calendar j" if "n - 2 \<le> j" "j \<le> n + 402" for j
    using that c by (simp add: in_calendar_def)
  have test: "sendingDayAtNoon tz zone calendar (iso_of_day j) = Inr (business_day calendar j)"
    if "n \<le> j" "j < n + int 400" for j
    unfolding sending_day_business [symmetric]
    by (rule sendingDayAtNoon_iso [where off = off and tz = tz and zone = zone, OF z]) (use that in \<open>auto intro: cal\<close>)
  have ends: "in_calendar n" "in_calendar (n + 400)" "in_calendar (n + int 400)" by (simp_all add: cal)
  have "(\<exists>r. n \<le> r \<and> r < n + int 400 \<and> business_day calendar r \<and>
            (\<forall>j. n \<le> j \<and> j < r \<longrightarrow> \<not> business_day calendar j) \<and>
            seek_day (sendingDayAtNoon tz zone calendar) 400 (iso_of_day n) = Inr (iso_of_day r, True)) \<or>
         ((\<forall>j. n \<le> j \<and> j < n + int 400 \<longrightarrow> \<not> business_day calendar j) \<and>
            seek_day (sendingDayAtNoon tz zone calendar) 400 (iso_of_day n) = Inr (iso_of_day (n + int 400), False))"
    by (rule seek_day_first [OF _ ends(1,3)]) (rule test)
  then obtain r where r: "n \<le> r" "r < n + 400" "business_day calendar r"
      "\<forall>j. n \<le> j \<and> j < r \<longrightarrow> \<not> business_day calendar j"
      "seek_day (sendingDayAtNoon tz zone calendar) 400 (iso_of_day n) = Inr (iso_of_day r, True)"
    using business_day_exists [OF ends(1,2) holidays] by auto
  have "in_calendar (r - 2)" "in_calendar (r + 2)" using r by (auto intro: cal)
  from daytime_instant [where tz = tz and zone = zone, OF z this h] r show ?thesis by blast
qed

text \<open>C19: in a zone whose local 08:00, 10:00 and 12:00 are clear of transitions and under a
  calendar of fewer than 285 holidays, every due email is placed, never before it is due,
  on a Monday to Friday that is no holiday and inside its window on the firm's clock; it
  stays on the due date when that is a sending day whose window has not closed, and
  otherwise goes out on the first sending day after it.\<close>
theorem placeEmailSend_in_window:
  assumes z: "daytime_clear off" "tz zone = Some off"
    and d: "d = reads off due div ms_per_day" and c: "in_calendar (d - 2)" "in_calendar (d + 403)"
    and holidays: "length (hc_dates (calendar_of options)) < 285"
  shows "\<exists>p n minute. placeEmailSend tz (Some due) zone options = Inr p \<and> due \<le> sendAt p \<and>
    n = reads off (sendAt p) div ms_per_day \<and> minute = reads off (sendAt p) mod ms_per_day div 60000 \<and>
    placed_localDate p = iso_of_day n \<and> business_day (calendar_of options) n \<and>
    openMinute (window_of options) \<le> minute \<and> minute < closeMinute (window_of options) \<and>
    (if business_day (calendar_of options) d \<and>
        reads off due mod ms_per_day div 60000 < closeMinute (window_of options)
     then n = d
     else d < n \<and> (\<forall>j. d < j \<and> j < n \<longrightarrow> \<not> business_day (calendar_of options) j))"
proof -
  define cal where "cal = calendar_of options"
  define w where "w = window_of options"
  define hour where "hour = (if opt_prospecting options then PROSPECTING_DEFAULT_HOUR else 8)"
  define m where "m = reads off due mod ms_per_day div 60000"
  have dc: "in_calendar d" "in_calendar (d + 1)" using c by (simp_all add: in_calendar_def)
  have hour: "hour \<in> {8, 10, 12}" "0 \<le> hour" "hour < 24"
    "openMinute w \<le> 60 * hour" "60 * hour < closeMinute w"
    by (simp_all add: hour_def w_def window_of_def PROSPECTING_DEFAULT_HOUR_def
      PROSPECTING_EMAIL_WINDOW_def EMAIL_WINDOW_def)
  have due: "reads off due = ms_per_day * d + reads off due mod ms_per_day"
    unfolding d by (rule mult_div_mod_eq [symmetric])
  have within: "reads off due mod ms_per_day < 60000 * m + 60000" "reads off due mod ms_per_day < ms_per_day"
    using int_div_bounds [of 60000 "reads off due mod ms_per_day"] unfolding m_def by (simp_all add: ms_per_day_def)
  have parts: "localParts tz (Some due) zone = Inr (wall_parts (reads off due))"
    by (simp add: localParts_def z(2) reads_def)
  have fields: "lp_date (wall_parts (reads off due)) = iso_of_day d"
    "lp_minuteOfDay (wall_parts (reads off due)) = m"
    using wall_date [of "reads off due"] dc(1) by (simp_all add: d m_def wall_clock)
  have sd: "isSendingDay (iso_of_day d) (lp_weekday (wall_parts (reads off due))) cal = business_day cal d"
    using sending_day_business [of cal d] by (simp add: d sending_day_def)
  have ev: "placeEmailSend tz (Some due) zone options =
    (if business_day cal d \<and> openMinute w \<le> m \<and> m < closeMinute w
     then Inr \<lparr> sendAt = due, band = (if m < preferredEndMinute w then Band_morning else Band_overflow),
                inPlace = True, placed_localDate = iso_of_day d, placed_sourceZone = zone \<rparr>
     else and_then (if business_day cal d \<and> m < openMinute w then Inr (iso_of_day d)
                    else addCalendarDays (iso_of_day d) 1) (\<lambda>start.
        and_then (seek_day (sendingDayAtNoon tz zone cal) 400 start) (\<lambda>(date, _).
        and_then (localInstant tz date (time_of_day hour 0) zone) (\<lambda>at.
          Inr \<lparr> sendAt = at, band = Band_morning, inPlace = False,
                placed_localDate = date, placed_sourceZone = zone \<rparr>))))"
    unfolding placeEmailSend_def Let_def parts and_then_simps fields
      cal_def [unfolded calendar_of_def, symmetric] w_def [unfolded window_of_def, symmetric]
      hour_def [symmetric] sd option.sel ..
  show ?thesis
  proof (cases "business_day cal d \<and> openMinute w \<le> m \<and> m < closeMinute w")
    case True
    then show ?thesis unfolding ev cal_def [symmetric] w_def [symmetric]
      by (simp add: d [symmetric] m_def [symmetric])
  next
    case False
    define start where "start = (if business_day cal d \<and> m < openMinute w then d else d + 1)"
    have "in_calendar (start - 2)" "in_calendar (start + 402)"
      using c by (auto simp: start_def in_calendar_def)
    from place_forward [where tz = tz and zone = zone and calendar = cal and h = hour, OF z this] holidays hour(1)
    obtain r at where r: "seek_day (sendingDayAtNoon tz zone cal) 400 (iso_of_day start) = Inr (iso_of_day r, True)"
        "start \<le> r" "business_day cal r" "\<forall>j. start \<le> j \<and> j < r \<longrightarrow> \<not> business_day cal j"
        "localInstant tz (iso_of_day r) (time_of_day hour 0) zone = Inr at"
        "reads off at = ms_per_day * r + 3600000 * hour"
      unfolding cal_def by blast
    have st: "(if business_day cal d \<and> m < openMinute w then Inr (iso_of_day d)
                    else addCalendarDays (iso_of_day d) 1) = Inr (iso_of_day start)"
      using addCalendarDays_iso [OF dc] by (simp add: start_def)
    have p: "placeEmailSend tz (Some due) zone options = Inr \<lparr> sendAt = at, band = Band_morning,
        inPlace = False, placed_localDate = iso_of_day r, placed_sourceZone = zone \<rparr>"
      unfolding ev st if_not_P [OF False] and_then_simps r(1) prod.case r(5) ..
    have at: "reads off at div ms_per_day = r" "reads off at mod ms_per_day div 60000 = 60 * hour"
      unfolding r(6) using noon_day [OF hour(2,3)] noon_minute [OF hour(2,3)] by simp_all
    have "ms_per_day * start \<le> ms_per_day * r" using r(2) by (simp add: ms_per_day_def)
    then have "reads off due < ms_per_day * r + 3600000 * hour"
      using due within hour by (auto simp: start_def ms_per_day_def split: if_splits)
    then have "due < at" using reads_later [OF z(1) hour(1) r(6)] by blast
    moreover have "if business_day cal d \<and> m < closeMinute w then r = d
        else d < r \<and> (\<forall>j. d < j \<and> j < r \<longrightarrow> \<not> business_day cal j)"
    proof (cases "business_day cal d \<and> m < closeMinute w")
      case True
      then have "start = d" using False by (auto simp: start_def)
      then have "r = d" using True r(2,4) by (metis linorder_not_less order_antisym_conv order.refl)
      then show ?thesis using True by simp
    next
      case F: False
      moreover have "openMinute w \<le> closeMinute w" using hour by simp
      ultimately have "start = d + 1" by (auto simp: start_def)
      then show ?thesis using F r(2,4) by (auto simp: add1_zle_eq)
    qed
    ultimately show ?thesis
      unfolding p cal_def [symmetric] w_def [symmetric] m_def [symmetric]
      using at r(3) hour(4,5)
      by (intro exI [of _ "\<lparr> sendAt = at, band = Band_morning, inPlace = False,
          placed_localDate = iso_of_day r, placed_sourceZone = zone \<rparr>"]
        exI [of _ r] exI [of _ "60 * hour"] conjI)
        (simp_all only: EmailSendPlacement.simps less_imp_le)
  qed
qed

text \<open>Arizona keeps one offset all year.\<close>
definition phoenix :: tzdb where
  "phoenix = [''America/Phoenix'' \<mapsto> (\<lambda>_. 60 * (-420))]"

lemma phoenix_daytime_clear: "daytime_clear (\<lambda>_. 60 * (-420))"
proof -
  have "\<exists>T a b. one_transition (\<lambda>_. 60 * (-420)) g T a b \<and> -1440 \<le> a \<and> a \<le> 0 \<and> -1440 \<le> b \<and> b \<le> 0" for g
    by (intro exI [of _ 0] exI [of _ "-420"]) (simp add: one_transition_def)
  moreover have "\<exists>!t. reads (\<lambda>_. 60 * (-420)) t = g" for g
    by (intro ex1I [of _ "g + 25200000"]) (simp_all add: reads_def)
  ultimately show ?thesis by (simp add: daytime_clear_def)
qed

theorem placeEmailSend_in_window_witness:
  "\<exists>p n minute. placeEmailSend phoenix (Some 1772953200000) ''America/Phoenix''
      \<lparr> opt_calendar = None, opt_prospecting = False \<rparr> = Inr p \<and> 1772953200000 \<le> sendAt p \<and>
    n = reads (\<lambda>_. 60 * (-420)) (sendAt p) div ms_per_day \<and>
    minute = reads (\<lambda>_. 60 * (-420)) (sendAt p) mod ms_per_day div 60000 \<and>
    placed_localDate p = iso_of_day n \<and>
    business_day (calendar_of \<lparr> opt_calendar = None, opt_prospecting = False \<rparr>) n \<and>
    openMinute (window_of \<lparr> opt_calendar = None, opt_prospecting = False \<rparr>) \<le> minute \<and>
    minute < closeMinute (window_of \<lparr> opt_calendar = None, opt_prospecting = False \<rparr>) \<and>
    (if business_day (calendar_of \<lparr> opt_calendar = None, opt_prospecting = False \<rparr>) 20520 \<and>
        reads (\<lambda>_. 60 * (-420)) 1772953200000 mod ms_per_day div 60000 <
          closeMinute (window_of \<lparr> opt_calendar = None, opt_prospecting = False \<rparr>)
     then n = 20520
     else 20520 < n \<and> (\<forall>j. 20520 < j \<and> j < n \<longrightarrow>
       \<not> business_day (calendar_of \<lparr> opt_calendar = None, opt_prospecting = False \<rparr>) j))"
  by (rule placeEmailSend_in_window [OF phoenix_daytime_clear])
    (simp_all add: phoenix_def reads_def ms_per_day_def in_calendar_def calendar_of_def EMPTY_HOLIDAY_CALENDAR_def)

end
