(* ===== verification/CallingWindow.thy ===== *)
theory CallingWindow
  imports Complex_Main LocalClock
begin

text \<open>
  \<open>packages/domain/src/rules/callingWindow.ts\<close>: the floor on calling hours, a
  configured window that may only narrow it, and whether a firm's local clock permits a
  call.  A configured minute is a JavaScript number, here a rational.
\<close>

record 'n window =
  startMinute :: 'n
  endMinute :: 'n

type_synonym CallingWindow = "int window"

definition CALLING_WINDOW_FLOOR :: CallingWindow where
  "CALLING_WINDOW_FLOOR = \<lparr> startMinute = 8 * 60, endMinute = 20 * 60 \<rparr>"

definition CALLING_WINDOW_WEEKDAYS :: "int list" where
  "CALLING_WINDOW_WEEKDAYS = [1, 2, 3, 4, 5]"

definition BUSINESS_HOURS :: CallingWindow where
  "BUSINESS_HOURS = \<lparr> startMinute = 9 * 60, endMinute = 17 * 60 \<rparr>"

definition js_trunc :: "rat \<Rightarrow> int" where
  "js_trunc x = (if x < 0 then - \<lfloor>- x\<rfloor> else \<lfloor>x\<rfloor>)"

definition narrowCallingWindow :: "rat window option \<Rightarrow> CallingWindow" where
  "narrowCallingWindow configured = (case configured of
     None \<Rightarrow> CALLING_WINDOW_FLOOR
   | Some c \<Rightarrow>
       (let s = max (startMinute CALLING_WINDOW_FLOOR) (js_trunc (startMinute c));
            e = min (endMinute CALLING_WINDOW_FLOOR) (js_trunc (endMinute c)) in
        if s < e then \<lparr> startMinute = s, endMinute = e \<rparr> else CALLING_WINDOW_FLOOR))"

datatype CallingWindowRefusal = Zone_unknown | Outside_calling_window

datatype CallingWindowDecision =
    Call_allowed (cwd_localTime: string) (cwd_localDate: string) (cwd_openNow: bool)
      (cwd_window: CallingWindow)
  | Call_refused CallingWindowRefusal "string option" "string option" "bool option" CallingWindow

definition evaluateCallingWindow ::
    "tzdb \<Rightarrow> instant option \<Rightarrow> string option \<Rightarrow> rat window option \<Rightarrow> clock_code + CallingWindowDecision" where
  "evaluateCallingWindow tz instant zone configured =
     (let w = narrowCallingWindow configured in
      case zone of
        None \<Rightarrow> Inr (Call_refused Zone_unknown None None None w)
      | Some z \<Rightarrow>
          if z = [] then Inr (Call_refused Zone_unknown None None None w) else
          and_then (localParts tz instant z) (\<lambda>parts.
            let onAWeekday = lp_weekday parts \<in> set CALLING_WINDOW_WEEKDAYS;
                inside = (onAWeekday \<and> startMinute w \<le> lp_minuteOfDay parts \<and>
                          lp_minuteOfDay parts < endMinute w);
                openNow = (onAWeekday \<and> startMinute BUSINESS_HOURS \<le> lp_minuteOfDay parts \<and>
                           lp_minuteOfDay parts < endMinute BUSINESS_HOURS) in
            if \<not> inside
            then Inr (Call_refused Outside_calling_window (Some (localTimeLabel parts))
                       (Some (lp_date parts)) (Some openNow) w)
            else Inr (Call_allowed (localTimeLabel parts) (lp_date parts) openNow w)))"

lemma narrow_bounds:
  "480 \<le> startMinute (narrowCallingWindow c) \<and> startMinute (narrowCallingWindow c) < endMinute (narrowCallingWindow c) \<and>
   endMinute (narrowCallingWindow c) \<le> 1200"
  by (auto simp: narrowCallingWindow_def CALLING_WINDOW_FLOOR_def Let_def split: option.split)

lemma js_trunc_of_int [simp]: "js_trunc (rat_of_int n) = n"
proof -
  have "- rat_of_int n = rat_of_int (- n)" by simp
  then show ?thesis unfolding js_trunc_def by (simp only: floor_of_int) simp
qed

text \<open>the effective calling window is a non-empty part of the floor 08:00 to 20:00
  whatever is configured, and a whole-minute configuration that meets the floor is
  narrowed to exactly the minutes both allow.\<close>
theorem narrowCallingWindow_narrows:
  "{startMinute (narrowCallingWindow c) ..< endMinute (narrowCallingWindow c)} \<subseteq> {480..<1200} \<and>
   startMinute (narrowCallingWindow c) < endMinute (narrowCallingWindow c) \<and>
   (max 480 s < min 1200 e \<longrightarrow>
     {startMinute (narrowCallingWindow (Some \<lparr> startMinute = rat_of_int s, endMinute = rat_of_int e \<rparr>)) ..<
      endMinute (narrowCallingWindow (Some \<lparr> startMinute = rat_of_int s, endMinute = rat_of_int e \<rparr>))} =
     {s..<e} \<inter> {480..<1200})"
proof -
  have "narrowCallingWindow (Some \<lparr> startMinute = rat_of_int s, endMinute = rat_of_int e \<rparr>) =
      (if max 480 s < min 1200 e then \<lparr> startMinute = max 480 s, endMinute = min 1200 e \<rparr> else CALLING_WINDOW_FLOOR)"
    by (simp add: narrowCallingWindow_def CALLING_WINDOW_FLOOR_def Let_def)
  then show ?thesis using narrow_bounds [of c] by auto
qed

theorem narrowCallingWindow_narrows_witness:
  "{480..<1200} \<subseteq> {480..<(1200::int)} \<and> (480::int) < 1200 \<and>
   {startMinute (narrowCallingWindow (Some \<lparr> startMinute = rat_of_int 540, endMinute = rat_of_int 1500 \<rparr>)) ..<
    endMinute (narrowCallingWindow (Some \<lparr> startMinute = rat_of_int 540, endMinute = rat_of_int 1500 \<rparr>))} =
   {540..<1500} \<inter> {480..<1200}"
proof -
  have n: "startMinute (narrowCallingWindow None) = 480" "endMinute (narrowCallingWindow None) = 1200"
    by (simp_all add: narrowCallingWindow_def CALLING_WINDOW_FLOOR_def)
  show ?thesis using narrowCallingWindow_narrows [of None 540 1500] unfolding n by simp
qed

text \<open>C6: a call is permitted exactly when the firm has a zone that \<open>Intl\<close> knows, the local
  day there is Monday to Friday and the local minute lies in the effective window; so no
  call is ever permitted on a weekend, before 08:00 or from 20:00 on.\<close>
theorem evaluateCallingWindow_allowed_iff:
  "(\<exists>t d b w. evaluateCallingWindow tz (Some ms) zone configured = Inr (Call_allowed t d b w)) \<longleftrightarrow>
   (\<exists>z off. zone = Some z \<and> z \<noteq> [] \<and> tz z = Some off \<and>
      (let wall = ms + 1000 * off ms; minute = wall mod ms_per_day div 60000 in
       1 \<le> week_day (wall div ms_per_day) \<and> week_day (wall div ms_per_day) \<le> 5 \<and>
       startMinute (narrowCallingWindow configured) \<le> minute \<and>
       minute < endMinute (narrowCallingWindow configured) \<and> 480 \<le> minute \<and> minute < 1200))"
proof (cases zone)
  case (Some z)
  have wd: "week_day n \<in> set CALLING_WINDOW_WEEKDAYS \<longleftrightarrow> 1 \<le> week_day n \<and> week_day n \<le> 5" for n
    using week_day_range [of n] by (auto simp: CALLING_WINDOW_WEEKDAYS_def)
  show ?thesis
  proof (cases "tz z")
    case (Some off)
    then show ?thesis using \<open>zone = Some z\<close> narrow_bounds [of configured]
      unfolding evaluateCallingWindow_def localParts_def Let_def
      by (simp add: wd wall_clock(3))
  qed (use Some in \<open>simp add: evaluateCallingWindow_def localParts_def Let_def\<close>)
qed (simp add: evaluateCallingWindow_def Let_def)

end
