(* ===== verification/OutboundTypes.thy ===== *)
theory OutboundTypes
  imports Prelude
begin

text \<open>
  \<open>packages/domain/outbound/types.ts\<close>: the vocabulary of at-most-once sending.  A
  refusal is a value (\<open>SendResult\<close>), the six states of a fence are \<open>OutboundState\<close>,
  and the deterministic Message-ID of a fence is built from and parsed back to its id.
\<close>

datatype OutboundState =
  Prepared | Held | Dispatching | Reconciling | Sent | Unknown_terminal

definition TERMINAL_OUTBOUND_STATES :: "OutboundState set" where
  "TERMINAL_OUTBOUND_STATES = {Sent, Unknown_terminal}"

datatype SendRefusalCode =
    Fence_unknown | Fence_not_ready | Mailbox_unknown | Mailbox_inactive | Grant_revoked
  | Coverage_incomplete | Automated_sending_disabled | Workspace_sending_not_attested
  | Sending_domain_unknown | Template_unapproved | Template_mismatch | Footer_not_composed
  | Refuse_postal_address_required | Route_invalid | Firm_suppressed | Handle_suppressed
  | Outside_email_window | Daily_cap | Rate_limited | Recipient_rejected | Provider_refusal
  | Step_ineligible

datatype 'a SendResult = Accept 'a | Refuse SendRefusalCode "string option"

definition acceptSend :: "'a \<Rightarrow> 'a SendResult" where
  "acceptSend v = Accept v"

definition refuseSend :: "SendRefusalCode \<Rightarrow> 'a SendResult" where
  "refuseSend reason = Refuse reason None"

text \<open>\<open>OutboundState\<close> as the detail of a refusal prints it.\<close>
fun state_name :: "OutboundState \<Rightarrow> string" where
  "state_name Prepared = ''prepared''"
| "state_name Held = ''held''"
| "state_name Dispatching = ''dispatching''"
| "state_name Reconciling = ''reconciling''"
| "state_name Sent = ''sent''"
| "state_name Unknown_terminal = ''unknown_terminal''"

section \<open>The ramp's numbers and the reconciliation backoff\<close>

definition RAMP_SCHEDULE :: "(nat \<times> nat) list" where
  "RAMP_SCHEDULE = [(5, 5), (10, 10), (15, 15), (20, 25), (30, 35)]"

definition RAMP_SETTLED_CAP :: nat where
  "RAMP_SETTLED_CAP = 50"

definition RAMP_HARD_CEILING :: nat where
  "RAMP_HARD_CEILING = 100"

definition RAMP_ADMIN_RAISE_LIMIT :: nat where
  "RAMP_ADMIN_RAISE_LIMIT = 75"

definition PERSONAL_GMAIL_DOMAINS :: "string set" where
  "PERSONAL_GMAIL_DOMAINS = {''gmail.com'', ''googlemail.com''}"

definition RECONCILE_WINDOW_HOURS :: int where
  "RECONCILE_WINDOW_HOURS = 24"

definition RECONCILE_BACKOFF_SECONDS :: "int list" where
  "RECONCILE_BACKOFF_SECONDS = [30, 60, 300, 900, 1800, 3600]"

definition reconcileBackoffSeconds :: "int \<Rightarrow> int" where
  "reconcileBackoffSeconds attempt =
     RECONCILE_BACKOFF_SECONDS ! (nat (min (max attempt 1) (int (length RECONCILE_BACKOFF_SECONDS))) - 1)"

definition PLACEMENT_RULE_VERSION :: string where
  "PLACEMENT_RULE_VERSION = ''email-window.1''"

section \<open>The deterministic Message-ID\<close>

definition deterministicMessageId :: "uuid \<Rightarrow> string \<Rightarrow> string" where
  "deterministicMessageId outboundMessageId sendingDomain =
     ''<fss.'' @ outboundMessageId @ ''@'' @ sendingDomain @ ''>''"

definition deterministicHumanReplyMessageId :: "uuid \<Rightarrow> uuid \<Rightarrow> string \<Rightarrow> string" where
  "deterministicHumanReplyMessageId sourceMessageId outboundMessageId sendingDomain =
     ''<fss.reply.'' @ sourceMessageId @ ''.'' @ outboundMessageId @ ''@'' @ sendingDomain @ ''>''"

definition hex_digit :: "char \<Rightarrow> bool" where
  "hex_digit c \<longleftrightarrow> is_digit c \<or> (97 \<le> (of_char c :: nat) \<and> (of_char c :: nat) \<le> 102)"

text \<open>\<open>[0-9a-f-]\<close>\<close>
definition uuid_char :: "char \<Rightarrow> bool" where
  "uuid_char c \<longleftrightarrow> hex_digit c \<or> c = CHR ''-''"

text \<open>Groups of lower-case hexadecimal digits of the given lengths, joined by hyphens.\<close>
fun hex_groups :: "nat list \<Rightarrow> string \<Rightarrow> bool" where
  "hex_groups [] s \<longleftrightarrow> s = []"
| "hex_groups [k] s \<longleftrightarrow> length s = k \<and> list_all hex_digit s"
| "hex_groups (k # ks) s \<longleftrightarrow> k < length s \<and> list_all hex_digit (take k s) \<and>
     take 1 (drop k s) = ''-'' \<and> hex_groups ks (drop (k + 1) s)"

text \<open>\<open>CANONICAL_UUID\<close>\<close>
definition canonical_uuid :: "string \<Rightarrow> bool" where
  "canonical_uuid s \<longleftrightarrow> hex_groups [8, 4, 4, 4, 12] s"

text \<open>\<open>@[^<>@]+>$\<close>\<close>
definition domain_tail :: "string \<Rightarrow> bool" where
  "domain_tail s \<longleftrightarrow> (case s of [] \<Rightarrow> False | c # r \<Rightarrow> c = CHR ''@'' \<and> r \<noteq> [] \<and> last r = CHR ''>'' \<and>
     butlast r \<noteq> [] \<and> list_all (\<lambda>x. x \<noteq> CHR ''<'' \<and> x \<noteq> CHR ''>'' \<and> x \<noteq> CHR ''@'') (butlast r))"

text \<open>Thirty-six characters of \<open>[0-9a-f-]\<close> and what follows them.\<close>
definition take_uuid :: "string \<Rightarrow> (string \<times> string) option" where
  "take_uuid s = (if 36 \<le> length s \<and> list_all uuid_char (take 36 s) then Some (take 36 s, drop 36 s) else None)"

text \<open>The two regular expressions of the two Message-ID shapes.\<close>
definition match_fss :: "string \<Rightarrow> string option" where
  "match_fss s = (if take 5 s = ''<fss.'' then
     (case take_uuid (drop 5 s) of None \<Rightarrow> None | Some (u, rest) \<Rightarrow> if domain_tail rest then Some u else None)
   else None)"

definition match_reply :: "string \<Rightarrow> (string \<times> string) option" where
  "match_reply s = (if take 11 s = ''<fss.reply.'' then
     (case take_uuid (drop 11 s) of
        None \<Rightarrow> None
      | Some (source, r) \<Rightarrow> if take 1 r \<noteq> ''.'' then None else
          (case take_uuid (drop 1 r) of
             None \<Rightarrow> None
           | Some (fence, rest) \<Rightarrow> if domain_tail rest then Some (source, fence) else None))
   else None)"

definition humanReplySourceIdOfMessageId :: "string \<Rightarrow> uuid option" where
  "humanReplySourceIdOfMessageId header = (case match_reply (js_trim header) of
     None \<Rightarrow> None
   | Some (source, fence) \<Rightarrow> if canonical_uuid source \<and> canonical_uuid fence then Some source else None)"

definition fenceIdOfMessageId :: "string \<Rightarrow> uuid option" where
  "fenceIdOfMessageId header =
     (if humanReplySourceIdOfMessageId header \<noteq> None then map_option snd (match_reply (js_trim header))
      else match_fss (js_trim header))"

text \<open>\<open>toLowerCase\<close> on Latin-1.\<close>
definition char_lower :: "char \<Rightarrow> char" where
  "char_lower c = (let n = (of_char c :: nat) in
     if (65 \<le> n \<and> n \<le> 90) \<or> (192 \<le> n \<and> n \<le> 222 \<and> n \<noteq> 215) then char_of (n + 32) else c)"

definition js_lower :: "string \<Rightarrow> string" where
  "js_lower s = map char_lower s"

text \<open>\<open>s.slice(s.lastIndexOf('@') + 1)\<close>\<close>
definition after_last_at :: "string \<Rightarrow> string" where
  "after_last_at s = rev (takeWhile (\<lambda>c. c \<noteq> CHR ''@'') (rev s))"

definition fssFenceIdOfSentMessage :: "string \<Rightarrow> string \<Rightarrow> uuid option" where
  "fssFenceIdOfSentMessage header mailboxAddress =
     (let trimmed = js_trim header in
      case fenceIdOfMessageId trimmed of
        None \<Rightarrow> None
      | Some fenceId \<Rightarrow>
          if \<not> canonical_uuid fenceId then None else
          let domain = js_lower (butlast (after_last_at trimmed));
              sendingDomain = js_lower (js_trim (after_last_at mailboxAddress)) in
          if domain = sendingDomain then Some fenceId else None)"

section \<open>Facts\<close>

lemma reconcileBackoff_bounds: "30 \<le> reconcileBackoffSeconds n \<and> reconcileBackoffSeconds n \<le> 3600"
proof -
  have "nat (min (max n 1) (int (length RECONCILE_BACKOFF_SECONDS))) - 1 < length RECONCILE_BACKOFF_SECONDS"
    unfolding RECONCILE_BACKOFF_SECONDS_def by simp
  then have "reconcileBackoffSeconds n \<in> set RECONCILE_BACKOFF_SECONDS"
    unfolding reconcileBackoffSeconds_def by (rule nth_mem)
  then show ?thesis by (auto simp: RECONCILE_BACKOFF_SECONDS_def)
qed

definition plain_domain :: "string \<Rightarrow> bool" where
  "plain_domain d \<longleftrightarrow> d \<noteq> [] \<and> list_all (\<lambda>x. x \<noteq> CHR ''<'' \<and> x \<noteq> CHR ''>'' \<and> x \<noteq> CHR ''@'') d"

lemma hex_groups_shape:
  "hex_groups ks s \<Longrightarrow> list_all uuid_char s \<and> length s = sum_list ks + (length ks - 1)"
proof (induction ks s rule: hex_groups.induct)
  case (2 k s)
  then show ?case by (auto simp: list_all_iff uuid_char_def)
next
  case (3 k k' ks s)
  have split: "s = take k s @ take 1 (drop k s) @ drop (k + 1) s"
    by (metis append_take_drop_id drop_drop add.commute)
  have tail: "list_all uuid_char (drop (k + 1) s)" "length (drop (k + 1) s) = sum_list (k' # ks) + length ks"
    using 3 by simp_all
  have "list_all uuid_char (take k s)" using 3(2) by (auto simp: list_all_iff uuid_char_def)
  moreover have "list_all uuid_char (take 1 (drop k s))" using 3(2) by (simp add: uuid_char_def)
  ultimately have "list_all uuid_char (take k s @ take 1 (drop k s) @ drop (k + 1) s)"
    using tail(1) by simp
  then have "list_all uuid_char s" using split by metis
  moreover have "length s = sum_list (k # k' # ks) + length (k' # ks)"
  proof -
    have "k < length s" using 3(2) by simp
    then show ?thesis using tail(2) by (simp add: algebra_simps)
  qed
  ultimately show ?case by simp
qed simp

lemma canonical_length: "canonical_uuid u \<Longrightarrow> length u = 36"
  using hex_groups_shape [of "[8, 4, 4, 4, 12]" u] by (simp add: canonical_uuid_def del: hex_groups.simps)

lemma canonical_chars: "canonical_uuid u \<Longrightarrow> list_all uuid_char u"
  using hex_groups_shape [of "[8, 4, 4, 4, 12]" u] by (simp add: canonical_uuid_def del: hex_groups.simps)

lemma take_uuid_append: "canonical_uuid u \<Longrightarrow> take_uuid (u @ rest) = Some (u, rest)"
  using canonical_chars canonical_length by (simp add: take_uuid_def)

lemma domain_tail_plain: "plain_domain d \<Longrightarrow> domain_tail (''@'' @ d @ ''>'')"
  by (simp add: domain_tail_def plain_domain_def butlast_append)

lemma trim_bracketed: "js_trim (''<'' @ s @ ''>'') = ''<'' @ s @ ''>''"
  by (simp add: js_trim_def js_trim_start_def js_trim_end_def js_space_def)

lemma uuid_char_not_r: "\<not> uuid_char (CHR ''r'')"
  by (simp add: uuid_char_def hex_digit_def is_digit_def)


lemma match_fss_own:
  "canonical_uuid u \<Longrightarrow> plain_domain d \<Longrightarrow> match_fss (deterministicMessageId u d) = Some u"
  by (simp add: match_fss_def deterministicMessageId_def take_uuid_append domain_tail_plain [simplified])

lemma match_reply_not_fss:
  "canonical_uuid u \<Longrightarrow> match_reply (deterministicMessageId u d) = None"
proof -
  assume c: "canonical_uuid u"
  then obtain a t where u: "u = a # t" using canonical_length [OF c] by (cases u) auto
  have "a \<noteq> CHR ''r''" using canonical_chars [OF c] uuid_char_not_r u by auto
  then show ?thesis by (simp add: match_reply_def deterministicMessageId_def u)
qed

lemma match_reply_own:
  "canonical_uuid source \<Longrightarrow> canonical_uuid u \<Longrightarrow> plain_domain d \<Longrightarrow>
   match_reply (deterministicHumanReplyMessageId source u d) = Some (source, u)"
  by (simp add: match_reply_def deterministicHumanReplyMessageId_def take_uuid_append domain_tail_plain [simplified])

lemma header_trim:
  "js_trim (deterministicMessageId u d) = deterministicMessageId u d"
  "js_trim (deterministicHumanReplyMessageId source u d) = deterministicHumanReplyMessageId source u d"
  using trim_bracketed [of "''fss.'' @ u @ ''@'' @ d"] trim_bracketed [of "''fss.reply.'' @ source @ ''.'' @ u @ ''@'' @ d"]
  by (simp_all add: deterministicMessageId_def deterministicHumanReplyMessageId_def)

lemma after_last_at_append: "CHR ''@'' \<notin> set d \<Longrightarrow> after_last_at (s @ ''@'' @ d) = d"
proof -
  assume d: "CHR ''@'' \<notin> set d"
  have "\<forall>c\<in>set (rev d). c \<noteq> CHR ''@''" using d by auto
  then have "takeWhile (\<lambda>c. c \<noteq> CHR ''@'') (rev d @ CHR ''@'' # rev s) = rev d"
    by (subst takeWhile_append2) auto
  then show ?thesis by (simp add: after_last_at_def)
qed

text \<open>the Message-ID a fence writes reads back as that fence and, for a human reply, as
  its source; it is recognised in the Sent folder of a mailbox exactly when the mailbox is
  of the same domain, case apart.\<close>
theorem message_id_roundtrip:
  assumes "canonical_uuid u" "canonical_uuid source" "plain_domain d"
  shows "fenceIdOfMessageId (deterministicMessageId u d) = Some u \<and>
    fenceIdOfMessageId (deterministicHumanReplyMessageId source u d) = Some u \<and>
    humanReplySourceIdOfMessageId (deterministicMessageId u d) = None \<and>
    humanReplySourceIdOfMessageId (deterministicHumanReplyMessageId source u d) = Some source \<and>
    (fssFenceIdOfSentMessage (deterministicMessageId u d) mailbox =
       (if js_lower d = js_lower (js_trim (after_last_at mailbox)) then Some u else None))"
proof -
  have nr: "humanReplySourceIdOfMessageId (deterministicMessageId u d) = None"
    using assms by (simp add: humanReplySourceIdOfMessageId_def header_trim match_reply_not_fss)
  have r: "humanReplySourceIdOfMessageId (deterministicHumanReplyMessageId source u d) = Some source"
    using assms by (simp add: humanReplySourceIdOfMessageId_def header_trim match_reply_own)
  have f: "fenceIdOfMessageId (deterministicMessageId u d) = Some u"
    using assms by (simp add: fenceIdOfMessageId_def nr header_trim match_fss_own)
  have "fenceIdOfMessageId (deterministicHumanReplyMessageId source u d) = Some u"
    using assms by (simp add: fenceIdOfMessageId_def r header_trim match_reply_own)
  moreover have "butlast (after_last_at (deterministicMessageId u d)) = d"
  proof -
    have "CHR ''@'' \<notin> set (d @ ''>'')" using assms(3) by (auto simp: plain_domain_def list_all_iff)
    from after_last_at_append [OF this, of "''<fss.'' @ u"] show ?thesis
      by (simp add: deterministicMessageId_def)
  qed
  ultimately show ?thesis using f nr r assms(1)
    by (simp add: fssFenceIdOfSentMessage_def header_trim Let_def)
qed

theorem message_id_roundtrip_witness:
  "fenceIdOfMessageId (deterministicMessageId ''0f3a2b1c-4d5e-6f70-8192-a3b4c5d6e7f8'' ''callie.example'') =
     Some ''0f3a2b1c-4d5e-6f70-8192-a3b4c5d6e7f8'' \<and>
   fssFenceIdOfSentMessage (deterministicMessageId ''0f3a2b1c-4d5e-6f70-8192-a3b4c5d6e7f8'' ''callie.example'')
     ''ana@Callie.Example'' = Some ''0f3a2b1c-4d5e-6f70-8192-a3b4c5d6e7f8''"
proof -
  have u: "canonical_uuid ''0f3a2b1c-4d5e-6f70-8192-a3b4c5d6e7f8''" by code_simp
  have d: "plain_domain ''callie.example''" by code_simp
  have m: "js_lower ''callie.example'' = js_lower (js_trim (after_last_at ''ana@Callie.Example''))" by code_simp
  show ?thesis using message_id_roundtrip [OF u u d, of "''ana@Callie.Example''"] m by simp
qed

end
