(* ===== verification/Footer.thy ===== *)
theory Footer
  imports Prelude "HOL-Library.Code_Target_Numeral"
begin

text \<open>
  \<open>packages/contracts/src/templates.ts\<close> (the opt-out-link rule) and
  \<open>packages/domain/src/rules/templateFooter.ts\<close> (the footer a send composes).  A
  JavaScript string is the list of its UTF-16 code units; Unicode normalisation (NFKC)
  is the parameter \<open>nfkc\<close>.  A regular expression of the source is written out as the
  search it performs.
\<close>

section \<open>Strings of code units\<close>

type_synonym jstring = "nat list"

text \<open>An ASCII literal of the source.\<close>
definition lit :: "string \<Rightarrow> jstring" where
  "lit s = map of_char s"

text \<open>The code units \<open>\s\<close> matches and \<open>trim\<close> removes.\<close>
definition ws :: "nat \<Rightarrow> bool" where
  "ws c \<longleftrightarrow> (9 \<le> c \<and> c \<le> 13) \<or> c = 32 \<or> c = 160 \<or> c = 0x1680 \<or> (0x2000 \<le> c \<and> c \<le> 0x200A) \<or>
    c = 0x2028 \<or> c = 0x2029 \<or> c = 0x202F \<or> c = 0x205F \<or> c = 0x3000 \<or> c = 0xFEFF"

definition strip_end :: "('a \<Rightarrow> bool) \<Rightarrow> 'a list \<Rightarrow> 'a list" where
  "strip_end p s = rev (dropWhile p (rev s))"

text \<open>\<open>s.replace(/\s+$/u, '')\<close> and \<open>s.trim()\<close>\<close>
definition trim_end :: "jstring \<Rightarrow> jstring" where
  "trim_end s = strip_end ws s"

definition trim :: "jstring \<Rightarrow> jstring" where
  "trim s = trim_end (dropWhile ws s)"

fun has_sub :: "'a list \<Rightarrow> 'a list \<Rightarrow> bool" where
  "has_sub sub [] \<longleftrightarrow> sub = []"
| "has_sub sub (c # cs) \<longleftrightarrow> prefix sub (c # cs) \<or> has_sub sub cs"

fun split_lines :: "jstring \<Rightarrow> jstring list" where
  "split_lines [] = [[]]"
| "split_lines (c # cs) =
     (if c = 10 then [] # split_lines cs
      else (case split_lines cs of l # ls \<Rightarrow> (c # l) # ls | [] \<Rightarrow> [[c]]))"

fun join_lines :: "jstring list \<Rightarrow> jstring" where
  "join_lines [] = []"
| "join_lines [l] = l"
| "join_lines (l # ls) = l @ [10] @ join_lines ls"

definition nl :: jstring where
  "nl = [10]"

lemma has_sub_iff: "has_sub sub s \<longleftrightarrow> (\<exists>p q. s = p @ sub @ q)"
proof (induction s)
  case (Cons c cs)
  show ?case
  proof
    assume "has_sub sub (c # cs)"
    then consider "prefix sub (c # cs)" | "\<exists>p q. cs = p @ sub @ q" using Cons.IH by auto
    then show "\<exists>p q. c # cs = p @ sub @ q"
    proof cases
      case 1
      then show ?thesis by (metis append_Nil prefix_def)
    next
      case 2
      then show ?thesis by (metis append_Cons)
    qed
  next
    assume "\<exists>p q. c # cs = p @ sub @ q"
    then obtain p q where e: "c # cs = p @ sub @ q" by blast
    show "has_sub sub (c # cs)"
    proof (cases p)
      case Nil
      then have "prefix sub (c # cs)" using e by simp
      then show ?thesis by simp
    next
      case (Cons x xs)
      then show ?thesis using e Cons.IH by auto
    qed
  qed
qed simp

lemma has_sub_append: "has_sub sub s \<Longrightarrow> has_sub sub (p @ s @ q)"
  unfolding has_sub_iff by (metis append.assoc)

lemma strip_end_append: "s \<noteq> [] \<Longrightarrow> \<not> p (last s) \<Longrightarrow> strip_end p (t @ s) = t @ s"
  by (cases s rule: rev_cases) (simp_all add: strip_end_def)

lemma strip_end_split: "\<exists>q. s = strip_end p s @ q \<and> (\<forall>c\<in>set q. p c)"
proof -
  have "rev s = takeWhile p (rev s) @ dropWhile p (rev s)" by simp
  then have "s = rev (dropWhile p (rev s)) @ rev (takeWhile p (rev s))"
    by (metis rev_append rev_rev_ident)
  moreover have "\<forall>c\<in>set (rev (takeWhile p (rev s))). p c" by (auto dest: set_takeWhileD)
  ultimately show ?thesis unfolding strip_end_def by blast
qed

lemma strip_end_all: "(\<forall>c\<in>set q. p c) \<Longrightarrow> strip_end p (s @ q) = strip_end p s"
  by (simp add: strip_end_def) (metis dropWhile_append2 set_rev)

lemma strip_end_idem [simp]: "strip_end p (strip_end p s) = strip_end p s"
  by (simp add: strip_end_def dropWhile_idem)

lemma trim_Nil_iff: "trim s = [] \<longleftrightarrow> (\<forall>c\<in>set s. ws c)"
proof -
  have "trim s = [] \<longleftrightarrow> (\<forall>c\<in>set (dropWhile ws s). ws c)"
    by (simp add: trim_def trim_end_def strip_end_def dropWhile_eq_Nil_conv)
  also have "\<dots> \<longleftrightarrow> (\<forall>c\<in>set s. ws c)"
    by (metis dropWhile_eq_Nil_conv hd_dropWhile hd_in_set list.set(1) empty_iff)
  finally show ?thesis .
qed

section \<open>The opt-out-link rule\<close>

definition SENDING_STOP_LINE :: jstring where
  "SENDING_STOP_LINE = lit ''If this isn'' @ [39] @ lit ''t relevant, just reply and I won'' @ [39] @
     lit ''t email again.''"

definition LEGACY_SENDING_STOP_LINE :: jstring where
  "LEGACY_SENDING_STOP_LINE = lit ''Reply \"stop\" and I will not email you again.''"

text \<open>\<open>OPT_OUT_PHRASES\<close> and \<open>URL_TOKEN\<close>, their optional parts expanded.\<close>
definition OPT_OUT_PHRASES :: "jstring list" where
  "OPT_OUT_PHRASES = map lit [''unsubscribe'', ''optout'', ''opt out'', ''opt-out'', ''remove me'',
     ''stop receiving'', ''stop these emails'', ''stop these messages'', ''no longer receive'',
     ''list-manage'', ''manage preferences'', ''manage your preferences'']"

definition URL_TOKEN :: "jstring list" where
  "URL_TOKEN = map lit [''http://'', ''https://'', ''www.'', ''mailto:'']"

definition OPT_OUT_DASH_CODE_POINTS :: "nat list" where
  "OPT_OUT_DASH_CODE_POINTS = [0x002D, 0x058A, 0x05BE, 0x1806, 0x2010, 0x2011, 0x2012, 0x2013, 0x2014,
     0x2015, 0x2212, 0x2E3A, 0x2E3B, 0x301C, 0x3030, 0xFE58, 0xFE63, 0xFF0D]"

definition OPT_OUT_SPACE_CODE_POINTS :: "nat list" where
  "OPT_OUT_SPACE_CODE_POINTS = [0x0009, 0x0020, 0x00A0, 0x1680, 0x2000, 0x2001, 0x2002, 0x2003, 0x2004,
     0x2005, 0x2006, 0x2007, 0x2008, 0x2009, 0x200A, 0x200B, 0x202F, 0x205F, 0x3000]"

text \<open>\<open>translate\<close> with a constant replacement, and over the 26 capitals.\<close>
definition translate_all :: "nat list \<Rightarrow> nat \<Rightarrow> jstring \<Rightarrow> jstring" where
  "translate_all from_points to s = map (\<lambda>c. if c \<in> set from_points then to else c) s"

definition ascii_lower :: "jstring \<Rightarrow> jstring" where
  "ascii_lower s = map (\<lambda>c. if 65 \<le> c \<and> c \<le> 90 then c + 32 else c) s"

definition normalizeForOptOutRule :: "(jstring \<Rightarrow> jstring) \<Rightarrow> jstring \<Rightarrow> jstring" where
  "normalizeForOptOutRule nfkc s =
     (let dashed = translate_all OPT_OUT_DASH_CODE_POINTS 45 (nfkc s);
          spaced = translate_all OPT_OUT_SPACE_CODE_POINTS 32 dashed in ascii_lower spaced)"

text \<open>\<open>[^\n]*(?:\n[^\n]*)?(?:tokens)\<close>: a token is reached over at most \<open>k\<close> newlines.\<close>
fun near :: "jstring list \<Rightarrow> nat \<Rightarrow> jstring \<Rightarrow> bool" where
  "near tokens k [] \<longleftrightarrow> [] \<in> set tokens"
| "near tokens k (c # cs) \<longleftrightarrow> list_ex (\<lambda>t. prefix t (c # cs)) tokens \<or>
     (if c = 10 then 0 < k \<and> near tokens (k - 1) cs else near tokens k cs)"

fun pair_near :: "jstring list \<Rightarrow> jstring list \<Rightarrow> jstring \<Rightarrow> bool" where
  "pair_near firsts seconds [] \<longleftrightarrow> False"
| "pair_near firsts seconds (c # cs) \<longleftrightarrow>
     list_ex (\<lambda>p. prefix p (c # cs) \<and> near seconds 1 (drop (length p) (c # cs))) firsts \<or>
     pair_near firsts seconds cs"

definition OPT_OUT_LINK_PATTERN :: "jstring \<Rightarrow> bool" where
  "OPT_OUT_LINK_PATTERN s \<longleftrightarrow> pair_near OPT_OUT_PHRASES URL_TOKEN s \<or> pair_near URL_TOKEN OPT_OUT_PHRASES s"

definition hasOptOutLink :: "(jstring \<Rightarrow> jstring) \<Rightarrow> jstring \<Rightarrow> bool" where
  "hasOptOutLink nfkc s \<longleftrightarrow> OPT_OUT_LINK_PATTERN (normalizeForOptOutRule nfkc s)"

lemma near_iff: "near tokens k s \<longleftrightarrow> (\<exists>g t q. t \<in> set tokens \<and> s = g @ t @ q \<and> count_list g 10 \<le> k)"
proof (induction tokens k s rule: near.induct)
  case (2 tokens k c cs)
  let ?R = "\<exists>g t q. t \<in> set tokens \<and> c # cs = g @ t @ q \<and> count_list g 10 \<le> k"
  show ?case
  proof
    assume n: "near tokens k (c # cs)"
    consider t where "t \<in> set tokens" "prefix t (c # cs)"
      | "\<not> list_ex (\<lambda>t. prefix t (c # cs)) tokens" by (auto simp: list_ex_iff)
    then show ?R
    proof cases
      case 1
      then show ?thesis by (metis append_Nil count_list.simps(1) le0 prefix_def)
    next
      case notokens: 2
      then have "\<exists>g t q. t \<in> set tokens \<and> cs = g @ t @ q \<and> count_list (c # g) 10 \<le> k"
        using n "2.IH" by (cases "c = 10") (auto, metis Suc_le_mono Suc_pred)
      then show ?thesis by (metis append_Cons)
    qed
  next
    assume ?R
    then obtain g t q where g: "t \<in> set tokens" "c # cs = g @ t @ q" "count_list g 10 \<le> k" by blast
    show "near tokens k (c # cs)"
    proof (cases g)
      case Nil
      then have "prefix t (c # cs)" using g by simp
      then show ?thesis using g(1) by (auto simp: list_ex_iff)
    next
      case (Cons x g')
      then have x: "x = c" "cs = g' @ t @ q" using g by simp_all
      show ?thesis
      proof (cases "c = 10")
        case True
        then have k: "0 < k" "count_list g' 10 \<le> k - 1" using g(3) Cons x by auto
        then have "near tokens (k - 1) cs" using "2.IH"(1) [OF True] g(1) x(2) by blast
        then show ?thesis using True k by simp
      next
        case False
        then have "count_list g' 10 \<le> k" using g(3) Cons x by auto
        then have "near tokens k cs" using "2.IH"(2) [OF False] g(1) x(2) by blast
        then show ?thesis using False by simp
      qed
    qed
  qed
qed auto

lemma pair_near_iff:
  assumes "[] \<notin> set firsts"
  shows "pair_near firsts seconds s \<longleftrightarrow> (\<exists>pre p g t post. p \<in> set firsts \<and> t \<in> set seconds \<and>
    s = pre @ p @ g @ t @ post \<and> count_list g 10 \<le> 1)"
proof (induction s)
  case Nil
  then show ?case using assms by auto
next
  case (Cons c cs)
  let ?R = "\<exists>pre p g t post. p \<in> set firsts \<and> t \<in> set seconds \<and>
    c # cs = pre @ p @ g @ t @ post \<and> count_list g 10 \<le> 1"
  have here: "(\<exists>p\<in>set firsts. prefix p (c # cs) \<and> near seconds 1 (drop (length p) (c # cs))) \<longleftrightarrow>
      (\<exists>p g t post. p \<in> set firsts \<and> t \<in> set seconds \<and> c # cs = p @ g @ t @ post \<and> count_list g 10 \<le> 1)"
    unfolding near_iff by (auto simp: prefix_def) fastforce+
  show ?case
  proof
    assume "pair_near firsts seconds (c # cs)"
    then consider "\<exists>p\<in>set firsts. prefix p (c # cs) \<and> near seconds 1 (drop (length p) (c # cs))"
      | "pair_near firsts seconds cs" by (auto simp: list_ex_iff)
    then show ?R
    proof cases
      case 1
      then show ?thesis unfolding here by (metis append_Nil)
    next
      case 2
      then show ?thesis unfolding Cons.IH by (metis append_Cons)
    qed
  next
    assume ?R
    then obtain pre p g t post where r: "p \<in> set firsts" "t \<in> set seconds"
        "c # cs = pre @ p @ g @ t @ post" "count_list g 10 \<le> 1" by blast
    show "pair_near firsts seconds (c # cs)"
    proof (cases pre)
      case Nil
      then have "\<exists>p\<in>set firsts. prefix p (c # cs) \<and> near seconds 1 (drop (length p) (c # cs))"
        unfolding here using r by auto
      then show ?thesis by (auto simp: list_ex_iff)
    next
      case (Cons x pre')
      then have "cs = pre' @ p @ g @ t @ post" using r(3) by simp
      then have "pair_near firsts seconds cs" using r(1,2,4) Cons.IH by blast
      then show ?thesis by simp
    qed
  qed
qed


lemma opt_out_tokens [simp]: "[] \<notin> set OPT_OUT_PHRASES" "[] \<notin> set URL_TOKEN"
  by (simp_all add: OPT_OUT_PHRASES_def URL_TOKEN_def lit_def)

text \<open>C20: the opt-out-link scan finds exactly the texts whose normal form has an opt-out
  phrase and a URL or mailto token, in either order, with at most one line break between
  them: on one line or on two lines that touch.\<close>
theorem hasOptOutLink_iff:
  "hasOptOutLink nfkc s \<longleftrightarrow>
   (\<exists>pre a gap b post. normalizeForOptOutRule nfkc s = pre @ a @ gap @ b @ post \<and> count_list gap 10 \<le> 1 \<and>
      (a \<in> set OPT_OUT_PHRASES \<and> b \<in> set URL_TOKEN \<or> a \<in> set URL_TOKEN \<and> b \<in> set OPT_OUT_PHRASES))"
  unfolding hasOptOutLink_def OPT_OUT_LINK_PATTERN_def
    pair_near_iff [OF opt_out_tokens(1)] pair_near_iff [OF opt_out_tokens(2)]
  by blast

section \<open>The footer\<close>

definition SENT_BODY_MAX_LENGTH :: nat where
  "SENT_BODY_MAX_LENGTH = 4000"

record SendFooterConfiguration =
  signOff :: jstring
  postalAddress :: "jstring option"
  recordedAddresses :: "jstring list"

definition FOOTER_COMPANY_NAME :: jstring where
  "FOOTER_COMPANY_NAME = lit ''Callie, AI maintenance coordination''"

definition address_of :: "SendFooterConfiguration \<Rightarrow> jstring" where
  "address_of c = (case postalAddress c of None \<Rightarrow> [] | Some a \<Rightarrow> trim a)"

text \<open>\<open>[signOff, company, stop line].filter(nonempty).join('\n')\<close>; 0xB7 is the middle dot.\<close>
definition footer_block :: "jstring \<Rightarrow> jstring \<Rightarrow> jstring" where
  "footer_block sign address =
     (let company = (if address = [] then FOOTER_COMPANY_NAME
                     else FOOTER_COMPANY_NAME @ [32, 0xB7, 32] @ address) in
      join_lines (filter (\<lambda>part. part \<noteq> []) [trim sign, company, SENDING_STOP_LINE]))"

definition sendFooterBlock :: "SendFooterConfiguration \<Rightarrow> jstring" where
  "sendFooterBlock c = footer_block (signOff c) (address_of c)"

record SendFooterPolicy =
  postalAddressRequired :: bool

definition SEND_FOOTER_POLICY :: SendFooterPolicy where
  "SEND_FOOTER_POLICY = \<lparr> postalAddressRequired = True \<rparr>"

definition APPROVAL_FOOTER_POLICY :: SendFooterPolicy where
  "APPROVAL_FOOTER_POLICY = \<lparr> postalAddressRequired = False \<rparr>"

datatype ComposeSendBodyRefusal =
  Postal_address_required | Footer_ambiguous | Composed_body_too_long | Optout_link

datatype ComposeSendBodyDecision =
    Composed (composed_body: jstring) (composed_changed: bool) (composed_deduped: bool)
  | Not_composed ComposeSendBodyRefusal "nat option"

definition hasStopLine :: "jstring \<Rightarrow> bool" where
  "hasStopLine s \<longleftrightarrow> has_sub SENDING_STOP_LINE s \<or> has_sub LEGACY_SENDING_STOP_LINE s"

definition candidateFooterBlocks :: "SendFooterConfiguration \<Rightarrow> jstring list" where
  "candidateFooterBlocks c =
     (let sign = trim (signOff c);
          addresses = filter (\<lambda>a. a \<noteq> []) (map trim
            ((case postalAddress c of None \<Rightarrow> [] | Some a \<Rightarrow> a) # recordedAddresses c));
          heads = (if sign = [] then addresses else sign # map (\<lambda>a. sign @ nl @ a) addresses);
          blocks = concat (map (\<lambda>h. [h, h @ nl @ LEGACY_SENDING_STOP_LINE]) heads) @
            map (footer_block sign) ([] # addresses) in
      sort_key (\<lambda>b. - int (length b)) (rev (remdups (rev blocks))))"

text \<open>\<open>/\n[ \t]*\n$/\<close>\<close>
definition ends_blank_line :: "jstring \<Rightarrow> bool" where
  "ends_blank_line s = (case rev s of
     [] \<Rightarrow> False
   | c # r \<Rightarrow> c = 10 \<and> (case dropWhile (\<lambda>x. x = 32 \<or> x = 9) r of [] \<Rightarrow> False | d # _ \<Rightarrow> d = 10))"

definition block_at_end :: "jstring \<Rightarrow> jstring \<Rightarrow> bool" where
  "block_at_end stripped block \<longleftrightarrow> suffix block stripped \<and>
     (length stripped = length block \<or> ends_blank_line (take (length stripped - length block) stripped))"

definition footerBlockStart :: "jstring \<Rightarrow> SendFooterConfiguration \<Rightarrow> nat option" where
  "footerBlockStart body c =
     (let stripped = trim_end body in
      map_option (\<lambda>block. length stripped - length block)
        (find (block_at_end stripped) (candidateFooterBlocks c)))"

definition line_trim_end :: "jstring \<Rightarrow> jstring" where
  "line_trim_end l = strip_end (\<lambda>x. x = 32 \<or> x = 9) l"

definition signOffStandsAlone :: "jstring \<Rightarrow> jstring \<Rightarrow> bool" where
  "signOffStandsAlone body rawSignOff \<longleftrightarrow> trim rawSignOff \<noteq> [] \<and>
     has_sub (map line_trim_end (split_lines (trim rawSignOff))) (map line_trim_end (split_lines body))"

text \<open>What is wrong with a body about to be frozen: only its length.\<close>
definition sendBodyIssue :: "jstring \<Rightarrow> bool" where
  "sendBodyIssue body \<longleftrightarrow> length body > SENT_BODY_MAX_LENGTH"

definition composeSendBody :: "(jstring \<Rightarrow> jstring) \<Rightarrow> jstring \<Rightarrow> SendFooterConfiguration \<Rightarrow>
    SendFooterPolicy \<Rightarrow> ComposeSendBodyDecision" where
  "composeSendBody nfkc body c policy =
     (if postalAddressRequired policy \<and> address_of c = [] then Not_composed Postal_address_required None else
      let blockStart = footerBlockStart body c; stripped = trim_end body in
      if blockStart = None \<and> (hasStopLine stripped \<or> signOffStandsAlone stripped (signOff c))
      then Not_composed Footer_ambiguous None else
      let head = take (case blockStart of None \<Rightarrow> length stripped | Some n \<Rightarrow> n) body;
          footer = sendFooterBlock c;
          composedBody = (if trim head = [] then footer else trim_end head @ [10, 10] @ footer) in
      if hasStopLine (take (length composedBody - length SENDING_STOP_LINE) composedBody)
      then Not_composed Footer_ambiguous None else
      if sendBodyIssue composedBody then Not_composed Composed_body_too_long (Some (length composedBody)) else
      if hasOptOutLink nfkc composedBody then Not_composed Optout_link None else
      Composed composedBody (composedBody \<noteq> body) (blockStart \<noteq> None))"


section \<open>What a composed body is\<close>

lemma strip_end_last: "strip_end p s \<noteq> [] \<Longrightarrow> \<not> p (last (strip_end p s))"
  unfolding strip_end_def by (metis hd_dropWhile last_rev rev_is_Nil_conv)

lemma trim_hd_last: "trim s \<noteq> [] \<Longrightarrow> \<not> ws (hd (trim s)) \<and> \<not> ws (last (trim s))"
proof -
  assume ne: "trim s \<noteq> []"
  obtain q where q: "dropWhile ws s = trim s @ q"
    using strip_end_split [of "dropWhile ws s" ws] by (auto simp: trim_end_def trim_def)
  then have "hd (trim s) = hd (dropWhile ws s)" "dropWhile ws s \<noteq> []" using ne by simp_all
  then show ?thesis using hd_dropWhile [of ws s] strip_end_last [of ws "dropWhile ws s"] ne
    by (simp add: trim_def trim_end_def)
qed

lemma trim_id: "\<not> ws (hd s) \<Longrightarrow> \<not> ws (last s) \<Longrightarrow> trim s = s"
proof (cases s rule: rev_cases)
  case (snoc t x)
  assume "\<not> ws (hd s)" "\<not> ws (last s)"
  then have "dropWhile ws s = s" by (cases s) simp_all
  then show ?thesis using \<open>\<not> ws (last s)\<close> snoc by (simp add: trim_def trim_end_def strip_end_def)
qed (simp add: trim_def trim_end_def strip_end_def)

lemma trim_idem [simp]: "trim (trim s) = trim s"
proof (cases "trim s = []")
  case False
  then show ?thesis using trim_hd_last trim_id by blast
next
  case True
  have "trim [] = []" by (simp add: trim_def trim_end_def strip_end_def)
  then show ?thesis unfolding True .
qed

lemma find_least_key:
  "find P xs = Some x \<Longrightarrow> sorted (map k xs) \<Longrightarrow> y \<in> set xs \<Longrightarrow> P y \<Longrightarrow> k x \<le> k y"
  by (induction xs) (auto split: if_splits)

lemma footer_block_ends:
  "suffix SENDING_STOP_LINE (footer_block sign address)" "footer_block sign address \<noteq> []"
  "\<not> ws (last (footer_block sign address))"
proof -
  have l: "SENDING_STOP_LINE \<noteq> []" "last SENDING_STOP_LINE = 46" "FOOTER_COMPANY_NAME \<noteq> []"
    by (simp_all add: SENDING_STOP_LINE_def FOOTER_COMPANY_NAME_def lit_def)
  obtain h where h: "footer_block sign address = h @ SENDING_STOP_LINE"
    using l by (cases "trim sign = []"; cases "address = []") (auto simp: footer_block_def Let_def)
  show "suffix SENDING_STOP_LINE (footer_block sign address)" "footer_block sign address \<noteq> []"
    "\<not> ws (last (footer_block sign address))"
    unfolding h using l by (simp_all add: suffix_def ws_def)
qed

lemma footer_is_candidate: "sendFooterBlock c \<in> set (candidateFooterBlocks c)"
proof -
  have "footer_block (trim (signOff c)) a = footer_block (signOff c) a" for a
    by (simp add: footer_block_def)
  then show ?thesis
    by (cases "address_of c = []")
      (auto simp: candidateFooterBlocks_def sendFooterBlock_def Let_def address_of_def split: option.splits)
qed

lemma ends_blank_line_nlnl: "ends_blank_line (s @ [10, 10])"
  by (simp add: ends_blank_line_def)

text \<open>The kept words and the part of a body that composing removed: trailing white space,
  or one recorded footer block and white space after it.\<close>
definition kept_part :: "jstring \<Rightarrow> SendFooterConfiguration \<Rightarrow> jstring \<Rightarrow> jstring \<Rightarrow> bool" where
  "kept_part body c head rest \<longleftrightarrow> body = head @ rest \<and>
     ((\<forall>u\<in>set rest. ws u) \<or>
      (\<exists>block\<in>set (candidateFooterBlocks c). \<exists>w. rest = block @ w \<and> (\<forall>u\<in>set w. ws u)))"

definition with_footer :: "jstring \<Rightarrow> jstring \<Rightarrow> jstring" where
  "with_footer head footer = (if trim head = [] then footer else trim_end head @ [10, 10] @ footer)"

lemma footerBlockStart_Some:
  assumes "footerBlockStart body c = Some n"
  shows "\<exists>block\<in>set (candidateFooterBlocks c). trim_end body = take n body @ block"
proof -
  obtain block where b: "find (block_at_end (trim_end body)) (candidateFooterBlocks c) = Some block"
      "n = length (trim_end body) - length block"
    using assms by (auto simp: footerBlockStart_def Let_def)
  then have "block \<in> set (candidateFooterBlocks c)" "suffix block (trim_end body)"
    by (auto simp: find_Some_iff block_at_end_def)
  moreover from this obtain h where h: "trim_end body = h @ block" by (auto simp: suffix_def)
  moreover obtain q where "body = trim_end body @ q"
    using strip_end_split [of body ws] by (auto simp: trim_end_def)
  ultimately show ?thesis using b(2) by (metis add_diff_cancel_right' append.assoc append_eq_conv_conj length_append)
qed

lemma compose_head:
  "kept_part body c (take (case footerBlockStart body c of None \<Rightarrow> length (trim_end body) | Some n \<Rightarrow> n) body)
     (drop (case footerBlockStart body c of None \<Rightarrow> length (trim_end body) | Some n \<Rightarrow> n) body)"
proof -
  obtain q where q: "body = trim_end body @ q" "\<forall>u\<in>set q. ws u"
    using strip_end_split [of body ws] by (auto simp: trim_end_def)
  show ?thesis
  proof (cases "footerBlockStart body c")
    case None
    then show ?thesis using q by (simp add: kept_part_def) (metis append_eq_conv_conj)
  next
    case (Some n)
    obtain block where b: "block \<in> set (candidateFooterBlocks c)" "trim_end body = take n body @ block"
      using footerBlockStart_Some [OF Some] by blast
    then have "body = take n body @ block @ q" using q by (metis append.assoc)
    then have "drop n body = block @ q" by (metis append_take_drop_id same_append_eq)
    then show ?thesis using b q Some by (auto simp: kept_part_def)
  qed
qed


lemma compose_eq:
  "composeSendBody nfkc body c policy =
    (if postalAddressRequired policy \<and> address_of c = [] then Not_composed Postal_address_required None else
     if footerBlockStart body c = None \<and>
        (hasStopLine (trim_end body) \<or> signOffStandsAlone (trim_end body) (signOff c))
     then Not_composed Footer_ambiguous None else
     let head = take (case footerBlockStart body c of None \<Rightarrow> length (trim_end body) | Some n \<Rightarrow> n) body;
         out = with_footer head (sendFooterBlock c) in
     if hasStopLine (take (length out - length SENDING_STOP_LINE) out) then Not_composed Footer_ambiguous None
     else if sendBodyIssue out then Not_composed Composed_body_too_long (Some (length out))
     else if hasOptOutLink nfkc out then Not_composed Optout_link None
     else Composed out (out \<noteq> body) (footerBlockStart body c \<noteq> None))"
  by (simp add: composeSendBody_def Let_def with_footer_def)

lemma with_footer_ends: "suffix (sendFooterBlock c) (with_footer head (sendFooterBlock c))"
  by (auto simp: with_footer_def suffix_def)

text \<open>C21: when a body is composed, the bytes that leave are the body's own words, of which
  nothing but trailing white space or one footer block the workspace's records account
  for was removed, followed by the workspace's footer; they end with the stop sentence and
  carry no other, fit the column, carry no opt-out link, and an address is there whenever
  the policy demands one.\<close>
theorem composeSendBody_sound:
  assumes "composeSendBody nfkc body c policy = Composed out changed deduped"
  shows "(\<exists>head rest. kept_part body c head rest \<and> out = with_footer head (sendFooterBlock c)) \<and>
    suffix SENDING_STOP_LINE out \<and> \<not> hasStopLine (take (length out - length SENDING_STOP_LINE) out) \<and>
    length out \<le> 4000 \<and> \<not> hasOptOutLink nfkc out \<and> (changed \<longleftrightarrow> out \<noteq> body) \<and>
    (postalAddressRequired policy \<longrightarrow> address_of c \<noteq> [])"
proof -
  define head where "head = take (case footerBlockStart body c of None \<Rightarrow> length (trim_end body) | Some n \<Rightarrow> n) body"
  have "out = with_footer head (sendFooterBlock c)" "\<not> hasStopLine (take (length out - length SENDING_STOP_LINE) out)"
    "\<not> sendBodyIssue out" "\<not> hasOptOutLink nfkc out" "changed \<longleftrightarrow> out \<noteq> body"
    "postalAddressRequired policy \<longrightarrow> address_of c \<noteq> []"
    using assms by (auto simp: compose_eq Let_def head_def split: if_splits)
  moreover have "suffix SENDING_STOP_LINE (with_footer head (sendFooterBlock c))"
    using footer_block_ends(1) with_footer_ends suffix_order.trans by (metis sendFooterBlock_def)
  ultimately show ?thesis using compose_head [of body c]
    by (auto simp: head_def sendBodyIssue_def SENT_BODY_MAX_LENGTH_def)
qed

definition sample_footer :: SendFooterConfiguration where
  "sample_footer = \<lparr> signOff = lit ''Ana'', postalAddress = Some (lit ''1 Main St''), recordedAddresses = [] \<rparr>"

lemma sample_composed:
  "composeSendBody id (lit ''Hello'') sample_footer SEND_FOOTER_POLICY =
   Composed (lit ''Hello'' @ [10, 10] @ sendFooterBlock sample_footer) True False"
  by code_simp

theorem composeSendBody_sound_witness:
  "suffix SENDING_STOP_LINE (lit ''Hello'' @ [10, 10] @ sendFooterBlock sample_footer) \<and>
   length (lit ''Hello'' @ [10, 10] @ sendFooterBlock sample_footer) \<le> 4000"
  using composeSendBody_sound [OF sample_composed] by blast

text \<open>C22: composing a composed body gives the same bytes back and reports no change,
  unless some other recorded block of the workspace itself ends with the whole current
  footer.\<close>
theorem composeSendBody_idempotent:
  assumes c: "composeSendBody nfkc body c policy = Composed out changed deduped"
    and blocks: "list_all (\<lambda>b. suffix (sendFooterBlock c) b \<longrightarrow> b = sendFooterBlock c) (candidateFooterBlocks c)"
  shows "composeSendBody nfkc out c policy = Composed out False True"
proof -
  define footer where "footer = sendFooterBlock c"
  have fne: "footer \<noteq> []" "\<not> ws (last footer)"
    using footer_block_ends by (simp_all add: footer_def sendFooterBlock_def)
  obtain head where out: "out = with_footer head footer"
    and ok: "\<not> hasStopLine (take (length out - length SENDING_STOP_LINE) out)" "\<not> sendBodyIssue out"
      "\<not> hasOptOutLink nfkc out" "\<not> (postalAddressRequired policy \<and> address_of c = [])"
    using c by (auto simp: compose_eq Let_def footer_def split: if_splits)
  define h where "h = (if trim head = [] then [] else trim_end head @ [10, 10])"
  have oh: "out = h @ footer" by (simp add: out with_footer_def h_def)
  have strip: "trim_end out = out"
    using fne by (simp add: oh trim_end_def strip_end_append)
  have atend: "block_at_end out footer"
    using ends_blank_line_nlnl [of "trim_end head"] by (auto simp: block_at_end_def oh h_def suffix_def)
  have "find (block_at_end out) (candidateFooterBlocks c) \<noteq> None"
    using atend footer_is_candidate [of c] unfolding footer_def find_None_iff by blast
  then obtain x where x: "find (block_at_end out) (candidateFooterBlocks c) = Some x" by blast
  have xin: "x \<in> set (candidateFooterBlocks c)" "block_at_end out x"
    using x by (auto simp: find_Some_iff)
  have "- int (length x) \<le> - int (length footer)"
    by (rule find_least_key [OF x])
      (use atend footer_is_candidate in \<open>simp_all add: candidateFooterBlocks_def Let_def footer_def\<close>)
  then have "suffix footer x"
    using xin(2) atend unfolding block_at_end_def by (metis neg_le_iff_le of_nat_le_iff suffix_length_suffix)
  then have "x = footer" using blocks xin(1) by (simp add: list_all_iff footer_def)
  then have start: "footerBlockStart out c = Some (length h)"
    using x unfolding footerBlockStart_def Let_def strip by (simp add: oh)
  have keep: "take (length h) out = h" by (simp add: oh)
  have "with_footer h footer = out"
  proof (cases "trim head = []")
    case True
    then show ?thesis by (simp add: h_def with_footer_def out) (simp add: trim_def trim_end_def strip_end_def)
  next
    case False
    have "trim h \<noteq> []"
    proof
      assume "trim h = []"
      then have "\<forall>u\<in>set h. ws u" unfolding trim_Nil_iff .
      then have "\<forall>u\<in>set (trim_end head). ws u" using False by (auto simp: h_def)
      moreover obtain q where "head = trim_end head @ q" "\<forall>u\<in>set q. ws u"
        using strip_end_split [of head ws] by (auto simp: trim_end_def)
      ultimately have "\<forall>u\<in>set head. ws u" by (metis Un_iff set_append)
      then show False using False unfolding trim_Nil_iff by blast
    qed
    moreover have "trim_end h = trim_end head"
      using False strip_end_all [of "[10, 10]" ws "trim_end head"] by (simp add: h_def trim_end_def ws_def)
    ultimately show ?thesis using False by (simp add: with_footer_def out)
  qed
  then show ?thesis using ok
    unfolding compose_eq Let_def start option.case keep footer_def [symmetric] by simp
qed

theorem composeSendBody_idempotent_witness:
  "composeSendBody id (lit ''Hello'' @ [10, 10] @ sendFooterBlock sample_footer) sample_footer SEND_FOOTER_POLICY =
   Composed (lit ''Hello'' @ [10, 10] @ sendFooterBlock sample_footer) False True"
  by (rule composeSendBody_idempotent [OF sample_composed]) code_simp

end
