(* ===== verification/Cadence.thy ===== *)
theory Cadence
  imports SendingWindow
begin

text \<open>
  \<open>packages/domain/outreach/cadence.ts\<close>: the frozen plan of prospecting touches, built
  once from its start, and the touch that is due next.  A cadence is a value; which of
  its touches were claimed is the reservation table of \<open>OutboundDb\<close>.
\<close>

datatype OutreachLane = Email_first | Call_first

datatype TouchChannel = Phone | Email

record ProspectingTouch =
  pt_ordinal :: int
  pt_channel :: TouchChannel
  pt_channelOrdinal :: int
  pt_localDate :: string
  pt_dueAt :: instant
  pt_voicemail :: bool

record OutreachCadence =
  oc_lane :: OutreachLane
  oc_timeZone :: string
  oc_expiresAt :: instant
  oc_touches :: "ProspectingTouch list"

definition OUTREACH_CADENCE_VERSION :: string where
  "OUTREACH_CADENCE_VERSION = ''outreach-cadence-v1''"

text \<open>\<open>while (weekend) date += 1\<close>.  Seven steps contain a weekday
  (\<open>next_weekday_found\<close>), so the bound is never reached.\<close>
definition next_weekday :: "string \<Rightarrow> clock_code + string" where
  "next_weekday date = and_then (seek_day (\<lambda>d. and_then (isWeekend d) (\<lambda>w. Inr (\<not> w))) 7 date)
     (\<lambda>(d, _). Inr d)"

text \<open>\<open><=\<close> on strings: by code units, a proper prefix first.\<close>
fun str_le :: "string \<Rightarrow> string \<Rightarrow> bool" where
  "str_le [] t \<longleftrightarrow> True"
| "str_le (a # s) [] \<longleftrightarrow> False"
| "str_le (a # s) (b # t) \<longleftrightarrow> (of_char a :: nat) < of_char b \<or> (a = b \<and> str_le s t)"

text \<open>The calendar offsets of the two lanes, the calling lane's two lists merged by offset.\<close>
definition cadence_slots :: "OutreachLane \<Rightarrow> (int \<times> TouchChannel) list" where
  "cadence_slots lane = (case lane of
     Email_first \<Rightarrow> map (\<lambda>offset. (offset, Email)) [0, 3, 7, 13, 20]
   | Call_first \<Rightarrow> sort_key fst (map (\<lambda>offset. (offset, Phone)) [0, 4, 9, 14] @
       map (\<lambda>offset. (offset, Email)) [2, 7, 12, 20]))"

record cadence_state =
  cs_previous :: string
  cs_phone :: int
  cs_email :: int
  cs_touches :: "ProspectingTouch list"

definition cadence_touch :: "tzdb \<Rightarrow> string \<Rightarrow> string \<Rightarrow> LocalParts \<Rightarrow> cadence_state \<Rightarrow>
    int \<times> TouchChannel \<Rightarrow> clock_code + cadence_state" where
  "cadence_touch tz zone start parts st slot =
     (case slot of (offset, channel) \<Rightarrow>
       let index = int (length (cs_touches st)); emailHour = PROSPECTING_DEFAULT_HOUR;
           hour = max 10 (min (lp_hour parts) 16) in
       and_then (addCalendarDays start offset) (\<lambda>d0.
       and_then (next_weekday d0) (\<lambda>d1.
       and_then (if str_le d1 (cs_previous st)
                 then and_then (addCalendarDays (cs_previous st) 1) next_weekday
                 else Inr d1) (\<lambda>date.
       let phone = (if channel = Phone then cs_phone st + 1 else cs_phone st);
           email = (if channel = Email then cs_email st + 1 else cs_email st);
           time = (if channel = Email
                   then time_of_day emailHour
                     (if index = 0 \<and> lp_hour parts = emailHour then lp_minute parts else 0)
                   else time_of_day hour
                     (if 10 \<le> lp_hour parts \<and> lp_hour parts < 17 then lp_minute parts else 0)) in
       and_then (localInstant tz date time zone) (\<lambda>dueAt.
         Inr \<lparr> cs_previous = date, cs_phone = phone, cs_email = email,
               cs_touches = cs_touches st @
                 [\<lparr> pt_ordinal = index + 1, pt_channel = channel,
                    pt_channelOrdinal = (if channel = Phone then phone else email),
                    pt_localDate = date, pt_dueAt = dueAt,
                    pt_voicemail = (channel = Phone \<and> phone \<in> {1, 4}) \<rparr>] \<rparr>)))))"

fun cadence_touches :: "tzdb \<Rightarrow> string \<Rightarrow> string \<Rightarrow> LocalParts \<Rightarrow> cadence_state \<Rightarrow>
    (int \<times> TouchChannel) list \<Rightarrow> clock_code + cadence_state" where
  "cadence_touches tz zone start parts st [] = Inr st"
| "cadence_touches tz zone start parts st (slot # slots) =
     and_then (cadence_touch tz zone start parts st slot) (\<lambda>st'.
       cadence_touches tz zone start parts st' slots)"

definition buildOutreachCadence ::
    "tzdb \<Rightarrow> OutreachLane \<Rightarrow> instant option \<Rightarrow> string \<Rightarrow> clock_code + OutreachCadence" where
  "buildOutreachCadence tz lane startsAt timeZone =
     and_then (if lane = Email_first
               then and_then (placeEmailSend tz startsAt timeZone \<lparr> opt_calendar = None, opt_prospecting = True \<rparr>)
                 (\<lambda>p. Inr (Some (sendAt p)))
               else Inr startsAt) (\<lambda>anchor.
     and_then (localParts tz anchor timeZone) (\<lambda>parts.
     and_then (if 17 \<le> lp_hour parts then addCalendarDays (lp_date parts) 1 else Inr (lp_date parts)) (\<lambda>d.
     and_then (next_weekday d) (\<lambda>start.
     and_then (cadence_touches tz timeZone start parts
         \<lparr> cs_previous = [], cs_phone = 0, cs_email = 0, cs_touches = [] \<rparr> (cadence_slots lane)) (\<lambda>st.
     and_then (endOfLocalDay tz (Some (pt_dueAt (last (cs_touches st)))) timeZone) (\<lambda>expiresAt.
       Inr \<lparr> oc_lane = lane, oc_timeZone = timeZone, oc_expiresAt = expiresAt,
             oc_touches = cs_touches st \<rparr>))))))"

definition prospectingTouchDueAt :: "tzdb \<Rightarrow> ProspectingTouch \<Rightarrow> string \<Rightarrow> clock_code + instant" where
  "prospectingTouchDueAt tz touch timeZone =
     (if pt_channel touch = Email
      then and_then (placeEmailSend tz (Some (pt_dueAt touch)) timeZone
             \<lparr> opt_calendar = None, opt_prospecting = True \<rparr>) (\<lambda>p. Inr (sendAt p))
      else Inr (pt_dueAt touch))"

text \<open>\<open>Date.parse(date + 'T00:00:00Z')\<close> in days.\<close>
definition day_of_iso :: "string \<Rightarrow> int" where
  "day_of_iso s = (case parse_date s of None \<Rightarrow> 0 | Some (y, m, d) \<Rightarrow> make_day y (m - 1) d)"

text \<open>The spacing rule of one remaining touch: not before the planned gap after the last
  touch that was made.\<close>
definition touch_due :: "tzdb \<Rightarrow> string \<Rightarrow> instant \<Rightarrow> instant option \<Rightarrow> ProspectingTouch option \<Rightarrow>
    ProspectingTouch \<Rightarrow> clock_code + bool" where
  "touch_due tz zone at lastTouchAt prior t =
     and_then (prospectingTouchDueAt tz t zone) (\<lambda>dueAt.
       if dueAt > at then Inr False else
       (case (lastTouchAt, prior) of
          (Some lastAt, Some p) \<Rightarrow>
            let gap = day_of_iso (pt_localDate t) - day_of_iso (pt_localDate p) in
            and_then (localDate tz (Some lastAt) zone) (\<lambda>ld.
            and_then (addCalendarDays ld (max 1 gap)) (\<lambda>d0.
            and_then (next_weekday d0) (\<lambda>date.
            and_then (localParts tz (Some dueAt) zone) (\<lambda>clock.
            and_then (localInstant tz date (time_of_day (lp_hour clock) (lp_minute clock)) zone) (\<lambda>floor.
              Inr (floor \<le> at))))))
        | _ \<Rightarrow> Inr True))"

fun filter_due :: "('t \<Rightarrow> clock_code + bool) \<Rightarrow> 't list \<Rightarrow> clock_code + 't list" where
  "filter_due test [] = Inr []"
| "filter_due test (t # ts) =
     and_then (test t) (\<lambda>b. and_then (filter_due test ts) (\<lambda>r. Inr (if b then t # r else r)))"

definition nextProspectingTouch :: "tzdb \<Rightarrow> OutreachCadence \<Rightarrow> instant \<Rightarrow> int list \<Rightarrow> instant option \<Rightarrow>
    clock_code + (ProspectingTouch \<times> int list) option" where
  "nextProspectingTouch tz plan at completedOrdinals lastTouchAt =
     (if at > oc_expiresAt plan then Inr None else
      and_then (case lastTouchAt of
          None \<Rightarrow> Inr False
        | Some l \<Rightarrow> and_then (localDate tz (Some l) (oc_timeZone plan)) (\<lambda>ld.
            and_then (localDate tz (Some at) (oc_timeZone plan)) (\<lambda>today. Inr (str_le today ld)))) (\<lambda>touchedToday.
      if touchedToday then Inr None else
      let latestDone = foldl max 0 completedOrdinals;
          prior = find (\<lambda>t. pt_ordinal t = latestDone) (oc_touches plan);
          remaining = filter (\<lambda>t. pt_ordinal t \<notin> set completedOrdinals \<and> latestDone < pt_ordinal t)
            (oc_touches plan) in
      and_then (filter_due (touch_due tz (oc_timeZone plan) at lastTouchAt prior) remaining) (\<lambda>due.
        if due = [] then Inr None
        else let touch = last due in
          Inr (Some (touch, map pt_ordinal (filter (\<lambda>t. pt_ordinal t < pt_ordinal touch) remaining))))))"

section \<open>Facts\<close>

lemma weekday_in_seven: "\<exists>j. n \<le> j \<and> j < n + 7 \<and> 1 \<le> week_day j \<and> week_day j \<le> 5"
proof -
  have "n \<le> n + (1 - week_day n) mod 7 \<and> n + (1 - week_day n) mod 7 < n + 7" by simp
  moreover have "week_day (n + (1 - week_day n) mod 7) = 1"
    unfolding week_day_add by (simp add: mod_simps)
  ultimately show ?thesis by (metis one_le_numeral order.refl)
qed

lemma isWeekend_iso: "in_calendar n \<Longrightarrow> isWeekend (iso_of_day n) = Inr (\<not> (1 \<le> week_day n \<and> week_day n \<le> 5))"
  using week_day_range [of n] by (auto simp: isWeekend_def weekdayOfDate_iso)

lemma next_weekday_found:
  assumes "in_calendar n" "in_calendar (n + 7)"
  shows "\<exists>r. next_weekday (iso_of_day n) = Inr (iso_of_day r) \<and> n \<le> r \<and> r < n + 7 \<and>
    1 \<le> week_day r \<and> week_day r \<le> 5 \<and> (\<forall>j. n \<le> j \<and> j < r \<longrightarrow> \<not> (1 \<le> week_day j \<and> week_day j \<le> 5))"
proof -
  let ?good = "\<lambda>j. 1 \<le> week_day j \<and> week_day j \<le> 5"
  let ?test = "\<lambda>d. and_then (isWeekend d) (\<lambda>w. Inr (\<not> w))"
  have t: "?test (iso_of_day j) = Inr (?good j)" if "n \<le> j" "j < n + int 7" for j
    using isWeekend_iso [of j] that assms by (simp add: in_calendar_def)
  have "in_calendar (n + int 7)" using assms by simp
  then have "(\<exists>r. n \<le> r \<and> r < n + int 7 \<and> ?good r \<and> (\<forall>j. n \<le> j \<and> j < r \<longrightarrow> \<not> ?good j) \<and>
            seek_day ?test 7 (iso_of_day n) = Inr (iso_of_day r, True)) \<or>
         ((\<forall>j. n \<le> j \<and> j < n + int 7 \<longrightarrow> \<not> ?good j) \<and>
            seek_day ?test 7 (iso_of_day n) = Inr (iso_of_day (n + int 7), False))"
    by (intro seek_day_first [OF _ assms(1)] t)
  then show ?thesis using weekday_in_seven [of n] by (auto simp: next_weekday_def)
qed

lemma filter_due_sub: "filter_due test ts = Inr due \<Longrightarrow>
  due = filter (\<lambda>t. test t = Inr True) ts \<and> (\<forall>t\<in>set ts. \<exists>b. test t = Inr b)"
  by (induction ts arbitrary: due) (auto simp: and_then_Inr_iff split: if_splits)

lemma foldl_max_ge: "a \<le> foldl max a xs \<and> (\<forall>x\<in>set xs. x \<le> foldl max (a::int) xs)"
  by (induction xs arbitrary: a) (auto, (meson max.bounded_iff le_max_iff_disj order_trans max.cobounded1 max.cobounded2)+)

text \<open>the next prospecting touch is a touch of the plan later than every completed one,
  due at the moment asked about under the present sending window, the last of those due;
  nothing is due after the plan expires or on a day already touched; and what it reports
  as skipped is exactly the open touches before it.\<close>
theorem nextProspectingTouch_sound:
  assumes "nextProspectingTouch tz plan at done lastTouchAt = Inr (Some (touch, skipped))"
  shows "touch \<in> set (oc_touches plan) \<and> (\<forall>k\<in>set done. k < pt_ordinal touch) \<and> at \<le> oc_expiresAt plan \<and>
    (\<exists>due. prospectingTouchDueAt tz touch (oc_timeZone plan) = Inr due \<and> due \<le> at) \<and>
    (\<forall>l d t. lastTouchAt = Some l \<longrightarrow> localDate tz (Some l) (oc_timeZone plan) = Inr d \<longrightarrow>
       localDate tz (Some at) (oc_timeZone plan) = Inr t \<longrightarrow> \<not> str_le t d) \<and>
    skipped = map pt_ordinal (filter (\<lambda>t. foldl max 0 done < pt_ordinal t \<and> pt_ordinal t < pt_ordinal touch)
      (oc_touches plan))"
proof -
  define latest where "latest = foldl max 0 done"
  define remaining where "remaining = filter (\<lambda>t. pt_ordinal t \<notin> set done \<and> latest < pt_ordinal t) (oc_touches plan)"
  define prior where "prior = find (\<lambda>t. pt_ordinal t = latest) (oc_touches plan)"
  have not_expired: "at \<le> oc_expiresAt plan"
    using assms by (auto simp: nextProspectingTouch_def split: if_splits)
  obtain due where due: "filter_due (touch_due tz (oc_timeZone plan) at lastTouchAt prior) remaining = Inr due"
      "due \<noteq> []" "touch = last due"
      "skipped = map pt_ordinal (filter (\<lambda>t. pt_ordinal t < pt_ordinal touch) remaining)"
    using assms by (auto simp: nextProspectingTouch_def Let_def and_then_Inr_iff latest_def [symmetric]
      remaining_def [symmetric] prior_def [symmetric] split: if_splits)
  have t: "touch \<in> set remaining" "touch_due tz (oc_timeZone plan) at lastTouchAt prior touch = Inr True"
  proof -
    have "touch \<in> set due" using due(2,3) by simp
    then show "touch \<in> set remaining" "touch_due tz (oc_timeZone plan) at lastTouchAt prior touch = Inr True"
      using filter_due_sub [OF due(1)] by auto
  qed
  have later: "\<forall>k\<in>set done. k \<le> latest" unfolding latest_def using foldl_max_ge by blast
  have rem: "remaining = filter (\<lambda>t. latest < pt_ordinal t) (oc_touches plan)"
    unfolding remaining_def using later by (intro filter_cong) auto
  have "touch \<in> set (oc_touches plan)" "\<forall>k\<in>set done. k < pt_ordinal touch"
    using t(1) later by (auto simp: rem)
  moreover have "\<exists>due. prospectingTouchDueAt tz touch (oc_timeZone plan) = Inr due \<and> due \<le> at"
    using t(2) by (auto simp: touch_due_def and_then_Inr_iff split: if_splits)
  moreover have "\<not> str_le y d" if "lastTouchAt = Some l" "localDate tz (Some l) (oc_timeZone plan) = Inr d"
      "localDate tz (Some at) (oc_timeZone plan) = Inr y" for l d y
    using assms not_expired that by (auto simp: nextProspectingTouch_def split: if_splits)
  moreover have "skipped = map pt_ordinal (filter (\<lambda>t. latest < pt_ordinal t \<and> pt_ordinal t < pt_ordinal touch)
      (oc_touches plan))"
    unfolding due(4) rem by (simp add: conj_commute)
  ultimately show ?thesis using not_expired unfolding latest_def by blast
qed

definition sample_plan :: OutreachCadence where
  "sample_plan = \<lparr> oc_lane = Call_first, oc_timeZone = ''America/Phoenix'', oc_expiresAt = 9000,
     oc_touches = [\<lparr> pt_ordinal = 1, pt_channel = Phone, pt_channelOrdinal = 1, pt_localDate = ''1970-01-01'',
       pt_dueAt = 1000, pt_voicemail = True \<rparr>, \<lparr> pt_ordinal = 2, pt_channel = Phone, pt_channelOrdinal = 2,
       pt_localDate = ''1970-01-02'', pt_dueAt = 2000, pt_voicemail = False \<rparr>] \<rparr>"

theorem nextProspectingTouch_sound_witness:
  "(oc_touches sample_plan ! 1) \<in> set (oc_touches sample_plan) \<and>
   (\<exists>due. prospectingTouchDueAt phoenix (oc_touches sample_plan ! 1) (oc_timeZone sample_plan) = Inr due \<and> due \<le> 3000)"
proof -
  have "nextProspectingTouch phoenix sample_plan 3000 [] None = Inr (Some (oc_touches sample_plan ! 1, [1]))"
    by (simp add: nextProspectingTouch_def sample_plan_def touch_due_def prospectingTouchDueAt_def Let_def)
  from nextProspectingTouch_sound [OF this] show ?thesis by blast
qed

end
