(* ===== verification/OutboundDb.thy ===== *)
theory OutboundDb
  imports OutboundTypes Footer Cadence
begin

text \<open>
  The rows the outbound subsystem reads and writes, one workspace's worth: the columns of
  \<open>db/migrations/0010_outbound.sql\<close> (\<open>OutboundFenceRow\<close> in \<open>outbound/fence.ts\<close>), the
  ledger, and the tables of the plans, firms, mailboxes, templates and routes the code
  joins.  A fence's envelope is the group of columns that the migration's trigger freezes
  once a token exists.
\<close>

datatype OriginKind = Origin_step_execution | Origin_draft | Origin_standing_booking

datatype AdminResolution = Delivered | Skipped

record Envelope =
  en_mailboxId :: uuid
  en_originKind :: OriginKind
  en_enrollmentId :: "uuid option"
  en_stepExecutionId :: "uuid option"
  en_draftId :: "uuid option"
  en_firmId :: uuid
  en_contactId :: "uuid option"
  en_opportunityId :: "uuid option"
  en_recipientAddress :: string
  en_recipientRouteId :: "uuid option"
  en_recipientRouteVersion :: "int option"
  en_subject :: jstring
  en_body :: jstring
  en_templateVersionId :: "uuid option"
  en_renderedHash :: string
  en_providerMessageIdHeader :: string
  en_sendAt :: instant
  en_sourceZone :: string

record OutboundFenceRow =
  fm_id :: uuid
  fm_state :: OutboundState
  fm_envelope :: Envelope
  fm_placementRuleVersion :: string
  fm_attemptToken :: "uuid option"
  fm_dispatchStartedAt :: "instant option"
  fm_sentAt :: "instant option"
  fm_providerMessageId :: "string option"
  fm_providerThreadId :: "string option"
  fm_reconcileStartedAt :: "instant option"
  fm_reconcileDeadlineAt :: "instant option"
  fm_reconcileAttempts :: nat
  fm_reconcileLastAttemptAt :: "instant option"
  fm_heldReason :: "string option"
  fm_heldAt :: "instant option"
  fm_unknownTerminalAt :: "instant option"
  fm_adminResolution :: "AdminResolution option"
  fm_adminResolvedAt :: "instant option"
  fm_adminResolvedBy :: "uuid option"
  fm_businessDate :: "string option"
  fm_updatedAt :: instant

record FenceEvent =
  ev_fence :: uuid
  ev_sequenceNumber :: nat
  ev_fromState :: "OutboundState option"
  ev_toState :: OutboundState
  ev_attemptToken :: "uuid option"
  ev_actor :: string
  ev_detail :: "(string \<times> string) list"
  ev_occurredAt :: instant

datatype TouchState = Reserved | Accepted | Touch_unknown | Released

record TouchReservation =
  tr_id :: uuid
  tr_planId :: uuid
  tr_firmId :: uuid
  tr_actionId :: string
  tr_channel :: TouchChannel
  tr_ordinal :: int
  tr_skippedOrdinals :: "int list"
  tr_localDate :: string
  tr_state :: TouchState
  tr_claimedAt :: instant
  tr_settledAt :: "instant option"

record OutreachPlan =
  op_id :: uuid
  op_firmId :: uuid
  op_ownerUserId :: uuid
  op_state :: string
  op_revision :: int
  op_cadence :: "OutreachCadence option"
  op_expiresAt :: "instant option"
  op_mailboxId :: uuid

record Firm =
  firm_id :: uuid
  firm_status :: string
  firm_assignedUserId :: "uuid option"
  firm_mergedInto :: "uuid option"

record StepExecution =
  se_id :: uuid
  se_enrollmentId :: uuid
  se_ordinal :: int
  se_stepId :: uuid
  se_contactId :: uuid
  se_channel :: string
  se_state :: string
  se_dueAt :: instant
  se_notBefore :: instant

record Enrollment =
  enr_id :: uuid
  enr_sequenceVersionId :: uuid
  enr_outreachPlanId :: "uuid option"
  enr_originKind :: string
  enr_firmId :: uuid
  enr_contactId :: uuid
  enr_opportunityId :: "uuid option"
  enr_assignedUserId :: uuid
  enr_endedAt :: "instant option"
  enr_holidayCalendarVersion :: string
  enr_permissionId :: "uuid option"

record VersionStep =
  vs_sequenceVersionId :: uuid
  vs_channel :: string
  vs_ordinal :: int
  vs_id :: uuid
  vs_templateVersionId :: "uuid option"

record DialTicket =
  dt_id :: uuid
  dt_consumedAt :: "instant option"
  dt_expiresAt :: instant

record TemplateVersion =
  tv_id :: uuid
  tv_contentHash :: string
  tv_approvedAt :: "instant option"
  tv_footerSignOff :: jstring

record Mailbox =
  mb_id :: uuid
  mb_ownerUserId :: uuid
  mb_status :: string
  mb_emailAddress :: string
  mb_providerAccountId :: "string option"
  mb_generation :: int
  mb_kind :: string
  mb_syncState :: string
  mb_coverageWatermarkAt :: "instant option"
  mb_connectedAt :: instant

record EmailRoute =
  er_id :: uuid
  er_version :: int
  er_contactId :: uuid
  er_address :: string

record SendingDomain =
  sd_domain :: string
  sd_isPrimary :: bool
  sd_spfPass :: bool
  sd_dkimPass :: bool
  sd_dmarcPass :: bool
  sd_postmasterReviewedAt :: "instant option"
  sd_automatedSendingEnabled :: bool
  sd_id :: uuid
  sd_authenticationCheckedAt :: "instant option"
  sd_automatedSendingEnabledAt :: "instant option"

record ProspectingAuthorization =
  pa_mailboxId :: uuid
  pa_ownerUserId :: uuid
  pa_providerAccountId :: string
  pa_emailAddress :: string
  pa_revision :: int
  pa_enabled :: bool

record FenceAuthorization =
  fa_fenceId :: uuid
  fa_mailboxId :: uuid
  fa_revision :: int

record OutboundDb =
  outbound_messages :: "OutboundFenceRow list"
  outbound_message_events :: "FenceEvent list"
  touches :: "TouchReservation list"
  plans :: "OutreachPlan list"
  firms :: "Firm list"
  step_executions :: "StepExecution list"
  enrollments :: "Enrollment list"
  version_steps :: "VersionStep list"
  dial_tickets :: "DialTicket list"
  template_versions :: "TemplateVersion list"
  mailboxes :: "Mailbox list"
  email_addresses :: "EmailRoute list"
  sending_domains :: "SendingDomain list"
  authorizations :: "ProspectingAuthorization list"
  fence_authorizations :: "FenceAuthorization list"

text \<open>\<open>ScopeActor\<close>, the caller a context acts for.\<close>
datatype Role = Role_admin | Role_salesperson

datatype ScopeActor = Actor_user (actor_userId: uuid) (actor_role: Role) | Actor_system string

end
