(* ===== verification/Touches.thy ===== *)
theory Touches
  imports OutboundDb "HOL-Library.Product_Lexorder" "HOL-Library.List_Lexorder"
begin

text \<open>
  \<open>packages/domain/outreach/touchReservations.ts\<close> and the fence side of
  \<open>outreach/authorization.ts\<close>: the reservation of one prospecting touch per firm and
  local day.  The advisory lock and the row locks of the source serialise the callers,
  so each function is one step on the tables.  An exception of the local clock is the
  left summand; a refusal of the claim is a value.
\<close>

type_synonym 'a touch_result = "clock_code + (OutboundDb \<times> (string + 'a))"

definition refuse_touch :: "OutboundDb \<Rightarrow> string \<Rightarrow> 'a touch_result" where
  "refuse_touch db reason = Inr (db, Inl reason)"

definition settleProspectingTouch :: "instant \<Rightarrow> uuid \<Rightarrow> TouchState \<Rightarrow> OutboundDb \<Rightarrow> OutboundDb" where
  "settleProspectingTouch now reservationId outcome db =
     db\<lparr> touches := sql_update (\<lambda>r. tr_id r = reservationId \<and> tr_state r \<in> {Reserved, Touch_unknown})
       (\<lambda>r. r\<lparr> tr_state := outcome, tr_settledAt := Some now \<rparr>) (touches db) \<rparr>"

text \<open>The outcome \<open>not_dispatched\<close> releases the reservation.\<close>
datatype SettleOutcome = Outcome_accepted | Outcome_not_dispatched | Outcome_unknown

fun settled_state :: "SettleOutcome \<Rightarrow> TouchState" where
  "settled_state Outcome_accepted = Accepted"
| "settled_state Outcome_not_dispatched = Released"
| "settled_state Outcome_unknown = Touch_unknown"

definition settleOutreachAction ::
    "instant \<Rightarrow> string option \<Rightarrow> TouchChannel \<Rightarrow> SettleOutcome \<Rightarrow> OutboundDb \<Rightarrow> OutboundDb" where
  "settleOutreachAction now actionId channel outcome db = (case actionId of
     None \<Rightarrow> db
   | Some a \<Rightarrow> (case sql_one (\<lambda>r. tr_actionId r = a \<and> tr_channel r = channel) (touches db) of
       None \<Rightarrow> db
     | Some r \<Rightarrow> settleProspectingTouch now (tr_id r) (settled_state outcome) db))"

text \<open>The local date of the plan's zone, when the zone is known.\<close>
definition plan_today :: "tzdb \<Rightarrow> OutboundDb \<Rightarrow> uuid \<Rightarrow> instant \<Rightarrow> string option" where
  "plan_today tz db planId at = (case sql_one (\<lambda>p. op_id p = planId) (plans db) of
     None \<Rightarrow> None
   | Some p \<Rightarrow> (case op_cadence p of
       None \<Rightarrow> None
     | Some c \<Rightarrow> (case localDate tz (Some at) (oc_timeZone c) of Inl _ \<Rightarrow> None | Inr d \<Rightarrow> Some d)))"

definition abandoned_call :: "OutboundDb \<Rightarrow> uuid \<Rightarrow> instant \<Rightarrow> TouchReservation \<Rightarrow> bool" where
  "abandoned_call db firm at r \<longleftrightarrow> tr_firmId r = firm \<and> tr_channel r = Phone \<and> tr_state r = Reserved \<and>
     list_ex (\<lambda>t. dt_id t = tr_actionId r \<and> dt_consumedAt t = None \<and> dt_expiresAt t \<le> at) (dial_tickets db)"

definition abandoned_email :: "tzdb \<Rightarrow> OutboundDb \<Rightarrow> uuid \<Rightarrow> instant \<Rightarrow> TouchReservation \<Rightarrow> bool" where
  "abandoned_email tz db firm at r \<longleftrightarrow> tr_firmId r = firm \<and> tr_channel r = Email \<and> tr_state r = Reserved \<and>
     (case plan_today tz db (tr_planId r) at of
        None \<Rightarrow> False | Some today \<Rightarrow> str_le (tr_localDate r) today \<and> tr_localDate r \<noteq> today) \<and>
     list_ex (\<lambda>f. en_stepExecutionId (fm_envelope f) = Some (tr_actionId r) \<and> fm_state f \<in> {Prepared, Held} \<and>
       fm_dispatchStartedAt f = None \<and> fm_attemptToken f = None) (outbound_messages db)"

definition releaseAbandonedTouches :: "tzdb \<Rightarrow> instant \<Rightarrow> uuid \<Rightarrow> instant \<Rightarrow> OutboundDb \<Rightarrow> OutboundDb" where
  "releaseAbandonedTouches tz now firm at db =
     (let release = (\<lambda>r. r\<lparr> tr_state := Released, tr_settledAt := Some now \<rparr>) in
      db\<lparr> touches := sql_update (abandoned_email tz db firm at) release
        (sql_update (abandoned_call db firm at) release (touches db)) \<rparr>)"

text \<open>A firm and every firm merged into it, transitively: the recursive query reaches its
  fixpoint within as many rounds as there are firms (\<open>UNION\<close> drops repeats).\<close>
fun firm_family :: "Firm list \<Rightarrow> nat \<Rightarrow> uuid list \<Rightarrow> uuid list" where
  "firm_family fs 0 known = known"
| "firm_family fs (Suc k) known =
     firm_family fs k (known @ map firm_id (filter (\<lambda>f. firm_id f \<notin> set known \<and>
       (case firm_mergedInto f of None \<Rightarrow> False | Some p \<Rightarrow> p \<in> set known)) fs))"

definition lifetime_limit :: "TouchChannel \<Rightarrow> OutreachLane \<Rightarrow> nat" where
  "lifetime_limit channel lane = (if channel = Email then (if lane = Email_first then 5 else 4)
     else (if lane = Call_first then 4 else 0))"

text \<open>The rows of the family that still count, oldest claim first.\<close>
definition counted_touches :: "OutboundDb \<Rightarrow> uuid \<Rightarrow> TouchReservation list" where
  "counted_touches db firm = sort_key (\<lambda>r. (tr_claimedAt r, map of_char (tr_id r) :: nat list))
     (filter (\<lambda>r. tr_state r \<noteq> Released \<and>
       tr_firmId r \<in> set (firm_family (firms db) (length (firms db)) [firm])) (touches db))"

text \<open>The upsert: a released reservation of the same action and plan is claimed again.\<close>
definition upsert_touch :: "uuid \<Rightarrow> OutreachPlan \<Rightarrow> string \<Rightarrow> TouchChannel \<Rightarrow> int \<Rightarrow> int list \<Rightarrow> string \<Rightarrow>
    instant \<Rightarrow> OutboundDb \<Rightarrow> OutboundDb \<times> uuid option" where
  "upsert_touch fresh plan actionId channel ordinal skipped date at db =
     (case sql_one (\<lambda>r. tr_channel r = channel \<and> tr_actionId r = actionId) (touches db) of
        None \<Rightarrow> (db\<lparr> touches := touches db @ [\<lparr> tr_id = fresh, tr_planId = op_id plan,
            tr_firmId = op_firmId plan, tr_actionId = actionId, tr_channel = channel, tr_ordinal = ordinal,
            tr_skippedOrdinals = skipped, tr_localDate = date, tr_state = Reserved, tr_claimedAt = at,
            tr_settledAt = None \<rparr>] \<rparr>, Some fresh)
      | Some r \<Rightarrow>
          if tr_state r = Released \<and> tr_planId r = op_id plan
          then (db\<lparr> touches := sql_update (\<lambda>x. tr_id x = tr_id r)
              (\<lambda>x. x\<lparr> tr_ordinal := ordinal, tr_skippedOrdinals := skipped, tr_localDate := date,
                 tr_state := Reserved, tr_claimedAt := at, tr_settledAt := None \<rparr>) (touches db) \<rparr>, Some (tr_id r))
          else (db, None))"

text \<open>The earlier reservation of an action, unless it was released.\<close>
definition live_replay :: "OutboundDb \<Rightarrow> TouchChannel \<Rightarrow> string \<Rightarrow> TouchReservation option" where
  "live_replay db channel actionId =
     (case sql_one (\<lambda>r. tr_channel r = channel \<and> tr_actionId r = actionId) (touches db) of
        None \<Rightarrow> None
      | Some r \<Rightarrow> if tr_state r \<noteq> Released then Some r else None)"

text \<open>The claim of an action without a live reservation.\<close>
definition claim_new_touch :: "tzdb \<Rightarrow> uuid \<Rightarrow> OutreachPlan \<Rightarrow> OutreachCadence \<Rightarrow> string \<Rightarrow> TouchChannel \<Rightarrow>
    instant \<Rightarrow> int option \<Rightarrow> string \<Rightarrow> OutboundDb \<Rightarrow> (uuid \<times> string) touch_result" where
  "claim_new_touch tz fresh plan cadence actionId channel at expectedOrdinal date db =
     (let rows = counted_touches db (op_firmId plan) in
      if list_ex (\<lambda>r. tr_localDate r = date) rows then refuse_touch db ''firm_touched_today'' else
      if list_ex (\<lambda>r. tr_state r = Reserved \<or> tr_state r = Touch_unknown) rows
      then refuse_touch db ''touch_in_flight'' else
      if lifetime_limit channel (oc_lane cadence) \<le> length (filter (\<lambda>r. tr_channel r = channel) rows)
      then refuse_touch db ''lifetime_limit'' else
      let own = filter (\<lambda>r. tr_planId r = op_id plan) rows in
      and_then (nextProspectingTouch tz cadence at (map tr_ordinal own)
          (if own = [] then None else Some (tr_claimedAt (last own)))) (\<lambda>next.
      case next of
        None \<Rightarrow> refuse_touch db ''touch_not_due''
      | Some n \<Rightarrow>
          let touch = fst n; skipped = snd n in
          if pt_channel touch \<noteq> channel \<or> (expectedOrdinal \<noteq> None \<and> expectedOrdinal \<noteq> Some (pt_ordinal touch))
          then refuse_touch db ''touch_not_due'' else
          let u = upsert_touch fresh plan actionId channel (pt_ordinal touch) skipped date at db in
          (case snd u of
             Some rid \<Rightarrow> Inr (fst u, Inr (rid, date))
           | None \<Rightarrow> refuse_touch (fst u) ''action_already_used'')))"

definition claimProspectingTouch :: "tzdb \<Rightarrow> ScopeActor \<Rightarrow> instant \<Rightarrow> uuid \<Rightarrow> uuid \<Rightarrow> int \<Rightarrow> string \<Rightarrow>
    TouchChannel \<Rightarrow> instant \<Rightarrow> int option \<Rightarrow> OutboundDb \<Rightarrow> (uuid \<times> string) touch_result" where
  "claimProspectingTouch tz actor now fresh planId expectedRevision actionId channel at expectedOrdinal db =
     (if actionId = [] \<or> length actionId > 200 then refuse_touch db ''invalid_input'' else
      case sql_one (\<lambda>p. op_id p = planId) (plans db) of
        None \<Rightarrow> refuse_touch db ''plan_unknown''
      | Some plan \<Rightarrow>
      (case sql_one (\<lambda>f. firm_id f = op_firmId plan) (firms db) of
        None \<Rightarrow> refuse_touch db ''owner_changed''
      | Some firm \<Rightarrow>
      if firm_status firm \<noteq> ''active'' \<or> firm_assignedUserId firm \<noteq> Some (op_ownerUserId plan)
      then refuse_touch db ''owner_changed'' else
      if (case actor of Actor_user u role \<Rightarrow> role \<noteq> Role_admin \<and> u \<noteq> op_ownerUserId plan | _ \<Rightarrow> False)
      then refuse_touch db ''not_assigned'' else
      if op_state plan \<noteq> ''active'' \<or> op_revision plan \<noteq> expectedRevision
      then refuse_touch db ''plan_changed'' else
      (case (op_cadence plan, op_expiresAt plan) of
        (Some cadence, Some expires) \<Rightarrow>
          if at > expires then refuse_touch db ''plan_expired'' else
          and_then (localDate tz (Some at) (oc_timeZone cadence)) (\<lambda>date.
          let db = releaseAbandonedTouches tz now (op_firmId plan) at db in
          case live_replay db channel actionId of
            Some replay \<Rightarrow>
              if tr_planId replay = op_id plan \<and> tr_localDate replay = date
              then Inr (db, Inr (tr_id replay, date))
              else refuse_touch db ''action_already_used''
          | None \<Rightarrow> claim_new_touch tz fresh plan cadence actionId channel at expectedOrdinal date db)
      | _ \<Rightarrow> refuse_touch db ''plan_expired'')))"

text \<open>The plan row behind a prospecting step execution, and the ordinal of the step among
  the version's email steps.\<close>
definition prospecting_step :: "OutboundDb \<Rightarrow> uuid \<Rightarrow> (OutreachPlan \<times> nat) option" where
  "prospecting_step db executionId =
     (case sql_one (\<lambda>x. se_id x = executionId) (step_executions db) of
        None \<Rightarrow> None
      | Some x \<Rightarrow> (case sql_one (\<lambda>e. enr_id e = se_enrollmentId x) (enrollments db) of
          None \<Rightarrow> None
        | Some e \<Rightarrow>
            if enr_originKind e \<noteq> ''prospecting'' then None else
            (case enr_outreachPlanId e of
               None \<Rightarrow> None
             | Some pid \<Rightarrow> (case sql_one (\<lambda>p. op_id p = pid) (plans db) of
                 None \<Rightarrow> None
               | Some p \<Rightarrow> Some (p, sql_count (\<lambda>s. vs_sequenceVersionId s = enr_sequenceVersionId e \<and>
                   vs_channel s = ''email'' \<and> vs_ordinal s \<le> se_ordinal x) (version_steps db))))))"

definition reserveOutreachEmail :: "tzdb \<Rightarrow> ScopeActor \<Rightarrow> instant \<Rightarrow> uuid \<Rightarrow> uuid \<Rightarrow> instant \<Rightarrow>
    OutboundDb \<Rightarrow> (uuid option) touch_result" where
  "reserveOutreachEmail tz actor now fresh executionId at db =
     (case prospecting_step db executionId of
        None \<Rightarrow> Inr (db, Inr None)
      | Some (plan, channelOrdinal) \<Rightarrow>
          (case (case op_cadence plan of None \<Rightarrow> None
                 | Some c \<Rightarrow> find (\<lambda>t. pt_channel t = Email \<and> pt_channelOrdinal t = int channelOrdinal) (oc_touches c)) of
             None \<Rightarrow> refuse_touch db ''touch_not_due''
           | Some touch \<Rightarrow>
               and_then (claimProspectingTouch tz actor now fresh (op_id plan) (op_revision plan) executionId
                 Email at (Some (pt_ordinal touch)) db) (\<lambda>(db', r).
                 Inr (db', (case r of Inl e \<Rightarrow> Inl e | Inr (rid, _) \<Rightarrow> Inr (Some rid))))))"

section \<open>The authorization frozen on a prospecting fence (outreach/authorization.ts)\<close>

text \<open>\<open>readProspectingAuthorization\<close> for the mailbox's own identity: the revision when sending
  is allowed.\<close>
definition authorizationForMailbox :: "uuid \<Rightarrow> bool \<Rightarrow> OutboundDb \<Rightarrow> int option" where
  "authorizationForMailbox mailboxId requireConnected db =
     (case sql_one (\<lambda>m. mb_id m = mailboxId) (mailboxes db) of
        None \<Rightarrow> None
      | Some m \<Rightarrow> (case mb_providerAccountId m of
          None \<Rightarrow> None
        | Some account \<Rightarrow> if account = [] then None else
            (case sql_one (\<lambda>a. pa_mailboxId a = mailboxId) (authorizations db) of
               None \<Rightarrow> None
             | Some a \<Rightarrow>
                 if pa_enabled a \<and> (\<not> requireConnected \<or> mb_status m = ''connected'') \<and>
                    pa_ownerUserId a = mb_ownerUserId m \<and> pa_providerAccountId a = account \<and>
                    pa_emailAddress a = mb_emailAddress m
                 then Some (pa_revision a) else None)))"

definition bindProspectingFence :: "uuid \<Rightarrow> uuid \<Rightarrow> uuid \<Rightarrow> OutboundDb \<Rightarrow> OutboundDb" where
  "bindProspectingFence fenceId mailboxId stepExecutionId db =
     (case sql_one (\<lambda>s. se_id s = stepExecutionId) (step_executions db) of
        None \<Rightarrow> db
      | Some s \<Rightarrow> (case sql_one (\<lambda>e. enr_id e = se_enrollmentId s) (enrollments db) of
          None \<Rightarrow> db
        | Some e \<Rightarrow> if enr_originKind e \<noteq> ''prospecting'' then db else
            (case authorizationForMailbox mailboxId True db of
               None \<Rightarrow> db
             | Some revision \<Rightarrow>
                 if list_ex (\<lambda>a. fa_fenceId a = fenceId) (fence_authorizations db) then db
                 else db\<lparr> fence_authorizations := fence_authorizations db @
                   [\<lparr> fa_fenceId = fenceId, fa_mailboxId = mailboxId, fa_revision = revision \<rparr>] \<rparr>)))"

definition verifyProspectingFence :: "uuid \<Rightarrow> uuid \<Rightarrow> OutboundDb \<Rightarrow> bool" where
  "verifyProspectingFence fenceId mailboxId db =
     (case authorizationForMailbox mailboxId True db of
        None \<Rightarrow> False
      | Some revision \<Rightarrow> list_ex (\<lambda>a. fa_fenceId a = fenceId \<and> fa_mailboxId a = mailboxId \<and>
          fa_revision a = revision) (fence_authorizations db))"

section \<open>Frames\<close>

lemma refuse_touch_iff [simp]: "refuse_touch db reason = Inr (db', r) \<longleftrightarrow> db' = db \<and> r = Inl reason"
  by (auto simp: refuse_touch_def)

text \<open>A claim writes the reservations and nothing else.\<close>
definition only_touches :: "OutboundDb \<Rightarrow> OutboundDb \<Rightarrow> bool" where
  "only_touches db db' \<longleftrightarrow> db' = db\<lparr> touches := touches db' \<rparr>"

lemma only_touches_refl [simp]: "only_touches db db"
  by (simp add: only_touches_def)

lemma only_touches_trans: "only_touches a b \<Longrightarrow> only_touches b c \<Longrightarrow> only_touches a c"
  unfolding only_touches_def by (cases a; cases b; cases c) simp

lemma release_only_touches: "only_touches db (releaseAbandonedTouches tz now firm at db)"
  by (simp add: only_touches_def releaseAbandonedTouches_def Let_def)

lemma settle_only_touches: "only_touches db (settleOutreachAction now a c outcome db)"
  by (simp add: only_touches_def settleOutreachAction_def settleProspectingTouch_def split: option.split)

lemma upsert_only_touches [simp]: "only_touches db (fst (upsert_touch fresh plan a c j sk d at db))"
  by (auto simp: only_touches_def upsert_touch_def split: option.splits if_splits)

lemma claim_new_only_touches:
  "claim_new_touch tz fresh plan cadence a c at ord date db = Inr (db', r) \<Longrightarrow> only_touches db db'"
  unfolding claim_new_touch_def Let_def
  by (auto elim!: and_thenE split: option.split_asm if_split_asm)

lemma claim_only_touches:
  "claimProspectingTouch tz actor now fresh p rv a c at ord db = Inr (db', r) \<Longrightarrow> only_touches db db'"
  unfolding claimProspectingTouch_def Let_def
  by (auto elim!: and_thenE split: option.split_asm if_split_asm
      simp: release_only_touches
      dest!: claim_new_only_touches only_touches_trans [OF release_only_touches])

lemma reserve_only_touches:
  "reserveOutreachEmail tz actor now fresh x at db = Inr (db', r) \<Longrightarrow> only_touches db db'"
  unfolding reserveOutreachEmail_def
  by (auto elim!: and_thenE split: option.split_asm prod.split_asm dest!: claim_only_touches)

end
