(* ===== verification/Fence.thy ===== *)
theory Fence
  imports Touches
begin

text \<open>
  \<open>packages/domain/outbound/fence.ts\<close>: the fence of one email, its state machine and
  ledger.  Every function is one step on \<open>OutboundDb\<close>; a database timestamp and a
  \<open>gen_random_uuid()\<close> are arguments of the step, SHA-256 and NFKC are fields of
  \<open>SendEnv\<close>.  A single-row \<open>UPDATE ... WHERE ... RETURNING\<close> is the compare and swap of
  the prelude.
\<close>

record SendEnv =
  env_nfkc :: "jstring \<Rightarrow> jstring"
  env_sha256 :: "jstring \<Rightarrow> string"
  env_tz :: tzdb
  env_actor :: ScopeActor

definition renderedHash :: "SendEnv \<Rightarrow> jstring \<Rightarrow> jstring \<Rightarrow> string" where
  "renderedHash env subject body = env_sha256 env (subject @ [10, 10] @ body)"

definition describeActor :: "SendEnv \<Rightarrow> string" where
  "describeActor env = (case env_actor env of
     Actor_system component \<Rightarrow> ''system:'' @ component | Actor_user _ _ \<Rightarrow> ''user:user'')"

definition actor_or :: "SendEnv \<Rightarrow> string option \<Rightarrow> string" where
  "actor_or env actor = (case actor of None \<Rightarrow> describeActor env | Some a \<Rightarrow> a)"

section \<open>The ledger\<close>

definition events_of :: "OutboundDb \<Rightarrow> uuid \<Rightarrow> FenceEvent list" where
  "events_of db k = filter (\<lambda>e. ev_fence e = k) (outbound_message_events db)"

definition appendEvent :: "instant \<Rightarrow> uuid \<Rightarrow> OutboundState option \<Rightarrow> OutboundState \<Rightarrow> uuid option \<Rightarrow>
    string \<Rightarrow> (string \<times> string) list \<Rightarrow> OutboundDb \<Rightarrow> OutboundDb" where
  "appendEvent now k from_st to_st token actor detail db =
     db\<lparr> outbound_message_events := outbound_message_events db @
       [\<lparr> ev_fence = k, ev_sequenceNumber = foldl max 0 (map ev_sequenceNumber (events_of db k)) + 1,
          ev_fromState = from_st, ev_toState = to_st, ev_attemptToken = token, ev_actor = actor,
          ev_detail = detail, ev_occurredAt = now \<rparr>] \<rparr>"

text \<open>Oldest first.\<close>
definition readFenceEvents :: "OutboundDb \<Rightarrow> uuid \<Rightarrow> FenceEvent list" where
  "readFenceEvents db k = sort_key ev_sequenceNumber (events_of db k)"

section \<open>Reading\<close>

definition readFence :: "OutboundDb \<Rightarrow> uuid \<Rightarrow> OutboundFenceRow option" where
  "readFence db k = sql_one (\<lambda>f. fm_id f = k) (outbound_messages db)"

text \<open>The claim's read: the locks it takes on the fence and the enrollment make the
  recheck and the claim one step.\<close>
definition lockFenceForClaim :: "OutboundDb \<Rightarrow> uuid \<Rightarrow> OutboundFenceRow option" where
  "lockFenceForClaim db k = readFence db k"

definition readFenceByStepExecution :: "OutboundDb \<Rightarrow> uuid \<Rightarrow> OutboundFenceRow option" where
  "readFenceByStepExecution db s =
     sql_one (\<lambda>f. en_stepExecutionId (fm_envelope f) = Some s) (outbound_messages db)"

definition readFenceByDraftId :: "OutboundDb \<Rightarrow> uuid \<Rightarrow> OutboundFenceRow option" where
  "readFenceByDraftId db d = sql_one (\<lambda>f. en_draftId (fm_envelope f) = Some d) (outbound_messages db)"

definition readRouteVersion :: "OutboundDb \<Rightarrow> uuid \<Rightarrow> int option" where
  "readRouteVersion db routeId = map_option er_version (sql_one (\<lambda>r. er_id r = routeId) (email_addresses db))"

definition fenceForOutgoingMessage ::
    "OutboundDb \<Rightarrow> uuid \<Rightarrow> string option \<Rightarrow> string option \<Rightarrow> uuid option" where
  "fenceForOutgoingMessage db mailboxId rfcMessageId providerMessageId =
     map_option fm_id (sql_one (\<lambda>f. en_mailboxId (fm_envelope f) = mailboxId \<and>
       ((rfcMessageId \<noteq> None \<and>
           Some (en_providerMessageIdHeader (fm_envelope f)) = map_option (\<lambda>m. ''<'' @ m @ ''>'') rfcMessageId) \<or>
        (providerMessageId \<noteq> None \<and> fm_providerMessageId f = providerMessageId))) (outbound_messages db))"

text \<open>The row with the id first, else the one with the mailbox and header.\<close>
definition readFenceForSentMessage ::
    "OutboundDb \<Rightarrow> uuid \<Rightarrow> uuid \<Rightarrow> string \<Rightarrow> OutboundFenceRow option" where
  "readFenceForSentMessage db fenceId mailboxId rfcMessageId =
     (case sql_one (\<lambda>f. fm_id f = fenceId) (outbound_messages db) of
        Some f \<Rightarrow> Some f
      | None \<Rightarrow> sql_one (\<lambda>f. en_mailboxId (fm_envelope f) = mailboxId \<and>
          en_providerMessageIdHeader (fm_envelope f) = rfcMessageId) (outbound_messages db))"

record OriginatingSend =
  os_outboundMessageId :: uuid
  os_mailboxId :: uuid
  os_businessDate :: string

definition originatingSend :: "OutboundDb \<Rightarrow> string list \<Rightarrow> OriginatingSend option" where
  "originatingSend db references =
     (let headers = map (\<lambda>r. ''<'' @ r @ ''>'') (filter (\<lambda>r. r \<noteq> []) references);
          rows = sort_key (\<lambda>f. - en_sendAt (fm_envelope f))
            (filter (\<lambda>f. en_providerMessageIdHeader (fm_envelope f) \<in> set headers \<and> fm_businessDate f \<noteq> None)
              (outbound_messages db)) in
      case rows of
        [] \<Rightarrow> None
      | f # _ \<Rightarrow> Some \<lparr> os_outboundMessageId = fm_id f, os_mailboxId = en_mailboxId (fm_envelope f),
          os_businessDate = the (fm_businessDate f) \<rparr>)"

record OutboundOutcome =
  oo_state :: "OutboundState option"
  oo_outboundMessageId :: "uuid option"
  oo_dispatchedAt :: "instant option"
  oo_heldReason :: "string option"
  oo_adminResolution :: "AdminResolution option"

text \<open>The state \<open>absent\<close> is \<open>None\<close>.\<close>
definition readOutboundOutcome :: "OutboundDb \<Rightarrow> uuid \<Rightarrow> OutboundOutcome" where
  "readOutboundOutcome db stepExecutionId = (case readFenceByStepExecution db stepExecutionId of
     None \<Rightarrow> \<lparr> oo_state = None, oo_outboundMessageId = None, oo_dispatchedAt = None,
               oo_heldReason = None, oo_adminResolution = None \<rparr>
   | Some f \<Rightarrow> \<lparr> oo_state = Some (fm_state f), oo_outboundMessageId = Some (fm_id f),
               oo_dispatchedAt = fm_dispatchStartedAt f, oo_heldReason = fm_heldReason f,
               oo_adminResolution = fm_adminResolution f \<rparr>)"

section \<open>Creating a fence\<close>

record PreparedFence =
  pf_outboundMessageId :: uuid
  pf_created :: bool

definition prepared_row :: "uuid \<Rightarrow> Envelope \<Rightarrow> string \<Rightarrow> string option \<Rightarrow> instant \<Rightarrow> OutboundFenceRow" where
  "prepared_row k env rule businessDate now = \<lparr> fm_id = k, fm_state = Prepared, fm_envelope = env,
     fm_placementRuleVersion = rule, fm_attemptToken = None, fm_dispatchStartedAt = None, fm_sentAt = None,
     fm_providerMessageId = None, fm_providerThreadId = None, fm_reconcileStartedAt = None,
     fm_reconcileDeadlineAt = None, fm_reconcileAttempts = 0, fm_reconcileLastAttemptAt = None,
     fm_heldReason = None, fm_heldAt = None, fm_unknownTerminalAt = None, fm_adminResolution = None,
     fm_adminResolvedAt = None, fm_adminResolvedBy = None, fm_businessDate = businessDate,
     fm_updatedAt = now \<rparr>"

definition insert_fence :: "OutboundFenceRow \<Rightarrow> OutboundDb \<Rightarrow> OutboundDb" where
  "insert_fence f db = db\<lparr> outbound_messages := outbound_messages db @ [f] \<rparr>"

record HumanReplyInput =
  hr_draftId :: uuid
  hr_mailboxId :: uuid
  hr_firmId :: uuid
  hr_contactId :: uuid
  hr_opportunityId :: "uuid option"
  hr_address :: string
  hr_routeId :: uuid
  hr_routeVersion :: int
  hr_subject :: jstring
  hr_body :: jstring
  hr_sourceZone :: string

definition prepareHumanReplyFence :: "SendEnv \<Rightarrow> instant \<Rightarrow> uuid \<Rightarrow> HumanReplyInput \<Rightarrow> OutboundDb \<Rightarrow>
    OutboundDb \<times> PreparedFence SendResult" where
  "prepareHumanReplyFence env now fresh input db =
     (case readFenceByDraftId db (hr_draftId input) of
        Some f \<Rightarrow> (db, acceptSend \<lparr> pf_outboundMessageId = fm_id f, pf_created = False \<rparr>)
      | None \<Rightarrow>
          if sendBodyIssue (hr_body input) then (db, Refuse Footer_not_composed (Some ''body_too_long''))
          else if hasOptOutLink (env_nfkc env) (hr_subject input)
          then (db, Refuse Footer_not_composed (Some ''optout_link''))
          else (case sql_one sd_isPrimary (sending_domains db) of
            None \<Rightarrow> (db, refuseSend Sending_domain_unknown)
          | Some d \<Rightarrow>
              if sd_domain d = [] then (db, refuseSend Sending_domain_unknown) else
              let row = prepared_row fresh \<lparr> en_mailboxId = hr_mailboxId input, en_originKind = Origin_draft,
                    en_enrollmentId = None, en_stepExecutionId = None, en_draftId = Some (hr_draftId input),
                    en_firmId = hr_firmId input, en_contactId = Some (hr_contactId input),
                    en_opportunityId = hr_opportunityId input, en_recipientAddress = hr_address input,
                    en_recipientRouteId = Some (hr_routeId input),
                    en_recipientRouteVersion = Some (hr_routeVersion input),
                    en_subject = hr_subject input, en_body = hr_body input, en_templateVersionId = None,
                    en_renderedHash = renderedHash env (hr_subject input) (hr_body input),
                    en_providerMessageIdHeader =
                      deterministicHumanReplyMessageId (hr_draftId input) fresh (sd_domain d),
                    en_sendAt = now, en_sourceZone = hr_sourceZone input \<rparr> ''human-reply.1'' None now in
              (appendEvent now fresh None Prepared None (describeActor env) [(''origin'', ''human_reply'')]
                 (insert_fence row db),
               acceptSend \<lparr> pf_outboundMessageId = fresh, pf_created = True \<rparr>)))"

record OutboundEmailRequest =
  oe_enrollmentId :: "uuid option"
  oe_stepExecutionId :: uuid
  oe_opportunityId :: "uuid option"
  oe_firmId :: uuid
  oe_contactId :: "uuid option"
  oe_ownerUserId :: uuid
  oe_templateVersionId :: uuid
  oe_templateContentHash :: string
  oe_emailAddressId :: "uuid option"
  oe_toAddress :: string
  oe_subject :: jstring
  oe_body :: jstring
  oe_sendAt :: instant
  oe_sourceZone :: string
  oe_ruleVersion :: "string option"
  oe_businessDate :: string

definition request_row :: "SendEnv \<Rightarrow> OutboundDb \<Rightarrow> uuid \<Rightarrow> Mailbox \<Rightarrow> OutboundEmailRequest \<Rightarrow> instant \<Rightarrow>
    OutboundFenceRow" where
  "request_row env db k mailbox request now = prepared_row k
     \<lparr> en_mailboxId = mb_id mailbox, en_originKind = Origin_step_execution,
       en_enrollmentId = oe_enrollmentId request, en_stepExecutionId = Some (oe_stepExecutionId request),
       en_draftId = None, en_firmId = oe_firmId request, en_contactId = oe_contactId request,
       en_opportunityId = oe_opportunityId request, en_recipientAddress = js_lower (oe_toAddress request),
       en_recipientRouteId = oe_emailAddressId request,
       en_recipientRouteVersion =
         (case oe_emailAddressId request of None \<Rightarrow> None | Some r \<Rightarrow> readRouteVersion db r),
       en_subject = oe_subject request, en_body = oe_body request,
       en_templateVersionId = Some (oe_templateVersionId request),
       en_renderedHash = renderedHash env (oe_subject request) (oe_body request),
       en_providerMessageIdHeader = deterministicMessageId k (after_last_at (mb_emailAddress mailbox)),
       en_sendAt = oe_sendAt request, en_sourceZone = oe_sourceZone request \<rparr>
     (case oe_ruleVersion request of None \<Rightarrow> PLACEMENT_RULE_VERSION | Some r \<Rightarrow> r)
     (Some (oe_businessDate request)) now"

text \<open>An exception of the local clock inside the reservation aborts the transaction.\<close>
definition prepareOutboundMessage :: "SendEnv \<Rightarrow> instant \<Rightarrow> uuid \<Rightarrow> uuid \<Rightarrow> OutboundEmailRequest \<Rightarrow>
    OutboundDb \<Rightarrow> clock_code + (OutboundDb \<times> PreparedFence SendResult)" where
  "prepareOutboundMessage env now fresh freshTouch request db =
     (case readFenceByStepExecution db (oe_stepExecutionId request) of
        Some f \<Rightarrow> Inr (db, acceptSend \<lparr> pf_outboundMessageId = fm_id f, pf_created = False \<rparr>)
      | None \<Rightarrow>
      if sendBodyIssue (oe_body request) then Inr (db, Refuse Footer_not_composed (Some ''body_too_long'')) else
      if hasOptOutLink (env_nfkc env) (oe_body request) \<or> hasOptOutLink (env_nfkc env) (oe_subject request)
      then Inr (db, Refuse Footer_not_composed (Some ''optout_link'')) else
      (case sql_one (\<lambda>t. tv_id t = oe_templateVersionId request) (template_versions db) of
        None \<Rightarrow> Inr (db, refuseSend Template_unapproved)
      | Some t \<Rightarrow>
          if tv_approvedAt t = None then Inr (db, refuseSend Template_unapproved) else
          if tv_contentHash t \<noteq> oe_templateContentHash request then Inr (db, refuseSend Template_mismatch) else
          (case sql_one (\<lambda>m. mb_ownerUserId m = oe_ownerUserId request) (mailboxes db) of
            None \<Rightarrow> Inr (db, refuseSend Mailbox_unknown)
          | Some m \<Rightarrow>
              if mb_status m \<noteq> ''connected'' then Inr (db, refuseSend Mailbox_inactive) else
              and_then (reserveOutreachEmail (env_tz env) (env_actor env) now freshTouch
                  (oe_stepExecutionId request) now db) (\<lambda>(db1, touch).
              case touch of
                Inl reason \<Rightarrow> Inr (db1, Refuse Step_ineligible (Some reason))
              | Inr _ \<Rightarrow>
                  (case readFenceByStepExecution db1 (oe_stepExecutionId request) of
                     Some raced \<Rightarrow> Inr (db1, acceptSend \<lparr> pf_outboundMessageId = fm_id raced, pf_created = False \<rparr>)
                   | None \<Rightarrow>
                       Inr (appendEvent now fresh None Prepared None (describeActor env) []
                         (bindProspectingFence fresh (mb_id m) (oe_stepExecutionId request)
                           (insert_fence (request_row env db1 fresh m request now) db1)),
                         acceptSend \<lparr> pf_outboundMessageId = fresh, pf_created = True \<rparr>))))))"

section \<open>Restored history\<close>

definition SENT_TOMBSTONE_PROVENANCE :: string where
  "SENT_TOMBSTONE_PROVENANCE = ''sent_folder_missing_fence''"

definition SENT_FOLDER_PRE_DISPATCH_PROVENANCE :: string where
  "SENT_FOLDER_PRE_DISPATCH_PROVENANCE = ''sent_folder_pre_dispatch_fence''"

definition SENT_TOMBSTONE_RULE_VERSION :: string where
  "SENT_TOMBSTONE_RULE_VERSION = ''restore-tombstone.1''"

definition SENT_TOMBSTONE_BODY :: jstring where
  "SENT_TOMBSTONE_BODY = lit ''Recovered from the mailbox Sent folder after a database restore (Appendix E step 3). The body was not copied.''"

definition SENT_TOMBSTONE_FALLBACK_SUBJECT :: jstring where
  "SENT_TOMBSTONE_FALLBACK_SUBJECT = lit ''(recovered from the Sent folder)''"

text \<open>\<open>replace(/\s+/gu, ' ')\<close>; the flag says the previous unit was white space.\<close>
fun squeeze_ws :: "bool \<Rightarrow> jstring \<Rightarrow> jstring" where
  "squeeze_ws gap [] = []"
| "squeeze_ws gap (c # cs) =
     (if ws c then (if gap then squeeze_ws True cs else 32 # squeeze_ws True cs)
      else c # squeeze_ws False cs)"

definition tombstoneSubject :: "(jstring \<Rightarrow> jstring) \<Rightarrow> jstring option \<Rightarrow> jstring" where
  "tombstoneSubject nfkc subject =
     (let flattened = trim (take 160 (trim (squeeze_ws False (case subject of None \<Rightarrow> [] | Some s \<Rightarrow> s)))) in
      if flattened = [] \<or> hasOptOutLink nfkc flattened then SENT_TOMBSTONE_FALLBACK_SUBJECT else flattened)"

text \<open>The step of a sequence send, or the draft of a human reply.\<close>
datatype TombstoneOrigin = Tomb_step (tomb_enrollment: uuid) (tomb_step: uuid) | Tomb_draft (tomb_draft: uuid)

record SentTombstoneInput =
  ts_fenceId :: uuid
  ts_mailboxId :: uuid
  ts_origin :: TombstoneOrigin
  ts_firmId :: uuid
  ts_contactId :: uuid
  ts_opportunityId :: "uuid option"
  ts_recipientAddress :: string
  ts_recipientRouteId :: "uuid option"
  ts_recipientRouteVersion :: "int option"
  ts_subject :: "jstring option"
  ts_rfcMessageId :: string
  ts_providerMessageId :: string
  ts_providerThreadId :: string
  ts_sentAt :: instant
  ts_businessDate :: string
  ts_actor :: "string option"

definition tombstone_row :: "SendEnv \<Rightarrow> instant \<Rightarrow> uuid \<Rightarrow> SentTombstoneInput \<Rightarrow> OutboundFenceRow" where
  "tombstone_row env now token i =
     (let subject = tombstoneSubject (env_nfkc env) (ts_subject i) in
      (prepared_row (ts_fenceId i)
        \<lparr> en_mailboxId = ts_mailboxId i,
          en_originKind = (case ts_origin i of Tomb_step _ _ \<Rightarrow> Origin_step_execution | Tomb_draft _ \<Rightarrow> Origin_draft),
          en_enrollmentId = (case ts_origin i of Tomb_step e _ \<Rightarrow> Some e | Tomb_draft _ \<Rightarrow> None),
          en_stepExecutionId = (case ts_origin i of Tomb_step _ s \<Rightarrow> Some s | Tomb_draft _ \<Rightarrow> None),
          en_draftId = (case ts_origin i of Tomb_step _ _ \<Rightarrow> None | Tomb_draft d \<Rightarrow> Some d),
          en_firmId = ts_firmId i, en_contactId = Some (ts_contactId i),
          en_opportunityId = ts_opportunityId i, en_recipientAddress = js_lower (ts_recipientAddress i),
          en_recipientRouteId = ts_recipientRouteId i, en_recipientRouteVersion = ts_recipientRouteVersion i,
          en_subject = subject, en_body = SENT_TOMBSTONE_BODY, en_templateVersionId = None,
          en_renderedHash = renderedHash env subject SENT_TOMBSTONE_BODY,
          en_providerMessageIdHeader = ts_rfcMessageId i, en_sendAt = ts_sentAt i,
          en_sourceZone = ''UTC'' \<rparr>
        SENT_TOMBSTONE_RULE_VERSION (Some (ts_businessDate i)) now)
      \<lparr> fm_state := Sent, fm_attemptToken := Some token, fm_dispatchStartedAt := Some (ts_sentAt i),
        fm_sentAt := Some (ts_sentAt i), fm_providerMessageId := Some (ts_providerMessageId i),
        fm_providerThreadId := Some (ts_providerThreadId i) \<rparr>)"

text \<open>The unique keys of the table: id, step execution, draft, mailbox and header.\<close>
definition same_unique_key :: "OutboundFenceRow \<Rightarrow> OutboundFenceRow \<Rightarrow> bool" where
  "same_unique_key f g \<longleftrightarrow> fm_id f = fm_id g \<or>
     (en_stepExecutionId (fm_envelope f) \<noteq> None \<and>
        en_stepExecutionId (fm_envelope f) = en_stepExecutionId (fm_envelope g)) \<or>
     (en_draftId (fm_envelope f) \<noteq> None \<and> en_draftId (fm_envelope f) = en_draftId (fm_envelope g)) \<or>
     (en_mailboxId (fm_envelope f) = en_mailboxId (fm_envelope g) \<and>
        en_providerMessageIdHeader (fm_envelope f) = en_providerMessageIdHeader (fm_envelope g))"

definition insertSentTombstone :: "SendEnv \<Rightarrow> instant \<Rightarrow> uuid \<Rightarrow> SentTombstoneInput \<Rightarrow> OutboundDb \<Rightarrow>
    OutboundDb \<times> OutboundFenceRow SendResult" where
  "insertSentTombstone env now token i db =
     (let row = tombstone_row env now token i in
      if list_ex (same_unique_key row) (outbound_messages db)
      then (db, Refuse Fence_not_ready (Some ''a fence with this id, header or step already exists''))
      else (appendEvent now (fm_id row) None Sent (Some token) (actor_or env (ts_actor i))
              [(''reconciled_from'', SENT_TOMBSTONE_PROVENANCE), (''providerMessageId'', ts_providerMessageId i)]
              (insert_fence row db), acceptSend row))"

section \<open>The transitions\<close>

text \<open>\<open>UPDATE outbound_messages SET change WHERE id = k AND guard RETURNING\<close>\<close>
definition update_fence :: "(OutboundFenceRow \<Rightarrow> bool) \<Rightarrow> (OutboundFenceRow \<Rightarrow> OutboundFenceRow) \<Rightarrow> uuid \<Rightarrow>
    OutboundDb \<Rightarrow> OutboundDb \<times> OutboundFenceRow option" where
  "update_fence guard change k db =
     (case cas fm_id guard change k (outbound_messages db) of (rows, hit) \<Rightarrow>
        (db\<lparr> outbound_messages := rows \<rparr>, hit))"

abbreviation in_state :: "OutboundState \<Rightarrow> OutboundFenceRow \<Rightarrow> bool" where
  "in_state s f \<equiv> fm_state f = s"

definition settle_of :: "instant \<Rightarrow> OutboundFenceRow \<Rightarrow> SettleOutcome \<Rightarrow> OutboundDb \<Rightarrow> OutboundDb" where
  "settle_of now f outcome db = settleOutreachAction now (en_stepExecutionId (fm_envelope f)) Email outcome db"

record DispatchClaim =
  claim_fence :: OutboundFenceRow
  claim_attemptToken :: uuid

definition claim_change :: "uuid \<Rightarrow> instant \<Rightarrow> string option \<Rightarrow> OutboundFenceRow \<Rightarrow> OutboundFenceRow" where
  "claim_change token now businessDate f = f\<lparr> fm_state := Dispatching, fm_attemptToken := Some token,
     fm_dispatchStartedAt := Some now,
     fm_businessDate := (case businessDate of None \<Rightarrow> fm_businessDate f | Some d \<Rightarrow> Some d),
     fm_updatedAt := now \<rparr>"

definition claimForDispatch :: "SendEnv \<Rightarrow> instant \<Rightarrow> uuid \<Rightarrow> uuid \<Rightarrow> string option \<Rightarrow> string option \<Rightarrow>
    (string \<times> string) list \<Rightarrow> OutboundDb \<Rightarrow> OutboundDb \<times> DispatchClaim SendResult" where
  "claimForDispatch env now token k actor businessDate detail db =
     (case update_fence (in_state Prepared) (claim_change token now businessDate) k db of
        (_, None) \<Rightarrow> (db, (case readFence db k of
             None \<Rightarrow> refuseSend Fence_unknown
           | Some f \<Rightarrow> Refuse Fence_not_ready (Some (state_name (fm_state f)))))
      | (db1, Some f) \<Rightarrow>
          (appendEvent now k (Some Prepared) Dispatching (Some token) (actor_or env actor) detail
             (settle_of now f Outcome_unknown db1),
           acceptSend \<lparr> claim_fence = f, claim_attemptToken = token \<rparr>))"

definition sent_change :: "instant \<Rightarrow> instant \<Rightarrow> string \<Rightarrow> string \<Rightarrow> OutboundFenceRow \<Rightarrow> OutboundFenceRow" where
  "sent_change now sentAt pid tid f = f\<lparr> fm_state := Sent, fm_sentAt := Some sentAt,
     fm_providerMessageId := Some pid, fm_providerThreadId := Some tid, fm_updatedAt := now \<rparr>"

definition recordSent :: "SendEnv \<Rightarrow> instant \<Rightarrow> uuid \<Rightarrow> uuid \<Rightarrow> string \<Rightarrow> string \<Rightarrow> string option \<Rightarrow>
    OutboundDb \<Rightarrow> OutboundDb \<times> OutboundFenceRow SendResult" where
  "recordSent env now k token pid tid actor db =
     (case update_fence (\<lambda>f. fm_attemptToken f = Some token \<and> fm_state f = Dispatching)
             (sent_change now now pid tid) k db of
        (_, None) \<Rightarrow> (db, refuseSend Fence_not_ready)
      | (db1, Some f) \<Rightarrow>
          (appendEvent now k (Some Dispatching) Sent (Some token) (actor_or env actor)
             [(''providerMessageId'', pid)] (settle_of now f Outcome_accepted db1), acceptSend f))"

definition reconciling_change :: "instant \<Rightarrow> int \<Rightarrow> OutboundFenceRow \<Rightarrow> OutboundFenceRow" where
  "reconciling_change now windowHours f = f\<lparr> fm_state := Reconciling, fm_reconcileStartedAt := Some now,
     fm_reconcileDeadlineAt := Some (now + windowHours * 3600000), fm_updatedAt := now \<rparr>"

definition beginReconciling :: "SendEnv \<Rightarrow> instant \<Rightarrow> uuid \<Rightarrow> string \<Rightarrow> int \<Rightarrow> string option \<Rightarrow>
    OutboundDb \<Rightarrow> OutboundDb \<times> OutboundFenceRow SendResult" where
  "beginReconciling env now k why windowHours actor db =
     (case update_fence (in_state Dispatching) (reconciling_change now windowHours) k db of
        (_, None) \<Rightarrow> (db, refuseSend Fence_not_ready)
      | (db1, Some f) \<Rightarrow>
          (appendEvent now k (Some Dispatching) Reconciling None (actor_or env actor) [(''why'', why)] db1,
           acceptSend f))"

definition reconciled_change :: "instant \<Rightarrow> string \<Rightarrow> string \<Rightarrow> OutboundFenceRow \<Rightarrow> OutboundFenceRow" where
  "reconciled_change now pid tid f = f\<lparr> fm_state := Sent,
     fm_sentAt := Some (case fm_dispatchStartedAt f of None \<Rightarrow> now | Some d \<Rightarrow> d),
     fm_providerMessageId := Some pid, fm_providerThreadId := Some tid,
     fm_reconcileAttempts := fm_reconcileAttempts f + 1, fm_reconcileLastAttemptAt := Some now,
     fm_updatedAt := now \<rparr>"

definition recordReconciledSent :: "SendEnv \<Rightarrow> instant \<Rightarrow> uuid \<Rightarrow> string \<Rightarrow> string \<Rightarrow> string option \<Rightarrow>
    OutboundDb \<Rightarrow> OutboundDb \<times> OutboundFenceRow SendResult" where
  "recordReconciledSent env now k pid tid actor db =
     (case update_fence (in_state Reconciling) (reconciled_change now pid tid) k db of
        (_, None) \<Rightarrow> (db, refuseSend Fence_not_ready)
      | (db1, Some f) \<Rightarrow>
          (appendEvent now k (Some Reconciling) Sent None (actor_or env actor)
             [(''via'', ''sent_folder_search''), (''providerMessageId'', pid)]
             (settle_of now f Outcome_accepted db1), acceptSend f))"

definition miss_change :: "instant \<Rightarrow> OutboundFenceRow \<Rightarrow> OutboundFenceRow" where
  "miss_change now f = f\<lparr> fm_reconcileAttempts := fm_reconcileAttempts f + 1,
     fm_reconcileLastAttemptAt := Some now, fm_updatedAt := now \<rparr>"

definition recordReconcileMiss :: "instant \<Rightarrow> uuid \<Rightarrow> OutboundDb \<Rightarrow> OutboundDb \<times> nat" where
  "recordReconcileMiss now k db =
     (case update_fence (in_state Reconciling) (miss_change now) k db of
        (_, None) \<Rightarrow> (db, 0) | (db1, Some f) \<Rightarrow> (db1, fm_reconcileAttempts f))"

definition unknown_guard :: "instant \<Rightarrow> OutboundFenceRow \<Rightarrow> bool" where
  "unknown_guard now f \<longleftrightarrow> fm_state f = Reconciling \<and>
     (case fm_reconcileDeadlineAt f of None \<Rightarrow> False | Some d \<Rightarrow> d \<le> now)"

definition unknown_change :: "instant \<Rightarrow> OutboundFenceRow \<Rightarrow> OutboundFenceRow" where
  "unknown_change now f = f\<lparr> fm_state := Unknown_terminal, fm_unknownTerminalAt := Some now, fm_updatedAt := now \<rparr>"

definition markUnknownTerminal :: "SendEnv \<Rightarrow> instant \<Rightarrow> uuid \<Rightarrow> string option \<Rightarrow> OutboundDb \<Rightarrow>
    OutboundDb \<times> OutboundFenceRow SendResult" where
  "markUnknownTerminal env now k actor db =
     (case update_fence (unknown_guard now) (unknown_change now) k db of
        (_, None) \<Rightarrow> (db, refuseSend Fence_not_ready)
      | (db1, Some f) \<Rightarrow>
          (appendEvent now k (Some Reconciling) Unknown_terminal None (actor_or env actor) [] db1, acceptSend f))"

definition hold_change :: "instant \<Rightarrow> string \<Rightarrow> OutboundFenceRow \<Rightarrow> OutboundFenceRow" where
  "hold_change now reason f = f\<lparr> fm_state := Held, fm_heldAt := Some now, fm_heldReason := Some reason,
     fm_updatedAt := now \<rparr>"

definition holdFence :: "SendEnv \<Rightarrow> instant \<Rightarrow> uuid \<Rightarrow> string \<Rightarrow> string option \<Rightarrow> OutboundDb \<Rightarrow>
    OutboundDb \<times> OutboundFenceRow SendResult" where
  "holdFence env now k reason actor db =
     (case update_fence (in_state Prepared) (hold_change now reason) k db of
        (_, None) \<Rightarrow> (db, refuseSend Fence_not_ready)
      | (db1, Some f) \<Rightarrow>
          (appendEvent now k (Some Prepared) Held None (actor_or env actor) [(''reason'', reason)]
             (settle_of now f Outcome_not_dispatched db1), acceptSend f))"

definition release_change :: "instant \<Rightarrow> OutboundFenceRow \<Rightarrow> OutboundFenceRow" where
  "release_change now f = f\<lparr> fm_state := Prepared, fm_heldAt := None, fm_heldReason := None, fm_updatedAt := now \<rparr>"

definition releaseFence :: "SendEnv \<Rightarrow> instant \<Rightarrow> uuid \<Rightarrow> string option \<Rightarrow> OutboundDb \<Rightarrow>
    OutboundDb \<times> OutboundFenceRow SendResult" where
  "releaseFence env now k actor db =
     (case update_fence (in_state Held) (release_change now) k db of
        (_, None) \<Rightarrow> (db, refuseSend Fence_not_ready)
      | (db1, Some f) \<Rightarrow>
          (appendEvent now k (Some Held) Prepared None (actor_or env actor) [] db1, acceptSend f))"

definition rewrite_guard :: "OutboundFenceRow \<Rightarrow> bool" where
  "rewrite_guard f \<longleftrightarrow> fm_attemptToken f = None \<and> (fm_state f = Prepared \<or> fm_state f = Held)"

definition rewrite_change :: "SendEnv \<Rightarrow> instant \<Rightarrow> jstring \<Rightarrow> jstring \<Rightarrow> string option \<Rightarrow>
    OutboundFenceRow \<Rightarrow> OutboundFenceRow" where
  "rewrite_change env now subject body zone f = f\<lparr> fm_envelope := (fm_envelope f)\<lparr> en_body := body,
     en_renderedHash := renderedHash env subject body, en_subject := subject,
     en_sourceZone := (case zone of None \<Rightarrow> en_sourceZone (fm_envelope f) | Some z \<Rightarrow> z) \<rparr>,
     fm_updatedAt := now \<rparr>"

definition subject_invalid :: "jstring \<Rightarrow> bool" where
  "subject_invalid s \<longleftrightarrow> trim s = [] \<or> length s > 998 \<or> 10 \<in> set s \<or> 13 \<in> set s"

definition rewritePreparedBody :: "SendEnv \<Rightarrow> instant \<Rightarrow> uuid \<Rightarrow> jstring \<Rightarrow> jstring option \<Rightarrow> string option \<Rightarrow>
    string \<Rightarrow> string option \<Rightarrow> OutboundDb \<Rightarrow> OutboundDb \<times> OutboundFenceRow SendResult" where
  "rewritePreparedBody env now k body subject zone reason actor db =
     (if (case subject of None \<Rightarrow> False | Some s \<Rightarrow> subject_invalid s)
      then (db, Refuse Footer_not_composed (Some ''subject_invalid'')) else
      if sendBodyIssue body then (db, Refuse Footer_not_composed (Some ''body_too_long'')) else
      case readFence db k of
        None \<Rightarrow> (db, refuseSend Fence_unknown)
      | Some current \<Rightarrow>
          let subj = (case subject of None \<Rightarrow> en_subject (fm_envelope current) | Some s \<Rightarrow> s) in
          if hasOptOutLink (env_nfkc env) body \<or> hasOptOutLink (env_nfkc env) subj
          then (db, Refuse Footer_not_composed (Some ''optout_link'')) else
          (case update_fence rewrite_guard (rewrite_change env now subj body zone) k db of
             (_, None) \<Rightarrow> (db, Refuse Fence_not_ready (Some (state_name (fm_state current))))
           | (db1, Some f) \<Rightarrow>
               (appendEvent now k (Some (fm_state f)) (fm_state f) None (actor_or env actor)
                  [(''reason'', reason)] db1, acceptSend f)))"

definition resolve_guard :: "OutboundFenceRow \<Rightarrow> bool" where
  "resolve_guard f \<longleftrightarrow> fm_state f = Unknown_terminal \<and> fm_adminResolution f = None"

definition resolve_change :: "instant \<Rightarrow> AdminResolution \<Rightarrow> uuid \<Rightarrow> OutboundFenceRow \<Rightarrow> OutboundFenceRow" where
  "resolve_change now resolution admin f = f\<lparr> fm_adminResolution := Some resolution,
     fm_adminResolvedAt := Some now, fm_adminResolvedBy := Some admin, fm_updatedAt := now \<rparr>"

definition resolveUnknownTerminal :: "instant \<Rightarrow> uuid \<Rightarrow> AdminResolution \<Rightarrow> uuid \<Rightarrow> OutboundDb \<Rightarrow>
    OutboundDb \<times> OutboundFenceRow SendResult" where
  "resolveUnknownTerminal now k resolution admin db =
     (case update_fence resolve_guard (resolve_change now resolution admin) k db of
        (_, None) \<Rightarrow> (db, refuseSend Fence_not_ready)
      | (db1, Some f) \<Rightarrow>
          (appendEvent now k (Some Unknown_terminal) Unknown_terminal None (''user:'' @ admin)
             [(''resolution'', (case resolution of Delivered \<Rightarrow> ''delivered'' | Skipped \<Rightarrow> ''skipped''))] db1,
           acceptSend f))"

text \<open>The claim of recorded history: the Sent message's instant and ids, and its bytes when
  they were verified.\<close>
definition history_change :: "SendEnv \<Rightarrow> instant \<Rightarrow> uuid \<Rightarrow> instant \<Rightarrow> string \<Rightarrow> string \<Rightarrow>
    (jstring \<times> jstring) option \<Rightarrow> OutboundFenceRow \<Rightarrow> OutboundFenceRow" where
  "history_change env now token sentAt pid tid verified f = f\<lparr> fm_state := Dispatching,
     fm_attemptToken := Some token, fm_dispatchStartedAt := Some sentAt,
     fm_providerMessageId := Some pid, fm_providerThreadId := Some tid,
     fm_envelope := (case verified of None \<Rightarrow> fm_envelope f
       | Some (subject, body) \<Rightarrow> (fm_envelope f)\<lparr> en_subject := subject, en_body := body,
           en_renderedHash := renderedHash env subject body \<rparr>),
     fm_updatedAt := now \<rparr>"

text \<open>The two writes of recorded history, after the release.\<close>
definition record_history :: "SendEnv \<Rightarrow> instant \<Rightarrow> uuid \<Rightarrow> uuid \<Rightarrow> string \<Rightarrow> string \<Rightarrow> instant \<Rightarrow> string \<Rightarrow>
    (jstring \<times> jstring) option \<Rightarrow> (string \<times> string) list \<Rightarrow> OutboundDb \<Rightarrow> OutboundDb \<times> OutboundFenceRow SendResult" where
  "record_history env now token k pid tid sentAt who verified detail db0 =
     (case update_fence (in_state Prepared) (history_change env now token sentAt pid tid verified) k db0 of
        (_, None) \<Rightarrow> (db0, refuseSend Fence_not_ready)
      | (db1, Some _) \<Rightarrow>
          (let db2 = appendEvent now k (Some Prepared) Dispatching (Some token) who detail db1 in
           case update_fence (\<lambda>f. fm_attemptToken f = Some token \<and> fm_state f = Dispatching)
                  (sent_change now sentAt pid tid) k db2 of
             (_, None) \<Rightarrow> (db2, refuseSend Fence_not_ready)
           | (db3, Some f) \<Rightarrow>
               (appendEvent now k (Some Dispatching) Sent (Some token) who detail
                  (settle_of now f Outcome_accepted db3), acceptSend f)))"

text \<open>\<open>markPreDispatchFenceSent\<close> wraps it in a savepoint: no step of it throws here, so the
  transaction always commits.\<close>
definition recordPreDispatchFenceSent :: "SendEnv \<Rightarrow> instant \<Rightarrow> uuid \<Rightarrow> uuid \<Rightarrow> string \<Rightarrow> string \<Rightarrow> instant \<Rightarrow>
    string option \<Rightarrow> (jstring \<times> jstring) option \<Rightarrow> OutboundDb \<Rightarrow> OutboundDb \<times> OutboundFenceRow SendResult" where
  "recordPreDispatchFenceSent env now token k pid tid sentAt actor offered db =
     (let who = actor_or env actor;
          db0 = (case readFence db k of
             Some f \<Rightarrow> if fm_state f = Held then fst (releaseFence env now k (Some who) db) else db
           | None \<Rightarrow> db);
          refused = (case offered of None \<Rightarrow> False | Some (s, b) \<Rightarrow>
             hasOptOutLink (env_nfkc env) s \<or> hasOptOutLink (env_nfkc env) b);
          verified = (if refused then None else offered);
          detail = [(''reconciled_from'', SENT_FOLDER_PRE_DISPATCH_PROVENANCE), (''providerMessageId'', pid),
             (''sentBytes'', if verified = None then ''unverified'' else ''verified'')] @
             (if refused then [(''unverifiedReason'', ''optout_link'')] else []) in
      record_history env now token k pid tid sentAt who verified detail db0)"

section \<open>What the database enforces (db/migrations/0010_outbound.sql, 0024)\<close>

definition allowed_edge :: "OutboundState \<Rightarrow> OutboundState \<Rightarrow> bool" where
  "allowed_edge s t \<longleftrightarrow>
     (s = Prepared \<and> t \<in> {Dispatching, Held}) \<or> (s = Held \<and> t = Prepared) \<or>
     (s = Dispatching \<and> t \<in> {Reconciling, Sent}) \<or> (s = Reconciling \<and> t \<in> {Sent, Unknown_terminal})"

definition assert_outbound_transition :: "OutboundFenceRow \<Rightarrow> OutboundFenceRow \<Rightarrow> bool" where
  "assert_outbound_transition old new \<longleftrightarrow>
     (fm_state new = fm_state old \<or> allowed_edge (fm_state old) (fm_state new)) \<and>
     (fm_attemptToken old = None \<or> fm_attemptToken new = fm_attemptToken old) \<and>
     (fm_dispatchStartedAt old = None \<or> fm_dispatchStartedAt new = fm_dispatchStartedAt old) \<and>
     (fm_attemptToken old = None \<or> fm_envelope new = fm_envelope old)"

definition past_dispatch :: "OutboundState \<Rightarrow> bool" where
  "past_dispatch s \<longleftrightarrow> s \<in> {Dispatching, Reconciling, Sent, Unknown_terminal}"

text \<open>The CHECK constraints on the state columns of one row.\<close>
definition fence_row_checks :: "OutboundFenceRow \<Rightarrow> bool" where
  "fence_row_checks f \<longleftrightarrow>
     ((fm_attemptToken f = None) = (fm_dispatchStartedAt f = None)) \<and>
     (past_dispatch (fm_state f) = (fm_attemptToken f \<noteq> None)) \<and>
     ((fm_state f = Sent) = (fm_sentAt f \<noteq> None)) \<and>
     (fm_state f = Sent \<longrightarrow> fm_providerMessageId f \<noteq> None) \<and>
     ((fm_state f = Held) = (fm_heldAt f \<noteq> None)) \<and>
     ((fm_heldAt f = None) = (fm_heldReason f = None)) \<and>
     ((fm_reconcileStartedAt f = None) = (fm_reconcileDeadlineAt f = None)) \<and>
     (case (fm_reconcileStartedAt f, fm_reconcileDeadlineAt f) of (Some a, Some b) \<Rightarrow> a < b | _ \<Rightarrow> True) \<and>
     ((fm_state f = Unknown_terminal) = (fm_unknownTerminalAt f \<noteq> None)) \<and>
     (fm_adminResolution f = None \<or> fm_state f = Unknown_terminal) \<and>
     ((fm_adminResolution f = None) = (fm_adminResolvedAt f = None)) \<and>
     ((fm_adminResolution f = None) = (fm_adminResolvedBy f = None))"

text \<open>The CHECK constraints on the stored bytes.  \<open>btrim\<close> removes spaces only.\<close>
definition envelope_checks :: "(jstring \<Rightarrow> jstring) \<Rightarrow> Envelope \<Rightarrow> bool" where
  "envelope_checks nfkc e \<longleftrightarrow>
     (\<exists>c\<in>set (en_subject e). c \<noteq> 32) \<and> length (en_subject e) \<le> 160 \<and>
     (\<exists>c\<in>set (en_body e). c \<noteq> 32) \<and> length (en_body e) \<le> 4000 \<and>
     \<not> hasOptOutLink nfkc (en_body e) \<and> \<not> hasOptOutLink nfkc (en_subject e)"

section \<open>The step relation\<close>

text \<open>One call of one function of the file.\<close>
inductive fence_step :: "OutboundDb \<Rightarrow> OutboundDb \<Rightarrow> bool" where
  human_reply: "(db', r) = prepareHumanReplyFence env now fresh input db \<Longrightarrow>
     fresh \<notin> fm_id ` set (outbound_messages db) \<Longrightarrow>
     fence_step db db'"
| prepare: "prepareOutboundMessage env now fresh freshTouch request db = Inr (db', r) \<Longrightarrow>
     fresh \<notin> fm_id ` set (outbound_messages db) \<Longrightarrow>
     fence_step db db'"
| tombstone: "(db', r) = insertSentTombstone env now token i db \<Longrightarrow> fence_step db db'"
| history: "(db', r) = recordPreDispatchFenceSent env now token k pid tid sentAt actor offered db \<Longrightarrow> fence_step db db'"
| claim: "(db', r) = claimForDispatch env now token k actor businessDate detail db \<Longrightarrow> fence_step db db'"
| sent: "(db', r') = recordSent env now k token pid tid actor db \<Longrightarrow> fence_step db db'"
| reconcile: "(db', r') = beginReconciling env now k why hours actor db \<Longrightarrow> 0 < hours \<Longrightarrow> fence_step db db'"
| reconciled: "(db', r') = recordReconciledSent env now k pid tid actor db \<Longrightarrow> fence_step db db'"
| miss: "(db', n) = recordReconcileMiss now k db \<Longrightarrow> fence_step db db'"
| unknown: "(db', r') = markUnknownTerminal env now k actor db \<Longrightarrow> fence_step db db'"
| hold: "(db', r') = holdFence env now k reason actor db \<Longrightarrow> fence_step db db'"
| release: "(db', r') = releaseFence env now k actor db \<Longrightarrow> fence_step db db'"
| rewrite: "(db', r') = rewritePreparedBody env now k body subject zone reason actor db \<Longrightarrow> fence_step db db'"
| resolve: "(db', r') = resolveUnknownTerminal now k resolution admin db \<Longrightarrow> fence_step db db'"

end
