(* ===== verification/FenceInvariant.thy ===== *)
theory FenceInvariant
  imports Fence
begin

text \<open>
  The invariant of the fence table and its ledger.  Every function of \<open>Fence\<close> is a
  sequence of primitive moves: an update of one row with its ledger entry, an update
  without one, an insertion.  The contract of a move is the locale \<open>fence_move\<close>; each
  transition of the code is an interpretation of it, and of \<open>guarded_update\<close> where a
  second call must find nothing.
\<close>

section \<open>The contract of a move\<close>

definition keys_kept :: "OutboundFenceRow \<Rightarrow> OutboundFenceRow \<Rightarrow> bool" where
  "keys_kept f g \<longleftrightarrow> fm_id g = fm_id f \<and>
     en_stepExecutionId (fm_envelope g) = en_stepExecutionId (fm_envelope f) \<and>
     en_draftId (fm_envelope g) = en_draftId (fm_envelope f) \<and>
     en_mailboxId (fm_envelope g) = en_mailboxId (fm_envelope f) \<and>
     en_providerMessageIdHeader (fm_envelope g) = en_providerMessageIdHeader (fm_envelope f)"

locale fence_move =
  fixes guard :: "OutboundFenceRow \<Rightarrow> bool" and change :: "OutboundFenceRow \<Rightarrow> OutboundFenceRow"
  assumes keeps_keys: "keys_kept f (change f)"
    and legal: "guard f \<Longrightarrow> fence_row_checks f \<Longrightarrow>
      assert_outbound_transition f (change f) \<and> fence_row_checks (change f)"
begin

lemma cas_row:
  "cas fm_id guard change k rs = (rows, h) \<Longrightarrow> rows = sql_update (\<lambda>f. fm_id f = k \<and> guard f) change rs"
  by (simp add: cas_def Let_def)

lemma hit: "cas fm_id guard change k rs = (rows, Some f) \<Longrightarrow>
  \<exists>g. g \<in> set rs \<and> fm_id g = k \<and> guard g \<and> f = change g"
  by (auto simp: cas_def Let_def dest: sql_one_Some)

lemma rows_checked:
  "cas fm_id guard change k rs = (rows, h) \<Longrightarrow> \<forall>f\<in>set rs. fence_row_checks f \<Longrightarrow>
   \<forall>f\<in>set rows. fence_row_checks f"
  using legal by (auto simp: set_sql_update dest!: cas_row)

lemma keys_map:
  "cas fm_id guard change k rs = (rows, h) \<Longrightarrow> (\<And>f g. keys_kept f g \<Longrightarrow> p g = p f) \<Longrightarrow> map p rows = map p rs"
  using keeps_keys by (auto simp: sql_update_def dest!: cas_row)

lemma each_row:
  assumes "cas fm_id guard change k rs = (rows, h)" "\<forall>f\<in>set rs. fence_row_checks f" "f \<in> set rs"
  shows "\<exists>f'\<in>set rows. keys_kept f f' \<and> (f' = f \<or> fm_id f = k \<and> guard f \<and> f' = change f \<and> assert_outbound_transition f f')"
proof (cases "fm_id f = k \<and> guard f")
  case True
  then have "change f \<in> set rows" "assert_outbound_transition f (change f)"
    using assms(2,3) legal cas_row [OF assms(1)] by (auto simp: set_sql_update)
  then show ?thesis using True keeps_keys by blast
next
  case False
  then have "f \<in> set rows" using assms(3) cas_row [OF assms(1)] by (auto simp: set_sql_update)
  then show ?thesis by (intro bexI [of _ f]) (simp_all add: keys_kept_def)
qed

end

named_theorems fence_changes "the changes of the transitions"

lemmas [fence_changes] = claim_change_def sent_change_def reconciling_change_def reconciled_change_def
  miss_change_def unknown_guard_def unknown_change_def hold_change_def release_change_def rewrite_guard_def
  rewrite_change_def resolve_guard_def resolve_change_def history_change_def

lemmas fence_contract = keys_kept_def assert_outbound_transition_def allowed_edge_def
  fence_row_checks_def past_dispatch_def

interpretation claim_move: fence_move "in_state Prepared" "claim_change token now bd" for token now bd
  by unfold_locales (auto simp: fence_changes fence_contract split: option.splits)

interpretation sent_move: fence_move "\<lambda>f. fm_attemptToken f = Some token \<and> fm_state f = Dispatching"
    "sent_change now sentAt pid tid" for token now sentAt pid tid
  by unfold_locales (auto simp: fence_changes fence_contract split: option.splits)

interpretation reconciled_move: fence_move "in_state Reconciling" "reconciled_change now pid tid" for now pid tid
  by unfold_locales (auto simp: fence_changes fence_contract split: option.splits)

interpretation miss_move: fence_move "in_state Reconciling" "miss_change now" for now
  by unfold_locales (auto simp: fence_changes fence_contract split: option.splits)

interpretation unknown_move: fence_move "unknown_guard now" "unknown_change now" for now
  by unfold_locales (auto simp: fence_changes fence_contract split: option.splits)

interpretation hold_move: fence_move "in_state Prepared" "hold_change now reason" for now reason
  by unfold_locales (auto simp: fence_changes fence_contract split: option.splits)

interpretation release_move: fence_move "in_state Held" "release_change now" for now
  by unfold_locales (auto simp: fence_changes fence_contract split: option.splits)

interpretation rewrite_move: fence_move rewrite_guard "rewrite_change env now subject body zone"
    for env now subject body zone
  by unfold_locales (auto simp: fence_changes fence_contract split: option.splits)

interpretation resolve_move: fence_move resolve_guard "resolve_change now resolution admin" for now resolution admin
  by unfold_locales (auto simp: fence_changes fence_contract split: option.splits)

interpretation history_move: fence_move "in_state Prepared" "history_change env now token sentAt pid tid verified"
    for env now token sentAt pid tid verified
  by unfold_locales (auto simp: fence_changes fence_contract split: option.splits)

lemma reconciling_move: "0 < hours \<Longrightarrow> fence_move (in_state Dispatching) (reconciling_change now hours)"
  by unfold_locales (auto simp: fence_changes fence_contract split: option.splits)

section \<open>Only one of two callers finds the row\<close>

interpretation claim_once: guarded_update fm_id "in_state Prepared" "claim_change token now bd" for token now bd
  by unfold_locales (simp_all add: fence_changes)

interpretation sent_once: guarded_update fm_id "\<lambda>f. fm_attemptToken f = Some token \<and> fm_state f = Dispatching"
    "sent_change now sentAt pid tid" for token now sentAt pid tid
  by unfold_locales (simp_all add: fence_changes)

interpretation reconciling_once: guarded_update fm_id "in_state Dispatching" "reconciling_change now hours" for now hours
  by unfold_locales (simp_all add: fence_changes)

interpretation reconciled_once: guarded_update fm_id "in_state Reconciling" "reconciled_change now pid tid" for now pid tid
  by unfold_locales (simp_all add: fence_changes)

interpretation unknown_once: guarded_update fm_id "unknown_guard now" "unknown_change now" for now
  by unfold_locales (simp_all add: fence_changes)

interpretation hold_once: guarded_update fm_id "in_state Prepared" "hold_change now reason" for now reason
  by unfold_locales (simp_all add: fence_changes)

interpretation resolve_once: guarded_update fm_id resolve_guard "resolve_change now resolution admin" for now resolution admin
  by unfold_locales (simp_all add: fence_changes)


section \<open>Primitive moves\<close>

definition loop_allowed :: "OutboundState \<Rightarrow> bool" where
  "loop_allowed s \<longleftrightarrow> s \<in> {Prepared, Held, Unknown_terminal}"

definition next_sequence :: "OutboundDb \<Rightarrow> uuid \<Rightarrow> nat" where
  "next_sequence db k = foldl max 0 (map ev_sequenceNumber (events_of db k)) + 1"

inductive prim_step :: "OutboundDb \<Rightarrow> OutboundDb \<Rightarrow> bool" where
  same: "outbound_messages db' = outbound_messages db \<Longrightarrow>
     outbound_message_events db' = outbound_message_events db \<Longrightarrow> prim_step db db'"
| move: "fence_move guard change \<Longrightarrow>
     cas fm_id guard change k (outbound_messages db) = (rows, Some f) \<Longrightarrow>
     outbound_messages db' = rows \<Longrightarrow> outbound_message_events db' = outbound_message_events db @ [e] \<Longrightarrow>
     ev_fence e = k \<Longrightarrow> ev_sequenceNumber e = next_sequence db k \<Longrightarrow>
     (\<And>g. guard g \<Longrightarrow> f = change g \<Longrightarrow> ev_fromState e = Some (fm_state g)) \<Longrightarrow> ev_toState e = fm_state f \<Longrightarrow>
     (\<And>g. guard g \<Longrightarrow> f = change g \<Longrightarrow>
        allowed_edge (fm_state g) (fm_state f) \<or> fm_state g = fm_state f \<and> loop_allowed (fm_state f)) \<Longrightarrow>
     (fm_state f = Dispatching \<Longrightarrow> ev_attemptToken e = fm_attemptToken f) \<Longrightarrow> prim_step db db'"
| quiet: "fence_move guard change \<Longrightarrow>
     cas fm_id guard change k (outbound_messages db) = (rows, Some f) \<Longrightarrow>
     (\<And>g. fm_state (change g) = fm_state g \<and> fm_attemptToken (change g) = fm_attemptToken g) \<Longrightarrow>
     outbound_messages db' = rows \<Longrightarrow> outbound_message_events db' = outbound_message_events db \<Longrightarrow>
     prim_step db db'"
| insert: "fm_id f \<notin> fm_id ` set (outbound_messages db) \<Longrightarrow>
     (\<And>g x. g \<in> set (outbound_messages db) \<Longrightarrow> en_stepExecutionId (fm_envelope f) = Some x \<Longrightarrow>
        en_stepExecutionId (fm_envelope g) \<noteq> Some x) \<Longrightarrow>
     (\<And>g x. g \<in> set (outbound_messages db) \<Longrightarrow> en_draftId (fm_envelope f) = Some x \<Longrightarrow>
        en_draftId (fm_envelope g) \<noteq> Some x) \<Longrightarrow>
     fence_row_checks f \<Longrightarrow> fm_state f = Prepared \<or> fm_state f = Sent \<Longrightarrow>
     outbound_messages db' = outbound_messages db @ [f] \<Longrightarrow>
     outbound_message_events db' = outbound_message_events db @ [e] \<Longrightarrow>
     ev_fence e = fm_id f \<Longrightarrow> ev_sequenceNumber e = next_sequence db (fm_id f) \<Longrightarrow>
     ev_fromState e = None \<Longrightarrow> ev_toState e = fm_state f \<Longrightarrow> prim_step db db'"

inductive_cases prim_stepE: "prim_step db db'"

lemma settle_frame [simp]:
  "outbound_messages (settle_of now f outcome db) = outbound_messages db"
  "outbound_message_events (settle_of now f outcome db) = outbound_message_events db"
  by (simp_all add: settle_of_def settleOutreachAction_def settleProspectingTouch_def split: option.split)

lemma bind_frame [simp]:
  "outbound_messages (bindProspectingFence k m s db) = outbound_messages db"
  "outbound_message_events (bindProspectingFence k m s db) = outbound_message_events db"
  by (simp_all add: bindProspectingFence_def split: option.split)

lemma reserve_frame:
  "reserveOutreachEmail tz actor now fresh x at db = Inr (db', r) \<Longrightarrow>
   outbound_messages db' = outbound_messages db \<and> outbound_message_events db' = outbound_message_events db"
  by (drule reserve_only_touches, unfold only_touches_def, erule ssubst) simp

section \<open>The invariant\<close>

text \<open>A ledger read from its first entry: each entry starts where the last one ended and
  follows an edge of the state machine, or records a rewrite or a resolution in place.\<close>
fun chain_ok :: "OutboundState option \<Rightarrow> FenceEvent list \<Rightarrow> bool" where
  "chain_ok prev [] \<longleftrightarrow> True"
| "chain_ok prev (e # es) \<longleftrightarrow> ev_fromState e = prev \<and>
     (case prev of
        None \<Rightarrow> ev_toState e = Prepared \<or> ev_toState e = Sent
      | Some s \<Rightarrow> allowed_edge s (ev_toState e) \<or> s = ev_toState e \<and> loop_allowed s) \<and>
     chain_ok (Some (ev_toState e)) es"

definition ledger_ok :: "OutboundFenceRow \<Rightarrow> FenceEvent list \<Rightarrow> bool" where
  "ledger_ok f es \<longleftrightarrow> es \<noteq> [] \<and> map ev_sequenceNumber es = [1..<Suc (length es)] \<and> chain_ok None es \<and>
     ev_toState (last es) = fm_state f \<and>
     (\<forall>e\<in>set es. ev_toState e = Dispatching \<longrightarrow> ev_attemptToken e = fm_attemptToken f)"

definition fence_inv :: "OutboundDb \<Rightarrow> bool" where
  "fence_inv db \<longleftrightarrow>
     distinct (map fm_id (outbound_messages db)) \<and>
     distinct (List.map_filter (en_stepExecutionId \<circ> fm_envelope) (outbound_messages db)) \<and>
     distinct (List.map_filter (en_draftId \<circ> fm_envelope) (outbound_messages db)) \<and>
     (\<forall>f\<in>set (outbound_messages db). fence_row_checks f \<and> ledger_ok f (events_of db (fm_id f))) \<and>
     (\<forall>e\<in>set (outbound_message_events db). ev_fence e \<in> fm_id ` set (outbound_messages db))"

lemma chain_snoc:
  "es \<noteq> [] \<Longrightarrow> chain_ok prev (es @ [e]) \<longleftrightarrow> chain_ok prev es \<and> ev_fromState e = Some (ev_toState (last es)) \<and>
     (allowed_edge (ev_toState (last es)) (ev_toState e) \<or>
      ev_toState (last es) = ev_toState e \<and> loop_allowed (ev_toState (last es)))"
  by (induction prev es rule: chain_ok.induct) (auto split: option.splits)

lemma chain_past: "chain_ok (Some s) es \<Longrightarrow> past_dispatch s \<Longrightarrow> \<forall>e\<in>set es. ev_toState e \<noteq> Dispatching"
proof (induction es arbitrary: s)
  case (Cons e es)
  then have "past_dispatch (ev_toState e) \<and> ev_toState e \<noteq> Dispatching"
    by (auto simp: past_dispatch_def allowed_edge_def loop_allowed_def)
  then show ?case using Cons by auto
qed simp

lemma chain_dispatch_once: "chain_ok prev es \<Longrightarrow> length (filter (\<lambda>e. ev_toState e = Dispatching) es) \<le> 1"
proof (induction es arbitrary: prev)
  case (Cons e es)
  show ?case
  proof (cases "ev_toState e = Dispatching")
    case True
    then have "\<forall>x\<in>set es. ev_toState x \<noteq> Dispatching"
      using Cons.prems chain_past [of "ev_toState e" es] by (simp add: past_dispatch_def)
    then have "filter (\<lambda>e. ev_toState e = Dispatching) es = []" by (simp add: filter_empty_conv)
    then show ?thesis using True by simp
  next
    case False
    then show ?thesis using Cons by auto
  qed
qed simp

lemma foldl_max_upt: "foldl max 0 [1..<Suc n] = (n::nat)"
  by (induction n) (simp_all add: max_def)

lemma next_sequence_ledger: "ledger_ok f (events_of db k) \<Longrightarrow> next_sequence db k = length (events_of db k) + 1"
  unfolding next_sequence_def ledger_ok_def by (metis foldl_max_upt)

lemma events_of_append:
  "outbound_message_events db' = outbound_message_events db @ [e] \<Longrightarrow>
   events_of db' k = (if ev_fence e = k then events_of db k @ [e] else events_of db k)"
  by (simp add: events_of_def)

lemma events_of_cong:
  "outbound_message_events db' = outbound_message_events db \<Longrightarrow> events_of db' k = events_of db k"
  by (simp add: events_of_def)

lemma map_filter_cong_list:
  "map p xs = map p ys \<Longrightarrow> List.map_filter p xs = List.map_filter p ys"
proof (induction xs arbitrary: ys)
  case (Cons x xs)
  then show ?case by (cases ys) (auto simp: List.map_filter_def split: option.splits)
qed (simp add: List.map_filter_def)

lemma set_map_filter: "set (List.map_filter p xs) = {y. \<exists>x\<in>set xs. p x = Some y}"
  by (force simp: List.map_filter_def)

lemma move_ids:
  assumes "fence_move guard change" "cas fm_id guard change k rs = (rows, h)"
  shows "map fm_id rows = map fm_id rs"
    "List.map_filter (en_stepExecutionId \<circ> fm_envelope) rows = List.map_filter (en_stepExecutionId \<circ> fm_envelope) rs"
    "List.map_filter (en_draftId \<circ> fm_envelope) rows = List.map_filter (en_draftId \<circ> fm_envelope) rs"
  by (rule fence_move.keys_map [OF assms], simp add: keys_kept_def)
    (rule map_filter_cong_list, rule fence_move.keys_map [OF assms], simp add: keys_kept_def)+

lemma chain_pre:
  "chain_ok prev es \<Longrightarrow> es \<noteq> [] \<Longrightarrow> \<not> past_dispatch (ev_toState (last es)) \<Longrightarrow>
   \<forall>e\<in>set es. ev_toState e \<noteq> Dispatching"
proof (induction es rule: rev_induct)
  case (snoc e es)
  show ?case
  proof (cases "es = []")
    case False
    then have c: "chain_ok prev es" "ev_fromState e = Some (ev_toState (last es))"
      "allowed_edge (ev_toState (last es)) (ev_toState e) \<or>
       ev_toState (last es) = ev_toState e \<and> loop_allowed (ev_toState (last es))"
      using snoc.prems(1) by (simp_all add: chain_snoc)
    have "\<not> past_dispatch (ev_toState (last es))"
      using c(3) snoc.prems(3) by (auto simp: past_dispatch_def allowed_edge_def)
    then show ?thesis using snoc.IH [OF c(1) False] snoc.prems(3) by (auto simp: past_dispatch_def)
  qed (use snoc.prems(3) in \<open>auto simp: past_dispatch_def\<close>)
qed simp

lemma token_stable:
  assumes "assert_outbound_transition f g" "fence_row_checks f" "ledger_ok f es"
  shows "\<forall>e\<in>set es. ev_toState e = Dispatching \<longrightarrow> ev_attemptToken e = fm_attemptToken g"
proof (cases "fm_attemptToken f = None")
  case True
  then have "\<not> past_dispatch (ev_toState (last es))" using assms(2,3) by (simp add: fence_row_checks_def ledger_ok_def)
  then show ?thesis using chain_pre [of None es] assms(3) by (auto simp: ledger_ok_def)
next
  case False
  then show ?thesis using assms by (auto simp: assert_outbound_transition_def ledger_ok_def)
qed

lemma ledger_extend:
  assumes "ledger_ok f es" "fence_row_checks f" "assert_outbound_transition f g"
    and "ev_sequenceNumber e = length es + 1" "ev_fromState e = Some (fm_state f)" "ev_toState e = fm_state g"
    and "allowed_edge (fm_state f) (fm_state g) \<or> fm_state f = fm_state g \<and> loop_allowed (fm_state g)"
    and "fm_state g = Dispatching \<longrightarrow> ev_attemptToken e = fm_attemptToken g"
  shows "ledger_ok g (es @ [e])"
proof -
  have es: "es \<noteq> []" "map ev_sequenceNumber es = [1..<Suc (length es)]" "chain_ok None es"
    "ev_toState (last es) = fm_state f" using assms(1) by (simp_all add: ledger_ok_def)
  have "chain_ok None (es @ [e])" unfolding chain_snoc [OF es(1)] using es assms(5,6,7) by auto
  moreover have "map ev_sequenceNumber (es @ [e]) = [1..<Suc (length (es @ [e]))]"
    using es(2) assms(4) by simp
  ultimately show ?thesis using token_stable [OF assms(3,2,1)] assms(6,8) unfolding ledger_ok_def by auto
qed

lemma ledger_same: "ledger_ok f es \<Longrightarrow> fm_state g = fm_state f \<Longrightarrow> fm_attemptToken g = fm_attemptToken f \<Longrightarrow> ledger_ok g es"
  by (simp add: ledger_ok_def)

lemma fence_invD:
  assumes "fence_inv db"
  shows "distinct (map fm_id (outbound_messages db))"
    "\<forall>f\<in>set (outbound_messages db). fence_row_checks f"
    "\<And>f. f \<in> set (outbound_messages db) \<Longrightarrow> ledger_ok f (events_of db (fm_id f))"
  using assms by (auto simp: fence_inv_def)

lemma map_filter_append: "List.map_filter p (xs @ [x]) = List.map_filter p xs @ (case p x of None \<Rightarrow> [] | Some y \<Rightarrow> [y])"
  by (simp add: List.map_filter_def split: option.split)

lemma prim_step_inv: "prim_step db db' \<Longrightarrow> fence_inv db \<Longrightarrow> fence_inv db'"
proof (induction rule: prim_step.induct)
  case (same db' db)
  then show ?case by (simp add: fence_inv_def events_of_cong [OF same(2)])
next
  case (move guard change k db rows f db' e)
  note fm = move(1) and hit = move(2) and inv = move.prems
  obtain g where g: "g \<in> set (outbound_messages db)" "fm_id g = k" "guard g" "f = change g"
    using fence_move.hit [OF fm hit] by blast
  have checks: "\<forall>f\<in>set (outbound_messages db). fence_row_checks f" by (rule fence_invD(2) [OF inv])
  have seq: "ev_sequenceNumber e = length (events_of db k) + 1"
    using next_sequence_ledger fence_invD(3) [OF inv g(1)] move(6) g(2) by simp
  have ev: "events_of db' i = (if i = k then events_of db k @ [e] else events_of db i)" for i
    using events_of_append [OF move(4)] move(5) by auto
  have rows: "rows = sql_update (\<lambda>f. fm_id f = k \<and> guard f) change (outbound_messages db)"
    by (rule fence_move.cas_row [OF fm hit])
  have tr: "assert_outbound_transition g f"
    using fence_move.legal [OF fm g(3)] checks g(1,4) by blast
  have one: "x = g" if "x \<in> set (outbound_messages db)" "fm_id x = k" for x
    using that g fence_invD(1) [OF inv] by (metis distinct_map inj_onD)
  have "fence_row_checks x \<and> ledger_ok x (events_of db' (fm_id x))" if x: "x \<in> set rows" for x
  proof -
    obtain y where y: "y \<in> set (outbound_messages db)" "x = (if fm_id y = k \<and> guard y then change y else y)"
      using x unfolding rows set_sql_update by (elim imageE)
    have chk: "fence_row_checks x" using fence_move.rows_checked [OF fm hit checks] x by blast
    show ?thesis
    proof (cases "fm_id y = k")
      case True
      then have "y = g" using one y(1) by blast
      then have xf: "x = f" "fm_id x = k" using y g fence_move.keeps_keys [OF fm, of g] by (auto simp: keys_kept_def)
      have "ledger_ok f (events_of db k @ [e])"
        by (rule ledger_extend [of g])
          (use fence_invD(3) [OF inv g(1)] g checks tr seq move(7) [OF g(3,4)] move(8) move(9) [OF g(3,4)] move(10) in auto)
      then show ?thesis using chk xf ev by simp
    next
      case False
      then have "x = y" using y by simp
      then show ?thesis using chk ev fence_invD(3) [OF inv y(1)] False by simp
    qed
  qed
  moreover have "k \<in> fm_id ` set (outbound_messages db)" using g by blast
  moreover have "fm_id ` set rows = fm_id ` set (outbound_messages db)"
    using move_ids(1) [OF fm hit] by (metis set_map)
  ultimately show ?case using inv move(3,4,5) move_ids [OF fm hit]
    unfolding fence_inv_def by auto
next
  case (quiet guard change k db rows f db')
  note fm = quiet(1) and hit = quiet(2) and inv = quiet.prems
  have rows: "rows = sql_update (\<lambda>f. fm_id f = k \<and> guard f) change (outbound_messages db)"
    by (rule fence_move.cas_row [OF fm hit])
  have ev: "events_of db' i = events_of db i" for i by (rule events_of_cong [OF quiet(5)])
  have "fence_row_checks x \<and> ledger_ok x (events_of db' (fm_id x))" if x: "x \<in> set rows" for x
  proof -
    obtain y where y: "y \<in> set (outbound_messages db)" "x = (if fm_id y = k \<and> guard y then change y else y)"
      using x unfolding rows set_sql_update by (elim imageE)
    have "fm_id x = fm_id y" using y(2) fence_move.keeps_keys [OF fm, of y] by (simp add: keys_kept_def)
    then have "ledger_ok x (events_of db' (fm_id x))"
      using fence_invD(3) [OF inv y(1)] y(2) quiet(3) [of y] by (auto simp: ev intro: ledger_same)
    then show ?thesis using fence_move.rows_checked [OF fm hit fence_invD(2) [OF inv]] x by blast
  qed
  moreover have "fm_id ` set rows = fm_id ` set (outbound_messages db)"
    using move_ids(1) [OF fm hit] by (metis set_map)
  ultimately show ?case using inv quiet(4,5) move_ids [OF fm hit] unfolding fence_inv_def by auto
next
  case (insert f db db' e)
  note inv = insert.prems
  have none: "events_of db (fm_id f) = []"
    using inv insert(1) unfolding events_of_def filter_empty_conv fence_inv_def by metis
  have ev: "events_of db' i = (if i = fm_id f then [e] else events_of db i)" for i
    using events_of_append [OF insert(7)] insert(8) none by auto
  have "ledger_ok f [e]"
    using insert(5,9,10,11) none by (auto simp: ledger_ok_def next_sequence_def)
  moreover have "fence_row_checks x \<and> ledger_ok x (events_of db' (fm_id x))" if "x \<in> set (outbound_messages db)" for x
  proof -
    have "fm_id x \<noteq> fm_id f" using that insert(1) by (metis imageI)
    then show ?thesis using that inv by (simp add: fence_inv_def ev)
  qed
  ultimately show ?case using inv insert ev
    unfolding fence_inv_def insert(6) insert(7)
    by (auto simp: map_filter_append set_map_filter split: option.split)
qed


section \<open>The functions as moves\<close>

lemma prim_history_refl [intro]: "outbound_messages db' = outbound_messages db \<Longrightarrow>
    outbound_message_events db' = outbound_message_events db \<Longrightarrow> prim_step\<^sup>*\<^sup>* db db'"
  by (rule r_into_rtranclp) (rule prim_step.same)

lemma append_frame [simp]:
  "outbound_messages (appendEvent now k s t token actor detail db) = outbound_messages db"
  "outbound_message_events (appendEvent now k s t token actor detail db) = outbound_message_events db @
     [\<lparr> ev_fence = k, ev_sequenceNumber = next_sequence db k, ev_fromState = s, ev_toState = t, ev_attemptToken = token,
        ev_actor = actor, ev_detail = detail, ev_occurredAt = now \<rparr>]"
  by (simp_all add: appendEvent_def next_sequence_def)

lemma next_sequence_frame: "outbound_message_events db' = outbound_message_events db \<Longrightarrow> next_sequence db' k = next_sequence db k"
  by (simp add: next_sequence_def events_of_def)

lemma update_fence_cas: "update_fence guard change k db = (db1, h) \<Longrightarrow>
   cas fm_id guard change k (outbound_messages db) = (outbound_messages db1, h) \<and>
   outbound_message_events db1 = outbound_message_events db"
  by (auto simp: update_fence_def split: prod.splits)

text \<open>An update with its ledger entry; \<open>settled\<close> leaves both tables alone.\<close>
lemma logged_move:
  assumes "fence_move guard change" "update_fence guard change k db = (db1, Some f)"
    and "outbound_messages settled = outbound_messages db1" "outbound_message_events settled = outbound_message_events db1"
    and "\<And>g. guard g \<Longrightarrow> f = change g \<Longrightarrow> fm_state g = s" "fm_state f = t"
    and "allowed_edge s t \<or> s = t \<and> loop_allowed t" "t = Dispatching \<Longrightarrow> token = fm_attemptToken f"
  shows "prim_step db (appendEvent now k (Some s) t token actor detail settled)"
proof (rule prim_step.move [OF assms(1), of k db "outbound_messages db1" f])
  show "cas fm_id guard change k (outbound_messages db) = (outbound_messages db1, Some f)"
    using update_fence_cas [OF assms(2)] by simp
  show "outbound_messages (appendEvent now k (Some s) t token actor detail settled) = outbound_messages db1"
    by (simp add: assms(3))
  show "outbound_message_events (appendEvent now k (Some s) t token actor detail settled) =
    outbound_message_events db @ [\<lparr> ev_fence = k, ev_sequenceNumber = next_sequence db k, ev_fromState = Some s,
      ev_toState = t, ev_attemptToken = token, ev_actor = actor, ev_detail = detail, ev_occurredAt = now \<rparr>]"
    using update_fence_cas [OF assms(2)] next_sequence_frame [of settled db k] by (simp add: assms(4))
qed (use assms(5,6,7,8) in simp_all)

lemma move_result:
  assumes "fence_move guard change" "update_fence guard change k db = (db1, Some f)"
  shows "\<exists>g\<in>set (outbound_messages db). fm_id g = k \<and> guard g \<and> f = change g"
  using fence_move.hit [OF assms(1)] update_fence_cas [OF assms(2)] by blast


lemma logged_case:
  assumes "fence_move guard change" "update_fence guard change k db = (db1, Some f)"
    and "\<And>g. guard g \<Longrightarrow> fm_state g = s" "\<And>g. guard g \<Longrightarrow> fm_state (change g) = t"
    and "allowed_edge s t \<or> s = t \<and> loop_allowed t" "\<And>g. t = Dispatching \<Longrightarrow> fm_attemptToken (change g) = token"
    and "outbound_messages settled = outbound_messages db1" "outbound_message_events settled = outbound_message_events db1"
  shows "prim_step\<^sup>*\<^sup>* db (appendEvent now k (Some s) t token actor detail settled)"
  using move_result [OF assms(1,2)] assms
  by (intro r_into_rtranclp logged_move [OF assms(1,2)]) auto

lemma claim_prim: "prim_step\<^sup>*\<^sup>* db (fst (claimForDispatch env now token k actor businessDate detail db))"
  by (auto simp: claimForDispatch_def fence_changes allowed_edge_def
      intro!: logged_case [OF claim_move.fence_move_axioms] split: prod.splits option.splits)

lemma sent_prim: "prim_step\<^sup>*\<^sup>* db (fst (recordSent env now k token pid tid actor db))"
  by (auto simp: recordSent_def fence_changes allowed_edge_def
      intro!: logged_case [OF sent_move.fence_move_axioms] split: prod.splits option.splits)

lemma reconciling_prim: "0 < hours \<Longrightarrow> prim_step\<^sup>*\<^sup>* db (fst (beginReconciling env now k why hours actor db))"
  by (auto simp: beginReconciling_def fence_changes allowed_edge_def
      intro!: logged_case [OF reconciling_move] split: prod.splits option.splits)


lemma reconciled_prim: "prim_step\<^sup>*\<^sup>* db (fst (recordReconciledSent env now k pid tid actor db))"
  by (auto simp: recordReconciledSent_def fence_changes allowed_edge_def
      intro!: logged_case [OF reconciled_move.fence_move_axioms] split: prod.splits option.splits)

lemma unknown_prim: "prim_step\<^sup>*\<^sup>* db (fst (markUnknownTerminal env now k actor db))"
  by (auto simp: markUnknownTerminal_def fence_changes allowed_edge_def
      intro!: logged_case [OF unknown_move.fence_move_axioms] split: prod.splits option.splits)

lemma hold_prim: "prim_step\<^sup>*\<^sup>* db (fst (holdFence env now k reason actor db))"
  by (auto simp: holdFence_def fence_changes allowed_edge_def
      intro!: logged_case [OF hold_move.fence_move_axioms] split: prod.splits option.splits)

lemma release_prim: "prim_step\<^sup>*\<^sup>* db (fst (releaseFence env now k actor db))"
  by (auto simp: releaseFence_def fence_changes allowed_edge_def
      intro!: logged_case [OF release_move.fence_move_axioms] split: prod.splits option.splits)

lemma resolve_prim: "prim_step\<^sup>*\<^sup>* db (fst (resolveUnknownTerminal now k resolution admin db))"
  by (auto simp: resolveUnknownTerminal_def fence_changes allowed_edge_def loop_allowed_def
      intro!: logged_case [OF resolve_move.fence_move_axioms] split: prod.splits option.splits)

lemma miss_prim: "prim_step\<^sup>*\<^sup>* db (fst (recordReconcileMiss now k db))"
proof -
  obtain db1 h where u: "update_fence (in_state Reconciling) (miss_change now) k db = (db1, h)" by fastforce
  have "prim_step db db1" if "h = Some f" for f
    by (rule prim_step.quiet [OF miss_move.fence_move_axioms])
      (use update_fence_cas [OF u] that in \<open>auto simp: miss_change_def\<close>)
  then show ?thesis by (cases h) (auto simp: recordReconcileMiss_def u)
qed

lemma rewrite_move_logged:
  assumes "update_fence rewrite_guard (rewrite_change env now subject body zone) k db = (db1, Some f)"
  shows "prim_step\<^sup>*\<^sup>* db (appendEvent now k (Some (fm_state f)) (fm_state f) token actor detail db1)"
  using move_result [OF rewrite_move.fence_move_axioms assms]
  by (intro r_into_rtranclp logged_move [OF rewrite_move.fence_move_axioms assms])
    (auto simp: rewrite_guard_def rewrite_change_def loop_allowed_def)

lemma rewrite_prim: "prim_step\<^sup>*\<^sup>* db (fst (rewritePreparedBody env now k body subject zone reason actor db))"
  by (auto simp: rewritePreparedBody_def Let_def intro!: rewrite_move_logged split: prod.splits option.splits)

lemma history_claim:
  assumes "update_fence (in_state Prepared) (history_change env now token sentAt pid tid v) k db0 = (db1, Some f)"
  shows "prim_step\<^sup>*\<^sup>* db0 (appendEvent now k (Some Prepared) Dispatching (Some token) who detail db1)"
  by (rule logged_case [OF history_move.fence_move_axioms assms]) (simp_all add: history_change_def allowed_edge_def)

lemma history_sent:
  assumes "update_fence (\<lambda>f. fm_attemptToken f = Some token \<and> fm_state f = Dispatching)
           (sent_change now sentAt pid tid) k db2 = (db3, Some f)"
  shows "prim_step\<^sup>*\<^sup>* db2 (appendEvent now k (Some Dispatching) Sent (Some token) who detail
           (settle_of now f Outcome_accepted db3))"
  by (rule logged_case [OF sent_move.fence_move_axioms assms]) (simp_all add: sent_change_def allowed_edge_def)

lemma record_history_prim: "prim_step\<^sup>*\<^sup>* db0 (fst (record_history env now token k pid tid sentAt who verified detail db0))"
proof -
  obtain db1 h where u: "update_fence (in_state Prepared) (history_change env now token sentAt pid tid verified) k db0 = (db1, h)"
    by fastforce
  show ?thesis
  proof (cases h)
    case (Some f)
    define db2 where "db2 = appendEvent now k (Some Prepared) Dispatching (Some token) who detail db1"
    obtain db3 h' where w: "update_fence (\<lambda>f. fm_attemptToken f = Some token \<and> fm_state f = Dispatching)
           (sent_change now sentAt pid tid) k db2 = (db3, h')" by fastforce
    have "prim_step\<^sup>*\<^sup>* db0 db2" unfolding db2_def by (rule history_claim) (use u Some in simp)
    moreover have "prim_step\<^sup>*\<^sup>* db2 (fst (record_history env now token k pid tid sentAt who verified detail db0))"
      using history_sent [of token now sentAt pid tid k db2 db3] w
      by (cases h') (simp_all add: record_history_def u Some db2_def [symmetric] Let_def)
    ultimately show ?thesis by (rule rtranclp_trans)
  qed (simp add: record_history_def u)
qed


lemma history_prim: "prim_step\<^sup>*\<^sup>* db (fst (recordPreDispatchFenceSent env now token k pid tid sentAt actor offered db))"
  unfolding recordPreDispatchFenceSent_def Let_def
  by (rule rtranclp_trans [OF _ record_history_prim]) (simp add: release_prim split: option.split)


lemma prepared_row_checks [simp]: "fence_row_checks (prepared_row k env rule date now)"
  by (simp add: prepared_row_def fence_row_checks_def past_dispatch_def)

lemma logged_insert:
  assumes "fm_id f \<notin> fm_id ` set (outbound_messages db)" "fence_row_checks f" "fm_state f = Prepared \<or> fm_state f = Sent"
    and "en_stepExecutionId (fm_envelope f) = None \<or>
      (\<forall>g\<in>set (outbound_messages db). en_stepExecutionId (fm_envelope g) \<noteq> en_stepExecutionId (fm_envelope f))"
    and "en_draftId (fm_envelope f) = None \<or>
      (\<forall>g\<in>set (outbound_messages db). en_draftId (fm_envelope g) \<noteq> en_draftId (fm_envelope f))"
    and "outbound_messages db1 = outbound_messages db @ [f]" "outbound_message_events db1 = outbound_message_events db"
    and "fm_id f = k" "fm_state f = t"
  shows "prim_step\<^sup>*\<^sup>* db (appendEvent now k None t token actor detail db1)"
  using next_sequence_frame [OF assms(7)] assms(4,5,8,9)
  by (intro r_into_rtranclp prim_step.insert [of f db _ "\<lparr>ev_fence = k, ev_sequenceNumber = next_sequence db k,
         ev_fromState = None, ev_toState = t, ev_attemptToken = token, ev_actor = actor, ev_detail = detail,
         ev_occurredAt = now\<rparr>", OF assms(1) _ _ assms(2,3)]) (auto simp: assms(6,7))

lemma prepared_row_simps [simp]:
  "fm_id (prepared_row k env rule date now) = k" "fm_state (prepared_row k env rule date now) = Prepared"
  "fm_envelope (prepared_row k env rule date now) = env" "fm_attemptToken (prepared_row k env rule date now) = None"
  by (simp_all add: prepared_row_def)

lemma insert_fence_frame [simp]:
  "outbound_messages (insert_fence f db) = outbound_messages db @ [f]"
  "outbound_message_events (insert_fence f db) = outbound_message_events db"
  by (simp_all add: insert_fence_def)

lemma human_reply_prim:
  assumes "fresh \<notin> fm_id ` set (outbound_messages db)"
  shows "prim_step\<^sup>*\<^sup>* db (fst (prepareHumanReplyFence env now fresh input db))"
proof -
  have ins: "prim_step\<^sup>*\<^sup>* db (appendEvent now fresh None Prepared None actor detail
      (insert_fence (prepared_row fresh e rule date now) db))"
    if "readFenceByDraftId db (hr_draftId input) = None" "en_stepExecutionId e = None" "en_draftId e = Some (hr_draftId input)"
    for e actor detail rule date
    by (rule logged_insert [of "prepared_row fresh e rule date now" db])
      (use that assms in \<open>simp_all add: readFenceByDraftId_def sql_one_None\<close>)
  show ?thesis
    unfolding prepareHumanReplyFence_def Let_def by (auto intro: ins split: option.split)
qed

lemma tombstone_prim: "prim_step\<^sup>*\<^sup>* db (fst (insertSentTombstone env now token i db))"
proof (cases "list_ex (same_unique_key (tombstone_row env now token i)) (outbound_messages db)")
  case False
  let ?f = "tombstone_row env now token i"
  have "fence_row_checks ?f" "fm_state ?f = Sent"
    by (simp_all add: tombstone_row_def Let_def prepared_row_def fence_row_checks_def past_dispatch_def)
  moreover have u: "\<forall>g\<in>set (outbound_messages db). \<not> same_unique_key ?f g"
    using False by (simp add: list_ex_iff)
  ultimately have "prim_step\<^sup>*\<^sup>* db (appendEvent now (fm_id ?f) None Sent tk actor detail (insert_fence ?f db))"
    for tk actor detail
    by (intro logged_insert [of ?f db]) (auto simp: same_unique_key_def)
  then show ?thesis by (simp add: insertSentTombstone_def Let_def False)
qed (simp add: insertSentTombstone_def)

lemma prepare_prim:
  assumes "prepareOutboundMessage env now fresh freshTouch request db = Inr (db', r)"
    and "fresh \<notin> fm_id ` set (outbound_messages db)"
  shows "prim_step\<^sup>*\<^sup>* db db'"
proof -
  have ins: "prim_step\<^sup>*\<^sup>* db (appendEvent now fresh None Prepared None actor detail
      (bindProspectingFence fresh m s (insert_fence (request_row env db1 fresh mb request now) db1)))"
    if "readFenceByStepExecution db1 (oe_stepExecutionId request) = None"
      "outbound_messages db1 = outbound_messages db" "outbound_message_events db1 = outbound_message_events db"
    for db1 m s mb actor detail
    by (rule logged_insert [of "request_row env db1 fresh mb request now" db])
      (use that assms(2) in \<open>simp_all add: readFenceByStepExecution_def sql_one_None request_row_def\<close>)
  show ?thesis
    using assms(1) unfolding prepareOutboundMessage_def
    by (auto elim!: and_thenE dest!: reserve_frame intro: ins split: option.split_asm if_split_asm sum.split_asm prod.split_asm)
qed


text \<open>Every call is a sequence of moves.\<close>
lemma fence_step_prim: "fence_step db db' \<Longrightarrow> prim_step\<^sup>*\<^sup>* db db'"
proof (induction rule: fence_step.induct)
  case (prepare env now fresh freshTouch request db db' r)
  then show ?case by (rule prepare_prim)
qed (metis fst_conv human_reply_prim tombstone_prim history_prim claim_prim sent_prim reconciling_prim
    reconciled_prim miss_prim unknown_prim hold_prim release_prim rewrite_prim resolve_prim)+

lemma prim_steps_inv: "prim_step\<^sup>*\<^sup>* db db' \<Longrightarrow> fence_inv db \<Longrightarrow> fence_inv db'"
  by (induction rule: rtranclp_induct) (auto intro: prim_step_inv)

lemma fence_step_inv: "fence_step db db' \<Longrightarrow> fence_inv db \<Longrightarrow> fence_inv db'"
  by (rule prim_steps_inv [OF fence_step_prim])

lemma fence_steps_inv: "fence_step\<^sup>*\<^sup>* db db' \<Longrightarrow> fence_inv db \<Longrightarrow> fence_inv db'"
  by (induction rule: rtranclp_induct) (auto intro: fence_step_inv)

lemma fence_inv_empty: "outbound_messages db = [] \<Longrightarrow> outbound_message_events db = [] \<Longrightarrow> fence_inv db"
  by (simp add: fence_inv_def List.map_filter_def)

section \<open>What a row keeps\<close>

text \<open>A later version of a row: a path of the state machine leads to its state, and the
  token, the dispatch instant and the envelope are as they were once there is a token.\<close>
definition later_row :: "OutboundFenceRow \<Rightarrow> OutboundFenceRow \<Rightarrow> bool" where
  "later_row f g \<longleftrightarrow> keys_kept f g \<and> allowed_edge\<^sup>*\<^sup>* (fm_state f) (fm_state g) \<and>
     (fm_attemptToken f \<noteq> None \<longrightarrow> fm_attemptToken g = fm_attemptToken f \<and>
        fm_dispatchStartedAt g = fm_dispatchStartedAt f \<and> fm_envelope g = fm_envelope f)"

lemma later_row_refl [simp]: "later_row f f"
  by (simp add: later_row_def keys_kept_def)

lemma later_row_trans: "later_row f g \<Longrightarrow> later_row g h \<Longrightarrow> later_row f h"
  unfolding later_row_def keys_kept_def by (metis rtranclp_trans)

lemma transition_later:
  "assert_outbound_transition f g \<Longrightarrow> fence_row_checks f \<Longrightarrow> keys_kept f g \<Longrightarrow> later_row f g"
  unfolding later_row_def assert_outbound_transition_def fence_row_checks_def by (metis r_into_rtranclp rtranclp.rtrancl_refl)

lemma prim_step_later:
  assumes "prim_step db db'" "fence_inv db" "f \<in> set (outbound_messages db)"
  shows "\<exists>g\<in>set (outbound_messages db'). later_row f g"
  using assms(1)
proof cases
  case same
  then show ?thesis using assms(3) by (metis later_row_refl)
next
  case (move guard change k rows f' e)
  show ?thesis
    using fence_move.each_row [OF move(1,2) fence_invD(2) [OF assms(2)] assms(3)] fence_invD(2) [OF assms(2)] assms(3)
    unfolding move(3) by (metis later_row_refl transition_later)
next
  case (quiet guard change k rows f')
  show ?thesis
    using fence_move.each_row [OF quiet(1,2) fence_invD(2) [OF assms(2)] assms(3)] fence_invD(2) [OF assms(2)] assms(3)
    unfolding quiet(4) by (metis later_row_refl transition_later)
next
  case (insert f' e)
  then show ?thesis using assms(3) by (metis Un_iff later_row_refl set_append)
qed

lemma prim_steps_later:
  "prim_step\<^sup>*\<^sup>* db db' \<Longrightarrow> fence_inv db \<Longrightarrow> f \<in> set (outbound_messages db) \<Longrightarrow>
   \<exists>g\<in>set (outbound_messages db'). later_row f g"
proof (induction rule: rtranclp_induct)
  case (step db1 db2)
  then obtain g where "g \<in> set (outbound_messages db1)" "later_row f g" by blast
  moreover have "fence_inv db1" using prim_steps_inv step by blast
  ultimately show ?case using prim_step_later [OF step(2)] later_row_trans by blast
qed (use later_row_refl in blast)

lemma fence_steps_prim: "fence_step\<^sup>*\<^sup>* db db' \<Longrightarrow> prim_step\<^sup>*\<^sup>* db db'"
  by (induction rule: rtranclp_induct) (auto dest: fence_step_prim)

lemma readFence_iff: "fence_inv db \<Longrightarrow> readFence db k = Some f \<longleftrightarrow> f \<in> set (outbound_messages db) \<and> fm_id f = k"
  unfolding readFence_def using sql_one_key [OF fence_invD(1)] by (auto dest: sql_one_Some)

lemma fence_steps_later:
  assumes "fence_step\<^sup>*\<^sup>* db db'" "fence_inv db" "readFence db k = Some f"
  shows "\<exists>g. readFence db' k = Some g \<and> later_row f g"
proof -
  have f: "f \<in> set (outbound_messages db)" "fm_id f = k"
    using readFence_iff [OF assms(2)] assms(3) by blast+
  obtain g where g: "g \<in> set (outbound_messages db')" "later_row f g"
    using prim_steps_later [OF fence_steps_prim [OF assms(1)] assms(2) f(1)] by blast
  have "readFence db' k = Some g"
    using readFence_iff [OF fence_steps_inv [OF assms(1,2)]] g f(2) by (simp add: later_row_def keys_kept_def)
  then show ?thesis using g(2) by blast
qed

lemma past_dispatch_closed: "allowed_edge\<^sup>*\<^sup>* s t \<Longrightarrow> past_dispatch s \<Longrightarrow> past_dispatch t"
  by (induction rule: rtranclp_induct) (auto simp: past_dispatch_def allowed_edge_def)

lemma sent_final: "allowed_edge\<^sup>*\<^sup>* s t \<Longrightarrow> s = Sent \<or> s = Unknown_terminal \<Longrightarrow> t = s"
  by (induction rule: rtranclp_induct) (auto simp: allowed_edge_def)


section \<open>Updates read back\<close>

lemma update_fence_read:
  assumes "fence_move guard change" "fence_inv db" "update_fence guard change k db = (db1, h)"
  shows "h = (case readFence db k of None \<Rightarrow> None | Some g \<Rightarrow> if guard g then Some (change g) else None)"
    and "readFence db1 j = (if j = k \<and> h \<noteq> None then h else readFence db j)"
proof -
  have cas: "cas fm_id guard change k (outbound_messages db) = (outbound_messages db1, h)"
    using update_fence_cas [OF assms(3)] by blast
  have key: "fm_id (change g) = fm_id g" for g
    using fence_move.keeps_keys [OF assms(1)] by (simp add: keys_kept_def)
  have h: "h = (case readFence db k of None \<Rightarrow> None | Some g \<Rightarrow> if guard g then Some (change g) else None)"
  proof (cases "readFence db k")
    case None
    then have "sql_one (\<lambda>r. fm_id r = k \<and> guard r) (outbound_messages db) = None"
      unfolding readFence_def sql_one_None by blast
    then show ?thesis using cas None by (auto simp: cas_def Let_def)
  next
    case (Some g)
    have g: "g \<in> set (outbound_messages db)" "fm_id g = k" using Some readFence_iff [OF assms(2)] by blast+
    have u: "r = g" if "r \<in> set (outbound_messages db)" "fm_id r = k" for r
      using that Some readFence_iff [OF assms(2), of k r] by simp
    have "sql_one (\<lambda>r. fm_id r = k \<and> guard r) (outbound_messages db) = (if guard g then Some g else None)"
    proof (cases "sql_one (\<lambda>r. fm_id r = k \<and> guard r) (outbound_messages db)")
      case None
      then have "\<not> guard g" using g unfolding sql_one_None by blast
      then show ?thesis using None by simp
    next
      case (Some r)
      then have "r = g" "guard g" using u sql_one_Some [OF Some] by blast+
      then show ?thesis using Some by simp
    qed
    then show ?thesis using cas Some by (auto simp: cas_def Let_def)
  qed
  show "h = (case readFence db k of None \<Rightarrow> None | Some g \<Rightarrow> if guard g then Some (change g) else None)" by (rule h)
  have "outbound_messages db1 = sql_update (\<lambda>f. fm_id f = k \<and> guard f) change (outbound_messages db)"
    using fence_move.cas_row [OF assms(1) cas] .
  then have "readFence db1 j = map_option (\<lambda>r. if fm_id r = k \<and> guard r then change r else r) (readFence db j)"
    unfolding readFence_def by (simp add: sql_one_update_same key)
  moreover have "fm_id g = j" if "readFence db j = Some g" for g using that readFence_iff [OF assms(2)] by blast
  ultimately show "readFence db1 j = (if j = k \<and> h \<noteq> None then h else readFence db j)"
    using h by (cases "readFence db j"; cases "j = k") (auto split: option.splits)
qed

lemma readFence_cong: "outbound_messages db' = outbound_messages db \<Longrightarrow> readFence db' k = readFence db k"
  by (simp add: readFence_def)

lemma readFence_append [simp]: "readFence (appendEvent now i s t token actor detail db) k = readFence db k"
  by (rule readFence_cong) simp

lemma readFence_settle [simp]: "readFence (settle_of now f outcome db) k = readFence db k"
  by (rule readFence_cong) simp

end
