(* ===== verification/FenceProperties.thy ===== *)
theory FenceProperties
  imports FenceInvariant
begin

text \<open>
  What \<open>outbound/fence.ts\<close> promises of every fence, over all sequences of calls, and the
  database of the examples: one prepared fence of a human reply, with its first entry.
\<close>

definition env0 :: SendEnv where
  "env0 = \<lparr> env_nfkc = id, env_sha256 = (\<lambda>_. ''h''), env_tz = (\<lambda>_. None), env_actor = Actor_system ''worker'' \<rparr>"

definition envelope0 :: Envelope where
  "envelope0 = \<lparr> en_mailboxId = ''m1'', en_originKind = Origin_step_execution, en_enrollmentId = Some ''n1'',
     en_stepExecutionId = Some ''s1'', en_draftId = None, en_firmId = ''firm'', en_contactId = Some ''c1'',
     en_opportunityId = None, en_recipientAddress = ''a@b.com'', en_recipientRouteId = Some ''r1'',
     en_recipientRouteVersion = Some 1, en_subject = [72, 105], en_body = [72, 105], en_templateVersionId = Some ''t1'',
     en_renderedHash = ''h'', en_providerMessageIdHeader = ''<f1@b.com>'', en_sendAt = 1000, en_sourceZone = ''UTC'' \<rparr>"

definition fence0 :: OutboundFenceRow where
  "fence0 = prepared_row ''f1'' envelope0 ''rule'' (Some ''2026-01-05'') 1000"

definition empty_db :: OutboundDb where
  "empty_db = \<lparr> outbound_messages = [], outbound_message_events = [], touches = [], plans = [], firms = [],
     step_executions = [], enrollments = [], version_steps = [], dial_tickets = [], template_versions = [],
     mailboxes = [], email_addresses = [], sending_domains = [], authorizations = [], fence_authorizations = [] \<rparr>"

definition demo_prepared :: OutboundDb where
  "demo_prepared = appendEvent 1000 ''f1'' None Prepared None ''system:worker'' [] (insert_fence fence0 empty_db)"

lemmas demo = demo_prepared_def fence0_def empty_db_def prepared_row_def env0_def

lemma demo_prepared_inv: "fence_inv demo_prepared"
  by (rule prim_steps_inv [OF _ fence_inv_empty [of empty_db]], unfold demo_prepared_def, rule logged_insert [of fence0])
    (simp_all add: fence0_def empty_db_def)

lemma demo_prepared_row [simp]: "readFence demo_prepared k = (if k = ''f1'' then Some fence0 else None)"
  by (simp add: demo_prepared_def readFence_def) (simp add: empty_db_def fence0_def)

declare acceptSend_def [simp] refuseSend_def [simp]

section \<open>The claim\<close>

lemma claim_cases:
  assumes "fence_inv db"
  shows "claimForDispatch env now token k actor date detail db =
    (case readFence db k of
       None \<Rightarrow> (db, refuseSend Fence_unknown)
     | Some f \<Rightarrow> if fm_state f = Prepared
         then (appendEvent now k (Some Prepared) Dispatching (Some token) (actor_or env actor) detail
                 (settle_of now (claim_change token now date f) Outcome_unknown
                   (fst (update_fence (in_state Prepared) (claim_change token now date) k db))),
               acceptSend \<lparr> claim_fence = claim_change token now date f, claim_attemptToken = token \<rparr>)
         else (db, Refuse Fence_not_ready (Some (state_name (fm_state f)))))"
proof -
  obtain db1 h where u: "update_fence (in_state Prepared) (claim_change token now date) k db = (db1, h)" by fastforce
  show ?thesis
    using update_fence_read(1) [OF claim_move.fence_move_axioms assms u]
    by (simp add: claimForDispatch_def u split: option.split if_splits)
qed

lemma claim_reads:
  assumes "fence_inv db" "claimForDispatch env now token k actor date detail db = (db1, Accept c)"
  shows "\<exists>f. readFence db k = Some f \<and> fm_state f = Prepared \<and>
     claim_fence c = claim_change token now date f \<and> claim_attemptToken c = token \<and>
     readFence db1 k = Some (claim_change token now date f)"
proof -
  obtain db2 h where u: "update_fence (in_state Prepared) (claim_change token now date) k db = (db2, h)" by fastforce
  show ?thesis
    using assms(2) update_fence_read [OF claim_move.fence_move_axioms assms(1) u]
    unfolding claim_cases [OF assms(1)] by (auto simp: u split: option.splits if_splits)
qed


text \<open>The state of a claimed fence never leaves the states after the claim.\<close>
lemma claimed_stays:
  assumes "fence_inv db" "readFence db k = Some f" "fm_attemptToken f \<noteq> None" "fence_step\<^sup>*\<^sup>* db db'"
  shows "\<exists>g. readFence db' k = Some g \<and> later_row f g \<and> past_dispatch (fm_state g)"
proof -
  obtain g where g: "readFence db' k = Some g" "later_row f g"
    using fence_steps_later [OF assms(4,1,2)] by blast
  have "f \<in> set (outbound_messages db)" using assms(1,2) readFence_iff by blast
  then have "fence_row_checks f" using fence_invD(2) [OF assms(1)] by blast
  then have "past_dispatch (fm_state f)" using assms(3) by (simp add: fence_row_checks_def)
  then have "past_dispatch (fm_state g)" using g(2) past_dispatch_closed unfolding later_row_def by blast
  then show ?thesis using g by blast
qed

lemma claim_refused_past:
  "fence_inv db \<Longrightarrow> readFence db k = Some f \<Longrightarrow> past_dispatch (fm_state f) \<Longrightarrow>
   claimForDispatch env now token k actor date detail db = (db, Refuse Fence_not_ready (Some (state_name (fm_state f))))"
  by (auto simp: claim_cases past_dispatch_def)

lemma step_of_claim: "claimForDispatch env now token k actor date detail db = (db1, r) \<Longrightarrow> fence_step db db1"
  by (rule fence_step.claim) (erule sym)

text \<open>The fence is claimed at 2000 with the token \<open>tok\<close>, then recorded as sent at 3000.\<close>
definition demo_claimed :: OutboundDb where
  "demo_claimed = fst (claimForDispatch env0 2000 ''tok'' ''f1'' None None [] demo_prepared)"

definition demo_sent :: OutboundDb where
  "demo_sent = fst (recordSent env0 3000 ''f1'' ''tok'' ''p1'' ''th1'' None demo_claimed)"

definition fence1 :: OutboundFenceRow where
  "fence1 = claim_change ''tok'' 2000 None fence0"

lemma demo_claimed_claim: "claimForDispatch env0 2000 ''tok'' ''f1'' None None [] demo_prepared =
    (demo_claimed, Accept \<lparr> claim_fence = fence1, claim_attemptToken = ''tok'' \<rparr>)"
  by (simp add: demo_claimed_def claim_cases [OF demo_prepared_inv] fence1_def) (simp add: fence0_def)

lemma demo_claimed_inv: "fence_inv demo_claimed"
  by (rule fence_step_inv [OF step_of_claim [OF demo_claimed_claim] demo_prepared_inv])

lemma demo_claimed_row: "readFence demo_claimed ''f1'' = Some fence1"
  using claim_reads [OF demo_prepared_inv demo_claimed_claim] by (auto simp: fence1_def)

lemma demo_sent_step: "fence_step\<^sup>*\<^sup>* demo_claimed demo_sent"
  by (rule r_into_rtranclp,
      rule fence_step.sent [of _ "snd (recordSent env0 3000 ''f1'' ''tok'' ''p1'' ''th1'' None demo_claimed)"]) (simp add: demo_sent_def)

definition tomb0 :: SentTombstoneInput where
  "tomb0 = \<lparr> ts_fenceId = ''f9'', ts_mailboxId = ''m1'', ts_origin = Tomb_step ''n9'' ''s9'', ts_firmId = ''firm'',
     ts_contactId = ''c1'', ts_opportunityId = None, ts_recipientAddress = ''a@b.com'', ts_recipientRouteId = None,
     ts_recipientRouteVersion = None, ts_subject = None, ts_rfcMessageId = ''<f9@b.com>'', ts_providerMessageId = ''p9'',
     ts_providerThreadId = ''th9'', ts_sentAt = 500, ts_businessDate = ''2026-01-05'', ts_actor = None \<rparr>"



text \<open>A fence is dispatched once.  After an accepted claim, whatever calls follow, with
  whatever arguments, another claim of the same fence changes nothing and is refused with
  the state the fence is in, which is one of the states after the claim.\<close>
theorem claim_at_most_once:
  assumes "fence_inv db" "claimForDispatch env now token k actor date detail db = (db1, Accept c)"
    and "fence_step\<^sup>*\<^sup>* db1 db2"
  shows "\<exists>s. past_dispatch s \<and> claimForDispatch env' now' token' k actor' date' detail' db2 =
     (db2, Refuse Fence_not_ready (Some (state_name s)))"
proof -
  have inv: "fence_inv db1" using fence_step_inv [OF step_of_claim [OF assms(2)] assms(1)] .
  obtain f where f: "readFence db1 k = Some (claim_change token now date f)"
    using claim_reads [OF assms(1,2)] by blast
  obtain g where "readFence db2 k = Some g" "past_dispatch (fm_state g)"
    using claimed_stays [OF inv f _ assms(3)] by (auto simp: claim_change_def)
  then show ?thesis using claim_refused_past fence_steps_inv [OF assms(3) inv] by blast
qed

theorem claim_at_most_once_witness:
  "\<exists>s. past_dispatch s \<and> claimForDispatch env0 4000 ''other'' ''f1'' None None [] demo_sent =
     (demo_sent, Refuse Fence_not_ready (Some (state_name s)))"
  by (rule claim_at_most_once [OF demo_prepared_inv demo_claimed_claim demo_sent_step])

text \<open>C14: What is dispatched is frozen.  Once a fence has a token, every later state of the
  table still has the row, with the same token, dispatch instant and envelope (addresses,
  subject, body, headers), in a state after the claim that the state machine reaches from
  the old one; Sent and Unknown_terminal are final.\<close>
theorem dispatched_row_frozen:
  assumes "fence_inv db" "readFence db k = Some f" "fm_attemptToken f \<noteq> None" "fence_step\<^sup>*\<^sup>* db db'"
  shows "\<exists>g. readFence db' k = Some g \<and> fm_attemptToken g = fm_attemptToken f \<and>
     fm_dispatchStartedAt g = fm_dispatchStartedAt f \<and> fm_envelope g = fm_envelope f \<and>
     past_dispatch (fm_state g) \<and> allowed_edge\<^sup>*\<^sup>* (fm_state f) (fm_state g) \<and>
     (fm_state f \<in> {Sent, Unknown_terminal} \<longrightarrow> fm_state g = fm_state f)"
proof -
  obtain g where g: "readFence db' k = Some g" "later_row f g" "past_dispatch (fm_state g)"
    using claimed_stays [OF assms] by blast
  then show ?thesis using assms(3) sent_final [of "fm_state f" "fm_state g"]
    by (intro exI [of _ g]) (auto simp: later_row_def)
qed

theorem dispatched_row_frozen_witness:
  "\<exists>g. readFence demo_sent ''f1'' = Some g \<and> fm_attemptToken g = Some ''tok'' \<and> fm_dispatchStartedAt g = Some 2000 \<and>
     fm_envelope g = envelope0"
  using dispatched_row_frozen [OF demo_claimed_inv demo_claimed_row _ demo_sent_step]
  by (auto simp: fence1_def fence0_def claim_change_def)

text \<open>One dispatch in the ledger.  A fence's history read oldest first is its ledger as
  written, numbered 1, 2, 3, ...; its last entry names the fence's state, and at most one
  entry records a dispatch, with the fence's own token.\<close>
theorem ledger_one_dispatch:
  assumes "fence_inv db" "readFence db k = Some f"
  shows "readFenceEvents db k = events_of db k \<and>
     map ev_sequenceNumber (events_of db k) = [1..<Suc (length (events_of db k))] \<and>
     events_of db k \<noteq> [] \<and> ev_toState (last (events_of db k)) = fm_state f \<and>
     length (filter (\<lambda>e. ev_toState e = Dispatching) (events_of db k)) \<le> 1 \<and>
     (\<forall>e\<in>set (events_of db k). ev_toState e = Dispatching \<longrightarrow> ev_attemptToken e = fm_attemptToken f)"
proof -
  have "f \<in> set (outbound_messages db)" "fm_id f = k" using readFence_iff [OF assms(1)] assms(2) by blast+
  then have l: "ledger_ok f (events_of db k)" using fence_invD(3) [OF assms(1)] by blast
  then have m: "map ev_sequenceNumber (events_of db k) = [1..<Suc (length (events_of db k))]"
    unfolding ledger_ok_def by blast
  have "readFenceEvents db k = events_of db k"
    unfolding readFenceEvents_def by (rule sort_key_id_if_sorted) (simp only: m sorted_upt)
  then show ?thesis using l m chain_dispatch_once [of None] unfolding ledger_ok_def by blast
qed

theorem ledger_one_dispatch_witness:
  "map ev_toState (readFenceEvents demo_claimed ''f1'') = [Prepared, Dispatching] \<and>
   length (filter (\<lambda>e. ev_toState e = Dispatching) (events_of demo_claimed ''f1'')) \<le> 1"
proof -
  have r: "readFenceEvents demo_claimed ''f1'' = events_of demo_claimed ''f1''"
    "length (filter (\<lambda>e. ev_toState e = Dispatching) (events_of demo_claimed ''f1'')) \<le> 1"
    using ledger_one_dispatch [OF demo_claimed_inv demo_claimed_row] by blast+
  have "map ev_toState (events_of demo_claimed ''f1'') = [Prepared, Dispatching]"
    by (simp add: demo_claimed_def claim_cases [OF demo_prepared_inv] events_of_def)
      (simp add: fence0_def update_fence_def demo_prepared_def empty_db_def split: prod.split)
  then show ?thesis using r by simp
qed


section \<open>Sent, reconciled, unknown\<close>

text \<open>C5: The result of a send is recorded by the holder of the token only.  \<open>recordSent\<close>
  is accepted exactly when the fence is Dispatching under that token; then the fence, and no
  other, is Sent at this instant with the provider's ids, and otherwise nothing changes.\<close>
theorem recordSent_token_holder:
  assumes "fence_inv db" "recordSent env now k token pid tid actor db = (db', r)"
  shows "(case readFence db k of
      Some f \<Rightarrow> if fm_state f = Dispatching \<and> fm_attemptToken f = Some token
        then r = Accept (sent_change now now pid tid f) \<and>
          (\<forall>j. readFence db' j = (if j = k then Some (sent_change now now pid tid f) else readFence db j)) \<and>
          (\<exists>e. events_of db' k = events_of db k @ [e] \<and> ev_toState e = Sent \<and> ev_attemptToken e = Some token)
        else r = Refuse Fence_not_ready None \<and> db' = db
    | None \<Rightarrow> r = Refuse Fence_not_ready None \<and> db' = db)"
proof -
  obtain d h where u: "update_fence (\<lambda>f. fm_attemptToken f = Some token \<and> fm_state f = Dispatching)
      (sent_change now now pid tid) k db = (d, h)" by fastforce
  show ?thesis
    using assms(2) update_fence_read [OF sent_move.fence_move_axioms assms(1) u] update_fence_cas [OF u]
    by (auto simp: recordSent_def u events_of_def split: option.splits if_splits)
qed

theorem recordSent_token_holder_witness:
  "recordSent env0 3000 ''f1'' ''wrong'' ''p1'' ''th1'' None demo_claimed = (demo_claimed, Refuse Fence_not_ready None) \<and>
   readFence demo_sent ''f1'' = Some (sent_change 3000 3000 ''p1'' ''th1'' fence1)"
proof -
  have s: "fm_state fence1 = Dispatching" "fm_attemptToken fence1 = Some ''tok''"
    by (simp_all add: fence1_def claim_change_def)
  have "recordSent env0 3000 ''f1'' ''wrong'' ''p1'' ''th1'' None demo_claimed = (demo_claimed, Refuse Fence_not_ready None)"
    using recordSent_token_holder [OF demo_claimed_inv surjective_pairing, of env0 3000 "''f1''" "''wrong''" "''p1''" "''th1''" None]
    by (simp add: demo_claimed_row s prod_eq_iff)
  then show ?thesis
    using recordSent_token_holder [OF demo_claimed_inv surjective_pairing, of env0 3000 "''f1''" "''tok''" "''p1''" "''th1''" None]
    by (simp add: demo_claimed_row s demo_sent_def)
qed

lemma update_fence_accept:
  assumes "fence_move guard change" "fence_inv db" "update_fence guard change k db = (d, Some f)"
  shows "\<exists>g. readFence db k = Some g \<and> guard g \<and> f = change g \<and> readFence d k = Some f"
  using update_fence_read(1) [OF assms] update_fence_read(2) [OF assms, of k] by (cases "readFence db k") (simp_all split: if_splits)

lemma update_fence_hit:
  assumes "fence_move guard change" "fence_inv db" "readFence db k = Some g" "guard g"
  shows "\<exists>d. update_fence guard change k db = (d, Some (change g)) \<and> readFence d k = Some (change g)"
proof -
  obtain d h where u: "update_fence guard change k db = (d, h)" by fastforce
  show ?thesis
    using update_fence_read(1) [OF assms(1,2) u] update_fence_read(2) [OF assms(1,2) u, of k] assms(3,4) u by simp
qed

text \<open>The claimed fence goes to reconciliation at 3000, for 72 hours.\<close>
definition demo_reconciling :: OutboundDb where
  "demo_reconciling = fst (beginReconciling env0 3000 ''f1'' ''timeout'' 72 None demo_claimed)"

definition fence3 :: OutboundFenceRow where
  "fence3 = reconciling_change 3000 72 fence1"

lemma demo_reconciling_row: "readFence demo_reconciling ''f1'' = Some fence3"
  using update_fence_hit [OF reconciling_move demo_claimed_inv demo_claimed_row, of 72 3000]
  by (auto simp: demo_reconciling_def beginReconciling_def fence3_def fence1_def claim_change_def)

lemma demo_reconciling_inv: "fence_inv demo_reconciling"
  by (rule fence_step_inv [OF fence_step.reconcile demo_claimed_inv,
      of _ "snd (beginReconciling env0 3000 ''f1'' ''timeout'' 72 None demo_claimed)" env0 3000 "''f1''" "''timeout''" 72 None])
    (simp_all add: demo_reconciling_def)

lemmas fence3_simps = fence3_def reconciling_change_def fence1_def claim_change_def fence0_def

text \<open>A message found in the Sent folder is dated by its dispatch.  When reconciliation
  is recorded for a fence it was Reconciling; it becomes Sent at the instant the dispatch
  began, not at the instant of the search, under the same token.\<close>
theorem recordReconciledSent_dispatch_instant:
  assumes "fence_inv db" "recordReconciledSent env now k pid tid actor db = (db', Accept f)"
  shows "\<exists>g d. readFence db k = Some g \<and> fm_state g = Reconciling \<and> fm_dispatchStartedAt g = Some d \<and>
     readFence db' k = Some f \<and> fm_state f = Sent \<and> fm_sentAt f = Some d \<and>
     fm_attemptToken f = fm_attemptToken g \<and> fm_providerMessageId f = Some pid"
proof -
  obtain e h where u: "update_fence (in_state Reconciling) (reconciled_change now pid tid) k db = (e, h)" by fastforce
  have h: "h = Some f" "readFence db' k = readFence e k"
    using assms(2) by (auto simp: recordReconciledSent_def u split: option.splits)
  obtain g where g: "readFence db k = Some g" "fm_state g = Reconciling" "f = reconciled_change now pid tid g"
    "readFence db' k = Some f"
    using update_fence_accept [OF reconciled_move.fence_move_axioms assms(1) u [unfolded h(1)]] h(2) by auto
  then have "g \<in> set (outbound_messages db)" using readFence_iff [OF assms(1)] by blast
  then have "fence_row_checks g" using fence_invD(2) [OF assms(1)] by blast
  then obtain d where "fm_dispatchStartedAt g = Some d"
    using g(2) by (auto simp: fence_row_checks_def past_dispatch_def)
  then show ?thesis using g by (auto simp: reconciled_change_def)
qed

theorem recordReconciledSent_dispatch_instant_witness:
  "\<exists>f. readFence (fst (recordReconciledSent env0 9000 ''f1'' ''p1'' ''th1'' None demo_reconciling)) ''f1'' = Some f \<and>
     fm_state f = Sent \<and> fm_sentAt f = Some 2000"
proof -
  have "fm_state fence3 = Reconciling" by (simp add: fence3_simps)
  then obtain f where "snd (recordReconciledSent env0 9000 ''f1'' ''p1'' ''th1'' None demo_reconciling) = Accept f"
    using update_fence_hit [OF reconciled_move.fence_move_axioms demo_reconciling_inv demo_reconciling_row, of 9000 "''p1''" "''th1''"]
    by (auto simp: recordReconciledSent_def)
  then show ?thesis
    using recordReconciledSent_dispatch_instant [OF demo_reconciling_inv, of env0 9000 "''f1''" "''p1''" "''th1''" None _ f]
    by (auto simp: prod_eq_iff demo_reconciling_row fence3_simps)
qed

text \<open>C7: A fence is given up only after its deadline.  \<open>markUnknownTerminal\<close> is accepted
  exactly when the fence is Reconciling and its deadline has passed; every other call leaves
  the database alone.\<close>
theorem markUnknownTerminal_after_deadline:
  assumes "fence_inv db" "markUnknownTerminal env now k actor db = (db', r)"
  shows "if \<exists>f d. readFence db k = Some f \<and> fm_state f = Reconciling \<and> fm_reconcileDeadlineAt f = Some d \<and> d \<le> now
    then \<exists>f. r = Accept f \<and> readFence db' k = Some f \<and> fm_state f = Unknown_terminal \<and> fm_unknownTerminalAt f = Some now
    else r = Refuse Fence_not_ready None \<and> db' = db"
proof -
  obtain e h where u: "update_fence (unknown_guard now) (unknown_change now) k db = (e, h)" by fastforce
  show ?thesis
    using assms(2) update_fence_read [OF unknown_move.fence_move_axioms assms(1) u]
    by (auto simp: markUnknownTerminal_def u unknown_guard_def unknown_change_def split: option.splits if_splits)
qed

theorem markUnknownTerminal_after_deadline_witness:
  "snd (markUnknownTerminal env0 259202999 ''f1'' None demo_reconciling) = Refuse Fence_not_ready None \<and>
   (\<exists>f. snd (markUnknownTerminal env0 259203000 ''f1'' None demo_reconciling) = Accept f \<and> fm_state f = Unknown_terminal)"
proof -
  have r: "(if \<exists>f d. readFence demo_reconciling ''f1'' = Some f \<and> fm_state f = Reconciling \<and> fm_reconcileDeadlineAt f = Some d \<and> d \<le> now
    then \<exists>f. snd (markUnknownTerminal env0 now ''f1'' None demo_reconciling) = Accept f \<and> fm_state f = Unknown_terminal
    else snd (markUnknownTerminal env0 now ''f1'' None demo_reconciling) = Refuse Fence_not_ready None)" for now
    using markUnknownTerminal_after_deadline [OF demo_reconciling_inv, of env0 now "''f1''" None
      "fst (markUnknownTerminal env0 now ''f1'' None demo_reconciling)" "snd (markUnknownTerminal env0 now ''f1'' None demo_reconciling)"]
    by (auto split: if_splits)
  show ?thesis using r [of 259202999] r [of 259203000] by (simp add: demo_reconciling_row) (simp add: fence3_simps)
qed


section \<open>One fence per step execution\<close>

lemma sql_one_map_filter:
  "distinct (List.map_filter p xs) \<Longrightarrow> x \<in> set xs \<Longrightarrow> p x = Some s \<Longrightarrow> sql_one (\<lambda>f. p f = Some s) xs = Some x"
proof (induction xs)
  case (Cons y ys)
  show ?case
  proof (cases "x \<in> set ys \<and> p y = Some s")
    case True
    then have "s \<in> set (List.map_filter p ys)" using Cons.prems(3) by (auto simp: set_map_filter)
    then show ?thesis using Cons.prems(1) True by (simp add: List.map_filter_def)
  next
    case False
    then show ?thesis using Cons by (auto simp: List.map_filter_def split: option.splits if_splits)
  qed
qed simp

lemma readFenceByStep_iff:
  "fence_inv db \<Longrightarrow> readFenceByStepExecution db s = Some f \<longleftrightarrow>
     f \<in> set (outbound_messages db) \<and> en_stepExecutionId (fm_envelope f) = Some s"
  unfolding readFenceByStepExecution_def fence_inv_def
  using sql_one_map_filter [of "en_stepExecutionId \<circ> fm_envelope" "outbound_messages db" f s]
  by (auto dest: sql_one_Some)

lemma step_fence_later:
  assumes "fence_inv db" "readFenceByStepExecution db s = Some f" "fence_step\<^sup>*\<^sup>* db db'"
  shows "\<exists>g. readFenceByStepExecution db' s = Some g \<and> later_row f g"
proof -
  have f: "f \<in> set (outbound_messages db)" "en_stepExecutionId (fm_envelope f) = Some s"
    using readFenceByStep_iff [OF assms(1)] assms(2) by blast+
  obtain g where g: "g \<in> set (outbound_messages db')" "later_row f g"
    using prim_steps_later [OF fence_steps_prim [OF assms(3)] assms(1) f(1)] by blast
  then have "en_stepExecutionId (fm_envelope g) = Some s" using f(2) by (simp add: later_row_def keys_kept_def)
  then show ?thesis using readFenceByStep_iff [OF fence_steps_inv [OF assms(3,1)]] g by blast
qed

lemma prepared_exists:
  assumes "prepareOutboundMessage env now fresh ft req db = Inr (db1, Accept p)" "fence_inv db1"
  shows "\<exists>f. readFenceByStepExecution db1 (oe_stepExecutionId req) = Some f \<and> fm_id f = pf_outboundMessageId p"
proof -
  have new: "\<exists>f. readFenceByStepExecution (appendEvent now fresh None Prepared None actor detail
      (bindProspectingFence fresh m s (insert_fence (request_row env d fresh mb req now) d))) (oe_stepExecutionId req) = Some f \<and>
      fm_id f = fresh"
    if "readFenceByStepExecution d (oe_stepExecutionId req) = None" for d m s mb actor detail
    using that by (simp add: readFenceByStepExecution_def request_row_def sql_one_append)
  show ?thesis
    using assms(1) new unfolding prepareOutboundMessage_def
    by (auto elim!: and_thenE split: option.split_asm if_split_asm sum.split_asm prod.split_asm)
qed


text \<open>One fence per step execution.  Once a call prepared the fence of a step execution
  or found it, every later call for that step, after whatever steps and with whatever
  subject, body or template, answers the same fence, creates nothing and changes nothing.\<close>
theorem prepare_idempotent:
  assumes "fence_inv db" "fresh \<notin> fm_id ` set (outbound_messages db)"
    and "prepareOutboundMessage env now fresh ft req db = Inr (db1, Accept p)" "fence_step\<^sup>*\<^sup>* db1 db2"
    and "oe_stepExecutionId req' = oe_stepExecutionId req"
  shows "prepareOutboundMessage env' now' fresh' ft' req' db2 =
    Inr (db2, Accept \<lparr> pf_outboundMessageId = pf_outboundMessageId p, pf_created = False \<rparr>)"
proof -
  have inv: "fence_inv db1" by (rule fence_step_inv [OF fence_step.prepare [OF assms(3,2)] assms(1)])
  obtain f where f: "readFenceByStepExecution db1 (oe_stepExecutionId req) = Some f" "fm_id f = pf_outboundMessageId p"
    using prepared_exists [OF assms(3) inv] by blast
  obtain g where "readFenceByStepExecution db2 (oe_stepExecutionId req) = Some g" "later_row f g"
    using step_fence_later [OF inv f(1) assms(4)] by blast
  then show ?thesis using f(2) assms(5) by (simp add: prepareOutboundMessage_def later_row_def keys_kept_def)
qed

text \<open>A step outside the prospecting plans, with its template and mailbox.\<close>
definition db_step :: OutboundDb where
  "db_step = empty_db\<lparr> template_versions := [\<lparr> tv_id = ''t1'', tv_contentHash = ''th'', tv_approvedAt = Some 1,
       tv_footerSignOff = [] \<rparr>],
     mailboxes := [\<lparr> mb_id = ''m1'', mb_ownerUserId = ''u1'', mb_status = ''connected'',
       mb_emailAddress = ''me@b.com'', mb_providerAccountId = None,
       mb_generation = 1, mb_kind = ''conversation'', mb_syncState = ''ready'', mb_coverageWatermarkAt = None, mb_connectedAt = 0 \<rparr>] \<rparr>"

definition request0 :: OutboundEmailRequest where
  "request0 = \<lparr> oe_enrollmentId = Some ''n1'', oe_stepExecutionId = ''s1'', oe_opportunityId = None,
     oe_firmId = ''firm'', oe_contactId = Some ''c1'', oe_ownerUserId = ''u1'', oe_templateVersionId = ''t1'',
     oe_templateContentHash = ''th'', oe_emailAddressId = None, oe_toAddress = ''A@b.com'', oe_subject = [72, 105],
     oe_body = [72, 105], oe_sendAt = 1000, oe_sourceZone = ''UTC'', oe_ruleVersion = None,
     oe_businessDate = ''2026-01-05'' \<rparr>"

lemma optout_Hi [simp]: "hasOptOutLink id [72, 105] = False" "sendBodyIssue [72, 105] = False"
  by code_simp+

lemma request0_created: "\<exists>db1. prepareOutboundMessage env0 1000 ''f1'' ''x1'' request0 db_step =
    Inr (db1, Accept \<lparr> pf_outboundMessageId = ''f1'', pf_created = True \<rparr>)"
  by (simp add: prepareOutboundMessage_def request0_def db_step_def env0_def empty_db_def readFenceByStepExecution_def
      reserveOutreachEmail_def prospecting_step_def)

theorem prepare_idempotent_witness:
  "\<exists>db1. prepareOutboundMessage env0 1000 ''f1'' ''x1'' request0 db_step =
      Inr (db1, Accept \<lparr> pf_outboundMessageId = ''f1'', pf_created = True \<rparr>) \<and>
    prepareOutboundMessage env0 2000 ''f2'' ''x2'' (request0\<lparr> oe_subject := [88] \<rparr>) db1 =
      Inr (db1, Accept \<lparr> pf_outboundMessageId = ''f1'', pf_created = False \<rparr>)"
proof -
  obtain db1 where d: "prepareOutboundMessage env0 1000 ''f1'' ''x1'' request0 db_step =
      Inr (db1, Accept \<lparr> pf_outboundMessageId = ''f1'', pf_created = True \<rparr>)" using request0_created by blast
  have "fence_inv db_step" by (rule fence_inv_empty) (simp_all add: db_step_def empty_db_def)
  then show ?thesis
    using d prepare_idempotent [OF _ _ d rtranclp.rtrancl_refl, of "request0\<lparr> oe_subject := [88] \<rparr>" env0 2000 "''f2''" "''x2''"]
    by (auto simp: db_step_def empty_db_def)
qed


section \<open>Restored history\<close>

lemma tombstone_row_simps [simp]:
  "fm_id (tombstone_row env now token i) = ts_fenceId i" "fm_state (tombstone_row env now token i) = Sent"
  "fm_attemptToken (tombstone_row env now token i) = Some token"
  "fm_sentAt (tombstone_row env now token i) = Some (ts_sentAt i)"
  "en_stepExecutionId (fm_envelope (tombstone_row env now token i)) =
     (case ts_origin i of Tomb_step _ s \<Rightarrow> Some s | Tomb_draft _ \<Rightarrow> None)"
  by (simp_all add: tombstone_row_def Let_def prepared_row_def)

text \<open>A recovered send is never sent again.  When a tombstone is inserted for a message
  found in the Sent folder, then after whatever steps its fence is still Sent at the
  message's own instant, no claim of it is accepted, no second tombstone for it is, and
  preparing the step execution it stands for answers the tombstone.\<close>
theorem tombstone_never_sent_again:
  assumes "fence_inv db" "insertSentTombstone env now token i db = (db1, Accept f)" "fence_step\<^sup>*\<^sup>* db1 db2"
  shows "\<exists>g. readFence db2 (ts_fenceId i) = Some g \<and> fm_state g = Sent \<and> fm_dispatchStartedAt g = Some (ts_sentAt i) \<and>
     claimForDispatch env' now' token' (ts_fenceId i) actor date detail db2 = (db2, Refuse Fence_not_ready (Some ''sent'')) \<and>
     fst (insertSentTombstone env' now' token' i db2) = db2 \<and>
     (ts_origin i = Tomb_step n (oe_stepExecutionId req) \<longrightarrow> prepareOutboundMessage env' now' fresh ft req db2 =
       Inr (db2, Accept \<lparr> pf_outboundMessageId = ts_fenceId i, pf_created = False \<rparr>))"
proof -
  have st: "fence_step db db1" by (rule fence_step.tombstone [OF assms(2) [symmetric]])
  have inv: "fence_inv db1" "fence_inv db2" using fence_step_inv [OF st assms(1)] fence_steps_inv [OF assms(3)] by blast+
  have f: "f = tombstone_row env now token i" "f \<in> set (outbound_messages db1)"
    using assms(2) by (auto simp: insertSentTombstone_def Let_def split: if_splits)
  then have r: "readFence db1 (ts_fenceId i) = Some f" using readFence_iff [OF inv(1)] by simp
  obtain g where g: "readFence db2 (ts_fenceId i) = Some g" "fm_dispatchStartedAt g = fm_dispatchStartedAt f"
      "fm_state g = Sent" "fm_envelope g = fm_envelope f"
    using claimed_stays [OF inv(1) r _ assms(3)] sent_final [of Sent] f(1) by (auto simp: later_row_def)
  have gin: "g \<in> set (outbound_messages db2)" "fm_id g = ts_fenceId i" using readFence_iff [OF inv(2)] g(1) by blast+
  have "fm_dispatchStartedAt f = Some (ts_sentAt i)" by (simp add: f(1) tombstone_row_def Let_def)
  moreover have "claimForDispatch env' now' token' (ts_fenceId i) actor date detail db2 = (db2, Refuse Fence_not_ready (Some ''sent''))"
    using claim_refused_past [OF inv(2) g(1)] g(3) by (simp add: past_dispatch_def)
  moreover have "list_ex (same_unique_key (tombstone_row env' now' token' i)) (outbound_messages db2)"
    unfolding list_ex_iff using gin by (intro bexI [of _ g]) (simp_all add: same_unique_key_def)
  moreover have "readFenceByStepExecution db2 (oe_stepExecutionId req) = Some g"
    if "ts_origin i = Tomb_step n (oe_stepExecutionId req)"
    using that gin(1) g(4) f(1) readFenceByStep_iff [OF inv(2)] by simp
  ultimately show ?thesis using g gin(2) by (auto simp: insertSentTombstone_def prepareOutboundMessage_def Let_def)
qed


theorem tombstone_never_sent_again_witness:
  "\<exists>db1. insertSentTombstone env0 900 ''tok'' tomb0 empty_db = (db1, Accept (tombstone_row env0 900 ''tok'' tomb0)) \<and>
     claimForDispatch env0 950 ''t2'' ''f9'' None None [] db1 = (db1, Refuse Fence_not_ready (Some ''sent'')) \<and>
     prepareOutboundMessage env0 960 ''f3'' ''x3'' (request0\<lparr> oe_stepExecutionId := ''s9'' \<rparr>) db1 =
       Inr (db1, Accept \<lparr> pf_outboundMessageId = ''f9'', pf_created = False \<rparr>)"
proof -
  have inv: "fence_inv empty_db" by (rule fence_inv_empty) (simp_all add: empty_db_def)
  obtain db1 where d: "insertSentTombstone env0 900 ''tok'' tomb0 empty_db = (db1, Accept (tombstone_row env0 900 ''tok'' tomb0))"
    by (simp add: insertSentTombstone_def Let_def empty_db_def)
  have o: "ts_fenceId tomb0 = ''f9''" "ts_origin tomb0 = Tomb_step ''n9'' ''s9''" by (simp_all add: tomb0_def)
  show ?thesis
    using tombstone_never_sent_again [OF inv d rtranclp.rtrancl_refl,
        where req = "request0\<lparr> oe_stepExecutionId := ''s9'' \<rparr>" and env' = env0 and now' = 950 and token' = "''t2''"
        and actor = None and date = None and detail = "[]" and n = "''n9''" and fresh = "''f3''" and ft = "''x3''"]
      tombstone_never_sent_again [OF inv d rtranclp.rtrancl_refl,
        where req = "request0\<lparr> oe_stepExecutionId := ''s9'' \<rparr>" and env' = env0 and now' = 960 and token' = "''t2''"
        and n = "''n9''" and fresh = "''f3''" and ft = "''x3''"] d
    by (auto simp: o)
qed

section \<open>Recorded history of a fence that was never claimed\<close>

lemma record_history_accept:
  assumes "fence_inv db0" "readFence db0 k = Some f" "fm_state f = Prepared"
  shows "\<exists>db'. record_history env now token k pid tid sentAt who v detail db0 =
      (db', Accept (sent_change now sentAt pid tid (history_change env now token sentAt pid tid v f))) \<and>
    readFence db' k = Some (sent_change now sentAt pid tid (history_change env now token sentAt pid tid v f))"
proof -
  define f1 where "f1 = history_change env now token sentAt pid tid v f"
  obtain d1 where u: "update_fence (in_state Prepared) (history_change env now token sentAt pid tid v) k db0 = (d1, Some f1)"
    "readFence d1 k = Some f1"
    unfolding f1_def using update_fence_hit [OF history_move.fence_move_axioms assms(1,2)] assms(3) by blast
  define d2 where "d2 = appendEvent now k (Some Prepared) Dispatching (Some token) who detail d1"
  have inv: "fence_inv d2" unfolding d2_def by (rule prim_steps_inv [OF history_claim [OF u(1)] assms(1)])
  have r: "readFence d2 k = Some f1" by (simp add: d2_def u(2))
  obtain d3 where w: "update_fence (\<lambda>f. fm_attemptToken f = Some token \<and> fm_state f = Dispatching)
      (sent_change now sentAt pid tid) k d2 = (d3, Some (sent_change now sentAt pid tid f1))"
      "readFence d3 k = Some (sent_change now sentAt pid tid f1)"
    using update_fence_hit [OF sent_move.fence_move_axioms inv r, of token now sentAt pid tid]
    by (auto simp: f1_def history_change_def)
  show ?thesis
    unfolding f1_def [symmetric]
    by (simp add: record_history_def u(1) Let_def d2_def [symmetric] w)
qed

lemma record_history_refuse:
  assumes "fence_inv db0" "\<And>f. readFence db0 k = Some f \<Longrightarrow> fm_state f \<noteq> Prepared"
  shows "record_history env now token k pid tid sentAt who v detail db0 = (db0, Refuse Fence_not_ready None)"
proof -
  obtain d h where u: "update_fence (in_state Prepared) (history_change env now token sentAt pid tid v) k db0 = (d, h)"
    by fastforce
  have "h = None"
    using update_fence_read(1) [OF history_move.fence_move_axioms assms(1) u] assms(2) by (simp split: option.split_asm)
  then show ?thesis by (simp add: record_history_def u)
qed

lemma release_reads:
  assumes "fence_inv db" "readFence db k = Some f" "fm_state f = Held"
  shows "readFence (fst (releaseFence env now k actor db)) k = Some (release_change now f)"
    and "fence_inv (fst (releaseFence env now k actor db))"
  using update_fence_hit [OF release_move.fence_move_axioms assms(1,2), of now] assms(3)
    prim_steps_inv [OF release_prim assms(1)]
  by (auto simp: releaseFence_def)

text \<open>A fence found sent before its claim.  Recording the Sent message is accepted
  exactly when the fence is Prepared or Held; then it is Sent at the message's instant, its
  bytes replaced only by bytes without an opt-out link, with their hash; otherwise nothing
  changes.\<close>
theorem recordPreDispatchFenceSent_exact:
  assumes "fence_inv db"
    and "recordPreDispatchFenceSent env now token k pid tid sentAt actor offered db = (db', r)"
  shows "(case readFence db k of
      Some f \<Rightarrow> if fm_state f = Prepared \<or> fm_state f = Held
        then \<exists>g. r = Accept g \<and> readFence db' k = Some g \<and> fm_state g = Sent \<and> fm_sentAt g = Some sentAt \<and>
          fm_dispatchStartedAt g = Some sentAt \<and> fm_attemptToken g = Some token \<and> fm_providerMessageId g = Some pid \<and>
          (fm_envelope g = fm_envelope f \<or> (\<exists>s b. offered = Some (s, b) \<and> \<not> hasOptOutLink (env_nfkc env) s \<and>
             \<not> hasOptOutLink (env_nfkc env) b \<and> fm_envelope g = (fm_envelope f)\<lparr> en_subject := s, en_body := b,
               en_renderedHash := renderedHash env s b \<rparr>))
        else r = Refuse Fence_not_ready None \<and> db' = db
    | None \<Rightarrow> r = Refuse Fence_not_ready None \<and> db' = db)"
proof -
  define refused where "refused = (case offered of None \<Rightarrow> False | Some (s, b) \<Rightarrow>
    hasOptOutLink (env_nfkc env) s \<or> hasOptOutLink (env_nfkc env) b)"
  define v where "v = (if refused then None else offered)"
  have bytes: "fm_envelope (history_change env now token sentAt pid tid v f) = fm_envelope f \<or>
      (\<exists>s b. offered = Some (s, b) \<and> \<not> hasOptOutLink (env_nfkc env) s \<and> \<not> hasOptOutLink (env_nfkc env) b \<and>
        fm_envelope (history_change env now token sentAt pid tid v f) =
          (fm_envelope f)\<lparr> en_subject := s, en_body := b, en_renderedHash := renderedHash env s b \<rparr>)" for f
    by (cases offered) (auto simp: history_change_def v_def refused_def)
  define db0 where "db0 = (case readFence db k of
     Some f \<Rightarrow> if fm_state f = Held then fst (releaseFence env now k (Some (actor_or env actor)) db) else db
   | None \<Rightarrow> db)"
  obtain who detail where h: "record_history env now token k pid tid sentAt who v detail db0 = (db', r)"
    using assms(2) unfolding recordPreDispatchFenceSent_def Let_def db0_def v_def refused_def by blast
  have acc: ?thesis if "readFence db k = Some f" "fm_state f = Prepared \<or> fm_state f = Held"
    "fence_inv db0" "readFence db0 k = Some g" "fm_state g = Prepared" "fm_envelope g = fm_envelope f" for f g
    using record_history_accept [OF that(3-5), of env now token pid tid sentAt who v detail] h that(1,2,6) bytes [of g]
    by (auto simp: sent_change_def) (auto simp: history_change_def)
  show ?thesis
  proof (cases "readFence db k")
    case None
    then show ?thesis using record_history_refuse [of db0 k] h assms(1) by (simp add: db0_def)
  next
    case (Some f)
    consider "fm_state f = Held" | "fm_state f = Prepared" | "fm_state f \<noteq> Held \<and> fm_state f \<noteq> Prepared" by blast
    then show ?thesis
    proof cases
      case 1
      then show ?thesis
        using acc [OF Some, of "release_change now f"] release_reads [OF assms(1) Some 1]
        by (simp add: db0_def Some release_change_def)
    next
      case 2
      then show ?thesis using acc [OF Some, of f] assms(1) Some by (simp add: db0_def)
    next
      case 3
      then show ?thesis using record_history_refuse [of db0 k] h assms(1) Some by (simp add: db0_def)
    qed
  qed
qed

theorem recordPreDispatchFenceSent_exact_witness:
  "\<exists>g. snd (recordPreDispatchFenceSent env0 5000 ''tok'' ''f1'' ''p1'' ''th1'' 900 None (Some ([72, 105], [72, 105]))
      demo_prepared) = Accept g \<and> fm_state g = Sent \<and> fm_sentAt g = Some 900"
  using recordPreDispatchFenceSent_exact [OF demo_prepared_inv,
      of env0 5000 "''tok''" "''f1''" "''p1''" "''th1''" 900 None "Some ([72, 105], [72, 105])"
      "fst (recordPreDispatchFenceSent env0 5000 ''tok'' ''f1'' ''p1'' ''th1'' 900 None (Some ([72, 105], [72, 105])) demo_prepared)"
      "snd (recordPreDispatchFenceSent env0 5000 ''tok'' ''f1'' ''p1'' ''th1'' 900 None (Some ([72, 105], [72, 105])) demo_prepared)"]
  by (auto simp: fence0_def)


section \<open>Rewriting the bytes\<close>

text \<open>A draft's bytes change only before it is dispatched.  An accepted rewrite found
  the fence Prepared or Held and without a token, and leaves its state; it stores a body of
  at most 4,000 units, and neither the body nor the subject that is stored carries an
  opt-out link; the hash is that of what is stored and nothing but the bytes, hash and zone
  of the envelope changes.\<close>
theorem rewritePreparedBody_sound:
  assumes "fence_inv db" "rewritePreparedBody env now k body subject zone reason actor db = (db', Accept f)"
  shows "\<exists>g s z. readFence db k = Some g \<and> fm_attemptToken g = None \<and> (fm_state g = Prepared \<or> fm_state g = Held) \<and>
     s = (case subject of None \<Rightarrow> en_subject (fm_envelope g) | Some x \<Rightarrow> x) \<and>
     length body \<le> 4000 \<and> \<not> hasOptOutLink (env_nfkc env) body \<and> \<not> hasOptOutLink (env_nfkc env) s \<and>
     f = g\<lparr> fm_envelope := (fm_envelope g)\<lparr> en_body := body, en_subject := s,
       en_renderedHash := renderedHash env s body, en_sourceZone := z \<rparr>, fm_updatedAt := now \<rparr> \<and>
     readFence db' k = Some f"
proof -
  define s where "s = (case readFence db k of None \<Rightarrow> [] | Some g \<Rightarrow>
    case subject of None \<Rightarrow> en_subject (fm_envelope g) | Some x \<Rightarrow> x)"
  obtain d h where u: "update_fence rewrite_guard (rewrite_change env now s body zone) k db = (d, h)" by fastforce
  have ok: "\<not> sendBodyIssue body" "\<not> hasOptOutLink (env_nfkc env) body \<and> \<not> hasOptOutLink (env_nfkc env) s"
    "h = Some f \<and> readFence db' k = readFence d k"
    using assms(2) u by (auto simp: rewritePreparedBody_def Let_def s_def split: if_splits option.splits)
  obtain g where g: "readFence db k = Some g" "rewrite_guard g" "f = rewrite_change env now s body zone g"
    "readFence d k = Some f"
    using update_fence_accept [OF rewrite_move.fence_move_axioms assms(1) u [unfolded conjunct1 [OF ok(3)]]] by blast
  have "length body \<le> 4000" using ok(1) by (simp add: sendBodyIssue_def SENT_BODY_MAX_LENGTH_def)
  then show ?thesis using g ok
    by (intro exI [of _ g] exI [of _ s] exI [of _ "case zone of None \<Rightarrow> en_sourceZone (fm_envelope g) | Some z \<Rightarrow> z"])
      (auto simp: rewrite_guard_def rewrite_change_def s_def)
qed

lemma rewrite_demo:
  assumes "\<not> subject_invalid s" "\<not> hasOptOutLink id s"
  shows "\<exists>db'. rewritePreparedBody env0 2000 ''f1'' [72, 105] (Some s) None ''edit'' None demo_prepared =
    (db', Accept (rewrite_change env0 2000 s [72, 105] None fence0))"
  using assms update_fence_hit [OF rewrite_move.fence_move_axioms demo_prepared_inv, of "''f1''" fence0 env0 2000 s "[72, 105]" None]
  by (auto simp: rewritePreparedBody_def rewrite_guard_def fence0_def env0_def)

lemma short_subject: "\<not> subject_invalid [88]" "\<not> hasOptOutLink id [88]"
  by code_simp+

theorem rewritePreparedBody_sound_witness:
  "\<exists>db' f. rewritePreparedBody env0 2000 ''f1'' [72, 105] (Some [88]) None ''edit'' None demo_prepared = (db', Accept f) \<and>
     readFence db' ''f1'' = Some f \<and> length (en_body (fm_envelope f)) \<le> 4000"
proof -
  obtain db' where d: "rewritePreparedBody env0 2000 ''f1'' [72, 105] (Some [88]) None ''edit'' None demo_prepared =
    (db', Accept (rewrite_change env0 2000 [88] [72, 105] None fence0))" using rewrite_demo [OF short_subject] by blast
  show ?thesis using d rewritePreparedBody_sound [OF demo_prepared_inv d] by (auto simp: rewrite_change_def)
qed

definition long_subject :: jstring where
  "long_subject = replicate 161 88"

lemma long_subject: "\<not> subject_invalid long_subject" "\<not> hasOptOutLink id long_subject" "length long_subject = 161"
  by code_simp+

lemma envelope0_checks: "envelope_checks id envelope0"
  by (simp add: envelope_checks_def envelope0_def)


section \<open>Hold and release\<close>

text \<open>Holding and releasing a prepared fence gives it back.  A hold is refused unless
  the fence is Prepared; a held fence cannot be claimed; its release restores the row as it
  was, but for the time of the last change.\<close>
theorem hold_release_roundtrip:
  assumes "fence_inv db" "readFence db k = Some f" "fm_state f = Prepared"
    and "holdFence env now k reason actor db = (db1, r)" "releaseFence env2 now2 k actor2 db1 = (db2, r2)"
  shows "readFence db1 k = Some (hold_change now reason f) \<and>
    claimForDispatch env' now' token k actor' date detail db1 = (db1, Refuse Fence_not_ready (Some ''held'')) \<and>
    readFence db2 k = Some (f\<lparr> fm_updatedAt := now2 \<rparr>)"
proof -
  have one: "readFence db1 k = Some (hold_change now reason f)" "fence_inv db1"
    using update_fence_hit [OF hold_move.fence_move_axioms assms(1,2), of now reason] assms(3,4)
      prim_steps_inv [OF hold_prim [of db env now k reason actor] assms(1)] by (auto simp: holdFence_def)
  have two: "readFence db2 k = Some (release_change now2 (hold_change now reason f))"
    using release_reads(1) [OF one(2,1)] assms(5) by (simp add: hold_change_def) (metis fst_conv)
  have "f \<in> set (outbound_messages db)" using assms(1,2) readFence_iff by blast
  then have "fence_row_checks f" using fence_invD(2) [OF assms(1)] by blast
  then have "fm_heldAt f = None" "fm_heldReason f = None" using assms(3) by (auto simp: fence_row_checks_def)
  then have "release_change now2 (hold_change now reason f) = f\<lparr> fm_updatedAt := now2 \<rparr>"
    using assms(3) by (cases f) (simp add: release_change_def hold_change_def)
  then show ?thesis using one two by (simp add: claim_cases hold_change_def)
qed

theorem hold_release_roundtrip_witness:
  "readFence (fst (releaseFence env0 3000 ''f1'' None (fst (holdFence env0 2000 ''f1'' ''why'' None demo_prepared)))) ''f1'' =
     Some (fence0\<lparr> fm_updatedAt := 3000 \<rparr>)"
proof -
  obtain db1 r where h: "holdFence env0 2000 ''f1'' ''why'' None demo_prepared = (db1, r)" by fastforce
  obtain db2 r2 where l: "releaseFence env0 3000 ''f1'' None db1 = (db2, r2)" by fastforce
  show ?thesis
    using hold_release_roundtrip [OF demo_prepared_inv _ _ h l, of fence0] by (simp add: h l) (simp add: fence0_def)
qed

end
