(* ===== verification/Ramp.thy ===== *)
theory Ramp
  imports OutboundDb "HOL-Library.Product_Lexorder" "HOL-Library.List_Lexorder"
begin

text \<open>
  \<open>packages/domain/outbound/ramp.ts\<close> and \<open>recovery.ts\<close>: the daily cap of a mailbox,
  computed from its healthy sending days and its recovery after inactivity.  A business
  date is its day number (the code's ISO dates compare alike).  The local day of an instant
  in the workspace's zone is the parameter \<open>zone_day\<close>, PostgreSQL's \<open>AT TIME ZONE\<close>; the
  clock and \<open>gen_random_uuid()\<close> are arguments.  The rates are compared as integers: for
  counts below 2 to the power 40 \<open>b / s > 0.05\<close> on doubles is \<open>20 * b > s\<close>.
\<close>

type_synonym bdate = int

section \<open>The schedule\<close>

text \<open>The stored count is a whole number, not negative: \<open>Math.max(Math.floor(days), 0)\<close> is it.\<close>
definition scheduledCap :: "nat \<Rightarrow> int" where
  "scheduledCap days = int (case find (\<lambda>b. days < fst b) RAMP_SCHEDULE of
     None \<Rightarrow> RAMP_SETTLED_CAP | Some b \<Rightarrow> snd b)"

definition RAMP_SETTLED_DAY :: nat where
  "RAMP_SETTLED_DAY = fst (last RAMP_SCHEDULE)"

definition RAMP_RAISE_HEALTHY_STREAK :: nat where
  "RAMP_RAISE_HEALTHY_STREAK = 10"

datatype RaiseRefusal = Ramp_not_settled | Health_not_sustained

definition raiseRefusal :: "nat \<Rightarrow> nat \<Rightarrow> RaiseRefusal option" where
  "raiseRefusal healthySendingDays healthyStreak =
     (if healthySendingDays < RAMP_SETTLED_DAY then Some Ramp_not_settled
      else if healthyStreak < RAMP_RAISE_HEALTHY_STREAK then Some Health_not_sustained else None)"

section \<open>Recovery stages\<close>

definition STAGES :: "int list" where
  "STAGES = [5, 10, 15, 25, 35, 50]"

definition recoveryStageIndex :: "nat \<Rightarrow> nat" where
  "recoveryStageIndex qualifyingDays = min (qualifyingDays div 5) (length STAGES - 1)"

definition recoveryStageCap :: "nat \<Rightarrow> int" where
  "recoveryStageCap qualifyingDays = STAGES ! recoveryStageIndex qualifyingDays"

record SenderRecovery =
  sr_epochId :: uuid
  sr_active :: bool
  sr_startedOn :: bdate
  sr_stageCap :: int
  sr_earnedCap :: int
  sr_qualifyingDays :: nat
  sr_nextStageAfterDays :: nat
  sr_lastQualifiedOn :: "bdate option"
  sr_stageStartedOn :: bdate

datatype RampHealthFailure = Authentication_failing | Coverage_unhealthy | Provider_warning | Bounce_rate
  | Opt_out_rate | No_sends | Insufficient_volume | Unsettled_sends | Out_of_order_day

section \<open>The tables\<close>

record SendRampRow =
  rw_mailboxId :: uuid
  rw_healthySendingDays :: nat
  rw_lastAdvancedOn :: "bdate option"
  rw_adminDailyCap :: "int option"
  rw_raisedDailyCap :: "int option"
  rw_adminChangedAt :: "instant option"
  rw_adminChangedBy :: "uuid option"
  rw_lastHealthFailure :: "RampHealthFailure option"
  rw_recoveryEpochId :: "uuid option"

record SendDay =
  dy_mailboxId :: uuid
  dy_businessDate :: bdate
  dy_automatedSent :: nat
  dy_bounces :: nat
  dy_optOuts :: nat
  dy_providerErrors :: nat
  dy_capGranted :: int
  dy_healthy :: "bool option"
  dy_closedAt :: "instant option"
  dy_recoveryEpochId :: "uuid option"
  dy_recoveryCap :: "int option"
  dy_recoveryStage :: "nat option"
  dy_recoveryCredited :: bool

record RecoveryEpoch =
  ep_id :: uuid
  ep_mailboxId :: uuid
  ep_activityAt :: instant
  ep_startedOn :: bdate
  ep_earnedCap :: int
  ep_qualifyingDays :: nat
  ep_lastQualifiedOn :: "bdate option"
  ep_stageStartedOn :: bdate

text \<open>The mailboxes with their creation instants; the direct sends with mailbox and instant.\<close>
record RampDb =
  rd_fences :: "OutboundFenceRow list"
  rd_ramps :: "SendRampRow list"
  rd_days :: "SendDay list"
  rd_epochs :: "RecoveryEpoch list"
  rd_mailboxes :: "(uuid \<times> instant) list"
  rd_directSends :: "(uuid \<times> instant) list"

abbreviation ramp_of :: "uuid \<Rightarrow> SendRampRow \<Rightarrow> bool" where
  "ramp_of m r \<equiv> rw_mailboxId r = m"

abbreviation day_at :: "uuid \<Rightarrow> bdate \<Rightarrow> SendDay \<Rightarrow> bool" where
  "day_at m d x \<equiv> dy_mailboxId x = m \<and> dy_businessDate x = d"

definition update_ramp :: "uuid \<Rightarrow> (SendRampRow \<Rightarrow> SendRampRow) \<Rightarrow> RampDb \<Rightarrow> RampDb" where
  "update_ramp m f db = db\<lparr> rd_ramps := sql_update (ramp_of m) f (rd_ramps db) \<rparr>"

definition update_day :: "uuid \<Rightarrow> bdate \<Rightarrow> (SendDay \<Rightarrow> SendDay) \<Rightarrow> RampDb \<Rightarrow> RampDb" where
  "update_day m d f db = db\<lparr> rd_days := sql_update (day_at m d) f (rd_days db) \<rparr>"

definition update_epoch :: "uuid option \<Rightarrow> (RecoveryEpoch \<Rightarrow> RecoveryEpoch) \<Rightarrow> RampDb \<Rightarrow> RampDb" where
  "update_epoch k f db = db\<lparr> rd_epochs := sql_update (\<lambda>e. Some (ep_id e) = k) f (rd_epochs db) \<rparr>"

section \<open>Inactivity\<close>

definition sent_instants :: "RampDb \<Rightarrow> uuid \<Rightarrow> instant list" where
  "sent_instants db m = List.map_filter fm_sentAt
     (filter (\<lambda>f. en_mailboxId (fm_envelope f) = m \<and> fm_state f = Sent) (rd_fences db))"

text \<open>The mailbox's last activity: its last confirmed send, else its creation.\<close>
definition observed_activity :: "RampDb \<Rightarrow> uuid \<Rightarrow> instant option" where
  "observed_activity db m =
     (case sent_instants db m @ map snd (filter (\<lambda>s. fst s = m) (rd_directSends db)) of
        [] \<Rightarrow> None | t # ts \<Rightarrow> Some (foldl max t ts))"

definition activity_at :: "RampDb \<Rightarrow> uuid \<Rightarrow> instant option" where
  "activity_at db m = (case sql_one (\<lambda>b. fst b = m) (rd_mailboxes db) of
     None \<Rightarrow> None
   | Some b \<Rightarrow> Some (case observed_activity db m of None \<Rightarrow> snd b | Some t \<Rightarrow> t))"

text \<open>Fourteen local days without activity open an epoch, once per activity instant, and bind
  the ramp to it.\<close>
definition assessInactivity :: "(instant \<Rightarrow> bdate) \<Rightarrow> instant \<Rightarrow> uuid \<Rightarrow> uuid \<Rightarrow> int \<Rightarrow> RampDb \<Rightarrow> RampDb" where
  "assessInactivity zone_day now fresh m earnedCap db =
     (case (sql_one (ramp_of m) (rd_ramps db), activity_at db m) of
        (Some locked, Some at) \<Rightarrow>
          if zone_day now - zone_day at \<ge> 14 \<and>
             \<not> list_ex (\<lambda>e. Some (ep_id e) = rw_recoveryEpochId locked \<and> ep_activityAt e \<ge> at) (rd_epochs db)
          then (case sql_one (\<lambda>e. ep_mailboxId e = m \<and> ep_activityAt e = at) (rd_epochs db) of
                  Some e \<Rightarrow> update_ramp m (\<lambda>r. r\<lparr> rw_recoveryEpochId := Some (ep_id e) \<rparr>) db
                | None \<Rightarrow> update_ramp m (\<lambda>r. r\<lparr> rw_recoveryEpochId := Some fresh \<rparr>)
                    (db\<lparr> rd_epochs := rd_epochs db @ [\<lparr> ep_id = fresh, ep_mailboxId = m, ep_activityAt = at,
                       ep_startedOn = zone_day now, ep_earnedCap = earnedCap, ep_qualifyingDays = 0,
                       ep_lastQualifiedOn = None, ep_stageStartedOn = zone_day now \<rparr>] \<rparr>))
          else db
      | _ \<Rightarrow> db)"

definition first_stage_index :: "int \<Rightarrow> int" where
  "first_stage_index earned = (case find (\<lambda>i. STAGES ! i \<ge> earned) [0..<length STAGES] of
     None \<Rightarrow> -1 | Some i \<Rightarrow> int i)"

definition recovery_of_epoch :: "RecoveryEpoch \<Rightarrow> SenderRecovery" where
  "recovery_of_epoch e =
     (let q = ep_qualifyingDays e;
          requiredDays = max 5 (first_stage_index (ep_earnedCap e) * 5);
          active = int q < requiredDays in
      \<lparr> sr_epochId = ep_id e, sr_active = active, sr_startedOn = ep_startedOn e,
        sr_stageCap = min (recoveryStageCap q) (ep_earnedCap e), sr_earnedCap = ep_earnedCap e,
        sr_qualifyingDays = q, sr_nextStageAfterDays = (if active then 5 - q mod 5 else 0),
        sr_lastQualifiedOn = ep_lastQualifiedOn e, sr_stageStartedOn = ep_stageStartedOn e \<rparr>)"

definition readRecovery :: "RampDb \<Rightarrow> uuid \<Rightarrow> SenderRecovery option" where
  "readRecovery db m = (case sql_one (ramp_of m) (rd_ramps db) of
     None \<Rightarrow> None
   | Some r \<Rightarrow> map_option recovery_of_epoch (sql_one (\<lambda>e. Some (ep_id e) = rw_recoveryEpochId r) (rd_epochs db)))"

record SenderActivity =
  sa_lastActivityAt :: "instant option"
  sa_inactivityDays :: int
  sa_confirmed :: bool

text \<open>The basis is \<open>confirmed_send\<close> or \<open>mailbox_creation\<close>.\<close>
definition readSenderActivity :: "(instant \<Rightarrow> bdate) \<Rightarrow> instant \<Rightarrow> RampDb \<Rightarrow> uuid \<Rightarrow> SenderActivity" where
  "readSenderActivity zone_day now db m = (case activity_at db m of
     None \<Rightarrow> \<lparr> sa_lastActivityAt = None, sa_inactivityDays = 0, sa_confirmed = False \<rparr>
   | Some at \<Rightarrow> \<lparr> sa_lastActivityAt = observed_activity db m,
       sa_inactivityDays = max (zone_day now - zone_day at) 0, sa_confirmed = (observed_activity db m \<noteq> None) \<rparr>)"


section \<open>The cap in force\<close>

record RampRow =
  rr_mailboxId :: uuid
  rr_healthySendingDays :: nat
  rr_lastAdvancedOn :: "bdate option"
  rr_adminDailyCap :: "int option"
  rr_raisedDailyCap :: "int option"
  rr_lastHealthFailure :: "RampHealthFailure option"
  rr_recovery :: "SenderRecovery option"

definition toRamp :: "SendRampRow \<Rightarrow> SenderRecovery option \<Rightarrow> RampRow" where
  "toRamp r recovery = \<lparr> rr_mailboxId = rw_mailboxId r, rr_healthySendingDays = rw_healthySendingDays r,
     rr_lastAdvancedOn = rw_lastAdvancedOn r, rr_adminDailyCap = rw_adminDailyCap r,
     rr_raisedDailyCap = rw_raisedDailyCap r, rr_lastHealthFailure = rw_lastHealthFailure r, rr_recovery = recovery \<rparr>"

definition active_recovery :: "RampRow \<Rightarrow> SenderRecovery option" where
  "active_recovery ramp = (case rr_recovery ramp of None \<Rightarrow> None | Some r \<Rightarrow> if sr_active r then Some r else None)"

definition effectiveDailyCap :: "RampRow \<Rightarrow> int" where
  "effectiveDailyCap ramp =
     (let ceiling = int RAMP_HARD_CEILING;
          base = (case rr_raisedDailyCap ramp of None \<Rightarrow> scheduledCap (rr_healthySendingDays ramp) | Some c \<Rightarrow> c);
          lowered = (case rr_adminDailyCap ramp of None \<Rightarrow> base | Some c \<Rightarrow> min base c) in
      max (min (min lowered ceiling) (case active_recovery ramp of None \<Rightarrow> ceiling
        | Some r \<Rightarrow> min (sr_stageCap r) (scheduledCap (rr_healthySendingDays ramp)))) 0)"

text \<open>The closed sending days of a mailbox, latest first.\<close>
definition closed_days :: "RampDb \<Rightarrow> uuid \<Rightarrow> SendDay list" where
  "closed_days db m = rev (sort_key dy_businessDate
     (filter (\<lambda>d. dy_mailboxId d = m \<and> dy_closedAt d \<noteq> None \<and> dy_automatedSent d > 0) (rd_days db)))"

definition readHealthyStreak :: "RampDb \<Rightarrow> uuid \<Rightarrow> nat \<Rightarrow> nat" where
  "readHealthyStreak db m limit = length (takeWhile (\<lambda>d. dy_healthy d = Some True) (take limit (closed_days db m)))"

definition readRamp :: "RampDb \<Rightarrow> uuid \<Rightarrow> RampRow option" where
  "readRamp db m = map_option (\<lambda>r. toRamp r (readRecovery db m)) (sql_one (ramp_of m) (rd_ramps db))"

definition new_ramp :: "uuid \<Rightarrow> SendRampRow" where
  "new_ramp m = \<lparr> rw_mailboxId = m, rw_healthySendingDays = 0, rw_lastAdvancedOn = None, rw_adminDailyCap = None,
     rw_raisedDailyCap = None, rw_adminChangedAt = None, rw_adminChangedBy = None, rw_lastHealthFailure = None,
     rw_recoveryEpochId = None \<rparr>"

text \<open>The upsert returns the row as it stands; the recovery is read after the assessment.\<close>
definition ensureRamp :: "(instant \<Rightarrow> bdate) \<Rightarrow> instant \<Rightarrow> uuid \<Rightarrow> uuid \<Rightarrow> RampDb \<Rightarrow> RampDb \<times> RampRow" where
  "ensureRamp zone_day now fresh m db =
     (let upserted = (case sql_one (ramp_of m) (rd_ramps db) of
            Some r \<Rightarrow> (db, r) | None \<Rightarrow> (db\<lparr> rd_ramps := rd_ramps db @ [new_ramp m] \<rparr>, new_ramp m));
          row = snd upserted;
          db' = assessInactivity zone_day now fresh m (scheduledCap (rw_healthySendingDays row)) (fst upserted) in
      (db', toRamp row (readRecovery db' m)))"

section \<open>Health\<close>

record RampHealthSignals =
  hs_authenticationPasses :: bool
  hs_coverageHealthy :: bool
  hs_providerWarning :: bool
  hs_automatedSent :: nat
  hs_bounces :: nat
  hs_optOuts :: nat
  hs_providerErrors :: nat

definition RAMP_RATE_FLOOR :: nat where
  "RAMP_RATE_FLOOR = 20"

definition RAMP_SMALL_DAY_TOLERANCE :: nat where
  "RAMP_SMALL_DAY_TOLERANCE = 1"

definition rampHealthFailure :: "RampHealthSignals \<Rightarrow> RampHealthFailure option" where
  "rampHealthFailure s =
     (if \<not> hs_authenticationPasses s then Some Authentication_failing
      else if \<not> hs_coverageHealthy s then Some Coverage_unhealthy
      else if hs_providerWarning s \<or> hs_providerErrors s > 0 then Some Provider_warning
      else if hs_automatedSent s = 0 then Some No_sends
      else if hs_automatedSent s < RAMP_RATE_FLOOR then
        (if hs_bounces s > RAMP_SMALL_DAY_TOLERANCE then Some Bounce_rate
         else if hs_optOuts s > RAMP_SMALL_DAY_TOLERANCE then Some Opt_out_rate else None)
      else if 20 * hs_bounces s > hs_automatedSent s then Some Bounce_rate
      else if 10 * hs_optOuts s > hs_automatedSent s then Some Opt_out_rate
      else None)"

text \<open>\<open>Math.ceil(stageCap * 0.8)\<close>: for the caps the columns hold, 0 to 100, the double
  product rounds up to the same number as the fraction.\<close>
definition required_volume :: "int \<Rightarrow> int" where
  "required_volume stageCap = - ((- 4 * stageCap) div 5)"

definition rampAdvancementFailure :: "RampHealthSignals \<Rightarrow> int \<Rightarrow> RampHealthFailure option" where
  "rampAdvancementFailure s stageCap =
     (case rampHealthFailure s of Some f \<Rightarrow> Some f | None \<Rightarrow>
        if hs_bounces s > 0 then Some Bounce_rate
        else if hs_optOuts s > 0 then Some Opt_out_rate
        else if int (hs_automatedSent s) < required_volume stageCap then Some Insufficient_volume
        else None)"


section \<open>Closing a day\<close>

record CloseDayOutcome =
  cd_healthy :: bool
  cd_failure :: "RampHealthFailure option"
  cd_healthySendingDays :: nat
  cd_advanced :: bool

text \<open>The conditions that are not counters of the day.\<close>
record SendDayHealth =
  sh_authenticationPasses :: bool
  sh_coverageHealthy :: bool
  sh_providerWarning :: bool

definition day_signals :: "SendDayHealth \<Rightarrow> SendDay \<Rightarrow> RampHealthSignals" where
  "day_signals h d = \<lparr> hs_authenticationPasses = sh_authenticationPasses h, hs_coverageHealthy = sh_coverageHealthy h,
     hs_providerWarning = sh_providerWarning h, hs_automatedSent = dy_automatedSent d, hs_bounces = dy_bounces d,
     hs_optOuts = dy_optOuts d, hs_providerErrors = dy_providerErrors d \<rparr>"

text \<open>A fence of the day that was dispatched and is not confirmed.\<close>
definition unsettled_on :: "RampDb \<Rightarrow> uuid \<Rightarrow> bdate \<Rightarrow> bool" where
  "unsettled_on db m date = list_ex (\<lambda>f. en_mailboxId (fm_envelope f) = m \<and> fm_businessDate f = Some (iso_of_day date) \<and>
     fm_dispatchStartedAt f \<noteq> None \<and> fm_state f \<noteq> Sent) (rd_fences db)"

definition recovery_out_of_order :: "SenderRecovery \<Rightarrow> SendDay \<Rightarrow> bdate \<Rightarrow> bool" where
  "recovery_out_of_order r day date \<longleftrightarrow>
     dy_recoveryEpochId day \<noteq> Some (sr_epochId r) \<or>
     dy_recoveryStage day \<noteq> Some (recoveryStageIndex (sr_qualifyingDays r)) \<or>
     date < sr_startedOn r \<or> date < sr_stageStartedOn r \<or>
     (case sr_lastQualifiedOn r of None \<Rightarrow> False | Some l \<Rightarrow> date \<le> l)"

definition close_failure :: "RampRow \<Rightarrow> SendDay \<Rightarrow> bdate \<Rightarrow> SendDayHealth \<Rightarrow> bool \<Rightarrow> RampHealthFailure option" where
  "close_failure ramp day date h unsettled =
     (if (case rr_recovery ramp of None \<Rightarrow> False | Some r \<Rightarrow> recovery_out_of_order r day date)
      then Some Out_of_order_day else
      case rampAdvancementFailure (day_signals h day)
          (if active_recovery ramp \<noteq> None
           then (case dy_recoveryCap day of None \<Rightarrow> effectiveDailyCap ramp | Some c \<Rightarrow> c)
           else scheduledCap (rr_healthySendingDays ramp)) of
        Some f \<Rightarrow> Some f
      | None \<Rightarrow>
          if unsettled then Some Unsettled_sends else
          if active_recovery ramp = None \<and> (case rr_lastAdvancedOn ramp of None \<Rightarrow> False | Some l \<Rightarrow> date \<le> l)
          then Some Out_of_order_day else None)"

definition qualify_epoch :: "bdate \<Rightarrow> RecoveryEpoch \<Rightarrow> RecoveryEpoch" where
  "qualify_epoch date e = e\<lparr> ep_qualifyingDays := ep_qualifyingDays e + 1, ep_lastQualifiedOn := Some date,
     ep_stageStartedOn := (if (ep_qualifyingDays e + 1) mod 5 = 0 then date else ep_stageStartedOn e) \<rparr>"

text \<open>The last statement of an advance: \<open>WHERE last_advanced_on IS NULL OR last_advanced_on < date\<close>.\<close>
definition advance_ramp :: "uuid \<Rightarrow> bdate \<Rightarrow> RampDb \<Rightarrow> RampDb \<times> nat option" where
  "advance_ramp m date db =
     (let hit = (\<lambda>r. rw_mailboxId r = m \<and> (case rw_lastAdvancedOn r of None \<Rightarrow> True | Some l \<Rightarrow> l < date));
          change = (\<lambda>r. r\<lparr> rw_healthySendingDays := rw_healthySendingDays r + 1, rw_lastAdvancedOn := Some date,
            rw_lastHealthFailure := None \<rparr>) in
      (db\<lparr> rd_ramps := sql_update hit change (rd_ramps db) \<rparr>,
       map_option (\<lambda>r. rw_healthySendingDays (change r)) (sql_one hit (rd_ramps db))))"

definition closeSendDay :: "(instant \<Rightarrow> bdate) \<Rightarrow> instant \<Rightarrow> uuid \<Rightarrow> uuid \<Rightarrow> bdate \<Rightarrow> SendDayHealth \<Rightarrow> RampDb \<Rightarrow>
    RampDb \<times> CloseDayOutcome option" where
  "closeSendDay zone_day now fresh m date h db0 =
     (let ensured = ensureRamp zone_day now fresh m db0; db = fst ensured; ramp = snd ensured in
      case sql_one (day_at m date) (rd_days db) of
        None \<Rightarrow> (db, None)
      | Some day \<Rightarrow>
          if dy_closedAt day \<noteq> None
          then (db, Some \<lparr> cd_healthy = (dy_healthy day = Some True), cd_failure = None,
                 cd_healthySendingDays = rr_healthySendingDays ramp, cd_advanced = False \<rparr>) else
          let failure = close_failure ramp day date h (unsettled_on db m date);
              db1 = update_day m date (\<lambda>d. d\<lparr> dy_healthy := Some (failure = None), dy_closedAt := Some now \<rparr>) db in
          if failure \<noteq> None
          then (update_ramp m (\<lambda>r. r\<lparr> rw_lastHealthFailure := failure \<rparr>) db1,
                Some \<lparr> cd_healthy = False, cd_failure = failure,
                 cd_healthySendingDays = rr_healthySendingDays ramp, cd_advanced = False \<rparr>) else
          (case active_recovery ramp of
             Some r \<Rightarrow>
               (update_day m date (\<lambda>d. d\<lparr> dy_recoveryCredited := True \<rparr>)
                  (update_epoch (Some (sr_epochId r)) (qualify_epoch date) db1),
                Some \<lparr> cd_healthy = True, cd_failure = None,
                  cd_healthySendingDays = rr_healthySendingDays ramp, cd_advanced = True \<rparr>)
           | None \<Rightarrow>
               (let advanced = advance_ramp m date db1 in
                (fst advanced, Some \<lparr> cd_healthy = True, cd_failure = None,
                  cd_healthySendingDays = (case snd advanced of None \<Rightarrow> rr_healthySendingDays ramp | Some n \<Rightarrow> n),
                  cd_advanced = (snd advanced \<noteq> None) \<rparr>))))"

section \<open>The admin's caps\<close>

datatype AdminCapRefusal = Raise_above_limit | Cap_out_of_range | Ramp_mailbox_unknown | Raise_refused RaiseRefusal

text \<open>\<open>None\<close> is a field that is absent, \<open>Some None\<close> one that is null.\<close>
type_synonym cap_field = "int option option"

definition store_caps :: "instant \<Rightarrow> uuid \<Rightarrow> int option \<Rightarrow> int option \<Rightarrow> SendRampRow \<Rightarrow> SendRampRow" where
  "store_caps now admin lower raised r = r\<lparr> rw_adminDailyCap := lower, rw_raisedDailyCap := raised,
     rw_adminChangedAt := (if lower = None \<and> raised = None then None else Some now),
     rw_adminChangedBy := (if lower = None \<and> raised = None then None else Some admin) \<rparr>"

definition known_mailbox :: "RampDb \<Rightarrow> uuid \<Rightarrow> bool" where
  "known_mailbox db m \<longleftrightarrow> list_ex (\<lambda>b. fst b = m) (rd_mailboxes db)"

definition or_null :: "cap_field \<Rightarrow> int option" where
  "or_null f = (case f of None \<Rightarrow> None | Some v \<Rightarrow> v)"

definition above :: "int \<Rightarrow> int option \<Rightarrow> bool" where
  "above limit v = (case v of None \<Rightarrow> False | Some x \<Rightarrow> x > limit)"

definition below :: "int \<Rightarrow> int option \<Rightarrow> bool" where
  "below limit v = (case v of None \<Rightarrow> False | Some x \<Rightarrow> x < limit)"

definition setAdminCap :: "(instant \<Rightarrow> bdate) \<Rightarrow> instant \<Rightarrow> uuid \<Rightarrow> uuid \<Rightarrow> uuid \<Rightarrow> cap_field \<Rightarrow> cap_field \<Rightarrow>
    RampDb \<Rightarrow> RampDb \<times> (AdminCapRefusal + RampRow \<times> int)" where
  "setAdminCap zone_day now fresh m admin lowerTo raiseTo db =
     (if above (int RAMP_ADMIN_RAISE_LIMIT) (or_null raiseTo) then (db, Inl Raise_above_limit) else
      if below 1 (or_null raiseTo) then (db, Inl Cap_out_of_range) else
      if below 0 (or_null lowerTo) \<or> above (int RAMP_HARD_CEILING) (or_null lowerTo) then (db, Inl Cap_out_of_range) else
      if readRamp db m = None \<and> \<not> known_mailbox db m then (db, Inl Ramp_mailbox_unknown) else
      let db1 = fst (ensureRamp zone_day now fresh m db) in
      case sql_one (ramp_of m) (rd_ramps db1) of
        None \<Rightarrow> (db1, Inl Ramp_mailbox_unknown)
      | Some current \<Rightarrow>
          (case (if or_null raiseTo = None then None
                 else raiseRefusal (rw_healthySendingDays current)
                   (readHealthyStreak db1 m RAMP_RAISE_HEALTHY_STREAK)) of
             Some refusal \<Rightarrow> (db1, Inl (Raise_refused refusal))
           | None \<Rightarrow>
               (let nextLower = (if lowerTo = None then rw_adminDailyCap current else or_null lowerTo);
                    nextRaise = (if raiseTo = None then rw_raisedDailyCap current else or_null raiseTo);
                    db2 = update_ramp m (store_caps now admin nextLower nextRaise) db1;
                    ramp = toRamp (store_caps now admin nextLower nextRaise current) (readRecovery db2 m) in
                (db2, Inr (ramp, effectiveDailyCap ramp)))))"

text \<open>The warning is the part of the rule for a raise that is not met, never a refusal.\<close>
definition overrideRaise :: "(instant \<Rightarrow> bdate) \<Rightarrow> instant \<Rightarrow> uuid \<Rightarrow> uuid \<Rightarrow> uuid \<Rightarrow> int option \<Rightarrow>
    RampDb \<Rightarrow> RampDb \<times> (AdminCapRefusal + RampRow \<times> int \<times> RaiseRefusal option)" where
  "overrideRaise zone_day now fresh m admin raiseTo db =
     (if below 1 raiseTo \<or> above (int RAMP_HARD_CEILING) raiseTo then (db, Inl Cap_out_of_range) else
      if \<not> known_mailbox db m then (db, Inl Ramp_mailbox_unknown) else
      let db1 = fst (ensureRamp zone_day now fresh m db) in
      case sql_one (ramp_of m) (rd_ramps db1) of
        None \<Rightarrow> (db1, Inl Ramp_mailbox_unknown)
      | Some current \<Rightarrow>
          (let row = store_caps now admin (rw_adminDailyCap current) raiseTo current;
               db2 = update_ramp m (store_caps now admin (rw_adminDailyCap current) raiseTo) db1;
               ramp = toRamp row (readRecovery db2 m) in
           (db2, Inr (ramp, effectiveDailyCap ramp,
              (if raiseTo = None then None
               else raiseRefusal (rr_healthySendingDays ramp) (readHealthyStreak db2 m RAMP_RAISE_HEALTHY_STREAK))))))"

section \<open>Counting a day\<close>

text \<open>The row of the day, created if absent, its granted cap a high-water mark.\<close>
definition openSendDay :: "uuid \<Rightarrow> bdate \<Rightarrow> int \<Rightarrow> RampDb \<Rightarrow> RampDb" where
  "openSendDay m date cap db =
     (case sql_one (day_at m date) (rd_days db) of
        Some _ \<Rightarrow> update_day m date (\<lambda>d. d\<lparr> dy_capGranted := max (dy_capGranted d) cap \<rparr>) db
      | None \<Rightarrow>
          (let recovery = readRecovery db m in
           db\<lparr> rd_days := rd_days db @ [\<lparr> dy_mailboxId = m, dy_businessDate = date, dy_automatedSent = 0, dy_bounces = 0,
             dy_optOuts = 0, dy_providerErrors = 0, dy_capGranted = cap, dy_healthy = None, dy_closedAt = None,
             dy_recoveryEpochId = map_option sr_epochId recovery,
             dy_recoveryCap = (if recovery = None then None else Some cap),
             dy_recoveryStage = map_option (\<lambda>r. recoveryStageIndex (sr_qualifyingDays r)) recovery,
             dy_recoveryCredited = False \<rparr>] \<rparr>))"

definition countAutomatedSend :: "uuid \<Rightarrow> bdate \<Rightarrow> int \<Rightarrow> RampDb \<Rightarrow> RampDb \<times> bool" where
  "countAutomatedSend m date cap db =
     (let hit = (\<lambda>d. day_at m date d \<and> int (dy_automatedSent d) < cap) in
      (db\<lparr> rd_days := sql_update hit (\<lambda>d. d\<lparr> dy_automatedSent := dy_automatedSent d + 1 \<rparr>) (rd_days db) \<rparr>,
       sql_count hit (rd_days db) > 0))"

definition claimedAutomatedSends :: "RampDb \<Rightarrow> uuid \<Rightarrow> bdate \<Rightarrow> nat" where
  "claimedAutomatedSends db m date = sql_count (\<lambda>f. en_mailboxId (fm_envelope f) = m \<and>
     fm_businessDate f = Some (iso_of_day date) \<and> fm_attemptToken f \<noteq> None) (rd_fences db)"

section \<open>Late signals\<close>

datatype DaySignal = Signal_bounce | Signal_opt_out | Signal_provider_error

fun bump :: "DaySignal \<Rightarrow> SendDay \<Rightarrow> SendDay" where
  "bump Signal_bounce d = d\<lparr> dy_bounces := dy_bounces d + 1 \<rparr>"
| "bump Signal_opt_out d = d\<lparr> dy_optOuts := dy_optOuts d + 1 \<rparr>"
| "bump Signal_provider_error d = d\<lparr> dy_providerErrors := dy_providerErrors d + 1 \<rparr>"

fun signal_failure :: "DaySignal \<Rightarrow> RampHealthFailure" where
  "signal_failure Signal_bounce = Bounce_rate"
| "signal_failure Signal_opt_out = Opt_out_rate"
| "signal_failure Signal_provider_error = Provider_warning"

definition uncredit_epoch :: "RecoveryEpoch \<Rightarrow> RecoveryEpoch" where
  "uncredit_epoch e = e\<lparr> ep_qualifyingDays := ep_qualifyingDays e - 1 \<rparr>"

definition uncredit_ramp :: "bool \<Rightarrow> RampHealthFailure \<Rightarrow> SendRampRow \<Rightarrow> SendRampRow" where
  "uncredit_ramp credited failure r = r\<lparr> rw_healthySendingDays := rw_healthySendingDays r - (if credited then 0 else 1),
     rw_lastHealthFailure := Some failure \<rparr>"

definition day_counted :: "SendDay \<Rightarrow> bool" where
  "day_counted d \<longleftrightarrow> dy_healthy d = Some True \<and> dy_closedAt d \<noteq> None"

text \<open>One statement: the counter, the verdict of a closed healthy day, and what it earned.\<close>
definition recordDaySignal :: "uuid \<Rightarrow> bdate \<Rightarrow> DaySignal \<Rightarrow> RampDb \<Rightarrow> RampDb" where
  "recordDaySignal m date signal db =
     (case sql_one (day_at m date) (rd_days db) of
        None \<Rightarrow> db
      | Some before \<Rightarrow>
          (let db1 = update_day m date (\<lambda>d. (bump signal d)\<lparr> dy_healthy :=
                 (if day_counted before then Some False else dy_healthy before) \<rparr>) db;
               db2 = (if day_counted before \<and> dy_recoveryCredited before
                      then update_epoch (dy_recoveryEpochId before) uncredit_epoch db1 else db1) in
           if day_counted before
           then update_ramp m (uncredit_ramp (dy_recoveryCredited before) (signal_failure signal)) db2 else db2))"

definition revokeDayAdvancement :: "uuid \<Rightarrow> bdate \<Rightarrow> RampHealthFailure \<Rightarrow> RampDb \<Rightarrow> RampDb \<times> bool" where
  "revokeDayAdvancement m date failure db =
     (case sql_one (\<lambda>d. day_at m date d \<and> dy_healthy d = Some True) (rd_days db) of
        None \<Rightarrow> (db, False)
      | Some day \<Rightarrow>
          (let db1 = update_day m date (\<lambda>d. d\<lparr> dy_healthy := Some False \<rparr>) db;
               db2 = (if dy_recoveryCredited day then update_epoch (dy_recoveryEpochId day) uncredit_epoch db1 else db1) in
           (update_ramp m (uncredit_ramp (dy_recoveryCredited day) failure) db2, True)))"

record BounceAgainstDay =
  bd_businessDate :: bdate
  bd_late :: bool
  bd_reversed :: bool
  bd_failure :: "RampHealthFailure option"

definition recordBounceAgainstDay :: "(instant \<Rightarrow> bdate) \<Rightarrow> instant \<Rightarrow> uuid \<Rightarrow> uuid \<Rightarrow> bdate \<Rightarrow> RampDb \<Rightarrow>
    RampDb \<times> BounceAgainstDay option" where
  "recordBounceAgainstDay zone_day now fresh m date db0 =
     (let db = update_day m date (bump Signal_bounce) (fst (ensureRamp zone_day now fresh m db0)) in
      case sql_one (day_at m date) (rd_days db) of
        None \<Rightarrow> (db, None)
      | Some day \<Rightarrow>
          if dy_closedAt day = None
          then (db, Some \<lparr> bd_businessDate = date, bd_late = False, bd_reversed = False, bd_failure = None \<rparr>) else
          if dy_healthy day \<noteq> Some True
          then (db, Some \<lparr> bd_businessDate = date, bd_late = True, bd_reversed = False, bd_failure = None \<rparr>) else
          let failure = (case rampHealthFailure (day_signals \<lparr> sh_authenticationPasses = True, sh_coverageHealthy = True,
                 sh_providerWarning = False \<rparr> day) of None \<Rightarrow> Bounce_rate | Some f \<Rightarrow> f);
              revoked = revokeDayAdvancement m date failure db in
          (fst revoked, Some \<lparr> bd_businessDate = date, bd_late = True, bd_reversed = snd revoked, bd_failure = Some failure \<rparr>))"

text \<open>One workspace's open days before the date, oldest first.\<close>
definition listDaysToClose :: "bdate \<Rightarrow> nat \<Rightarrow> RampDb \<Rightarrow> (uuid \<times> bdate) list" where
  "listDaysToClose beforeDate limit db =
     map (\<lambda>d. (dy_mailboxId d, dy_businessDate d)) (take limit
       (sort_key (\<lambda>d. (dy_businessDate d, map of_char (dy_mailboxId d) :: nat list))
         (filter (\<lambda>d. dy_closedAt d = None \<and> dy_businessDate d < beforeDate) (rd_days db))))"

end
