(* ===== verification/RampInvariant.thy ===== *)
theory RampInvariant
  imports Ramp
begin

text \<open>
  The account of the ramp: a mailbox's healthy sending days are its days with a healthy
  verdict that no recovery was credited with, and a recovery's qualifying days are the
  healthy days credited to its epoch.  Every operation of \<open>Ramp\<close> keeps the account.
\<close>

section \<open>The invariant\<close>

definition day_key :: "SendDay \<Rightarrow> uuid \<times> bdate" where
  "day_key d = (dy_mailboxId d, dy_businessDate d)"

definition earned :: "SendDay \<Rightarrow> bool" where
  "earned d \<longleftrightarrow> dy_healthy d = Some True \<and> \<not> dy_recoveryCredited d"

definition credited :: "SendDay \<Rightarrow> bool" where
  "credited d \<longleftrightarrow> dy_healthy d = Some True \<and> dy_recoveryCredited d"

definition verdict_ok :: "SendDay \<Rightarrow> bool" where
  "verdict_ok d \<longleftrightarrow> (dy_healthy d = None) = (dy_closedAt d = None) \<and>
     (dy_recoveryCredited d \<longrightarrow> dy_closedAt d \<noteq> None \<and> dy_recoveryEpochId d \<noteq> None)"

definition day_ok :: "RampDb \<Rightarrow> SendDay \<Rightarrow> bool" where
  "day_ok db d \<longleftrightarrow> verdict_ok d \<and>
     (dy_healthy d = Some True \<longrightarrow> dy_mailboxId d \<in> rw_mailboxId ` set (rd_ramps db)) \<and>
     (\<forall>k. dy_recoveryEpochId d = Some k \<longrightarrow> k \<in> ep_id ` set (rd_epochs db))"

definition ramp_inv :: "RampDb \<Rightarrow> bool" where
  "ramp_inv db \<longleftrightarrow>
     distinct (map rw_mailboxId (rd_ramps db)) \<and> distinct (map day_key (rd_days db)) \<and>
     distinct (map ep_id (rd_epochs db)) \<and> (\<forall>d\<in>set (rd_days db). day_ok db d) \<and>
     (\<forall>r\<in>set (rd_ramps db). rw_healthySendingDays r =
        sql_count (\<lambda>d. dy_mailboxId d = rw_mailboxId r \<and> earned d) (rd_days db)) \<and>
     (\<forall>e\<in>set (rd_epochs db). ep_qualifyingDays e =
        sql_count (\<lambda>d. dy_recoveryEpochId d = Some (ep_id e) \<and> credited d) (rd_days db))"

lemma ramp_invD:
  assumes "ramp_inv db"
  shows "distinct (map rw_mailboxId (rd_ramps db))" "distinct (map day_key (rd_days db))"
    "distinct (map ep_id (rd_epochs db))" "\<And>d. d \<in> set (rd_days db) \<Longrightarrow> day_ok db d"
    "\<And>r. r \<in> set (rd_ramps db) \<Longrightarrow> rw_healthySendingDays r =
        sql_count (\<lambda>d. dy_mailboxId d = rw_mailboxId r \<and> earned d) (rd_days db)"
    "\<And>e. e \<in> set (rd_epochs db) \<Longrightarrow> ep_qualifyingDays e =
        sql_count (\<lambda>d. dy_recoveryEpochId d = Some (ep_id e) \<and> credited d) (rd_days db)"
  using assms by (auto simp: ramp_inv_def)

lemma day_at_key: "day_at m date d \<longleftrightarrow> day_key d = (m, date)"
  by (simp add: day_key_def)

lemma ramp_inv_tables:
  "ramp_inv db \<Longrightarrow> rd_ramps db' = rd_ramps db \<Longrightarrow> rd_days db' = rd_days db \<Longrightarrow> rd_epochs db' = rd_epochs db \<Longrightarrow> ramp_inv db'"
  by (simp add: ramp_inv_def day_ok_def)

text \<open>One day's verdict changes, with the ramp of its mailbox and its epoch.\<close>
lemma inv_change:
  assumes inv: "ramp_inv db" and x: "sql_one (day_at m date) (rd_days db) = Some x"
    and days: "rd_days db' = sql_update (day_at m date) g (rd_days db)"
    and ramps: "rd_ramps db' = sql_update (ramp_of m) h (rd_ramps db)"
    and epochs: "rd_epochs db' = sql_update (\<lambda>e. Some (ep_id e) = dy_recoveryEpochId x) w (rd_epochs db)"
    and g: "day_key (g x) = day_key x" "dy_recoveryEpochId (g x) = dy_recoveryEpochId x" "day_ok db (g x)"
    and h: "\<And>r. rw_mailboxId (h r) = rw_mailboxId r"
      "\<And>r. r \<in> set (rd_ramps db) \<Longrightarrow> rw_mailboxId r = m \<Longrightarrow>
         rw_healthySendingDays (h r) + (if earned x then 1 else 0) = rw_healthySendingDays r + (if earned (g x) then 1 else 0)"
    and w: "\<And>e. ep_id (w e) = ep_id e"
      "\<And>e. e \<in> set (rd_epochs db) \<Longrightarrow> Some (ep_id e) = dy_recoveryEpochId x \<Longrightarrow>
         ep_qualifyingDays (w e) + (if credited x then 1 else 0) = ep_qualifyingDays e + (if credited (g x) then 1 else 0)"
  shows "ramp_inv db'"
proof -
  have xin: "x \<in> set (rd_days db)" "day_key x = (m, date)" using sql_one_Some [OF x] by (auto simp: day_at_key)
  have upd: "rd_days db' = sql_update (\<lambda>d. day_key d = day_key x) g (rd_days db)"
    using days xin(2) by (simp add: day_at_key)
  have cnt: "sql_count p (rd_days db') + (if p x then 1 else 0) = sql_count p (rd_days db) + (if p (g x) then 1 else 0)" for p
    unfolding upd by (rule sql_count_update_key [OF ramp_invD(2) [OF inv] xin(1)])
  have only: "d = x" if "d \<in> set (rd_days db)" "day_key d = day_key x" for d
    using that xin(1) ramp_invD(2) [OF inv] by (metis distinct_map inj_onD)
  have keys: "map rw_mailboxId (rd_ramps db') = map rw_mailboxId (rd_ramps db)"
    "map ep_id (rd_epochs db') = map ep_id (rd_epochs db)" "map day_key (rd_days db') = map day_key (rd_days db)"
    unfolding ramps epochs upd using h(1) w(1) g(1) only by (auto simp: sql_update_def)
  have sets: "rw_mailboxId ` set (rd_ramps db') = rw_mailboxId ` set (rd_ramps db)"
    "ep_id ` set (rd_epochs db') = ep_id ` set (rd_epochs db)"
    using keys by (metis set_map)+
  have dok: "day_ok db' d" if "d \<in> set (rd_days db')" for d
  proof -
    obtain e where "e \<in> set (rd_days db)" "d = (if day_key e = day_key x then g e else e)"
      using \<open>d \<in> set (rd_days db')\<close> unfolding upd set_sql_update by (elim imageE)
    then have "day_ok db d" using only g(3) ramp_invD(4) [OF inv] by (auto split: if_splits)
    then show ?thesis unfolding day_ok_def sets .
  qed
  have rok: "rw_healthySendingDays r = sql_count (\<lambda>d. dy_mailboxId d = rw_mailboxId r \<and> earned d) (rd_days db')"
    if "r \<in> set (rd_ramps db')" for r
  proof -
    obtain s where s: "s \<in> set (rd_ramps db)" "r = (if rw_mailboxId s = m then h s else s)"
      using \<open>r \<in> set (rd_ramps db')\<close> unfolding ramps set_sql_update by (elim imageE)
    have mb: "dy_mailboxId x = m" "dy_mailboxId (g x) = m" using xin(2) g(1) by (simp_all add: day_key_def)
    show ?thesis
      using s cnt [of "\<lambda>d. dy_mailboxId d = rw_mailboxId s \<and> earned d"] h(1) h(2) [OF s(1)] ramp_invD(5) [OF inv s(1)] mb
      by (auto split: if_splits)
  qed
  have eok: "ep_qualifyingDays e = sql_count (\<lambda>d. dy_recoveryEpochId d = Some (ep_id e) \<and> credited d) (rd_days db')"
    if "e \<in> set (rd_epochs db')" for e
  proof -
    obtain s where s: "s \<in> set (rd_epochs db)" "e = (if Some (ep_id s) = dy_recoveryEpochId x then w s else s)"
      using \<open>e \<in> set (rd_epochs db')\<close> unfolding epochs set_sql_update by (elim imageE)
    show ?thesis
      using s cnt [of "\<lambda>d. dy_recoveryEpochId d = Some (ep_id s) \<and> credited d"] w(1) w(2) [OF s(1)] ramp_invD(6) [OF inv s(1)] g(2)
      by (auto split: if_splits)
  qed
  show ?thesis
    unfolding ramp_inv_def keys using ramp_invD(1,2,3) [OF inv] dok rok eok by blast
qed


lemma harmless_day:
  assumes "ramp_inv db" "\<And>d. day_key (g d) = day_key d \<and> dy_recoveryEpochId (g d) = dy_recoveryEpochId d \<and>
      dy_healthy (g d) = dy_healthy d \<and> dy_closedAt (g d) = dy_closedAt d \<and> dy_recoveryCredited (g d) = dy_recoveryCredited d"
  shows "ramp_inv (update_day m date g db)"
proof (cases "sql_one (day_at m date) (rd_days db)")
  case None
  then show ?thesis
    using assms(1) by (simp add: update_day_def sql_one_None sql_update_none)
next
  case (Some x)
  have "day_ok db x" using ramp_invD(4) [OF assms(1)] sql_one_Some [OF Some] by blast
  then have "day_ok db (g x)" using assms(2) [of x] by (simp add: day_ok_def day_key_def verdict_ok_def)
  moreover have "earned (g x) = earned x" "credited (g x) = credited x"
    using assms(2) [of x] by (simp_all add: earned_def credited_def)
  ultimately show ?thesis
    using assms(2) [of x]
    by (intro inv_change [OF assms(1) Some, of _ g "\<lambda>r. r" "\<lambda>e. e"]) (simp_all add: update_day_def)
qed

lemma harmless_ramp:
  assumes "ramp_inv db" "\<And>r. rw_mailboxId (h r) = rw_mailboxId r \<and> rw_healthySendingDays (h r) = rw_healthySendingDays r"
  shows "ramp_inv (update_ramp m h db)"
proof -
  have "map rw_mailboxId (rd_ramps (update_ramp m h db)) = map rw_mailboxId (rd_ramps db)"
    using assms(2) by (simp add: update_ramp_def sql_update_def)
  moreover have "rw_mailboxId ` set (rd_ramps (update_ramp m h db)) = rw_mailboxId ` set (rd_ramps db)"
    using calculation by (metis set_map)
  ultimately show ?thesis
    using assms unfolding ramp_inv_def day_ok_def
    by (auto simp: update_ramp_def set_sql_update)
qed

section \<open>The operations keep it\<close>

lemma assess_inv:
  assumes "ramp_inv db" "fresh \<notin> ep_id ` set (rd_epochs db)"
  shows "ramp_inv (assessInactivity zone_day now fresh m c db)"
proof -
  have new: "ramp_inv (db\<lparr> rd_epochs := rd_epochs db @ [e] \<rparr>)" if "ep_id e = fresh" "ep_qualifyingDays e = 0" for e
  proof -
    have "dy_recoveryEpochId d \<noteq> Some fresh" if "d \<in> set (rd_days db)" for d
      using ramp_invD(4) [OF assms(1) that] assms(2) by (auto simp: day_ok_def)
    then have "sql_count (\<lambda>d. dy_recoveryEpochId d = Some fresh \<and> credited d) (rd_days db) = 0" by (simp add: sql_count_0)
    then show ?thesis
      using assms that unfolding ramp_inv_def day_ok_def by auto
  qed
  show ?thesis
    unfolding assessInactivity_def
    by (auto intro!: harmless_ramp assms new split: option.split)
qed

lemma ensure_inv:
  assumes "ramp_inv db" "fresh \<notin> ep_id ` set (rd_epochs db)"
  shows "ramp_inv (fst (ensureRamp zone_day now fresh m db))"
proof -
  have "ramp_inv (db\<lparr> rd_ramps := rd_ramps db @ [new_ramp m] \<rparr>)" if "sql_one (ramp_of m) (rd_ramps db) = None"
  proof -
    have none: "\<forall>r\<in>set (rd_ramps db). rw_mailboxId r \<noteq> m" using that by (simp add: sql_one_None)
    then have "dy_mailboxId d \<noteq> m \<or> \<not> earned d" if "d \<in> set (rd_days db)" for d
      using ramp_invD(4) [OF assms(1) that] unfolding day_ok_def earned_def by (metis imageE)
    then have "sql_count (\<lambda>d. dy_mailboxId d = m \<and> earned d) (rd_days db) = 0" by (auto simp: sql_count_0)
    then show ?thesis
      using assms(1) none unfolding ramp_inv_def day_ok_def by (auto simp: new_ramp_def)
  qed
  then show ?thesis
    unfolding ensureRamp_def Let_def using assms by (auto intro!: assess_inv split: option.split)
qed


lemma ensured_ramp: "\<exists>r. sql_one (ramp_of m) (rd_ramps (fst (ensureRamp zone_day now fresh m db))) = Some r \<and>
    rw_healthySendingDays r = rr_healthySendingDays (snd (ensureRamp zone_day now fresh m db)) \<and>
    rw_lastAdvancedOn r = rr_lastAdvancedOn (snd (ensureRamp zone_day now fresh m db)) \<and>
    rw_adminDailyCap r = rr_adminDailyCap (snd (ensureRamp zone_day now fresh m db)) \<and>
    rw_raisedDailyCap r = rr_raisedDailyCap (snd (ensureRamp zone_day now fresh m db))"
proof -
  have keep: "\<exists>r. sql_one (ramp_of m) (rd_ramps (assessInactivity zone_day now fresh m c d)) = Some r \<and>
      rw_healthySendingDays r = rw_healthySendingDays s \<and> rw_lastAdvancedOn r = rw_lastAdvancedOn s \<and>
      rw_adminDailyCap r = rw_adminDailyCap s \<and> rw_raisedDailyCap r = rw_raisedDailyCap s"
    if "sql_one (ramp_of m) (rd_ramps d) = Some s" for c d s
    using that by (auto simp: assessInactivity_def update_ramp_def sql_one_update_same split: option.split)
  have up: "sql_one (ramp_of m) (rd_ramps db @ [new_ramp m]) = Some (new_ramp m)" if "sql_one (ramp_of m) (rd_ramps db) = None"
    using that by (simp add: sql_one_append new_ramp_def)
  show ?thesis
    unfolding ensureRamp_def Let_def
    using keep [of db] keep [of "db\<lparr> rd_ramps := rd_ramps db @ [new_ramp m] \<rparr>"] up
    by (cases "sql_one (ramp_of m) (rd_ramps db)") (auto simp: toRamp_def)
qed

lemma ensure_days [simp]: "rd_days (fst (ensureRamp zone_day now fresh m db)) = rd_days db"
  by (simp add: ensureRamp_def Let_def assessInactivity_def update_ramp_def split: option.split)

lemma ramp_unique:
  assumes "ramp_inv db" "sql_one (ramp_of m) (rd_ramps db) = Some r" "s \<in> set (rd_ramps db)" "rw_mailboxId s = m"
  shows "s = r"
proof -
  have r: "r \<in> set (rd_ramps db)" "rw_mailboxId r = m" using sql_one_Some [OF assms(2)] by blast+
  have "inj_on rw_mailboxId (set (rd_ramps db))" using ramp_invD(1) [OF assms(1)] by (simp add: distinct_map)
  then show ?thesis using inj_onD [of rw_mailboxId _ s r] assms(3,4) r by simp
qed

lemma readRecovery_epoch:
  assumes "readRecovery db m = Some v"
  shows "\<exists>e\<in>set (rd_epochs db). v = recovery_of_epoch e"
proof (cases "sql_one (ramp_of m) (rd_ramps db)")
  case None
  then show ?thesis using assms by (simp add: readRecovery_def)
next
  case (Some r)
  then obtain e where "sql_one (\<lambda>e. Some (ep_id e) = rw_recoveryEpochId r) (rd_epochs db) = Some e" "v = recovery_of_epoch e"
    using assms by (auto simp: readRecovery_def)
  then show ?thesis by (blast dest: sql_one_member)
qed

lemma epochId_of [simp]: "sr_epochId (recovery_of_epoch e) = ep_id e"
  by (simp add: recovery_of_epoch_def Let_def)

lemma open_inv: "ramp_inv db \<Longrightarrow> ramp_inv (openSendDay m date cap db)"
proof -
  assume inv: "ramp_inv db"
  have rec: "k \<in> ep_id ` set (rd_epochs db)" if "map_option sr_epochId (readRecovery db m) = Some k" for k
    using that readRecovery_epoch [of db m] by auto
  have new: "ramp_inv (db\<lparr> rd_days := rd_days db @ [d] \<rparr>)"
    if "sql_one (day_at m date) (rd_days db) = None" "day_key d = (m, date)" "dy_healthy d = None" "dy_closedAt d = None"
      "\<not> dy_recoveryCredited d" "dy_recoveryEpochId d = map_option sr_epochId (readRecovery db m)" for d
  proof -
    have "\<forall>x\<in>set (rd_days db). day_key x \<noteq> day_key d" using that(1,2) by (auto simp: sql_one_None day_key_def)
    moreover have "day_ok db d" using that(3-6) rec by (auto simp: day_ok_def verdict_ok_def)
    moreover have "sql_count p [d] = 0" if "\<And>d. p d \<Longrightarrow> earned d \<or> credited d" for p
      using that [of d] \<open>dy_healthy d = None\<close> by (auto simp: earned_def credited_def)
    ultimately show ?thesis
      using inv that(3) unfolding ramp_inv_def day_ok_def
      by (auto simp: sql_count_def earned_def credited_def)
  qed
  show ?thesis
    unfolding openSendDay_def Let_def using inv
    by (auto intro!: harmless_day new simp: day_key_def split: option.split)
qed

lemma count_inv: "ramp_inv db \<Longrightarrow> ramp_inv (fst (countAutomatedSend m date cap db))"
proof -
  assume "ramp_inv db"
  moreover have "fst (countAutomatedSend m date cap db) = update_day m date
      (\<lambda>d. if int (dy_automatedSent d) < cap then d\<lparr> dy_automatedSent := dy_automatedSent d + 1 \<rparr> else d) db"
    by (auto simp: countAutomatedSend_def update_day_def sql_update_def Let_def)
  ultimately show ?thesis by (simp only:) (rule harmless_day, assumption, simp add: day_key_def)
qed

lemma caps_inv:
  assumes "ramp_inv db" "fresh \<notin> ep_id ` set (rd_epochs db)"
  shows "ramp_inv (fst (setAdminCap zone_day now fresh m admin lowerTo raiseTo db))"
    and "ramp_inv (fst (overrideRaise zone_day now fresh m admin raised db))"
  using assms
  by (auto simp: setAdminCap_def overrideRaise_def Let_def store_caps_def
      intro!: harmless_ramp ensure_inv split: option.split)

lemma earned_positive:
  assumes "ramp_inv db" "x \<in> set (rd_days db)"
  shows "r \<in> set (rd_ramps db) \<Longrightarrow> rw_mailboxId r = dy_mailboxId x \<Longrightarrow> earned x \<Longrightarrow> 0 < rw_healthySendingDays r"
    and "e \<in> set (rd_epochs db) \<Longrightarrow> dy_recoveryEpochId x = Some (ep_id e) \<Longrightarrow> credited x \<Longrightarrow> 0 < ep_qualifyingDays e"
  using assms sql_count_le [of x "rd_days db"] by (auto simp: ramp_inv_def)

text \<open>A healthy closed day loses its verdict, and the ramp or the epoch what it earned.\<close>
lemma uncredit_inv:
  assumes inv: "ramp_inv db" and x: "sql_one (day_at m date) (rd_days db) = Some x" "dy_healthy x = Some True"
    and g: "\<And>d. day_key (g d) = day_key d \<and> dy_recoveryEpochId (g d) = dy_recoveryEpochId d \<and>
      dy_closedAt (g d) = dy_closedAt d \<and> dy_recoveryCredited (g d) = dy_recoveryCredited d"
    and gx: "dy_healthy (g x) = Some False"
  shows "ramp_inv (update_ramp m (uncredit_ramp (dy_recoveryCredited x) failure)
     (if dy_recoveryCredited x then update_epoch (dy_recoveryEpochId x) uncredit_epoch (update_day m date g db)
      else update_day m date g db))"
proof -
  have xin: "x \<in> set (rd_days db)" "dy_mailboxId x = m" using sql_one_Some [OF x(1)] by auto
  have ok: "day_ok db x" by (rule ramp_invD(4) [OF inv xin(1)])
  then have "day_ok db (g x)" using g [of x] gx x(2) by (auto simp: day_ok_def verdict_ok_def)
  moreover have "\<not> earned (g x)" "\<not> credited (g x)" using gx by (simp_all add: earned_def credited_def)
  moreover have "earned x = (\<not> dy_recoveryCredited x)" "credited x = dy_recoveryCredited x"
    using x(2) by (simp_all add: earned_def credited_def)
  ultimately show ?thesis
    using g [of x] earned_positive [OF inv xin(1)] xin(2)
    by (intro inv_change [OF inv x(1), of _ g "uncredit_ramp (dy_recoveryCredited x) failure"
          "if dy_recoveryCredited x then uncredit_epoch else (\<lambda>e. e)"])
      (auto simp: update_day_def update_ramp_def update_epoch_def uncredit_ramp_def uncredit_epoch_def)
qed


lemma signal_inv: "ramp_inv db \<Longrightarrow> ramp_inv (recordDaySignal m date signal db)"
proof -
  assume inv: "ramp_inv db"
  have keep: "day_key (bump signal d) = day_key d" "dy_recoveryEpochId (bump signal d) = dy_recoveryEpochId d"
    "dy_closedAt (bump signal d) = dy_closedAt d" "dy_recoveryCredited (bump signal d) = dy_recoveryCredited d"
    "dy_healthy (bump signal d) = dy_healthy d" for d
    by (cases signal; simp add: day_key_def)+
  show ?thesis
  proof (cases "sql_one (day_at m date) (rd_days db)")
    case None
    then show ?thesis using inv by (simp add: recordDaySignal_def)
  next
    case (Some x)
    define g where "g = (\<lambda>d. (bump signal d)\<lparr> dy_healthy := (if day_counted x then Some False else dy_healthy x) \<rparr>)"
    have xin: "x \<in> set (rd_days db)" using sql_one_member [OF Some] .
    have g: "day_key (g d) = day_key d \<and> dy_recoveryEpochId (g d) = dy_recoveryEpochId d \<and>
        dy_closedAt (g d) = dy_closedAt d \<and> dy_recoveryCredited (g d) = dy_recoveryCredited d" for d
      using keep [of d] by (simp add: g_def day_key_def)
    show ?thesis
    proof (cases "day_counted x")
      case True
      then have "dy_healthy x = Some True" "dy_healthy (g x) = Some False" by (simp_all add: day_counted_def g_def)
      from uncredit_inv [OF inv Some this(1), of g, OF g this(2)] show ?thesis
        by (simp add: recordDaySignal_def Some Let_def True g_def cong: if_cong)
    next
      case False
      then have h: "dy_healthy (g x) = dy_healthy x" by (simp add: g_def)
      have "day_ok db (g x)" using ramp_invD(4) [OF inv xin] g [of x] h by (simp add: day_ok_def verdict_ok_def day_key_def)
      moreover have "earned (g x) = earned x" "credited (g x) = credited x" using g [of x] h by (simp_all add: earned_def credited_def)
      ultimately have "ramp_inv (update_day m date g db)"
        using g [of x] by (intro inv_change [OF inv Some, of _ g "\<lambda>r. r" "\<lambda>e. e"]) (simp_all add: update_day_def)
      then show ?thesis by (simp add: recordDaySignal_def Some Let_def False g_def)
    qed
  qed
qed

lemma revoke_inv: "ramp_inv db \<Longrightarrow> ramp_inv (fst (revokeDayAdvancement m date failure db))"
proof -
  assume inv: "ramp_inv db"
  show ?thesis
  proof (cases "sql_one (\<lambda>d. day_at m date d \<and> dy_healthy d = Some True) (rd_days db)")
    case None
    then show ?thesis using inv by (simp add: revokeDayAdvancement_def)
  next
    case (Some x)
    have x: "x \<in> set (rd_days db)" "day_key x = (m, date)" "dy_healthy x = Some True"
      using sql_one_Some [OF Some] by (auto simp: day_key_def)
    have "sql_one (\<lambda>d. day_key d = day_key x) (rd_days db) = Some x"
      by (rule sql_one_key [OF ramp_invD(2) [OF inv] x(1)])
    then have one: "sql_one (day_at m date) (rd_days db) = Some x" using x(2) by (simp add: day_at_key)
    show ?thesis
      using uncredit_inv [OF inv one x(3), of "\<lambda>d. d\<lparr> dy_healthy := Some False \<rparr>" failure]
      by (simp add: revokeDayAdvancement_def Some [simplified] Let_def day_key_def cong: if_cong)
  qed
qed

lemma bounce_inv:
  assumes "ramp_inv db" "fresh \<notin> ep_id ` set (rd_epochs db)"
  shows "ramp_inv (fst (recordBounceAgainstDay zone_day now fresh m date db))"
proof -
  have "ramp_inv (update_day m date (bump Signal_bounce) (fst (ensureRamp zone_day now fresh m db)))"
    by (rule harmless_day [OF ensure_inv [OF assms]]) (simp add: day_key_def)
  then show ?thesis
    unfolding recordBounceAgainstDay_def Let_def by (auto intro: revoke_inv split: option.split)
qed


text \<open>The sender's recovery as read for the ramp of a mailbox.\<close>
lemma ensured_recovery:
  "rr_recovery (snd (ensureRamp zone_day now fresh m db)) = readRecovery (fst (ensureRamp zone_day now fresh m db)) m"
  by (simp add: ensureRamp_def Let_def toRamp_def)

lemma close_failure_None:
  assumes "close_failure ramp day date h unsettled = None"
  shows "case rr_recovery ramp of None \<Rightarrow> True | Some r \<Rightarrow> dy_recoveryEpochId day = Some (sr_epochId r)"
    and "active_recovery ramp = None \<Longrightarrow> case rr_lastAdvancedOn ramp of None \<Rightarrow> True | Some l \<Rightarrow> l < date"
  using assms by (auto simp: close_failure_def recovery_out_of_order_def split: option.splits if_splits)

lemma close_inv:
  assumes "ramp_inv db0" "fresh \<notin> ep_id ` set (rd_epochs db0)"
  shows "ramp_inv (fst (closeSendDay zone_day now fresh m date h db0))"
proof -
  define db where "db = fst (ensureRamp zone_day now fresh m db0)"
  define ramp where "ramp = snd (ensureRamp zone_day now fresh m db0)"
  have inv: "ramp_inv db" unfolding db_def by (rule ensure_inv [OF assms])
  obtain r where r: "sql_one (ramp_of m) (rd_ramps db) = Some r" "rw_lastAdvancedOn r = rr_lastAdvancedOn ramp"
    using ensured_ramp unfolding db_def ramp_def by blast
  have recov: "rr_recovery ramp = readRecovery db m" unfolding db_def ramp_def by (rule ensured_recovery)
  show ?thesis
  proof (cases "sql_one (day_at m date) (rd_days db)")
    case None
    then show ?thesis using inv by (simp add: closeSendDay_def Let_def db_def [symmetric])
  next
    case (Some day)
    have din: "day \<in> set (rd_days db)" "dy_mailboxId day = m" using sql_one_Some [OF Some] by auto
    have ok: "day_ok db day" by (rule ramp_invD(4) [OF inv din(1)])
    have min: "m \<in> rw_mailboxId ` set (rd_ramps db)" using sql_one_Some [OF r(1)] by blast
    define failure where "failure = close_failure ramp day date h (unsettled_on db m date)"
    define verdict :: "SendDay \<Rightarrow> SendDay" where "verdict = (\<lambda>d. d\<lparr> dy_healthy := Some (failure = None), dy_closedAt := Some now \<rparr>)"
    show ?thesis
    proof (cases "dy_closedAt day")
      case (Some t)
      then show ?thesis using inv \<open>sql_one (day_at m date) (rd_days db) = Some day\<close>
        by (simp add: closeSendDay_def Let_def db_def [symmetric])
    next
      case None
      then have op: "dy_healthy day = None" "\<not> dy_recoveryCredited day"
        using ok by (auto simp: day_ok_def verdict_ok_def)
      then have not: "\<not> earned day" "\<not> credited day" by (simp_all add: earned_def credited_def)
      have vok: "day_ok db (verdict day)"
        using ok op min din by (simp add: day_ok_def verdict_ok_def verdict_def)
      note unfold = closeSendDay_def Let_def db_def [symmetric] ramp_def [symmetric] failure_def [symmetric]
      consider (bad) f where "failure = Some f" | (rec) v where "failure = None" "active_recovery ramp = Some v"
        | (adv) "failure = None" "active_recovery ramp = None" by (cases failure; cases "active_recovery ramp") auto
      then show ?thesis
      proof cases
        case bad
        then have "ramp_inv (update_day m date verdict db)"
          using vok not by (intro inv_change [OF inv Some, of _ verdict "\<lambda>r. r" "\<lambda>e. e"])
            (simp_all add: update_day_def verdict_def day_key_def earned_def credited_def)
        then show ?thesis
          using bad by (simp add: unfold Some None verdict_def harmless_ramp)
      next
        case rec
        then have ep: "dy_recoveryEpochId day = Some (sr_epochId v)"
          using close_failure_None(1) [of ramp day date h] unfolding failure_def
          by (auto simp: active_recovery_def split: option.splits if_splits)
        have "ramp_inv (update_day m date (\<lambda>d. d\<lparr> dy_recoveryCredited := True \<rparr>)
            (update_epoch (Some (sr_epochId v)) (qualify_epoch date) (update_day m date verdict db)))"
          using vok not ep rec(1)
          by (intro inv_change [OF inv Some, of _ "\<lambda>d. (verdict d)\<lparr> dy_recoveryCredited := True \<rparr>" "\<lambda>r. r" "qualify_epoch date"])
            (auto simp: update_day_def update_epoch_def verdict_def day_key_def earned_def credited_def qualify_epoch_def
              day_ok_def verdict_ok_def sql_update_def)
        then show ?thesis using rec by (simp add: unfold Some None verdict_def)
      next
        case adv
        then have hit: "case rw_lastAdvancedOn r of None \<Rightarrow> True | Some l \<Rightarrow> l < date"
          using close_failure_None(2) [of ramp day date h] r(2) unfolding failure_def by auto
        define change :: "SendRampRow \<Rightarrow> SendRampRow" where "change = (\<lambda>r. r\<lparr> rw_healthySendingDays := rw_healthySendingDays r + 1,
          rw_lastAdvancedOn := Some date, rw_lastHealthFailure := None \<rparr>)"
        have one: "s = r" if "s \<in> set (rd_ramps db)" "rw_mailboxId s = m" for s
          by (rule ramp_unique [OF inv r(1) that])
        have "rd_ramps (fst (advance_ramp m date (update_day m date verdict db))) = sql_update (ramp_of m) change (rd_ramps db)"
          using one hit by (auto simp: advance_ramp_def Let_def update_day_def sql_update_def change_def)
        then have "ramp_inv (fst (advance_ramp m date (update_day m date verdict db)))"
          using vok not op adv(1)
          by (intro inv_change [OF inv Some, of _ verdict change "\<lambda>e. e"])
            (auto simp: advance_ramp_def Let_def update_day_def verdict_def day_key_def earned_def credited_def change_def)
        then show ?thesis using adv by (simp add: unfold Some None verdict_def)
      qed
    qed
  qed
qed


section \<open>All runs\<close>

text \<open>One call of one function of the file, or a change of the fences, mailboxes and direct
  sends by the rest of the system.\<close>
inductive ramp_step :: "RampDb \<Rightarrow> RampDb \<Rightarrow> bool" where
  ensure: "fresh \<notin> ep_id ` set (rd_epochs db) \<Longrightarrow> ramp_step db (fst (ensureRamp zone_day now fresh m db))"
| close: "fresh \<notin> ep_id ` set (rd_epochs db) \<Longrightarrow> ramp_step db (fst (closeSendDay zone_day now fresh m date h db))"
| caps: "fresh \<notin> ep_id ` set (rd_epochs db) \<Longrightarrow> ramp_step db (fst (setAdminCap zone_day now fresh m admin lowerTo raiseTo db))"
| override: "fresh \<notin> ep_id ` set (rd_epochs db) \<Longrightarrow> ramp_step db (fst (overrideRaise zone_day now fresh m admin raised db))"
| open_day: "ramp_step db (openSendDay m date cap db)"
| count: "ramp_step db (fst (countAutomatedSend m date cap db))"
| signal: "ramp_step db (recordDaySignal m date s db)"
| bounce: "fresh \<notin> ep_id ` set (rd_epochs db) \<Longrightarrow> ramp_step db (fst (recordBounceAgainstDay zone_day now fresh m date db))"
| world: "rd_ramps db' = rd_ramps db \<Longrightarrow> rd_days db' = rd_days db \<Longrightarrow> rd_epochs db' = rd_epochs db \<Longrightarrow> ramp_step db db'"

lemma ramp_step_inv: "ramp_step db db' \<Longrightarrow> ramp_inv db \<Longrightarrow> ramp_inv db'"
  by (induction rule: ramp_step.induct)
    (auto intro: ensure_inv close_inv caps_inv open_inv count_inv signal_inv bounce_inv ramp_inv_tables)

lemma ramp_steps_inv: "ramp_step\<^sup>*\<^sup>* db db' \<Longrightarrow> ramp_inv db \<Longrightarrow> ramp_inv db'"
  by (induction rule: rtranclp_induct) (auto intro: ramp_step_inv)

lemma ramp_inv_empty: "rd_ramps db = [] \<Longrightarrow> rd_days db = [] \<Longrightarrow> rd_epochs db = [] \<Longrightarrow> ramp_inv db"
  by (simp add: ramp_inv_def)

end
