(* ===== verification/RampProperties.thy ===== *)
theory RampProperties
  imports RampInvariant
begin

text \<open>What \<open>outbound/ramp.ts\<close> promises of a mailbox's daily cap.\<close>

section \<open>The cap\<close>

lemma scheduledCap_values: "scheduledCap d \<in> {5, 10, 15, 25, 35, 50}"
  by (simp add: scheduledCap_def RAMP_SCHEDULE_def RAMP_SETTLED_CAP_def)

lemma scheduledCap_mono: "d \<le> e \<Longrightarrow> scheduledCap d \<le> scheduledCap e"
  by (simp add: scheduledCap_def RAMP_SCHEDULE_def RAMP_SETTLED_CAP_def)

text \<open>The cap in force is bounded by every limit at once.  It lies between 0 and the
  hard ceiling of 100; an admin's lowering bounds it; without a raise the schedule bounds
  it, and is the cap when nothing else applies; during a recovery the stage's cap and the
  schedule bound it, also for a raised mailbox.\<close>
theorem effectiveDailyCap_bounds:
  "0 \<le> effectiveDailyCap ramp \<and> effectiveDailyCap ramp \<le> 100 \<and>
   (\<forall>c. rr_adminDailyCap ramp = Some c \<and> 0 \<le> c \<longrightarrow> effectiveDailyCap ramp \<le> c) \<and>
   (rr_raisedDailyCap ramp = None \<longrightarrow> effectiveDailyCap ramp \<le> scheduledCap (rr_healthySendingDays ramp)) \<and>
   (\<forall>r. active_recovery ramp = Some r \<and> 0 \<le> sr_stageCap r \<longrightarrow>
      effectiveDailyCap ramp \<le> min (sr_stageCap r) (scheduledCap (rr_healthySendingDays ramp))) \<and>
   (rr_raisedDailyCap ramp = None \<and> rr_adminDailyCap ramp = None \<and> active_recovery ramp = None \<longrightarrow>
      effectiveDailyCap ramp = scheduledCap (rr_healthySendingDays ramp))"
proof -
  have "5 \<le> scheduledCap (rr_healthySendingDays ramp)" "scheduledCap (rr_healthySendingDays ramp) \<le> 50"
    using scheduledCap_values [of "rr_healthySendingDays ramp"] by auto
  then show ?thesis
    by (cases "rr_raisedDailyCap ramp"; cases "rr_adminDailyCap ramp"; cases "active_recovery ramp")
      (simp_all add: effectiveDailyCap_def Let_def RAMP_HARD_CEILING_def min_le_iff_disj max_def)
qed

definition ramp30 :: RampRow where
  "ramp30 = \<lparr> rr_mailboxId = ''m1'', rr_healthySendingDays = 30, rr_lastAdvancedOn = None, rr_adminDailyCap = Some 7,
     rr_raisedDailyCap = Some 75, rr_lastHealthFailure = None, rr_recovery = None \<rparr>"

theorem effectiveDailyCap_bounds_witness: "effectiveDailyCap ramp30 \<le> 7 \<and> effectiveDailyCap ramp30 = 7"
proof -
  have "effectiveDailyCap ramp30 = 7" by code_simp
  then show ?thesis using effectiveDailyCap_bounds [of ramp30] by (auto simp: ramp30_def)
qed

text \<open>A day advances the ramp only if it was used and clean.  The verdict of a day is
  free of failures exactly when authentication passes, the coverage is healthy, there was no
  provider warning or error, no bounce and no opt-out, and the mailbox sent at least once
  and at least four fifths of the stage's cap.\<close>
theorem rampAdvancement_clean_day:
  "rampAdvancementFailure s cap = None \<longleftrightarrow>
     hs_authenticationPasses s \<and> hs_coverageHealthy s \<and> \<not> hs_providerWarning s \<and> hs_providerErrors s = 0 \<and>
     hs_bounces s = 0 \<and> hs_optOuts s = 0 \<and> hs_automatedSent s > 0 \<and> 4 * cap \<le> 5 * int (hs_automatedSent s)"
proof -
  have "x < required_volume cap \<longleftrightarrow> 5 * x < 4 * cap" for x :: int
    unfolding required_volume_def by presburger
  then show ?thesis
    by (auto simp: rampAdvancementFailure_def rampHealthFailure_def RAMP_RATE_FLOOR_def RAMP_SMALL_DAY_TOLERANCE_def
        split: option.split)
qed

section \<open>The account\<close>

text \<open>C24: The ramp is an account of its days.  From tables without ramps, days and epochs,
  after every sequence of calls and whatever happens to the fences meanwhile, a mailbox's
  healthy sending days are exactly its closed days with a healthy verdict that was not
  credited to a recovery: no day counts twice, and a verdict taken back takes its day back.
  A recovery's qualifying days are the healthy days credited to its epoch.\<close>
theorem ramp_counts_healthy_days:
  assumes "rd_ramps db = []" "rd_days db = []" "rd_epochs db = []" "ramp_step\<^sup>*\<^sup>* db db'"
  shows "(\<forall>r\<in>set (rd_ramps db'). rw_healthySendingDays r =
       sql_count (\<lambda>d. dy_mailboxId d = rw_mailboxId r \<and> dy_healthy d = Some True \<and> \<not> dy_recoveryCredited d) (rd_days db')) \<and>
     (\<forall>e\<in>set (rd_epochs db'). ep_qualifyingDays e =
       sql_count (\<lambda>d. dy_recoveryEpochId d = Some (ep_id e) \<and> dy_healthy d = Some True \<and> dy_recoveryCredited d) (rd_days db')) \<and>
     distinct (map rw_mailboxId (rd_ramps db')) \<and> distinct (map day_key (rd_days db'))"
  using ramp_steps_inv [OF assms(4) ramp_inv_empty [OF assms(1-3)]]
  unfolding ramp_inv_def earned_def credited_def by blast

text \<open>A mailbox created on day 100; its first day is opened, has four sends and is closed.\<close>
definition ramp_db0 :: RampDb where
  "ramp_db0 = \<lparr> rd_fences = [], rd_ramps = [], rd_days = [], rd_epochs = [],
     rd_mailboxes = [(''m1'', 8640000000)], rd_directSends = [] \<rparr>"

definition zone0 :: "instant \<Rightarrow> bdate" where
  "zone0 t = t div 86400000"

definition healthy0 :: SendDayHealth where
  "healthy0 = \<lparr> sh_authenticationPasses = True, sh_coverageHealthy = True, sh_providerWarning = False \<rparr>"

definition ramp_db1 :: RampDb where
  "ramp_db1 = (let once = (\<lambda>d. fst (countAutomatedSend ''m1'' 100 5 d)) in
     once (once (once (once (openSendDay ''m1'' 100 5 ramp_db0)))))"

definition ramp_db2 :: RampDb where
  "ramp_db2 = fst (closeSendDay zone0 8700000000 ''e1'' ''m1'' 100 healthy0 ramp_db1)"

lemma ramp_db1_steps: "ramp_step\<^sup>*\<^sup>* ramp_db0 ramp_db1"
  unfolding ramp_db1_def Let_def
  by (rule rtranclp.rtrancl_into_rtrancl [where r = ramp_step], rule rtranclp.rtrancl_into_rtrancl [where r = ramp_step],
      rule rtranclp.rtrancl_into_rtrancl [where r = ramp_step], rule rtranclp.rtrancl_into_rtrancl [where r = ramp_step],
      rule r_into_rtranclp, rule ramp_step.open_day) (rule ramp_step.count)+

lemma ramp_db2_steps: "ramp_step\<^sup>*\<^sup>* ramp_db0 ramp_db2"
  unfolding ramp_db2_def
  by (rule rtranclp.rtrancl_into_rtrancl [where r = ramp_step, OF ramp_db1_steps], rule ramp_step.close) code_simp

lemma ramp_db2_row: "map rw_healthySendingDays (rd_ramps ramp_db2) = [1]"
  by code_simp

theorem ramp_counts_healthy_days_witness:
  "\<exists>r\<in>set (rd_ramps ramp_db2). rw_healthySendingDays r = 1 \<and>
     sql_count (\<lambda>d. dy_mailboxId d = rw_mailboxId r \<and> dy_healthy d = Some True \<and> \<not> dy_recoveryCredited d) (rd_days ramp_db2) = 1"
proof -
  obtain r where r: "rd_ramps ramp_db2 = [r]" "rw_healthySendingDays r = 1" using ramp_db2_row by auto
  then show ?thesis
    using ramp_counts_healthy_days [OF _ _ _ ramp_db2_steps] by (simp add: ramp_db0_def)
qed


section \<open>A verdict is final\<close>

text \<open>The day is closed, and healthy only if it was healthy before.\<close>
definition closed_verdict :: "uuid \<Rightarrow> bdate \<Rightarrow> bool \<Rightarrow> RampDb \<Rightarrow> bool" where
  "closed_verdict m date was db \<longleftrightarrow> (\<exists>d. sql_one (day_at m date) (rd_days db) = Some d \<and> dy_closedAt d \<noteq> None \<and>
     (dy_healthy d = Some True \<longrightarrow> was))"

lemma closed_verdict_same_days: "rd_days db' = rd_days db \<Longrightarrow> closed_verdict m date was db' = closed_verdict m date was db"
  by (simp add: closed_verdict_def)

lemma closed_verdict_update:
  assumes "closed_verdict m date was db" "\<And>d. day_key (g d) = day_key d"
    and "\<And>d. sql_one (day_at m' date') (rd_days db) = Some d \<Longrightarrow> dy_closedAt d \<noteq> None \<Longrightarrow>
      dy_closedAt (g d) \<noteq> None \<and> (dy_healthy (g d) = Some True \<longrightarrow> dy_healthy d = Some True)"
  shows "closed_verdict m date was (update_day m' date' g db)"
proof -
  obtain d where d: "sql_one (day_at m date) (rd_days db) = Some d" "dy_closedAt d \<noteq> None" "dy_healthy d = Some True \<longrightarrow> was"
    using assms(1) by (auto simp: closed_verdict_def)
  have "sql_one (\<lambda>x. day_key x = (m, date)) (sql_update (\<lambda>x. day_key x = (m', date')) g (rd_days db)) =
      Some (if day_key d = (m', date') then g d else d)"
    using sql_one_update_same [of "\<lambda>x. day_key x = (m', date')" day_key g "(m, date)" "rd_days db"] assms(2) d(1)
    by (simp add: day_at_key [symmetric])
  moreover have "sql_one (day_at m' date') (rd_days db) = Some d" if "day_key d = (m', date')"
    using that d(1) sql_one_Some [OF d(1)] by (auto simp: day_key_def)
  ultimately show ?thesis
    using assms(3) d by (auto simp: closed_verdict_def update_day_def day_at_key split: if_splits)
qed

lemma closed_verdict_frame [simp]:
  "closed_verdict m date was (update_ramp k h db) = closed_verdict m date was db"
  "closed_verdict m date was (update_epoch k' w db) = closed_verdict m date was db"
  "closed_verdict m date was (fst (ensureRamp zone_day now fresh k db)) = closed_verdict m date was db"
  "closed_verdict m date was (fst (advance_ramp k d db)) = closed_verdict m date was db"
  by (rule closed_verdict_same_days; simp add: update_ramp_def update_epoch_def advance_ramp_def Let_def)+

lemma closed_open: "closed_verdict m date was db \<Longrightarrow> closed_verdict m date was (openSendDay m' date' cap db)"
proof (cases "sql_one (day_at m' date') (rd_days db)")
  case None
  assume "closed_verdict m date was db"
  then show ?thesis using None by (auto simp: openSendDay_def Let_def closed_verdict_def sql_one_append)
qed (auto simp: openSendDay_def day_key_def intro: closed_verdict_update)

lemma closed_count: "closed_verdict m date was db \<Longrightarrow> closed_verdict m date was (fst (countAutomatedSend m' date' cap db))"
proof -
  assume "closed_verdict m date was db"
  moreover have "fst (countAutomatedSend m' date' cap db) = update_day m' date'
      (\<lambda>d. if int (dy_automatedSent d) < cap then d\<lparr> dy_automatedSent := dy_automatedSent d + 1 \<rparr> else d) db"
    by (auto simp: countAutomatedSend_def update_day_def sql_update_def Let_def)
  ultimately show ?thesis by (simp only:) (rule closed_verdict_update, assumption, simp_all add: day_key_def)
qed

lemma closed_signal: "closed_verdict m date was db \<Longrightarrow> closed_verdict m date was (recordDaySignal m' date' s db)"
proof (cases "sql_one (day_at m' date') (rd_days db)")
  case (Some x)
  assume c: "closed_verdict m date was db"
  have "closed_verdict m date was (update_day m' date'
      (\<lambda>d. (bump s d)\<lparr> dy_healthy := (if day_counted x then Some False else dy_healthy x) \<rparr>) db)"
    by (rule closed_verdict_update [OF c]) (cases s; use Some in \<open>auto simp: day_key_def\<close>)+
  then show ?thesis by (cases "day_counted x") (simp_all add: recordDaySignal_def Some Let_def)
qed (simp add: recordDaySignal_def)

lemma closed_bounce: "closed_verdict m date was db \<Longrightarrow> closed_verdict m date was (fst (recordBounceAgainstDay z now fresh m' date' db))"
proof -
  assume c: "closed_verdict m date was db"
  define e where "e = update_day m' date' (bump Signal_bounce) (fst (ensureRamp z now fresh m' db))"
  have b: "closed_verdict m date was e"
    unfolding e_def by (rule closed_verdict_update) (simp_all add: c day_key_def)
  moreover have "closed_verdict m date was (fst (revokeDayAdvancement m' date' failure e))" for failure
    using closed_verdict_update [OF b, of "\<lambda>d. d\<lparr> dy_healthy := Some False \<rparr>" m' date']
    by (simp add: revokeDayAdvancement_def Let_def day_key_def b split: option.split)
  ultimately show ?thesis
    unfolding recordBounceAgainstDay_def Let_def e_def [symmetric] by (simp split: option.split)
qed

lemma closed_close: "closed_verdict m date was db \<Longrightarrow> closed_verdict m date was (fst (closeSendDay z now fresh m' date' h db))"
proof -
  assume c: "closed_verdict m date was db"
  define e where "e = fst (ensureRamp z now fresh m' db)"
  have ce: "closed_verdict m date was e" by (simp add: e_def c)
  show ?thesis
  proof (cases "sql_one (day_at m' date') (rd_days e)")
    case None
    then show ?thesis using ce by (simp add: closeSendDay_def Let_def e_def [symmetric])
  next
    case (Some day)
    show ?thesis
    proof (cases "dy_closedAt day")
      case None
      have v: "closed_verdict m date was (update_day m' date' (\<lambda>d. d\<lparr> dy_healthy := v, dy_closedAt := Some now \<rparr>) e)" for v
        by (rule closed_verdict_update [OF ce]) (use Some None in \<open>auto simp: day_key_def\<close>)
      have w: "closed_verdict m date was (update_day m' date' (\<lambda>d. d\<lparr> dy_recoveryCredited := True \<rparr>) f)"
        if "closed_verdict m date was f" for f
        by (rule closed_verdict_update [OF that]) (auto simp: day_key_def)
      show ?thesis
        unfolding closeSendDay_def Let_def e_def [symmetric] by (simp add: Some None v w split: option.split)
    qed (use ce Some in \<open>simp add: closeSendDay_def Let_def e_def [symmetric]\<close>)
  qed
qed

lemma closed_step: "ramp_step db db' \<Longrightarrow> closed_verdict m date was db \<Longrightarrow> closed_verdict m date was db'"
proof (induction rule: ramp_step.induct)
  case (caps fresh db zone_day now m admin lowerTo raiseTo)
  then show ?case by (simp add: setAdminCap_def Let_def split: option.split)
next
  case (override fresh db zone_day now m admin raised)
  then show ?case by (simp add: overrideRaise_def Let_def split: option.split)
next
  case (world db' db)
  then show ?case using closed_verdict_same_days by blast
qed (simp_all add: closed_close closed_open closed_count closed_signal closed_bounce)

lemma closed_steps: "ramp_step\<^sup>*\<^sup>* db db' \<Longrightarrow> closed_verdict m date was db \<Longrightarrow> closed_verdict m date was db'"
  by (induction rule: rtranclp_induct) (auto intro: closed_step)


lemma close_closes:
  assumes "closeSendDay z now fresh m date h db = (db', Some out)"
  shows "closed_verdict m date (cd_healthy out) db'"
proof -
  define e where "e = fst (ensureRamp z now fresh m db)"
  obtain day where day: "sql_one (day_at m date) (rd_days e) = Some day"
    using assms by (auto simp: closeSendDay_def Let_def e_def [symmetric] split: option.splits)
  show ?thesis
  proof (cases "dy_closedAt day")
    case None
    define db1 where "db1 = (\<lambda>ok. update_day m date (\<lambda>d. d\<lparr> dy_healthy := Some ok, dy_closedAt := Some now \<rparr>) e)"
    have "sql_one (day_at m date) (rd_days (db1 ok)) = Some (day\<lparr> dy_healthy := Some ok, dy_closedAt := Some now \<rparr>)" for ok
      using sql_one_update_same [of "\<lambda>x. day_key x = (m, date)" day_key
          "\<lambda>d. d\<lparr> dy_healthy := Some ok, dy_closedAt := Some now \<rparr>" "(m, date)" "rd_days e"] day sql_one_Some [OF day]
      by (simp add: day_at_key [symmetric] db1_def update_day_def day_key_def)
    then have c: "closed_verdict m date ok (db1 ok)" for ok by (simp add: closed_verdict_def)
    have w: "closed_verdict m date was (update_day m date (\<lambda>d. d\<lparr> dy_recoveryCredited := True \<rparr>) f)"
      if "closed_verdict m date was f" for was f
      by (rule closed_verdict_update [OF that]) (auto simp: day_key_def)
    show ?thesis
      using assms c w unfolding closeSendDay_def Let_def e_def [symmetric]
      by (auto simp: day None db1_def split: if_splits option.splits)
  qed (use assms day in \<open>auto simp: closeSendDay_def Let_def e_def [symmetric] closed_verdict_def split: if_splits\<close>)
qed

text \<open>A day is judged once.  After a day is closed, whatever happens later, closing it
  again advances nothing and leaves the mailbox's ramp and its epochs as they were, and the
  verdict it reports is healthy only if the first one was: a late bounce or signal can take
  a healthy verdict back, nothing can restore it.\<close>
theorem closeSendDay_final:
  assumes "closeSendDay z now fresh m date h db = (db1, Some first)" "ramp_step\<^sup>*\<^sup>* db1 db2"
  shows "\<exists>again. closeSendDay z' now' fresh' m date h' db2 = (fst (ensureRamp z' now' fresh' m db2), Some again) \<and>
    \<not> cd_advanced again \<and> (cd_healthy again \<longrightarrow> cd_healthy first)"
proof -
  have "closed_verdict m date (cd_healthy first) (fst (ensureRamp z' now' fresh' m db2))"
    using closed_steps [OF assms(2) close_closes [OF assms(1)]] by simp
  then show ?thesis by (auto simp: closed_verdict_def closeSendDay_def Let_def)
qed

theorem closeSendDay_final_witness:
  "\<exists>again. snd (closeSendDay zone0 8800000000 ''e2'' ''m1'' 100 healthy0 ramp_db2) = Some again \<and> \<not> cd_advanced again"
proof -
  have "snd (closeSendDay zone0 8700000000 ''e1'' ''m1'' 100 healthy0 ramp_db1) =
      Some \<lparr> cd_healthy = True, cd_failure = None, cd_healthySendingDays = 1, cd_advanced = True \<rparr>" by code_simp
  then have "closeSendDay zone0 8700000000 ''e1'' ''m1'' 100 healthy0 ramp_db1 = (ramp_db2,
      Some \<lparr> cd_healthy = True, cd_failure = None, cd_healthySendingDays = 1, cd_advanced = True \<rparr>)"
    by (simp add: ramp_db2_def prod_eq_iff)
  from closeSendDay_final [OF this rtranclp.rtrancl_refl, of zone0 8800000000 "''e2''" healthy0] show ?thesis by auto
qed


section \<open>The daily count\<close>

text \<open>The count of one day's sends under one cap, \<open>n\<close> times.\<close>
fun count_sends :: "nat \<Rightarrow> uuid \<Rightarrow> bdate \<Rightarrow> int \<Rightarrow> RampDb \<Rightarrow> RampDb \<times> nat" where
  "count_sends 0 m date cap db = (db, 0)"
| "count_sends (Suc n) m date cap db =
     (let first = countAutomatedSend m date cap db; rest = count_sends n m date cap (fst first) in
      (fst rest, snd rest + (if snd first then 1 else 0)))"

lemma countAutomatedSend_read:
  assumes "sql_one (day_at m date) (rd_days db) = Some d" "distinct (map day_key (rd_days db))"
  shows "snd (countAutomatedSend m date cap db) \<longleftrightarrow> int (dy_automatedSent d) < cap"
    and "sql_one (day_at m date) (rd_days (fst (countAutomatedSend m date cap db))) =
      Some (if int (dy_automatedSent d) < cap then d\<lparr> dy_automatedSent := dy_automatedSent d + 1 \<rparr> else d)"
    and "map day_key (rd_days (fst (countAutomatedSend m date cap db))) = map day_key (rd_days db)"
proof -
  define hit where "hit = (\<lambda>x. day_at m date x \<and> int (dy_automatedSent x) < cap)"
  have d: "d \<in> set (rd_days db)" "day_at m date d" using sql_one_Some [OF assms(1)] by blast+
  have only: "x = d" if "x \<in> set (rd_days db)" "day_at m date x" for x
  proof -
    have "inj_on day_key (set (rd_days db))" using assms(2) by (simp add: distinct_map)
    then show ?thesis using inj_onD [of day_key _ x d] that d by (simp add: day_key_def)
  qed
  have "(\<exists>x\<in>set (rd_days db). hit x) = (int (dy_automatedSent d) < cap)"
    unfolding hit_def using d only by blast
  then have "(0 < sql_count hit (rd_days db)) = (int (dy_automatedSent d) < cap)"
    using sql_count_0 [of hit "rd_days db"] by (metis gr_zeroI less_irrefl)
  then show "snd (countAutomatedSend m date cap db) \<longleftrightarrow> int (dy_automatedSent d) < cap"
    by (simp add: countAutomatedSend_def Let_def hit_def)
  have "sql_one (\<lambda>x. day_key x = (m, date)) (sql_update hit (\<lambda>x. x\<lparr> dy_automatedSent := dy_automatedSent x + 1 \<rparr>) (rd_days db)) =
      map_option (\<lambda>r. if hit r then r\<lparr> dy_automatedSent := dy_automatedSent r + 1 \<rparr> else r) (sql_one (\<lambda>x. day_key x = (m, date)) (rd_days db))"
    by (rule sql_one_update_same) (simp add: day_key_def)
  then show "sql_one (day_at m date) (rd_days (fst (countAutomatedSend m date cap db))) =
      Some (if int (dy_automatedSent d) < cap then d\<lparr> dy_automatedSent := dy_automatedSent d + 1 \<rparr> else d)"
    using assms(1) d(2) by (simp add: countAutomatedSend_def Let_def hit_def day_key_def)
  show "map day_key (rd_days (fst (countAutomatedSend m date cap db))) = map day_key (rd_days db)"
    by (simp add: countAutomatedSend_def Let_def sql_update_def day_key_def)
qed

text \<open>C1: The cap holds under any number of attempts.  On a day that has \<open>s\<close> sends, of \<open>n\<close>
  attempts to count one under the cap exactly the first \<open>cap - s\<close> are admitted; the count
  ends at the cap or at \<open>s + n\<close>, and never passes the cap.\<close>
theorem count_sends_admits_cap:
  assumes "sql_one (day_at m date) (rd_days db) = Some d" "distinct (map day_key (rd_days db))"
  shows "snd (count_sends n m date cap db) = min n (nat (cap - int (dy_automatedSent d))) \<and>
    (\<exists>d'. sql_one (day_at m date) (rd_days (fst (count_sends n m date cap db))) = Some d' \<and>
       dy_automatedSent d' = dy_automatedSent d + min n (nat (cap - int (dy_automatedSent d))))"
  using assms
proof (induction n arbitrary: db d)
  case (Suc n)
  note r = countAutomatedSend_read [OF Suc.prems, of cap]
  show ?case
    using Suc.IH [OF r(2)] r(1) r(3) Suc.prems(2)
    by (cases "int (dy_automatedSent d) < cap") (auto simp: Let_def split: if_splits)
qed simp

theorem count_sends_admits_cap_witness:
  "snd (count_sends 7 ''m1'' 100 5 (openSendDay ''m1'' 100 5 ramp_db0)) = 5"
proof -
  obtain d where d: "sql_one (day_at ''m1'' 100) (rd_days (openSendDay ''m1'' 100 5 ramp_db0)) = Some d" "dy_automatedSent d = 0"
    by (simp add: openSendDay_def ramp_db0_def readRecovery_def Let_def)
  have "distinct (map day_key (rd_days (openSendDay ''m1'' 100 5 ramp_db0)))"
    by (simp add: openSendDay_def ramp_db0_def readRecovery_def Let_def)
  from count_sends_admits_cap [OF d(1) this, of 7 5] show ?thesis by (simp add: d(2))
qed

section \<open>The admin's caps\<close>

text \<open>An admin's change does what was asked and no more.  An accepted change writes the
  fields that were given and keeps those that were absent; a raise it writes is between 1
  and 75 and was earned by thirty healthy days and a clean streak of ten; a lowering is
  between 0 and 100.  Clearing both fields is never refused for health.\<close>
theorem setAdminCap_earned:
  assumes "setAdminCap z now fresh m admin lowerTo raiseTo db = (db', Inr (ramp, cap))"
  shows "\<exists>r. sql_one (ramp_of m) (rd_ramps (fst (ensureRamp z now fresh m db))) = Some r \<and>
    rr_adminDailyCap ramp = (case lowerTo of None \<Rightarrow> rw_adminDailyCap r | Some v \<Rightarrow> v) \<and>
    rr_raisedDailyCap ramp = (case raiseTo of None \<Rightarrow> rw_raisedDailyCap r | Some v \<Rightarrow> v) \<and>
    rr_healthySendingDays ramp = rw_healthySendingDays r \<and>
    (\<forall>c. raiseTo = Some (Some c) \<longrightarrow> 1 \<le> c \<and> c \<le> 75 \<and> 30 \<le> rw_healthySendingDays r \<and>
       10 \<le> readHealthyStreak (fst (ensureRamp z now fresh m db)) m 10) \<and>
    (\<forall>c. lowerTo = Some (Some c) \<longrightarrow> 0 \<le> c \<and> c \<le> 100) \<and> cap = effectiveDailyCap ramp"
proof -
  obtain r where r: "sql_one (ramp_of m) (rd_ramps (fst (ensureRamp z now fresh m db))) = Some r"
    using ensured_ramp [of m z now fresh db] by blast
  then show ?thesis
    using assms
    by (auto simp: setAdminCap_def Let_def above_def below_def or_null_def toRamp_def store_caps_def raiseRefusal_def
        RAMP_ADMIN_RAISE_LIMIT_def RAMP_HARD_CEILING_def RAMP_SETTLED_DAY_def RAMP_SCHEDULE_def RAMP_RAISE_HEALTHY_STREAK_def
        split: if_splits option.splits)
qed

theorem setAdminCap_earned_witness:
  "\<exists>db' ramp cap. setAdminCap zone0 8700000000 ''e1'' ''m1'' ''u1'' (Some (Some 3)) None ramp_db2 = (db', Inr (ramp, cap)) \<and>
     rr_adminDailyCap ramp = Some 3 \<and> rr_raisedDailyCap ramp = None \<and> cap = 3"
proof -
  have v: "(case snd (setAdminCap zone0 8700000000 ''e1'' ''m1'' ''u1'' (Some (Some 3)) None ramp_db2) of Inl _ \<Rightarrow> False
    | Inr (ramp, cap) \<Rightarrow> rr_raisedDailyCap ramp = None \<and> cap = 3)" by code_simp
  obtain db' ramp cap where s: "setAdminCap zone0 8700000000 ''e1'' ''m1'' ''u1'' (Some (Some 3)) None ramp_db2 = (db', Inr (ramp, cap))"
    using v by (cases "setAdminCap zone0 8700000000 ''e1'' ''m1'' ''u1'' (Some (Some 3)) None ramp_db2") (auto split: sum.splits)
  show ?thesis using setAdminCap_earned [OF s] v s by auto
qed

section \<open>Recovery after inactivity\<close>

lemma activity_at_cong:
  "rd_fences d = rd_fences db \<Longrightarrow> rd_mailboxes d = rd_mailboxes db \<Longrightarrow> rd_directSends d = rd_directSends db \<Longrightarrow>
   activity_at d m = activity_at db m"
proof -
  assume a: "rd_fences d = rd_fences db" "rd_mailboxes d = rd_mailboxes db" "rd_directSends d = rd_directSends db"
  then have "observed_activity d m = observed_activity db m" by (simp add: observed_activity_def sent_instants_def)
  then show ?thesis unfolding activity_at_def a(2) by (simp cong: option.case_cong)
qed

text \<open>Inactivity puts a mailbox back to the first stage.  When fourteen local days have
  passed since the mailbox's last activity, and no epoch stands for that activity or a later
  one, ensuring its ramp opens an epoch, and the cap in force is at most 5 whatever was
  earned or raised; the earned days stay as they were.\<close>
theorem inactive_mailbox_restarts:
  assumes "activity_at db m = Some t" "zone_day now - zone_day t \<ge> 14" "ramp_inv db"
    and "\<And>e. e \<in> set (rd_epochs db) \<Longrightarrow> ep_mailboxId e = m \<Longrightarrow> ep_activityAt e < t"
    and "\<And>e. e \<in> set (rd_epochs db) \<Longrightarrow> ep_id e \<noteq> fresh"
    and "\<And>r e. r \<in> set (rd_ramps db) \<Longrightarrow> e \<in> set (rd_epochs db) \<Longrightarrow> rw_recoveryEpochId r = Some (ep_id e) \<Longrightarrow>
      ep_mailboxId e = rw_mailboxId r"
  shows "effectiveDailyCap (snd (ensureRamp zone_day now fresh m db)) \<le> 5 \<and>
    (\<forall>r. sql_one (ramp_of m) (rd_ramps db) = Some r \<longrightarrow>
       rr_healthySendingDays (snd (ensureRamp zone_day now fresh m db)) = rw_healthySendingDays r)"
proof -
  define upserted where "upserted = (case sql_one (ramp_of m) (rd_ramps db) of
     Some r \<Rightarrow> (db, r) | None \<Rightarrow> (db\<lparr> rd_ramps := rd_ramps db @ [new_ramp m] \<rparr>, new_ramp m))"
  define d where "d = fst upserted"
  define row where "row = snd upserted"
  have row: "sql_one (ramp_of m) (rd_ramps d) = Some row"
    by (auto simp: d_def row_def upserted_def sql_one_append new_ramp_def split: option.split)
  have d: "rd_epochs d = rd_epochs db" "activity_at d m = Some t"
    using assms(1) activity_at_cong [of d db m] by (auto simp: d_def upserted_def split: option.split)
  have free: "\<not> list_ex (\<lambda>e. Some (ep_id e) = rw_recoveryEpochId row \<and> ep_activityAt e \<ge> t) (rd_epochs db)"
    unfolding list_ex_iff
  proof
    assume "\<exists>e\<in>set (rd_epochs db). Some (ep_id e) = rw_recoveryEpochId row \<and> t \<le> ep_activityAt e"
    then obtain e where e: "e \<in> set (rd_epochs db)" "rw_recoveryEpochId row = Some (ep_id e)" "t \<le> ep_activityAt e" by metis
    have "row \<in> set (rd_ramps db) \<and> rw_mailboxId row = m"
      using e(2) by (auto simp: row_def upserted_def new_ramp_def split: option.splits dest: sql_one_Some)
    then show False using assms(4) [OF e(1)] assms(6) [OF _ e(1,2)] e(3) by fastforce
  qed
  have none: "sql_one (\<lambda>e. ep_mailboxId e = m \<and> ep_activityAt e = t) (rd_epochs db) = None"
    unfolding sql_one_None using assms(4) by fastforce
  define c where "c = scheduledCap (rw_healthySendingDays row)"
  define epoch where "epoch = \<lparr> ep_id = fresh, ep_mailboxId = m, ep_activityAt = t, ep_startedOn = zone_day now, ep_earnedCap = c,
     ep_qualifyingDays = 0, ep_lastQualifiedOn = None, ep_stageStartedOn = zone_day now \<rparr>"
  define d' where "d' = assessInactivity zone_day now fresh m c d"
  have d': "d' = update_ramp m (\<lambda>r. r\<lparr> rw_recoveryEpochId := Some fresh \<rparr>) (d\<lparr> rd_epochs := rd_epochs d @ [epoch] \<rparr>)"
    using assms(2) free none by (simp add: d'_def assessInactivity_def row d epoch_def)
  have fresh: "sql_one (\<lambda>e. ep_id e = fresh) (rd_epochs db) = None" unfolding sql_one_None using assms(5) by blast
  have "readRecovery d' m = Some (recovery_of_epoch epoch)"
    using row fresh sql_one_Some [OF row] by (simp add: d' readRecovery_def update_ramp_def sql_one_update_same d sql_one_append epoch_def)
  moreover have "sr_active (recovery_of_epoch epoch)" "sr_stageCap (recovery_of_epoch epoch) \<le> 5"
    by (simp_all add: recovery_of_epoch_def Let_def epoch_def recoveryStageCap_def recoveryStageIndex_def STAGES_def)
  ultimately have "effectiveDailyCap (toRamp row (readRecovery d' m)) \<le> 5"
    by (auto simp: effectiveDailyCap_def Let_def active_recovery_def toRamp_def)
  moreover have "snd (ensureRamp zone_day now fresh m db) = toRamp row (readRecovery d' m)"
    by (simp add: ensureRamp_def Let_def upserted_def [symmetric] d_def row_def d'_def c_def)
  moreover have "rw_healthySendingDays row = rw_healthySendingDays r" if "sql_one (ramp_of m) (rd_ramps db) = Some r" for r
    using that by (simp add: row_def upserted_def)
  ultimately show ?thesis by (simp add: toRamp_def)
qed


text \<open>The mailbox of the example after its one sending day, fourteen days later, with a raise to 75.\<close>
theorem inactive_mailbox_restarts_witness:
  "\<exists>db. effectiveDailyCap (snd (ensureRamp zone0 (114 * 86400000) ''e9'' ''m1'' db)) \<le> 5 \<and>
     map rw_healthySendingDays (rd_ramps db) = [1] \<and> map rw_raisedDailyCap (rd_ramps db) = [Some 75]"
proof -
  define db where "db = update_ramp ''m1'' (\<lambda>r. r\<lparr> rw_raisedDailyCap := Some 75 \<rparr>) ramp_db2"
  have inv: "ramp_inv db"
    unfolding db_def by (rule harmless_ramp [OF ramp_steps_inv [OF ramp_db2_steps ramp_inv_empty]]) (simp_all add: ramp_db0_def)
  have rows: "rd_epochs ramp_db2 = []" "activity_at ramp_db2 ''m1'' = Some 8640000000" by code_simp+
  have ep: "rd_epochs db = []" "activity_at db ''m1'' = Some 8640000000"
    using rows activity_at_cong [of db ramp_db2 "''m1''"] by (simp_all add: db_def update_ramp_def)
  have "map rw_healthySendingDays (rd_ramps db) = [1]" "map rw_raisedDailyCap (rd_ramps db) = [Some 75]"
    unfolding db_def by code_simp+
  then show ?thesis
    using inactive_mailbox_restarts [OF ep(2) _ inv, of zone0 "114 * 86400000" "''e9''"] ep(1)
    by (intro exI [of _ db]) (simp add: zone0_def)
qed

end
