(* ===== verification/JobKinds.thy ===== *)
theory JobKinds
  imports LocalClock
begin

text \<open>
  \<open>packages/domain/jobs/jobKinds.ts\<close>: the kinds of the job queue, the protection and the
  lane of each, and the idempotency keys they are materialized by; and
  \<open>apps/worker/src/runner/slots.ts\<close>, which lanes a runner slot claims from.  The tables
  keyed by a kind are association lists in the source's order.
\<close>

section \<open>Kinds\<close>

datatype IdempotencyProtection = Business_uniqueness | Fencing_token | Outbound_fence

datatype JobClass = Urgent | Bulk

definition JOB_CLASSES :: "JobClass list" where
  "JOB_CLASSES = [Urgent, Bulk]"

definition JOB_KINDS :: "string list" where
  "JOB_KINDS = [
    ''meeting.booking_create'', ''meeting.booking_change'', ''meeting.booking_conversation'',
    ''booking.message_send'', ''crm.booking_interpretation'', ''crm.ask_answer'', ''crm.ask_index'',
    ''crm.commitments_project'', ''crm.commitments_intent'', ''crm.mail_progress'', ''crm.extract'',
    ''crm.capture_extraction'', ''sequence.action'', ''sequence.terminal_stop'', ''mail.sync'',
    ''crm.mail_capture'', ''crm.capture_read_recovery'', ''crm.capture_read_forward'',
    ''crm.mail_backfill'', ''crm.business_selection'', ''mail.reconcile'', ''mail.recover'',
    ''mail.watch_renew'', ''today.build'', ''suppression.finalize'', ''classify.reply'',
    ''retention.batch'', ''outbound.close_send_day'', ''canary'', ''route.validate'',
    ''sourcing.check'', ''sourcing.qualify'', ''sourcing.phone_discover'', ''outreach.reply'',
    ''reply.human_send'', ''outreach.email_admit'', ''outreach.person_enrich'', ''social.draft'',
    ''social.standing'', ''social.linkedin_recurring'', ''social.assets_cleanup'',
    ''sourcing.monitor'', ''sourcing.callable_rank'', ''sourcing.discover'', ''research.firm'',
    ''research.sweep'', ''telephony.sweep'', ''calcom.reconcile'', ''call.transcribe'',
    ''meeting.transcribe'', ''meeting.analyze'', ''meeting.follow_through'',
    ''meeting.recording_setup'', ''call.summarize'', ''call.analyze'', ''call.analyze_sweep'']"

definition JOB_KIND_PROTECTION :: "(string \<times> IdempotencyProtection) list" where
  "JOB_KIND_PROTECTION = [
    (''meeting.booking_create'', Outbound_fence), (''meeting.booking_change'', Outbound_fence),
    (''meeting.booking_conversation'', Outbound_fence), (''booking.message_send'', Outbound_fence),
    (''crm.booking_interpretation'', Outbound_fence), (''crm.ask_answer'', Outbound_fence),
    (''crm.ask_index'', Outbound_fence), (''crm.commitments_project'', Outbound_fence),
    (''crm.commitments_intent'', Outbound_fence), (''crm.mail_progress'', Outbound_fence),
    (''crm.extract'', Outbound_fence), (''crm.capture_extraction'', Outbound_fence),
    (''sequence.action'', Outbound_fence), (''sequence.terminal_stop'', Business_uniqueness),
    (''mail.sync'', Business_uniqueness), (''crm.mail_capture'', Outbound_fence),
    (''crm.capture_read_recovery'', Outbound_fence), (''crm.capture_read_forward'', Outbound_fence),
    (''crm.mail_backfill'', Outbound_fence), (''crm.business_selection'', Outbound_fence),
    (''mail.reconcile'', Outbound_fence), (''mail.recover'', Business_uniqueness),
    (''mail.watch_renew'', Fencing_token), (''today.build'', Business_uniqueness),
    (''suppression.finalize'', Business_uniqueness), (''classify.reply'', Business_uniqueness),
    (''retention.batch'', Business_uniqueness), (''outbound.close_send_day'', Business_uniqueness),
    (''canary'', Business_uniqueness), (''route.validate'', Business_uniqueness),
    (''sourcing.check'', Business_uniqueness), (''sourcing.qualify'', Outbound_fence),
    (''sourcing.phone_discover'', Outbound_fence), (''outreach.reply'', Outbound_fence),
    (''reply.human_send'', Outbound_fence), (''outreach.email_admit'', Outbound_fence),
    (''outreach.person_enrich'', Outbound_fence), (''social.draft'', Outbound_fence),
    (''social.standing'', Outbound_fence), (''social.linkedin_recurring'', Outbound_fence),
    (''social.assets_cleanup'', Business_uniqueness), (''sourcing.discover'', Outbound_fence),
    (''sourcing.monitor'', Business_uniqueness), (''sourcing.callable_rank'', Business_uniqueness),
    (''research.firm'', Business_uniqueness), (''research.sweep'', Business_uniqueness),
    (''telephony.sweep'', Business_uniqueness), (''calcom.reconcile'', Business_uniqueness),
    (''call.transcribe'', Business_uniqueness), (''meeting.transcribe'', Business_uniqueness),
    (''meeting.analyze'', Business_uniqueness), (''meeting.follow_through'', Business_uniqueness),
    (''meeting.recording_setup'', Outbound_fence), (''call.summarize'', Business_uniqueness),
    (''call.analyze'', Business_uniqueness), (''call.analyze_sweep'', Business_uniqueness)]"

definition JOB_KIND_CLASS :: "(string \<times> JobClass) list" where
  "JOB_KIND_CLASS = [
    (''meeting.booking_create'', Urgent), (''meeting.booking_change'', Urgent),
    (''meeting.booking_conversation'', Urgent), (''booking.message_send'', Urgent),
    (''crm.booking_interpretation'', Bulk), (''crm.ask_answer'', Bulk), (''crm.ask_index'', Bulk),
    (''crm.commitments_project'', Bulk), (''crm.commitments_intent'', Bulk),
    (''crm.mail_progress'', Bulk), (''crm.extract'', Bulk), (''crm.capture_extraction'', Bulk),
    (''mail.sync'', Urgent), (''crm.mail_capture'', Bulk), (''crm.capture_read_recovery'', Bulk),
    (''crm.capture_read_forward'', Bulk), (''crm.mail_backfill'', Bulk),
    (''crm.business_selection'', Bulk), (''mail.reconcile'', Urgent), (''mail.recover'', Urgent),
    (''mail.watch_renew'', Urgent), (''classify.reply'', Urgent),
    (''suppression.finalize'', Urgent), (''outbound.close_send_day'', Urgent),
    (''today.build'', Urgent), (''canary'', Urgent), (''telephony.sweep'', Urgent),
    (''calcom.reconcile'', Bulk), (''sequence.action'', Bulk), (''sequence.terminal_stop'', Bulk),
    (''route.validate'', Bulk), (''retention.batch'', Bulk), (''sourcing.check'', Bulk),
    (''sourcing.qualify'', Bulk), (''sourcing.phone_discover'', Bulk), (''outreach.reply'', Urgent),
    (''reply.human_send'', Urgent), (''outreach.email_admit'', Bulk),
    (''outreach.person_enrich'', Bulk), (''social.draft'', Bulk), (''social.standing'', Bulk),
    (''social.linkedin_recurring'', Bulk), (''social.assets_cleanup'', Bulk),
    (''sourcing.monitor'', Bulk), (''sourcing.callable_rank'', Bulk), (''sourcing.discover'', Bulk),
    (''research.firm'', Bulk), (''research.sweep'', Bulk), (''call.transcribe'', Bulk),
    (''meeting.transcribe'', Bulk), (''meeting.analyze'', Bulk), (''meeting.follow_through'', Bulk),
    (''meeting.recording_setup'', Bulk), (''call.summarize'', Bulk), (''call.analyze'', Bulk),
    (''call.analyze_sweep'', Bulk)]"

definition isJobKind :: "string \<Rightarrow> bool" where
  "isJobKind value \<longleftrightarrow> value \<in> set JOB_KINDS"

definition jobClassOf :: "string \<Rightarrow> JobClass option" where
  "jobClassOf kind = (if isJobKind kind then map_of JOB_KIND_CLASS kind else None)"

definition kindsOfClass :: "JobClass \<Rightarrow> string list" where
  "kindsOfClass jobClass = filter (\<lambda>kind. map_of JOB_KIND_CLASS kind = Some jobClass) JOB_KINDS"

section \<open>Idempotency keys\<close>

text \<open>One constructor per builder of \<open>jobIdempotencyKey\<close>, with the builder's arguments;
  \<open>job_key\<close> is the key it returns.  An instant argument is the ISO string it is given.\<close>
datatype JobWork =
    SourcingQualify string
  | SourcingPhoneDiscover string
  | OutreachEmailAdmit uuid string
  | OutreachPersonEnrich uuid string
  | SourcingCheck string string
  | MeetingAnalyze string nat nat
  | MeetingAnalysisRequest string nat
  | MeetingTranscribe string nat
  | MeetingCollect string nat
  | SequenceAction uuid "string option"
  | MailSync uuid nat
  | MailReconcile uuid string
  | MailRecover uuid nat
  | WatchRenew uuid nat nat
  | TodayList string string string
  | SuppressionFinalize uuid
  | TerminalStop "string option" "string option"
  | CloseSendDay uuid string
  | RetentionBatch string string
  | Canary string
  | ClassifyReply uuid "string option"
  | RouteValidate uuid nat string
  | ResearchFirm uuid nat
  | SourcingMonitor uuid string
  | SourcingCallableRank uuid string
  | ResearchSweep string string
  | TelephonySweep string string
  | CalcomReconcile string string
  | CallTranscribe uuid nat
  | CallSummarize uuid nat
  | CallAnalyze uuid nat
  | CallAnalyzeRequested uuid nat uuid
  | CallAnalyzeResume uuid nat uuid
  | CallAnalyzeSweep uuid

definition RESEARCH_FIRM_JOB_KEY_PREFIX :: string where
  "RESEARCH_FIRM_JOB_KEY_PREFIX = ''research-firm:''"

text \<open>The suffix of a key whose revision defaults to 0.\<close>
definition revision_suffix :: "nat \<Rightarrow> string" where
  "revision_suffix revision = (if revision = 0 then '''' else '':r'' @ str_nat revision)"

fun job_key :: "JobWork \<Rightarrow> string" where
  "job_key (SourcingQualify runId) = ''sourcing-qualify:'' @ runId"
| "job_key (SourcingPhoneDiscover runId) = ''sourcing-phone-discover:'' @ runId"
| "job_key (OutreachEmailAdmit ws now) = ''outreach-email-admit:'' @ ws @ '':'' @ take 15 now"
| "job_key (OutreachPersonEnrich ws now) = ''outreach-person-enrich:'' @ ws @ '':'' @ take 15 now"
| "job_key (SourcingCheck i checkId) = ''sourcing-check:'' @ i @ '':'' @ checkId"
| "job_key (MeetingAnalyze meetingId notes transcript) =
     ''meeting-analyze:'' @ meetingId @ '':n'' @ str_nat notes @ '':t'' @ str_nat transcript"
| "job_key (MeetingAnalysisRequest requestId revision) =
     ''meeting-analysis-request:'' @ requestId @ '':r'' @ str_nat revision"
| "job_key (MeetingTranscribe recordingId revision) =
     ''meeting-transcribe:'' @ recordingId @ '':r'' @ str_nat revision"
| "job_key (MeetingCollect attemptId look) = ''meeting-collect:'' @ attemptId @ '':l'' @ str_nat look"
| "job_key (SequenceAction stepExecutionId wake) = (case wake of
     None \<Rightarrow> ''step-execution:'' @ stepExecutionId
   | Some w \<Rightarrow> ''step-execution:'' @ stepExecutionId @ '':'' @ w)"
| "job_key (MailSync mailboxId generation) = ''mail-sync:'' @ mailboxId @ '':'' @ str_nat generation"
| "job_key (MailReconcile mailboxId minuteIso) = ''mail-reconcile:'' @ mailboxId @ '':'' @ minuteIso"
| "job_key (MailRecover mailboxId generation) =
     ''mail-recover:'' @ mailboxId @ '':'' @ str_nat generation"
| "job_key (WatchRenew mailboxId watchGeneration mailboxGeneration) =
     ''watch:'' @ mailboxId @ '':'' @ str_nat mailboxGeneration @ '':'' @ str_nat watchGeneration"
| "job_key (TodayList slug businessDate algorithmVersion) =
     ''today:'' @ slug @ '':'' @ businessDate @ '':'' @ algorithmVersion"
| "job_key (SuppressionFinalize eventId) = ''suppression-finalize:'' @ eventId"
| "job_key (TerminalStop outboxHead markerHead) =
     ''terminal-stop:'' @ (case outboxHead of None \<Rightarrow> ''none'' | Some h \<Rightarrow> h) @ '':'' @
     (case markerHead of None \<Rightarrow> ''none'' | Some h \<Rightarrow> h)"
| "job_key (CloseSendDay mailboxId businessDate) =
     ''send-day-close:'' @ mailboxId @ '':'' @ businessDate"
| "job_key (RetentionBatch dataKind period) = ''retention:'' @ dataKind @ '':'' @ period"
| "job_key (Canary quarterHourIso) = ''canary:'' @ quarterHourIso"
| "job_key (ClassifyReply messageId resume) = (case resume of
     None \<Rightarrow> ''classify-reply:'' @ messageId
   | Some r \<Rightarrow> ''classify-reply:'' @ messageId @ '':resume-'' @ r)"
| "job_key (RouteValidate routeId version round) =
     ''route-validate:'' @ routeId @ '':'' @ str_nat version @ '':'' @ round"
| "job_key (ResearchFirm firmId revision) =
     RESEARCH_FIRM_JOB_KEY_PREFIX @ firmId @ '':'' @ str_nat revision"
| "job_key (SourcingMonitor ws hour) = ''sourcing-monitor:'' @ ws @ '':'' @ hour"
| "job_key (SourcingCallableRank ws minute) = ''sourcing-callable-rank:'' @ ws @ '':'' @ minute"
| "job_key (ResearchSweep slug businessDate) = ''research-sweep:'' @ slug @ '':'' @ businessDate"
| "job_key (TelephonySweep slug quarterHourIso) =
     ''telephony-sweep:'' @ slug @ '':'' @ quarterHourIso"
| "job_key (CalcomReconcile slug hourIso) = ''calcom-reconcile:'' @ slug @ '':'' @ hourIso"
| "job_key (CallTranscribe sessionId revision) =
     ''call-transcribe:'' @ sessionId @ revision_suffix revision"
| "job_key (CallSummarize sessionId revision) =
     ''call-summarize:'' @ sessionId @ revision_suffix revision"
| "job_key (CallAnalyze sessionId revision) =
     ''call-analyze:'' @ sessionId @ revision_suffix revision"
| "job_key (CallAnalyzeRequested sessionId version commandId) =
     ''call-analyze:'' @ sessionId @ '':v'' @ str_nat version @ '':c'' @ commandId"
| "job_key (CallAnalyzeResume sessionId version writeId) =
     ''call-analyze:'' @ sessionId @ '':v'' @ str_nat version @ '':w'' @ writeId"
| "job_key (CallAnalyzeSweep writeId) = ''call-analyze-sweep:'' @ writeId"

section \<open>Periods\<close>

text \<open>\<open>new Date(ms).toISOString()\<close>: a RangeError outside the range of a Date.\<close>
definition toISOString :: "instant \<Rightarrow> clock_code + string" where
  "toISOString ms = (if abs ms > 8640000000000000 then Inl RANGE_ERROR else
     let n = ms div ms_per_day; t = ms mod ms_per_day; two = (\<lambda>v. pad_start 2 (CHR ''0'') (str_nat (nat v)));
       y = year_of n in
     Inr ((if 0 \<le> y \<and> y \<le> 9999 then iso_of_day n
       else (if y < 0 then ''-'' else ''+'') @ pad_start 6 (CHR ''0'') (str_nat (nat (abs y))) @
         drop 4 (iso_date 0 (month_of n + 1) (date_of n))) @
       ''T'' @ two (t div 3600000) @ '':'' @ two (t div 60000 mod 60) @ '':'' @
       two (t div 1000 mod 60) @ ''.'' @ pad_start 3 (CHR ''0'') (str_nat (nat (t mod 1000))) @ ''Z''))"

definition hourOf :: "instant option \<Rightarrow> clock_code + string" where
  "hourOf i = (case i of None \<Rightarrow> Inl RANGE_ERROR
   | Some milliseconds \<Rightarrow> let hour = 60 * 60 * 1000 in
       toISOString (milliseconds - js_rem milliseconds hour))"

definition CANARY_PERIOD_MILLISECONDS :: int where
  "CANARY_PERIOD_MILLISECONDS = 15 * 60 * 1000"

definition quarterHourOf :: "instant option \<Rightarrow> clock_code + string" where
  "quarterHourOf i = (case i of None \<Rightarrow> Inl RANGE_ERROR
   | Some milliseconds \<Rightarrow>
       toISOString (milliseconds - js_rem milliseconds CANARY_PERIOD_MILLISECONDS))"

section \<open>Slots and lanes\<close>

definition slotClasses :: "int \<Rightarrow> int \<Rightarrow> JobClass list" where
  "slotClasses concurrency index =
     (if concurrency \<le> 1 then JOB_CLASSES
      else if index = 0 then [Urgent]
      else if index = 1 then (if 3 \<le> concurrency then [Bulk] else JOB_CLASSES)
      else JOB_CLASSES)"

definition URGENT_STREAK_LIMIT :: nat where
  "URGENT_STREAK_LIMIT = 3"

text \<open>The closure variables of a flexible slot; a fixed slot keeps only its lanes.\<close>
record SlotLanes =
  sl_lanes :: "JobClass list"
  sl_urgentStreak :: nat
  sl_flipped :: bool

definition slotLanes :: "int \<Rightarrow> int \<Rightarrow> SlotLanes" where
  "slotLanes concurrency index =
     \<lparr> sl_lanes = slotClasses concurrency index, sl_urgentStreak = 0, sl_flipped = False \<rparr>"

definition lane_order :: "SlotLanes \<Rightarrow> SlotLanes \<times> JobClass list" where
  "lane_order s = (if length (sl_lanes s) < 2 then (s, sl_lanes s)
     else let flipped = URGENT_STREAK_LIMIT \<le> sl_urgentStreak s in
       (s\<lparr>sl_flipped := flipped\<rparr>, if flipped then [Bulk, Urgent] else [Urgent, Bulk]))"

definition lane_record :: "JobClass option \<Rightarrow> SlotLanes \<Rightarrow> SlotLanes" where
  "lane_record claimedClass s = (if length (sl_lanes s) < 2 then s
     else s\<lparr>sl_urgentStreak :=
       if \<not> sl_flipped s \<and> claimedClass = Some Urgent then sl_urgentStreak s + 1 else 0\<rparr>)"

text \<open>A run of polls: each poll asks for the order and records the class it claimed from,
  which \<open>claims\<close> gives from the order.  The orders of the polls, first to last.\<close>
fun poll_orders :: "(JobClass list \<Rightarrow> JobClass option) list \<Rightarrow> SlotLanes \<Rightarrow> JobClass list list" where
  "poll_orders [] s = []"
| "poll_orders (claim # claims) s =
     (case lane_order s of (s1, order) \<Rightarrow>
        order # poll_orders claims (lane_record (claim order) s1))"

end
