(* ===== verification/JobStore.thy ===== *)
theory JobStore
  imports Complex_Main JobKinds OutboundDb "HOL-Library.Product_Lexorder" "HOL-Library.List_Lexorder" "HOL-Library.Char_ord"
begin

text \<open>
  \<open>packages/domain/jobs/backoff.ts\<close> and \<open>jobStore.ts\<close>: the queue table, one function per
  exported operation.  \<open>now\<close> is the statement's (its transaction's) database time and
  \<open>clock\<close> is \<open>clock_timestamp()\<close>; \<open>locked\<close> says which rows \<open>SKIP LOCKED\<close> passes over,
  and a fresh id is an argument.  A statement whose new row breaks a CHECK of migrations
  0001 and 0002 raises, and so does a negative LIMIT; a raise is the left summand.
  Durations are whole seconds, the jitter a rational number.
\<close>

section \<open>Backoff\<close>

datatype JobError = LEASE_SECONDS_INVALID | ATTEMPT_RANGE | CHECK_VIOLATION | LIMIT_NEGATIVE

record BackoffPolicy =
  bp_baseSeconds :: int
  bp_factor :: int
  bp_maximumSeconds :: int
  bp_jitterFraction :: rat

definition DEFAULT_BACKOFF :: BackoffPolicy where
  "DEFAULT_BACKOFF = \<lparr> bp_baseSeconds = 30, bp_factor = 2, bp_maximumSeconds = 15 * 60,
     bp_jitterFraction = 1 / 5 \<rparr>"

text \<open>\<open>Math.round\<close>: halves go up.\<close>
definition math_round :: "rat \<Rightarrow> int" where
  "math_round x = floor (x + 1 / 2)"

definition backoffSeconds :: "nat \<Rightarrow> BackoffPolicy \<Rightarrow> rat \<Rightarrow> JobError + int" where
  "backoffSeconds attempt policy random = (if attempt < 1 then Inl ATTEMPT_RANGE else
     let exponent = min (attempt - 1) 32;
         raw = bp_baseSeconds policy * bp_factor policy ^ exponent;
         capped = min raw (bp_maximumSeconds policy);
         jitter = of_int capped * bp_jitterFraction policy * random in
     Inr (math_round (of_int capped + jitter)))"

definition isExhausted :: "nat \<Rightarrow> nat \<Rightarrow> bool" where
  "isExhausted attempt maxAttempts = (maxAttempts \<le> attempt)"

section \<open>The table\<close>

text \<open>\<open>payload\<close>: the handler's own keys, its cursor \<open>progress\<close> and the runner's
  \<open>chunking\<close>, whose fields are absent or whole numbers.\<close>
record ChunkingJson =
  cj_chunks :: "int option"
  cj_firstChunkMs :: "int option"
  cj_lastChunkMs :: "int option"

record JobPayload =
  pl_body :: "(string \<times> string) list"
  pl_progress :: "string option"
  pl_chunking :: "ChunkingJson option"

definition empty_payload :: JobPayload where
  "empty_payload = \<lparr> pl_body = [], pl_progress = None, pl_chunking = None \<rparr>"

datatype JobState = Queued | Running | Retryable | Done | Dead

record JobRow =
  jb_id :: uuid
  jb_workspaceId :: uuid
  jb_kind :: string
  jb_payload :: JobPayload
  jb_idempotencyKey :: string
  jb_state :: JobState
  jb_runAt :: instant
  jb_notBefore :: instant
  jb_attemptCount :: nat
  jb_maxAttempts :: nat
  jb_leaseOwner :: "string option"
  jb_leaseExpiresAt :: "instant option"
  jb_errorCode :: "string option"
  jb_errorDetail :: "string option"
  jb_createdAt :: instant
  jb_updatedAt :: instant
  jb_fencingToken :: nat
  jb_claimedAt :: "instant option"
  jb_firstClaimedAt :: "instant option"
  jb_completedAt :: "instant option"
  jb_deadAt :: "instant option"
  jb_payloadArchivedAt :: "instant option"
  jb_requeuedCount :: nat

record JobAudit =
  ja_workspaceId :: uuid
  ja_actorUserId :: "uuid option"
  ja_subjectId :: uuid
  ja_kind :: string
  ja_reason :: string

record JobsDb =
  jobs :: "JobRow list"
  job_audits :: "JobAudit list"

definition ascii_lower :: "char \<Rightarrow> bool" where
  "ascii_lower c \<longleftrightarrow> 97 \<le> (of_char c :: nat) \<and> (of_char c :: nat) \<le> 122"

text \<open>\<open>jobs_kind_shape\<close> and \<open>jobs_error_code_shape\<close>\<close>
definition kind_shape :: "string \<Rightarrow> bool" where
  "kind_shape s = (case s of [] \<Rightarrow> False | c # cs \<Rightarrow> ascii_lower c \<and> 1 \<le> length cs \<and> length cs \<le> 63 \<and>
     list_all (\<lambda>d. ascii_lower d \<or> is_digit d \<or> d = CHR ''_'' \<or> d = CHR ''.'' \<or> d = CHR ''-'') cs)"

definition code_shape :: "string \<Rightarrow> bool" where
  "code_shape s = (case s of [] \<Rightarrow> False | c # cs \<Rightarrow> ascii_lower c \<and> 2 \<le> length cs \<and> length cs \<le> 63 \<and>
     list_all (\<lambda>d. ascii_lower d \<or> is_digit d \<or> d = CHR ''_'') cs)"

text \<open>\<open>btrim(s) <> '' AND length(s) <= n\<close>\<close>
definition present_bounded :: "nat \<Rightarrow> string \<Rightarrow> bool" where
  "present_bounded n s \<longleftrightarrow> list_ex (\<lambda>c. c \<noteq> CHR '' '') s \<and> length s \<le> n"

text \<open>\<open>x IS NULL OR p(x)\<close>\<close>
definition null_or :: "('a \<Rightarrow> bool) \<Rightarrow> 'a option \<Rightarrow> bool" where
  "null_or p x = (case x of None \<Rightarrow> True | Some v \<Rightarrow> p v)"

lemma null_or_simps [simp]: "null_or p None" "null_or p (Some v) = p v"
  by (simp_all add: null_or_def)

text \<open>The CHECK constraints of a row.\<close>
definition job_row_ok :: "JobRow \<Rightarrow> bool" where
  "job_row_ok r \<longleftrightarrow> kind_shape (jb_kind r) \<and> present_bounded 200 (jb_idempotencyKey r) \<and>
     1 \<le> jb_maxAttempts r \<and> jb_attemptCount r \<le> jb_maxAttempts r \<and>
     (jb_state r = Running) = (jb_leaseOwner r \<noteq> None \<and> jb_leaseExpiresAt r \<noteq> None) \<and>
     null_or (present_bounded 120) (jb_leaseOwner r) \<and>
     null_or (\<lambda>d. length d \<le> 2000) (jb_errorDetail r) \<and>
     null_or code_shape (jb_errorCode r) \<and>
     (jb_state r = Done) = (jb_completedAt r \<noteq> None) \<and>
     (jb_state r = Dead) = (jb_deadAt r \<noteq> None) \<and>
     (jb_payloadArchivedAt r \<noteq> None \<longrightarrow> jb_state r = Done \<and> jb_completedAt r \<noteq> None)"

text \<open>\<open>UPDATE jobs SET change WHERE hit\<close>, with the number of rows it changed.\<close>
definition update_jobs :: "(JobRow \<Rightarrow> bool) \<Rightarrow> (JobRow \<Rightarrow> JobRow) \<Rightarrow> JobsDb \<Rightarrow> JobError + JobsDb \<times> nat" where
  "update_jobs hit change db =
     (if list_all (\<lambda>r. hit r \<longrightarrow> job_row_ok (change r)) (jobs db)
      then Inr (db\<lparr>jobs := sql_update hit change (jobs db)\<rparr>, sql_count hit (jobs db))
      else Inl CHECK_VIOLATION)"

section \<open>Enqueue\<close>

record JobSpecification =
  sp_workspaceId :: uuid
  sp_kind :: string
  sp_idempotencyKey :: string
  sp_payload :: JobPayload
  sp_runAt :: "instant option"
  sp_notBefore :: "instant option"
  sp_maxAttempts :: "nat option"

record EnqueueOutcome =
  eo_inserted :: bool
  eo_jobId :: uuid

definition coalesce :: "'a option \<Rightarrow> 'a \<Rightarrow> 'a" where
  "coalesce x d = (case x of None \<Rightarrow> d | Some v \<Rightarrow> v)"

definition same_work :: "JobSpecification \<Rightarrow> JobRow \<Rightarrow> bool" where
  "same_work sp r \<longleftrightarrow> jb_workspaceId r = sp_workspaceId sp \<and> jb_kind r = sp_kind sp \<and>
     jb_idempotencyKey r = sp_idempotencyKey sp"

definition new_job :: "uuid \<Rightarrow> instant \<Rightarrow> JobSpecification \<Rightarrow> JobRow" where
  "new_job fresh now sp = \<lparr> jb_id = fresh, jb_workspaceId = sp_workspaceId sp, jb_kind = sp_kind sp,
     jb_payload = sp_payload sp, jb_idempotencyKey = sp_idempotencyKey sp, jb_state = Queued,
     jb_runAt = coalesce (sp_runAt sp) now, jb_notBefore = coalesce (sp_notBefore sp) now,
     jb_attemptCount = 0, jb_maxAttempts = coalesce (sp_maxAttempts sp) 4,
     jb_leaseOwner = None, jb_leaseExpiresAt = None, jb_errorCode = None, jb_errorDetail = None,
     jb_createdAt = now, jb_updatedAt = now, jb_fencingToken = 0, jb_claimedAt = None,
     jb_firstClaimedAt = None, jb_completedAt = None, jb_deadAt = None,
     jb_payloadArchivedAt = None, jb_requeuedCount = 0 \<rparr>"

definition enqueueJob :: "uuid \<Rightarrow> instant \<Rightarrow> JobSpecification \<Rightarrow> JobsDb \<Rightarrow> JobError + JobsDb \<times> EnqueueOutcome" where
  "enqueueJob fresh now sp db =
     (let row = new_job fresh now sp in
      if \<not> job_row_ok row then Inl CHECK_VIOLATION
      else case sql_one (same_work sp) (jobs db) of
        None \<Rightarrow> Inr (db\<lparr>jobs := jobs db @ [row]\<rparr>, \<lparr> eo_inserted = True, eo_jobId = fresh \<rparr>)
      | Some r \<Rightarrow> Inr (db, \<lparr> eo_inserted = False, eo_jobId = jb_id r \<rparr>))"

section \<open>Claim\<close>

record ClaimedJob =
  cl_id :: uuid
  cl_workspaceId :: uuid
  cl_kind :: string
  cl_idempotencyKey :: string
  cl_payload :: JobPayload
  cl_attempt :: nat
  cl_maxAttempts :: nat
  cl_fencingToken :: nat
  cl_leaseOwner :: string
  cl_leaseExpiresAt :: instant

text \<open>Of a row \<open>claimJobs\<close> returns: its lease columns are not null.\<close>
definition toClaim :: "JobRow \<Rightarrow> ClaimedJob" where
  "toClaim r = \<lparr> cl_id = jb_id r, cl_workspaceId = jb_workspaceId r, cl_kind = jb_kind r,
     cl_idempotencyKey = jb_idempotencyKey r, cl_payload = jb_payload r,
     cl_attempt = jb_attemptCount r, cl_maxAttempts = jb_maxAttempts r,
     cl_fencingToken = jb_fencingToken r, cl_leaseOwner = the (jb_leaseOwner r),
     cl_leaseExpiresAt = the (jb_leaseExpiresAt r) \<rparr>"

record ClaimOptions =
  co_owner :: string
  co_kinds :: "string list"
  co_limit :: int
  co_leaseSeconds :: "int option"

definition job_key_of :: "JobRow \<Rightarrow> uuid \<times> uuid" where
  "job_key_of r = (jb_workspaceId r, jb_id r)"

definition runnable :: "instant \<Rightarrow> string list \<Rightarrow> JobRow \<Rightarrow> bool" where
  "runnable now kinds r \<longleftrightarrow> (jb_state r = Queued \<or> jb_state r = Retryable) \<and>
     jb_kind r \<in> set kinds \<and> jb_runAt r \<le> now \<and> jb_notBefore r \<le> now \<and>
     jb_attemptCount r < jb_maxAttempts r"

definition candidates :: "instant \<Rightarrow> (uuid \<times> uuid \<Rightarrow> bool) \<Rightarrow> string list \<Rightarrow> int \<Rightarrow> JobsDb \<Rightarrow> JobRow list" where
  "candidates now locked kinds limit db =
     take (nat limit) (filter (\<lambda>r. \<not> locked (job_key_of r))
       (sort_key (\<lambda>r. (jb_runAt r, jb_id r)) (filter (runnable now kinds) (jobs db))))"

definition claim_change :: "instant \<Rightarrow> string \<Rightarrow> int \<Rightarrow> JobRow \<Rightarrow> JobRow" where
  "claim_change now owner leaseSeconds r = r\<lparr>
     jb_state := Running, jb_leaseOwner := Some owner,
     jb_leaseExpiresAt := Some (now + 1000 * leaseSeconds), jb_claimedAt := Some now,
     jb_firstClaimedAt := Some (coalesce (jb_firstClaimedAt r) now),
     jb_attemptCount := jb_attemptCount r + 1, jb_fencingToken := jb_fencingToken r + 1,
     jb_updatedAt := now\<rparr>"

definition claimJobs :: "instant \<Rightarrow> (uuid \<times> uuid \<Rightarrow> bool) \<Rightarrow> ClaimOptions \<Rightarrow> JobsDb \<Rightarrow>
    JobError + JobsDb \<times> ClaimedJob list" where
  "claimJobs now locked options db = (case co_leaseSeconds options of
     None \<Rightarrow> Inl LEASE_SECONDS_INVALID
   | Some leaseSeconds \<Rightarrow>
       if leaseSeconds \<le> 0 then Inl LEASE_SECONDS_INVALID
       else if co_kinds options = [] then Inr (db, [])
       else if co_limit options < 0 then Inl LIMIT_NEGATIVE
       else let candidate = candidates now locked (co_kinds options) (co_limit options) db;
                change = claim_change now (co_owner options) leaseSeconds in
         and_then (update_jobs (\<lambda>r. job_key_of r \<in> set (map job_key_of candidate)) change db)
           (\<lambda>(db', _). Inr (db', map (\<lambda>r. toClaim (change r)) candidate)))"

section \<open>The writes of the lease holder\<close>

datatype JobRunOutcome = Completed | Lease_lost | Outcome_retryable | Outcome_dead | No_handler | Requeued

text \<open>The row this claim still holds: the WHERE clause of every write a worker makes.\<close>
definition holds :: "ClaimedJob \<Rightarrow> JobRow \<Rightarrow> bool" where
  "holds claim r \<longleftrightarrow> jb_workspaceId r = cl_workspaceId claim \<and> jb_id r = cl_id claim \<and>
     jb_state r = Running \<and> jb_leaseOwner r = Some (cl_leaseOwner claim) \<and>
     jb_fencingToken r = cl_fencingToken claim"

definition fenced :: "ClaimedJob \<Rightarrow> (JobRow \<Rightarrow> JobRow) \<Rightarrow> JobRunOutcome \<Rightarrow> JobsDb \<Rightarrow>
    JobError + JobsDb \<times> JobRunOutcome" where
  "fenced claim change outcome db =
     and_then (update_jobs (holds claim) change db)
       (\<lambda>(db', rowCount). Inr (db', if rowCount = 1 then outcome else Lease_lost))"

definition complete_change :: "instant \<Rightarrow> JobRow \<Rightarrow> JobRow" where
  "complete_change now r = r\<lparr> jb_state := Done, jb_completedAt := Some now, jb_leaseOwner := None,
     jb_leaseExpiresAt := None, jb_errorCode := None, jb_errorDetail := None, jb_updatedAt := now\<rparr>"

definition completeJob :: "instant \<Rightarrow> ClaimedJob \<Rightarrow> JobsDb \<Rightarrow> JobError + JobsDb \<times> JobRunOutcome" where
  "completeJob now claim db = fenced claim (complete_change now) Completed db"

record JobFailure =
  jf_code :: string
  jf_detail :: "string option"
  jf_backoff :: "BackoffPolicy option"
  jf_random :: "rat option"

definition fail_change :: "instant \<Rightarrow> bool \<Rightarrow> int \<Rightarrow> JobFailure \<Rightarrow> JobRow \<Rightarrow> JobRow" where
  "fail_change now exhausted delay failure r = r\<lparr>
     jb_state := (if exhausted then Dead else Retryable),
     jb_deadAt := (if exhausted then Some now else None),
     jb_runAt := (if exhausted then jb_runAt r else now + 1000 * delay),
     jb_leaseOwner := None, jb_leaseExpiresAt := None, jb_errorCode := Some (jf_code failure),
     jb_errorDetail := jf_detail failure, jb_updatedAt := now\<rparr>"

text \<open>The state RETURNING reads is the one the statement wrote.\<close>
definition failJob :: "instant \<Rightarrow> ClaimedJob \<Rightarrow> JobFailure \<Rightarrow> JobsDb \<Rightarrow> JobError + JobsDb \<times> JobRunOutcome" where
  "failJob now claim failure db =
     (let exhausted = isExhausted (cl_attempt claim) (cl_maxAttempts claim) in
      and_then (if exhausted then Inr 0
                else backoffSeconds (cl_attempt claim) (coalesce (jf_backoff failure) DEFAULT_BACKOFF)
                       (coalesce (jf_random failure) 0))
        (\<lambda>delay. fenced claim (fail_change now exhausted delay failure)
           (if exhausted then Outcome_dead else Outcome_retryable) db))"

record ChunkBookkeeping =
  cb_chunks :: int
  cb_firstChunkMs :: int
  cb_lastChunkMs :: int

definition chunkBookkeepingOf :: "JobPayload \<Rightarrow> ChunkBookkeeping option" where
  "chunkBookkeepingOf payload = (case pl_chunking payload of
     None \<Rightarrow> None
   | Some raw \<Rightarrow> (case (cj_chunks raw, cj_firstChunkMs raw, cj_lastChunkMs raw) of
       (Some chunks, Some firstChunkMs, Some lastChunkMs) \<Rightarrow>
         Some \<lparr> cb_chunks = chunks, cb_firstChunkMs = firstChunkMs, cb_lastChunkMs = lastChunkMs \<rparr>
     | _ \<Rightarrow> None))"

text \<open>The \<open>chunking\<close> object \<open>writeProgress\<close> builds from the row's previous one.\<close>
definition next_chunking :: "instant \<Rightarrow> ChunkingJson option \<Rightarrow> ChunkBookkeeping" where
  "next_chunking clock previous =
     \<lparr> cb_chunks = coalesce (Option.bind previous cj_chunks) 0 + 1,
       cb_firstChunkMs = coalesce (Option.bind previous cj_firstChunkMs) clock,
       cb_lastChunkMs = clock \<rparr>"

definition chunking_json :: "ChunkBookkeeping \<Rightarrow> ChunkingJson" where
  "chunking_json b = \<lparr> cj_chunks = Some (cb_chunks b), cj_firstChunkMs = Some (cb_firstChunkMs b),
     cj_lastChunkMs = Some (cb_lastChunkMs b) \<rparr>"

definition progress_change :: "instant \<Rightarrow> instant \<Rightarrow> string \<Rightarrow> JobRow \<Rightarrow> JobRow" where
  "progress_change now clock progress r = r\<lparr>
     jb_payload := (jb_payload r)\<lparr> pl_progress := Some progress,
       pl_chunking := Some (chunking_json (next_chunking clock (pl_chunking (jb_payload r)))) \<rparr>,
     jb_updatedAt := now\<rparr>"

record ProgressWrite =
  pw_jobId :: uuid
  pw_workspaceId :: uuid
  pw_fencingToken :: nat
  pw_progress :: string

text \<open>The outcome is the bookkeeping the statement left, or \<open>None\<close> for a lost lease; this
  one WHERE clause does not name the owner.\<close>
definition progress_hit :: "ProgressWrite \<Rightarrow> JobRow \<Rightarrow> bool" where
  "progress_hit write r \<longleftrightarrow> jb_workspaceId r = pw_workspaceId write \<and> jb_id r = pw_jobId write \<and>
     jb_state r = Running \<and> jb_fencingToken r = pw_fencingToken write"

definition writeProgress :: "instant \<Rightarrow> instant \<Rightarrow> ProgressWrite \<Rightarrow> JobsDb \<Rightarrow>
    JobError + JobsDb \<times> ChunkBookkeeping option" where
  "writeProgress now clock write db =
     and_then (update_jobs (progress_hit write) (progress_change now clock (pw_progress write)) db)
       (\<lambda>(db', _). Inr (db', map_option (\<lambda>r. next_chunking clock (pl_chunking (jb_payload r)))
          (sql_one (progress_hit write) (jobs db))))"

definition requeue_change :: "instant \<Rightarrow> JobRow \<Rightarrow> JobRow" where
  "requeue_change now r = r\<lparr> jb_state := Queued, jb_runAt := now, jb_notBefore := now,
     jb_attemptCount := jb_attemptCount r - 1, jb_leaseOwner := None, jb_leaseExpiresAt := None,
     jb_updatedAt := now\<rparr>"

definition requeueForNextChunk :: "instant \<Rightarrow> ClaimedJob \<Rightarrow> JobsDb \<Rightarrow> JobError + JobsDb \<times> JobRunOutcome" where
  "requeueForNextChunk now claim db = fenced claim (requeue_change now) Requeued db"

definition kill_change :: "instant \<Rightarrow> string \<Rightarrow> string option \<Rightarrow> JobRow \<Rightarrow> JobRow" where
  "kill_change now failure detail r = r\<lparr> jb_state := Dead, jb_deadAt := Some now,
     jb_leaseOwner := None, jb_leaseExpiresAt := None, jb_errorCode := Some failure,
     jb_errorDetail := detail, jb_updatedAt := now\<rparr>"

definition killJob :: "instant \<Rightarrow> ClaimedJob \<Rightarrow> string \<Rightarrow> string option \<Rightarrow> JobsDb \<Rightarrow>
    JobError + JobsDb \<times> JobRunOutcome" where
  "killJob now claim failure detail db = fenced claim (kill_change now failure detail) Outcome_dead db"

datatype RenewOutcome = Renewed | Renew_lost

definition renew_change :: "instant \<Rightarrow> int \<Rightarrow> JobRow \<Rightarrow> JobRow" where
  "renew_change now leaseSeconds r = r\<lparr> jb_leaseExpiresAt := Some (now + 1000 * leaseSeconds),
     jb_updatedAt := now\<rparr>"

definition renewLease :: "instant \<Rightarrow> ClaimedJob \<Rightarrow> int \<Rightarrow> JobsDb \<Rightarrow> JobError + JobsDb \<times> RenewOutcome" where
  "renewLease now claim leaseSeconds db =
     and_then (update_jobs (holds claim) (renew_change now leaseSeconds) db)
       (\<lambda>(db', rowCount). Inr (db', if rowCount = 1 then Renewed else Renew_lost))"

section \<open>Sweeps\<close>

definition lease_expired :: "instant \<Rightarrow> JobRow \<Rightarrow> bool" where
  "lease_expired now r \<longleftrightarrow> jb_state r = Running \<and>
     (case jb_leaseExpiresAt r of None \<Rightarrow> False | Some t \<Rightarrow> t < now)"

definition reclaim_change :: "instant \<Rightarrow> JobRow \<Rightarrow> JobRow" where
  "reclaim_change now r = (let spent = jb_maxAttempts r \<le> jb_attemptCount r in r\<lparr>
     jb_state := (if spent then Dead else Retryable), jb_deadAt := (if spent then Some now else None),
     jb_leaseOwner := None, jb_leaseExpiresAt := None, jb_errorCode := Some ''lease_expired'',
     jb_errorDetail := Some ''The lease expired before the worker reported an outcome.'',
     jb_updatedAt := now\<rparr>)"

definition expired_leases :: "instant \<Rightarrow> (uuid \<times> uuid \<Rightarrow> bool) \<Rightarrow> int \<Rightarrow> JobsDb \<Rightarrow> JobRow list" where
  "expired_leases now locked limit db =
     take (nat limit) (filter (\<lambda>r. \<not> locked (job_key_of r))
       (sort_key (\<lambda>r. the (jb_leaseExpiresAt r)) (filter (lease_expired now) (jobs db))))"

definition reclaimExpiredLeases :: "instant \<Rightarrow> (uuid \<times> uuid \<Rightarrow> bool) \<Rightarrow> int \<Rightarrow> JobsDb \<Rightarrow>
    JobError + JobsDb \<times> nat" where
  "reclaimExpiredLeases now locked limit db = (if limit < 0 then Inl LIMIT_NEGATIVE else
     update_jobs (\<lambda>r. job_key_of r \<in> set (map job_key_of (expired_leases now locked limit db)))
       (reclaim_change now) db)"

definition archivable :: "instant \<Rightarrow> int \<Rightarrow> JobRow \<Rightarrow> bool" where
  "archivable now olderThanSeconds r \<longleftrightarrow> jb_state r = Done \<and> jb_payloadArchivedAt r = None \<and>
     (case jb_completedAt r of None \<Rightarrow> False | Some t \<Rightarrow> t < now - 1000 * olderThanSeconds)"

definition archive_change :: "instant \<Rightarrow> JobRow \<Rightarrow> JobRow" where
  "archive_change now r = r\<lparr> jb_payload := empty_payload, jb_errorDetail := None,
     jb_payloadArchivedAt := Some now, jb_updatedAt := now\<rparr>"

definition archive_rows :: "instant \<Rightarrow> int \<Rightarrow> int \<Rightarrow> JobsDb \<Rightarrow> JobRow list" where
  "archive_rows now olderThanSeconds limit db = take (nat limit)
     (sort_key (\<lambda>r. the (jb_completedAt r)) (filter (archivable now olderThanSeconds) (jobs db)))"

definition archiveCompletedPayloads :: "instant \<Rightarrow> int \<Rightarrow> int \<Rightarrow> JobsDb \<Rightarrow> JobError + JobsDb \<times> nat" where
  "archiveCompletedPayloads now olderThanSeconds limit db = (if limit < 0 then Inl LIMIT_NEGATIVE else
     update_jobs (\<lambda>r. job_key_of r \<in> set (map job_key_of (archive_rows now olderThanSeconds limit db)))
       (archive_change now) db)"

section \<open>Admin commands\<close>

record DeadJob =
  dj_id :: uuid
  dj_kind :: string
  dj_idempotencyKey :: string
  dj_attempts :: nat
  dj_maxAttempts :: nat
  dj_requeuedCount :: nat
  dj_errorCode :: "string option"
  dj_errorDetail :: "string option"
  dj_deadAt :: instant

definition dead_job :: "JobRow \<Rightarrow> DeadJob" where
  "dead_job r = \<lparr> dj_id = jb_id r, dj_kind = jb_kind r, dj_idempotencyKey = jb_idempotencyKey r,
     dj_attempts = jb_attemptCount r, dj_maxAttempts = jb_maxAttempts r,
     dj_requeuedCount = jb_requeuedCount r, dj_errorCode = jb_errorCode r,
     dj_errorDetail = jb_errorDetail r, dj_deadAt = the (jb_deadAt r) \<rparr>"

definition listDeadJobs :: "uuid \<Rightarrow> int option \<Rightarrow> JobsDb \<Rightarrow> JobError + DeadJob list" where
  "listDeadJobs workspaceId limit db = (if coalesce limit 100 < 0 then Inl LIMIT_NEGATIVE else
     Inr (map dead_job (take (nat (coalesce limit 100)) (sort_key (\<lambda>r. the (jb_deadAt r))
       (filter (\<lambda>r. jb_workspaceId r = workspaceId \<and> jb_state r = Dead) (jobs db))))))"

definition isAdminScope :: "ScopeActor \<Rightarrow> bool" where
  "isAdminScope actor = (case actor of Actor_user _ role \<Rightarrow> role = Role_admin | Actor_system _ \<Rightarrow> False)"

definition revive_change :: "instant \<Rightarrow> JobRow \<Rightarrow> JobRow" where
  "revive_change now r = r\<lparr> jb_state := Queued, jb_deadAt := None, jb_attemptCount := 0,
     jb_payload := (jb_payload r)\<lparr>pl_chunking := None\<rparr>, jb_requeuedCount := jb_requeuedCount r + 1,
     jb_runAt := now, jb_notBefore := now, jb_leaseOwner := None, jb_leaseExpiresAt := None,
     jb_errorCode := None, jb_errorDetail := None, jb_updatedAt := now\<rparr>"

datatype RequeueOutcome = Requeue_done uuid string | Requeue_not_admin | Requeue_not_dead

definition requeue_hit :: "uuid \<Rightarrow> uuid \<Rightarrow> JobRow \<Rightarrow> bool" where
  "requeue_hit workspaceId jobId r \<longleftrightarrow> jb_workspaceId r = workspaceId \<and> jb_id r = jobId \<and> jb_state r = Dead"

definition requeueDeadJob :: "instant \<Rightarrow> uuid \<Rightarrow> ScopeActor \<Rightarrow> uuid \<Rightarrow> string \<Rightarrow> JobsDb \<Rightarrow>
    JobError + JobsDb \<times> RequeueOutcome" where
  "requeueDeadJob now workspaceId actor jobId reason db =
     (if \<not> isAdminScope actor then Inr (db, Requeue_not_admin) else
      let actorUserId = (case actor of Actor_user u _ \<Rightarrow> Some u | Actor_system _ \<Rightarrow> None);
          hit = requeue_hit workspaceId jobId in
      and_then (update_jobs hit (revive_change now) db)
        (\<lambda>(db', _). case sql_one hit (jobs db) of
           None \<Rightarrow> Inr (db', Requeue_not_dead)
         | Some r \<Rightarrow> Inr (db'\<lparr>job_audits := job_audits db' @
             [\<lparr> ja_workspaceId = workspaceId, ja_actorUserId = actorUserId, ja_subjectId = jobId,
                ja_kind = jb_kind r, ja_reason = reason \<rparr>]\<rparr>, Requeue_done jobId (jb_kind r))))"

end
