(* ===== verification/JobInvariant.thy ===== *)
theory JobInvariant
  imports JobStore
begin

text \<open>
  The queue as a system of workers: its abstract lease machine, the contract every
  statement keeps on a row, the step relation of all operations with the claims handed
  out so far, and the invariant of the reachable states.
\<close>

section \<open>The abstract lease machine\<close>

datatype LeasePhase = Waiting | Leased | Finished | Buried

text \<open>What the queue promises of one job: its phase, the fencing token, the attempts made.\<close>
record LeaseSpec =
  ls_phase :: LeasePhase
  ls_token :: nat
  ls_attempts :: nat
  ls_maxAttempts :: nat

inductive lease_step :: "LeaseSpec \<Rightarrow> LeaseSpec \<Rightarrow> bool" where
  take: "ls_phase s = Waiting \<Longrightarrow> ls_attempts s < ls_maxAttempts s \<Longrightarrow>
    lease_step s (s\<lparr>ls_phase := Leased, ls_token := ls_token s + 1, ls_attempts := ls_attempts s + 1\<rparr>)"
| finish: "ls_phase s = Leased \<Longrightarrow> lease_step s (s\<lparr>ls_phase := Finished\<rparr>)"
| give_back: "ls_phase s = Leased \<Longrightarrow> lease_step s (s\<lparr>ls_phase := Waiting\<rparr>)"
| yield: "ls_phase s = Leased \<Longrightarrow> lease_step s (s\<lparr>ls_phase := Waiting, ls_attempts := ls_attempts s - 1\<rparr>)"
| bury: "ls_phase s = Leased \<Longrightarrow> lease_step s (s\<lparr>ls_phase := Buried\<rparr>)"
| revive: "ls_phase s = Buried \<Longrightarrow> lease_step s (s\<lparr>ls_phase := Waiting, ls_attempts := 0\<rparr>)"

fun phase_of :: "JobState \<Rightarrow> LeasePhase" where
  "phase_of Queued = Waiting"
| "phase_of Retryable = Waiting"
| "phase_of Running = Leased"
| "phase_of Done = Finished"
| "phase_of Dead = Buried"

definition abs_job :: "JobRow \<Rightarrow> LeaseSpec" where
  "abs_job r = \<lparr> ls_phase = phase_of (jb_state r), ls_token = jb_fencingToken r,
     ls_attempts = jb_attemptCount r, ls_maxAttempts = jb_maxAttempts r \<rparr>"

lemma phase_of_iff [simp]:
  "phase_of s = Leased \<longleftrightarrow> s = Running" "phase_of s = Finished \<longleftrightarrow> s = Done" "phase_of s = Buried \<longleftrightarrow> s = Dead"
  "phase_of s = Waiting \<longleftrightarrow> s = Queued \<or> s = Retryable"
  by (cases s; simp)+

text \<open>The machine's moves seen through the rows, in the form the statements make them.\<close>
lemma abs_moves:
  "jb_state r = Queued \<or> jb_state r = Retryable \<Longrightarrow> jb_attemptCount r < jb_maxAttempts r \<Longrightarrow>
     lease_step (abs_job r) (abs_job (claim_change now owner secs r))"
  "jb_state r = Running \<Longrightarrow> lease_step (abs_job r) (abs_job (complete_change now r))"
  "jb_state r = Running \<Longrightarrow> lease_step (abs_job r) (abs_job (fail_change now ex delay f r))"
  "jb_state r = Running \<Longrightarrow> lease_step (abs_job r) (abs_job (requeue_change now r))"
  "jb_state r = Running \<Longrightarrow> lease_step (abs_job r) (abs_job (kill_change now code detail r))"
  "jb_state r = Running \<Longrightarrow> lease_step (abs_job r) (abs_job (reclaim_change now r))"
  "jb_state r = Dead \<Longrightarrow> lease_step (abs_job r) (abs_job (revive_change now r))"
  using lease_step.take [of "abs_job r"] lease_step.finish [of "abs_job r"]
    lease_step.give_back [of "abs_job r"] lease_step.yield [of "abs_job r"]
    lease_step.bury [of "abs_job r"] lease_step.revive [of "abs_job r"]
  by (auto simp: abs_job_def claim_change_def complete_change_def fail_change_def requeue_change_def
      kill_change_def reclaim_change_def revive_change_def Let_def)

lemma abs_stutters:
  "abs_job (progress_change now clock p r) = abs_job r"
  "abs_job (renew_change now secs r) = abs_job r"
  "abs_job (archive_change now r) = abs_job r"
  by (simp_all add: abs_job_def progress_change_def renew_change_def archive_change_def)

section \<open>How a row may evolve\<close>

text \<open>Identity and attempt limit are fixed, the token only grows, a lease is got only with a
  new token, a completion is final, and the lease machine is followed.\<close>
definition job_evolves :: "JobRow \<Rightarrow> JobRow \<Rightarrow> bool" where
  "job_evolves r r' \<longleftrightarrow> job_key_of r' = job_key_of r \<and> jb_kind r' = jb_kind r \<and>
     jb_idempotencyKey r' = jb_idempotencyKey r \<and> jb_maxAttempts r' = jb_maxAttempts r \<and>
     jb_fencingToken r \<le> jb_fencingToken r' \<and>
     (jb_fencingToken r' = jb_fencingToken r \<longrightarrow> jb_state r' = Running \<longrightarrow>
        jb_state r = Running \<and> jb_leaseOwner r' = jb_leaseOwner r \<and> jb_attemptCount r' = jb_attemptCount r) \<and>
     (jb_state r = Done \<longrightarrow> jb_state r' = Done \<and> jb_completedAt r' = jb_completedAt r) \<and>
     lease_step\<^sup>*\<^sup>* (abs_job r) (abs_job r')"

lemma job_evolves_refl [simp]: "job_evolves r r"
  by (simp add: job_evolves_def)

lemma job_evolves_trans: "job_evolves r r' \<Longrightarrow> job_evolves r' r'' \<Longrightarrow> job_evolves r r''"
proof -
  assume a: "job_evolves r r'" and b: "job_evolves r' r''"
  then have "lease_step\<^sup>*\<^sup>* (abs_job r) (abs_job r'')"
    unfolding job_evolves_def by (meson rtranclp_trans)
  moreover have "jb_fencingToken r'' = jb_fencingToken r \<Longrightarrow> jb_fencingToken r' = jb_fencingToken r"
    using a b unfolding job_evolves_def by linarith
  ultimately show ?thesis using a b unfolding job_evolves_def
    by (elim conjE) (intro conjI impI; simp)
qed

section \<open>The contract of a statement\<close>

text \<open>Rows that wait have an attempt left.\<close>
definition job_live :: "JobRow \<Rightarrow> bool" where
  "job_live r \<longleftrightarrow> job_row_ok r \<and>
     (jb_state r = Queued \<or> jb_state r = Retryable \<longrightarrow> jb_attemptCount r < jb_maxAttempts r)"

lemma job_live_ok [simp]: "job_live r \<Longrightarrow> job_row_ok r"
  by (simp add: job_live_def)

locale job_statement =
  fixes guard :: "JobRow \<Rightarrow> bool" and change :: "JobRow \<Rightarrow> JobRow"
  assumes evolves: "guard r \<Longrightarrow> job_evolves r (change r)"
    and waits: "guard r \<Longrightarrow> job_live r \<Longrightarrow> job_row_ok (change r) \<Longrightarrow> job_live (change r)"
begin

lemma key: "guard r \<Longrightarrow> job_key_of (change r) = job_key_of r"
  and work: "guard r \<Longrightarrow> (jb_workspaceId (change r), jb_kind (change r), jb_idempotencyKey (change r)) =
      (jb_workspaceId r, jb_kind r, jb_idempotencyKey r)"
  using evolves [of r] by (auto simp: job_evolves_def job_key_of_def)

end

definition find_job :: "uuid \<times> uuid \<Rightarrow> JobsDb \<Rightarrow> JobRow option" where
  "find_job k db = sql_one (\<lambda>r. job_key_of r = k) (jobs db)"

definition work_of :: "JobRow \<Rightarrow> uuid \<times> string \<times> string" where
  "work_of r = (jb_workspaceId r, jb_kind r, jb_idempotencyKey r)"

definition queue_ok :: "JobsDb \<Rightarrow> bool" where
  "queue_ok db \<longleftrightarrow> (\<forall>r\<in>set (jobs db). job_live r) \<and> distinct (map job_key_of (jobs db)) \<and>
     distinct (map work_of (jobs db))"

text \<open>Every row of the first state is found in the second, evolved.\<close>
definition queue_evolves :: "JobsDb \<Rightarrow> JobsDb \<Rightarrow> bool" where
  "queue_evolves db db' \<longleftrightarrow> (\<forall>k r. find_job k db = Some r \<longrightarrow>
     (\<exists>r'. find_job k db' = Some r' \<and> job_evolves r r'))"

lemma queue_evolves_refl [simp]: "queue_evolves db db"
  by (auto simp: queue_evolves_def)

lemma queue_evolves_trans: "queue_evolves a b \<Longrightarrow> queue_evolves b c \<Longrightarrow> queue_evolves a c"
  unfolding queue_evolves_def by (blast intro: job_evolves_trans)

lemma queue_evolvesE:
  assumes "queue_evolves db db'" "find_job k db = Some r"
  obtains r' where "find_job k db' = Some r'" "job_evolves r r'"
  using assms unfolding queue_evolves_def by blast

lemma find_job_Some: "find_job k db = Some r \<Longrightarrow> r \<in> set (jobs db) \<and> job_key_of r = k"
  by (auto simp: find_job_def dest: sql_one_Some)

lemma find_job_iff:
  "queue_ok db \<Longrightarrow> find_job k db = Some r \<longleftrightarrow> r \<in> set (jobs db) \<and> job_key_of r = k"
  by (auto simp: find_job_def queue_ok_def sql_one_key dest: sql_one_Some)

lemma update_jobs_Inr:
  "update_jobs hit change db = Inr (db', n) \<longleftrightarrow>
     (\<forall>r\<in>set (jobs db). hit r \<longrightarrow> job_row_ok (change r)) \<and>
     db' = db\<lparr>jobs := sql_update hit change (jobs db)\<rparr> \<and> n = sql_count hit (jobs db)"
  by (auto simp: update_jobs_def list_all_iff)

context job_statement
begin

lemma update_find:
  assumes "update_jobs hit change db = Inr (db', n)" and hit: "\<And>r. hit r \<Longrightarrow> guard r"
  shows "find_job k db' = map_option (\<lambda>r. if hit r then change r else r) (find_job k db)"
  using assms(1) sql_one_update_same [of hit job_key_of change k "jobs db"] key hit
  by (simp add: update_jobs_Inr find_job_def)

lemma update_evolves:
  assumes "update_jobs hit change db = Inr (db', n)" and hit: "\<And>r. hit r \<Longrightarrow> guard r"
  shows "queue_evolves db db'"
  using update_find [OF assms] evolves hit by (auto simp: queue_evolves_def)

lemma update_ok:
  assumes u: "update_jobs hit change db = Inr (db', n)" and hit: "\<And>r. hit r \<Longrightarrow> guard r"
    and ok: "queue_ok db"
  shows "queue_ok db'"
proof -
  have "job_live r" if "r \<in> set (jobs db')" for r
    using that u ok waits hit by (auto simp: update_jobs_Inr set_sql_update queue_ok_def)
  moreover have "map job_key_of (jobs db') = map job_key_of (jobs db)"
    "map work_of (jobs db') = map work_of (jobs db)"
    using u key work hit by (auto simp: update_jobs_Inr work_of_def intro!: sql_update_map_key)
  ultimately show ?thesis using ok by (simp add: queue_ok_def)
qed

lemma update_kept:
  "update_jobs hit change db = Inr (db', n) \<Longrightarrow> (\<And>r. hit r \<Longrightarrow> guard r) \<Longrightarrow> queue_ok db \<Longrightarrow>
   queue_ok db' \<and> queue_evolves db db'"
  by (blast intro: update_ok update_evolves)

end

section \<open>The statements keep the contract\<close>

definition claim_guard :: "JobRow \<Rightarrow> bool" where
  "claim_guard r \<longleftrightarrow> (jb_state r = Queued \<or> jb_state r = Retryable) \<and> jb_attemptCount r < jb_maxAttempts r"

definition running_guard :: "JobRow \<Rightarrow> bool" where
  "running_guard r \<longleftrightarrow> jb_state r = Running"

text \<open>\<open>failJob\<close> judges exhaustion by the claim; the claim's numbers are the row's.\<close>
definition fail_guard :: "bool \<Rightarrow> JobRow \<Rightarrow> bool" where
  "fail_guard exhausted r \<longleftrightarrow> jb_state r = Running \<and> exhausted = (jb_maxAttempts r \<le> jb_attemptCount r)"

lemmas job_changes = claim_change_def complete_change_def fail_change_def requeue_change_def
  kill_change_def reclaim_change_def revive_change_def progress_change_def renew_change_def
  archive_change_def

text \<open>The shared steps: the contract unfolded, the machine's move, then the change.\<close>
lemmas statement_defs = job_statement_def job_evolves_def
lemmas statement_moves = r_into_rtranclp abs_moves abs_stutters
lemmas statement_rows = job_changes job_key_of_def job_live_def

interpretation claims: job_statement claim_guard "claim_change now owner secs" for now owner secs
  by (simp_all only: statement_defs claim_guard_def, simp_all add: statement_moves, simp_all add: statement_rows) auto

interpretation completes: job_statement running_guard "complete_change now" for now
  by (simp_all only: statement_defs running_guard_def, simp_all add: statement_moves, simp_all add: statement_rows)

interpretation fails: job_statement "fail_guard exhausted" "fail_change now exhausted delay failure"
  for now exhausted delay failure
  by (cases exhausted) (simp_all only: statement_defs fail_guard_def, simp_all add: statement_moves,
    simp_all add: statement_rows)

interpretation requeues: job_statement running_guard "requeue_change now" for now
  by (simp_all only: statement_defs running_guard_def, simp_all add: statement_moves, simp_all add: statement_rows)
    (auto simp: job_row_ok_def)

interpretation kills: job_statement running_guard "kill_change now code detail" for now code detail
  by (simp_all only: statement_defs running_guard_def, simp_all add: statement_moves, simp_all add: statement_rows)

interpretation reclaims: job_statement running_guard "reclaim_change now" for now
proof
  show "running_guard r \<Longrightarrow> job_evolves r (reclaim_change now r)" for r
    using abs_moves(6) [of r now]
    by (cases "jb_maxAttempts r \<le> jb_attemptCount r")
      (simp_all add: running_guard_def job_evolves_def r_into_rtranclp, simp_all add: reclaim_change_def job_key_of_def)
  show "running_guard r \<Longrightarrow> job_live r \<Longrightarrow> job_row_ok (reclaim_change now r) \<Longrightarrow>
      job_live (reclaim_change now r)" for r
    by (cases "jb_maxAttempts r \<le> jb_attemptCount r") (simp_all add: job_live_def reclaim_change_def)
qed

interpretation revives: job_statement "\<lambda>r. jb_state r = Dead" "revive_change now" for now
  by (simp_all only: statement_defs, simp_all add: statement_moves, simp_all add: statement_rows)
    (auto simp: job_row_ok_def)

interpretation progresses: job_statement running_guard "progress_change now clock p" for now clock p
  by (simp_all only: statement_defs running_guard_def, simp_all add: statement_moves, simp_all add: statement_rows)

interpretation renews: job_statement running_guard "renew_change now secs" for now secs
  by (simp_all only: statement_defs running_guard_def, simp_all add: statement_moves, simp_all add: statement_rows)

interpretation archives: job_statement "\<lambda>r. jb_state r = Done" "archive_change now" for now
  by (simp_all only: statement_defs, simp_all add: statement_moves, simp_all add: statement_rows)

section \<open>Operations as statements\<close>

lemma fenced_Inr:
  "fenced claim change outcome db = Inr (db', out) \<longleftrightarrow>
     (\<exists>n. update_jobs (holds claim) change db = Inr (db', n) \<and> out = (if n = 1 then outcome else Lease_lost))"
  by (auto simp: fenced_def and_then_Inr_iff)

lemma holds_running: "holds claim r \<Longrightarrow> running_guard r"
  by (simp add: holds_def running_guard_def)

definition ticket_key :: "ClaimedJob \<Rightarrow> uuid \<times> uuid" where
  "ticket_key c = (cl_workspaceId c, cl_id c)"

lemma holds_key: "holds claim r \<Longrightarrow> job_key_of r = ticket_key claim"
  by (simp add: holds_def job_key_of_def ticket_key_def)

text \<open>A claim no row holds writes nothing.\<close>
lemma update_none: "\<forall>r\<in>set (jobs db). \<not> hit r \<Longrightarrow> update_jobs hit change db = Inr (db, 0)"
  by (auto simp: update_jobs_def list_all_iff sql_update_none sql_count_0)

lemma fenced_lost: "\<forall>r\<in>set (jobs db). \<not> holds claim r \<Longrightarrow> fenced claim change outcome db = Inr (db, Lease_lost)"
  by (simp add: fenced_def update_none)

lemma in_candidates:
  "r \<in> set (candidates now locked kinds limit db) \<Longrightarrow>
     r \<in> set (jobs db) \<and> runnable now kinds r \<and> \<not> locked (job_key_of r)"
  by (auto simp: candidates_def dest!: in_set_takeD)

lemma distinct_candidates:
  assumes "distinct (map key (jobs db))"
  shows "distinct (map key (candidates now locked kinds limit db))"
proof -
  have d: "distinct xs" and i: "inj_on key (set xs)" if "distinct (map key xs)" for xs :: "JobRow list"
    using that by (simp_all add: distinct_map)
  have s: "distinct (sort_key f (filter p (jobs db)))" "set (sort_key f (filter p (jobs db))) \<subseteq> set (jobs db)"
    for f :: "JobRow \<Rightarrow> int \<times> string" and p
    using d [OF assms] by auto
  show ?thesis unfolding candidates_def distinct_map
    using s d i [OF assms]
    by (auto intro!: distinct_take inj_on_subset [OF i [OF assms]] dest!: in_set_takeD)
qed

definition chosen :: "JobRow list \<Rightarrow> JobRow \<Rightarrow> bool" where
  "chosen rs r \<longleftrightarrow> job_key_of r \<in> set (map job_key_of rs)"

lemma chosen_iff:
  assumes "distinct (map job_key_of (jobs db))" "set rs \<subseteq> set (jobs db)" "r \<in> set (jobs db)"
  shows "chosen rs r \<longleftrightarrow> r \<in> set rs"
  using assms by (auto simp: chosen_def distinct_map dest: inj_onD)

text \<open>An update of chosen rows is the update of the rows chosen that meet the guard.\<close>
lemma update_jobs_cong:
  "(\<And>r. r \<in> set (jobs db) \<Longrightarrow> hit r = hit' r) \<Longrightarrow> update_jobs hit change db = update_jobs hit' change db"
proof -
  assume h: "\<And>r. r \<in> set (jobs db) \<Longrightarrow> hit r = hit' r"
  then have "sql_update hit change (jobs db) = sql_update hit' change (jobs db)"
    "sql_count hit (jobs db) = sql_count hit' (jobs db)"
    by (simp_all add: sql_update_def sql_count_def cong: filter_cong)
  then show ?thesis using h by (simp add: update_jobs_def list_all_iff)
qed

lemma claimJobs_Inr:
  assumes "claimJobs now locked options db = Inr (db', claims)" "queue_ok db"
  obtains "db' = db" "claims = []"
  | secs rs n where "update_jobs (\<lambda>r. chosen rs r \<and> claim_guard r) (claim_change now (co_owner options) secs) db = Inr (db', n)"
      "rs = candidates now locked (co_kinds options) (co_limit options) db"
      "claims = map (\<lambda>r. toClaim (claim_change now (co_owner options) secs r)) rs"
proof (cases "co_kinds options = []")
  case True
  then show ?thesis using assms that(1) by (auto simp: claimJobs_def split: option.splits if_splits)
next
  case False
  then obtain secs where secs: "co_leaseSeconds options = Some secs"
    using assms(1) by (auto simp: claimJobs_def split: option.splits)
  let ?rs = "candidates now locked (co_kinds options) (co_limit options) db"
  have u: "update_jobs (chosen ?rs) (claim_change now (co_owner options) secs) db = Inr (db', n)"
    and c: "claims = map (\<lambda>r. toClaim (claim_change now (co_owner options) secs r)) ?rs"
    if "and_then (update_jobs (chosen ?rs) (claim_change now (co_owner options) secs) db)
        (\<lambda>(d, _). Inr (d, map (\<lambda>r. toClaim (claim_change now (co_owner options) secs r)) ?rs)) = Inr (db', claims)"
      "n = snd (projr (update_jobs (chosen ?rs) (claim_change now (co_owner options) secs) db))" for n
    using that by (auto simp: and_then_Inr_iff)
  have t: "and_then (update_jobs (chosen ?rs) (claim_change now (co_owner options) secs) db)
        (\<lambda>(d, _). Inr (d, map (\<lambda>r. toClaim (claim_change now (co_owner options) secs r)) ?rs)) = Inr (db', claims)"
    using assms(1) False secs
    by (simp add: claimJobs_def Let_def chosen_def [abs_def] split: if_splits)
  have "update_jobs (chosen ?rs) (claim_change now (co_owner options) secs) db =
      update_jobs (\<lambda>r. chosen ?rs r \<and> claim_guard r) (claim_change now (co_owner options) secs) db"
  proof (rule update_jobs_cong)
    fix r assume "r \<in> set (jobs db)"
    then have "chosen ?rs r \<longleftrightarrow> r \<in> set ?rs"
      using assms(2) by (intro chosen_iff) (auto simp: queue_ok_def dest: in_candidates)
    then show "chosen ?rs r \<longleftrightarrow> chosen ?rs r \<and> claim_guard r"
      by (auto simp: claim_guard_def runnable_def dest: in_candidates)
  qed
  then show ?thesis using that(2) [OF _ refl c [OF t refl]] u [OF t refl] by simp
qed

lemma chosen_guard:
  assumes "queue_ok db" "set rs \<subseteq> set (jobs db)" "\<And>r. r \<in> set rs \<Longrightarrow> guard r"
  shows "update_jobs (chosen rs) change db = update_jobs (\<lambda>r. chosen rs r \<and> guard r) change db"
  using assms by (intro update_jobs_cong) (auto simp: chosen_iff queue_ok_def)

lemma reclaim_Inr:
  assumes "reclaimExpiredLeases now locked limit db = Inr (db', n)" "queue_ok db"
  obtains rs where "update_jobs (\<lambda>r. chosen rs r \<and> running_guard r) (reclaim_change now) db = Inr (db', n)"
proof
  have "set (expired_leases now locked limit db) \<subseteq> {r \<in> set (jobs db). running_guard r}"
    by (auto simp: expired_leases_def lease_expired_def running_guard_def dest!: in_set_takeD)
  then show "update_jobs (\<lambda>r. chosen (expired_leases now locked limit db) r \<and> running_guard r) (reclaim_change now) db = Inr (db', n)"
    using assms by (subst chosen_guard [symmetric])
      (auto simp: reclaimExpiredLeases_def chosen_def [abs_def] split: if_splits)
qed

lemma archive_Inr:
  assumes "archiveCompletedPayloads now secs limit db = Inr (db', n)" "queue_ok db"
  obtains rs where "update_jobs (\<lambda>r. chosen rs r \<and> jb_state r = Done) (archive_change now) db = Inr (db', n)"
proof
  have "set (archive_rows now secs limit db) \<subseteq> {r \<in> set (jobs db). jb_state r = Done}"
    by (auto simp: archive_rows_def archivable_def dest!: in_set_takeD)
  then show "update_jobs (\<lambda>r. chosen (archive_rows now secs limit db) r \<and> jb_state r = Done) (archive_change now) db = Inr (db', n)"
    using assms by (subst chosen_guard [symmetric])
      (auto simp: archiveCompletedPayloads_def chosen_def [abs_def] split: if_splits)
qed

section \<open>The system\<close>

text \<open>The queue and the claims handed out.  Workers write only with a claim they were handed;
  everything else may happen at any time, in any order.\<close>
record JobSystem =
  js_db :: JobsDb
  js_issued :: "ClaimedJob list"

inductive queue_step :: "JobSystem \<Rightarrow> JobSystem \<Rightarrow> bool" where
  q_enqueue: "enqueueJob fresh now sp (js_db s) = Inr (db', out) \<Longrightarrow>
    find_job (sp_workspaceId sp, fresh) (js_db s) = None \<Longrightarrow> queue_step s (s\<lparr>js_db := db'\<rparr>)"
| q_claim: "claimJobs now locked options (js_db s) = Inr (db', claims) \<Longrightarrow>
    queue_step s \<lparr>js_db = db', js_issued = js_issued s @ claims\<rparr>"
| q_complete: "c \<in> set (js_issued s) \<Longrightarrow> completeJob now c (js_db s) = Inr (db', o1) \<Longrightarrow>
    queue_step s (s\<lparr>js_db := db'\<rparr>)"
| q_fail: "c \<in> set (js_issued s) \<Longrightarrow> failJob now c failure (js_db s) = Inr (db', o1) \<Longrightarrow>
    queue_step s (s\<lparr>js_db := db'\<rparr>)"
| q_progress: "c \<in> set (js_issued s) \<Longrightarrow>
    writeProgress now clock \<lparr> pw_jobId = cl_id c, pw_workspaceId = cl_workspaceId c,
      pw_fencingToken = cl_fencingToken c, pw_progress = p \<rparr> (js_db s) = Inr (db', o2) \<Longrightarrow>
    queue_step s (s\<lparr>js_db := db'\<rparr>)"
| q_requeue: "c \<in> set (js_issued s) \<Longrightarrow> requeueForNextChunk now c (js_db s) = Inr (db', o1) \<Longrightarrow>
    queue_step s (s\<lparr>js_db := db'\<rparr>)"
| q_kill: "c \<in> set (js_issued s) \<Longrightarrow> killJob now c code detail (js_db s) = Inr (db', o1) \<Longrightarrow>
    queue_step s (s\<lparr>js_db := db'\<rparr>)"
| q_renew: "c \<in> set (js_issued s) \<Longrightarrow> renewLease now c secs (js_db s) = Inr (db', o3) \<Longrightarrow>
    queue_step s (s\<lparr>js_db := db'\<rparr>)"
| q_reclaim: "reclaimExpiredLeases now locked limit (js_db s) = Inr (db', n) \<Longrightarrow>
    queue_step s (s\<lparr>js_db := db'\<rparr>)"
| q_archive: "archiveCompletedPayloads now secs limit (js_db s) = Inr (db', n) \<Longrightarrow>
    queue_step s (s\<lparr>js_db := db'\<rparr>)"
| q_revive: "requeueDeadJob now wid actor jobId reason (js_db s) = Inr (db', o4) \<Longrightarrow>
    queue_step s (s\<lparr>js_db := db'\<rparr>)"

text \<open>A claim against the row it names.\<close>
definition claim_current :: "ClaimedJob \<Rightarrow> JobRow \<Rightarrow> bool" where
  "claim_current c r \<longleftrightarrow> cl_maxAttempts c = jb_maxAttempts r \<and> cl_fencingToken c \<le> jb_fencingToken r \<and>
     (cl_fencingToken c = jb_fencingToken r \<longrightarrow> jb_state r = Running \<longrightarrow>
        jb_leaseOwner r = Some (cl_leaseOwner c) \<and> jb_attemptCount r = cl_attempt c)"

definition ticket :: "ClaimedJob \<Rightarrow> (uuid \<times> uuid) \<times> nat" where
  "ticket c = (ticket_key c, cl_fencingToken c)"

definition system_ok :: "JobSystem \<Rightarrow> bool" where
  "system_ok s \<longleftrightarrow> queue_ok (js_db s) \<and> distinct (map ticket (js_issued s)) \<and>
     (\<forall>c\<in>set (js_issued s). \<exists>r. find_job (ticket_key c) (js_db s) = Some r \<and> claim_current c r)"

lemma claim_current_evolves: "claim_current c r \<Longrightarrow> job_evolves r r' \<Longrightarrow> claim_current c r'"
  unfolding claim_current_def job_evolves_def by (elim conjE) (intro conjI impI; simp)

lemma system_okD:
  "system_ok s \<Longrightarrow> queue_ok (js_db s)"
  "system_ok s \<Longrightarrow> c \<in> set (js_issued s) \<Longrightarrow> \<exists>r. find_job (ticket_key c) (js_db s) = Some r \<and> claim_current c r"
  by (auto simp: system_ok_def)

text \<open>A step that only changes the queue keeps the system.\<close>
lemma system_ok_db:
  assumes "system_ok s" "queue_ok db'" "queue_evolves (js_db s) db'"
  shows "system_ok (s\<lparr>js_db := db'\<rparr>)"
proof -
  have "\<exists>r. find_job (ticket_key c) db' = Some r \<and> claim_current c r" if c: "c \<in> set (js_issued s)" for c
    using system_okD(2) [OF assms(1) c] assms(3) by (meson claim_current_evolves queue_evolvesE)
  then show ?thesis using assms by (simp add: system_ok_def)
qed

text \<open>The row an issued claim holds has its attempt numbers.\<close>
lemma issued_holds:
  assumes "system_ok s" "c \<in> set (js_issued s)" "r \<in> set (jobs (js_db s))" "holds c r"
  shows "jb_attemptCount r = cl_attempt c \<and> jb_maxAttempts r = cl_maxAttempts c"
proof -
  obtain r' where r': "find_job (ticket_key c) (js_db s) = Some r'" "claim_current c r'"
    using system_okD(2) [OF assms(1,2)] by blast
  moreover have "find_job (ticket_key c) (js_db s) = Some r"
    using assms(3) holds_key [OF assms(4)] find_job_iff [OF system_okD(1) [OF assms(1)]] by blast
  ultimately have "r' = r" by simp
  then show ?thesis using r'(2) assms(4) by (simp add: claim_current_def holds_def)
qed

lemma find_job_append:
  "find_job k db = Some r \<Longrightarrow> find_job k (db\<lparr>jobs := jobs db @ rs\<rparr>) = Some r"
  by (simp add: find_job_def sql_one_append)

lemma enqueue_ok:
  assumes "enqueueJob fresh now sp db = Inr (db', out)" "find_job (sp_workspaceId sp, fresh) db = None" "queue_ok db"
  shows "queue_ok db' \<and> queue_evolves db db'"
proof (cases "sql_one (same_work sp) (jobs db)")
  case (Some r)
  then show ?thesis using assms by (auto simp: enqueueJob_def Let_def split: if_splits)
next
  case None
  let ?row = "new_job fresh now sp"
  have db': "db' = db\<lparr>jobs := jobs db @ [?row]\<rparr>" "job_row_ok ?row"
    using None assms by (auto simp: enqueueJob_def Let_def split: if_splits)
  have "work_of ?row \<notin> work_of ` set (jobs db)"
    using None by (auto simp: sql_one_None same_work_def work_of_def new_job_def)
  moreover have "job_key_of ?row \<notin> job_key_of ` set (jobs db)"
    using assms(2) by (auto simp: find_job_def sql_one_None job_key_of_def new_job_def)
  moreover have "job_live ?row" using db'(2) by (simp add: job_live_def job_row_ok_def new_job_def)
  ultimately have "queue_ok db'" using assms(3) by (auto simp: queue_ok_def db'(1))
  then show ?thesis by (auto simp: queue_evolves_def db'(1) dest: find_job_append)
qed

text \<open>The rows a claim returns are the rows it left.\<close>
lemma claim_rows:
  assumes "claimJobs now locked options db = Inr (db', claims)" "queue_ok db" "c \<in> set claims"
  obtains secs r where "find_job (ticket_key c) db = Some r" "find_job (ticket_key c) db' = Some (claim_change now (co_owner options) secs r)"
    "c = toClaim (claim_change now (co_owner options) secs r)" "claim_guard r"
  using assms(1,2)
proof (cases rule: claimJobs_Inr)
  case 1
  then show ?thesis using assms(3) by simp
next
  case (2 secs rs n)
  obtain r where r: "r \<in> set rs" "c = toClaim (claim_change now (co_owner options) secs r)"
    using 2(3) assms(3) by auto
  have in_db: "r \<in> set (jobs db)" and g: "claim_guard r"
    using r(1) 2(2) by (auto dest!: in_candidates simp: claim_guard_def runnable_def)
  have k: "job_key_of r = ticket_key c" using r(2) by (simp add: ticket_key_def toClaim_def job_key_of_def claim_change_def)
  have f: "find_job (ticket_key c) db = Some r" using in_db k find_job_iff [OF assms(2)] by blast
  have "chosen rs r" using r(1) by (auto simp: chosen_def)
  then have "find_job (ticket_key c) db' = Some (claim_change now (co_owner options) secs r)"
    using claims.update_find [OF 2(1)] f g by simp
  then show ?thesis using that f r(2) g by blast
qed

lemma claim_ok:
  assumes "claimJobs now locked options db = Inr (db', claims)" "queue_ok db"
  shows "queue_ok db' \<and> queue_evolves db db' \<and> distinct (map ticket_key claims)"
  using assms
proof (cases rule: claimJobs_Inr)
  case (2 secs rs n)
  have "map ticket_key claims = map job_key_of rs"
    by (simp add: 2(3) ticket_key_def toClaim_def job_key_of_def claim_change_def)
  then show ?thesis
    using claims.update_ok [OF 2(1) _ assms(2)] claims.update_evolves [OF 2(1)] assms(2)
      distinct_candidates [of job_key_of db] by (simp add: 2(2) queue_ok_def)
qed (use assms in simp)

lemma claim_system_ok:
  assumes ok: "system_ok s" and c: "claimJobs now locked options (js_db s) = Inr (db', claims)"
  shows "system_ok \<lparr>js_db = db', js_issued = js_issued s @ claims\<rparr>"
proof -
  have q: "queue_ok (js_db s)" using ok by (rule system_okD)
  note kept = claim_ok [OF c q]
  have new: "\<exists>r. find_job (ticket_key x) db' = Some r \<and> claim_current x r" if x: "x \<in> set claims" for x
  proof -
    obtain secs r where "find_job (ticket_key x) db' = Some (claim_change now (co_owner options) secs r)"
      "x = toClaim (claim_change now (co_owner options) secs r)"
      using claim_rows [OF c q x] by metis
    then show ?thesis by (simp add: claim_current_def toClaim_def claim_change_def)
  qed
  have "system_ok (s\<lparr>js_db := db'\<rparr>)" using kept ok by (intro system_ok_db) auto
  moreover have "ticket x \<noteq> ticket y" if x: "x \<in> set claims" and y: "y \<in> set (js_issued s)" for x y
  proof
    assume t: "ticket x = ticket y"
    obtain secs r where r: "find_job (ticket_key x) (js_db s) = Some r"
      "x = toClaim (claim_change now (co_owner options) secs r)"
      using claim_rows [OF c q x] by metis
    obtain r' where "find_job (ticket_key y) (js_db s) = Some r'" "claim_current y r'"
      using system_okD(2) [OF ok y] by blast
    then show False using r t by (auto simp: ticket_def claim_current_def toClaim_def claim_change_def)
  qed
  moreover have "distinct (map ticket claims)"
    using kept by (auto simp: distinct_map inj_on_def ticket_def)
  ultimately show ?thesis using kept new by (auto simp: system_ok_def)
qed

lemma fenced_evolves:
  assumes "system_ok s" "fenced c change outcome (js_db s) = Inr (db', o1)" "job_statement running_guard change"
  shows "queue_ok db' \<and> queue_evolves (js_db s) db'"
  using assms(2) system_okD(1) [OF assms(1)] job_statement.update_kept [OF assms(3)] holds_running
  by (auto simp: fenced_Inr)

lemma fail_evolves:
  assumes "system_ok s" "c \<in> set (js_issued s)" "failJob now c failure (js_db s) = Inr (db', o1)"
  shows "queue_ok db' \<and> queue_evolves (js_db s) db'"
proof -
  let ?ex = "isExhausted (cl_attempt c) (cl_maxAttempts c)"
  obtain delay out where "fenced c (fail_change now ?ex delay failure) out (js_db s) = Inr (db', o1)"
    using assms(3) by (auto simp: failJob_def Let_def and_then_Inr_iff split: if_splits)
  then obtain n where "update_jobs (holds c) (fail_change now ?ex delay failure) (js_db s) = Inr (db', n)"
    by (auto simp: fenced_Inr)
  moreover have "update_jobs (holds c) (fail_change now ?ex delay failure) (js_db s) =
      update_jobs (\<lambda>r. holds c r \<and> fail_guard ?ex r) (fail_change now ?ex delay failure) (js_db s)"
    using issued_holds [OF assms(1,2)]
    by (intro update_jobs_cong) (auto simp: fail_guard_def isExhausted_def holds_def)
  ultimately have "update_jobs (\<lambda>r. holds c r \<and> fail_guard ?ex r) (fail_change now ?ex delay failure) (js_db s) = Inr (db', n)"
    by simp
  then show ?thesis
    by (rule fails.update_kept) (auto intro: system_okD(1) [OF assms(1)])
qed

lemma progress_running: "progress_hit w r \<Longrightarrow> running_guard r"
  by (simp add: progress_hit_def running_guard_def)

lemma revive_Inr:
  assumes "requeueDeadJob now wid actor jobId reason db = Inr (db', out)"
  obtains "db' = db"
  | db1 n where "update_jobs (requeue_hit wid jobId) (revive_change now) db = Inr (db1, n)" "jobs db' = jobs db1"
  using assms by (auto simp: requeueDeadJob_def Let_def and_then_Inr_iff split: if_splits option.splits)

lemma same_jobs: "jobs db' = jobs db \<Longrightarrow> find_job k db' = find_job k db \<and> queue_ok db' = queue_ok db"
  by (simp add: find_job_def queue_ok_def)

lemma revive_ok:
  assumes "requeueDeadJob now wid actor jobId reason db = Inr (db', out)" "queue_ok db"
  shows "queue_ok db' \<and> queue_evolves db db'"
  using assms(1)
proof (cases rule: revive_Inr)
  case (2 db1 n)
  have "queue_ok db1 \<and> queue_evolves db db1"
    using revives.update_ok [OF 2(1) _ assms(2)] revives.update_evolves [OF 2(1)]
    by (simp add: requeue_hit_def)
  then show ?thesis using same_jobs [OF 2(2)] by (simp add: queue_evolves_def)
qed (use assms in simp)

lemma queue_step_ok:
  assumes "queue_step s s'" "system_ok s"
  shows "system_ok s' \<and> queue_evolves (js_db s) (js_db s') \<and> (\<exists>more. js_issued s' = js_issued s @ more)"
  using assms
proof cases
  case (q_claim now locked options db' claims)
  then show ?thesis
    using claim_system_ok [OF assms(2) q_claim(2)] claim_ok [OF q_claim(2) system_okD(1) [OF assms(2)]]
    by (simp add: q_claim(1))
next
  case (q_enqueue fresh now sp db' out)
  have "queue_ok db' \<and> queue_evolves (js_db s) db'"
    using q_enqueue(2,3) system_okD(1) [OF assms(2)] by (rule enqueue_ok)
  then show ?thesis using q_enqueue(1) system_ok_db [OF assms(2)] by auto
next
  case (q_complete c now db' o1)
  then have "queue_ok db' \<and> queue_evolves (js_db s) db'"
    by (intro fenced_evolves [OF assms(2) _ completes.job_statement_axioms]) (simp add: completeJob_def)
  then show ?thesis using q_complete(1) system_ok_db [OF assms(2)] by auto
next
  case (q_fail c now failure db' o1)
  have "queue_ok db' \<and> queue_evolves (js_db s) db'"
    using q_fail(2,3) by (rule fail_evolves [OF assms(2)])
  then show ?thesis using q_fail(1) system_ok_db [OF assms(2)] by auto
next
  case (q_progress c now clock p db' o2)
  then obtain n where "update_jobs (progress_hit \<lparr> pw_jobId = cl_id c, pw_workspaceId = cl_workspaceId c,
      pw_fencingToken = cl_fencingToken c, pw_progress = p \<rparr>) (progress_change now clock p) (js_db s) = Inr (db', n)"
    by (auto simp: writeProgress_def and_then_Inr_iff)
  then have "queue_ok db' \<and> queue_evolves (js_db s) db'"
    by (rule progresses.update_kept) (auto intro: progress_running system_okD(1) [OF assms(2)])
  then show ?thesis using q_progress(1) system_ok_db [OF assms(2)] by auto
next
  case (q_requeue c now db' o1)
  then have "queue_ok db' \<and> queue_evolves (js_db s) db'"
    by (intro fenced_evolves [OF assms(2) _ requeues.job_statement_axioms]) (simp add: requeueForNextChunk_def)
  then show ?thesis using q_requeue(1) system_ok_db [OF assms(2)] by auto
next
  case (q_kill c now code detail db' o1)
  then have "queue_ok db' \<and> queue_evolves (js_db s) db'"
    by (intro fenced_evolves [OF assms(2) _ kills.job_statement_axioms]) (simp add: killJob_def)
  then show ?thesis using q_kill(1) system_ok_db [OF assms(2)] by auto
next
  case (q_renew c now secs db' o3)
  then obtain n where "update_jobs (holds c) (renew_change now secs) (js_db s) = Inr (db', n)"
    by (auto simp: renewLease_def and_then_Inr_iff)
  then have "queue_ok db' \<and> queue_evolves (js_db s) db'"
    by (rule renews.update_kept) (auto intro: holds_running system_okD(1) [OF assms(2)])
  then show ?thesis using q_renew(1) system_ok_db [OF assms(2)] by auto
next
  case (q_reclaim now locked limit db' n)
  then obtain rs where "update_jobs (\<lambda>r. chosen rs r \<and> running_guard r) (reclaim_change now) (js_db s) = Inr (db', n)"
    using reclaim_Inr system_okD(1) [OF assms(2)] by metis
  then have "queue_ok db' \<and> queue_evolves (js_db s) db'"
    by (rule reclaims.update_kept) (auto intro: system_okD(1) [OF assms(2)])
  then show ?thesis using q_reclaim(1) system_ok_db [OF assms(2)] by auto
next
  case (q_archive now secs limit db' n)
  then obtain rs where "update_jobs (\<lambda>r. chosen rs r \<and> jb_state r = Done) (archive_change now) (js_db s) = Inr (db', n)"
    using archive_Inr system_okD(1) [OF assms(2)] by metis
  then have "queue_ok db' \<and> queue_evolves (js_db s) db'"
    by (rule archives.update_kept) (auto intro: system_okD(1) [OF assms(2)])
  then show ?thesis using q_archive(1) system_ok_db [OF assms(2)] by auto
next
  case (q_revive now wid actor jobId reason db' o4)
  have "queue_ok db' \<and> queue_evolves (js_db s) db'"
    using q_revive(2) system_okD(1) [OF assms(2)] by (rule revive_ok)
  then show ?thesis using q_revive(1) system_ok_db [OF assms(2)] by auto
qed

definition empty_system :: JobSystem where
  "empty_system = \<lparr>js_db = \<lparr>jobs = [], job_audits = []\<rparr>, js_issued = []\<rparr>"

lemma system_ok_empty [simp]: "system_ok empty_system"
  by (simp add: system_ok_def empty_system_def queue_ok_def)

lemma queue_steps_ok:
  assumes "queue_step\<^sup>*\<^sup>* s s'" "system_ok s"
  shows "system_ok s' \<and> queue_evolves (js_db s) (js_db s') \<and> set (js_issued s) \<subseteq> set (js_issued s')"
  using assms
proof (induction rule: rtranclp_induct)
  case (step y z)
  then show ?case using queue_step_ok [OF step(2)] queue_evolves_trans by fastforce
qed simp

end
