(* ===== verification/JobRunner.thy ===== *)
theory JobRunner
  imports JobInvariant
begin

text \<open>
  \<open>packages/domain/jobs/heartbeats.ts\<close> and \<open>handlerRegistry.ts\<close>, and the worker loop of
  \<open>apps/worker/src/runner/jobRunner.ts\<close>.  A handler is a function of the claimed job on the
  world: the queue, the heartbeats, everything else the worker may write (\<open>'b\<close>) and the
  database clock, which the handler advances.  A rollback restores the world but not the
  clock.  The loop of \<open>runClaimedJob\<close> is a partial function: not returning is \<open>None\<close>.
\<close>

section \<open>Heartbeats\<close>

datatype HeartbeatComponent = Beat_api | Beat_scheduler | Beat_worker | Beat_mailbox

definition DEFAULT_HEARTBEAT_INTERVAL_SECONDS :: int where
  "DEFAULT_HEARTBEAT_INTERVAL_SECONDS = 60"

fun HEARTBEAT_GRACE_SECONDS :: "HeartbeatComponent \<Rightarrow> int" where
  "HEARTBEAT_GRACE_SECONDS Beat_api = 0"
| "HEARTBEAT_GRACE_SECONDS Beat_scheduler = 30"
| "HEARTBEAT_GRACE_SECONDS Beat_worker = 0"
| "HEARTBEAT_GRACE_SECONDS Beat_mailbox = 30"

definition heartbeatIsFresh :: "HeartbeatComponent \<Rightarrow> rat \<Rightarrow> int \<Rightarrow> bool" where
  "heartbeatIsFresh component ageSeconds expectedIntervalSeconds \<longleftrightarrow>
     ageSeconds \<le> of_int (expectedIntervalSeconds + HEARTBEAT_GRACE_SECONDS component)"

record HeartbeatRow =
  hb_workspaceId :: "uuid option"
  hb_component :: HeartbeatComponent
  hb_instanceKey :: string
  hb_observedAt :: instant
  hb_expectedIntervalSeconds :: int
  hb_detail :: "(string \<times> string) list"

text \<open>The input: a mailbox beat carries its workspace, the others none.\<close>
record HeartbeatInput =
  hi_component :: HeartbeatComponent
  hi_workspaceId :: uuid
  hi_instanceKey :: string
  hi_expectedIntervalSeconds :: "int option"
  hi_detail :: "(string \<times> string) list"

definition same_beat :: "HeartbeatRow \<Rightarrow> HeartbeatRow \<Rightarrow> bool" where
  "same_beat b r \<longleftrightarrow> hb_component r = hb_component b \<and> hb_instanceKey r = hb_instanceKey b \<and>
     hb_workspaceId r = hb_workspaceId b"

definition recordHeartbeat :: "instant \<Rightarrow> HeartbeatInput \<Rightarrow> HeartbeatRow list \<Rightarrow> JobError + HeartbeatRow list" where
  "recordHeartbeat now input beats =
     (let b = \<lparr> hb_workspaceId = (if hi_component input = Beat_mailbox then Some (hi_workspaceId input) else None),
        hb_component = hi_component input, hb_instanceKey = hi_instanceKey input, hb_observedAt = now,
        hb_expectedIntervalSeconds = coalesce (hi_expectedIntervalSeconds input) DEFAULT_HEARTBEAT_INTERVAL_SECONDS,
        hb_detail = hi_detail input \<rparr> in
      if \<not> present_bounded 200 (hb_instanceKey b) \<or> hb_expectedIntervalSeconds b \<le> 0 \<or>
         86400 < hb_expectedIntervalSeconds b
      then Inl CHECK_VIOLATION
      else if list_ex (same_beat b) beats
      then Inr (sql_update (same_beat b) (\<lambda>r. r\<lparr>hb_observedAt := now,
        hb_expectedIntervalSeconds := hb_expectedIntervalSeconds b, hb_detail := hb_detail b\<rparr>) beats)
      else Inr (beats @ [b]))"

record HeartbeatStatus =
  hs_component :: HeartbeatComponent
  hs_instanceKey :: string
  hs_workspaceId :: "uuid option"
  hs_ageSeconds :: rat
  hs_expectedIntervalSeconds :: int
  hs_fresh :: bool

text \<open>The component's text, as \<open>ORDER BY component\<close> compares it.\<close>
fun component_name :: "HeartbeatComponent \<Rightarrow> string" where
  "component_name Beat_api = ''api''"
| "component_name Beat_scheduler = ''scheduler''"
| "component_name Beat_worker = ''worker''"
| "component_name Beat_mailbox = ''mailbox''"

definition readHeartbeats :: "instant \<Rightarrow> HeartbeatRow list \<Rightarrow> HeartbeatStatus list" where
  "readHeartbeats now beats = map (\<lambda>r. let age = of_int (now - hb_observedAt r) / 1000 in
     \<lparr> hs_component = hb_component r, hs_instanceKey = hb_instanceKey r,
       hs_workspaceId = hb_workspaceId r, hs_ageSeconds = age,
       hs_expectedIntervalSeconds = hb_expectedIntervalSeconds r,
       hs_fresh = heartbeatIsFresh (hb_component r) age (hb_expectedIntervalSeconds r) \<rparr>)
     (sort_key (\<lambda>r. (component_name (hb_component r), hb_instanceKey r)) beats)"

section \<open>Handlers and the registry\<close>

record 'b World =
  wd_queue :: JobsDb
  wd_beats :: "HeartbeatRow list"
  wd_business :: 'b
  wd_clock :: instant

text \<open>\<open>progress\<close> is the cursor's JSON text.\<close>
record JobChunk =
  jc_progress :: string
  jc_done :: bool

text \<open>What a handler throws: a refusal of the model budget, an \<open>Error\<close>, or another value.\<close>
datatype JsError = ModelBudgetRefusal string | Js_error string string | Not_an_error

datatype HandlerResult = Threw JsError | Returned "JobChunk option"

record Scope =
  sc_workspaceId :: uuid
  sc_actor :: ScopeActor

definition scopeForJob :: "ClaimedJob \<Rightarrow> Scope" where
  "scopeForJob job = \<lparr> sc_workspaceId = cl_workspaceId job, sc_actor = Actor_system ''worker'' \<rparr>"

text \<open>\<open>hd_startsNewAttempts\<close>: the handler is in the set \<open>STARTS_NEW_ATTEMPTS\<close> of
  \<open>handlers/callTranscribe.ts\<close>, which \<open>callTranscribeStartsNewAttempts\<close> asks.\<close>
record 'b JobHandler =
  hd_kind :: string
  hd_protection :: IdempotencyProtection
  hd_maxAttempts :: int
  hd_leaseSeconds :: int
  hd_chunked :: "bool option"
  hd_handle :: "Scope \<Rightarrow> ClaimedJob \<Rightarrow> 'b World \<Rightarrow> HandlerResult \<times> 'b World"
  hd_startsNewAttempts :: bool

datatype HandlerRegistryError = KIND_UNKNOWN | KIND_ALREADY_REGISTERED | PROTECTION_MISMATCH
  | ATTEMPTS_INVALID | CLASS_MISSING | CHUNKING_UNSUPPORTED

text \<open>The two maps, in insertion order.\<close>
record 'b HandlerRegistry =
  hr_handlers :: "(string \<times> 'b JobHandler) list"
  hr_classes :: "(string \<times> JobClass) list"

definition register :: "(string \<Rightarrow> JobClass option) \<Rightarrow> 'b JobHandler \<Rightarrow> 'b HandlerRegistry \<Rightarrow>
    HandlerRegistryError + 'b HandlerRegistry" where
  "register classOf handler reg =
     (if \<not> isJobKind (hd_kind handler) then Inl KIND_UNKNOWN
      else if map_of (hr_handlers reg) (hd_kind handler) \<noteq> None then Inl KIND_ALREADY_REGISTERED
      else if map_of JOB_KIND_PROTECTION (hd_kind handler) \<noteq> Some (hd_protection handler) then Inl PROTECTION_MISMATCH
      else if hd_maxAttempts handler < 1 then Inl ATTEMPTS_INVALID
      else if hd_chunked handler = Some True \<and> hd_protection handler = Outbound_fence then Inl CHUNKING_UNSUPPORTED
      else case classOf (hd_kind handler) of
        None \<Rightarrow> Inl CLASS_MISSING
      | Some jobClass \<Rightarrow> Inr \<lparr> hr_handlers = hr_handlers reg @ [(hd_kind handler, handler)],
          hr_classes = hr_classes reg @ [(hd_kind handler, jobClass)] \<rparr>)"

definition registry_get :: "'b HandlerRegistry \<Rightarrow> string \<Rightarrow> 'b JobHandler option" where
  "registry_get reg kind = (if isJobKind kind then map_of (hr_handlers reg) kind else None)"

definition registry_kindsOfClass :: "'b HandlerRegistry \<Rightarrow> JobClass \<Rightarrow> string list" where
  "registry_kindsOfClass reg jobClass = map fst (filter (\<lambda>e. snd e = jobClass) (hr_classes reg))"

section \<open>Failure codes\<close>

definition ascii_upper :: "char \<Rightarrow> bool" where
  "ascii_upper c \<longleftrightarrow> 65 \<le> (of_char c :: nat) \<and> (of_char c :: nat) \<le> 90"

text \<open>\<open>replace(/([a-z0-9])([A-Z])/g, '$1_$2')\<close>\<close>
fun camel_split :: "string \<Rightarrow> string" where
  "camel_split (c # d # cs) = (if (ascii_lower c \<or> is_digit c) \<and> ascii_upper d
     then c # CHR ''_'' # camel_split (d # cs) else c # camel_split (d # cs))"
| "camel_split cs = cs"

definition failureCode :: "JsError \<Rightarrow> string" where
  "failureCode e =
     (let name = (case e of Js_error n _ \<Rightarrow> n | ModelBudgetRefusal _ \<Rightarrow> ''ModelBudgetRefusal''
        | Not_an_error \<Rightarrow> ''error'');
        word = (\<lambda>c. if ascii_lower c \<or> is_digit c \<or> c = CHR ''_'' then c else CHR ''_'');
        normalized = dropWhile (\<lambda>c. \<not> ascii_lower c) (map word (js_lower (camel_split name))) in
      if 3 \<le> length normalized then take 64 normalized else ''handler_failed'')"

definition failureDetail :: "JsError \<Rightarrow> string" where
  "failureDetail e = take 500 (case e of Js_error _ message \<Rightarrow> message
     | ModelBudgetRefusal code \<Rightarrow> code
     | Not_an_error \<Rightarrow> ''the handler threw a value that is not an Error'')"

section \<open>One attempt\<close>

definition holdsLease :: "ClaimedJob \<Rightarrow> JobsDb \<Rightarrow> bool" where
  "holdsLease job db \<longleftrightarrow> length (filter (holds job) (jobs db)) = 1"

definition CHUNK_MARGIN_MILLISECONDS :: int where "CHUNK_MARGIN_MILLISECONDS = 2000"
definition CHUNK_COUNT_LIMIT :: int where "CHUNK_COUNT_LIMIT = 500"
definition CHUNK_SECONDS_LIMIT :: int where "CHUNK_SECONDS_LIMIT = 6 * 60 * 60"

definition str_int :: "int \<Rightarrow> string" where
  "str_int n = (if n < 0 then ''-'' @ str_nat (nat (- n)) else str_nat (nat n))"

text \<open>The limits are a number of chunks and of seconds.\<close>
definition budgetOverrun :: "ChunkBookkeeping \<Rightarrow> instant \<Rightarrow> int \<Rightarrow> int \<Rightarrow> string option" where
  "budgetOverrun chunking nowMs chunk_limit seconds_limit =
     (if chunk_limit \<le> cb_chunks chunking
      then Some (''a chunked job committed '' @ str_int (cb_chunks chunking) @
        '' chunks without finishing (limit '' @ str_int chunk_limit @ '')'')
      else let elapsed = nowMs - cb_firstChunkMs chunking in
        if 1000 * seconds_limit \<le> elapsed
        then Some (''a chunked job has been chunking for '' @ str_int (js_round_div elapsed 1000) @
          '' seconds without finishing (limit '' @ str_int seconds_limit @ '')'')
        else None)"

text \<open>The options of a run: the backoff of its failures, the value of \<open>random()\<close>, the limits,
  the host time a commit takes after the progress write, and the error the database driver
  throws for a refused statement.\<close>
record RunnerEnv =
  re_backoff :: "BackoffPolicy option"
  re_random :: "rat option"
  re_chunkCountLimit :: "int option"
  re_chunkSecondsLimit :: "int option"
  re_lag :: "ClaimedJob \<Rightarrow> int"
  re_dbError :: "JobError \<Rightarrow> JsError"

datatype AttemptResult = Attempt_outcome JobRunOutcome | Attempt_chunk JobChunk ChunkBookkeeping

text \<open>A statement of its own on the queue, at the database's clock.\<close>
definition on_queue :: "(instant \<Rightarrow> JobsDb \<Rightarrow> JobError + JobsDb \<times> 'o) \<Rightarrow> 'b World \<Rightarrow> JobError + 'b World \<times> 'o" where
  "on_queue f w = and_then (f (wd_clock w) (wd_queue w)) (\<lambda>(q, out). Inr (w\<lparr>wd_queue := q\<rparr>, out))"

definition failure_of :: "RunnerEnv \<Rightarrow> string \<Rightarrow> string \<Rightarrow> JobFailure" where
  "failure_of env code detail = \<lparr> jf_code = code, jf_detail = Some detail,
     jf_backoff = Some (coalesce (re_backoff env) DEFAULT_BACKOFF), jf_random = re_random env \<rparr>"

definition settle_thrown :: "RunnerEnv \<Rightarrow> ClaimedJob \<Rightarrow> JsError \<Rightarrow> 'b World \<Rightarrow> JobError + 'b World \<times> AttemptResult" where
  "settle_thrown env job e w = and_then (case e of
       ModelBudgetRefusal code \<Rightarrow> on_queue (\<lambda>now. killJob now job code None) w
     | _ \<Rightarrow> on_queue (\<lambda>now. failJob now job (failure_of env (failureCode e) (failureDetail e))) w)
     (\<lambda>(w', out). Inr (w', Attempt_outcome out))"

definition rollback :: "'b World \<Rightarrow> 'b World \<Rightarrow> 'b World" where
  "rollback before w = before\<lparr>wd_clock := wd_clock w\<rparr>"

definition progress_write :: "ClaimedJob \<Rightarrow> JobChunk \<Rightarrow> ProgressWrite" where
  "progress_write job chunk = \<lparr> pw_jobId = cl_id job, pw_workspaceId = cl_workspaceId job,
     pw_fencingToken = cl_fencingToken job, pw_progress = jc_progress chunk \<rparr>"

text \<open>\<open>isJobChunk(result) && !result.done\<close>\<close>
definition open_chunk :: "JobChunk option \<Rightarrow> JobChunk option" where
  "open_chunk result = (case result of None \<Rightarrow> None | Some chunk \<Rightarrow> if jc_done chunk then None else Some chunk)"

text \<open>The \<open>outbound_fence\<close> shape: no transaction around the handler.\<close>
definition attempt_fenced :: "RunnerEnv \<Rightarrow> 'b JobHandler \<Rightarrow> ClaimedJob \<Rightarrow> 'b World \<Rightarrow>
    JobError + 'b World \<times> AttemptResult" where
  "attempt_fenced env handler job w = (case hd_handle handler (scopeForJob job) job w of
     (Threw e, w1) \<Rightarrow> settle_thrown env job e w1
   | (Returned result, w1) \<Rightarrow>
       if open_chunk result \<noteq> None
       then and_then (on_queue (\<lambda>now. killJob now job ''chunking_unsupported''
              (Some (cl_kind job @ '' is protected by the outbound fence, which cannot be chunked''))) w1)
            (\<lambda>(w2, buried). Inr (w2, Attempt_outcome (if buried = Outcome_dead then Outcome_dead else Lease_lost)))
       else and_then (on_queue (\<lambda>now. completeJob now job) w1) (\<lambda>(w2, out). Inr (w2, Attempt_outcome out)))"

text \<open>The transactional shape: the handler, then its completion or its cursor, or a rollback.
  Inside the transaction \<open>now()\<close> is the clock at its BEGIN.\<close>
definition attempt_in_transaction :: "RunnerEnv \<Rightarrow> 'b JobHandler \<Rightarrow> ClaimedJob \<Rightarrow> 'b World \<Rightarrow>
    JobError + 'b World \<times> AttemptResult" where
  "attempt_in_transaction env handler job w =
     (if hd_protection handler = Fencing_token \<and> \<not> holdsLease job (wd_queue w)
      then Inr (w, Attempt_outcome Lease_lost)
      else case hd_handle handler (scopeForJob job) job w of
        (Threw e, w1) \<Rightarrow> settle_thrown env job e (rollback w w1)
      | (Returned result, w1) \<Rightarrow> (case open_chunk result of
          Some chunk \<Rightarrow> (case writeProgress (wd_clock w) (wd_clock w1) (progress_write job chunk) (wd_queue w1) of
            Inl e \<Rightarrow> settle_thrown env job (re_dbError env e) (rollback w w1)
          | Inr (q, None) \<Rightarrow> Inr (rollback w w1, Attempt_outcome Lease_lost)
          | Inr (q, Some chunking) \<Rightarrow> Inr (w1\<lparr>wd_queue := q\<rparr>, Attempt_chunk chunk chunking))
        | None \<Rightarrow> (case completeJob (wd_clock w) job (wd_queue w1) of
            Inl e \<Rightarrow> settle_thrown env job (re_dbError env e) (rollback w w1)
          | Inr (q, out) \<Rightarrow> Inr (if out = Lease_lost then rollback w w1 else w1\<lparr>wd_queue := q\<rparr>, Attempt_outcome out))))"

definition runAttempt :: "RunnerEnv \<Rightarrow> 'b JobHandler \<Rightarrow> ClaimedJob \<Rightarrow> 'b World \<Rightarrow>
    JobError + 'b World \<times> AttemptResult" where
  "runAttempt env handler job w =
     (if hd_protection handler = Outbound_fence then attempt_fenced env handler job w
      else attempt_in_transaction env handler job w)"

section \<open>The chunk loop\<close>

text \<open>The variables of the loop: the job with its latest payload, the longest chunk so far, the
  clock read so far.\<close>
record ChunkLoop =
  lp_job :: ClaimedJob
  lp_longestChunk :: int
  lp_clock :: "int option"

datatype 'b Turn = Loop_ends JobRunOutcome "'b World" | Loop_again ChunkLoop "'b World"

text \<open>\<open>run_chunk\<close>: the part of a turn after the budget check.\<close>
definition run_chunk :: "RunnerEnv \<Rightarrow> 'b JobHandler \<Rightarrow> int \<Rightarrow> ChunkLoop \<Rightarrow> instant option \<Rightarrow> 'b World \<Rightarrow>
    JobError + 'b Turn" where
  "run_chunk env handler deadline l clock w =
     (let job = lp_job l; startedAt = coalesce clock (wd_clock w) in
      and_then (runAttempt env handler job w) (\<lambda>(w1, attempt). case attempt of
        Attempt_outcome out \<Rightarrow> Inr (Loop_ends out w1)
      | Attempt_chunk chunk chunking \<Rightarrow>
          let job' = job\<lparr>cl_payload := (cl_payload job)\<lparr>pl_progress := Some (jc_progress chunk),
                pl_chunking := Some (chunking_json chunking)\<rparr>\<rparr>;
              clock' = cb_lastChunkMs chunking + max 0 (re_lag env job');
              longest = max (lp_longestChunk l) (clock' - startedAt) in
          if deadline \<le> clock' + longest + CHUNK_MARGIN_MILLISECONDS
          then and_then (on_queue (\<lambda>now. requeueForNextChunk now job') w1)
            (\<lambda>(w2, out). Inr (Loop_ends (if out = Requeued then Requeued else Lease_lost) w2))
          else Inr (Loop_again \<lparr> lp_job = job', lp_longestChunk = longest, lp_clock = Some clock' \<rparr> w1)))"

definition loop_turn :: "RunnerEnv \<Rightarrow> 'b JobHandler \<Rightarrow> int \<Rightarrow> ChunkLoop \<Rightarrow> 'b World \<Rightarrow> JobError + 'b Turn" where
  "loop_turn env handler deadline l w = (case chunkBookkeepingOf (cl_payload (lp_job l)) of
     None \<Rightarrow> run_chunk env handler deadline l (lp_clock l) w
   | Some carried \<Rightarrow>
       let clock = coalesce (lp_clock l) (wd_clock w) in
       (case budgetOverrun carried clock (coalesce (re_chunkCountLimit env) CHUNK_COUNT_LIMIT)
           (coalesce (re_chunkSecondsLimit env) CHUNK_SECONDS_LIMIT) of
          Some overrun \<Rightarrow> and_then (on_queue (\<lambda>now. failJob now (lp_job l)
             (failure_of env ''chunk_budget_exhausted'' overrun)) w)
             (\<lambda>(w1, out). Inr (Loop_ends out w1))
        | None \<Rightarrow> run_chunk env handler deadline l (Some clock) w))"

partial_function (option) chunk_loop :: "RunnerEnv \<Rightarrow> 'b JobHandler \<Rightarrow> int \<Rightarrow> ChunkLoop \<Rightarrow> 'b World \<Rightarrow>
    (JobError + 'b World \<times> JobRunOutcome) option" where
  "chunk_loop env handler deadline l w = (case loop_turn env handler deadline l w of
     Inl e \<Rightarrow> Some (Inl e)
   | Inr turn \<Rightarrow> (case turn of
       Loop_ends out w1 \<Rightarrow> Some (Inr (w1, out))
     | Loop_again l1 w1 \<Rightarrow> chunk_loop env handler deadline l1 w1))"

declare chunk_loop.simps [code]

definition runClaimedJob :: "RunnerEnv \<Rightarrow> 'b HandlerRegistry \<Rightarrow> ClaimedJob \<Rightarrow> 'b World \<Rightarrow>
    (JobError + 'b World \<times> JobRunOutcome) option" where
  "runClaimedJob env reg job w = (case registry_get reg (cl_kind job) of
     None \<Rightarrow> Some (and_then (on_queue (\<lambda>now. failJob now job \<lparr> jf_code = ''handler_unregistered'',
         jf_detail = Some (''no handler for '' @ cl_kind job), jf_backoff = None, jf_random = None \<rparr>) w)
         (\<lambda>(w1, _). Inr (w1, No_handler)))
   | Some handler \<Rightarrow> chunk_loop env handler (cl_leaseExpiresAt job)
       \<lparr> lp_job = job, lp_longestChunk = 0, lp_clock = None \<rparr> w)"

section \<open>One pass of the worker\<close>

record RunOnceReport =
  rr_reclaimed :: nat
  rr_claimed :: nat
  rr_completed :: nat
  rr_failed :: nat
  rr_leaseLost :: nat
  rr_requeued :: nat
  rr_claimedClass :: "JobClass option"

text \<open>The lease a claim of these kinds asks for.\<close>
definition lane_lease :: "'b HandlerRegistry \<Rightarrow> string list \<Rightarrow> int" where
  "lane_lease reg kinds = foldl (\<lambda>longest kind. max longest
     (case registry_get reg kind of None \<Rightarrow> 0 | Some h \<Rightarrow> hd_leaseSeconds h)) 60 kinds"

text \<open>The claims of a pass, lane after lane, and the first lane that gave one.\<close>
fun claim_lanes :: "(uuid \<times> uuid \<Rightarrow> bool) \<Rightarrow> 'b HandlerRegistry \<Rightarrow> string \<Rightarrow> int \<Rightarrow> JobClass list \<Rightarrow>
    ClaimedJob list \<Rightarrow> JobClass option \<Rightarrow> 'b World \<Rightarrow>
    JobError + 'b World \<times> ClaimedJob list \<times> JobClass option" where
  "claim_lanes locked reg owner limit [] claims claimedClass w = Inr (w, claims, claimedClass)"
| "claim_lanes locked reg owner limit (jobClass # classes) claims claimedClass w =
     (let remaining = limit - int (length claims); kinds = registry_kindsOfClass reg jobClass in
      if remaining \<le> 0 then Inr (w, claims, claimedClass)
      else if kinds = [] then claim_lanes locked reg owner limit classes claims claimedClass w
      else and_then (on_queue (\<lambda>now. claimJobs now locked \<lparr> co_owner = owner, co_kinds = kinds,
          co_limit = remaining, co_leaseSeconds = Some (lane_lease reg kinds) \<rparr>) w)
        (\<lambda>(w1, lane). claim_lanes locked reg owner limit classes (claims @ lane)
           (if lane \<noteq> [] \<and> claimedClass = None then Some jobClass else claimedClass) w1))"

text \<open>The counters of the pass.\<close>
definition count_outcome :: "JobRunOutcome \<Rightarrow> RunOnceReport \<Rightarrow> RunOnceReport" where
  "count_outcome out rep = (case out of
     Completed \<Rightarrow> rep\<lparr>rr_completed := rr_completed rep + 1\<rparr>
   | Lease_lost \<Rightarrow> rep\<lparr>rr_leaseLost := rr_leaseLost rep + 1\<rparr>
   | Requeued \<Rightarrow> rep\<lparr>rr_requeued := rr_requeued rep + 1\<rparr>
   | _ \<Rightarrow> rep\<lparr>rr_failed := rr_failed rep + 1\<rparr>)"

fun run_claims :: "RunnerEnv \<Rightarrow> 'b HandlerRegistry \<Rightarrow> ClaimedJob list \<Rightarrow> RunOnceReport \<Rightarrow> 'b World \<Rightarrow>
    (JobError + 'b World \<times> RunOnceReport) option" where
  "run_claims env reg [] rep w = Some (Inr (w, rep))"
| "run_claims env reg (job # claims) rep w = (case runClaimedJob env reg job w of
     None \<Rightarrow> None
   | Some (Inl e) \<Rightarrow> Some (Inl e)
   | Some (Inr (w1, out)) \<Rightarrow> run_claims env reg claims (count_outcome out rep) w1)"

definition bool_json :: "bool \<Rightarrow> string" where
  "bool_json b = (if b then ''true'' else ''false'')"

definition pass_detail :: "'b HandlerRegistry \<Rightarrow> RunOnceReport \<Rightarrow> (string \<times> string) list" where
  "pass_detail reg rep =
     [(''meeting_recording_setup'', bool_json (registry_get reg ''meeting.recording_setup'' \<noteq> None)),
      (''claimed'', str_nat (rr_claimed rep)), (''completed'', str_nat (rr_completed rep)),
      (''failed'', str_nat (rr_failed rep)),
      (''call_transcribe'', bool_json (case registry_get reg ''call.transcribe'' of None \<Rightarrow> False
         | Some h \<Rightarrow> hd_startsNewAttempts h))]"

text \<open>\<open>runOnce\<close> with its options \<open>owner\<close>, \<open>limit\<close>, \<open>instanceKey\<close> and \<open>classes\<close>.\<close>
definition runOnce :: "(uuid \<times> uuid \<Rightarrow> bool) \<Rightarrow> RunnerEnv \<Rightarrow> 'b HandlerRegistry \<Rightarrow> string \<Rightarrow> int \<Rightarrow>
    string option \<Rightarrow> JobClass list option \<Rightarrow> 'b World \<Rightarrow> (JobError + 'b World \<times> RunOnceReport) option" where
  "runOnce locked env reg owner limit instanceKey classes w =
     (case on_queue (\<lambda>now. reclaimExpiredLeases now locked (max limit 10)) w of
        Inl e \<Rightarrow> Some (Inl e)
      | Inr (w1, reclaimed) \<Rightarrow>
     (case claim_lanes locked reg owner limit (coalesce classes JOB_CLASSES) [] None w1 of
        Inl e \<Rightarrow> Some (Inl e)
      | Inr (w2, claims, claimedClass) \<Rightarrow>
     (case run_claims env reg claims \<lparr> rr_reclaimed = reclaimed, rr_claimed = length claims,
          rr_completed = 0, rr_failed = 0, rr_leaseLost = 0, rr_requeued = 0,
          rr_claimedClass = claimedClass \<rparr> w2 of
        None \<Rightarrow> None
      | Some (Inl e) \<Rightarrow> Some (Inl e)
      | Some (Inr (w3, rep)) \<Rightarrow> Some (and_then (recordHeartbeat (wd_clock w3)
          \<lparr> hi_component = Beat_worker, hi_workspaceId = '''', hi_instanceKey = coalesce instanceKey owner,
            hi_expectedIntervalSeconds = Some 60, hi_detail = pass_detail reg rep \<rparr> (wd_beats w3))
          (\<lambda>beats. Inr (w3\<lparr>wd_beats := beats\<rparr>, rep))))))"

end
