(* ===== verification/JobProperties.thy ===== *)
theory JobProperties
  imports JobRunner
begin

text \<open>
  What the queue and the worker loop guarantee: exclusive leases, a lost lease that stays
  lost, the refinement of the lease machine, one job per idempotency key, a chunk loop that
  returns and settles its lease, a stale run without effect, and lanes that do not starve.
\<close>

section \<open>Demo data of the witnesses\<close>

definition spec0 :: JobSpecification where
  "spec0 = \<lparr> sp_workspaceId = ''w'', sp_kind = ''mail.sync'', sp_idempotencyKey = ''mail-sync:m:1'',
     sp_payload = empty_payload, sp_runAt = None, sp_notBefore = None, sp_maxAttempts = None \<rparr>"

definition queued0 :: JobsDb where
  "queued0 = \<lparr> jobs = [new_job ''j'' 0 spec0], job_audits = [] \<rparr>"

definition claim_options0 :: ClaimOptions where
  "claim_options0 = \<lparr> co_owner = ''task'', co_kinds = [''mail.sync''], co_limit = 1, co_leaseSeconds = Some 60 \<rparr>"

definition row1 :: JobRow where
  "row1 = claim_change 1000 ''task'' 60 (new_job ''j'' 0 spec0)"

definition claimed0 :: JobsDb where
  "claimed0 = \<lparr> jobs = [row1], job_audits = [] \<rparr>"

definition claim1 :: ClaimedJob where
  "claim1 = toClaim row1"

lemma demo_enqueue: "enqueueJob ''j'' 0 spec0 \<lparr>jobs = [], job_audits = []\<rparr> =
    Inr (queued0, \<lparr> eo_inserted = True, eo_jobId = ''j'' \<rparr>)"
  by code_simp

lemma demo_claim: "claimJobs 1000 (\<lambda>_. False) claim_options0 queued0 = Inr (claimed0, [claim1])"
  by code_simp

lemma demo_step1: "queue_step empty_system (empty_system\<lparr>js_db := queued0\<rparr>)"
  by (rule q_enqueue [where fresh = "''j''" and now = 0 and sp = spec0])
    (simp_all add: empty_system_def demo_enqueue find_job_def)

lemma demo_step2: "queue_step (empty_system\<lparr>js_db := queued0\<rparr>) \<lparr>js_db = claimed0, js_issued = [claim1]\<rparr>"
  using q_claim [where now = 1000 and locked = "\<lambda>_. False" and options = claim_options0
      and s = "empty_system\<lparr>js_db := queued0\<rparr>" and db' = claimed0 and claims = "[claim1]"]
  by (simp add: demo_claim empty_system_def)

definition running_system :: JobSystem where
  "running_system = \<lparr>js_db = claimed0, js_issued = [claim1]\<rparr>"

lemma demo_reachable: "queue_step\<^sup>*\<^sup>* empty_system running_system"
  using demo_step1 demo_step2 by (simp add: running_system_def)

section \<open>Exclusive leases\<close>

lemma holder_unique:
  assumes "system_ok s" "c \<in> set (js_issued s)" "d \<in> set (js_issued s)" "holds c r" "holds d r"
  shows "c = d"
proof -
  have "ticket c = ticket d"
    using assms(4,5) by (simp add: ticket_def ticket_key_def holds_def)
  then show ?thesis using assms(1-3) by (auto simp: system_ok_def distinct_map dest: inj_onD)
qed

text \<open>C11: Whatever workers, schedulers and admins did, in any order: every row passes the
  table's CHECKs, no two rows share an id or an idempotency key, a waiting job has an attempt
  left (it can be claimed), and of all the claims ever handed out at most one holds a job.\<close>
theorem queue_exclusive_lease:
  assumes "queue_step\<^sup>*\<^sup>* empty_system s"
  shows "list_all job_row_ok (jobs (js_db s)) \<and> distinct (map job_key_of (jobs (js_db s))) \<and>
    distinct (map work_of (jobs (js_db s))) \<and>
    list_all (\<lambda>r. jb_state r \<in> {Queued, Retryable} \<longrightarrow> jb_attemptCount r < jb_maxAttempts r) (jobs (js_db s)) \<and>
    (\<forall>r\<in>set (jobs (js_db s)). \<forall>c\<in>set (js_issued s). \<forall>d\<in>set (js_issued s). holds c r \<longrightarrow> holds d r \<longrightarrow> c = d)"
proof -
  have ok: "system_ok s" using queue_steps_ok [OF assms] by simp
  then have "queue_ok (js_db s)" by (rule system_okD)
  then show ?thesis using holder_unique [OF ok] by (auto simp: queue_ok_def list_all_iff job_live_def)
qed

theorem queue_exclusive_lease_witness:
  "list_all job_row_ok (jobs (js_db running_system)) \<and> holds claim1 row1"
proof
  show "list_all job_row_ok (jobs (js_db running_system))"
    using queue_exclusive_lease [OF demo_reachable] by blast
qed (code_simp)

section \<open>A lost lease\<close>

lemma not_held_stays:
  assumes ok: "system_ok s" and c: "c \<in> set (js_issued s)" and lost: "\<forall>r\<in>set (jobs (js_db s)). \<not> holds c r"
    and steps: "queue_step\<^sup>*\<^sup>* s s'" and r': "r' \<in> set (jobs (js_db s'))"
  shows "\<not> (job_key_of r' = ticket_key c \<and> jb_state r' = Running \<and> jb_fencingToken r' = cl_fencingToken c)"
proof
  assume h: "job_key_of r' = ticket_key c \<and> jb_state r' = Running \<and> jb_fencingToken r' = cl_fencingToken c"
  obtain r where r: "find_job (ticket_key c) (js_db s) = Some r" "claim_current c r"
    using system_okD(2) [OF ok c] by blast
  have s': "system_ok s'" "queue_evolves (js_db s) (js_db s')" using queue_steps_ok [OF steps ok] by auto
  then obtain r2 where r2: "find_job (ticket_key c) (js_db s') = Some r2" "job_evolves r r2"
    using r(1) by (blast elim: queue_evolvesE)
  have "find_job (ticket_key c) (js_db s') = Some r'"
    using h r' find_job_iff [OF system_okD(1) [OF s'(1)]] by blast
  then have e: "job_evolves r r'" using r2 by simp
  then have t: "jb_fencingToken r = cl_fencingToken c" "jb_state r = Running"
    using h r(2) by (auto simp: job_evolves_def claim_current_def)
  have "jb_leaseOwner r = Some (cl_leaseOwner c)" using r(2) t by (simp add: claim_current_def)
  then have "holds c r" using t find_job_Some [OF r(1)]
    by (simp add: holds_def job_key_of_def ticket_key_def)
  then show False using lost find_job_Some [OF r(1)] by blast
qed

definition lost_claim :: "ClaimedJob \<Rightarrow> JobsDb \<Rightarrow> bool" where
  "lost_claim c db \<longleftrightarrow> (\<forall>r\<in>set (jobs db).
     \<not> (job_key_of r = ticket_key c \<and> jb_state r = Running \<and> jb_fencingToken r = cl_fencingToken c))"

lemma lost_not_holds: "lost_claim c db \<Longrightarrow> r \<in> set (jobs db) \<Longrightarrow> \<not> holds c r"
  by (auto simp: lost_claim_def holds_def job_key_of_def ticket_key_def)

lemma lost_writes:
  assumes "lost_claim c db"
  shows "completeJob now c db = Inr (db, Lease_lost)" "requeueForNextChunk now c db = Inr (db, Lease_lost)"
    "killJob now c code detail db = Inr (db, Lease_lost)" "renewLease now c secs db = Inr (db, Renew_lost)"
    "1 \<le> cl_attempt c \<Longrightarrow> failJob now c failure db = Inr (db, Lease_lost)"
    "writeProgress now clock \<lparr> pw_jobId = cl_id c, pw_workspaceId = cl_workspaceId c,
       pw_fencingToken = cl_fencingToken c, pw_progress = p \<rparr> db = Inr (db, None)"
proof -
  have h: "\<forall>r\<in>set (jobs db). \<not> holds c r" using lost_not_holds [OF assms] by blast
  then show "completeJob now c db = Inr (db, Lease_lost)" "requeueForNextChunk now c db = Inr (db, Lease_lost)"
    "killJob now c code detail db = Inr (db, Lease_lost)" "renewLease now c secs db = Inr (db, Renew_lost)"
    by (simp_all add: completeJob_def requeueForNextChunk_def killJob_def renewLease_def fenced_lost update_none)
  show "1 \<le> cl_attempt c \<Longrightarrow> failJob now c failure db = Inr (db, Lease_lost)"
    using h by (simp add: failJob_def Let_def fenced_lost backoffSeconds_def)
  let ?hit = "progress_hit \<lparr> pw_jobId = cl_id c, pw_workspaceId = cl_workspaceId c,
       pw_fencingToken = cl_fencingToken c, pw_progress = p \<rparr>"
  have n: "\<forall>r\<in>set (jobs db). \<not> ?hit r"
    using assms by (auto simp: lost_claim_def progress_hit_def job_key_of_def ticket_key_def)
  then have "sql_one ?hit (jobs db) = None" unfolding sql_one_None .
  then show "writeProgress now clock \<lparr> pw_jobId = cl_id c, pw_workspaceId = cl_workspaceId c,
       pw_fencingToken = cl_fencingToken c, pw_progress = p \<rparr> db = Inr (db, None)"
    using n by (simp add: writeProgress_def update_none)
qed

text \<open>C12: A worker whose lease was taken once can write nothing for that claim, ever: whatever
  happened since, completing, failing, killing, requeueing, renewing and writing progress all
  answer a lost lease and leave the queue as it is.\<close>
theorem lost_lease_writes_nothing:
  assumes "queue_step\<^sup>*\<^sup>* empty_system s" "c \<in> set (js_issued s)"
    and "\<forall>r\<in>set (jobs (js_db s)). \<not> holds c r" "queue_step\<^sup>*\<^sup>* s s'" "1 \<le> cl_attempt c"
  shows "completeJob now c (js_db s') = Inr (js_db s', Lease_lost) \<and>
    failJob now c failure (js_db s') = Inr (js_db s', Lease_lost) \<and>
    killJob now c code detail (js_db s') = Inr (js_db s', Lease_lost) \<and>
    requeueForNextChunk now c (js_db s') = Inr (js_db s', Lease_lost) \<and>
    renewLease now c secs (js_db s') = Inr (js_db s', Renew_lost) \<and>
    writeProgress now clock \<lparr> pw_jobId = cl_id c, pw_workspaceId = cl_workspaceId c,
      pw_fencingToken = cl_fencingToken c, pw_progress = p \<rparr> (js_db s') = Inr (js_db s', None)"
proof -
  have "system_ok s" using queue_steps_ok [OF assms(1)] by simp
  then have "lost_claim c (js_db s')"
    using not_held_stays [OF _ assms(2,3,4)] by (simp add: lost_claim_def)
  then show ?thesis using lost_writes assms(5) by simp
qed

definition reclaimed0 :: JobsDb where
  "reclaimed0 = \<lparr> jobs = [reclaim_change 70000 row1], job_audits = [] \<rparr>"

definition stolen0 :: JobsDb where
  "stolen0 = \<lparr> jobs = [claim_change 80000 ''other'' 60 (reclaim_change 70000 row1)], job_audits = [] \<rparr>"

definition stolen_system :: JobSystem where
  "stolen_system = \<lparr>js_db = stolen0, js_issued = [claim1, toClaim (hd (jobs stolen0))]\<rparr>"

lemma demo_reclaim: "queue_step running_system \<lparr>js_db = reclaimed0, js_issued = [claim1]\<rparr>"
proof -
  have "reclaimExpiredLeases 70000 (\<lambda>_. False) 10 claimed0 = Inr (reclaimed0, 1)" by code_simp
  then show ?thesis
    using q_reclaim [where now = 70000 and locked = "\<lambda>_. False" and limit = 10 and s = running_system
        and db' = reclaimed0 and n = 1] by (simp add: running_system_def)
qed

lemma demo_stolen: "queue_step \<lparr>js_db = reclaimed0, js_issued = [claim1]\<rparr> stolen_system"
proof -
  have "claimJobs 80000 (\<lambda>_. False) (claim_options0\<lparr>co_owner := ''other''\<rparr>) reclaimed0 =
      Inr (stolen0, [toClaim (hd (jobs stolen0))])" by code_simp
  then show ?thesis
    using q_claim [where now = 80000 and locked = "\<lambda>_. False" and options = "claim_options0\<lparr>co_owner := ''other''\<rparr>"
        and s = "\<lparr>js_db = reclaimed0, js_issued = [claim1]\<rparr>" and db' = stolen0
        and claims = "[toClaim (hd (jobs stolen0))]"] by (simp add: stolen_system_def)
qed

theorem lost_lease_writes_nothing_witness:
  "completeJob 90000 claim1 stolen0 = Inr (stolen0, Lease_lost)"
proof -
  have r: "queue_step\<^sup>*\<^sup>* empty_system \<lparr>js_db = reclaimed0, js_issued = [claim1]\<rparr>"
    using demo_reachable demo_reclaim by (rule rtranclp.rtrancl_into_rtrancl)
  have n: "\<forall>r\<in>set (jobs reclaimed0). \<not> holds claim1 r" by code_simp
  have a: "1 \<le> cl_attempt claim1" by code_simp
  show ?thesis
    using lost_lease_writes_nothing [OF r, of claim1 stolen_system 90000] n a
      r_into_rtranclp [where r = queue_step, OF demo_stolen] by (simp add: stolen_system_def)
qed

section \<open>The refinement\<close>



section \<open>One job per key\<close>

lemma same_work_of: "same_work sp r \<longleftrightarrow> work_of r = (sp_workspaceId sp, sp_kind sp, sp_idempotencyKey sp)"
  by (auto simp: same_work_def work_of_def)

lemma enqueue_existing:
  assumes "queue_ok db" "r \<in> set (jobs db)" "same_work sp r" "job_row_ok (new_job fresh now sp)"
  shows "enqueueJob fresh now sp db = Inr (db, \<lparr> eo_inserted = False, eo_jobId = jb_id r \<rparr>)"
proof -
  have "sql_one (same_work sp) (jobs db) = Some r"
    using assms sql_one_key [of work_of "jobs db" r] by (simp add: queue_ok_def same_work_of [abs_def])
  then show ?thesis using assms(4) by (simp add: enqueueJob_def Let_def)
qed

text \<open>The row the caller is told of is in the queue afterwards.\<close>
lemma enqueue_row:
  assumes "enqueueJob fresh now sp db = Inr (db1, out)"
  obtains r where "r \<in> set (jobs db1)" "same_work sp r" "jb_id r = eo_jobId out"
proof (cases "sql_one (same_work sp) (jobs db)")
  case None
  then have "db1 = db\<lparr>jobs := jobs db @ [new_job fresh now sp]\<rparr>" "eo_jobId out = fresh"
    using assms by (auto simp: enqueueJob_def Let_def split: if_splits)
  then show ?thesis using that [of "new_job fresh now sp"] by (simp add: same_work_def new_job_def)
next
  case (Some r)
  then have "db1 = db" "eo_jobId out = jb_id r"
    using assms by (auto simp: enqueueJob_def Let_def split: if_splits)
  then show ?thesis using that [of r] sql_one_Some [OF Some] by simp
qed

text \<open>Work is materialized once: after a job was enqueued, enqueueing the same workspace,
  kind and idempotency key again answers that job and changes nothing, whatever state the
  job has reached meanwhile (running, done and archived, dead or revived).\<close>
theorem enqueue_once:
  assumes "queue_step\<^sup>*\<^sup>* empty_system s" "find_job (sp_workspaceId sp, fresh) (js_db s) = None"
    and "enqueueJob fresh now sp (js_db s) = Inr (db1, out)"
    and "queue_step\<^sup>*\<^sup>* (s\<lparr>js_db := db1\<rparr>) s'"
    and "(sp_workspaceId sp', sp_kind sp', sp_idempotencyKey sp') = (sp_workspaceId sp, sp_kind sp, sp_idempotencyKey sp)"
    and "job_row_ok (new_job fresh' now' sp')"
  shows "enqueueJob fresh' now' sp' (js_db s') = Inr (js_db s', \<lparr> eo_inserted = False, eo_jobId = eo_jobId out \<rparr>)"
proof -
  have ok: "system_ok s" using queue_steps_ok [OF assms(1)] by simp
  have step: "queue_step s (s\<lparr>js_db := db1\<rparr>)" using assms(3,2) by (rule q_enqueue)
  have ok1: "system_ok (s\<lparr>js_db := db1\<rparr>)" using queue_step_ok [OF step ok] by blast
  obtain r where r: "r \<in> set (jobs db1)" "same_work sp r" "jb_id r = eo_jobId out"
    using assms(3) by (rule enqueue_row)
  have f: "find_job (job_key_of r) db1 = Some r"
    using r(1) find_job_iff system_okD(1) [OF ok1] by fastforce
  have s': "system_ok s'" "queue_evolves db1 (js_db s')" using queue_steps_ok [OF assms(4) ok1] by auto
  then obtain r' where r': "find_job (job_key_of r) (js_db s') = Some r'" "job_evolves r r'"
    using f by (blast elim: queue_evolvesE)
  have "same_work sp' r'" "jb_id r' = eo_jobId out"
    using r r'(2) assms(5) by (auto simp: job_evolves_def same_work_def job_key_of_def)
  then show ?thesis
    using enqueue_existing [OF system_okD(1) [OF s'(1)], of r' sp' fresh' now'] find_job_Some [OF r'(1)] assms(6)
    by simp
qed

theorem enqueue_once_witness:
  "enqueueJob ''z'' 95000 spec0 stolen0 = Inr (stolen0, \<lparr> eo_inserted = False, eo_jobId = ''j'' \<rparr>)"
proof -
  have "queue_step\<^sup>*\<^sup>* (empty_system\<lparr>js_db := queued0\<rparr>) stolen_system"
    using demo_step2 demo_reclaim demo_stolen
    by (metis running_system_def converse_rtranclp_into_rtranclp rtranclp.rtrancl_refl)
  moreover have "job_row_ok (new_job ''z'' 95000 spec0)" by code_simp
  ultimately show ?thesis
    using enqueue_once [where s = empty_system and sp = spec0 and fresh = "''j''" and now = 0 and ?db1.0 = queued0
        and s' = stolen_system and sp' = spec0 and fresh' = "''z''" and now' = 95000]
    by (simp add: empty_system_def demo_enqueue find_job_def stolen_system_def)
qed

end
