(* ===== verification/RunnerProperties.thy ===== *)
theory RunnerProperties
  imports JobProperties
begin

text \<open>
  The worker loop: the chunk loop returns, a run leaves its job in the state it reports, a
  stale run has no effect, and a flexible slot looks at the bulk lane in time.  What is
  asked of a handler is that it leaves its own job's row alone; it may write anything else.
\<close>

section \<open>Handlers that leave their row\<close>

text \<open>The handler keeps the queue well formed and \<open>f\<close> of the row with this key.\<close>
definition keeps :: "(JobRow \<Rightarrow> 'c) \<Rightarrow> 'b JobHandler \<Rightarrow> uuid \<times> uuid \<Rightarrow> bool" where
  "keeps f handler k \<longleftrightarrow> (\<forall>scope job w w' result. hd_handle handler scope job w = (result, w') \<longrightarrow>
     queue_ok (wd_queue w) \<longrightarrow> queue_ok (wd_queue w') \<and>
       map_option f (find_job k (wd_queue w')) = map_option f (find_job k (wd_queue w)))"

definition row_budget :: "JobRow \<Rightarrow> ChunkingJson option" where
  "row_budget r = pl_chunking (jb_payload r)"

lemma keepsD:
  assumes "keeps f handler k" "hd_handle handler scope job w = (result, w')" "queue_ok (wd_queue w)"
  shows "queue_ok (wd_queue w')" "map_option f (find_job k (wd_queue w')) = map_option f (find_job k (wd_queue w))"
  using assms unfolding keeps_def by blast+

lemma keeps_row: "keeps id handler k \<Longrightarrow> hd_handle handler scope job w = (result, w') \<Longrightarrow> queue_ok (wd_queue w) \<Longrightarrow>
    queue_ok (wd_queue w') \<and> find_job k (wd_queue w') = find_job k (wd_queue w)"
  using keepsD [of id handler k scope job w result w'] by (simp add: option.map_id)

lemma keeps_budget: "keeps id handler k \<Longrightarrow> keeps row_budget handler k"
  using keeps_row unfolding keeps_def [of row_budget] by metis

section \<open>Statements on the held row\<close>

lemma count_unique:
  "distinct (map key rs) \<Longrightarrow> x \<in> set rs \<Longrightarrow> p x \<Longrightarrow> (\<And>y. y \<in> set rs \<Longrightarrow> p y \<Longrightarrow> key y = key x) \<Longrightarrow>
   sql_count p rs = 1"
proof (induction rs)
  case (Cons r rs)
  show ?case
  proof (cases "r = x")
    case True
    have "key x \<notin> key ` set rs" using Cons.prems(1) True by simp
    then have "\<forall>y\<in>set rs. \<not> p y" using Cons.prems(4) by (metis imageI list.set_intros(2))
    then have "sql_count p rs = 0" by (simp add: sql_count_0)
    then show ?thesis using True Cons.prems(3) by simp
  next
    case False
    then have x: "x \<in> set rs" using Cons.prems(2) by simp
    then have "key r \<noteq> key x" using Cons.prems(1) by (metis distinct.simps(2) imageI list.map(2) list.set_map)
    then have "\<not> p r" using Cons.prems(4) [of r] by auto
    moreover have "sql_count p rs = 1"
    proof (rule Cons.IH)
      show "distinct (map key rs)" using Cons.prems(1) by simp
      show "key y = key x" if "y \<in> set rs" "p y" for y
        using Cons.prems(4) that by (meson list.set_intros(2))
    qed (fact x Cons.prems(3))+
    ultimately show ?thesis by simp
  qed
qed simp

lemma holds_find:
  assumes "queue_ok db" "r \<in> set (jobs db)" "holds c r"
  shows "find_job (ticket_key c) db = Some r"
  using assms holds_key find_job_iff by blast

text \<open>A fenced write of the holder reports its outcome and changes the row.\<close>
lemma fenced_hit:
  assumes f: "fenced c change outcome db = Inr (db', out)" and ok: "queue_ok db"
    and r: "find_job (ticket_key c) db = Some r" "holds c r"
    and key: "\<And>r. job_key_of (change r) = job_key_of r"
  shows "out = outcome \<and> find_job (ticket_key c) db' = Some (change r)"
proof -
  obtain n where u: "update_jobs (holds c) change db = Inr (db', n)" "out = (if n = 1 then outcome else Lease_lost)"
    using f by (auto simp: fenced_Inr)
  have "sql_count (holds c) (jobs db) = 1"
    using ok find_job_Some [OF r(1)] r(2) holds_key
    by (intro count_unique [of job_key_of _ r]) (auto simp: queue_ok_def)
  then have "out = outcome" using u by (simp add: update_jobs_Inr)
  moreover have "find_job (ticket_key c) db' = Some (change r)"
    using u(1) r sql_one_update_same [of "holds c" job_key_of change "ticket_key c" "jobs db"] key
    by (simp add: update_jobs_Inr find_job_def)
  ultimately show ?thesis ..
qed

lemma progress_Inr:
  assumes "writeProgress now clock (progress_write c chunk) db = Inr (db', Some b)" "queue_ok db"
  obtains r where "find_job (ticket_key c) db = Some r" "jb_state r = Running" "jb_fencingToken r = cl_fencingToken c"
    "b = next_chunking clock (row_budget r)" "queue_ok db'"
    "find_job (ticket_key c) db' = Some (progress_change now clock (jc_progress chunk) r)"
proof -
  let ?hit = "progress_hit (progress_write c chunk)"
  obtain n r where u: "update_jobs ?hit (progress_change now clock (jc_progress chunk)) db = Inr (db', n)"
    and one: "sql_one ?hit (jobs db) = Some r" "b = next_chunking clock (row_budget r)"
    using assms(1) by (auto simp: writeProgress_def and_then_Inr_iff progress_write_def row_budget_def)
  have h: "?hit r" "r \<in> set (jobs db)" using sql_one_Some [OF one(1)] by auto
  then have k: "job_key_of r = ticket_key c"
    by (simp add: progress_hit_def progress_write_def job_key_of_def ticket_key_def)
  then have f: "find_job (ticket_key c) db = Some r" using h(2) find_job_iff [OF assms(2)] by blast
  have "find_job (ticket_key c) db' = Some (progress_change now clock (jc_progress chunk) r)"
    using progresses.update_find [OF u progress_running] f h(1) by simp
  moreover have "queue_ok db'" using u progress_running assms(2) by (rule progresses.update_ok)
  ultimately show ?thesis
    using that f h(1) one(2) by (simp add: progress_hit_def progress_write_def)
qed

section \<open>The chunk loop returns\<close>

lemma chunking_of_json [simp]:
  "chunkBookkeepingOf (p\<lparr>pl_progress := x, pl_chunking := Some (chunking_json b)\<rparr>) = Some b"
  by (simp add: chunkBookkeepingOf_def chunking_json_def)

lemma attempt_chunk:
  assumes "runAttempt env handler job w = Inr (w1, Attempt_chunk chunk b)"
  obtains result w2 q where "hd_handle handler (scopeForJob job) job w = (result, w2)"
    "writeProgress (wd_clock w) (wd_clock w2) (progress_write job chunk) (wd_queue w2) = Inr (q, Some b)"
    "w1 = w2\<lparr>wd_queue := q\<rparr>"
proof (cases "hd_handle handler (scopeForJob job) job w")
  case (Pair result w2)
  have s: "settle_thrown env job e x \<noteq> Inr (w1, Attempt_chunk chunk b)" for e and x :: "'a World"
    by (auto simp: settle_thrown_def and_then_Inr_iff)
  show ?thesis
  proof (cases "hd_protection handler = Outbound_fence")
    case True
    then show ?thesis using assms s Pair
      by (auto simp: runAttempt_def attempt_fenced_def and_then_Inr_iff split: HandlerResult.splits if_splits)
  next
    case False
    then show ?thesis using assms s Pair that
      by (auto simp: runAttempt_def attempt_in_transaction_def
          split: HandlerResult.splits if_splits option.splits sum.splits)
  qed
qed

definition chunk_limit :: "RunnerEnv \<Rightarrow> int" where
  "chunk_limit env = coalesce (re_chunkCountLimit env) CHUNK_COUNT_LIMIT"

definition carries :: "uuid \<times> uuid \<Rightarrow> ChunkLoop \<Rightarrow> 'b World \<Rightarrow> ChunkBookkeeping \<Rightarrow> bool" where
  "carries k l w b \<longleftrightarrow> queue_ok (wd_queue w) \<and> ticket_key (lp_job l) = k \<and>
     chunkBookkeepingOf (cl_payload (lp_job l)) = Some b \<and>
     map_option row_budget (find_job k (wd_queue w)) = Some (Some (chunking_json b))"

lemma run_chunk_again:
  assumes run: "run_chunk env handler deadline l clock w = Inr (Loop_again l1 w1)"
    and keep: "keeps row_budget handler k" and ok: "queue_ok (wd_queue w)" and k: "ticket_key (lp_job l) = k"
  obtains b1 r where "carries k l1 w1 b1" "find_job k (wd_queue w) = Some r"
    "cb_chunks b1 = coalesce (Option.bind (row_budget r) cj_chunks) 0 + 1"
proof -
  obtain chunk b1 where a: "runAttempt env handler (lp_job l) w = Inr (w1, Attempt_chunk chunk b1)"
    and l1: "lp_job l1 = (lp_job l)\<lparr>cl_payload := (cl_payload (lp_job l))\<lparr>pl_progress := Some (jc_progress chunk),
       pl_chunking := Some (chunking_json b1)\<rparr>\<rparr>"
  proof -
    obtain w0 attempt where a: "runAttempt env handler (lp_job l) w = Inr (w0, attempt)"
      using run by (auto simp: run_chunk_def Let_def and_then_Inr_iff)
    show ?thesis
    proof (cases attempt)
      case (Attempt_outcome out)
      then show ?thesis using run a by (simp add: run_chunk_def Let_def)
    next
      case (Attempt_chunk chunk b)
      then show ?thesis using run a that [of chunk b]
        by (auto simp: run_chunk_def Let_def and_then_Inr_iff split: if_splits)
    qed
  qed
  obtain result w2 q where h: "hd_handle handler (scopeForJob (lp_job l)) (lp_job l) w = (result, w2)"
    and p: "writeProgress (wd_clock w) (wd_clock w2) (progress_write (lp_job l) chunk) (wd_queue w2) = Inr (q, Some b1)"
    and w1: "w1 = w2\<lparr>wd_queue := q\<rparr>"
    using a by (rule attempt_chunk)
  note kept = keepsD [OF keep h ok]
  obtain r2 where r2: "find_job k (wd_queue w2) = Some r2" "b1 = next_chunking (wd_clock w2) (row_budget r2)"
    "queue_ok q" "find_job k q = Some (progress_change (wd_clock w) (wd_clock w2) (jc_progress chunk) r2)"
    using progress_Inr [OF p kept(1)] k by metis
  obtain r where r: "find_job k (wd_queue w) = Some r" "row_budget r = row_budget r2"
    using kept(2) r2(1) by (cases "find_job k (wd_queue w)") auto
  have "row_budget (progress_change (wd_clock w) (wd_clock w2) (jc_progress chunk) r2) = Some (chunking_json b1)"
    by (simp add: r2(2) row_budget_def progress_change_def)
  then have "carries k l1 w1 b1" using l1 k w1 r2(3,4) by (simp add: carries_def ticket_key_def)
  moreover have "cb_chunks b1 = coalesce (Option.bind (row_budget r) cj_chunks) 0 + 1"
    using r(2) r2(2) by (simp add: next_chunking_def)
  ultimately show ?thesis using that r(1) by blast
qed

lemma turn_again:
  assumes "loop_turn env handler deadline l w = Inr (Loop_again l1 w1)"
  obtains clock where "run_chunk env handler deadline l clock w = Inr (Loop_again l1 w1)"
    "\<And>b. chunkBookkeepingOf (cl_payload (lp_job l)) = Some b \<Longrightarrow> cb_chunks b < chunk_limit env"
proof (cases "chunkBookkeepingOf (cl_payload (lp_job l))")
  case None
  then show ?thesis using assms that by (simp add: loop_turn_def)
next
  case (Some b)
  then have "cb_chunks b < chunk_limit env" "\<exists>clock. run_chunk env handler deadline l clock w = Inr (Loop_again l1 w1)"
    using assms by (auto simp: loop_turn_def Let_def budgetOverrun_def chunk_limit_def and_then_Inr_iff
        split: if_splits)
  then show ?thesis using that Some by auto
qed

lemma loop_returns_from:
  assumes "carries k l w b" "keeps row_budget handler k" "nat (chunk_limit env - cb_chunks b) \<le> n"
  shows "\<exists>res. chunk_loop env handler deadline l w = Some res"
  using assms
proof (induction n arbitrary: l w b)
  case (Suc n)
  show ?case
  proof (cases "\<exists>l1 w1. loop_turn env handler deadline l w = Inr (Loop_again l1 w1)")
    case True
    then obtain l1 w1 where t: "loop_turn env handler deadline l w = Inr (Loop_again l1 w1)" by blast
    obtain clock where c: "run_chunk env handler deadline l clock w = Inr (Loop_again l1 w1)"
      and lim: "cb_chunks b < chunk_limit env"
      using turn_again [OF t] Suc.prems(1) unfolding carries_def by metis
    obtain b1 r where b1: "carries k l1 w1 b1" "find_job k (wd_queue w) = Some r"
      "cb_chunks b1 = coalesce (Option.bind (row_budget r) cj_chunks) 0 + 1"
      using run_chunk_again [OF c Suc.prems(2)] Suc.prems(1) unfolding carries_def by metis
    have "cb_chunks b1 = cb_chunks b + 1"
      using b1(2,3) Suc.prems(1) by (simp add: carries_def chunking_json_def coalesce_def)
    then have "\<exists>res. chunk_loop env handler deadline l1 w1 = Some res"
      using Suc.IH [OF b1(1) Suc.prems(2)] Suc.prems(3) lim by simp
    then show ?thesis using t by (simp add: chunk_loop.simps [of env handler deadline l w])
  next
    case False
    then show ?thesis
      by (subst chunk_loop.simps) (auto split: sum.splits Turn.splits)
  qed
next
  case 0
  have "loop_turn env handler deadline l w \<noteq> Inr (Loop_again l1 w1)" for l1 w1
  proof
    assume "loop_turn env handler deadline l w = Inr (Loop_again l1 w1)"
    then have "cb_chunks b < chunk_limit env" using 0(1) unfolding carries_def by (metis turn_again)
    then show False using 0(3) by simp
  qed
  then show ?case by (subst chunk_loop.simps) (auto split: sum.splits Turn.splits)
qed

text \<open>C25: The worker's loop over a chunked job returns, whatever the handler does and however
  long its lease: each turn commits a chunk that the row itself counts, and the count is
  held to the limit.  The handler may not write its own budget.\<close>
theorem runClaimedJob_returns:
  assumes "queue_ok (wd_queue w)"
    and "\<And>handler. registry_get reg (cl_kind job) = Some handler \<Longrightarrow> keeps row_budget handler (ticket_key job)"
  shows "\<exists>res. runClaimedJob env reg job w = Some res"
proof (cases "registry_get reg (cl_kind job)")
  case (Some handler)
  let ?l = "\<lparr> lp_job = job, lp_longestChunk = 0, lp_clock = None \<rparr>"
  have keep: "keeps row_budget handler (ticket_key job)" using assms(2) Some by blast
  have "\<exists>res. chunk_loop env handler (cl_leaseExpiresAt job) ?l w = Some res"
  proof (cases "\<exists>l1 w1. loop_turn env handler (cl_leaseExpiresAt job) ?l w = Inr (Loop_again l1 w1)")
    case True
    then obtain l1 w1 where t: "loop_turn env handler (cl_leaseExpiresAt job) ?l w = Inr (Loop_again l1 w1)" by blast
    obtain clock where c: "run_chunk env handler (cl_leaseExpiresAt job) ?l clock w = Inr (Loop_again l1 w1)"
      using turn_again [OF t] by metis
    obtain b1 where "carries (ticket_key job) l1 w1 b1"
      using run_chunk_again [OF c keep assms(1)] by auto
    from loop_returns_from [OF this keep order_refl] show ?thesis
      using t by (simp add: chunk_loop.simps [of env handler _ ?l w])
  next
    case False
    then show ?thesis by (subst chunk_loop.simps) (auto split: sum.splits Turn.splits)
  qed
  then show ?thesis using Some by (simp add: runClaimedJob_def)
qed (simp add: runClaimedJob_def)

section \<open>A run settles its lease\<close>

definition held :: "ClaimedJob \<Rightarrow> 'b World \<Rightarrow> bool" where
  "held job w \<longleftrightarrow> queue_ok (wd_queue w) \<and> (\<exists>r. find_job (ticket_key job) (wd_queue w) = Some r \<and> holds job r)"

text \<open>The state a run leaves its job in, by its outcome.\<close>
definition settled :: "JobRunOutcome \<Rightarrow> JobState \<Rightarrow> bool" where
  "settled out st = (case out of Completed \<Rightarrow> st = Done | Lease_lost \<Rightarrow> False | Outcome_retryable \<Rightarrow> st = Retryable
     | Outcome_dead \<Rightarrow> st = Dead | No_handler \<Rightarrow> st = Retryable \<or> st = Dead | Requeued \<Rightarrow> st = Queued)"

definition settles :: "uuid \<times> uuid \<Rightarrow> JobRunOutcome \<Rightarrow> 'b World \<Rightarrow> bool" where
  "settles k out w \<longleftrightarrow> (\<exists>r. find_job k (wd_queue w) = Some r \<and> settled out (jb_state r))"

lemma holds_payload [simp]: "holds (job\<lparr>cl_payload := p\<rparr>) r = holds job r"
  by (simp add: holds_def)

lemma fenced_settles:
  assumes "fenced c change outcome (wd_queue w) = Inr (q, out)" "held c w"
    and "\<And>r. job_key_of (change r) = job_key_of r" "\<And>r. settled outcome (jb_state (change r))"
  shows "out = outcome \<and> settles (ticket_key c) out (w'\<lparr>wd_queue := q\<rparr>)"
proof -
  obtain r where "find_job (ticket_key c) (wd_queue w) = Some r" "holds c r" "queue_ok (wd_queue w)"
    using assms(2) unfolding held_def by blast
  then show ?thesis using fenced_hit [OF assms(1), of r] assms(3,4) by (simp add: settles_def)
qed

lemma complete_settles:
  "completeJob now c (wd_queue w) = Inr (q, out) \<Longrightarrow> held c w \<Longrightarrow>
     out = Completed \<and> settles (ticket_key c) out (w'\<lparr>wd_queue := q\<rparr>)"
  unfolding completeJob_def
  by (rule fenced_settles [of c "complete_change now"]) (simp_all add: complete_change_def job_key_of_def settled_def)

lemma kill_settles:
  "killJob now c code detail (wd_queue w) = Inr (q, out) \<Longrightarrow> held c w \<Longrightarrow>
     out = Outcome_dead \<and> settles (ticket_key c) out (w'\<lparr>wd_queue := q\<rparr>)"
  unfolding killJob_def
  by (rule fenced_settles [of c "kill_change now code detail"]) (simp_all add: kill_change_def job_key_of_def settled_def)

lemma requeue_settles:
  "requeueForNextChunk now c (wd_queue w) = Inr (q, out) \<Longrightarrow> held c w \<Longrightarrow>
     out = Requeued \<and> settles (ticket_key c) out (w'\<lparr>wd_queue := q\<rparr>)"
  unfolding requeueForNextChunk_def
  by (rule fenced_settles [of c "requeue_change now"]) (simp_all add: requeue_change_def job_key_of_def settled_def)

lemma fail_settles:
  assumes "failJob now c failure (wd_queue w) = Inr (q, out)" "held c w"
  shows "(out = Outcome_dead \<or> out = Outcome_retryable) \<and> settles (ticket_key c) out (w'\<lparr>wd_queue := q\<rparr>)"
proof -
  let ?ex = "isExhausted (cl_attempt c) (cl_maxAttempts c)"
  obtain delay where "fenced c (fail_change now ?ex delay failure)
      (if ?ex then Outcome_dead else Outcome_retryable) (wd_queue w) = Inr (q, out)"
    using assms(1) by (auto simp: failJob_def Let_def and_then_Inr_iff split: if_splits)
  from fenced_settles [OF this assms(2), of w'] show ?thesis
    by (cases ?ex) (auto simp: fail_change_def job_key_of_def settled_def)
qed

lemma on_queue_Inr: "on_queue f w = Inr (w', out) \<longleftrightarrow>
    (\<exists>q. f (wd_clock w) (wd_queue w) = Inr (q, out) \<and> w' = w\<lparr>wd_queue := q\<rparr>)"
  by (auto simp: on_queue_def and_then_Inr_iff)

lemma thrown_settles:
  assumes "settle_thrown env job e w = Inr (w', a)" "held job w"
  shows "\<exists>out. a = Attempt_outcome out \<and> settles (ticket_key job) out w'"
  using assms(1) kill_settles [OF _ assms(2), THEN conjunct2] fail_settles [OF _ assms(2), THEN conjunct2]
  by (cases e) (auto simp: settle_thrown_def and_then_Inr_iff on_queue_Inr)

lemma held_rollback [simp]: "held job (rollback w w1) = held job w"
  by (simp add: held_def rollback_def)

lemma held_after: "keeps id handler (ticket_key job) \<Longrightarrow> hd_handle handler scope j w = (result, w1) \<Longrightarrow> held job w \<Longrightarrow>
    held job w1"
  unfolding held_def using keeps_row by metis

lemma held_lease:
  assumes "held job w"
  shows "holdsLease job (wd_queue w)"
proof -
  obtain r where r: "find_job (ticket_key job) (wd_queue w) = Some r" "holds job r" "queue_ok (wd_queue w)"
    using assms unfolding held_def by blast
  then have "sql_count (holds job) (jobs (wd_queue w)) = 1"
    using find_job_Some [OF r(1)] holds_key
    by (intro count_unique [of job_key_of _ r]) (auto simp: queue_ok_def)
  then show ?thesis by (simp add: holdsLease_def sql_count_def)
qed

lemma progress_held:
  assumes "writeProgress now clock (progress_write job chunk) (wd_queue w) = Inr (q, out)" "held job w"
  shows "\<exists>b. out = Some b \<and> held job (w\<lparr>wd_queue := q\<rparr>)"
proof -
  obtain r where r: "find_job (ticket_key job) (wd_queue w) = Some r" "holds job r" "queue_ok (wd_queue w)"
    using assms(2) unfolding held_def by blast
  have "progress_hit (progress_write job chunk) r"
    using r(2) by (simp add: progress_hit_def progress_write_def holds_def)
  then obtain b where b: "out = Some b"
    using assms(1) find_job_Some [OF r(1)]
    by (cases out) (auto simp: writeProgress_def and_then_Inr_iff sql_one_None)
  obtain r2 where "find_job (ticket_key job) (wd_queue w) = Some r2" "queue_ok q"
    "find_job (ticket_key job) q = Some (progress_change now clock (jc_progress chunk) r2)"
    using progress_Inr [OF assms(1) [unfolded b] r(3)] by metis
  moreover have "holds job (progress_change now clock (jc_progress chunk) r)"
    using r(2) by (simp add: holds_def progress_change_def)
  ultimately show ?thesis using b r(1) by (simp add: held_def)
qed

lemma attempt_settles:
  assumes run: "runAttempt env handler job w = Inr (w1, a)" and h: "held job w" and k: "keeps id handler (ticket_key job)"
  shows "case a of Attempt_outcome out \<Rightarrow> settles (ticket_key job) out w1 | Attempt_chunk _ _ \<Rightarrow> held job w1"
proof (cases "hd_handle handler (scopeForJob job) job w")
  case (Pair result w2)
  have h2: "held job w2" using k Pair h by (rule held_after)
  have t: "settle_thrown env job e x = Inr (w1, a) \<Longrightarrow> held job x \<Longrightarrow> ?thesis" for e and x :: "'a World"
    using thrown_settles by fastforce
  have c: "completeJob now job (wd_queue w2) = Inr (q, out) \<Longrightarrow> w1 = w2\<lparr>wd_queue := q\<rparr> \<Longrightarrow> a = Attempt_outcome out \<Longrightarrow> ?thesis"
    for now q out using complete_settles [OF _ h2, THEN conjunct2] by auto
  show ?thesis
  proof (cases result)
    case (Threw e)
    then show ?thesis using run Pair t [of e w2] t [of e "rollback w w2"] h h2 held_lease [OF h]
      by (auto simp: runAttempt_def attempt_fenced_def attempt_in_transaction_def split: if_splits)
  next
    case (Returned res)
    show ?thesis
    proof (cases "hd_protection handler = Outbound_fence")
      case True
      then show ?thesis using run Pair Returned kill_settles [OF _ h2, THEN conjunct2] kill_settles [OF _ h2, THEN conjunct1] c
        by (auto simp: runAttempt_def attempt_fenced_def and_then_Inr_iff on_queue_Inr split: if_splits)
    next
      case False
      show ?thesis
      proof (cases "open_chunk res")
        case None
        then show ?thesis using run Pair Returned False t [of _ "rollback w w2"] h held_lease [OF h] c
          by (auto simp: runAttempt_def attempt_in_transaction_def split: sum.splits if_splits
              dest: complete_settles [OF _ h2, THEN conjunct1])
      next
        case (Some chunk)
        then show ?thesis using run Pair Returned False t [of _ "rollback w w2"] h held_lease [OF h]
            progress_held [OF _ h2]
          by (fastforce simp: runAttempt_def attempt_in_transaction_def split: sum.splits if_splits option.splits)
      qed
    qed
  qed
qed

lemma turn_settles:
  assumes "loop_turn env handler deadline l w = Inr turn" "held (lp_job l) w" "keeps id handler (ticket_key (lp_job l))"
  shows "case turn of Loop_ends out w1 \<Rightarrow> settles (ticket_key (lp_job l)) out w1
    | Loop_again l1 w1 \<Rightarrow> held (lp_job l1) w1 \<and> ticket_key (lp_job l1) = ticket_key (lp_job l)"
proof -
  let ?job = "lp_job l"
  have chunk: "case turn of Loop_ends out w1 \<Rightarrow> settles (ticket_key ?job) out w1
    | Loop_again l1 w1 \<Rightarrow> held (lp_job l1) w1 \<and> ticket_key (lp_job l1) = ticket_key ?job"
    if run: "run_chunk env handler deadline l clock w = Inr turn" for clock
  proof -
    obtain w1 a where a: "runAttempt env handler ?job w = Inr (w1, a)"
      using run by (auto simp: run_chunk_def Let_def and_then_Inr_iff)
    note s = attempt_settles [OF a assms(2,3)]
    show ?thesis
    proof (cases a)
      case (Attempt_outcome out)
      then show ?thesis using run a s by (auto simp: run_chunk_def Let_def)
    next
      case (Attempt_chunk chunk b)
      let ?job1 = "?job\<lparr>cl_payload := (cl_payload ?job)\<lparr>pl_progress := Some (jc_progress chunk),
          pl_chunking := Some (chunking_json b)\<rparr>\<rparr>"
      have h1: "held ?job1 w1" "ticket_key ?job1 = ticket_key ?job"
        using s Attempt_chunk by (simp_all add: held_def ticket_key_def)
      then show ?thesis using run a Attempt_chunk requeue_settles [OF _ h1(1), THEN conjunct1] requeue_settles [OF _ h1(1), THEN conjunct2]
        by (auto simp: run_chunk_def Let_def and_then_Inr_iff on_queue_Inr split: if_splits)
    qed
  qed
  then show ?thesis
    using assms(1) fail_settles [OF _ assms(2)]
    by (fastforce simp: loop_turn_def Let_def and_then_Inr_iff on_queue_Inr split: option.splits)
qed

lemma loop_settles:
  assumes "chunk_loop env handler deadline l w = Some (Inr (w', out))"
    "held (lp_job l) w" "keeps id handler (ticket_key (lp_job l))"
  shows "settles (ticket_key (lp_job l)) out w'"
proof -
  have "\<forall>w' out. res = Inr (w', out) \<longrightarrow> held (lp_job l) w \<longrightarrow> keeps id handler (ticket_key (lp_job l)) \<longrightarrow>
      settles (ticket_key (lp_job l)) out w'"
    if "chunk_loop env handler deadline l w = Some res" for env handler deadline l w res
  proof (rule chunk_loop.raw_induct [where P = "\<lambda>env handler deadline l w res. \<forall>w' out. res = Inr (w', out) \<longrightarrow>
      held (lp_job l) w \<longrightarrow> keeps id handler (ticket_key (lp_job l)) \<longrightarrow> settles (ticket_key (lp_job l)) out w'", OF _ that],
      intro allI impI)
    fix loop env handler deadline l w res w' out
    assume IH: "\<And>env handler deadline l w res. loop env handler deadline l w = Some res \<Longrightarrow>
        \<forall>w' out. res = Inr (w', out) \<longrightarrow> held (lp_job l) w \<longrightarrow> keeps id handler (ticket_key (lp_job l)) \<longrightarrow>
          settles (ticket_key (lp_job l)) out w'"
      and body: "(case loop_turn env handler deadline l w of Inl e \<Rightarrow> Some (Inl e)
        | Inr (Loop_ends out w1) \<Rightarrow> Some (Inr (w1, out))
        | Inr (Loop_again l1 w1) \<Rightarrow> loop env handler deadline l1 w1) = Some res"
      and res: "res = Inr (w', out)" and h: "held (lp_job l) w" and k: "keeps id handler (ticket_key (lp_job l))"
    show "settles (ticket_key (lp_job l)) out w'"
    proof (cases "loop_turn env handler deadline l w")
      case (Inr turn)
      note s = turn_settles [OF Inr h k]
      show ?thesis
      proof (cases turn)
        case (Loop_ends o1 w1)
        then show ?thesis using s Inr body res by simp
      next
        case (Loop_again l1 w1)
        then have "loop env handler deadline l1 w1 = Some (Inr (w', out))" using Inr body res by simp
        from IH [OF this] show ?thesis using s Loop_again k by simp
      qed
    qed (use body res in simp)
  qed
  then show ?thesis using assms by blast
qed

text \<open>C26: A run settles the lease it was given: if the worker holds the job when the run starts
  and nobody else writes its row meanwhile, then after a run that does not raise the row is
  no longer leased, and the outcome reported is the state it was left in.\<close>
theorem run_settles_lease:
  assumes "held job w" "runClaimedJob env reg job w = Some (Inr (w', out))"
    and "\<And>handler. registry_get reg (cl_kind job) = Some handler \<Longrightarrow> keeps id handler (ticket_key job)"
  shows "\<exists>r. find_job (ticket_key job) (wd_queue w') = Some r \<and> settled out (jb_state r)"
proof (cases "registry_get reg (cl_kind job)")
  case (Some handler)
  then have "settles (ticket_key job) out w'"
    using assms loop_settles [of env handler "cl_leaseExpiresAt job"
        "\<lparr> lp_job = job, lp_longestChunk = 0, lp_clock = None \<rparr>" w w' out]
    by (simp add: runClaimedJob_def)
  then show ?thesis by (simp add: settles_def)
next
  case None
  then show ?thesis using assms(2) fail_settles [OF _ assms(1)]
    by (fastforce simp: runClaimedJob_def and_then_Inr_iff on_queue_Inr settles_def settled_def)
qed

section \<open>A stale run\<close>

lemma lost_claim_find:
  "queue_ok db \<Longrightarrow> lost_claim c db \<longleftrightarrow> (\<forall>r. find_job (ticket_key c) db = Some r \<longrightarrow>
     \<not> (jb_state r = Running \<and> jb_fencingToken r = cl_fencingToken c))"
  using find_job_iff by (auto simp: lost_claim_def)

lemma lost_after:
  assumes "keeps id handler (ticket_key job)" "hd_handle handler scope j w = (result, w1)"
    "queue_ok (wd_queue w)" "lost_claim job (wd_queue w)"
  shows "lost_claim job (wd_queue w1)"
  using keeps_row [OF assms(1-3)] assms(3,4) by (simp add: lost_claim_find)

lemma thrown_lost:
  "lost_claim job (wd_queue w) \<Longrightarrow> 1 \<le> cl_attempt job \<Longrightarrow>
     settle_thrown env job e w = Inr (w, Attempt_outcome Lease_lost)"
  by (cases e) (simp_all add: settle_thrown_def on_queue_def lost_writes)

lemma rollback_simps [simp]:
  "wd_queue (rollback w w1) = wd_queue w" "\<exists>t. rollback w w1 = w\<lparr>wd_clock := t\<rparr>"
  by (auto simp: rollback_def)

lemma same_clock: "\<exists>t. w = w\<lparr>wd_clock := t\<rparr>" for w :: "'b World"
  by (rule exI [of _ "wd_clock w"]) simp

lemma attempt_lost:
  assumes lost: "lost_claim job (wd_queue w)" and ok: "queue_ok (wd_queue w)" and a: "1 \<le> cl_attempt job"
    and k: "keeps id handler (ticket_key job)" and p: "hd_protection handler \<noteq> Outbound_fence"
  shows "\<exists>t. runAttempt env handler job w = Inr (w\<lparr>wd_clock := t\<rparr>, Attempt_outcome Lease_lost)"
proof (cases "hd_protection handler = Fencing_token \<and> \<not> holdsLease job (wd_queue w)")
  case True
  then show ?thesis using p same_clock [of w] by (simp add: runAttempt_def attempt_in_transaction_def)
next
  case False
  obtain result w1 where h: "hd_handle handler (scopeForJob job) job w = (result, w1)" by fastforce
  have l1: "lost_claim job (wd_queue w1)" using lost_after [OF k h ok lost] .
  note writes = lost_writes(1,6) [OF l1]
  have "runAttempt env handler job w = Inr (rollback w w1, Attempt_outcome Lease_lost)"
  proof (cases result)
    case (Threw e)
    then show ?thesis using h False p lost a
      by (auto simp: runAttempt_def attempt_in_transaction_def thrown_lost)
  next
    case (Returned res)
    then show ?thesis using h False p writes
      by (auto simp: runAttempt_def attempt_in_transaction_def progress_write_def split: option.split)
  qed
  then show ?thesis by (metis rollback_def)
qed

text \<open>A worker that wakes up after its lease was taken has no effect: under the two
  transactional protections its run reports a lost lease, and the queue, the heartbeats and
  everything the handler wrote are as they were; only the clock has moved.\<close>
theorem stale_run_has_no_effect:
  assumes "queue_ok (wd_queue w)" "lost_claim job (wd_queue w)" "1 \<le> cl_attempt job"
    and "\<And>handler. registry_get reg (cl_kind job) = Some handler \<Longrightarrow>
      keeps id handler (ticket_key job) \<and> hd_protection handler \<noteq> Outbound_fence"
  shows "\<exists>t. runClaimedJob env reg job w =
    Some (Inr (w\<lparr>wd_clock := t\<rparr>, if registry_get reg (cl_kind job) = None then No_handler else Lease_lost))"
proof (cases "registry_get reg (cl_kind job)")
  case None
  have "w = w\<lparr>wd_clock := wd_clock w\<rparr>" by simp
  then show ?thesis using None lost_writes(5) [OF assms(2,3)]
    by (auto simp: runClaimedJob_def on_queue_def intro!: exI [of _ "wd_clock w"])
next
  case (Some handler)
  let ?l = "\<lparr> lp_job = job, lp_longestChunk = 0, lp_clock = None \<rparr>"
  obtain t where t: "runAttempt env handler job w = Inr (w\<lparr>wd_clock := t\<rparr>, Attempt_outcome Lease_lost)"
    using attempt_lost [OF assms(2,1,3)] assms(4) [OF Some] by blast
  have c: "run_chunk env handler d ?l clock w = Inr (Loop_ends Lease_lost (w\<lparr>wd_clock := t\<rparr>))" for d clock
    using t by (simp add: run_chunk_def Let_def)
  have f: "on_queue (\<lambda>now. failJob now job failure) w = Inr (w\<lparr>wd_clock := wd_clock w\<rparr>, Lease_lost)" for failure
    using lost_writes(5) [OF assms(2,3)] by (simp add: on_queue_def)
  have "\<exists>t. loop_turn env handler d ?l w = Inr (Loop_ends Lease_lost (w\<lparr>wd_clock := t\<rparr>))" for d
    using c f same_clock [of w] by (auto simp: loop_turn_def Let_def split: option.split)
  then obtain t2 where "loop_turn env handler (cl_leaseExpiresAt job) ?l w = Inr (Loop_ends Lease_lost (w\<lparr>wd_clock := t2\<rparr>))"
    by blast
  then have "runClaimedJob env reg job w = Some (Inr (w\<lparr>wd_clock := t2\<rparr>, Lease_lost))"
    using Some by (simp add: runClaimedJob_def chunk_loop.simps)
  then show ?thesis using Some by auto
qed

section \<open>Lanes\<close>

text \<open>No lane starves: of any four consecutive polls of a flexible slot one looks at bulk
  first, or did not find urgent work and so looked at bulk too; and whatever the number of
  slots, some slot claims urgent and some slot claims bulk.\<close>
theorem lanes_do_not_starve:
  assumes "2 \<le> length (sl_lanes s)" "length claims = 4" "0 < concurrency"
  shows "(\<exists>(claim, order) \<in> set (zip claims (poll_orders claims s)). order = [Bulk, Urgent] \<or> claim order \<noteq> Some Urgent) \<and>
    (\<forall>jobClass. \<exists>index\<in>{0..<concurrency}. jobClass \<in> set (sl_lanes (slotLanes concurrency index)))"
proof
  obtain a b c d where cl: "claims = [a, b, c, d]"
    using assms(2) by (auto simp: numeral_eq_Suc length_Suc_conv)
  show "\<exists>(claim, order) \<in> set (zip claims (poll_orders claims s)). order = [Bulk, Urgent] \<or> claim order \<noteq> Some Urgent"
    using assms(1) by (auto simp: cl lane_order_def lane_record_def Let_def URGENT_STREAK_LIMIT_def)
  show "\<forall>jobClass. \<exists>index\<in>{0..<concurrency}. jobClass \<in> set (sl_lanes (slotLanes concurrency index))"
  proof
    fix jobClass
    consider "concurrency = 1" | "jobClass = Urgent" | "1 < concurrency" "jobClass = Bulk"
      using assms(3) by (cases jobClass; cases "concurrency = 1") auto
    then show "\<exists>index\<in>{0..<concurrency}. jobClass \<in> set (sl_lanes (slotLanes concurrency index))"
    proof cases
      case 1
      then show ?thesis by (intro bexI [of _ 0]) (cases jobClass; simp add: slotLanes_def slotClasses_def JOB_CLASSES_def)+
    next
      case 2
      then show ?thesis using assms(3)
        by (intro bexI [of _ 0]) (auto simp: slotLanes_def slotClasses_def JOB_CLASSES_def)
    next
      case 3
      then show ?thesis by (intro bexI [of _ 1]) (auto simp: slotLanes_def slotClasses_def JOB_CLASSES_def)
    qed
  qed
qed

theorem lanes_do_not_starve_witness:
  "\<exists>(claim, order) \<in> set (zip (replicate 4 (\<lambda>order. Some Urgent)) (poll_orders (replicate 4 (\<lambda>order. Some Urgent)) (slotLanes 2 1))).
     order = [Bulk, Urgent] \<or> claim order \<noteq> Some Urgent"
  using lanes_do_not_starve [of "slotLanes 2 1" "replicate 4 (\<lambda>order. Some Urgent)" 2, THEN conjunct1]
  by (simp add: slotLanes_def slotClasses_def JOB_CLASSES_def)

section \<open>Witnesses of the runs\<close>

definition world0 :: "unit World" where
  "world0 = \<lparr> wd_queue = claimed0, wd_beats = [], wd_business = (), wd_clock = 1000 \<rparr>"

definition env1 :: RunnerEnv where
  "env1 = \<lparr> re_backoff = None, re_random = None, re_chunkCountLimit = Some 2, re_chunkSecondsLimit = None,
     re_lag = (\<lambda>_. 0), re_dbError = (\<lambda>_. Not_an_error) \<rparr>"

text \<open>A handler that never says it is done, one second a chunk.\<close>
definition endless :: "unit JobHandler" where
  "endless = \<lparr> hd_kind = ''mail.sync'', hd_protection = Business_uniqueness, hd_maxAttempts = 4,
     hd_leaseSeconds = 60, hd_chunked = Some True,
     hd_handle = (\<lambda>_ _ w. (Returned (Some \<lparr> jc_progress = ''{}'', jc_done = False \<rparr>), w\<lparr>wd_clock := wd_clock w + 1000\<rparr>)),
     hd_startsNewAttempts = False \<rparr>"

definition registry1 :: "unit HandlerRegistry" where
  "registry1 = \<lparr> hr_handlers = [(''mail.sync'', endless)], hr_classes = [(''mail.sync'', Urgent)] \<rparr>"

lemma endless_keeps: "keeps f endless k"
  unfolding keeps_def endless_def by auto

lemma registry1_get: "registry_get registry1 ''mail.sync'' = Some endless"
  by (simp add: registry_get_def isJobKind_def JOB_KINDS_def registry1_def)

lemma registry1_is: "registry_get registry1 (cl_kind claim1) = Some h \<Longrightarrow> h = endless"
  using registry1_get by (simp add: claim1_def row1_def toClaim_def claim_change_def new_job_def spec0_def)

lemma queue_ok_claimed: "queue_ok claimed0"
  using queue_steps_ok [OF demo_reachable] system_okD(1) [of running_system] by (simp add: running_system_def)

theorem runClaimedJob_returns_witness: "\<exists>res. runClaimedJob env1 registry1 claim1 world0 = Some res"
  using runClaimedJob_returns [of world0 registry1 claim1 env1] queue_ok_claimed
    endless_keeps [of row_budget "ticket_key claim1"] registry1_is
  by (auto simp: world0_def)

lemma held_demo: "held claim1 world0"
proof -
  have "find_job (ticket_key claim1) claimed0 = Some row1 \<and> holds claim1 row1" by code_simp
  then show ?thesis using queue_ok_claimed by (simp add: held_def world0_def)
qed

lemma demo_run: "\<exists>w'. runClaimedJob env1 registry1 claim1 world0 = Some (Inr (w', Outcome_retryable))"
proof -
  have "(case runClaimedJob env1 registry1 claim1 world0 of Some (Inr (w', out)) \<Rightarrow> out = Outcome_retryable | _ \<Rightarrow> False)"
    by code_simp
  then show ?thesis by (auto split: option.splits sum.splits)
qed

theorem run_settles_lease_witness:
  "\<exists>w' r. runClaimedJob env1 registry1 claim1 world0 = Some (Inr (w', Outcome_retryable)) \<and>
     find_job (ticket_key claim1) (wd_queue w') = Some r \<and> settled Outcome_retryable (jb_state r)"
proof -
  obtain w' where w': "runClaimedJob env1 registry1 claim1 world0 = Some (Inr (w', Outcome_retryable))"
    using demo_run by blast
  from run_settles_lease [OF held_demo this] show ?thesis
    using w' registry1_is endless_keeps by blast
qed

theorem stale_run_has_no_effect_witness:
  "\<exists>t. runClaimedJob env1 registry1 claim1 (world0\<lparr>wd_queue := stolen0\<rparr>) =
     Some (Inr (world0\<lparr>wd_queue := stolen0, wd_clock := t\<rparr>, Lease_lost))"
proof -
  have "queue_step\<^sup>*\<^sup>* running_system stolen_system"
    using r_into_rtranclp [where r = queue_step, OF demo_reclaim] demo_stolen
    by (rule rtranclp.rtrancl_into_rtrancl)
  then have "queue_ok stolen0"
    using queue_steps_ok [OF rtranclp_trans [OF demo_reachable]] system_okD(1) [of stolen_system]
    by (simp add: stolen_system_def)
  moreover have "lost_claim claim1 stolen0" by code_simp
  moreover have "1 \<le> cl_attempt claim1" by code_simp
  moreover have "registry_get registry1 (cl_kind claim1) = Some endless"
    using registry1_get by (simp add: claim1_def row1_def toClaim_def claim_change_def new_job_def spec0_def)
  moreover have "hd_protection endless \<noteq> Outbound_fence" by (simp add: endless_def)
  ultimately show ?thesis
    using stale_run_has_no_effect [of "world0\<lparr>wd_queue := stolen0\<rparr>" claim1 registry1 env1]
      endless_keeps [of id "ticket_key claim1"] by simp
qed

end
