(* ===== verification/Holds.thy ===== *)
theory Holds
  imports Prelude "HOL-Library.Char_ord" "HOL-Library.List_Lexorder" "HOL-Library.Product_Lexorder"
begin

text \<open>
  Holds.  \<open>packages/contracts/src/reasonCodes.ts\<close>: the closed vocabularies;
  \<open>packages/domain/src/rules/holds.ts\<close>: how the holds on a piece of work compose, the union of
  their intervals and the shift of the work's due instant; \<open>packages/domain/policy/holds.ts\<close>:
  the statements on \<open>active_holds\<close>.  A code is its string; an ISO 8601 string read by
  \<open>Date.parse\<close> is an \<open>instant option\<close>.  The send gate's advisory lock makes each statement
  one step; \<open>now()\<close> and \<open>gen_random_uuid()\<close> are arguments.
\<close>

section \<open>Vocabularies\<close>

definition HOLD_REASON_CODES :: "string list" where
  "HOLD_REASON_CODES = [
    ''scoped_pause'', ''mailbox_disconnected'', ''coverage_incomplete'', ''template_unapproved'',
    ''optout_link'', ''missing_variables'', ''daily_cap'', ''route_missing'', ''route_candidate'',
    ''route_invalid'', ''route_retired'', ''outside_email_window'', ''outside_calling_window'',
    ''posture_missing'', ''posture_overlapping'', ''posture_overdue'', ''firm_suppressed'',
    ''handle_suppressed'', ''manual_suppression_review'', ''uncertain_reply'', ''ambiguous_match'',
    ''reassignment'', ''opportunity_manual'', ''provider_refusal'', ''send_unknown_reconciling'',
    ''send_unknown_terminal'', ''long_hold_review'', ''restore_in_progress'', ''cold_legacy'',
    ''follow_up_not_permitted'', ''follow_up_expired'', ''follow_up_scope_exhausted'',
    ''firm_already_enrolled'', ''cold_outreach_mailbox_required'']"

definition RECOVERABLE_HOLD_REASON_CODES :: "string list" where
  "RECOVERABLE_HOLD_REASON_CODES = [
    ''scoped_pause'', ''mailbox_disconnected'', ''coverage_incomplete'', ''template_unapproved'',
    ''optout_link'', ''missing_variables'', ''daily_cap'', ''route_missing'', ''route_candidate'',
    ''route_invalid'', ''route_retired'', ''outside_email_window'', ''outside_calling_window'',
    ''uncertain_reply'', ''ambiguous_match'', ''reassignment'', ''provider_refusal'',
    ''send_unknown_terminal'', ''long_hold_review'', ''follow_up_not_permitted'',
    ''follow_up_expired'', ''firm_already_enrolled'', ''cold_outreach_mailbox_required'']"

definition isRecoverableHoldReason :: "string \<Rightarrow> bool" where
  "isRecoverableHoldReason code \<longleftrightarrow> code \<in> set RECOVERABLE_HOLD_REASON_CODES"

definition BLOCKED_ACTION_KINDS :: "string list" where
  "BLOCKED_ACTION_KINDS = [''email_send'', ''call_task'', ''dial_authorization'', ''enrollment_advance'', ''research'']"

definition knownBlockedActionKinds :: "string list \<Rightarrow> string list" where
  "knownBlockedActionKinds values = filter (\<lambda>v. v \<in> set BLOCKED_ACTION_KINDS) values"

definition HOLD_RECOVERY_ACTIONS :: "string list" where
  "HOLD_RECOVERY_ACTIONS = [''resume_after_review'', ''reconnect_mailbox'', ''confirm_reply'', ''resolve_ambiguity'',
    ''release_pause'', ''mark_delivered_or_skipped'', ''advance_generation'', ''review_call'']"

definition HOLD_SCOPE_KINDS :: "string list" where
  "HOLD_SCOPE_KINDS = [''workspace'', ''owner'', ''mailbox'', ''firm'', ''opportunity'', ''enrollment'', ''channel'']"

section \<open>The union of intervals\<close>

datatype HoldRuleError = Type_error | Range_error

record HoldRecord =
  ho_id :: uuid
  ho_reasonCode :: string
  ho_blockedActionKinds :: "string list"
  ho_startedAt :: "instant option"
  ho_releasedAt :: "instant option option"

record Interval =
  iv_start :: int
  iv_end :: int

definition toInterval :: "HoldRecord \<Rightarrow> instant \<Rightarrow> HoldRuleError + Interval" where
  "toInterval h now =
     (case (ho_startedAt h, (case ho_releasedAt h of None \<Rightarrow> Some now | Some released \<Rightarrow> released)) of
        (Some s, Some e) \<Rightarrow> Inr \<lparr> iv_start = s, iv_end = max e s \<rparr>
      | _ \<Rightarrow> Inl Type_error)"

text \<open>One turn of the loop over the sorted intervals.\<close>
definition merge_one :: "Interval list \<Rightarrow> Interval \<Rightarrow> Interval list" where
  "merge_one merged interval =
     (if merged \<noteq> [] \<and> iv_start interval \<le> iv_end (last merged)
      then (if iv_end interval > iv_end (last merged)
            then butlast merged @ [\<lparr> iv_start = iv_start (last merged), iv_end = iv_end interval \<rparr>] else merged)
      else merged @ [interval])"

definition mergeIntervals :: "Interval list \<Rightarrow> Interval list" where
  "mergeIntervals intervals =
     foldl merge_one [] (sort_key iv_start (filter (\<lambda>i. iv_end i > iv_start i) intervals))"

definition unionDuration :: "Interval list \<Rightarrow> int" where
  "unionDuration intervals = foldl (\<lambda>total i. total + (iv_end i - iv_start i)) 0 (mergeIntervals intervals)"

section \<open>Composition and resumption\<close>

record HoldComposition =
  hc_blocked :: bool
  hc_blockedActionKinds :: "string list"
  hc_openReasonCodes :: "string list"
  hc_openHoldIds :: "string list"
  hc_unionMilliseconds :: int
  hc_recoverableReasonCodes :: "string list"

record ComposeHoldsInput =
  ch_holds :: "HoldRecord list"
  ch_now :: "instant option"
  ch_actionKinds :: "string list option"

fun map_result :: "('a \<Rightarrow> 'e + 'b) \<Rightarrow> 'a list \<Rightarrow> 'e + 'b list" where
  "map_result f [] = Inr []"
| "map_result f (x # xs) = and_then (f x) (\<lambda>y. and_then (map_result f xs) (\<lambda>ys. Inr (y # ys)))"

definition sortedUnique :: "string list \<Rightarrow> string list" where
  "sortedUnique values = sort (remdups values)"

definition applicable_holds :: "ComposeHoldsInput \<Rightarrow> HoldRecord list" where
  "applicable_holds input = (case ch_actionKinds input of
     None \<Rightarrow> ch_holds input
   | Some wanted \<Rightarrow> if wanted = [] then ch_holds input
       else filter (\<lambda>h. list_ex (\<lambda>kind. kind \<in> set wanted) (ho_blockedActionKinds h)) (ch_holds input))"

definition composeHolds :: "ComposeHoldsInput \<Rightarrow> HoldRuleError + HoldComposition" where
  "composeHolds input = (case ch_now input of
     None \<Rightarrow> Inl Type_error
   | Some now \<Rightarrow>
       (let applicable = applicable_holds input;
            opened = filter (\<lambda>h. ho_releasedAt h = None) applicable;
            openReasonCodes = sortedUnique (map ho_reasonCode opened) in
        and_then (map_result (\<lambda>h. toInterval h now) applicable) (\<lambda>intervals. Inr
          \<lparr> hc_blocked = (opened \<noteq> []),
            hc_blockedActionKinds = sortedUnique (concat (map ho_blockedActionKinds opened)),
            hc_openReasonCodes = openReasonCodes,
            hc_openHoldIds = sort (map ho_id opened),
            hc_unionMilliseconds = unionDuration intervals,
            hc_recoverableReasonCodes = filter isRecoverableHoldReason openReasonCodes \<rparr>)))"

datatype ResumeDecision = Still_held "string list" | Resume int

definition decideResume :: "HoldComposition \<Rightarrow> ResumeDecision" where
  "decideResume composition =
     (if hc_blocked composition then Still_held (hc_openHoldIds composition)
      else Resume (hc_unionMilliseconds composition))"

text \<open>The instant of the ISO string returned; the last case is \<open>toISOString\<close>'s RangeError.\<close>
definition shiftDueInstant :: "instant option \<Rightarrow> int \<Rightarrow> HoldRuleError + instant" where
  "shiftDueInstant dueAt shiftMilliseconds = (case dueAt of
     None \<Rightarrow> Inl Type_error
   | Some parsed \<Rightarrow>
       if shiftMilliseconds < 0 then Inl Range_error else
       if \<bar>parsed + shiftMilliseconds\<bar> > 8640000000000000 then Inl Range_error
       else Inr (parsed + shiftMilliseconds))"

section \<open>The table\<close>

text \<open>One workspace's rows of \<open>active_holds\<close>.\<close>
record HoldRow =
  hd_id :: uuid
  hd_scopeKind :: string
  hd_scopeKey :: "string option"
  hd_reasonCode :: string
  hd_blockedActionKinds :: "string list"
  hd_sourceEventKind :: string
  hd_sourceEventId :: "string option"
  hd_ownerUserId :: "uuid option"
  hd_startedAt :: instant
  hd_releasedAt :: "instant option"
  hd_recoveryAction :: "string option"

record OpenHold =
  oh_id :: uuid
  oh_scopeKind :: string
  oh_scopeKey :: "string option"
  oh_reasonCode :: string
  oh_blockedActionKinds :: "string list"
  oh_sourceEventKind :: string
  oh_sourceEventId :: "string option"
  oh_ownerUserId :: "uuid option"
  oh_startedAt :: instant
  oh_recoveryAction :: "string option"

definition toOpenHold :: "HoldRow \<Rightarrow> OpenHold" where
  "toOpenHold row = \<lparr> oh_id = hd_id row, oh_scopeKind = hd_scopeKind row, oh_scopeKey = hd_scopeKey row,
     oh_reasonCode = hd_reasonCode row, oh_blockedActionKinds = knownBlockedActionKinds (hd_blockedActionKinds row),
     oh_sourceEventKind = hd_sourceEventKind row, oh_sourceEventId = hd_sourceEventId row,
     oh_ownerUserId = hd_ownerUserId row, oh_startedAt = hd_startedAt row, oh_recoveryAction = hd_recoveryAction row \<rparr>"

record HoldSubject =
  hs_actionKind :: string
  hs_firmId :: "string option"
  hs_opportunityId :: "string option"
  hs_ownerUserId :: "string option"
  hs_mailboxId :: "string option"
  hs_enrollmentId :: "string option"
  hs_channel :: "string option"

text \<open>\<open>IS NOT DISTINCT FROM\<close> is equality with null as a value.\<close>
definition scope_matches :: "HoldSubject \<Rightarrow> HoldRow \<Rightarrow> bool" where
  "scope_matches subject h \<longleftrightarrow>
     hd_scopeKind h = ''workspace'' \<or>
     (hd_scopeKind h = ''firm'' \<and> hd_scopeKey h = hs_firmId subject) \<or>
     (hd_scopeKind h = ''opportunity'' \<and> hd_scopeKey h = hs_opportunityId subject) \<or>
     (hd_scopeKind h = ''owner'' \<and> hd_scopeKey h = hs_ownerUserId subject) \<or>
     (hd_scopeKind h = ''mailbox'' \<and> hd_scopeKey h = hs_mailboxId subject) \<or>
     (hd_scopeKind h = ''enrollment'' \<and> hd_scopeKey h = hs_enrollmentId subject) \<or>
     (hd_scopeKind h = ''channel'' \<and> hd_scopeKey h = hs_channel subject)"

definition by_start :: "HoldRow list \<Rightarrow> HoldRow list" where
  "by_start rows = sort_key (\<lambda>h. (hd_startedAt h, hd_id h)) rows"

definition listApplicableHolds :: "HoldRow list \<Rightarrow> HoldSubject \<Rightarrow> OpenHold list" where
  "listApplicableHolds holds subject =
     (let rows = by_start (filter (\<lambda>h. hd_releasedAt h = None \<and>
            hs_actionKind subject \<in> set (hd_blockedActionKinds h) \<and> scope_matches subject h) holds) in
      map toOpenHold (filter (\<lambda>h. hd_scopeKind h = ''workspace'' \<or> hd_scopeKey h \<noteq> None) rows))"

definition listHoldsByReason :: "HoldRow list \<Rightarrow> string option \<Rightarrow> string option \<Rightarrow> OpenHold list" where
  "listHoldsByReason holds reason excludeReason =
     map toOpenHold (by_start (filter (\<lambda>h. hd_releasedAt h = None \<and>
       (case reason of None \<Rightarrow> True | Some r \<Rightarrow> hd_reasonCode h = r) \<and>
       (case excludeReason of None \<Rightarrow> True | Some r \<Rightarrow> hd_reasonCode h \<noteq> r)) holds))"

record OpenHoldInput =
  oi_scopeKind :: string
  oi_scopeKey :: "string option"
  oi_reasonCode :: string
  oi_blockedActionKinds :: "string list"
  oi_sourceEventKind :: string
  oi_sourceEventId :: "string option"
  oi_ownerUserId :: "uuid option"
  oi_recoveryAction :: "string option"

text \<open>The CHECK constraints of the table and its foreign key to the reason codes, as the
  migrations up to 0036 leave them.\<close>
definition hold_row_ok :: "HoldRow \<Rightarrow> bool" where
  "hold_row_ok h \<longleftrightarrow>
     hd_scopeKind h \<in> set HOLD_SCOPE_KINDS \<and>
     (hd_scopeKind h = ''workspace'') = (hd_scopeKey h = None) \<and>
     hd_reasonCode h \<in> set HOLD_REASON_CODES \<and>
     hd_blockedActionKinds h \<noteq> [] \<and> set (hd_blockedActionKinds h) \<subseteq> set BLOCKED_ACTION_KINDS \<and>
     (\<exists>c\<in>set (hd_sourceEventKind h). c \<noteq> CHR '' '') \<and> length (hd_sourceEventKind h) \<le> 80 \<and>
     (case hd_releasedAt h of None \<Rightarrow> True | Some r \<Rightarrow> hd_startedAt h \<le> r) \<and>
     (case hd_recoveryAction h of None \<Rightarrow> True | Some a \<Rightarrow> a \<in> set (''requeue_job'' # HOLD_RECOVERY_ACTIONS))"

text \<open>The partial unique index \<open>active_holds_one_pending_review\<close>.\<close>
definition pending_review_twin :: "HoldRow \<Rightarrow> HoldRow \<Rightarrow> bool" where
  "pending_review_twin g h \<longleftrightarrow> hd_sourceEventKind g = ''call_analysis_pending'' \<and>
     hd_sourceEventKind h = ''call_analysis_pending'' \<and> hd_sourceEventId g \<noteq> None \<and>
     hd_sourceEventId g = hd_sourceEventId h"

datatype HoldDbError = Check_violation | Unique_violation

definition new_hold :: "instant \<Rightarrow> uuid \<Rightarrow> OpenHoldInput \<Rightarrow> HoldRow" where
  "new_hold now fresh input = \<lparr> hd_id = fresh, hd_scopeKind = oi_scopeKind input,
     hd_scopeKey = (if oi_scopeKind input = ''workspace'' then None else oi_scopeKey input),
     hd_reasonCode = oi_reasonCode input, hd_blockedActionKinds = oi_blockedActionKinds input,
     hd_sourceEventKind = oi_sourceEventKind input, hd_sourceEventId = oi_sourceEventId input,
     hd_ownerUserId = oi_ownerUserId input, hd_startedAt = now, hd_releasedAt = None,
     hd_recoveryAction = oi_recoveryAction input \<rparr>"

definition openHold :: "instant \<Rightarrow> uuid \<Rightarrow> OpenHoldInput \<Rightarrow> HoldRow list \<Rightarrow> HoldDbError + HoldRow list \<times> uuid" where
  "openHold now fresh input holds =
     (if \<not> hold_row_ok (new_hold now fresh input) then Inl Check_violation else
      if list_ex (pending_review_twin (new_hold now fresh input)) holds then Inl Unique_violation else
      Inr (holds @ [new_hold now fresh input], fresh))"

record ReleasedHold =
  rh_id :: uuid
  rh_startedAt :: instant
  rh_releasedAt :: instant

text \<open>\<open>UPDATE active_holds SET released_at = now() WHERE ... RETURNING\<close>, refused whole by the
  CHECK that a release is not before the start.\<close>
definition release_where :: "instant \<Rightarrow> (HoldRow \<Rightarrow> bool) \<Rightarrow> HoldRow list \<Rightarrow> HoldDbError + HoldRow list \<times> ReleasedHold list" where
  "release_where now hit holds =
     (if list_ex (\<lambda>h. hit h \<and> hd_releasedAt h = None \<and> now < hd_startedAt h) holds then Inl Check_violation
      else Inr (sql_update (\<lambda>h. hit h \<and> hd_releasedAt h = None) (\<lambda>h. h\<lparr> hd_releasedAt := Some now \<rparr>) holds,
        map (\<lambda>h. \<lparr> rh_id = hd_id h, rh_startedAt = hd_startedAt h, rh_releasedAt = now \<rparr>)
          (filter (\<lambda>h. hit h \<and> hd_releasedAt h = None) holds)))"

definition releaseHoldsOfEvent :: "instant \<Rightarrow> string \<Rightarrow> string \<Rightarrow> HoldRow list \<Rightarrow> HoldDbError + HoldRow list \<times> ReleasedHold list" where
  "releaseHoldsOfEvent now sourceEventId reasonCode holds =
     release_where now (\<lambda>h. hd_sourceEventId h = Some sourceEventId \<and> hd_reasonCode h = reasonCode) holds"

definition releaseHold :: "instant \<Rightarrow> uuid \<Rightarrow> string option \<Rightarrow> HoldRow list \<Rightarrow> HoldDbError + HoldRow list \<times> ReleasedHold option" where
  "releaseHold now holdId reason holds =
     and_then (release_where now (\<lambda>h. hd_id h = holdId \<and>
         (case reason of None \<Rightarrow> True | Some r \<Rightarrow> hd_reasonCode h = r)) holds)
       (\<lambda>(holds', released). Inr (holds', case released of [] \<Rightarrow> None | r # _ \<Rightarrow> Some r))"

end
