(* ===== verification/HoldProperties.thy ===== *)
theory HoldProperties
  imports Holds
begin

text \<open>
  What the holds promise.  The merged intervals are disjoint and cover the same instants, so
  the shift of a piece of work is the size of the union of its blocking intervals; a hold
  stays in force, and in every eligibility read it applies to, until a release that names
  it; and the composition answers exactly when nothing is open.
\<close>

section \<open>Intervals\<close>

definition span :: "Interval \<Rightarrow> int set" where
  "span i = {iv_start i..<iv_end i}"

definition covers :: "Interval list \<Rightarrow> int set" where
  "covers is = (\<Union>i\<in>set is. span i)"

text \<open>Nonempty intervals in order, with a gap between each and the next.\<close>
definition separated :: "Interval list \<Rightarrow> bool" where
  "separated is \<longleftrightarrow> (\<forall>i\<in>set is. iv_start i < iv_end i) \<and> sorted_wrt (\<lambda>i j. iv_end i < iv_start j) is"

lemma covers_simps [simp]:
  "covers [] = {}" "covers (i # is) = span i \<union> covers is" "covers (xs @ ys) = covers xs \<union> covers ys"
  by (auto simp: covers_def)

lemma span_empty: "iv_end i \<le> iv_start i \<Longrightarrow> span i = {}"
  by (simp add: span_def)

lemma covers_filter: "covers (filter (\<lambda>i. iv_end i > iv_start i) is) = covers is"
  using span_empty by (induction "is") (auto simp: not_less)

lemma covers_set: "set xs = set ys \<Longrightarrow> covers xs = covers ys"
  by (simp add: covers_def)

lemma separated_snoc:
  "separated (is @ [i]) \<longleftrightarrow> separated is \<and> iv_start i < iv_end i \<and> (\<forall>j\<in>set is. iv_end j < iv_start i)"
  by (auto simp: separated_def sorted_wrt_append)

lemma finite_covers [simp]: "finite (covers is)"
  by (simp add: covers_def span_def)

lemma card_covers:
  "separated is \<Longrightarrow> int (card (covers is)) = (\<Sum>i\<leftarrow>is. iv_end i - iv_start i)"
proof (induction "is")
  case (Cons i "is")
  have s: "separated is" "iv_start i < iv_end i" "\<forall>j\<in>set is. iv_end i < iv_start j"
    using Cons.prems by (auto simp: separated_def)
  have "span i \<inter> covers is = {}"
    using s(3) by (force simp: covers_def span_def)
  then have "card (covers (i # is)) = card (span i) + card (covers is)"
    by (simp add: card_Un_disjoint span_def)
  then show ?case using Cons.IH [OF s(1)] s(2) by (simp add: span_def)
qed simp

lemma merge_one_ok:
  assumes "separated merged" "iv_start i < iv_end i" "\<forall>j\<in>set merged. iv_start j \<le> iv_start i"
  shows "separated (merge_one merged i) \<and> covers (merge_one merged i) = covers merged \<union> span i \<and>
    (\<forall>j\<in>set (merge_one merged i). iv_start j \<le> iv_start i)"
proof (cases merged rule: rev_cases)
  case Nil
  then show ?thesis using assms by (simp add: merge_one_def separated_def)
next
  case (snoc front l)
  have l: "separated front" "iv_start l < iv_end l" "\<forall>j\<in>set front. iv_end j < iv_start l" "iv_start l \<le> iv_start i"
    using assms(1,3) snoc by (auto simp: separated_snoc)
  show ?thesis
  proof (cases "iv_start i \<le> iv_end l")
    case False
    then have "merge_one merged i = merged @ [i]" using snoc by (simp add: merge_one_def)
    moreover have "iv_end j < iv_start i" if j: "j \<in> set merged" for j
      using j snoc l(2,3) False by (cases "j = l") auto
    ultimately show ?thesis using assms by (simp add: separated_snoc)
  next
    case touching: True
    show ?thesis
    proof (cases "iv_end i > iv_end l")
      case True
      have "span \<lparr>iv_start = iv_start l, iv_end = iv_end i\<rparr> = span l \<union> span i"
        using touching True l by (auto simp: span_def)
      then show ?thesis using touching True snoc l assms by (auto simp: merge_one_def separated_snoc)
    next
      case False
      then have "span i \<subseteq> span l" using l by (auto simp: span_def)
      then show ?thesis using touching False snoc assms by (auto simp: merge_one_def)
    qed
  qed
qed

lemma merge_fold_ok:
  "separated merged \<Longrightarrow> \<forall>i\<in>set is. iv_start i < iv_end i \<Longrightarrow> sorted (map iv_start is) \<Longrightarrow>
   \<forall>j\<in>set merged. \<forall>i\<in>set is. iv_start j \<le> iv_start i \<Longrightarrow>
   separated (foldl merge_one merged is) \<and> covers (foldl merge_one merged is) = covers merged \<union> covers is"
proof (induction "is" arbitrary: merged)
  case (Cons i "is")
  have m: "separated (merge_one merged i)" "covers (merge_one merged i) = covers merged \<union> span i"
    "\<forall>j\<in>set (merge_one merged i). iv_start j \<le> iv_start i"
    using merge_one_ok [of merged i] Cons.prems by auto
  have "\<forall>j\<in>set (merge_one merged i). \<forall>k\<in>set is. iv_start j \<le> iv_start k"
  proof (intro ballI)
    fix j k assume "j \<in> set (merge_one merged i)" "k \<in> set is"
    then have "iv_start j \<le> iv_start i" "iv_start i \<le> iv_start k" using m(3) Cons.prems(3) by simp_all
    then show "iv_start j \<le> iv_start k" by (rule order_trans)
  qed
  then show ?case using Cons.IH [OF m(1)] Cons.prems(2,3) m(2) by auto
qed simp

lemma mergeIntervals_ok:
  "separated (mergeIntervals is)" "covers (mergeIntervals is) = covers is"
proof -
  have "separated (mergeIntervals is) \<and> covers (mergeIntervals is) = covers [] \<union>
      covers (sort_key iv_start (filter (\<lambda>i. iv_end i > iv_start i) is))"
    unfolding mergeIntervals_def by (rule merge_fold_ok) (auto simp: separated_def)
  moreover have "covers (sort_key iv_start (filter (\<lambda>i. iv_end i > iv_start i) is)) = covers is"
    using covers_set [OF set_sort] covers_filter by metis
  ultimately show "separated (mergeIntervals is)" "covers (mergeIntervals is) = covers is" by simp_all
qed

lemma foldl_sum: "foldl (\<lambda>t i. t + f i) (a :: int) xs = a + (\<Sum>i\<leftarrow>xs. f i)"
  by (induction xs arbitrary: a) simp_all

text \<open>\<open>unionDuration\<close> of any intervals, in any order, overlapping, touching, nested or empty, is
  the number of milliseconds at least one of them covers.\<close>
lemma unionDuration_card:
  "unionDuration is = int (card (\<Union>i\<in>set is. {iv_start i..<iv_end i}))"
proof -
  have "unionDuration is = int (card (covers (mergeIntervals is)))"
    by (simp add: unionDuration_def foldl_sum card_covers mergeIntervals_ok(1))
  also have "covers (mergeIntervals is) = covers is" by (rule mergeIntervals_ok(2))
  finally show ?thesis by (simp only: covers_def span_def)
qed

section \<open>Composition\<close>

lemma map_result_Inr:
  "map_result f xs = Inr ys \<Longrightarrow> length ys = length xs \<and> (\<forall>i<length xs. f (xs ! i) = Inr (ys ! i))"
proof (induction xs arbitrary: ys)
  case (Cons x xs)
  then obtain y zs where y: "f x = Inr y" "map_result f xs = Inr zs" "ys = y # zs"
    by (auto elim!: and_thenE)
  then show ?case using Cons.IH [OF y(2)] by (auto simp: nth_Cons split: nat.split)
qed simp

lemma map_result_members:
  assumes "map_result f xs = Inr ys"
  shows "y \<in> set ys \<Longrightarrow> \<exists>x\<in>set xs. f x = Inr y" and "x \<in> set xs \<Longrightarrow> \<exists>y\<in>set ys. f x = Inr y"
  using map_result_Inr [OF assms] by (metis in_set_conv_nth)+

text \<open>The instants at which a hold was in force, once it has been released.\<close>
definition blocking_span :: "HoldRecord \<Rightarrow> int set" where
  "blocking_span h = (case (ho_startedAt h, ho_releasedAt h) of
     (Some s, Some (Some e)) \<Rightarrow> {s..<e} | _ \<Rightarrow> {})"

lemma toInterval_span:
  "toInterval h now = Inr i \<Longrightarrow> ho_releasedAt h \<noteq> None \<Longrightarrow> {iv_start i..<iv_end i} = blocking_span h"
  by (auto simp: toInterval_def blocking_span_def max_def split: option.splits if_splits)

lemma toInterval_readable:
  "toInterval h now = Inr i \<Longrightarrow> ho_startedAt h \<noteq> None \<and> ho_releasedAt h \<noteq> Some None"
  by (auto simp: toInterval_def split: option.splits)

text \<open>C27: Work resumes exactly when every applicable hold has been released and can be read, and
  it is shifted by the union of their intervals: the number of milliseconds at least one of
  them was in force, however they overlapped and in whatever order they are given.\<close>
theorem resume_shifts_by_union:
  assumes "composeHolds input = Inr c" "decideResume c = Resume ms"
  shows "(\<forall>h\<in>set (applicable_holds input). \<exists>s e. ho_startedAt h = Some s \<and> ho_releasedAt h = Some (Some e)) \<and>
    ms = int (card (\<Union>h\<in>set (applicable_holds input). blocking_span h))"
proof -
  obtain now where now: "ch_now input = Some now"
    using assms(1) by (auto simp: composeHolds_def split: option.splits)
  let ?hs = "applicable_holds input"
  obtain ivs where ivs: "map_result (\<lambda>h. toInterval h now) ?hs = Inr ivs"
      "hc_blocked c \<longleftrightarrow> filter (\<lambda>h. ho_releasedAt h = None) ?hs \<noteq> []" "hc_unionMilliseconds c = unionDuration ivs"
    using assms(1) by (auto simp: composeHolds_def now Let_def elim!: and_thenE)
  have c: "\<not> hc_blocked c" "ms = unionDuration ivs"
    using assms(2) ivs(3) by (auto simp: decideResume_def split: if_splits)
  then have released: "ho_releasedAt h \<noteq> None" if "h \<in> set ?hs" for h
    using ivs(2) that by (auto simp: filter_empty_conv)
  note im = map_result_members [OF ivs(1)]
  have eq: "{iv_start i..<iv_end i} = blocking_span h" if "h \<in> set ?hs" "toInterval h now = Inr i" for h i
    by (rule toInterval_span [OF that(2) released [OF that(1)]])
  have "(\<lambda>i. {iv_start i..<iv_end i}) ` set ivs = blocking_span ` set ?hs"
  proof (intro equalityI subsetI)
    fix X assume "X \<in> (\<lambda>i. {iv_start i..<iv_end i}) ` set ivs"
    then obtain i where i: "i \<in> set ivs" "X = {iv_start i..<iv_end i}" by blast
    obtain h where "h \<in> set ?hs" "toInterval h now = Inr i" using im(1) [OF i(1)] by blast
    then show "X \<in> blocking_span ` set ?hs" using eq i(2) by simp
  next
    fix X assume "X \<in> blocking_span ` set ?hs"
    then obtain h where h: "h \<in> set ?hs" "X = blocking_span h" by blast
    obtain i where "i \<in> set ivs" "toInterval h now = Inr i" using im(2) [OF h(1)] by blast
    then show "X \<in> (\<lambda>i. {iv_start i..<iv_end i}) ` set ivs" using eq h by auto
  qed
  then have "(\<Union>i\<in>set ivs. {iv_start i..<iv_end i}) = (\<Union>h\<in>set ?hs. blocking_span h)" by (rule arg_cong)
  moreover have "\<exists>s e. ho_startedAt h = Some s \<and> ho_releasedAt h = Some (Some e)" if h: "h \<in> set ?hs" for h
  proof -
    obtain i where "toInterval h now = Inr i" using im(2) h by blast
    then show ?thesis using toInterval_readable released [OF h] by fastforce
  qed
  ultimately show ?thesis using c(2) by (simp add: unionDuration_card)
qed

definition hold_a :: HoldRecord where
  "hold_a = \<lparr> ho_id = ''a'', ho_reasonCode = ''daily_cap'', ho_blockedActionKinds = [''email_send''],
     ho_startedAt = Some 10, ho_releasedAt = Some (Some 30) \<rparr>"

definition hold_b :: HoldRecord where
  "hold_b = \<lparr> ho_id = ''b'', ho_reasonCode = ''scoped_pause'', ho_blockedActionKinds = [''email_send'', ''research''],
     ho_startedAt = Some 20, ho_releasedAt = Some (Some 45) \<rparr>"

definition input_ab :: ComposeHoldsInput where
  "input_ab = \<lparr> ch_holds = [hold_b, hold_a], ch_now = Some 100, ch_actionKinds = Some [''email_send''] \<rparr>"

theorem resume_shifts_by_union_witness:
  "\<exists>c. composeHolds input_ab = Inr c \<and> decideResume c = Resume 35 \<and>
     35 = int (card (\<Union>h\<in>set (applicable_holds input_ab). blocking_span h))"
proof -
  obtain c where c: "composeHolds input_ab = Inr c" "decideResume c = Resume 35"
  proof
    show "composeHolds input_ab = Inr \<lparr> hc_blocked = False, hc_blockedActionKinds = [], hc_openReasonCodes = [],
      hc_openHoldIds = [], hc_unionMilliseconds = 35, hc_recoverableReasonCodes = [] \<rparr>" by code_simp
  qed code_simp
  then show ?thesis using resume_shifts_by_union [OF c] by blast
qed

section \<open>Standing holds\<close>

text \<open>A statement of the file; one the database refuses changes nothing.\<close>
datatype HoldAction = Act_open instant uuid OpenHoldInput | Act_release_event instant string string
  | Act_release instant uuid "string option"

fun hold_act :: "HoldAction \<Rightarrow> HoldRow list \<Rightarrow> HoldRow list" where
  "hold_act (Act_open now fresh input) rows = (case openHold now fresh input rows of Inl _ \<Rightarrow> rows | Inr r \<Rightarrow> fst r)"
| "hold_act (Act_release_event now ev reason) rows =
     (case releaseHoldsOfEvent now ev reason rows of Inl _ \<Rightarrow> rows | Inr r \<Rightarrow> fst r)"
| "hold_act (Act_release now k reason) rows = (case releaseHold now k reason rows of Inl _ \<Rightarrow> rows | Inr r \<Rightarrow> fst r)"

text \<open>The releases that name a hold: its own event with its own reason, or its id.\<close>
fun releases :: "HoldAction \<Rightarrow> HoldRow \<Rightarrow> bool" where
  "releases (Act_open now fresh input) h \<longleftrightarrow> False"
| "releases (Act_release_event now ev reason) h \<longleftrightarrow> hd_sourceEventId h = Some ev \<and> hd_reasonCode h = reason"
| "releases (Act_release now k reason) h \<longleftrightarrow> hd_id h = k \<and> (reason = None \<or> reason = Some (hd_reasonCode h))"

lemma release_where_keeps:
  "release_where now hit rows = Inr (rows', released) \<Longrightarrow> h \<in> set rows \<Longrightarrow> \<not> hit h \<or> hd_releasedAt h \<noteq> None \<Longrightarrow> h \<in> set rows'"
  by (auto simp: release_where_def set_sql_update image_iff split: if_splits)

lemma hold_act_keeps:
  "h \<in> set rows \<Longrightarrow> \<not> releases a h \<or> hd_releasedAt h \<noteq> None \<Longrightarrow> h \<in> set (hold_act a rows)"
proof (cases a)
  case (Act_open now fresh input)
  then show "h \<in> set rows \<Longrightarrow> ?thesis" by (auto simp: openHold_def split: sum.splits)
next
  case (Act_release_event now ev reason)
  then show "h \<in> set rows \<Longrightarrow> \<not> releases a h \<or> hd_releasedAt h \<noteq> None \<Longrightarrow> ?thesis"
    by (auto simp: releaseHoldsOfEvent_def dest: release_where_keeps split: sum.splits)
next
  case (Act_release now k reason)
  then show "h \<in> set rows \<Longrightarrow> \<not> releases a h \<or> hd_releasedAt h \<noteq> None \<Longrightarrow> ?thesis"
    by (auto simp: releaseHold_def elim!: and_thenE dest: release_where_keeps split: sum.splits option.splits)
qed

lemma hold_run_keeps:
  "h \<in> set rows \<Longrightarrow> (\<forall>a\<in>set acts. \<not> releases a h) \<or> hd_releasedAt h \<noteq> None \<Longrightarrow> h \<in> set (fold hold_act acts rows)"
proof (induction acts arbitrary: rows)
  case (Cons a acts)
  then have "h \<in> set (hold_act a rows)" using hold_act_keeps by (metis list.set_intros(1))
  then show ?case using Cons by auto
qed simp

lemma listed_iff:
  "hold_row_ok h \<Longrightarrow> h \<in> set rows \<Longrightarrow> hd_releasedAt h = None \<Longrightarrow> hs_actionKind s \<in> set (hd_blockedActionKinds h) \<Longrightarrow>
   scope_matches s h \<Longrightarrow> toOpenHold h \<in> set (listApplicableHolds rows s)"
  by (auto simp: listApplicableHolds_def by_start_def Let_def hold_row_ok_def)

text \<open>C28: Clearing one hold never clears another.  Through any sequence of openings and releases
  none of which names it, a hold stays, and every eligibility read of an action it blocks,
  about a subject in its scope, lists it.\<close>
theorem hold_stands:
  assumes "h \<in> set rows" "hold_row_ok h" "hd_releasedAt h = None" "\<forall>a\<in>set acts. \<not> releases a h"
    and "hs_actionKind s \<in> set (hd_blockedActionKinds h)" "scope_matches s h"
  shows "toOpenHold h \<in> set (listApplicableHolds (fold hold_act acts rows) s)"
proof (rule listed_iff [OF assms(2) _ assms(3,5,6)])
  show "h \<in> set (fold hold_act acts rows)" using hold_run_keeps assms(1,4) by blast
qed

definition hold_row1 :: HoldRow where
  "hold_row1 = new_hold 5 ''h1'' \<lparr> oi_scopeKind = ''firm'', oi_scopeKey = Some ''f1'', oi_reasonCode = ''daily_cap'',
     oi_blockedActionKinds = [''email_send''], oi_sourceEventKind = ''outbound_message'',
     oi_sourceEventId = Some ''o1'', oi_ownerUserId = None, oi_recoveryAction = None \<rparr>"

definition subject1 :: HoldSubject where
  "subject1 = \<lparr> hs_actionKind = ''email_send'', hs_firmId = Some ''f1'', hs_opportunityId = None, hs_ownerUserId = None,
     hs_mailboxId = None, hs_enrollmentId = None, hs_channel = None \<rparr>"

theorem hold_stands_witness:
  "toOpenHold hold_row1 \<in> set (listApplicableHolds (fold hold_act
     [Act_release_event 9 ''o1'' ''scoped_pause'', Act_release 9 ''h2'' None] [hold_row1]) subject1)"
  by (rule hold_stands) code_simp+

end
