(* ===== verification/SendDb.thy ===== *)
theory SendDb
  imports Holds Fence Ramp
begin

text \<open>
  The state the send path reads and writes, one workspace's worth: the outbound tables, the
  ramp, the holds, the provider incidents of \<open>db/migrations/0065_provider_incidents.sql\<close>, the
  follow-up permissions of \<open>0025_follow_up_permissions.sql\<close>, the holiday calendars, the
  effective suppressions, and the settings \<open>sending_enabled\<close> (\<open>None\<close> when the stored value does
  not parse) and \<open>postal_address\<close>; \<open>sx_rest\<close> is every table of a part that is not modelled.  \<open>sx_calls\<close> is the
  history of \<open>gmail.sendMessage\<close>.  A \<open>Tick\<close> carries what the database and the host answer in
  one step: \<open>now()\<close>, the clock, and fresh uuids.
\<close>

datatype ProviderIncidentClass = Class_transient | Class_authentication | Class_reputation | Class_unknown

datatype ProviderIncidentSource = Source_sent_search | Source_token_refresh | Source_mail_read
  | Source_provider_send | Source_admin_report

datatype IncidentResolution = Verified_read | Human_revalidated

record IncidentRow =
  pi_id :: uuid
  pi_mailboxId :: uuid
  pi_sourceKind :: ProviderIncidentSource
  pi_sourceId :: string
  pi_classification :: ProviderIncidentClass
  pi_reason :: string
  pi_bindingSha256 :: "string option"
  pi_observedAt :: instant
  pi_retryAt :: "instant option"
  pi_holdId :: "uuid option"
  pi_resolvedAt :: "instant option"
  pi_resolution :: "IncidentResolution option"

record FollowUpPermissionRow =
  fp_id :: uuid
  fp_scope :: string
  fp_contactId :: uuid
  fp_consumedAt :: "instant option"
  fp_consumedReason :: "string option"
  fp_revokedAt :: "instant option"
  fp_expiresAt :: instant

record CalendarDbRow =
  cal_version :: string
  cal_dates :: "string list"
  cal_supersededAt :: "instant option"

record EffectiveSuppression =
  es_eventId :: uuid
  es_scope :: string
  es_canonicalKey :: string
  es_channel :: string
  es_recordedAt :: instant

record SendingEnabledSetting =
  se_enabled :: bool
  se_releaseGateReference :: "string option"

text \<open>\<open>GmailSendRequest\<close>; the threading a reply carries may name its own recipients.\<close>
record SendThreading =
  tg_to :: "string option"
  tg_cc :: "string list"
  tg_threadId :: string
  tg_inReplyTo :: string
  tg_references :: "string list"

record GmailSendRequest =
  gr_to :: string
  gr_from :: string
  gr_subject :: jstring
  gr_body :: jstring
  gr_rfcMessageId :: string
  gr_threading :: "SendThreading option"

text \<open>One call of \<open>sendMessage\<close>, with the fence and the token it was made for.\<close>
record GmailCall =
  gc_fence :: uuid
  gc_token :: uuid
  gc_request :: GmailSendRequest

record 'w SendDb =
  sx_outbound :: OutboundDb
  sx_ramp :: RampDb
  sx_holds :: "HoldRow list"
  sx_incidents :: "IncidentRow list"
  sx_permissions :: "FollowUpPermissionRow list"
  sx_calendars :: "CalendarDbRow list"
  sx_suppressions :: "EffectiveSuppression list"
  sx_sendingEnabled :: "SendingEnabledSetting option"
  sx_postalAddress :: "jstring option"
  sx_recordedAddresses :: "jstring list"
  sx_rest :: 'w
  sx_calls :: "GmailCall list"

record Tick =
  tk_now :: instant
  tk_clock :: instant
  tk_token :: uuid
  tk_touch :: uuid
  tk_epoch :: uuid
  tk_hold :: uuid
  tk_incident :: uuid

text \<open>What stops a call without an answer: an exception of the local clock, a constraint of
  the database, a mailbox that changed under a fenced write, the Gmail client.\<close>
datatype SendError = Clock_threw clock_code | Hold_db HoldDbError | Incident_check | Stale_mailbox_generation
  | Gmail_threw

definition lift_clock :: "clock_code + 'a \<Rightarrow> SendError + 'a" where
  "lift_clock r = (case r of Inl e \<Rightarrow> Inl (Clock_threw e) | Inr x \<Rightarrow> Inr x)"

definition lift_hold :: "HoldDbError + 'a \<Rightarrow> SendError + 'a" where
  "lift_hold r = (case r of Inl e \<Rightarrow> Inl (Hold_db e) | Inr x \<Rightarrow> Inr x)"

section \<open>Statements on one part of the state\<close>

text \<open>The ramp reads the fences of the outbound tables.\<close>
definition ramp_view :: "'w SendDb \<Rightarrow> RampDb" where
  "ramp_view db = (sx_ramp db)\<lparr> rd_fences := outbound_messages (sx_outbound db) \<rparr>"

definition with_ramp :: "(RampDb \<Rightarrow> RampDb \<times> 'a) \<Rightarrow> 'w SendDb \<Rightarrow> 'w SendDb \<times> 'a" where
  "with_ramp f db = (case f (ramp_view db) of (ramp, x) \<Rightarrow> (db\<lparr> sx_ramp := ramp \<rparr>, x))"

definition with_outbound :: "(OutboundDb \<Rightarrow> OutboundDb \<times> 'a) \<Rightarrow> 'w SendDb \<Rightarrow> 'w SendDb \<times> 'a" where
  "with_outbound f db = (case f (sx_outbound db) of (o', x) \<Rightarrow> (db\<lparr> sx_outbound := o' \<rparr>, x))"

definition with_holds :: "(HoldRow list \<Rightarrow> HoldDbError + HoldRow list \<times> 'a) \<Rightarrow> 'w SendDb \<Rightarrow> SendError + 'w SendDb \<times> 'a" where
  "with_holds f db = and_then (lift_hold (f (sx_holds db))) (\<lambda>(holds, x). Inr (db\<lparr> sx_holds := holds \<rparr>, x))"

end
