(* ===== verification/ProviderIncidents.thy ===== *)
theory ProviderIncidents
  imports SendDb
begin

text \<open>
  \<open>packages/domain/outbound/providerIncidents.ts\<close>: the incidents a mailbox's provider
  caused, the refusal they put on a send, and how they are resolved.  The membership and the
  token of a mailbox, rows of tables that are not modelled, and SHA-256 are parameters
  (\<open>IncidentReads\<close>).  A write runs in a transaction of its own or a savepoint: one that
  throws leaves the state it was given.  Retry instants compare as the ISO strings the code
  sorts.
\<close>

section \<open>The binding\<close>

record BindingMetadata =
  bm_generation :: int
  bm_ownerUserId :: uuid
  bm_providerAccountId :: string
  bm_emailAddress :: string
  bm_token :: "instant \<times> instant option"
  bm_domain :: "uuid \<times> instant option \<times> instant option \<times> instant option"
  bm_authorization :: "(int \<times> bool) option"

record 'w IncidentReads =
  ir_activeMember :: "'w \<Rightarrow> uuid \<Rightarrow> bool"
  ir_token :: "'w \<Rightarrow> uuid \<Rightarrow> (instant \<times> instant option) option"
  ir_sha256 :: "BindingMetadata \<Rightarrow> string"

record MailboxFence =
  mf_generation :: int
  mf_emailAddress :: string

record ProviderBinding =
  pb_hash :: "string option"
  pb_fence :: MailboxFence

definition mailbox_of :: "'w SendDb \<Rightarrow> uuid \<Rightarrow> Mailbox option" where
  "mailbox_of db m = sql_one (\<lambda>x. mb_id x = m) (mailboxes (sx_outbound db))"

definition primary_domain :: "'w SendDb \<Rightarrow> SendingDomain option" where
  "primary_domain db = sql_one sd_isPrimary (sending_domains (sx_outbound db))"

text \<open>The metadata of a mailbox whose every part is safe.\<close>
definition binding_metadata :: "('w, 'z) IncidentReads_scheme \<Rightarrow> 'w SendDb \<Rightarrow> Mailbox \<Rightarrow> BindingMetadata option" where
  "binding_metadata rd db m =
     (case (mb_providerAccountId m, ir_token rd (sx_rest db) (mb_id m), primary_domain db) of
        (Some account, Some token, Some d) \<Rightarrow>
          if mb_status m = ''connected'' \<and> ir_activeMember rd (sx_rest db) (mb_ownerUserId m) \<and>
             sd_spfPass d \<and> sd_dkimPass d \<and> sd_dmarcPass d \<and> sd_postmasterReviewedAt d \<noteq> None \<and>
             sd_automatedSendingEnabled d \<and>
             (case sql_one (\<lambda>a. pa_mailboxId a = mb_id m) (authorizations (sx_outbound db)) of None \<Rightarrow> True
              | Some a \<Rightarrow> pa_enabled a \<and> pa_providerAccountId a = account \<and> pa_emailAddress a = mb_emailAddress m \<and>
                  pa_ownerUserId a = mb_ownerUserId m)
          then Some \<lparr> bm_generation = mb_generation m, bm_ownerUserId = mb_ownerUserId m,
            bm_providerAccountId = account, bm_emailAddress = mb_emailAddress m, bm_token = token,
            bm_domain = (sd_id d, sd_authenticationCheckedAt d, sd_postmasterReviewedAt d, sd_automatedSendingEnabledAt d),
            bm_authorization = map_option (\<lambda>a. (pa_revision a, pa_enabled a))
              (sql_one (\<lambda>a. pa_mailboxId a = mb_id m) (authorizations (sx_outbound db))) \<rparr>
          else None
      | _ \<Rightarrow> None)"

definition readProviderBinding :: "('w, 'z) IncidentReads_scheme \<Rightarrow> 'w SendDb \<Rightarrow> uuid \<Rightarrow> ProviderBinding option" where
  "readProviderBinding rd db mailboxId = map_option (\<lambda>m.
     \<lparr> pb_hash = map_option (ir_sha256 rd) (binding_metadata rd db m),
       pb_fence = \<lparr> mf_generation = mb_generation m, mf_emailAddress = mb_emailAddress m \<rparr> \<rparr>) (mailbox_of db mailboxId)"

text \<open>\<open>mail/mailboxes.ts\<close>: the row lock refuses a mailbox that is no longer the one the caller read.\<close>
definition lockMailboxAtFence :: "'w SendDb \<Rightarrow> uuid \<Rightarrow> MailboxFence \<Rightarrow> SendError + Mailbox" where
  "lockMailboxAtFence db mailboxId fence = (case mailbox_of db mailboxId of
     None \<Rightarrow> Inl Stale_mailbox_generation
   | Some m \<Rightarrow> if mb_generation m \<noteq> mf_generation fence \<or> mb_emailAddress m \<noteq> mf_emailAddress fence
       then Inl Stale_mailbox_generation else Inr m)"

section \<open>Recording\<close>

record IncidentInput =
  ii_mailboxId :: uuid
  ii_sourceKind :: ProviderIncidentSource
  ii_sourceId :: string
  ii_classification :: ProviderIncidentClass
  ii_reason :: string
  ii_retryAt :: "instant option"
  ii_binding :: ProviderBinding
  ii_now :: instant

text \<open>The CHECK constraints on the instants of a row.\<close>
definition incident_row_ok :: "IncidentRow \<Rightarrow> bool" where
  "incident_row_ok i \<longleftrightarrow>
     (case pi_retryAt i of None \<Rightarrow> True | Some r \<Rightarrow> pi_observedAt i \<le> r) \<and>
     ((pi_resolvedAt i = None) = (pi_resolution i = None)) \<and>
     (case pi_resolvedAt i of None \<Rightarrow> True | Some r \<Rightarrow> pi_observedAt i \<le> r)"

text \<open>The partial unique index: one open incident for each source of a mailbox.\<close>
definition same_source :: "IncidentRow \<Rightarrow> IncidentRow \<Rightarrow> bool" where
  "same_source x i \<longleftrightarrow> pi_resolvedAt i = None \<and> pi_mailboxId i = pi_mailboxId x \<and>
     pi_sourceKind i = pi_sourceKind x \<and> pi_sourceId i = pi_sourceId x"

definition new_incident :: "uuid \<Rightarrow> IncidentInput \<Rightarrow> IncidentRow" where
  "new_incident fresh input = \<lparr> pi_id = fresh, pi_mailboxId = ii_mailboxId input, pi_sourceKind = ii_sourceKind input,
     pi_sourceId = ii_sourceId input, pi_classification = ii_classification input, pi_reason = ii_reason input,
     pi_bindingSha256 = pb_hash (ii_binding input), pi_observedAt = ii_now input,
     pi_retryAt = (case ii_retryAt input of None \<Rightarrow> None | Some r \<Rightarrow> if r > ii_now input then Some r else None),
     pi_holdId = None, pi_resolvedAt = None, pi_resolution = None \<rparr>"

text \<open>\<open>DO UPDATE SET\<close>: \<open>EXCLUDED\<close> is the row the insert proposed.\<close>
definition merge_incident :: "IncidentRow \<Rightarrow> IncidentRow \<Rightarrow> IncidentRow" where
  "merge_incident excluded old = old\<lparr>
     pi_retryAt := (case (pi_retryAt old, pi_retryAt excluded) of
        (Some a, Some b) \<Rightarrow> if pi_classification old = Class_transient \<and> pi_classification excluded = Class_transient
          then Some (max a b) else None
      | _ \<Rightarrow> None),
     pi_classification := (if pi_classification old = Class_transient then pi_classification excluded
        else pi_classification old),
     pi_reason := (if pi_classification old = Class_transient \<and> pi_classification excluded \<noteq> Class_transient
        then pi_reason excluded else pi_reason old) \<rparr>"

definition incident_hold :: "uuid \<Rightarrow> uuid \<Rightarrow> OpenHoldInput" where
  "incident_hold mailboxId incidentId = \<lparr> oi_scopeKind = ''mailbox'', oi_scopeKey = Some mailboxId,
     oi_reasonCode = ''provider_refusal'', oi_blockedActionKinds = [''email_send''],
     oi_sourceEventKind = ''provider_incident'', oi_sourceEventId = Some incidentId, oi_ownerUserId = None,
     oi_recoveryAction = Some ''resume_after_review'' \<rparr>"

definition upsert_incident :: "IncidentRow \<Rightarrow> 'w SendDb \<Rightarrow> 'w SendDb \<times> IncidentRow" where
  "upsert_incident row db = (case sql_one (same_source row) (sx_incidents db) of
     Some old \<Rightarrow> (db\<lparr> sx_incidents := sql_update (same_source row) (merge_incident row) (sx_incidents db) \<rparr>,
       merge_incident row old)
   | None \<Rightarrow> (db\<lparr> sx_incidents := sx_incidents db @ [row] \<rparr>, row))"

definition recordProviderIncident :: "Tick \<Rightarrow> IncidentInput \<Rightarrow> 'w SendDb \<Rightarrow> SendError + 'w SendDb" where
  "recordProviderIncident tk input db =
     and_then (lockMailboxAtFence db (ii_mailboxId input) (pb_fence (ii_binding input))) (\<lambda>_.
     case upsert_incident (new_incident (tk_incident tk) input) db of (db1, row) \<Rightarrow>
       if pi_holdId row \<noteq> None then Inr db1
       else and_then (with_holds (openHold (tk_now tk) (tk_hold tk) (incident_hold (ii_mailboxId input) (pi_id row))) db1)
         (\<lambda>(db2, holdId). Inr (db2\<lparr> sx_incidents := sql_update (\<lambda>i. pi_id i = pi_id row)
            (\<lambda>i. i\<lparr> pi_holdId := Some holdId \<rparr>) (sx_incidents db2) \<rparr>)))"

section \<open>Reading\<close>

datatype IncidentState = Waiting | Revalidation_due | Action_required

record ProviderIncident =
  pv_id :: uuid
  pv_classification :: ProviderIncidentClass
  pv_reason :: string
  pv_state :: IncidentState
  pv_retryAt :: "instant option"
  pv_observedAt :: "instant option"
  pv_sourceKind :: ProviderIncidentSource
  pv_sourceId :: string

definition incident_state :: "string option \<Rightarrow> instant \<Rightarrow> IncidentRow \<Rightarrow> IncidentState" where
  "incident_state hash now i = (case pi_retryAt i of
     None \<Rightarrow> Action_required
   | Some retry \<Rightarrow>
       if pi_classification i \<noteq> Class_transient \<or> pi_bindingSha256 i = None \<or> hash \<noteq> pi_bindingSha256 i
       then Action_required else if retry > now then Waiting else Revalidation_due)"

definition unresolved_fence :: "OutboundFenceRow \<Rightarrow> bool" where
  "unresolved_fence f \<longleftrightarrow> fm_state f = Dispatching \<or> fm_state f = Reconciling \<or>
     (fm_state f = Unknown_terminal \<and> fm_adminResolution f = None)"

text \<open>An unresolved fence has been dispatched, so the instant of its creation is never asked for.\<close>
definition fence_incident :: "OutboundFenceRow \<Rightarrow> ProviderIncident" where
  "fence_incident f = \<lparr> pv_id = fm_id f, pv_classification = Class_unknown, pv_reason = ''unresolved_submission'',
     pv_state = (if fm_state f = Unknown_terminal then Action_required else Revalidation_due), pv_retryAt = None,
     pv_observedAt = fm_dispatchStartedAt f, pv_sourceKind = Source_provider_send, pv_sourceId = fm_id f \<rparr>"

definition dispatch_instant :: "OutboundFenceRow \<Rightarrow> instant" where
  "dispatch_instant f = (case fm_dispatchStartedAt f of None \<Rightarrow> 0 | Some d \<Rightarrow> d)"

definition readProviderIncidents :: "('w, 'z) IncidentReads_scheme \<Rightarrow> 'w SendDb \<Rightarrow> uuid \<Rightarrow> instant \<Rightarrow> ProviderIncident list" where
  "readProviderIncidents rd db mailboxId now =
     (let hash = (case readProviderBinding rd db mailboxId of None \<Rightarrow> None | Some b \<Rightarrow> pb_hash b);
          rows = sort_key (\<lambda>i. (pi_observedAt i, pi_id i))
            (filter (\<lambda>i. pi_mailboxId i = mailboxId \<and> pi_resolvedAt i = None) (sx_incidents db));
          fences = take 100 (sort_key (\<lambda>f. (dispatch_instant f, fm_id f))
            (filter (\<lambda>f. en_mailboxId (fm_envelope f) = mailboxId \<and> unresolved_fence f)
              (outbound_messages (sx_outbound db)))) in
      map (\<lambda>i. \<lparr> pv_id = pi_id i, pv_classification = pi_classification i, pv_reason = pi_reason i,
             pv_state = incident_state hash now i, pv_retryAt = pi_retryAt i, pv_observedAt = Some (pi_observedAt i),
             pv_sourceKind = pi_sourceKind i, pv_sourceId = pi_sourceId i \<rparr>) rows @
      map fence_incident fences)"

record IncidentRefusal =
  ref_reason :: SendRefusalCode
  ref_detail :: string
  ref_retryAt :: "instant option"

definition latest_retry :: "ProviderIncident list \<Rightarrow> instant option" where
  "latest_retry incidents = (case List.map_filter pv_retryAt (filter (\<lambda>i. pv_state i = Waiting) incidents) of
     [] \<Rightarrow> None | r # rs \<Rightarrow> Some (foldl max r rs))"

definition refusal_of_incidents :: "ProviderIncident list \<Rightarrow> IncidentRefusal option" where
  "refusal_of_incidents incidents =
     (if incidents = [] then None else
      if list_all (\<lambda>i. pv_reason i = ''unresolved_submission'') incidents
      then Some \<lparr> ref_reason = Provider_refusal, ref_detail = ''unresolved_submission'', ref_retryAt = None \<rparr> else
      if list_ex (\<lambda>i. pv_state i = Action_required) incidents
      then Some \<lparr> ref_reason = Provider_refusal, ref_detail = ''provider_incident_requires_review'', ref_retryAt = None \<rparr> else
      if list_ex (\<lambda>i. pv_state i = Waiting) incidents
      then Some \<lparr> ref_reason = Rate_limited, ref_detail = ''provider_cooldown'', ref_retryAt = latest_retry incidents \<rparr>
      else Some \<lparr> ref_reason = Provider_refusal, ref_detail = ''provider_incident_revalidation_due'', ref_retryAt = None \<rparr>)"

definition providerIncidentRefusal :: "('w, 'z) IncidentReads_scheme \<Rightarrow> 'w SendDb \<Rightarrow> uuid \<Rightarrow> instant \<Rightarrow> IncidentRefusal option" where
  "providerIncidentRefusal rd db mailboxId now = refusal_of_incidents (readProviderIncidents rd db mailboxId now)"

section \<open>Resolving\<close>

text \<open>\<open>UPDATE mailbox_provider_incidents SET resolved_at, resolution WHERE hit RETURNING id\<close>, then
  the release of the hold each row opened.\<close>
definition resolve_row :: "instant \<Rightarrow> IncidentResolution \<Rightarrow> IncidentRow \<Rightarrow> IncidentRow" where
  "resolve_row at how i = i\<lparr> pi_resolvedAt := Some at, pi_resolution := Some how \<rparr>"

fun release_each :: "Tick \<Rightarrow> uuid list \<Rightarrow> 'w SendDb \<Rightarrow> SendError + 'w SendDb" where
  "release_each tk [] db = Inr db"
| "release_each tk (k # ks) db =
     and_then (with_holds (releaseHoldsOfEvent (tk_now tk) k ''provider_refusal'') db) (\<lambda>(db1, _). release_each tk ks db1)"

definition resolve_where :: "Tick \<Rightarrow> instant \<Rightarrow> IncidentResolution \<Rightarrow> (IncidentRow \<Rightarrow> bool) \<Rightarrow> 'w SendDb \<Rightarrow> SendError + 'w SendDb" where
  "resolve_where tk at how hit db =
     (if list_ex (\<lambda>i. hit i \<and> \<not> incident_row_ok (resolve_row at how i)) (sx_incidents db) then Inl Incident_check
      else release_each tk (map pi_id (filter hit (sx_incidents db)))
        (db\<lparr> sx_incidents := sql_update hit (resolve_row at how) (sx_incidents db) \<rparr>))"

definition resolvable :: "uuid \<Rightarrow> ProviderIncidentSource list \<Rightarrow> IncidentRow \<Rightarrow> bool" where
  "resolvable mailboxId sources i \<longleftrightarrow> pi_mailboxId i = mailboxId \<and> pi_resolvedAt i = None \<and>
     pi_classification i = Class_transient \<and> pi_sourceKind i \<in> set sources"

definition resolveProviderIncidentsAfterRead :: "('w, 'z) IncidentReads_scheme \<Rightarrow> Tick \<Rightarrow> uuid \<Rightarrow> ProviderBinding \<Rightarrow> instant \<Rightarrow>
    ProviderIncidentSource list \<Rightarrow> 'w SendDb \<Rightarrow> SendError + 'w SendDb" where
  "resolveProviderIncidentsAfterRead rd tk mailboxId bound now sources db =
     (case pb_hash bound of
        None \<Rightarrow> Inr db
      | Some hash \<Rightarrow>
          if \<not> list_ex (resolvable mailboxId sources) (sx_incidents db) then Inr db else
          and_then (lockMailboxAtFence db mailboxId (pb_fence bound)) (\<lambda>_.
            if (case readProviderBinding rd db mailboxId of None \<Rightarrow> None | Some b \<Rightarrow> pb_hash b) \<noteq> Some hash then Inr db
            else resolve_where tk now Verified_read (\<lambda>i. resolvable mailboxId sources i \<and>
              pi_bindingSha256 i = Some hash \<and> (case pi_retryAt i of None \<Rightarrow> False | Some r \<Rightarrow> r \<le> now)) db))"

text \<open>The mailbox is connected, with a token and an active owner.\<close>
definition live_grant :: "('w, 'z) IncidentReads_scheme \<Rightarrow> 'w SendDb \<Rightarrow> Mailbox \<Rightarrow> bool" where
  "live_grant rd db m \<longleftrightarrow> mb_status m = ''connected'' \<and> ir_token rd (sx_rest db) (mb_id m) \<noteq> None \<and>
     ir_activeMember rd (sx_rest db) (mb_ownerUserId m)"

definition superseded :: "Mailbox \<Rightarrow> IncidentRow \<Rightarrow> bool" where
  "superseded m i \<longleftrightarrow> pi_mailboxId i = mb_id m \<and> pi_sourceKind i = Source_token_refresh \<and> pi_resolvedAt i = None \<and>
     pi_observedAt i < mb_connectedAt m"

definition resolveSupersededTokenRefreshIncidents ::
    "('w, 'z) IncidentReads_scheme \<Rightarrow> Tick \<Rightarrow> uuid \<Rightarrow> instant \<Rightarrow> 'w SendDb \<Rightarrow> SendError + 'w SendDb" where
  "resolveSupersededTokenRefreshIncidents rd tk mailboxId now db = (case mailbox_of db mailboxId of
     None \<Rightarrow> Inr db
   | Some m \<Rightarrow> if \<not> live_grant rd db m then Inr db
       else resolve_where tk (max now (mb_connectedAt m)) Human_revalidated (superseded m) db)"

text \<open>The mailbox's fence is read and locked in one step here, so the lock always finds it.\<close>
definition supersedeStaleTokenRefreshIncidents ::
    "('w, 'z) IncidentReads_scheme \<Rightarrow> Tick \<Rightarrow> uuid \<Rightarrow> instant \<Rightarrow> 'w SendDb \<Rightarrow> SendError + 'w SendDb" where
  "supersedeStaleTokenRefreshIncidents rd tk mailboxId now db = (case mailbox_of db mailboxId of
     None \<Rightarrow> Inr db
   | Some m \<Rightarrow> if \<not> list_ex (superseded m) (sx_incidents db) then Inr db
       else and_then (lockMailboxAtFence db mailboxId
           \<lparr> mf_generation = mb_generation m, mf_emailAddress = mb_emailAddress m \<rparr>)
         (\<lambda>_. resolveSupersededTokenRefreshIncidents rd tk mailboxId now db))"

datatype RevalidationBasis = Oauth_reconnected | Permission_revalidated | Domain_authentication_checked

definition revalidateProviderIncidentConfiguration :: "('w, 'z) IncidentReads_scheme \<Rightarrow> Tick \<Rightarrow> ScopeActor \<Rightarrow> uuid \<Rightarrow>
    RevalidationBasis \<Rightarrow> instant \<Rightarrow> 'w SendDb \<Rightarrow> SendError + 'w SendDb" where
  "revalidateProviderIncidentConfiguration rd tk actor mailboxId basis now db =
     (if (case actor of Actor_system _ \<Rightarrow> True
          | Actor_user _ role \<Rightarrow> basis \<noteq> Oauth_reconnected \<and> role \<noteq> Role_admin) then Inr db else
      case mailbox_of db mailboxId of
        None \<Rightarrow> Inr db
      | Some m \<Rightarrow>
          let db1 = (case map_option (ir_sha256 rd) (binding_metadata rd db m) of
                None \<Rightarrow> db
              | Some hash \<Rightarrow> db\<lparr> sx_incidents := sql_update (\<lambda>i. pi_mailboxId i = mailboxId \<and>
                  pi_classification i = Class_transient \<and> pi_resolvedAt i = None)
                  (\<lambda>i. i\<lparr> pi_bindingSha256 := Some hash \<rparr>) (sx_incidents db) \<rparr>) in
          if basis \<noteq> Oauth_reconnected then Inr db1 else
          and_then (if \<not> live_grant rd db1 m then Inr db1
            else resolve_where tk now Human_revalidated (\<lambda>i. pi_mailboxId i = mailboxId \<and>
              pi_classification i = Class_authentication \<and> pi_resolvedAt i = None \<and>
              pi_observedAt i \<le> mb_connectedAt m) db1)
            (resolveSupersededTokenRefreshIncidents rd tk mailboxId now))"

end
