(* ===== verification/SendGate.thy ===== *)
theory SendGate
  imports ProviderIncidents SendingWindow
begin

text \<open>
  The last decision before a dispatch: \<open>packages/domain/outbound/gate.ts\<close> with what it reads
  of \<open>mail/coverage.ts\<close>, \<open>suppression/effective.ts\<close>, \<open>settings/effective.ts\<close>,
  \<open>release/records.ts\<close>, \<open>outbound/domainGuard.ts\<close>, \<open>sequences/calendars.ts\<close> and
  \<open>outbound/stepPermission.ts\<close>; and \<open>outbound/pacing.ts\<close>.  The answers of modules that are
  not modelled are functions on the whole state (\<open>GateReads\<close>).  The decision instant is the
  tick's clock: \<open>deps.now\<close>, which a test pins, is absent.
\<close>

definition str_int :: "int \<Rightarrow> string" where
  "str_int i = (if i < 0 then CHR ''-'' # str_nat (nat (- i)) else str_nat (nat i))"

text \<open>\<open>[...new Set(xs)]\<close>\<close>
definition js_set :: "'a list \<Rightarrow> 'a list" where
  "js_set xs = rev (remdups (rev xs))"

fun join_comma :: "string list \<Rightarrow> string" where
  "join_comma [] = []"
| "join_comma [s] = s"
| "join_comma (s # ss) = s @ '','' @ join_comma ss"

section \<open>Coverage (mail/coverage.ts)\<close>

definition COVERAGE_FRESHNESS_SECONDS :: int where
  "COVERAGE_FRESHNESS_SECONDS = 15 * 60"

definition COVERAGE_CLOCK_SKEW_SECONDS :: int where
  "COVERAGE_CLOCK_SKEW_SECONDS = 5 * 60"

text \<open>The age is in milliseconds; the instant of the last attempt, which no decision reads, is
  left out.\<close>
record MailboxCoverage =
  mc_mailboxId :: uuid
  mc_ownerUserId :: uuid
  mc_status :: string
  mc_syncState :: string
  mc_coverageWatermarkAt :: "instant option"
  mc_age :: "int option"
  mc_fresh :: bool

definition coverageIsFresh :: "int option \<Rightarrow> bool" where
  "coverageIsFresh age = (case age of None \<Rightarrow> False
     | Some a \<Rightarrow> - COVERAGE_CLOCK_SKEW_SECONDS * 1000 \<le> a \<and> a \<le> COVERAGE_FRESHNESS_SECONDS * 1000)"

datatype CoverageSelector = By_mailbox uuid | By_owner uuid

definition readMailboxCoverage :: "'w SendDb \<Rightarrow> instant \<Rightarrow> CoverageSelector \<Rightarrow> MailboxCoverage option" where
  "readMailboxCoverage db clock selector = map_option (\<lambda>m.
     let age = map_option (\<lambda>w. clock - w) (mb_coverageWatermarkAt m) in
     \<lparr> mc_mailboxId = mb_id m, mc_ownerUserId = mb_ownerUserId m, mc_status = mb_status m,
       mc_syncState = mb_syncState m, mc_coverageWatermarkAt = mb_coverageWatermarkAt m,
       mc_age = age, mc_fresh = coverageIsFresh age \<rparr>)
     (sql_one (\<lambda>m. case selector of By_mailbox k \<Rightarrow> mb_id m = k | By_owner u \<Rightarrow> mb_ownerUserId m = u)
       (mailboxes (sx_outbound db)))"

definition coverageRefusal :: "MailboxCoverage option \<Rightarrow> (string \<times> string) option" where
  "coverageRefusal coverage = (case coverage of
     None \<Rightarrow> Some (''mailbox_disconnected'', ''no_mailbox'')
   | Some c \<Rightarrow>
       if mc_status c \<noteq> ''connected'' then Some (''mailbox_disconnected'', mc_status c) else
       if mc_syncState c \<noteq> ''ready'' then Some (''coverage_incomplete'', mc_syncState c) else
       if \<not> mc_fresh c then Some (''coverage_incomplete'', (case mc_age c of
         None \<Rightarrow> ''no_watermark'' | Some a \<Rightarrow> ''stale:'' @ str_int ((a + 500) div 1000) @ ''s''))
       else None)"

section \<open>Suppression, the domain, the attestation\<close>

text \<open>\<open>effective_suppressions\<close> by key and channel, the firm's first, then the earliest.\<close>
definition firstSuppressed :: "'w SendDb \<Rightarrow> (string \<times> string) list \<Rightarrow> string \<Rightarrow> EffectiveSuppression option" where
  "firstSuppressed db keys channel =
     (let wanted = map (\<lambda>(scope, key). (scope, js_lower key)) keys;
          rows = sort_key (\<lambda>s. (if es_scope s = ''firm'' then 0 else 1 :: nat, es_recordedAt s, es_eventId s))
            (filter (\<lambda>s. (es_scope s, es_canonicalKey s) \<in> set wanted \<and>
               (es_channel s = channel \<or> es_channel s = ''all'')) (sx_suppressions db)) in
      case rows of [] \<Rightarrow> None | s # _ \<Rightarrow> Some s)"

definition authenticationPasses :: "SendingDomain \<Rightarrow> bool" where
  "authenticationPasses d \<longleftrightarrow> sd_spfPass d \<and> sd_dkimPass d \<and> sd_dmarcPass d \<and> sd_postmasterReviewedAt d \<noteq> None"

definition effectiveSendingEnabled :: "bool \<Rightarrow> SendingEnabledSetting option \<Rightarrow> bool" where
  "effectiveSendingEnabled deploymentEnabled stored \<longleftrightarrow>
     deploymentEnabled \<and> (case stored of None \<Rightarrow> False | Some s \<Rightarrow> se_enabled s)"

text \<open>The attestation that admitted the send and the record it bound.\<close>
record ReleaseStatement =
  rl_attestation :: string
  rl_releaseGateReference :: string

definition attestedReleaseBinding :: "(string \<Rightarrow> string option \<Rightarrow> bool \<Rightarrow> string + ReleaseStatement) \<Rightarrow>
    SendingEnabledSetting option \<Rightarrow> string option \<Rightarrow> bool \<Rightarrow> (string + ReleaseStatement) option" where
  "attestedReleaseBinding bindRecord stored digest production = (case stored of
     None \<Rightarrow> None
   | Some s \<Rightarrow> if \<not> se_enabled s then None else
       (case se_releaseGateReference s of None \<Rightarrow> None | Some ref \<Rightarrow> Some (bindRecord ref digest production)))"

section \<open>Readiness of a recovering sender (ramp.ts)\<close>

definition readSenderReadiness :: "'w SendDb \<Rightarrow> instant \<Rightarrow> uuid \<Rightarrow> bool \<times> string list" where
  "readSenderReadiness db clock mailboxId =
     (let coverage = readMailboxCoverage db clock (By_mailbox mailboxId);
          reasons = (case coverageRefusal coverage of None \<Rightarrow> [] | Some (reason, _) \<Rightarrow> [reason]) @
            (case primary_domain db of
               Some d \<Rightarrow> if authenticationPasses d \<and> sd_automatedSendingEnabled d then [] else [''authentication_failing'']
             | None \<Rightarrow> [''authentication_failing'']) @
            (case coverage of None \<Rightarrow> []
             | Some c \<Rightarrow> map oh_reasonCode (listApplicableHolds (sx_holds db)
                 \<lparr> hs_actionKind = ''email_send'', hs_firmId = None, hs_opportunityId = None,
                   hs_ownerUserId = Some (mc_ownerUserId c), hs_mailboxId = Some mailboxId, hs_enrollmentId = None,
                   hs_channel = Some ''email'' \<rparr>)) @
            (if list_ex (\<lambda>f. en_mailboxId (fm_envelope f) = mailboxId \<and> unresolved_fence f)
                 (outbound_messages (sx_outbound db)) then [''unresolved_submission''] else []) in
      (reasons = [], js_set reasons))"

section \<open>Holidays and the window\<close>

definition currentHolidayCalendar :: "'w SendDb \<Rightarrow> WorkspaceHolidayCalendar" where
  "currentHolidayCalendar db = (case sql_one (\<lambda>c. cal_supersededAt c = None) (sx_calendars db) of
     None \<Rightarrow> EMPTY_HOLIDAY_CALENDAR
   | Some c \<Rightarrow> \<lparr> hc_version = cal_version c, hc_dates = sort (cal_dates c) \<rparr>)"

definition holidayCalendarByVersion :: "'w SendDb \<Rightarrow> string \<Rightarrow> WorkspaceHolidayCalendar" where
  "holidayCalendarByVersion db version = (case sql_one (\<lambda>c. cal_version c = version) (sx_calendars db) of
     None \<Rightarrow> \<lparr> hc_version = version, hc_dates = [] \<rparr>
   | Some c \<Rightarrow> \<lparr> hc_version = cal_version c, hc_dates = sort (cal_dates c) \<rparr>)"

definition dispatchHolidayCalendar :: "'w SendDb \<Rightarrow> Enrollment \<Rightarrow> WorkspaceHolidayCalendar" where
  "dispatchHolidayCalendar db enrollment =
     (let frozen = holidayCalendarByVersion db (enr_holidayCalendarVersion enrollment);
          current = currentHolidayCalendar db in
      \<lparr> hc_version = hc_version frozen @ ''+'' @ hc_version current,
        hc_dates = sort (remdups (hc_dates frozen @ hc_dates current)) \<rparr>)"

definition insideSendingWindow :: "tzdb \<Rightarrow> instant \<Rightarrow> string \<Rightarrow> WorkspaceHolidayCalendar \<Rightarrow> bool \<Rightarrow> clock_code + bool" where
  "insideSendingWindow tz now zone calendar prospecting =
     and_then (placeEmailSend tz (Some now) zone \<lparr> opt_calendar = Some calendar, opt_prospecting = prospecting \<rparr>)
       (\<lambda>placement. Inr (inPlace placement))"

section \<open>The step's permission (stepPermission.ts)\<close>

record FrozenEnvelope =
  fz_routeId :: "uuid option"
  fz_routeVersion :: "int option"
  fz_templateVersionId :: "uuid option"

record StepEligibilityInput =
  ei_execution :: StepExecution
  ei_opportunityId :: "uuid option"
  ei_firmId :: uuid
  ei_contactId :: uuid
  ei_ownerUserId :: uuid
  ei_now :: instant
  ei_frozen :: FrozenEnvelope

text \<open>The answers of the modules that are not modelled.  An eligibility source answers with
  the reason code that refuses, or nothing.\<close>
record 'w GateReads = "'w IncidentReads" +
  gt_env :: SendEnv
  gt_zoneDay :: "instant \<Rightarrow> bdate"
  gt_suppressionSource :: "'w SendDb \<Rightarrow> StepEligibilityInput \<Rightarrow> string option"
  gt_composeEligibility :: "'w SendDb \<Rightarrow> StepEligibilityInput \<Rightarrow> (string \<times> string option) option"
  gt_verifyMeetingFence :: "'w SendDb \<Rightarrow> uuid \<Rightarrow> instant \<Rightarrow> string option"
  gt_verifyRoutineReplyFence :: "'w SendDb \<Rightarrow> uuid \<Rightarrow> instant \<Rightarrow> string option"
  gt_verifyCampaignOpeningFence :: "'w SendDb \<Rightarrow> OutboundFenceRow \<Rightarrow> bool"
  gt_decideHumanReply :: "'w SendDb \<Rightarrow> OutboundFenceRow \<Rightarrow> int option \<Rightarrow> unit SendResult"
  gt_bindRelease :: "'w SendDb \<Rightarrow> string \<Rightarrow> string option \<Rightarrow> bool \<Rightarrow> string + ReleaseStatement"

record StepPermission =
  sp_execution :: StepExecution
  sp_enrollment :: Enrollment

definition sendRefusalForIneligibility :: "string \<Rightarrow> SendRefusalCode" where
  "sendRefusalForIneligibility code =
     (if code = ''firm_suppressed'' then Firm_suppressed else
      if code = ''handle_suppressed'' then Handle_suppressed else
      if code = ''coverage_incomplete'' then Coverage_incomplete else
      if code = ''template_unapproved'' then Template_unapproved else
      if code = ''mailbox_disconnected'' then Grant_revoked else
      if code \<in> {''route_missing'', ''route_candidate'', ''route_invalid'', ''route_retired''} then Route_invalid
      else Step_ineligible)"

definition coldOutreachDispatchRefusal :: "'w SendDb \<Rightarrow> uuid \<Rightarrow> Enrollment \<Rightarrow> Mailbox \<Rightarrow> string option" where
  "coldOutreachDispatchRefusal db fenceId enrollment mailbox =
     (if enr_originKind enrollment \<noteq> ''prospecting'' then None else
      if verifyProspectingFence fenceId (mb_id mailbox) (sx_outbound db) then None
      else Some (''cold_outreach_mailbox_required:gmail_dispatch:'' @ mb_kind mailbox))"

definition templateOfStep :: "'w SendDb \<Rightarrow> uuid \<Rightarrow> uuid option" where
  "templateOfStep db stepId = (case sql_one (\<lambda>s. vs_id s = stepId) (version_steps (sx_outbound db)) of
     None \<Rightarrow> None | Some s \<Rightarrow> vs_templateVersionId s)"

definition routeOfFence :: "'w SendDb \<Rightarrow> OutboundFenceRow \<Rightarrow> EmailRoute option" where
  "routeOfFence db fence = (case en_recipientRouteId (fm_envelope fence) of
     None \<Rightarrow> None | Some r \<Rightarrow> sql_one (\<lambda>e. er_id e = r) (email_addresses (sx_outbound db)))"

text \<open>\<open>a !== null && a !== b\<close>\<close>
definition names_another :: "'a option \<Rightarrow> 'a \<Rightarrow> bool" where
  "names_another a b = (case a of None \<Rightarrow> False | Some x \<Rightarrow> x \<noteq> b)"

definition ineligible :: "string \<Rightarrow> 'a SendResult" where
  "ineligible detail = Refuse Step_ineligible (Some detail)"

text \<open>The last literal is the UTF-8 of the typographic apostrophe.\<close>
definition template_not_the_steps :: string where
  "template_not_the_steps = ''template_not_the_step'' @ [CHR 0xE2, CHR 0x80, CHR 0x99, CHR ''s'']"

text \<open>Whose fence it is: the first refusal of the identity checks.\<close>
definition fence_identity_refusal :: "'w SendDb \<Rightarrow> OutboundFenceRow \<Rightarrow> Mailbox \<Rightarrow> StepExecution \<Rightarrow> Enrollment \<Rightarrow>
    (SendRefusalCode \<times> string) option" where
  "fence_identity_refusal db fence mailbox execution enrollment =
     (let e = fm_envelope fence in
      if enr_firmId enrollment \<noteq> en_firmId e then Some (Step_ineligible, ''firm_mismatch'') else
      if en_opportunityId e \<noteq> None \<and> en_opportunityId e \<noteq> enr_opportunityId enrollment
      then Some (Step_ineligible, ''opportunity_mismatch'') else
      if enr_assignedUserId enrollment \<noteq> mb_ownerUserId mailbox then Some (Step_ineligible, ''reassignment'') else
      if (case enr_outreachPlanId enrollment of None \<Rightarrow> False
          | Some p \<Rightarrow> map_option op_mailboxId (sql_one (\<lambda>x. op_id x = p) (plans (sx_outbound db))) \<noteq> Some (mb_id mailbox))
      then Some (Step_ineligible, ''outreach_mailbox_mismatch'') else
      if names_another (en_contactId e) (enr_contactId enrollment) then Some (Step_ineligible, ''contact_mismatch'') else
      if se_contactId execution \<noteq> enr_contactId enrollment then Some (Step_ineligible, ''execution_contact_mismatch'') else
      (case routeOfFence db fence of
         None \<Rightarrow> Some (Route_invalid, ''frozen_route_gone'')
       | Some route \<Rightarrow>
           if er_contactId route \<noteq> enr_contactId enrollment then Some (Step_ineligible, ''route_owner_mismatch'') else
           if er_address route \<noteq> en_recipientAddress e then Some (Step_ineligible, ''recipient_address_mismatch'') else
           if templateOfStep db (se_stepId execution) \<noteq> None \<and>
              en_templateVersionId e \<noteq> templateOfStep db (se_stepId execution)
           then Some (Step_ineligible, template_not_the_steps) else None))"

definition eligibility_input :: "OutboundFenceRow \<Rightarrow> StepExecution \<Rightarrow> Enrollment \<Rightarrow> instant \<Rightarrow> StepEligibilityInput" where
  "eligibility_input fence execution enrollment now =
     (let e = fm_envelope fence in
      \<lparr> ei_execution = execution, ei_opportunityId = enr_opportunityId enrollment, ei_firmId = en_firmId e,
        ei_contactId = (case en_contactId e of None \<Rightarrow> enr_contactId enrollment | Some c \<Rightarrow> c),
        ei_ownerUserId = enr_assignedUserId enrollment, ei_now = now,
        ei_frozen = \<lparr> fz_routeId = en_recipientRouteId e, fz_routeVersion = en_recipientRouteVersion e,
          fz_templateVersionId = en_templateVersionId e \<rparr> \<rparr>)"

definition decideStepPermission :: "('w, 'z) GateReads_scheme \<Rightarrow> 'w SendDb \<Rightarrow> OutboundFenceRow \<Rightarrow> Mailbox \<Rightarrow> instant \<Rightarrow>
    StepPermission SendResult" where
  "decideStepPermission rd db fence mailbox now =
     (case (en_originKind (fm_envelope fence), en_stepExecutionId (fm_envelope fence)) of
        (Origin_step_execution, Some executionId) \<Rightarrow>
          (case sql_one (\<lambda>x. se_id x = executionId) (step_executions (sx_outbound db)) of
             None \<Rightarrow> ineligible ''execution_missing''
           | Some execution \<Rightarrow>
               if names_another (en_enrollmentId (fm_envelope fence)) (se_enrollmentId execution)
               then ineligible ''enrollment_mismatch'' else
               (case sql_one (\<lambda>n. enr_id n = se_enrollmentId execution) (enrollments (sx_outbound db)) of
                  None \<Rightarrow> ineligible ''enrollment_missing''
                | Some enrollment \<Rightarrow>
                    (case fence_identity_refusal db fence mailbox execution enrollment of
                       Some (code, detail) \<Rightarrow> Refuse code (Some detail)
                     | None \<Rightarrow>
                         let input = eligibility_input fence execution enrollment now in
                         (case gt_suppressionSource rd db input of
                            Some code \<Rightarrow> Refuse (sendRefusalForIneligibility code) (Some code)
                          | None \<Rightarrow>
                         (case coldOutreachDispatchRefusal db (fm_id fence) enrollment mailbox of
                            Some detail \<Rightarrow> ineligible detail
                          | None \<Rightarrow>
                         (case gt_composeEligibility rd db input of
                            Some (code, detail) \<Rightarrow> Refuse (sendRefusalForIneligibility code)
                              (Some (case detail of None \<Rightarrow> code | Some d \<Rightarrow> code @ '':'' @ d))
                          | None \<Rightarrow>
                         (case gt_verifyMeetingFence rd db (fm_id fence) now of
                            Some reason \<Rightarrow> ineligible (''follow_up_not_permitted:'' @ reason)
                          | None \<Rightarrow>
                         (case gt_verifyRoutineReplyFence rd db (fm_id fence) now of
                            Some reason \<Rightarrow> ineligible (''follow_up_not_permitted:'' @ reason)
                          | None \<Rightarrow>
                              if \<not> gt_verifyCampaignOpeningFence rd db fence then ineligible ''campaign_opening_unavailable''
                              else acceptSend \<lparr> sp_execution = execution, sp_enrollment = enrollment \<rparr>)))))))) 
      | _ \<Rightarrow> ineligible ''no_step_execution'')"

section \<open>The decision (gate.ts)\<close>

text \<open>An absent \<open>deploymentSendingEnabled\<close> is false, an absent digest unknown, an absent
  \<open>production\<close> true.\<close>
record SendGateDeps =
  gd_humanReplyRevision :: "int option"
  gd_deploymentSendingEnabled :: "bool option"
  gd_workerImageDigest :: "string option"
  gd_production :: "bool option"

record PlanMailbox =
  pm_id :: uuid
  pm_address :: string
  pm_ownerUserId :: uuid
  pm_providerAccountId :: "string option"
  pm_generation :: int

record SendPlan =
  plan_fence :: OutboundFenceRow
  plan_mailbox :: PlanMailbox
  plan_domain :: SendingDomain
  plan_ramp :: RampRow
  plan_day :: SendDay
  plan_cap :: int
  plan_release :: ReleaseStatement

definition planMailbox :: "Mailbox \<Rightarrow> PlanMailbox" where
  "planMailbox m = \<lparr> pm_id = mb_id m, pm_address = mb_emailAddress m, pm_ownerUserId = mb_ownerUserId m,
     pm_providerAccountId = mb_providerAccountId m, pm_generation = mb_generation m \<rparr>"

definition with_detail :: "SendRefusalCode \<Rightarrow> string \<Rightarrow> 'a SendResult" where
  "with_detail code detail = Refuse code (Some detail)"

text \<open>The first part: the facts that mean never, or not as this fence.  It answers the mailbox,
  the incident left to judge at the end, and the step's permission when it is a step.\<close>
definition decide_never :: "('w, 'z) GateReads_scheme \<Rightarrow> instant \<Rightarrow> SendGateDeps \<Rightarrow> OutboundFenceRow \<Rightarrow> 'w SendDb \<Rightarrow>
    (Mailbox \<times> IncidentRefusal option \<times> StepPermission option) SendResult" where
  "decide_never rd now deps fence db =
     (let e = fm_envelope fence in
      if en_originKind e = Origin_standing_booking then with_detail Step_ineligible ''booking_automation_removed'' else
      case mailbox_of db (en_mailboxId e) of
        None \<Rightarrow> refuseSend Mailbox_unknown
      | Some mailbox \<Rightarrow>
          if mb_status mailbox \<noteq> ''connected'' then refuseSend Mailbox_inactive else
          let incident = providerIncidentRefusal rd db (mb_id mailbox) now in
          (case firstSuppressed db [(''firm'', en_firmId e), (''handle'', en_recipientAddress e)] ''email'' of
             Some s \<Rightarrow> refuseSend (if es_scope s = ''firm'' then Firm_suppressed else Handle_suppressed)
           | None \<Rightarrow>
           (case (case incident of None \<Rightarrow> None
                  | Some i \<Rightarrow> if ref_detail i = ''unresolved_submission'' then None else Some i) of
              Some i \<Rightarrow>
                (case coverageRefusal (readMailboxCoverage db now (By_mailbox (mb_id mailbox))) of
                   Some (reason, detail) \<Rightarrow> with_detail
                     (if reason = ''coverage_incomplete'' then Coverage_incomplete else Grant_revoked)
                     (reason @ '':'' @ detail)
                 | None \<Rightarrow> with_detail (ref_reason i) (ref_detail i))
            | None \<Rightarrow>
              (case en_originKind e of
                 Origin_draft \<Rightarrow> (case gt_decideHumanReply rd db fence (gd_humanReplyRevision deps) of
                     Refuse code detail \<Rightarrow> Refuse code detail
                   | Accept _ \<Rightarrow> Accept (mailbox, incident, None))
               | Origin_step_execution \<Rightarrow> (case decideStepPermission rd db fence mailbox now of
                     Refuse code detail \<Rightarrow> Refuse code detail
                   | Accept p \<Rightarrow> Accept (mailbox, incident, Some p))
               | Origin_standing_booking \<Rightarrow> Accept (mailbox, incident, None)))))"

text \<open>The switches: the deployment, the attestation and the release record it binds.\<close>
definition decide_attested :: "('w, 'z) GateReads_scheme \<Rightarrow> SendGateDeps \<Rightarrow> 'w SendDb \<Rightarrow> ReleaseStatement SendResult" where
  "decide_attested rd deps db =
     (let deployed = (gd_deploymentSendingEnabled deps = Some True) in
      if \<not> effectiveSendingEnabled deployed (sx_sendingEnabled db)
      then with_detail Workspace_sending_not_attested (if deployed then ''workspace'' else ''deployment'') else
      (case attestedReleaseBinding (gt_bindRelease rd db) (sx_sendingEnabled db) (gd_workerImageDigest deps)
          (gd_production deps \<noteq> Some False) of
         None \<Rightarrow> with_detail Workspace_sending_not_attested ''workspace''
       | Some (Inl reason) \<Rightarrow> with_detail Workspace_sending_not_attested reason
       | Some (Inr release) \<Rightarrow> Accept release))"

definition is_prospecting :: "StepPermission option \<Rightarrow> bool" where
  "is_prospecting permission = (case permission of None \<Rightarrow> False
     | Some p \<Rightarrow> enr_originKind (sp_enrollment p) = ''prospecting'')"

definition decide_window :: "('w, 'z) GateReads_scheme \<Rightarrow> instant \<Rightarrow> OutboundFenceRow \<Rightarrow> StepPermission option \<Rightarrow>
    'w SendDb \<Rightarrow> clock_code + unit SendResult" where
  "decide_window rd now fence permission db =
     (let zone = en_sourceZone (fm_envelope fence);
          calendar = (case permission of Some p \<Rightarrow> dispatchHolidayCalendar db (sp_enrollment p)
            | None \<Rightarrow> currentHolidayCalendar db) in
      and_then (insideSendingWindow (env_tz (gt_env rd)) now zone calendar (is_prospecting permission)) (\<lambda>inside.
        if inside then Inr (Accept ()) else
        and_then (localParts (env_tz (gt_env rd)) (Some now) zone) (\<lambda>parts.
          Inr (with_detail Outside_email_window (zone @ '' '' @ lp_date parts)))))"

text \<open>The owner's live follow-ups that are due: the allowance prospecting leaves to them.\<close>
definition waiting_follow_ups :: "'w SendDb \<Rightarrow> uuid \<Rightarrow> instant \<Rightarrow> nat" where
  "waiting_follow_ups db owner now = sql_count (\<lambda>n.
     enr_assignedUserId n = owner \<and> enr_originKind n = ''follow_up'' \<and> enr_endedAt n = None \<and>
     list_ex (\<lambda>x. se_enrollmentId x = enr_id n \<and> se_channel x = ''email'' \<and>
       (se_state x = ''pending'' \<or> se_state x = ''held'') \<and> se_dueAt x \<le> now \<and> se_notBefore x \<le> now)
       (step_executions (sx_outbound db)) \<and>
     list_ex (\<lambda>p. Some (fp_id p) = enr_permissionId n \<and> fp_revokedAt p = None \<and> fp_consumedAt p = None \<and>
       fp_expiresAt p > now) (sx_permissions db)) (enrollments (sx_outbound db))"

text \<open>The last part writes: the ramp is created or assessed, the day's row opened.\<close>
definition decide_capacity :: "('w, 'z) GateReads_scheme \<Rightarrow> Tick \<Rightarrow> OutboundFenceRow \<Rightarrow> Mailbox \<Rightarrow>
    IncidentRefusal option \<Rightarrow> StepPermission option \<Rightarrow> SendingDomain \<Rightarrow> ReleaseStatement \<Rightarrow> 'w SendDb \<Rightarrow>
    'w SendDb \<times> SendPlan SendResult" where
  "decide_capacity rd tk fence mailbox incident permission domain release db =
     (let now = tk_clock tk; m = mb_id mailbox in
      case with_ramp (ensureRamp (gt_zoneDay rd) now (tk_epoch tk) m) db of (db1, ramp) \<Rightarrow>
      let readiness = readSenderReadiness db1 now m in
      if active_recovery ramp \<noteq> None \<and> \<not> fst readiness
      then (db1, with_detail Step_ineligible (''sender_recovery_unready:'' @ join_comma (snd readiness))) else
      case incident of
        Some i \<Rightarrow> (db1, with_detail (ref_reason i) (ref_detail i))
      | None \<Rightarrow>
          let cap = effectiveDailyCap ramp; date = gt_zoneDay rd now;
              db2 = fst (with_ramp (\<lambda>r. (openSendDay m date cap r, ())) db1);
              day = the (sql_one (day_at m date) (rd_days (sx_ramp db2))) in
          if int (dy_automatedSent day) \<ge> cap
          then (db2, with_detail Daily_cap (''automated '' @ str_nat (dy_automatedSent day) @ ''/'' @ str_int cap)) else
          if is_prospecting permission \<and>
             int (dy_automatedSent day) + int (waiting_follow_ups db2 (mb_ownerUserId mailbox) now) \<ge> cap
          then (db2, with_detail Daily_cap ''capacity_reserved_for_due_follow_ups'') else
          (db2, acceptSend \<lparr> plan_fence = fence, plan_mailbox = planMailbox mailbox, plan_domain = domain,
             plan_ramp = ramp, plan_day = day, plan_cap = cap, plan_release = release \<rparr>))"

definition decideSend :: "('w, 'z) GateReads_scheme \<Rightarrow> Tick \<Rightarrow> SendGateDeps \<Rightarrow> OutboundFenceRow \<Rightarrow> 'w SendDb \<Rightarrow>
    SendError + 'w SendDb \<times> SendPlan SendResult" where
  "decideSend rd tk deps fence db =
     (case decide_never rd (tk_clock tk) deps fence db of
        Refuse code detail \<Rightarrow> Inr (db, Refuse code detail)
      | Accept (mailbox, incident, permission) \<Rightarrow>
     (case decide_attested rd deps db of
        Refuse code detail \<Rightarrow> Inr (db, Refuse code detail)
      | Accept release \<Rightarrow>
     (case primary_domain db of
        None \<Rightarrow> Inr (db, refuseSend Sending_domain_unknown)
      | Some domain \<Rightarrow>
          if \<not> authenticationPasses domain \<or> \<not> sd_automatedSendingEnabled domain
          then Inr (db, refuseSend Automated_sending_disabled) else
          and_then (lift_clock (decide_window rd (tk_clock tk) fence permission db)) (\<lambda>window.
          case window of
            Refuse code detail \<Rightarrow> Inr (db, Refuse code detail)
          | Accept _ \<Rightarrow> Inr (decide_capacity rd tk fence mailbox incident permission domain release db)))))"

definition holdReasonForRefusal :: "SendRefusalCode \<Rightarrow> string option" where
  "holdReasonForRefusal reason = (case reason of
     Daily_cap \<Rightarrow> Some ''daily_cap''
   | Outside_email_window \<Rightarrow> Some ''outside_email_window''
   | Coverage_incomplete \<Rightarrow> Some ''coverage_incomplete''
   | Grant_revoked \<Rightarrow> Some ''mailbox_disconnected''
   | Mailbox_inactive \<Rightarrow> Some ''mailbox_disconnected''
   | Route_invalid \<Rightarrow> Some ''route_invalid''
   | Firm_suppressed \<Rightarrow> Some ''firm_suppressed''
   | Handle_suppressed \<Rightarrow> Some ''handle_suppressed''
   | Template_unapproved \<Rightarrow> Some ''template_unapproved''
   | Template_mismatch \<Rightarrow> Some ''template_unapproved''
   | Footer_not_composed \<Rightarrow> Some ''template_unapproved''
   | Refuse_postal_address_required \<Rightarrow> Some ''scoped_pause''
   | Rate_limited \<Rightarrow> Some ''provider_refusal''
   | Provider_refusal \<Rightarrow> Some ''provider_refusal''
   | Recipient_rejected \<Rightarrow> Some ''provider_refusal''
   | _ \<Rightarrow> None)"

section \<open>Pacing (pacing.ts)\<close>

definition prospectingSpacingMilliseconds :: "int \<Rightarrow> int" where
  "prospectingSpacingMilliseconds cap = max 60000 (- ((- 3600000) div (max 1 cap)))"

definition prospectingRetryAt :: "'w SendDb \<Rightarrow> uuid \<Rightarrow> int \<Rightarrow> instant \<Rightarrow> instant option" where
  "prospectingRetryAt db mailboxId cap now =
     (case List.map_filter fm_dispatchStartedAt
         (filter (\<lambda>f. en_mailboxId (fm_envelope f) = mailboxId) (outbound_messages (sx_outbound db))) of
        [] \<Rightarrow> None
      | d # ds \<Rightarrow>
          let retryAt = foldl max d ds + prospectingSpacingMilliseconds cap in
          if retryAt > now then Some retryAt else None)"

end
