(* ===== verification/SendPath.thy ===== *)
theory SendPath
  imports SendGate
begin

text \<open>
  \<open>packages/domain/outbound/send.ts\<close>, the only code that sends an email, with
  \<open>outbound/footer.ts\<close>, \<open>accessForMailbox\<close> of \<open>mail/sync.ts\<close> and the claim's statements of
  \<open>sequences/followUpPermissions.ts\<close>.  \<open>dispatchOutboundMessage\<close> is a sequence of separate
  transactions and two network calls; a \<open>DispatchPhase\<close> is where it stands between two of
  them and \<open>dispatch_next\<close> the next one, so that workers can interleave.  The claim is one
  transaction under the send gate and the row locks, hence one step; it runs outside any
  other.  What Gmail answers is an argument; modules that are not modelled answer through
  \<open>SendCallees\<close>.
\<close>

record 'w SendCallees = "'w GateReads" +
  sc_refreshToken :: "'w \<Rightarrow> uuid \<Rightarrow> string option"
  sc_humanReplyApprovalIsLive :: "'w SendDb \<Rightarrow> uuid \<Rightarrow> int option \<Rightarrow> bool"
  sc_consumeHumanReplyApproval :: "'w SendDb \<Rightarrow> uuid \<Rightarrow> 'w \<times> bool"
  sc_refuseHumanReplyApproval :: "'w SendDb \<Rightarrow> uuid \<Rightarrow> SendRefusalCode \<Rightarrow> int option \<Rightarrow> 'w"
  sc_directSendWithinQuietWindow :: "'w SendDb \<Rightarrow> uuid \<Rightarrow> uuid \<Rightarrow> instant \<Rightarrow> bool"
  sc_humanReplyEnvelope :: "'w SendDb \<Rightarrow> uuid \<Rightarrow> SendThreading option"
  sc_routineReplyThreading :: "'w SendDb \<Rightarrow> uuid \<Rightarrow> SendThreading option"
  sc_regularSequenceThreading :: "'w SendDb \<Rightarrow> OutboundFenceRow \<Rightarrow> string + SendThreading option"
  sc_markMeetingDraftSubmitted :: "'w SendDb \<Rightarrow> uuid \<Rightarrow> 'w \<times> bool"
  sc_recordMeetingDelivery :: "'w SendDb \<Rightarrow> uuid \<Rightarrow> uuid \<Rightarrow> instant \<Rightarrow> 'w"
  sc_recordRoutineDelivery :: "'w SendDb \<Rightarrow> uuid \<Rightarrow> 'w"
  sc_applyHumanReplyDelivery :: "'w SendDb \<Rightarrow> uuid \<Rightarrow> 'w SendDb"

record OutboundSendDeps = SendGateDeps +
  sd_actor :: "string option"
  sd_reconcileWindowHours :: "int option"
  sd_footerPolicy :: "SendFooterPolicy option"

abbreviation gate_deps :: "OutboundSendDeps \<Rightarrow> SendGateDeps" where
  "gate_deps deps \<equiv> SendGateDeps.truncate deps"

section \<open>The access token (mail/sync.ts)\<close>

datatype RefreshReason = Refresh_grant_revoked | Refresh_rate_limited | Refresh_other string

definition refresh_reason_name :: "RefreshReason \<Rightarrow> string" where
  "refresh_reason_name r = (case r of Refresh_grant_revoked \<Rightarrow> ''grant_revoked''
     | Refresh_rate_limited \<Rightarrow> ''rate_limited'' | Refresh_other s \<Rightarrow> s)"

datatype GmailAccessOutcome =
    Refresh_ok string
  | Refresh_refused RefreshReason "ProviderIncidentClass option" "string option" "instant option"
  | Refresh_threw

datatype AccessOutcome = Access string | Access_revoked | Access_incident

definition record_if_bound :: "Tick \<Rightarrow> instant \<Rightarrow> uuid \<Rightarrow> ProviderIncidentSource \<Rightarrow> string \<Rightarrow> ProviderIncidentClass \<Rightarrow> string \<Rightarrow>
    instant option \<Rightarrow> ProviderBinding option \<Rightarrow> 'w SendDb \<Rightarrow> SendError + 'w SendDb" where
  "record_if_bound tk at m source sourceId classification reason retryAt binding db = (case binding of
     None \<Rightarrow> Inr db
   | Some b \<Rightarrow> recordProviderIncident tk \<lparr> ii_mailboxId = m, ii_sourceKind = source, ii_sourceId = sourceId,
       ii_classification = classification, ii_reason = reason, ii_retryAt = retryAt, ii_binding = b,
       ii_now = at \<rparr> db)"

text \<open>The classification of a refusal whose provider named none.\<close>
definition refresh_class :: "RefreshReason \<Rightarrow> ProviderIncidentClass option \<Rightarrow> ProviderIncidentClass" where
  "refresh_class reason given = (case given of Some c \<Rightarrow> c
     | None \<Rightarrow> (case reason of Refresh_rate_limited \<Rightarrow> Class_transient | Refresh_grant_revoked \<Rightarrow> Class_authentication
         | Refresh_other _ \<Rightarrow> Class_unknown))"

definition settle_access :: "Tick \<Rightarrow> uuid \<Rightarrow> SendError + 'w SendDb \<Rightarrow> 'w SendDb \<Rightarrow> AccessOutcome \<Rightarrow>
    'w SendDb \<times> (SendError + AccessOutcome)" where
  "settle_access tk m written db outcome = (case written of Inl e \<Rightarrow> (db, Inl e) | Inr db1 \<Rightarrow> (db1, Inr outcome))"

text \<open>An incident is stamped when the answer came back, not with the entry's clock.\<close>
definition accessForMailbox :: "('w, 'z) SendCallees_scheme \<Rightarrow> Tick \<Rightarrow> instant \<Rightarrow> GmailAccessOutcome \<Rightarrow> uuid \<Rightarrow> 'w SendDb \<Rightarrow>
    'w SendDb \<times> (SendError + AccessOutcome)" where
  "accessForMailbox rd tk answeredAt answer m db =
     (case supersedeStaleTokenRefreshIncidents rd tk m (tk_clock tk) db of
        Inl e \<Rightarrow> (db, Inl e)
      | Inr db1 \<Rightarrow>
          let incidents = filter (\<lambda>i. \<not> (pv_sourceKind i = Source_provider_send \<and> pv_reason i = ''unresolved_submission''))
                (readProviderIncidents rd db1 m (tk_clock tk)) in
          if list_ex (\<lambda>i. pv_state i \<noteq> Revalidation_due) incidents then (db1, Inr Access_incident) else
          let binding = readProviderBinding rd db1 m in
          if sc_refreshToken rd (sx_rest db1) m = None then (db1, Inr Access_revoked) else
          (case answer of
             Refresh_threw \<Rightarrow> settle_access tk m (record_if_bound tk answeredAt m Source_token_refresh m Class_unknown
               ''unknown_provider_failure'' None binding db1) db1 Access_incident
           | Refresh_refused reason given incidentReason retryAt \<Rightarrow>
               settle_access tk m (record_if_bound tk answeredAt m Source_token_refresh m (refresh_class reason given)
                 (case incidentReason of None \<Rightarrow> refresh_reason_name reason | Some r \<Rightarrow> r) retryAt binding db1) db1
                 (if refresh_class reason given = Class_authentication \<and> reason = Refresh_grant_revoked
                  then Access_revoked else Access_incident)
           | Refresh_ok grant \<Rightarrow> settle_access tk m (case binding of None \<Rightarrow> Inr db1
               | Some b \<Rightarrow> resolveProviderIncidentsAfterRead rd tk m b (tk_clock tk) [Source_token_refresh] db1) db1
               (Access grant)))"

section \<open>The footer at the claim (footer.ts)\<close>

definition footerSourceFor :: "'w SendDb \<Rightarrow> uuid option \<Rightarrow> SendFooterConfiguration option" where
  "footerSourceFor db templateVersionId = (case templateVersionId of None \<Rightarrow> None
     | Some t \<Rightarrow> map_option (\<lambda>v. \<lparr> signOff = tv_footerSignOff v, postalAddress = sx_postalAddress db,
         recordedAddresses = sx_recordedAddresses db \<rparr>)
         (sql_one (\<lambda>v. tv_id v = t) (template_versions (sx_outbound db))))"

definition composeBodyForWorkspace :: "SendEnv \<Rightarrow> 'w SendDb \<Rightarrow> jstring \<Rightarrow> jstring \<Rightarrow> SendFooterPolicy option \<Rightarrow>
    ComposeSendBodyDecision" where
  "composeBodyForWorkspace env db body sign policy =
     composeSendBody (env_nfkc env) body \<lparr> signOff = sign, postalAddress = sx_postalAddress db,
       recordedAddresses = sx_recordedAddresses db \<rparr> (case policy of None \<Rightarrow> SEND_FOOTER_POLICY | Some p \<Rightarrow> p)"

datatype FenceFooterReconciliation =
    Footer_reconciled OutboundFenceRow bool
  | Footer_refused SendRefusalCode string

definition compose_refusal_name :: "ComposeSendBodyRefusal \<Rightarrow> string" where
  "compose_refusal_name r = (case r of Postal_address_required \<Rightarrow> ''postal_address_required''
     | Footer_ambiguous \<Rightarrow> ''footer_ambiguous'' | Composed_body_too_long \<Rightarrow> ''composed_body_too_long''
     | Optout_link \<Rightarrow> ''optout_link'')"

definition refusal_name :: "SendRefusalCode \<Rightarrow> string" where
  "refusal_name r = (case r of Fence_unknown \<Rightarrow> ''fence_unknown'' | Fence_not_ready \<Rightarrow> ''fence_not_ready''
     | Mailbox_unknown \<Rightarrow> ''mailbox_unknown'' | Mailbox_inactive \<Rightarrow> ''mailbox_inactive''
     | Grant_revoked \<Rightarrow> ''grant_revoked'' | Coverage_incomplete \<Rightarrow> ''coverage_incomplete''
     | Automated_sending_disabled \<Rightarrow> ''automated_sending_disabled''
     | Workspace_sending_not_attested \<Rightarrow> ''workspace_sending_not_attested''
     | Sending_domain_unknown \<Rightarrow> ''sending_domain_unknown'' | Template_unapproved \<Rightarrow> ''template_unapproved''
     | Template_mismatch \<Rightarrow> ''template_mismatch'' | Footer_not_composed \<Rightarrow> ''footer_not_composed''
     | Refuse_postal_address_required \<Rightarrow> ''postal_address_required'' | Route_invalid \<Rightarrow> ''route_invalid''
     | Firm_suppressed \<Rightarrow> ''firm_suppressed'' | Handle_suppressed \<Rightarrow> ''handle_suppressed''
     | Outside_email_window \<Rightarrow> ''outside_email_window'' | Daily_cap \<Rightarrow> ''daily_cap'' | Rate_limited \<Rightarrow> ''rate_limited''
     | Recipient_rejected \<Rightarrow> ''recipient_rejected'' | Provider_refusal \<Rightarrow> ''provider_refusal''
     | Step_ineligible \<Rightarrow> ''step_ineligible'')"

definition reconcileFenceFooter :: "('w, 'z) SendCallees_scheme \<Rightarrow> Tick \<Rightarrow> OutboundSendDeps \<Rightarrow> OutboundFenceRow \<Rightarrow> 'w SendDb \<Rightarrow>
    'w SendDb \<times> FenceFooterReconciliation" where
  "reconcileFenceFooter rd tk deps fence db =
     (let e = fm_envelope fence; env = gt_env rd in
      if \<not> gt_verifyCampaignOpeningFence rd db fence
      then (db, Footer_refused Footer_not_composed ''opening_frozen_bytes_changed'') else
      (case footerSourceFor db (en_templateVersionId e) of
         None \<Rightarrow>
           if sendBodyIssue (en_body e)
           then (db, Footer_refused Footer_not_composed ''template_version_unknown:body_too_long'')
           else (db, Footer_reconciled fence False)
       | Some source \<Rightarrow>
           (case composeSendBody (env_nfkc env) (en_body e) source
               (case sd_footerPolicy deps of None \<Rightarrow> SEND_FOOTER_POLICY | Some p \<Rightarrow> p) of
              Not_composed reason detail \<Rightarrow>
                (db, Footer_refused (if reason = Postal_address_required then Refuse_postal_address_required
                   else Footer_not_composed)
                  (case detail of None \<Rightarrow> compose_refusal_name reason | Some n \<Rightarrow> str_nat n))
            | Composed body changed deduped \<Rightarrow>
                if \<not> changed then
                  (if sendBodyIssue (en_body e) then (db, Footer_refused Footer_not_composed ''body_too_long'')
                   else (db, Footer_reconciled fence False))
                else
                (case with_outbound (rewritePreparedBody env (tk_now tk) (fm_id fence) body None None
                    ''footer_composed_at_send'' (sd_actor deps)) db of
                   (db1, Refuse reason detail) \<Rightarrow>
                     (db1, Footer_refused Footer_not_composed (case detail of None \<Rightarrow> refusal_name reason | Some d \<Rightarrow> d))
                 | (db1, Accept f) \<Rightarrow> (db1, Footer_reconciled f True)))))"

section \<open>The permission (followUpPermissions.ts)\<close>

text \<open>The row lock makes the read and the spending below one step.\<close>
definition lockPermissionForClaim :: "'w SendDb \<Rightarrow> uuid \<Rightarrow> FollowUpPermissionRow option" where
  "lockPermissionForClaim db k = (case readFence (sx_outbound db) k of
     None \<Rightarrow> None
   | Some f \<Rightarrow> (case en_stepExecutionId (fm_envelope f) of None \<Rightarrow> None
     | Some s \<Rightarrow> (case sql_one (\<lambda>x. se_id x = s) (step_executions (sx_outbound db)) of None \<Rightarrow> None
       | Some x \<Rightarrow> (case sql_one (\<lambda>n. enr_id n = se_enrollmentId x) (enrollments (sx_outbound db)) of None \<Rightarrow> None
         | Some n \<Rightarrow> if enr_originKind n \<noteq> ''follow_up'' then None
             else sql_one (\<lambda>p. Some (fp_id p) = enr_permissionId n) (sx_permissions db)))))"

definition consumable :: "instant \<Rightarrow> uuid \<Rightarrow> FollowUpPermissionRow \<Rightarrow> bool" where
  "consumable clock k p \<longleftrightarrow> fp_id p = k \<and> fp_scope p \<in> {''single_email'', ''contextual_reply'', ''routine_reply''} \<and>
     fp_consumedAt p = None \<and> fp_revokedAt p = None \<and> fp_expiresAt p > clock"

definition consumeFollowUpPermission :: "Tick \<Rightarrow> uuid \<Rightarrow> 'w SendDb \<Rightarrow> 'w SendDb \<times> bool" where
  "consumeFollowUpPermission tk k db =
     (db\<lparr> sx_permissions := sql_update (consumable (tk_clock tk) k)
        (\<lambda>p. p\<lparr> fp_consumedAt := Some (tk_now tk), fp_consumedReason := Some ''sent'' \<rparr>) (sx_permissions db) \<rparr>,
      sql_count (consumable (tk_clock tk) k) (sx_permissions db) > 0)"

definition permissionStillLive :: "Tick \<Rightarrow> uuid \<Rightarrow> 'w SendDb \<Rightarrow> bool" where
  "permissionStillLive tk k db = (case sql_one (\<lambda>p. fp_id p = k) (sx_permissions db) of
     None \<Rightarrow> False | Some p \<Rightarrow> fp_revokedAt p = None \<and> fp_expiresAt p > tk_clock tk)"

section \<open>The recheck and the claim\<close>

datatype ClaimOutcome =
    Claimed SendPlan DispatchClaim "SendThreading option"
  | Claim_held OutboundFenceRow SendRefusalCode "string option" "instant option"
  | Claim_not_ready "SendRefusalCode option" "string option" "instant option"

text \<open>Every \<open>not_ready\<close> is a rollback: the state is the one the transaction began with.\<close>
definition rolled_back :: "'w SendDb \<Rightarrow> SendRefusalCode \<Rightarrow> string option \<Rightarrow> 'w SendDb \<times> ClaimOutcome" where
  "rolled_back db refusal detail = (db, Claim_not_ready (Some refusal) detail None)"

definition stopped :: "'w SendDb \<Rightarrow> string \<Rightarrow> 'w SendDb \<times> ClaimOutcome" where
  "stopped db detail = rolled_back db Step_ineligible (Some detail)"

text \<open>The hold and the decision commit together.\<close>
definition claim_holds :: "('w, 'z) SendCallees_scheme \<Rightarrow> Tick \<Rightarrow> OutboundSendDeps \<Rightarrow> OutboundFenceRow \<Rightarrow> SendRefusalCode \<Rightarrow>
    string option \<Rightarrow> 'w SendDb \<Rightarrow> 'w SendDb \<times> ClaimOutcome" where
  "claim_holds rd tk deps fence reason detail db =
     (case with_outbound (holdFence (gt_env rd) (tk_now tk) (fm_id fence) (refusal_name reason) (sd_actor deps)) db of
        (db1, held) \<Rightarrow>
          (db1, Claim_held (case held of Accept f \<Rightarrow> f | Refuse _ _ \<Rightarrow> fence) reason detail
            (if reason = Rate_limited then (case providerIncidentRefusal rd db1 (en_mailboxId (fm_envelope fence)) (tk_clock tk) of
               None \<Rightarrow> None | Some i \<Rightarrow> ref_retryAt i) else None)))"

text \<open>What is asked under the gate before anything else is written.\<close>
definition claim_stop :: "('w, 'z) SendCallees_scheme \<Rightarrow> Tick \<Rightarrow> SendPlan \<Rightarrow> SendPlan \<Rightarrow> OutboundFenceRow \<Rightarrow>
    FollowUpPermissionRow option \<Rightarrow> 'w SendDb \<Rightarrow> (SendRefusalCode \<times> string) option" where
  "claim_stop rd tk precheck plan fence permission db =
     (let e = fm_envelope fence in
      if (case permission of None \<Rightarrow> False
          | Some p \<Rightarrow> fp_scope p = ''agreed_sequence'' \<and>
              sc_directSendWithinQuietWindow rd db (en_firmId e) (fp_contactId p) (tk_clock tk))
      then Some (Step_ineligible, ''direct_send_quiet_window'') else
      if (case en_stepExecutionId e of None \<Rightarrow> False
          | Some s \<Rightarrow> (case sql_one (\<lambda>x. se_id x = s) (step_executions (sx_outbound db)) of None \<Rightarrow> False
              | Some x \<Rightarrow> se_notBefore x > tk_clock tk))
      then Some (Step_ineligible, ''not_yet_due'') else
      if plan_mailbox plan \<noteq> plan_mailbox precheck then Some (Fence_not_ready, ''mailbox_changed'') else None)"

definition prospecting_fence :: "'w SendDb \<Rightarrow> OutboundFenceRow \<Rightarrow> bool" where
  "prospecting_fence db fence = (case en_stepExecutionId (fm_envelope fence) of None \<Rightarrow> False
     | Some s \<Rightarrow> (case sql_one (\<lambda>x. se_id x = s) (step_executions (sx_outbound db)) of None \<Rightarrow> False
       | Some x \<Rightarrow> (case sql_one (\<lambda>n. enr_id n = se_enrollmentId x) (enrollments (sx_outbound db)) of None \<Rightarrow> False
         | Some n \<Rightarrow> enr_originKind n = ''prospecting'')))"

definition explicit_threading :: "('w, 'z) SendCallees_scheme \<Rightarrow> 'w SendDb \<Rightarrow> OutboundFenceRow \<Rightarrow> string + SendThreading option" where
  "explicit_threading rd db fence =
     (case (if en_originKind (fm_envelope fence) = Origin_draft then sc_humanReplyEnvelope rd db (fm_id fence)
            else sc_routineReplyThreading rd db (fm_id fence)) of
        None \<Rightarrow> sc_regularSequenceThreading rd db fence
      | Some t \<Rightarrow> Inr (Some t))"

text \<open>The permission, the meeting's draft and the human approval are spent with the claim.\<close>
definition spend_permission :: "Tick \<Rightarrow> FollowUpPermissionRow option \<Rightarrow> 'w SendDb \<Rightarrow> 'w SendDb \<times> string option" where
  "spend_permission tk permission db = (case permission of
     None \<Rightarrow> (db, None)
   | Some p \<Rightarrow>
       if fp_scope p \<in> {''single_email'', ''contextual_reply'', ''routine_reply''}
       then (case consumeFollowUpPermission tk (fp_id p) db of
          (db1, consumed) \<Rightarrow> (db1, if consumed then None else Some ''follow_up_scope_exhausted''))
       else (db, if permissionStillLive tk (fp_id p) db then None else Some ''follow_up_expired''))"

definition set_rest :: "'w SendDb \<Rightarrow> 'w \<times> 'a \<Rightarrow> 'w SendDb \<times> 'a" where
  "set_rest db r = (db\<lparr> sx_rest := fst r \<rparr>, snd r)"

definition spend_and_commit :: "('w, 'z) SendCallees_scheme \<Rightarrow> Tick \<Rightarrow> 'w SendDb \<Rightarrow> OutboundFenceRow \<Rightarrow> FollowUpPermissionRow option \<Rightarrow>
    SendPlan \<Rightarrow> DispatchClaim \<Rightarrow> SendThreading option \<Rightarrow> 'w SendDb \<Rightarrow> 'w SendDb \<times> ClaimOutcome" where
  "spend_and_commit rd tk db0 fence permission plan claim threading db =
     (case spend_permission tk permission db of
        (db1, Some detail) \<Rightarrow> stopped db0 detail
      | (db1, None) \<Rightarrow>
          (case set_rest db1 (sc_markMeetingDraftSubmitted rd db1 (fm_id fence)) of
             (db2, submitted) \<Rightarrow>
               if \<not> submitted then stopped db0 ''follow_up_not_permitted:draft_changed'' else
               if en_originKind (fm_envelope fence) = Origin_draft
               then (case set_rest db2 (sc_consumeHumanReplyApproval rd db2 (fm_id fence)) of
                 (db3, consumed) \<Rightarrow>
                   if \<not> consumed then stopped db0 ''human_reply:fresh_approval_required''
                   else (db3, Claimed plan claim threading))
               else (db2, Claimed plan claim threading)))"

text \<open>The reservation of the day's capacity and the claim.\<close>
definition reserve_and_claim :: "('w, 'z) SendCallees_scheme \<Rightarrow> Tick \<Rightarrow> OutboundSendDeps \<Rightarrow> 'w SendDb \<Rightarrow> OutboundFenceRow \<Rightarrow>
    FollowUpPermissionRow option \<Rightarrow> SendPlan \<Rightarrow> SendThreading option \<Rightarrow> 'w SendDb \<Rightarrow> 'w SendDb \<times> ClaimOutcome" where
  "reserve_and_claim rd tk deps db0 fence permission plan threading db =
     (let date = dy_businessDate (plan_day plan) in
      case with_ramp (countAutomatedSend (pm_id (plan_mailbox plan)) date (plan_cap plan)) db of
        (db1, False) \<Rightarrow> claim_holds rd tk deps fence Daily_cap (Some (str_int (plan_cap plan))) db1
      | (db1, True) \<Rightarrow>
          (case with_outbound (claimForDispatch (gt_env rd) (tk_now tk) (tk_token tk) (fm_id fence) (sd_actor deps)
              (Some (iso_of_day date)) [(''releaseAdmission.attestation'', rl_attestation (plan_release plan)),
                (''releaseAdmission.releaseGateReference'', rl_releaseGateReference (plan_release plan))]) db1 of
             (db2, Refuse reason detail) \<Rightarrow> rolled_back db0 reason detail
           | (db2, Accept claim) \<Rightarrow> spend_and_commit rd tk db0 fence permission plan claim threading db2))"

text \<open>After the footer: the meeting's own check, the pacing of prospecting, the threading.\<close>
definition claim_composed :: "('w, 'z) SendCallees_scheme \<Rightarrow> Tick \<Rightarrow> OutboundSendDeps \<Rightarrow> 'w SendDb \<Rightarrow> OutboundFenceRow \<Rightarrow>
    FollowUpPermissionRow option \<Rightarrow> SendPlan \<Rightarrow> 'w SendDb \<Rightarrow> 'w SendDb \<times> ClaimOutcome" where
  "claim_composed rd tk deps db0 fence permission plan db =
     (case gt_verifyMeetingFence rd db (fm_id fence) (tk_clock tk) of
        Some reason \<Rightarrow>
          (fst (with_outbound (holdFence (gt_env rd) (tk_now tk) (fm_id fence) ''follow_up_not_permitted'' None) db),
           Claim_held fence Step_ineligible (Some (''follow_up_not_permitted:'' @ reason)) None)
      | None \<Rightarrow>
          (case (if prospecting_fence db fence
                 then prospectingRetryAt db (pm_id (plan_mailbox plan)) (plan_cap plan) (tk_clock tk) else None) of
             Some retryAt \<Rightarrow> (db0, Claim_not_ready (Some Step_ineligible) (Some ''mailbox_pacing'') (Some retryAt))
           | None \<Rightarrow>
               (case explicit_threading rd db fence of
                  Inl reason \<Rightarrow> stopped db0 reason
                | Inr threading \<Rightarrow> reserve_and_claim rd tk deps db0 fence permission plan threading db)))"

definition reserve_touch :: "('w, 'z) SendCallees_scheme \<Rightarrow> Tick \<Rightarrow> OutboundFenceRow \<Rightarrow> 'w SendDb \<Rightarrow>
    SendError + 'w SendDb \<times> string option" where
  "reserve_touch rd tk fence db = (case en_stepExecutionId (fm_envelope fence) of
     None \<Rightarrow> Inr (db, None)
   | Some s \<Rightarrow> and_then (lift_clock (reserveOutreachEmail (env_tz (gt_env rd)) (env_actor (gt_env rd)) (tk_now tk)
         (tk_touch tk) s (tk_clock tk) (sx_outbound db)))
       (\<lambda>(o', touch). Inr (db\<lparr> sx_outbound := o' \<rparr>, case touch of Inl reason \<Rightarrow> Some reason | Inr _ \<Rightarrow> None)))"

definition recheckAndClaim :: "('w, 'z) SendCallees_scheme \<Rightarrow> Tick \<Rightarrow> OutboundSendDeps \<Rightarrow> uuid \<Rightarrow> SendPlan \<Rightarrow> 'w SendDb \<Rightarrow>
    SendError + 'w SendDb \<times> ClaimOutcome" where
  "recheckAndClaim rd tk deps k precheck db =
     (case lockFenceForClaim (sx_outbound db) k of
        None \<Rightarrow> Inr (rolled_back db Fence_unknown None)
      | Some fence \<Rightarrow>
          if fm_state fence \<noteq> Prepared then Inr (rolled_back db Fence_not_ready (Some (state_name (fm_state fence)))) else
          if en_originKind (fm_envelope fence) = Origin_draft \<and>
             \<not> sc_humanReplyApprovalIsLive rd db (fm_id fence) (gd_humanReplyRevision deps)
          then Inr (stopped db ''human_reply:fresh_approval_required'') else
          let permission = lockPermissionForClaim db (fm_id fence) in
          and_then (decideSend rd tk (gate_deps deps) fence db) (\<lambda>(db1, gate).
          case gate of
            Refuse reason detail \<Rightarrow> Inr (claim_holds rd tk deps fence reason detail db1)
          | Accept plan \<Rightarrow>
              (case claim_stop rd tk precheck plan fence permission db1 of
                 Some (refusal, detail) \<Rightarrow> Inr (rolled_back db refusal (Some detail))
               | None \<Rightarrow>
                   and_then (reserve_touch rd tk fence db1) (\<lambda>(db2, refused).
                   case refused of
                     Some reason \<Rightarrow> Inr (stopped db reason)
                   | None \<Rightarrow>
                       (case reconcileFenceFooter rd tk deps fence db2 of
                          (db3, Footer_refused reason detail) \<Rightarrow>
                            Inr (claim_holds rd tk deps fence reason (Some detail) db3)
                        | (db3, Footer_reconciled f rewritten) \<Rightarrow>
                            Inr (claim_composed rd tk deps db fence permission plan db3))))))"

section \<open>Dispatching one fence\<close>

datatype SendOutcome = Out_sent | Out_held | Out_reconciling | Out_already_terminal | Out_fence_unknown | Out_not_ready

record SendReport =
  rp_outcome :: SendOutcome
  rp_outboundMessageId :: uuid
  rp_refusal :: "SendRefusalCode option"
  rp_detail :: "string option"
  rp_providerMessageId :: "string option"
  rp_retryAt :: "instant option"

definition send_report :: "SendOutcome \<Rightarrow> uuid \<Rightarrow> SendRefusalCode option \<Rightarrow> string option \<Rightarrow> instant option \<Rightarrow> SendReport" where
  "send_report outcome k refusal detail retryAt = \<lparr> rp_outcome = outcome, rp_outboundMessageId = k, rp_refusal = refusal,
     rp_detail = detail, rp_providerMessageId = None, rp_retryAt = retryAt \<rparr>"

datatype SendRefusedReason = Sr_grant_revoked | Sr_rate_limited | Sr_recipient_rejected | Sr_provider_refusal

text \<open>A refusal carries the provider's classification, coded reason and retry instant.\<close>
datatype GmailSendOutcome =
    Gmail_sent string string
  | Gmail_refused SendRefusedReason "ProviderIncidentClass option" "string option" "instant option"
  | Gmail_indeterminate string
  | Gmail_broke

definition send_reason_name :: "SendRefusedReason \<Rightarrow> string" where
  "send_reason_name r = (case r of Sr_grant_revoked \<Rightarrow> ''grant_revoked'' | Sr_rate_limited \<Rightarrow> ''rate_limited''
     | Sr_recipient_rejected \<Rightarrow> ''recipient_rejected'' | Sr_provider_refusal \<Rightarrow> ''provider_refusal'')"

definition refusalOf :: "SendRefusedReason \<Rightarrow> SendRefusalCode" where
  "refusalOf r = (case r of Sr_grant_revoked \<Rightarrow> Grant_revoked | Sr_rate_limited \<Rightarrow> Rate_limited
     | Sr_recipient_rejected \<Rightarrow> Recipient_rejected | Sr_provider_refusal \<Rightarrow> Provider_refusal)"

text \<open>Where a dispatch stands.  \<open>At_step_hold\<close> carries the retry instant the claim already
  answered, or nothing when it is asked after the hold.\<close>
datatype DispatchPhase =
    At_start
  | At_release OutboundFenceRow
  | At_precheck OutboundFenceRow
  | At_hold OutboundFenceRow SendRefusalCode "string option"
  | At_access OutboundFenceRow SendPlan
  | At_claim OutboundFenceRow SendPlan string
  | At_step_hold OutboundFenceRow SendRefusalCode "string option" "instant option option"
  | At_send SendPlan DispatchClaim "SendThreading option" string
  | At_record SendPlan DispatchClaim string string
  | At_delivery DispatchClaim string instant
  | At_incident SendPlan DispatchClaim GmailSendOutcome "ProviderBinding option"
  | At_signal SendPlan DispatchClaim GmailSendOutcome
  | At_reconcile DispatchClaim GmailSendOutcome
  | At_doubt_hold DispatchClaim GmailSendOutcome
  | Finished SendReport
  | Failed SendError

record GmailAnswers =
  ga_refreshedAt :: instant
  ga_refresh :: GmailAccessOutcome
  ga_send :: GmailSendOutcome

definition recordHumanReplyDelivery :: "('w, 'z) SendCallees_scheme \<Rightarrow> uuid \<Rightarrow> 'w SendDb \<Rightarrow> 'w SendDb" where
  "recordHumanReplyDelivery rd k db = (case readFence (sx_outbound db) k of
     None \<Rightarrow> db
   | Some f \<Rightarrow> if en_originKind (fm_envelope f) = Origin_draft then sc_applyHumanReplyDelivery rd db k else db)"

text \<open>The read, the human approval, and the holds of the last attempt.\<close>
definition start_dispatch :: "('w, 'z) SendCallees_scheme \<Rightarrow> Tick \<Rightarrow> OutboundSendDeps \<Rightarrow> uuid \<Rightarrow> 'w SendDb \<Rightarrow> 'w SendDb \<times> DispatchPhase" where
  "start_dispatch rd tk deps k db = (case readFence (sx_outbound db) k of
     None \<Rightarrow> (db, Finished (send_report Out_fence_unknown k None None None))
   | Some fence \<Rightarrow>
       let over = (\<lambda>outcome detail. Finished (send_report outcome k None detail None)) in
       (case fm_state fence of
          Sent \<Rightarrow> (recordHumanReplyDelivery rd k db, over Out_already_terminal None)
        | Unknown_terminal \<Rightarrow> (db, over Out_already_terminal None)
        | Dispatching \<Rightarrow> (db, over Out_not_ready (Some ''dispatching''))
        | Reconciling \<Rightarrow> (db, over Out_not_ready (Some ''reconciling''))
        | _ \<Rightarrow>
            if en_originKind (fm_envelope fence) = Origin_draft \<and>
               \<not> sc_humanReplyApprovalIsLive rd db k (gd_humanReplyRevision deps)
            then (db, over Out_not_ready (Some ''human_reply:fresh_approval_required'')) else
            if fm_state fence = Held
            then (case with_holds (release_where (tk_now tk) (\<lambda>h. hd_sourceEventKind h = ''outbound_message'' \<and>
                   hd_sourceEventId h = Some k \<and>
                   hd_reasonCode h \<notin> {''send_unknown_reconciling'', ''send_unknown_terminal''})) db of
                 Inl err \<Rightarrow> (db, Failed err) | Inr (db1, _) \<Rightarrow> (db1, At_release fence))
            else (db, At_precheck fence)))"

definition step_hold_input :: "OutboundFenceRow \<Rightarrow> string \<Rightarrow> string list \<Rightarrow> string option \<Rightarrow> OpenHoldInput" where
  "step_hold_input fence reason kinds recovery = \<lparr> oi_scopeKind = ''firm'', oi_scopeKey = Some (en_firmId (fm_envelope fence)),
     oi_reasonCode = reason, oi_blockedActionKinds = kinds, oi_sourceEventKind = ''outbound_message'',
     oi_sourceEventId = Some (fm_id fence), oi_ownerUserId = None, oi_recoveryAction = recovery \<rparr>"

definition openStepHold :: "('w, 'z) SendCallees_scheme \<Rightarrow> Tick \<Rightarrow> OutboundSendDeps \<Rightarrow> OutboundFenceRow \<Rightarrow> SendRefusalCode \<Rightarrow>
    'w SendDb \<Rightarrow> SendError + 'w SendDb" where
  "openStepHold rd tk deps fence reason db =
     (if en_originKind (fm_envelope fence) = Origin_draft
      then Inr (db\<lparr> sx_rest := sc_refuseHumanReplyApproval rd db (fm_id fence) reason (gd_humanReplyRevision deps) \<rparr>) else
      case holdReasonForRefusal reason of
        None \<Rightarrow> Inr db
      | Some holdReason \<Rightarrow> and_then (with_holds (openHold (tk_now tk) (tk_hold tk) (step_hold_input fence holdReason [''email_send'']
          (if holdReason = ''mailbox_disconnected'' \<or> holdReason = ''coverage_incomplete''
           then Some ''reconnect_mailbox'' else None))) db) (\<lambda>(db1, _). Inr db1))"

definition send_request :: "SendPlan \<Rightarrow> DispatchClaim \<Rightarrow> SendThreading option \<Rightarrow> GmailSendRequest" where
  "send_request plan claim threading =
     (let e = fm_envelope (claim_fence claim) in
      \<lparr> gr_to = en_recipientAddress e, gr_from = pm_address (plan_mailbox plan), gr_subject = en_subject e,
        gr_body = en_body e, gr_rfcMessageId = en_providerMessageIdHeader e, gr_threading = threading \<rparr>)"

text \<open>The one call, and what its answer leads to.\<close>
definition send_once :: "('w, 'z) SendCallees_scheme \<Rightarrow> SendPlan \<Rightarrow> DispatchClaim \<Rightarrow> SendThreading option \<Rightarrow> GmailSendOutcome \<Rightarrow>
    'w SendDb \<Rightarrow> 'w SendDb \<times> DispatchPhase" where
  "send_once rd plan claim threading answer db =
     (db\<lparr> sx_calls := sx_calls db @ [\<lparr> gc_fence = fm_id (claim_fence claim), gc_token = claim_attemptToken claim,
        gc_request = send_request plan claim threading \<rparr>] \<rparr>,
      case answer of
        Gmail_sent pid tid \<Rightarrow> At_record plan claim pid tid
      | Gmail_broke \<Rightarrow> Failed Gmail_threw
      | _ \<Rightarrow> At_incident plan claim answer (readProviderBinding rd db (pm_id (plan_mailbox plan))))"

definition send_class :: "SendRefusedReason \<Rightarrow> ProviderIncidentClass option \<Rightarrow> ProviderIncidentClass" where
  "send_class reason given = (case given of Some c \<Rightarrow> c
     | None \<Rightarrow> (case reason of Sr_rate_limited \<Rightarrow> Class_transient | Sr_grant_revoked \<Rightarrow> Class_authentication
         | _ \<Rightarrow> Class_unknown))"

definition record_send_incident :: "Tick \<Rightarrow> SendPlan \<Rightarrow> DispatchClaim \<Rightarrow> GmailSendOutcome \<Rightarrow> ProviderBinding option \<Rightarrow>
    'w SendDb \<Rightarrow> SendError + 'w SendDb" where
  "record_send_incident tk plan claim answer binding db = (case answer of
     Gmail_refused reason given incidentReason retryAt \<Rightarrow>
       if reason = Sr_recipient_rejected then Inr db
       else record_if_bound tk (tk_clock tk) (pm_id (plan_mailbox plan)) Source_provider_send (fm_id (claim_fence claim))
         (send_class reason given) (case incidentReason of None \<Rightarrow> send_reason_name reason | Some r \<Rightarrow> r) retryAt binding db
   | _ \<Rightarrow> Inr db)"

definition answer_detail :: "GmailSendOutcome \<Rightarrow> string" where
  "answer_detail answer = (case answer of Gmail_refused reason _ _ _ \<Rightarrow> ''refused:'' @ send_reason_name reason
     | Gmail_indeterminate detail \<Rightarrow> detail | _ \<Rightarrow> [])"

definition reconciling_report :: "uuid \<Rightarrow> GmailSendOutcome \<Rightarrow> SendReport" where
  "reconciling_report k answer = (case answer of
     Gmail_refused reason _ _ retryAt \<Rightarrow> send_report Out_reconciling k (Some (refusalOf reason)) (Some (answer_detail answer)) retryAt
   | _ \<Rightarrow> send_report Out_reconciling k None (Some (answer_detail answer)) None)"

definition or_failed :: "'w SendDb \<Rightarrow> SendError + 'w SendDb \<Rightarrow> DispatchPhase \<Rightarrow> 'w SendDb \<times> DispatchPhase" where
  "or_failed db r ph = (case r of Inl e \<Rightarrow> (db, Failed e) | Inr db1 \<Rightarrow> (db1, ph))"

definition access_phase :: "('w, 'z) SendCallees_scheme \<Rightarrow> Tick \<Rightarrow> GmailAnswers \<Rightarrow> uuid \<Rightarrow> OutboundFenceRow \<Rightarrow> SendPlan \<Rightarrow>
    'w SendDb \<Rightarrow> 'w SendDb \<times> DispatchPhase" where
  "access_phase rd tk answers k fence precheck db =
     (case accessForMailbox rd tk (ga_refreshedAt answers) (ga_refresh answers) (pm_id (plan_mailbox precheck)) db of
        (db1, Inl e) \<Rightarrow> (db1, Failed e)
      | (db1, Inr (Access grant)) \<Rightarrow> (db1, At_claim fence precheck grant)
      | (db1, Inr Access_revoked) \<Rightarrow> (db1, At_hold fence Grant_revoked (Some ''grant_revoked''))
      | (db1, Inr Access_incident) \<Rightarrow>
          (db1, Finished (case providerIncidentRefusal rd db1 (en_mailboxId (fm_envelope fence)) (tk_clock tk) of
             None \<Rightarrow> send_report Out_held k (Some Provider_refusal) None None
           | Some i \<Rightarrow> send_report Out_held k (Some (ref_reason i)) (Some (ref_detail i)) (ref_retryAt i))))"

definition claim_phase :: "('w, 'z) SendCallees_scheme \<Rightarrow> Tick \<Rightarrow> OutboundSendDeps \<Rightarrow> uuid \<Rightarrow> SendPlan \<Rightarrow> string \<Rightarrow>
    'w SendDb \<Rightarrow> 'w SendDb \<times> DispatchPhase" where
  "claim_phase rd tk deps k precheck grant db = (case recheckAndClaim rd tk deps k precheck db of
     Inl e \<Rightarrow> (db, Failed e)
   | Inr (db1, Claimed plan claim threading) \<Rightarrow> (db1, At_send plan claim threading grant)
   | Inr (db1, Claim_held f reason detail retryAt) \<Rightarrow> (db1, At_step_hold f reason detail (Some retryAt))
   | Inr (db1, Claim_not_ready refusal detail retryAt) \<Rightarrow>
       (db1, Finished (send_report Out_not_ready k refusal detail retryAt)))"

definition record_phase :: "('w, 'z) SendCallees_scheme \<Rightarrow> Tick \<Rightarrow> OutboundSendDeps \<Rightarrow> uuid \<Rightarrow> DispatchClaim \<Rightarrow> string \<Rightarrow> string \<Rightarrow>
    'w SendDb \<Rightarrow> 'w SendDb \<times> DispatchPhase" where
  "record_phase rd tk deps k claim pid tid db =
     (case with_outbound (recordSent (gt_env rd) (tk_now tk) k (claim_attemptToken claim) pid tid (sd_actor deps)) db of
        (db1, Refuse reason _) \<Rightarrow> (db1, Finished (send_report Out_not_ready k (Some reason) None None))
      | (db1, Accept f) \<Rightarrow> (db1, At_delivery claim pid (case fm_sentAt f of None \<Rightarrow> 0 | Some s \<Rightarrow> s)))"

definition delivery_phase :: "('w, 'z) SendCallees_scheme \<Rightarrow> uuid \<Rightarrow> DispatchClaim \<Rightarrow> string \<Rightarrow> instant \<Rightarrow>
    'w SendDb \<Rightarrow> 'w SendDb \<times> DispatchPhase" where
  "delivery_phase rd k claim pid sentAt db =
     (let db1 = (case en_stepExecutionId (fm_envelope (claim_fence claim)) of None \<Rightarrow> db
            | Some s \<Rightarrow> db\<lparr> sx_rest := sc_recordMeetingDelivery rd db s k sentAt \<rparr>);
          db2 = db1\<lparr> sx_rest := sc_recordRoutineDelivery rd db1 k \<rparr> in
      (recordHumanReplyDelivery rd k db2,
       Finished ((send_report Out_sent k None None None)\<lparr> rp_providerMessageId := Some pid \<rparr>)))"

text \<open>One transaction or one network call of \<open>dispatchOutboundMessage(k)\<close>.\<close>
definition dispatch_next :: "('w, 'z) SendCallees_scheme \<Rightarrow> OutboundSendDeps \<Rightarrow> uuid \<Rightarrow> Tick \<Rightarrow> GmailAnswers \<Rightarrow>
    DispatchPhase \<Rightarrow> 'w SendDb \<Rightarrow> 'w SendDb \<times> DispatchPhase" where
  "dispatch_next rd deps k tk answers ph db = (case ph of
     At_start \<Rightarrow> start_dispatch rd tk deps k db
   | At_release fence \<Rightarrow>
       (case with_outbound (releaseFence (gt_env rd) (tk_now tk) k (sd_actor deps)) db of
          (db1, Refuse _ _) \<Rightarrow> (db1, Finished (send_report Out_not_ready k None None None))
        | (db1, Accept f) \<Rightarrow> (db1, At_precheck f))
   | At_precheck fence \<Rightarrow>
       (case decideSend rd tk (gate_deps deps) fence db of
          Inl e \<Rightarrow> (db, Failed e)
        | Inr (db1, Refuse reason detail) \<Rightarrow> (db1, At_hold fence reason detail)
        | Inr (db1, Accept plan) \<Rightarrow> (db1, At_access fence plan))
   | At_hold fence reason detail \<Rightarrow>
       (fst (with_outbound (holdFence (gt_env rd) (tk_now tk) k (refusal_name reason) (sd_actor deps)) db),
        At_step_hold fence reason detail None)
   | At_access fence plan \<Rightarrow> access_phase rd tk answers k fence plan db
   | At_claim fence plan grant \<Rightarrow> claim_phase rd tk deps k plan grant db
   | At_step_hold fence reason detail retry \<Rightarrow>
       (case openStepHold rd tk deps fence reason db of
          Inl e \<Rightarrow> (db, Failed e)
        | Inr db1 \<Rightarrow> (db1, Finished (send_report Out_held k (Some reason) detail (case retry of
            Some r \<Rightarrow> r
          | None \<Rightarrow> if reason = Rate_limited
              then (case providerIncidentRefusal rd db1 (en_mailboxId (fm_envelope fence)) (tk_clock tk) of
                 None \<Rightarrow> None | Some i \<Rightarrow> ref_retryAt i) else None))))
   | At_send plan claim threading grant \<Rightarrow> send_once rd plan claim threading (ga_send answers) db
   | At_record plan claim pid tid \<Rightarrow> record_phase rd tk deps k claim pid tid db
   | At_delivery claim pid sentAt \<Rightarrow> delivery_phase rd k claim pid sentAt db
   | At_incident plan claim answer binding \<Rightarrow>
       or_failed db (record_send_incident tk plan claim answer binding db) (At_signal plan claim answer)
   | At_signal plan claim answer \<Rightarrow>
       (fst (with_ramp (\<lambda>r. (recordDaySignal (pm_id (plan_mailbox plan)) (dy_businessDate (plan_day plan))
          Signal_provider_error r, ())) db), At_reconcile claim answer)
   | At_reconcile claim answer \<Rightarrow>
       (fst (with_outbound (beginReconciling (gt_env rd) (tk_now tk) k (answer_detail answer)
          (case sd_reconcileWindowHours deps of None \<Rightarrow> RECONCILE_WINDOW_HOURS | Some h \<Rightarrow> h) (sd_actor deps)) db),
        At_doubt_hold claim answer)
   | At_doubt_hold claim answer \<Rightarrow>
       or_failed db (and_then (with_holds (openHold (tk_now tk) (tk_hold tk) (step_hold_input (claim_fence claim)
          ''send_unknown_reconciling'' [''email_send'', ''enrollment_advance''] None)) db) (\<lambda>(db1, _). Inr db1))
         (Finished (reconciling_report k answer))
   | Finished report \<Rightarrow> (db, ph)
   | Failed err \<Rightarrow> (db, ph))"

text \<open>The transactions left to a phase, at most.\<close>
fun phases_left :: "DispatchPhase \<Rightarrow> nat" where
  "phases_left At_start = 10"
| "phases_left (At_release _) = 9"
| "phases_left (At_precheck _) = 8"
| "phases_left (At_access _ _) = 7"
| "phases_left (At_claim _ _ _) = 6"
| "phases_left (At_send _ _ _ _) = 5"
| "phases_left (At_incident _ _ _ _) = 4"
| "phases_left (At_signal _ _ _) = 3"
| "phases_left (At_reconcile _ _) = 2"
| "phases_left (At_doubt_hold _ _) = 1"
| "phases_left (At_record _ _ _ _) = 2"
| "phases_left (At_delivery _ _ _) = 1"
| "phases_left (At_hold _ _ _) = 2"
| "phases_left (At_step_hold _ _ _ _) = 1"
| "phases_left (Finished _) = 0"
| "phases_left (Failed _) = 0"

text \<open>The call on its own: one phase after the other, each with its own tick.\<close>
fun dispatch_run :: "('w, 'z) SendCallees_scheme \<Rightarrow> OutboundSendDeps \<Rightarrow> uuid \<Rightarrow> GmailAnswers \<Rightarrow> (nat \<Rightarrow> Tick) \<Rightarrow> nat \<Rightarrow>
    'w SendDb \<times> DispatchPhase \<Rightarrow> 'w SendDb \<times> DispatchPhase" where
  "dispatch_run rd deps k answers ticks 0 s = s"
| "dispatch_run rd deps k answers ticks (Suc n) s =
     (if phases_left (snd s) = 0 then s
      else dispatch_run rd deps k answers ticks n (dispatch_next rd deps k (ticks n) answers (snd s) (fst s)))"

definition dispatchOutboundMessage :: "('w, 'z) SendCallees_scheme \<Rightarrow> OutboundSendDeps \<Rightarrow> uuid \<Rightarrow> GmailAnswers \<Rightarrow>
    (nat \<Rightarrow> Tick) \<Rightarrow> 'w SendDb \<Rightarrow> 'w SendDb \<times> DispatchPhase" where
  "dispatchOutboundMessage rd deps k answers ticks db = dispatch_run rd deps k answers ticks 10 (db, At_start)"

end
