(* ===== verification/SendPathInvariant.thy ===== *)
theory SendPathInvariant
  imports SendPath FenceProperties
begin

text \<open>
  What each phase of a dispatch does to the fences and to the history of Gmail calls: it moves
  the fences as calls of the fence's functions do, claims one fence, or calls Gmail once.
\<close>

section \<open>Operations that leave the fences alone\<close>

text \<open>The fences, their ledger and the calls are as they were.\<close>
definition same_fences :: "'w SendDb \<Rightarrow> 'w SendDb \<Rightarrow> bool" where
  "same_fences db db' \<longleftrightarrow> outbound_messages (sx_outbound db') = outbound_messages (sx_outbound db) \<and>
     outbound_message_events (sx_outbound db') = outbound_message_events (sx_outbound db) \<and> sx_calls db' = sx_calls db"

text \<open>The fences moved as calls of the fence's functions move them.\<close>
definition fences_move :: "'w SendDb \<Rightarrow> 'w SendDb \<Rightarrow> bool" where
  "fences_move db db' \<longleftrightarrow> prim_step\<^sup>*\<^sup>* (sx_outbound db) (sx_outbound db') \<and> sx_calls db' = sx_calls db"

lemma same_fences_refl [simp]: "same_fences db db"
  by (simp add: same_fences_def)

lemma same_fences_trans: "same_fences a b \<Longrightarrow> same_fences b c \<Longrightarrow> same_fences a c"
  by (simp add: same_fences_def)

lemma same_moves: "same_fences db db' \<Longrightarrow> fences_move db db'"
  unfolding same_fences_def fences_move_def by (blast intro: r_into_rtranclp [where r = prim_step] prim_step.same)

lemma fences_move_refl [simp]: "fences_move db db"
  by (simp add: fences_move_def)

lemma fences_move_trans: "fences_move a b \<Longrightarrow> fences_move b c \<Longrightarrow> fences_move a c"
  unfolding fences_move_def by (metis rtranclp_trans)

lemma same_fences_updates [simp]:
  "same_fences db (db\<lparr> sx_ramp := r \<rparr>)" "same_fences db (db\<lparr> sx_holds := h \<rparr>)"
  "same_fences db (db\<lparr> sx_incidents := i \<rparr>)" "same_fences db (db\<lparr> sx_permissions := p \<rparr>)"
  "same_fences db (db\<lparr> sx_rest := w \<rparr>)"
  by (simp_all add: same_fences_def)

lemma with_ramp_same [simp]: "same_fences db (fst (with_ramp f db))"
  by (simp add: with_ramp_def split: prod.split)

lemma with_ramp_eq_same: "with_ramp f db = (db', x) \<Longrightarrow> same_fences db db'"
  using with_ramp_same [of db f] by simp

lemma with_holds_same: "with_holds f db = Inr (db', x) \<Longrightarrow> same_fences db db'"
  by (auto simp: with_holds_def elim!: and_thenE split: prod.splits)

lemma with_outbound_moves: "prim_step\<^sup>*\<^sup>* (sx_outbound db) (fst (f (sx_outbound db))) \<Longrightarrow> fences_move db (fst (with_outbound f db))"
  by (auto simp: with_outbound_def fences_move_def split: prod.split)

lemma with_ramp_moves [simp]: "fences_move db (fst (with_ramp f db))"
  by (rule same_moves [OF with_ramp_same])

lemma upsert_incident_same: "upsert_incident row db = (db', r) \<Longrightarrow> same_fences db db'"
  by (auto simp: upsert_incident_def split: option.splits)

lemma record_incident_same: "recordProviderIncident tk input db = Inr db' \<Longrightarrow> same_fences db db'"
  by (auto simp: recordProviderIncident_def elim!: and_thenE split: prod.splits if_splits
      intro: same_fences_trans dest!: upsert_incident_same with_holds_same)

lemma release_each_same: "release_each tk ks db = Inr db' \<Longrightarrow> same_fences db db'"
  by (induction ks arbitrary: db) (auto elim!: and_thenE split: prod.splits dest!: with_holds_same intro: same_fences_trans)

lemma resolve_where_same: "resolve_where tk at how hit db = Inr db' \<Longrightarrow> same_fences db db'"
  by (auto simp: resolve_where_def split: if_splits dest!: release_each_same) (auto simp: same_fences_def)

lemma resolve_after_read_same: "resolveProviderIncidentsAfterRead rd tk m b now sources db = Inr db' \<Longrightarrow> same_fences db db'"
  by (auto simp: resolveProviderIncidentsAfterRead_def elim!: and_thenE split: option.splits if_splits dest: resolve_where_same)

lemma superseded_same: "resolveSupersededTokenRefreshIncidents rd tk m now db = Inr db' \<Longrightarrow> same_fences db db'"
  by (auto simp: resolveSupersededTokenRefreshIncidents_def split: option.splits if_splits dest: resolve_where_same)

lemma supersede_same: "supersedeStaleTokenRefreshIncidents rd tk m now db = Inr db' \<Longrightarrow> same_fences db db'"
  by (auto simp: supersedeStaleTokenRefreshIncidents_def elim!: and_thenE split: option.splits if_splits dest: superseded_same)

lemma record_if_bound_same: "record_if_bound tk at m s k c r retry b db = Inr db' \<Longrightarrow> same_fences db db'"
  by (auto simp: record_if_bound_def split: option.splits dest: record_incident_same)

lemma settle_access_same:
  "(\<And>d. r = Inr d \<Longrightarrow> same_fences db d) \<Longrightarrow> same_fences db (fst (settle_access tk m r db outcome))"
  by (auto simp: settle_access_def split: sum.split)

lemma access_same: "same_fences db (fst (accessForMailbox rd tk at answer m db))"
proof -
  show ?thesis
    unfolding accessForMailbox_def Let_def
    by (auto split: sum.split GmailAccessOutcome.split option.split dest!: supersede_same
        intro!: settle_access_same elim!: same_fences_trans intro: record_if_bound_same resolve_after_read_same)
qed

lemma open_step_hold_same: "openStepHold rd tk deps fence reason db = Inr db' \<Longrightarrow> same_fences db db'"
  by (auto simp: openStepHold_def elim!: and_thenE split: if_splits option.splits prod.splits dest!: with_holds_same)

lemma send_incident_same: "record_send_incident tk plan claim answer binding db = Inr db' \<Longrightarrow> same_fences db db'"
  by (auto simp: record_send_incident_def split: GmailSendOutcome.splits if_splits option.splits dest: record_if_bound_same)

lemma decide_capacity_same: "same_fences db (fst (decide_capacity rd tk fence m incident p d r db))"
  unfolding decide_capacity_def Let_def
  by (auto split: prod.split option.split dest!: with_ramp_eq_same intro: same_fences_trans [OF _ with_ramp_same])

lemma decide_same: "decideSend rd tk deps fence db = Inr (db', r) \<Longrightarrow> same_fences db db'"
proof -
  have "decide_capacity rd tk fence m i p d r' db = (db', r) \<Longrightarrow> same_fences db db'" for m i p d r'
    using decide_capacity_same [of db rd tk fence m i p d r'] by simp
  then show "decideSend rd tk deps fence db = Inr (db', r) \<Longrightarrow> same_fences db db'"
    by (auto simp: decideSend_def elim!: and_thenE split: SendResult.splits prod.splits option.splits if_splits)
qed

lemma reserve_touch_same: "reserve_touch rd tk fence db = Inr (db', x) \<Longrightarrow> same_fences db db'"
  by (auto simp: reserve_touch_def same_fences_def lift_clock_def elim!: and_thenE
      split: option.splits sum.splits prod.splits dest!: reserve_frame)

section \<open>The claim\<close>

lemma outbound_moves:
  "with_outbound f db = (db', r) \<Longrightarrow> (\<And>o'. prim_step\<^sup>*\<^sup>* o' (fst (f o'))) \<Longrightarrow> fences_move db db'"
  using with_outbound_moves [of db f] by simp

lemma outbound_moves_fst:
  "(\<And>o'. prim_step\<^sup>*\<^sup>* o' (fst (f o'))) \<Longrightarrow> fences_move db (fst (with_outbound f db))"
  by (rule with_outbound_moves)

lemma hold_moves [simp]: "fences_move db (fst (with_outbound (holdFence env now k reason actor) db))"
  by (rule outbound_moves_fst [OF hold_prim])

lemmas fence_call_moves = outbound_moves [OF _ hold_prim] outbound_moves [OF _ rewrite_prim]
  outbound_moves [OF _ claim_prim] outbound_moves [OF _ release_prim] outbound_moves [OF _ sent_prim]

lemma claim_holds_moves: "claim_holds rd tk deps fence reason detail db = (db', c) \<Longrightarrow>
   fences_move db db' \<and> (\<exists>f a b d. c = Claim_held f a b d)"
  by (auto simp: claim_holds_def split: prod.splits dest!: fence_call_moves)

lemma footer_moves: "reconcileFenceFooter rd tk deps fence db = (db', r) \<Longrightarrow> fences_move db db'"
  by (auto simp: reconcileFenceFooter_def Let_def split: if_splits option.splits ComposeSendBodyDecision.splits
      prod.splits SendResult.splits dest: fence_call_moves)

lemma spend_same: "spend_permission tk p db = (db', r) \<Longrightarrow> same_fences db db'"
  by (auto simp: spend_permission_def consumeFollowUpPermission_def split: option.splits if_splits prod.splits)

lemma set_rest_same: "set_rest db r = (db', x) \<Longrightarrow> same_fences db db'"
  by (auto simp: set_rest_def)

lemma spend_and_commit_cases:
  assumes "spend_and_commit rd tk db0 fence permission plan claim threading db = (db', c)"
  shows "(same_fences db db' \<and> c = Claimed plan claim threading) \<or> (db' = db0 \<and> (\<exists>a b d. c = Claim_not_ready a b d))"
  using assms
  by (auto simp: spend_and_commit_def stopped_def rolled_back_def split: prod.splits option.splits if_splits
      dest!: spend_same set_rest_same) (meson same_fences_trans)+

text \<open>What a claim transaction ends in: a claim of a fence that was prepared, a hold, or nothing.\<close>
definition claimed_row :: "'w SendDb \<Rightarrow> 'w SendDb \<Rightarrow> uuid \<Rightarrow> DispatchClaim \<Rightarrow> bool" where
  "claimed_row db db' k c \<longleftrightarrow> fm_id (claim_fence c) = k \<and>
     (\<exists>f. readFence (sx_outbound db) k = Some f \<and> fm_state f = Prepared) \<and>
     readFence (sx_outbound db') k = Some (claim_fence c) \<and>
     fm_attemptToken (claim_fence c) = Some (claim_attemptToken c)"

definition claim_ok :: "'w SendDb \<Rightarrow> uuid \<Rightarrow> 'w SendDb \<times> ClaimOutcome \<Rightarrow> bool" where
  "claim_ok db k r \<longleftrightarrow> fences_move db (fst r) \<and>
     (case snd r of Claimed plan c threading \<Rightarrow> claimed_row db (fst r) k c | Claim_held _ _ _ _ \<Rightarrow> True
      | Claim_not_ready _ _ _ \<Rightarrow> fst r = db)"

lemma claim_ok_rollback [simp]:
  "claim_ok db k (rolled_back db refusal detail)" "claim_ok db k (stopped db reason)"
  "claim_ok db k (db, Claim_not_ready a b c)"
  by (simp_all add: claim_ok_def rolled_back_def stopped_def)

lemma claim_ok_holds:
  "fences_move db db1 \<Longrightarrow> claim_ok db k (claim_holds rd tk deps fence reason detail db1)"
  by (cases "claim_holds rd tk deps fence reason detail db1")
    (auto simp: claim_ok_def dest!: claim_holds_moves elim: fences_move_trans)

lemma readFence_same: "same_fences db db' \<Longrightarrow> readFence (sx_outbound db') k = readFence (sx_outbound db) k"
  by (auto simp: same_fences_def intro: readFence_cong)

lemma inv_moves: "fences_move db db' \<Longrightarrow> fence_inv (sx_outbound db) \<Longrightarrow> fence_inv (sx_outbound db')"
  unfolding fences_move_def by (blast intro: prim_steps_inv)

lemma moves_later:
  assumes "fences_move db db'" "fence_inv (sx_outbound db)" "readFence (sx_outbound db) k = Some f"
  shows "\<exists>g. readFence (sx_outbound db') k = Some g \<and> later_row f g"
proof -
  have f: "f \<in> set (outbound_messages (sx_outbound db))" "fm_id f = k"
    using readFence_iff [OF assms(2)] assms(3) by blast+
  obtain g where g: "g \<in> set (outbound_messages (sx_outbound db'))" "later_row f g"
    using prim_steps_later assms(1,2) f(1) unfolding fences_move_def by blast
  then show ?thesis
    using readFence_iff [OF inv_moves [OF assms(1,2)]] f(2) by (auto simp: later_row_def keys_kept_def)
qed

text \<open>A fence with a token was claimed, and stays so.\<close>
lemma later_claimed:
  "later_row f g \<Longrightarrow> fence_row_checks f \<Longrightarrow> fm_attemptToken f \<noteq> None \<Longrightarrow> past_dispatch (fm_state g)"
  unfolding later_row_def fence_row_checks_def using past_dispatch_closed by blast

lemma row_checked: "fence_inv o' \<Longrightarrow> readFence o' k = Some f \<Longrightarrow> fence_row_checks f"
  using readFence_iff fence_invD(2) by blast

text \<open>The row was prepared before every move that leads to a prepared row.\<close>
lemma prepared_before:
  assumes "fences_move db db'" "fence_inv (sx_outbound db)" "readFence (sx_outbound db) k = Some f"
    and "readFence (sx_outbound db') k = Some g" "fm_state g = Prepared"
  shows "fm_attemptToken f = None"
proof (rule ccontr)
  assume token: "fm_attemptToken f \<noteq> None"
  obtain h where "readFence (sx_outbound db') k = Some h" "later_row f h"
    using moves_later [OF assms(1-3)] by blast
  then have "past_dispatch (fm_state g)"
    using later_claimed [OF _ row_checked [OF assms(2,3)] token] assms(4) by simp
  then show False using assms(5) by (simp add: past_dispatch_def)
qed

lemma reserve_claim_ok:
  assumes "fences_move db0 db" "fence_inv (sx_outbound db0)" "readFence (sx_outbound db0) k = Some f"
    and "fm_state f = Prepared" "fm_id fence = k"
  shows "claim_ok db0 k (reserve_and_claim rd tk deps db0 fence permission plan threading db)"
proof -
  let ?date = "dy_businessDate (plan_day plan)"
  obtain db1 ok where count: "with_ramp (countAutomatedSend (pm_id (plan_mailbox plan)) ?date (plan_cap plan)) db = (db1, ok)"
    by fastforce
  have m1: "fences_move db0 db1"
    using assms(1) same_moves [OF with_ramp_eq_same [OF count]] fences_move_trans by blast
  show ?thesis
  proof (cases ok)
    case False
    then show ?thesis using claim_ok_holds [OF m1] by (simp add: reserve_and_claim_def Let_def count)
  next
    case True
    define act where "act = claimForDispatch (gt_env rd) (tk_now tk) (tk_token tk) (fm_id fence) (sd_actor deps)
      (Some (iso_of_day ?date)) [(''releaseAdmission.attestation'', rl_attestation (plan_release plan)),
        (''releaseAdmission.releaseGateReference'', rl_releaseGateReference (plan_release plan))]"
    obtain db2 r where claim: "with_outbound act db1 = (db2, r)" by fastforce
    have m2: "fences_move db0 db2"
      using fences_move_trans [OF m1] fence_call_moves(3) [OF claim [unfolded act_def]] by blast
    show ?thesis
    proof (cases r)
      case (Refuse reason detail)
      then show ?thesis using True by (simp add: reserve_and_claim_def Let_def count claim [unfolded act_def])
    next
      case (Accept c)
      have "act (sx_outbound db1) = (sx_outbound db2, Accept c)"
        using claim Accept by (auto simp: with_outbound_def split: prod.splits)
      then have c: "fm_id (claim_fence c) = k" "readFence (sx_outbound db2) k = Some (claim_fence c)"
          "fm_attemptToken (claim_fence c) = Some (claim_attemptToken c)"
        using claim_reads [OF inv_moves [OF m1 assms(2)], of "gt_env rd" "tk_now tk" "tk_token tk" "fm_id fence"] readFence_iff
          inv_moves [OF m2 assms(2)] assms(5)
        unfolding act_def by (fastforce simp: claim_change_def)+
      obtain db' out where s: "spend_and_commit rd tk db0 fence permission plan c threading db2 = (db', out)" by fastforce
      have "claim_ok db0 k (db', out)"
        using spend_and_commit_cases [OF s]
      proof (elim disjE conjE exE)
        assume d: "same_fences db2 db'" "out = Claimed plan c threading"
        then have "claimed_row db0 db' k c"
          using c assms(3,4) readFence_same [OF d(1)] by (auto simp: claimed_row_def)
        then show ?thesis using d m2 same_moves fences_move_trans by (fastforce simp: claim_ok_def)
      qed simp
      then show ?thesis using True Accept s by (simp add: reserve_and_claim_def Let_def count claim [unfolded act_def])
    qed
  qed
qed

lemma claim_composed_ok:
  assumes "fences_move db0 db" "fence_inv (sx_outbound db0)" "readFence (sx_outbound db0) k = Some f"
    and "fm_state f = Prepared" "fm_id fence = k"
  shows "claim_ok db0 k (claim_composed rd tk deps db0 fence permission plan db)"
proof -
  have hold: "fences_move db0 (fst (with_outbound (holdFence env now i reason actor) db))" for env now i reason actor
    by (rule fences_move_trans [OF assms(1) hold_moves])
  show ?thesis
    using reserve_claim_ok [OF assms] hold
    by (auto simp: claim_composed_def split: option.split sum.split if_split) (simp_all add: claim_ok_def)
qed

lemma recheck_ok:
  assumes "recheckAndClaim rd tk deps k precheck db = Inr r" "fence_inv (sx_outbound db)"
  shows "claim_ok db k r"
proof (cases "readFence (sx_outbound db) k")
  case None
  then show ?thesis using assms(1) by (auto simp: recheckAndClaim_def lockFenceForClaim_def)
next
  case (Some fence)
  have id: "fm_id fence = k" using Some readFence_iff [OF assms(2)] by blast
  show ?thesis
  proof (cases "fm_state fence = Prepared")
    case False
    then show ?thesis using assms(1) Some by (auto simp: recheckAndClaim_def lockFenceForClaim_def)
  next
    case True
    have gate: "claim_ok db k (claim_holds rd tk deps fence reason detail d1)"
      if "decideSend rd tk (gate_deps deps) fence db = Inr (d1, g)" for reason detail d1 g
      by (rule claim_ok_holds [OF same_moves [OF decide_same [OF that]]])
    have moves: "fences_move db d3"
      if "decideSend rd tk (gate_deps deps) fence db = Inr (d1, g)" "reserve_touch rd tk fence d1 = Inr (d2, x)"
        "reconcileFenceFooter rd tk deps fence d2 = (d3, y)" for d1 g d2 x d3 y
      using same_moves [OF decide_same [OF that(1)]] same_moves [OF reserve_touch_same [OF that(2)]]
        footer_moves [OF that(3)] fences_move_trans by blast
    note footer = claim_ok_holds [OF moves] and composed = claim_composed_ok [OF moves assms(2) Some True id]
    show ?thesis
      using assms(1) Some True
      by (auto simp: recheckAndClaim_def lockFenceForClaim_def Let_def elim!: and_thenE
          split: SendResult.splits option.splits prod.splits FenceFooterReconciliation.splits if_splits)
        (erule footer composed gate; assumption)+
  qed
qed

section \<open>One phase\<close>

fun at_send :: "DispatchPhase \<Rightarrow> bool" where
  "at_send (At_send plan c threading grant) \<longleftrightarrow> True"
| "at_send _ \<longleftrightarrow> False"

text \<open>What is asked of the hook that records a human reply's delivery: it moves the fences as
  calls of the fence's functions, and sends nothing.\<close>
definition delivery_keeps_fences :: "('w, 'z) SendCallees_scheme \<Rightarrow> bool" where
  "delivery_keeps_fences rd \<longleftrightarrow> (\<forall>db k. fences_move db (sc_applyHumanReplyDelivery rd db k))"

definition window_positive :: "OutboundSendDeps \<Rightarrow> bool" where
  "window_positive deps \<longleftrightarrow> (case sd_reconcileWindowHours deps of None \<Rightarrow> True | Some h \<Rightarrow> 0 < h)"

lemma delivery_moves: "delivery_keeps_fences rd \<Longrightarrow> fences_move db (recordHumanReplyDelivery rd k db)"
  by (auto simp: recordHumanReplyDelivery_def delivery_keeps_fences_def split: option.split)

lemma reconciling_moves: "window_positive deps \<Longrightarrow> fences_move db (fst (with_outbound (beginReconciling env now k why
    (case sd_reconcileWindowHours deps of None \<Rightarrow> RECONCILE_WINDOW_HOURS | Some h \<Rightarrow> h) actor) db))"
  by (rule outbound_moves_fst, rule reconciling_prim)
    (auto simp: window_positive_def RECONCILE_WINDOW_HOURS_def split: option.splits)

lemma start_ok:
  assumes "delivery_keeps_fences rd" "start_dispatch rd tk deps k db = (db', ph')"
  shows "fences_move db db' \<and> \<not> at_send ph'"
  using assms delivery_moves [OF assms(1)]
  by (auto simp: start_dispatch_def Let_def split: option.splits OutboundState.splits if_splits sum.splits prod.splits
      dest!: with_holds_same same_moves)

lemma delivery_phase_ok:
  assumes "delivery_keeps_fences rd"
  shows "fences_move db (fst (delivery_phase rd k c pid sentAt db)) \<and> \<not> at_send (snd (delivery_phase rd k c pid sentAt db))"
proof -
  have d: "fences_move db (recordHumanReplyDelivery rd k d)" if "same_fences db d" for d
    using same_moves [OF that] delivery_moves [OF assms] fences_move_trans by blast
  have "same_fences db ((db\<lparr> sx_rest := w \<rparr>)\<lparr> sx_rest := v \<rparr>)" for w v by (simp add: same_fences_def)
  then show ?thesis by (auto simp: delivery_phase_def Let_def intro: d split: option.split)
qed

text \<open>A phase moves the fences without calling Gmail, or claims, or calls Gmail once.\<close>
lemma phase_cases:
  assumes "delivery_keeps_fences rd" "window_positive deps" "fence_inv (sx_outbound db)"
    and "dispatch_next rd deps k tk answers ph db = (db', ph')"
  obtains (quiet) "fences_move db db'" "\<not> at_send ph" "\<not> at_send ph'"
  | (claim) plan c threading grant where "fences_move db db'" "\<not> at_send ph" "ph' = At_send plan c threading grant"
      "claimed_row db db' k c"
  | (call) plan c threading grant where "ph = At_send plan c threading grant" "\<not> at_send ph'"
      "db' = db\<lparr> sx_calls := sx_calls db @ [\<lparr> gc_fence = fm_id (claim_fence c), gc_token = claim_attemptToken c,
         gc_request = send_request plan c threading \<rparr>] \<rparr>"
proof (cases ph)
  case At_start
  then show ?thesis using start_ok [OF assms(1)] assms(4) quiet by (auto simp: dispatch_next_def)
next
  case (At_release fence)
  then show ?thesis using assms(4) quiet
    by (auto simp: dispatch_next_def split: prod.splits SendResult.splits dest: fence_call_moves)
next
  case (At_precheck fence)
  then show ?thesis using assms(4) quiet
    by (auto simp: dispatch_next_def split: sum.splits prod.splits SendResult.splits dest: same_moves [OF decide_same])
next
  case (At_hold fence reason detail)
  then show ?thesis using assms(4) quiet hold_moves
    by (auto simp: dispatch_next_def)
next
  case (At_access fence plan)
  have "fences_move db db'"
    using same_moves [OF access_same, of db rd tk] assms(4) At_access
    by (auto simp: dispatch_next_def access_phase_def split: prod.splits sum.splits AccessOutcome.splits) (metis fst_conv)+
  then show ?thesis using assms(4) At_access quiet
    by (auto simp: dispatch_next_def access_phase_def split: prod.splits sum.splits AccessOutcome.splits)
next
  case (At_claim fence plan grant)
  show ?thesis
  proof (cases "recheckAndClaim rd tk deps k plan db")
    case (Inl e)
    then show ?thesis using At_claim assms(4) quiet by (auto simp: dispatch_next_def claim_phase_def)
  next
    case (Inr r)
    obtain d out where r: "r = (d, out)" by fastforce
    have ok: "claim_ok db k (d, out)" using recheck_ok [OF Inr assms(3)] r by simp
    show ?thesis
    proof (cases out)
      case (Claimed p c t)
      then show ?thesis using At_claim assms(4) claim ok Inr r
        by (auto simp: dispatch_next_def claim_phase_def claim_ok_def)
    qed (use At_claim assms(4) quiet ok Inr r in \<open>auto simp: dispatch_next_def claim_phase_def claim_ok_def\<close>)
  qed
next
  case (At_step_hold fence reason detail retry)
  then show ?thesis using assms(4) quiet
    by (auto simp: dispatch_next_def split: sum.splits dest: same_moves [OF open_step_hold_same])
next
  case (At_send plan c threading grant)
  then show ?thesis using assms(4) call
    by (auto simp: dispatch_next_def send_once_def split: GmailSendOutcome.splits)
next
  case (At_record plan c pid tid)
  then show ?thesis using assms(4) quiet
    by (auto simp: dispatch_next_def record_phase_def split: prod.splits SendResult.splits dest: fence_call_moves)
next
  case (At_delivery c pid sentAt)
  then show ?thesis using assms(4) quiet delivery_phase_ok [OF assms(1), of db k c pid sentAt] by (simp add: dispatch_next_def)
next
  case (At_incident plan c answer binding)
  then show ?thesis using assms(4) quiet
    by (auto simp: dispatch_next_def or_failed_def split: sum.splits dest: same_moves [OF send_incident_same])
next
  case (At_signal plan c answer)
  then show ?thesis using assms(4) quiet by (auto simp: dispatch_next_def)
next
  case (At_reconcile c answer)
  then show ?thesis using assms(2,4) quiet by (auto simp: dispatch_next_def reconciling_moves)
next
  case (At_doubt_hold c answer)
  then show ?thesis using assms(4) quiet
    by (auto simp: dispatch_next_def or_failed_def elim!: and_thenE split: sum.splits prod.splits
        dest!: with_holds_same same_moves)
qed (use assms(4) quiet in \<open>auto simp: dispatch_next_def\<close>)

end
