(* ===== verification/SendWorkers.thy ===== *)
theory SendWorkers
  imports SendPathInvariant
begin

text \<open>
  The interleaved system: any number of workers, each somewhere in \<open>dispatchOutboundMessage\<close>,
  every other caller of the fence's functions, and whatever else writes to the tables.  Its
  invariant ties the calls of Gmail made and about to be made to the claims of the fences.
\<close>

section \<open>Workers\<close>

record 'w SendSystem =
  sy_db :: "'w SendDb"
  sy_workers :: "(uuid \<times> DispatchPhase) list"

text \<open>Any interleaving of: a new call of \<open>dispatchOutboundMessage\<close>; the next phase of a worker,
  whatever the clock, the uuids and Gmail answer; the death of a worker; a call of a function
  of the fence by somebody else (the restore, the reconciliation, an admin, a sequence); any
  other write to the state.\<close>
inductive send_step :: "('w, 'z) SendCallees_scheme \<Rightarrow> 'w SendSystem \<Rightarrow> 'w SendSystem \<Rightarrow> bool" for rd where
  arrive: "send_step rd s \<lparr> sy_db = sy_db s, sy_workers = sy_workers s @ [(k, At_start)] \<rparr>"
| work: "i < length (sy_workers s) \<Longrightarrow> sy_workers s ! i = (k, ph) \<Longrightarrow> window_positive deps \<Longrightarrow>
     dispatch_next rd deps k tk answers ph (sy_db s) = (db', ph') \<Longrightarrow>
     send_step rd s \<lparr> sy_db = db', sy_workers = (sy_workers s)[i := (k, ph')] \<rparr>"
| die: "i < length (sy_workers s) \<Longrightarrow> sy_workers s ! i = (k, ph) \<Longrightarrow>
     send_step rd s \<lparr> sy_db = sy_db s, sy_workers = (sy_workers s)[i := (k, Failed Gmail_threw)] \<rparr>"
| fence_call: "fence_step (sx_outbound (sy_db s)) o' \<Longrightarrow>
     send_step rd s \<lparr> sy_db = (sy_db s)\<lparr> sx_outbound := o' \<rparr>, sy_workers = sy_workers s \<rparr>"
| other: "same_fences (sy_db s) db' \<Longrightarrow> send_step rd s \<lparr> sy_db = db', sy_workers = sy_workers s \<rparr>"

text \<open>A claim some worker is about to spend, and a call that was made, match the stored fence.\<close>
definition claim_current :: "'w SendDb \<Rightarrow> uuid \<Rightarrow> DispatchClaim \<Rightarrow> bool" where
  "claim_current db k c \<longleftrightarrow> fm_id (claim_fence c) = k \<and> (\<exists>f. readFence (sx_outbound db) k = Some f \<and>
     fm_attemptToken f = Some (claim_attemptToken c) \<and> fm_envelope f = fm_envelope (claim_fence c))"

definition call_of_row :: "GmailCall \<Rightarrow> OutboundFenceRow \<Rightarrow> bool" where
  "call_of_row call f \<longleftrightarrow> fm_attemptToken f = Some (gc_token call) \<and>
     gr_to (gc_request call) = en_recipientAddress (fm_envelope f) \<and>
     gr_subject (gc_request call) = en_subject (fm_envelope f) \<and> gr_body (gc_request call) = en_body (fm_envelope f) \<and>
     gr_rfcMessageId (gc_request call) = en_providerMessageIdHeader (fm_envelope f)"

definition calls_of :: "uuid \<Rightarrow> 'w SendDb \<Rightarrow> nat" where
  "calls_of k db = length (filter (\<lambda>c. gc_fence c = k) (sx_calls db))"

definition about_to_send :: "uuid \<Rightarrow> (uuid \<times> DispatchPhase) list \<Rightarrow> nat" where
  "about_to_send k workers = length (filter (\<lambda>(j, ph). j = k \<and> at_send ph) workers)"

definition fence_claimed :: "uuid \<Rightarrow> 'w SendDb \<Rightarrow> bool" where
  "fence_claimed k db \<longleftrightarrow> (\<exists>f. readFence (sx_outbound db) k = Some f \<and> fm_attemptToken f \<noteq> None)"

definition send_inv :: "'w SendSystem \<Rightarrow> bool" where
  "send_inv s \<longleftrightarrow> fence_inv (sx_outbound (sy_db s)) \<and>
     (\<forall>k plan c threading grant. (k, At_send plan c threading grant) \<in> set (sy_workers s) \<longrightarrow> claim_current (sy_db s) k c) \<and>
     (\<forall>call\<in>set (sx_calls (sy_db s)). \<exists>f. readFence (sx_outbound (sy_db s)) (gc_fence call) = Some f \<and> call_of_row call f) \<and>
     (\<forall>k. calls_of k (sy_db s) + about_to_send k (sy_workers s) \<le> (if fence_claimed k (sy_db s) then 1 else 0))"

lemma send_invD:
  assumes "send_inv s"
  shows "fence_inv (sx_outbound (sy_db s))"
    and "(k, At_send plan c threading grant) \<in> set (sy_workers s) \<Longrightarrow> claim_current (sy_db s) k c"
    and "call \<in> set (sx_calls (sy_db s)) \<Longrightarrow>
      \<exists>f. readFence (sx_outbound (sy_db s)) (gc_fence call) = Some f \<and> call_of_row call f"
    and "calls_of k (sy_db s) + about_to_send k (sy_workers s) \<le> (if fence_claimed k (sy_db s) then 1 else 0)"
  using assms unfolding send_inv_def by blast+

lemma send_invI:
  assumes "fence_inv (sx_outbound db)"
    and "\<And>k plan c threading grant. (k, At_send plan c threading grant) \<in> set workers \<Longrightarrow> claim_current db k c"
    and "\<And>call. call \<in> set (sx_calls db) \<Longrightarrow> \<exists>f. readFence (sx_outbound db) (gc_fence call) = Some f \<and> call_of_row call f"
    and "\<And>k. calls_of k db + about_to_send k workers \<le> (if fence_claimed k db then 1 else 0)"
  shows "send_inv \<lparr> sy_db = db, sy_workers = workers \<rparr>"
  using assms unfolding send_inv_def by simp

lemma claimed_row_later: "later_row f g \<Longrightarrow> fm_attemptToken f = Some token \<Longrightarrow>
    fm_attemptToken g = Some token \<and> fm_envelope g = fm_envelope f"
  by (simp add: later_row_def)

lemma claim_current_move:
  "fences_move db db' \<Longrightarrow> fence_inv (sx_outbound db) \<Longrightarrow> claim_current db k c \<Longrightarrow> claim_current db' k c"
proof -
  assume moved: "fences_move db db'" "fence_inv (sx_outbound db)" and "claim_current db k c"
  then obtain f where f: "readFence (sx_outbound db) k = Some f" "fm_attemptToken f = Some (claim_attemptToken c)"
      "fm_envelope f = fm_envelope (claim_fence c)" "fm_id (claim_fence c) = k"
    by (auto simp: claim_current_def)
  obtain g where "readFence (sx_outbound db') k = Some g" "later_row f g"
    using moves_later [OF moved f(1)] by blast
  then show "claim_current db' k c" using claimed_row_later [OF _ f(2)] f(3,4) by (auto simp: claim_current_def)
qed

lemma call_of_row_move:
  "fences_move db db' \<Longrightarrow> fence_inv (sx_outbound db) \<Longrightarrow> readFence (sx_outbound db) k = Some f \<Longrightarrow> call_of_row call f \<Longrightarrow>
   \<exists>g. readFence (sx_outbound db') k = Some g \<and> call_of_row call g"
proof -
  assume moved: "fences_move db db'" "fence_inv (sx_outbound db)" and f: "readFence (sx_outbound db) k = Some f" "call_of_row call f"
  obtain g where g: "readFence (sx_outbound db') k = Some g" "later_row f g"
    using moves_later [OF moved f(1)] by blast
  have "fm_attemptToken f = Some (gc_token call)" using f(2) by (simp add: call_of_row_def)
  then show ?thesis using claimed_row_later [OF g(2)] g(1) f(2) by (auto simp: call_of_row_def)
qed

lemma fence_claimed_move:
  "fences_move db db' \<Longrightarrow> fence_inv (sx_outbound db) \<Longrightarrow> fence_claimed k db \<Longrightarrow> fence_claimed k db'"
proof -
  assume moved: "fences_move db db'" "fence_inv (sx_outbound db)" and "fence_claimed k db"
  then obtain f token where f: "readFence (sx_outbound db) k = Some f" "fm_attemptToken f = Some token"
    by (auto simp: fence_claimed_def)
  obtain g where "readFence (sx_outbound db') k = Some g" "later_row f g"
    using moves_later [OF moved f(1)] by blast
  then show ?thesis using claimed_row_later [OF _ f(2)] by (auto simp: fence_claimed_def)
qed

lemma calls_of_same: "sx_calls db' = sx_calls db \<Longrightarrow> calls_of k db' = calls_of k db"
  by (simp add: calls_of_def)

lemma fences_move_calls: "fences_move db db' \<Longrightarrow> sx_calls db' = sx_calls db"
  by (simp add: fences_move_def)

lemma send_inv_moved:
  assumes "send_inv s" "fences_move (sy_db s) db'"
  shows "send_inv \<lparr> sy_db = db', sy_workers = sy_workers s \<rparr>"
proof (rule send_invI)
  note inv = send_invD(1) [OF assms(1)] and calls = fences_move_calls [OF assms(2)]
  show "fence_inv (sx_outbound db')" by (rule inv_moves [OF assms(2) inv])
  show "claim_current db' k c" if "(k, At_send plan c threading grant) \<in> set (sy_workers s)" for k plan c threading grant
    by (rule claim_current_move [OF assms(2) inv send_invD(2) [OF assms(1) that]])
  show "\<exists>f. readFence (sx_outbound db') (gc_fence call) = Some f \<and> call_of_row call f" if "call \<in> set (sx_calls db')" for call
    using send_invD(3) [OF assms(1), of call] that calls call_of_row_move [OF assms(2) inv] by auto
  show "calls_of k db' + about_to_send k (sy_workers s) \<le> (if fence_claimed k db' then 1 else 0)" for k
    using send_invD(4) [OF assms(1), of k] fence_claimed_move [OF assms(2) inv, of k] calls_of_same [OF calls, of k]
    by (auto split: if_splits)
qed

lemma filter_update: "i < length xs \<Longrightarrow>
   length (filter P (xs[i := x])) + (if P (xs ! i) then 1 else 0) = length (filter P xs) + (if P x then 1 else 0)"
proof (induction xs arbitrary: i)
  case (Cons y ys)
  then show ?case by (cases i) auto
qed simp

lemma about_to_send_update:
  "i < length workers \<Longrightarrow> workers ! i = (j, ph) \<Longrightarrow>
   about_to_send k (workers[i := (j, ph')]) + (if j = k \<and> at_send ph then 1 else 0) =
   about_to_send k workers + (if j = k \<and> at_send ph' then 1 else 0)"
  unfolding about_to_send_def using filter_update [of i workers "\<lambda>(j, ph). j = k \<and> at_send ph" "(j, ph')"] by simp

lemma set_update_cases: "x \<in> set (xs[i := y]) \<Longrightarrow> x = y \<or> x \<in> set xs"
  using set_update_subset_insert by fastforce

text \<open>A worker that has left \<open>At_send\<close> is no longer among those about to send.\<close>
lemma worker_update:
  "(k, At_send p c t g) \<in> set (workers[i := (j, ph')]) \<Longrightarrow> \<not> at_send ph' \<Longrightarrow> (k, At_send p c t g) \<in> set workers"
  using set_update_cases by fastforce

lemma send_inv_worker:
  assumes "send_inv s" "i < length (sy_workers s)" "sy_workers s ! i = (j, ph)" "\<not> at_send ph'"
  shows "send_inv \<lparr> sy_db = sy_db s, sy_workers = (sy_workers s)[i := (j, ph')] \<rparr>"
proof (rule send_invI)
  show "calls_of k (sy_db s) + about_to_send k ((sy_workers s)[i := (j, ph')])
      \<le> (if fence_claimed k (sy_db s) then 1 else 0)" for k
    using send_invD(4) [OF assms(1), of k] about_to_send_update [OF assms(2,3), of k ph'] assms(4) by auto
  show "claim_current (sy_db s) k c" if "(k, At_send plan c threading grant) \<in> set ((sy_workers s)[i := (j, ph')])"
    for k plan c threading grant
    by (rule send_invD(2) [OF assms(1) worker_update [OF that assms(4)]])
qed (use send_invD [OF assms(1)] in blast)+

lemma send_inv_arrive: "send_inv s \<Longrightarrow> send_inv \<lparr> sy_db = sy_db s, sy_workers = sy_workers s @ [(k, At_start)] \<rparr>"
  unfolding send_inv_def by (auto simp: about_to_send_def)

lemma send_inv_claim:
  assumes "send_inv s" "i < length (sy_workers s)" "sy_workers s ! i = (j, ph)" "\<not> at_send ph"
    and "fences_move (sy_db s) db'" "claimed_row (sy_db s) db' j c"
  shows "send_inv \<lparr> sy_db = db', sy_workers = (sy_workers s)[i := (j, At_send plan c threading grant)] \<rparr>"
proof (rule send_invI)
  let ?workers = "(sy_workers s)[i := (j, At_send plan c threading grant)]"
  note inv = send_invD(1) [OF assms(1)]
  note moved = send_inv_moved [OF assms(1,5)]
  have current: "claim_current db' j c" using assms(6) by (auto simp: claimed_row_def claim_current_def)
  obtain f where f: "readFence (sx_outbound (sy_db s)) j = Some f" "fm_state f = Prepared"
    using assms(6) by (auto simp: claimed_row_def)
  have "fm_attemptToken f = None"
    using row_checked [OF inv f(1)] f(2) by (auto simp: fence_row_checks_def past_dispatch_def)
  then have "\<not> fence_claimed j (sy_db s)" using f(1) by (simp add: fence_claimed_def)
  then have none: "calls_of j (sy_db s) + about_to_send j (sy_workers s) = 0"
    using send_invD(4) [OF assms(1), of j] by simp
  show "calls_of k db' + about_to_send k ?workers \<le> (if fence_claimed k db' then 1 else 0)" for k
  proof (cases "k = j")
    case True
    then show ?thesis
      using none about_to_send_update [OF assms(2,3), of k "At_send plan c threading grant"] assms(4) current
        calls_of_same [OF fences_move_calls [OF assms(5)], of k]
      by (auto simp: claim_current_def fence_claimed_def)
  next
    case False
    then show ?thesis
      using send_invD(4) [OF moved, of k] about_to_send_update [OF assms(2,3), of k "At_send plan c threading grant"] by simp
  qed
  show "claim_current db' k d" if "(k, At_send p d t g) \<in> set ?workers" for k p d t g
    using set_update_cases [OF that] current send_invD(2) [OF moved, of k p d t g] by auto
  show "fence_inv (sx_outbound db')" using send_invD(1) [OF moved] by simp
  show "\<exists>f. readFence (sx_outbound db') (gc_fence call) = Some f \<and> call_of_row call f" if "call \<in> set (sx_calls db')" for call
    using send_invD(3) [OF moved, of call] that by simp
qed

lemma send_inv_call:
  assumes "send_inv s" "i < length (sy_workers s)" "sy_workers s ! i = (j, At_send plan c threading grant)" "\<not> at_send ph'"
  shows "send_inv \<lparr> sy_db = (sy_db s)\<lparr> sx_calls := sx_calls (sy_db s) @ [\<lparr> gc_fence = fm_id (claim_fence c),
       gc_token = claim_attemptToken c, gc_request = send_request plan c threading \<rparr>] \<rparr>,
     sy_workers = (sy_workers s)[i := (j, ph')] \<rparr>"
proof -
  let ?call = "\<lparr> gc_fence = fm_id (claim_fence c), gc_token = claim_attemptToken c, gc_request = send_request plan c threading \<rparr>"
  let ?db = "(sy_db s)\<lparr> sx_calls := sx_calls (sy_db s) @ [?call] \<rparr>"
  have "(j, At_send plan c threading grant) \<in> set (sy_workers s)" using assms(2,3) by (metis nth_mem)
  then have current: "claim_current (sy_db s) j c" by (rule send_invD(2) [OF assms(1)])
  then have id: "fm_id (claim_fence c) = j" by (simp add: claim_current_def)
  show ?thesis
  proof (rule send_invI)
    show "fence_inv (sx_outbound ?db)" using send_invD(1) [OF assms(1)] by simp
    show "claim_current ?db k d" if "(k, At_send p d t g) \<in> set ((sy_workers s)[i := (j, ph')])" for k p d t g
      using send_invD(2) [OF assms(1) worker_update [OF that assms(4)]] by (simp add: claim_current_def)
    have "\<exists>f. readFence (sx_outbound ?db) (gc_fence ?call) = Some f \<and> call_of_row ?call f"
      using current by (auto simp: claim_current_def call_of_row_def send_request_def Let_def)
    then show "\<exists>f. readFence (sx_outbound ?db) (gc_fence call) = Some f \<and> call_of_row call f" if "call \<in> set (sx_calls ?db)" for call
      using send_invD(3) [OF assms(1), of call] that by auto
    show "calls_of k ?db + about_to_send k ((sy_workers s)[i := (j, ph')]) \<le> (if fence_claimed k ?db then 1 else 0)" for k
      using send_invD(4) [OF assms(1), of k] about_to_send_update [OF assms(2,3), of k ph'] assms(4) id
      by (cases "k = j") (auto simp: calls_of_def fence_claimed_def)
  qed
qed

lemma send_step_inv:
  assumes "send_step rd s s'" "delivery_keeps_fences rd" "send_inv s"
  shows "send_inv s'"
  using assms(1)
proof cases
  case (arrive k)
  then show ?thesis using send_inv_arrive [OF assms(3)] by simp
next
  case (die i k ph)
  then show ?thesis using send_inv_worker [OF assms(3) die(2,3)] by simp
next
  case (fence_call o')
  then show ?thesis using send_inv_moved [OF assms(3)] fence_step_prim by (simp add: fences_move_def)
next
  case (other db')
  then show ?thesis using send_inv_moved [OF assms(3) same_moves] by simp
next
  case (work i k ph deps tk answers db' ph')
  show ?thesis
    using assms(2) work(4) send_invD(1) [OF assms(3)] work(5)
  proof (cases rule: phase_cases)
    case quiet
    then show ?thesis
      using send_inv_worker [OF send_inv_moved [OF assms(3) quiet(1)], of i k ph ph'] work(1-3) by simp
  next
    case (claim plan c threading grant)
    then show ?thesis using send_inv_claim [OF assms(3) work(2,3)] work(1) by simp
  next
    case (call plan c threading grant)
    then show ?thesis using send_inv_call [OF assms(3) work(2)] work(1,3) by simp
  qed
qed

lemma send_steps_inv:
  "(send_step rd)\<^sup>*\<^sup>* s s' \<Longrightarrow> delivery_keeps_fences rd \<Longrightarrow> send_inv s \<Longrightarrow> send_inv s'"
  by (induction rule: rtranclp_induct) (auto intro: send_step_inv)

lemma send_inv_initial:
  "fence_inv (sx_outbound (sy_db s)) \<Longrightarrow> sx_calls (sy_db s) = [] \<Longrightarrow> sy_workers s = [] \<Longrightarrow> send_inv s"
  by (simp add: send_inv_def calls_of_def about_to_send_def)

section \<open>Reports\<close>

definition fence_sent :: "uuid \<Rightarrow> 'w SendDb \<Rightarrow> bool" where
  "fence_sent k db \<longleftrightarrow> (\<exists>f. readFence (sx_outbound db) k = Some f \<and> fm_state f = Sent)"

text \<open>What the phases after the call, and the report they lead to, say of the state.\<close>
fun phase_true :: "'w SendDb \<Rightarrow> uuid \<times> DispatchPhase \<Rightarrow> bool" where
  "phase_true db (k, At_record plan c pid tid) \<longleftrightarrow> 1 \<le> calls_of k db"
| "phase_true db (k, At_delivery c pid sentAt) \<longleftrightarrow> 1 \<le> calls_of k db \<and> fence_sent k db"
| "phase_true db (k, Finished r) \<longleftrightarrow> (rp_outcome r = Out_sent \<longrightarrow> 1 \<le> calls_of k db \<and> fence_sent k db)"
| "phase_true db (k, _) \<longleftrightarrow> True"

lemma sent_edges: "allowed_edge\<^sup>*\<^sup>* s t \<Longrightarrow> s = Sent \<Longrightarrow> t = Sent"
  by (induction rule: rtranclp_induct) (auto simp: allowed_edge_def)

lemma fence_sent_move:
  "fences_move db db' \<Longrightarrow> fence_inv (sx_outbound db) \<Longrightarrow> fence_sent k db \<Longrightarrow> fence_sent k db'"
  unfolding fence_sent_def using moves_later sent_edges later_row_def by metis

lemma phase_true_move:
  "fences_move db db' \<Longrightarrow> fence_inv (sx_outbound db) \<Longrightarrow> phase_true db x \<Longrightarrow> phase_true db' x"
proof -
  assume moved: "fences_move db db'" and rest: "fence_inv (sx_outbound db)" "phase_true db x"
  then show ?thesis
    using fence_sent_move [OF moved] calls_of_same [OF fences_move_calls [OF moved]]
    by (cases "(db, x)" rule: phase_true.cases) auto
qed

lemma phase_true_call:
  "phase_true db x \<Longrightarrow> phase_true (db\<lparr> sx_calls := sx_calls db @ [c] \<rparr>) x"
  by (cases "(db, x)" rule: phase_true.cases) (auto simp: calls_of_def fence_sent_def)

lemma sent_reads:
  assumes "fence_inv db" "recordSent env now k token pid tid actor db = (db', Accept f)"
  shows "readFence db' k = Some f \<and> fm_state f = Sent"
proof -
  obtain d h where u: "update_fence (\<lambda>f. fm_attemptToken f = Some token \<and> fm_state f = Dispatching)
      (sent_change now now pid tid) k db = (d, h)" by fastforce
  show ?thesis
    using assms(2) update_fence_read [OF sent_move.fence_move_axioms assms(1) u]
    by (auto simp: recordSent_def u sent_change_def split: option.splits if_splits)
qed

text \<open>Only the call of Gmail leads to the record, the record to the delivery, and the delivery
  to a report of a sent mail.\<close>
fun says_sent :: "DispatchPhase \<Rightarrow> bool" where
  "says_sent (At_record plan c pid tid) \<longleftrightarrow> True"
| "says_sent (At_delivery c pid sentAt) \<longleftrightarrow> True"
| "says_sent (Finished r) \<longleftrightarrow> rp_outcome r = Out_sent"
| "says_sent _ \<longleftrightarrow> False"

lemma phase_true_unsaid: "\<not> says_sent ph \<Longrightarrow> phase_true db (k, ph)"
  by (cases ph) auto

lemma send_report_outcome [simp]: "rp_outcome (send_report out k r d t) = out"
  by (simp add: send_report_def)

lemma start_unsaid: "start_dispatch rd tk deps k db = (db', ph') \<Longrightarrow> \<not> says_sent ph'"
  by (auto simp: start_dispatch_def Let_def split: option.splits OutboundState.splits if_splits sum.splits prod.splits)

lemma access_unsaid: "access_phase rd tk answers k fence plan db = (db', ph') \<Longrightarrow> \<not> says_sent ph'"
  by (auto simp: access_phase_def split: prod.splits sum.splits AccessOutcome.splits option.splits)

lemma claim_unsaid: "claim_phase rd tk deps k plan grant db = (db', ph') \<Longrightarrow> \<not> says_sent ph'"
  by (auto simp: claim_phase_def split: prod.splits sum.splits ClaimOutcome.splits)

lemma next_unsaid:
  assumes "dispatch_next rd deps k tk answers ph db = (db', ph')" "\<not> says_sent ph" "\<not> at_send ph"
  shows "\<not> says_sent ph'"
  using assms
  by (cases ph) (auto simp: dispatch_next_def or_failed_def reconciling_report_def start_unsaid access_unsaid claim_unsaid
      split: prod.splits sum.splits SendResult.splits GmailSendOutcome.splits)

lemma phase_true_next:
  assumes "dispatch_next rd deps k tk answers ph db = (db', ph')" "delivery_keeps_fences rd" "fence_inv (sx_outbound db)"
    and "\<And>plan c threading grant. ph = At_send plan c threading grant \<Longrightarrow> fm_id (claim_fence c) = k"
    and "phase_true db (k, ph)"
  shows "phase_true db' (k, ph')"
proof (cases "says_sent ph \<or> at_send ph")
  case False
  then show ?thesis using phase_true_unsaid next_unsaid [OF assms(1)] by blast
next
  case True
  then consider plan c threading grant where "ph = At_send plan c threading grant"
    | plan c pid tid where "ph = At_record plan c pid tid" | c pid sentAt where "ph = At_delivery c pid sentAt"
    | r where "ph = Finished r" by (cases ph) auto
  then show ?thesis
  proof cases
    case 1
    then show ?thesis using assms(1) assms(4) [OF 1]
      by (auto simp: dispatch_next_def send_once_def calls_of_def split: GmailSendOutcome.splits)
  next
    case 2
    obtain d x where r: "with_outbound (recordSent (gt_env rd) (tk_now tk) k (claim_attemptToken c) pid tid (sd_actor deps)) db = (d, x)"
      by fastforce
    show ?thesis
    proof (cases x)
      case (Accept f)
      then have "readFence (sx_outbound d) k = Some f \<and> fm_state f = Sent" "sx_calls d = sx_calls db"
        using r sent_reads [OF assms(3)] by (auto simp: with_outbound_def split: prod.splits)
      then show ?thesis using assms(1,5) r Accept 2
        by (auto simp: dispatch_next_def record_phase_def fence_sent_def calls_of_def)
    qed (use assms(1) r 2 in \<open>auto simp: dispatch_next_def record_phase_def\<close>)
  next
    case 3
    have "fences_move db (fst (delivery_phase rd k c pid sentAt db))" using delivery_phase_ok [OF assms(2)] by blast
    then have moved: "fences_move db db'" using assms(1) 3 by (simp add: dispatch_next_def)
    have "\<exists>r. ph' = Finished r" using assms(1) 3 by (auto simp: dispatch_next_def delivery_phase_def Let_def)
    then show ?thesis
      using assms(5) 3 fence_sent_move [OF moved assms(3), of k] calls_of_same [OF fences_move_calls [OF moved], of k] by auto
  next
    case 4
    then show ?thesis using assms(1,5) by (simp add: dispatch_next_def)
  qed
qed

definition report_inv :: "'w SendSystem \<Rightarrow> bool" where
  "report_inv s \<longleftrightarrow> (\<forall>x\<in>set (sy_workers s). phase_true (sy_db s) x)"

text \<open>A phase leaves what the other workers say true.\<close>
lemma phase_true_others:
  assumes "delivery_keeps_fences rd" "window_positive deps" "fence_inv (sx_outbound db)"
    and "dispatch_next rd deps k tk answers ph db = (db', ph')" "phase_true db x"
  shows "phase_true db' x"
  using assms(1-4)
proof (cases rule: phase_cases)
  case quiet
  then show ?thesis using phase_true_move assms(3,5) by blast
next
  case claim
  then show ?thesis using phase_true_move assms(3,5) by blast
next
  case call
  then show ?thesis using phase_true_call assms(5) by simp
qed

lemma report_step_inv:
  assumes "send_step rd s s'" "delivery_keeps_fences rd" "send_inv s" "report_inv s"
  shows "report_inv s'"
  using assms(1)
proof cases
  case (arrive k)
  then show ?thesis using assms(4) by (auto simp: report_inv_def)
next
  case (die i k ph)
  then show ?thesis using assms(4) by (auto simp: report_inv_def dest!: set_update_cases)
next
  case (fence_call o')
  have "fences_move (sy_db s) ((sy_db s)\<lparr> sx_outbound := o' \<rparr>)"
    using fence_call(2) fence_step_prim by (simp add: fences_move_def)
  then show ?thesis using fence_call(1) assms(4) phase_true_move send_invD(1) [OF assms(3)] by (fastforce simp: report_inv_def)
next
  case (other db')
  then show ?thesis
    using assms(4) phase_true_move [OF same_moves] send_invD(1) [OF assms(3)] by (fastforce simp: report_inv_def)
next
  case (work i k ph deps tk answers db' ph')
  have mem: "(k, ph) \<in> set (sy_workers s)" using work(2,3) by (metis nth_mem)
  have id: "fm_id (claim_fence c) = k" if "ph = At_send plan c threading grant" for plan c threading grant
    using send_invD(2) [OF assms(3)] mem that by (auto simp: claim_current_def)
  have "phase_true db' (k, ph')"
    using phase_true_next [OF work(5) assms(2) send_invD(1) [OF assms(3)] id] assms(4) mem by (auto simp: report_inv_def)
  then show ?thesis
    using phase_true_others [OF assms(2) work(4) send_invD(1) [OF assms(3)] work(5)] assms(4) work(1)
    by (auto simp: report_inv_def dest!: set_update_cases)
qed

lemma report_steps_inv:
  "(send_step rd)\<^sup>*\<^sup>* s s' \<Longrightarrow> delivery_keeps_fences rd \<Longrightarrow> send_inv s \<Longrightarrow> report_inv s \<Longrightarrow> report_inv s'"
proof (induction rule: rtranclp_induct)
  case (step s1 s2)
  then show ?case using report_step_inv [OF step(2)] send_steps_inv [OF step(1)] by blast
qed simp

section \<open>One call on its own\<close>

lemma run_steps:
  assumes "window_positive deps"
  shows "(send_step rd)\<^sup>*\<^sup>* \<lparr> sy_db = fst s, sy_workers = [(k, snd s)] \<rparr>
     \<lparr> sy_db = fst (dispatch_run rd deps k answers ticks n s),
       sy_workers = [(k, snd (dispatch_run rd deps k answers ticks n s))] \<rparr>"
proof (induction n arbitrary: s)
  case (Suc n)
  let ?s = "\<lparr> sy_db = fst s, sy_workers = [(k, snd s)] \<rparr>"
  show ?case
  proof (cases "phases_left (snd s) = 0")
    case False
    define t where "t = dispatch_next rd deps k (ticks n) answers (snd s) (fst s)"
    have "send_step rd ?s \<lparr> sy_db = fst t, sy_workers = [(k, snd t)] \<rparr>"
      using send_step.work [of 0 ?s k "snd s" deps rd "ticks n" answers "fst t" "snd t"] assms by (simp add: t_def)
    then show ?thesis
      using Suc.IH [of t] False by (auto simp: t_def [symmetric] intro: converse_rtranclp_into_rtranclp [where r = "send_step rd"])
  qed simp
qed simp

lemma dispatch_steps:
  assumes "window_positive deps" "dispatchOutboundMessage rd deps k answers ticks db = (db', ph)"
  shows "(send_step rd)\<^sup>*\<^sup>* \<lparr> sy_db = db, sy_workers = [] \<rparr> \<lparr> sy_db = db', sy_workers = [(k, ph)] \<rparr>"
proof -
  have "send_step rd \<lparr> sy_db = db, sy_workers = [] \<rparr> \<lparr> sy_db = db, sy_workers = [(k, At_start)] \<rparr>"
    using send_step.arrive [of rd "\<lparr> sy_db = db, sy_workers = [] \<rparr>" k] by simp
  then show ?thesis
    using run_steps [OF assms(1), of rd "(db, At_start)" k answers ticks 10] assms(2)
    by (simp add: dispatchOutboundMessage_def converse_rtranclp_into_rtranclp [where r = "send_step rd"])
qed

end
