(* ===== verification/SendDemo.thy ===== *)
theory SendDemo
  imports SendWorkers RampProperties SendingWindow
begin

text \<open>
  The state of the examples of the send path: one prepared human reply of a connected mailbox,
  at nine on a Monday in Phoenix, with parts that are not modelled answering what lets it go.
\<close>

definition send_fence :: OutboundFenceRow where
  "send_fence = prepared_row ''f1'' (envelope0\<lparr> en_originKind := Origin_draft, en_enrollmentId := None,
     en_stepExecutionId := None, en_draftId := Some ''d1'', en_templateVersionId := None,
     en_sourceZone := ''America/Phoenix'' \<rparr>) ''rule'' None 1000"

definition send_mailbox :: Mailbox where
  "send_mailbox = \<lparr> mb_id = ''m1'', mb_ownerUserId = ''u1'', mb_status = ''connected'', mb_emailAddress = ''me@b.com'',
     mb_providerAccountId = Some ''acc'', mb_generation = 1, mb_kind = ''outreach'', mb_syncState = ''ready'',
     mb_coverageWatermarkAt = Some 1767628800000, mb_connectedAt = 0 \<rparr>"

definition send_domain :: SendingDomain where
  "send_domain = \<lparr> sd_domain = ''b.com'', sd_isPrimary = True, sd_spfPass = True, sd_dkimPass = True, sd_dmarcPass = True,
     sd_postmasterReviewedAt = Some 0, sd_automatedSendingEnabled = True, sd_id = ''dom'',
     sd_authenticationCheckedAt = Some 0, sd_automatedSendingEnabledAt = Some 0 \<rparr>"

definition send_outbound :: OutboundDb where
  "send_outbound = appendEvent 1000 ''f1'' None Prepared None ''system:worker'' []
     (insert_fence send_fence (empty_db\<lparr> mailboxes := [send_mailbox], sending_domains := [send_domain] \<rparr>))"

definition send_db :: "unit SendDb" where
  "send_db = \<lparr> sx_outbound = send_outbound, sx_ramp = ramp_db0\<lparr> rd_mailboxes := [(''m1'', 1767571200000)] \<rparr>, sx_holds = [],
     sx_incidents = [], sx_permissions = [], sx_calendars = [], sx_suppressions = [],
     sx_sendingEnabled = Some \<lparr> se_enabled = True, se_releaseGateReference = Some ''gate'' \<rparr>,
     sx_postalAddress = None, sx_recordedAddresses = [], sx_rest = (), sx_calls = [] \<rparr>"

definition send_rd :: "unit SendCallees" where
  "send_rd = \<lparr> ir_activeMember = (\<lambda>_ _. True), ir_token = (\<lambda>_ _. Some (0, None)), ir_sha256 = (\<lambda>_. ''h''),
     gt_env = env0\<lparr> env_tz := phoenix \<rparr>, gt_zoneDay = zone0, gt_suppressionSource = (\<lambda>_ _. None),
     gt_composeEligibility = (\<lambda>_ _. None), gt_verifyMeetingFence = (\<lambda>_ _ _. None),
     gt_verifyRoutineReplyFence = (\<lambda>_ _ _. None), gt_verifyCampaignOpeningFence = (\<lambda>_ _. True),
     gt_decideHumanReply = (\<lambda>_ _ _. acceptSend ()),
     gt_bindRelease = (\<lambda>_ ref _ _. Inr \<lparr> rl_attestation = ''att'', rl_releaseGateReference = ref \<rparr>),
     sc_refreshToken = (\<lambda>_ _. Some ''rt''), sc_humanReplyApprovalIsLive = (\<lambda>_ _ _. True),
     sc_consumeHumanReplyApproval = (\<lambda>_ _. ((), True)), sc_refuseHumanReplyApproval = (\<lambda>_ _ _ _. ()),
     sc_directSendWithinQuietWindow = (\<lambda>_ _ _ _. False), sc_humanReplyEnvelope = (\<lambda>_ _. None),
     sc_routineReplyThreading = (\<lambda>_ _. None), sc_regularSequenceThreading = (\<lambda>_ _. Inr None),
     sc_markMeetingDraftSubmitted = (\<lambda>_ _. ((), True)), sc_recordMeetingDelivery = (\<lambda>_ _ _ _. ()),
     sc_recordRoutineDelivery = (\<lambda>_ _. ()), sc_applyHumanReplyDelivery = (\<lambda>db _. db) \<rparr>"

definition send_deps :: OutboundSendDeps where
  "send_deps = \<lparr> gd_humanReplyRevision = None, gd_deploymentSendingEnabled = Some True, gd_workerImageDigest = None,
     gd_production = Some True, sd_actor = None, sd_reconcileWindowHours = None, sd_footerPolicy = None \<rparr>"

definition send_tick :: "nat \<Rightarrow> Tick" where
  "send_tick n = \<lparr> tk_now = 1767628800000, tk_clock = 1767628800000, tk_token = ''tok'', tk_touch = ''x1'', tk_epoch = ''e1'',
     tk_hold = ''h1'', tk_incident = ''i1'' \<rparr>"

definition send_answers :: GmailAnswers where
  "send_answers = \<lparr> ga_refreshedAt = 1767628800000, ga_refresh = Refresh_ok ''at'', ga_send = Gmail_sent ''p1'' ''th1'' \<rparr>"


lemma send_outbound_inv: "fence_inv send_outbound"
  unfolding send_outbound_def
  by (rule prim_steps_inv [OF _ fence_inv_empty [of "empty_db\<lparr> mailboxes := [send_mailbox], sending_domains := [send_domain] \<rparr>"]],
      rule logged_insert [of send_fence]) (simp_all add: send_fence_def empty_db_def envelope0_def)

lemma send_fence_inv: "fence_inv (sx_outbound send_db)"
  using send_outbound_inv by (simp add: send_db_def)

lemma send_hook: "delivery_keeps_fences send_rd"
  by (simp add: delivery_keeps_fences_def send_rd_def)

lemma send_window: "window_positive send_deps"
  by (simp add: window_positive_def send_deps_def)

end
