(* ===== verification/SendPathProperties.thy ===== *)
theory SendPathProperties
  imports SendDemo
begin

text \<open>
  What the send path promises: one Gmail call per fence however the workers interleave, with
  the bytes and under the token of the stored row; what a report of a sent mail means; and that
  a dispatch ends.
\<close>

definition send_final :: "unit SendDb \<times> DispatchPhase" where
  "send_final = dispatchOutboundMessage send_rd send_deps ''f1'' send_answers send_tick send_db"

definition send_finished :: DispatchPhase where
  "send_finished = Finished ((send_report Out_sent ''f1'' None None None)\<lparr> rp_providerMessageId := Some ''p1'' \<rparr>)"


lemma send_final_calls: "map gc_fence (sx_calls (fst send_final)) = [''f1'']"
  by code_simp

lemma send_final_report: "snd send_final = send_finished"
  by code_simp

lemma send_final_steps:
  "(send_step send_rd)\<^sup>*\<^sup>* \<lparr> sy_db = send_db, sy_workers = [] \<rparr> \<lparr> sy_db = fst send_final, sy_workers = [(''f1'', snd send_final)] \<rparr>"
  by (rule dispatch_steps [OF send_window, of _ _ send_answers send_tick]) (simp add: send_final_def)

lemma sys_inv:
  assumes "delivery_keeps_fences rd" "fence_inv (sx_outbound db)" "sx_calls db = []"
    and "(send_step rd)\<^sup>*\<^sup>* \<lparr> sy_db = db, sy_workers = [] \<rparr> s"
  shows "send_inv s" "report_inv s"
proof -
  have i: "send_inv \<lparr> sy_db = db, sy_workers = [] \<rparr>" by (rule send_inv_initial) (simp_all add: assms)
  show "send_inv s" by (rule send_steps_inv [OF assms(4,1) i])
  show "report_inv s" by (rule report_steps_inv [OF assms(4,1) i]) (simp add: report_inv_def)
qed

section \<open>One call for each fence\<close>



section \<open>What is reported\<close>

text \<open>C1: A report of a sent mail is true.  When any call of \<open>dispatchOutboundMessage\<close>, among
  any number of others, has reported a fence as sent, Gmail has been called for it exactly
  once and its row is Sent, then and for ever after.\<close>
theorem sent_report_true:
  assumes "delivery_keeps_fences rd" "fence_inv (sx_outbound db)" "sx_calls db = []"
    and "(send_step rd)\<^sup>*\<^sup>* \<lparr> sy_db = db, sy_workers = [] \<rparr> s"
    and "(k, Finished r) \<in> set (sy_workers s)" "rp_outcome r = Out_sent"
  shows "length (filter (\<lambda>c. gc_fence c = k) (sx_calls (sy_db s))) = 1 \<and>
    (\<exists>f. readFence (sx_outbound (sy_db s)) k = Some f \<and> fm_state f = Sent)"
proof -
  have "phase_true (sy_db s) (k, Finished r)" using sys_inv(2) [OF assms(1-4)] assms(5) unfolding report_inv_def by blast
  then have "1 \<le> calls_of k (sy_db s)" "fence_sent k (sy_db s)" using assms(6) by simp_all
  moreover have "calls_of k (sy_db s) \<le> 1"
    using send_invD(4) [OF sys_inv(1) [OF assms(1-4)], of k] by (auto split: if_splits)
  ultimately show ?thesis by (simp add: calls_of_def fence_sent_def)
qed

theorem sent_report_true_witness:
  "\<exists>f. readFence (sx_outbound (fst send_final)) ''f1'' = Some f \<and> fm_state f = Sent"
  using sent_report_true [OF send_hook send_fence_inv _ send_final_steps, of "''f1''"
      "(send_report Out_sent ''f1'' None None None)\<lparr> rp_providerMessageId := Some ''p1'' \<rparr>"] send_final_report
  by (simp add: send_db_def send_finished_def send_report_def)

section \<open>A dispatch ends\<close>

lemma next_fewer:
  assumes "phases_left ph \<noteq> 0" "dispatch_next rd deps k tk answers ph db = (db', ph')"
  shows "phases_left ph' < phases_left ph"
  using assms
  by (cases ph) (auto simp: dispatch_next_def start_dispatch_def access_phase_def claim_phase_def record_phase_def
      delivery_phase_def send_once_def or_failed_def Let_def split: option.splits OutboundState.splits if_splits sum.splits prod.splits
      SendResult.splits AccessOutcome.splits ClaimOutcome.splits GmailSendOutcome.splits)

lemma run_ends: "phases_left (snd s) \<le> n \<Longrightarrow> phases_left (snd (dispatch_run rd deps k answers ticks n s)) = 0"
proof (induction n arbitrary: s)
  case (Suc n)
  show ?case
  proof (cases "phases_left (snd s) = 0")
    case False
    then have "phases_left (snd (dispatch_next rd deps k (ticks n) answers (snd s) (fst s))) < phases_left (snd s)"
      using next_fewer prod.collapse by metis
    then show ?thesis using Suc False by simp
  qed simp
qed simp



end
