(* ===== verification/ClaimProperties.thy ===== *)
theory ClaimProperties
  imports SendDemo
begin

text \<open>
  What the transaction that claims a fence (\<open>recheckAndClaim\<close>, \<open>outbound/send.ts\<close>) was
  permitted by, and what it counts against the day's cap.
\<close>

section \<open>The counts of the days\<close>

definition sent_on :: "'w SendDb \<Rightarrow> uuid \<Rightarrow> bdate \<Rightarrow> nat" where
  "sent_on db m date = (case sql_one (day_at m date) (rd_days (sx_ramp db)) of None \<Rightarrow> 0 | Some d \<Rightarrow> dy_automatedSent d)"

text \<open>The counts of the days are as they were, and the days keep their key.\<close>
definition same_counts :: "'w SendDb \<Rightarrow> 'w SendDb \<Rightarrow> bool" where
  "same_counts db db' \<longleftrightarrow> (\<forall>m date. sent_on db' m date = sent_on db m date) \<and>
     (distinct (map day_key (rd_days (sx_ramp db))) \<longrightarrow> distinct (map day_key (rd_days (sx_ramp db'))))"

lemma same_countsI: "rd_days (sx_ramp db') = rd_days (sx_ramp db) \<Longrightarrow> same_counts db db'"
  by (simp add: same_counts_def sent_on_def)

lemma same_counts_trans: "same_counts a b \<Longrightarrow> same_counts b c \<Longrightarrow> same_counts a c"
  by (simp add: same_counts_def)

lemma with_outbound_ramp [simp]: "sx_ramp (fst (with_outbound f db)) = sx_ramp db"
  by (simp add: with_outbound_def split: prod.split)

lemma with_outbound_ramp_eq: "with_outbound f db = (db', x) \<Longrightarrow> sx_ramp db' = sx_ramp db"
  using with_outbound_ramp [of f db] by simp

lemma update_day_keys: "map day_key (sql_update (day_at m date) (\<lambda>d. d\<lparr> dy_capGranted := g d \<rparr>) xs) = map day_key xs"
  by (simp add: sql_update_def day_key_def)

lemma update_day_one: "sql_one (day_at m date) (sql_update (day_at m' date') (\<lambda>d. d\<lparr> dy_capGranted := g d \<rparr>) xs) =
    map_option (\<lambda>x. if day_at m' date' x then x\<lparr> dy_capGranted := g x \<rparr> else x) (sql_one (day_at m date) xs)"
  using sql_one_update_same [of "day_at m' date'" day_key "\<lambda>d. d\<lparr> dy_capGranted := g d \<rparr>" "(m, date)" xs] by (simp add: day_key_def)

lemma open_day_count:
  "(case sql_one (day_at m date) (rd_days (openSendDay m' date' cap r)) of None \<Rightarrow> 0 | Some d \<Rightarrow> dy_automatedSent d) =
   (case sql_one (day_at m date) (rd_days r) of None \<Rightarrow> 0 | Some d \<Rightarrow> dy_automatedSent d)"
  by (auto simp: openSendDay_def update_day_def Let_def sql_one_append update_day_one split: option.split)

lemma open_day_keys: "distinct (map day_key (rd_days r)) \<Longrightarrow> distinct (map day_key (rd_days (openSendDay m date cap r)))"
proof (cases "sql_one (day_at m date) (rd_days r)")
  case None
  assume keys: "distinct (map day_key (rd_days r))"
  have "(m, date) \<notin> day_key ` set (rd_days r)" using None by (auto simp: sql_one_None day_key_def)
  then show ?thesis using keys by (simp add: openSendDay_def None Let_def) (simp add: day_key_def)
qed (simp add: openSendDay_def update_day_def update_day_keys)

lemma open_day_counts: "same_counts db (fst (with_ramp (\<lambda>r. (openSendDay m date cap r, x)) db))"
  using open_day_count [of _ _ m date cap "ramp_view db"] open_day_keys [of "ramp_view db" m date cap]
  by (simp add: same_counts_def sent_on_def with_ramp_def ramp_view_def)

lemma ensured_days: "ensureRamp z now fresh m r = (r', ramp) \<Longrightarrow> rd_days r' = rd_days r"
  using ensure_days [of z now fresh m r] by simp

lemma ensure_counts: "with_ramp (ensureRamp z now fresh m) db = (db1, ramp) \<Longrightarrow> same_counts db db1"
  by (intro same_countsI) (auto simp: with_ramp_def ramp_view_def split: prod.splits dest!: ensured_days)

lemma opened_day: "\<exists>d. sql_one (day_at m date) (rd_days (sx_ramp (fst (with_ramp (\<lambda>r. (openSendDay m date cap r, x)) db)))) = Some d"
  by (auto simp: with_ramp_def openSendDay_def Let_def update_day_def update_day_one sql_one_append split: option.split)

text \<open>What a plan says of the ramp and the day it was made on.\<close>
lemma capacity_accepts:
  assumes "decide_capacity rd tk fence mailbox incident permission domain release db = (db', r)"
  shows "same_counts db db' \<and> (\<forall>plan. r = Accept plan \<longrightarrow> incident = None \<and> plan_release plan = release \<and>
     plan_mailbox plan = planMailbox mailbox \<and> plan_domain plan = domain \<and>
     plan_cap plan = effectiveDailyCap (plan_ramp plan) \<and>
     sql_one (day_at (mb_id mailbox) (gt_zoneDay rd (tk_clock tk))) (rd_days (sx_ramp db')) = Some (plan_day plan))"
proof -
  let ?m = "mb_id mailbox" and ?date = "gt_zoneDay rd (tk_clock tk)"
  obtain db1 ramp where e: "with_ramp (ensureRamp (gt_zoneDay rd) (tk_clock tk) (tk_epoch tk) ?m) db = (db1, ramp)" by fastforce
  define db2 where "db2 = fst (with_ramp (\<lambda>r. (openSendDay ?m ?date (effectiveDailyCap ramp) r, ())) db1)"
  note c1 = ensure_counts [OF e]
  have c2: "same_counts db db2" unfolding db2_def by (rule same_counts_trans [OF c1 open_day_counts])
  obtain d where d: "sql_one (day_at ?m ?date) (rd_days (sx_ramp db2)) = Some d" 
    using opened_day [of ?m ?date "effectiveDailyCap ramp" "()" db1] unfolding db2_def by blast
  have cases: "(db' = db1 \<and> (\<exists>a b. r = Refuse a b)) \<or> (db' = db2 \<and> (\<exists>a b. r = Refuse a b)) \<or>
      (incident = None \<and> db' = db2 \<and> r = Accept \<lparr> plan_fence = fence, plan_mailbox = planMailbox mailbox,
         plan_domain = domain, plan_ramp = ramp, plan_day = d, plan_cap = effectiveDailyCap ramp, plan_release = release \<rparr>)"
    using assms
    unfolding decide_capacity_def Let_def e prod.case db2_def [symmetric] d option.sel with_detail_def acceptSend_def
    by (simp split: option.splits if_splits) fastforce+
  then show ?thesis using c1 c2 d by auto
qed

lemma capacity_counts:
  "decide_capacity rd tk fence mailbox incident permission domain release db = (db', r) \<Longrightarrow> same_counts db db'"
  using capacity_accepts by blast

section \<open>The decision\<close>

lemma decide_accepts:
  assumes "decideSend rd tk deps fence db = Inr (db', r)"
  shows "same_counts db db'"
  using assms
  by (auto simp: decideSend_def same_countsI dest: capacity_counts elim!: and_thenE split: SendResult.splits prod.splits option.splits if_splits)

text \<open>The gate accepts a mailbox that is connected, without incident, to a recipient and firm
  that are not suppressed; under the attestation; from an authenticated domain; in the window.\<close>
lemma decide_accept_cases:
  assumes "decideSend rd tk deps fence db = Inr (db', Accept plan)"
  obtains mailbox permission domain where
    "decide_never rd (tk_clock tk) deps fence db = Accept (mailbox, None, permission)"
    "decide_attested rd deps db = Accept (plan_release plan)" "primary_domain db = Some domain"
    "authenticationPasses domain" "sd_automatedSendingEnabled domain"
    "decide_window rd (tk_clock tk) fence permission db = Inr (Accept ())"
    "plan_mailbox plan = planMailbox mailbox" "plan_cap plan = effectiveDailyCap (plan_ramp plan)"
    "sql_one (day_at (mb_id mailbox) (gt_zoneDay rd (tk_clock tk))) (rd_days (sx_ramp db')) = Some (plan_day plan)"
proof -
  obtain mailbox incident permission release domain where g:
    "decide_never rd (tk_clock tk) deps fence db = Accept (mailbox, incident, permission)"
    "decide_attested rd deps db = Accept release" "primary_domain db = Some domain"
    "authenticationPasses domain" "sd_automatedSendingEnabled domain"
    "decide_window rd (tk_clock tk) fence permission db = Inr (Accept ())"
    "decide_capacity rd tk fence mailbox incident permission domain release db = (db', Accept plan)"
    using assms
    by (auto simp: decideSend_def lift_clock_def elim!: and_thenE
        split: SendResult.splits prod.splits option.splits if_splits sum.splits)
  then show ?thesis using that capacity_accepts [OF g(7)] by simp
qed

section \<open>The claim\<close>

lemma spend_ramp: "spend_permission tk p db = (db', r) \<Longrightarrow> sx_ramp db' = sx_ramp db"
  by (auto simp: spend_permission_def consumeFollowUpPermission_def split: option.splits if_splits prod.splits)

lemma spend_and_commit_ramp:
  "spend_and_commit rd tk db0 fence permission plan claim threading db = (db', Claimed plan' c t) \<Longrightarrow>
   sx_ramp db' = sx_ramp db \<and> plan' = plan \<and> c = claim"
  by (auto simp: spend_and_commit_def stopped_def rolled_back_def set_rest_def split: prod.splits option.splits if_splits
      dest!: spend_ramp)

lemma reserve_touch_ramp: "reserve_touch rd tk fence db = Inr (db', x) \<Longrightarrow> sx_ramp db' = sx_ramp db"
  by (auto simp: reserve_touch_def elim!: and_thenE split: option.splits sum.splits prod.splits)

lemma footer_ramp: "reconcileFenceFooter rd tk deps fence db = (db', r) \<Longrightarrow> sx_ramp db' = sx_ramp db"
  by (auto simp: reconcileFenceFooter_def Let_def split: if_splits option.splits ComposeSendBodyDecision.splits
      prod.splits SendResult.splits dest: with_outbound_ramp_eq)

lemma claim_holds_ramp:
  "claim_holds rd tk deps fence reason detail db = (db', r) \<Longrightarrow> sx_ramp db' = sx_ramp db \<and> (\<forall>p c t. r \<noteq> Claimed p c t)"
  by (auto simp: claim_holds_def split: prod.splits dest: with_outbound_ramp_eq)

lemma reserve_claimed:
  assumes "reserve_and_claim rd tk deps db0 fence permission plan' t' db = (db', Claimed plan c t)"
  shows "plan' = plan \<and> t' = t \<and> (\<exists>db1 db2. with_ramp (countAutomatedSend (pm_id (plan_mailbox plan))
       (dy_businessDate (plan_day plan)) (plan_cap plan)) db = (db1, True) \<and> sx_ramp db2 = sx_ramp db1 \<and>
     with_outbound (claimForDispatch (gt_env rd) (tk_now tk) (tk_token tk) (fm_id fence) (sd_actor deps)
       (Some (iso_of_day (dy_businessDate (plan_day plan)))) [(''releaseAdmission.attestation'', rl_attestation (plan_release plan)),
         (''releaseAdmission.releaseGateReference'', rl_releaseGateReference (plan_release plan))]) db1 = (db2, Accept c) \<and>
     sx_ramp db' = sx_ramp db2)"
proof -
  obtain db1 ok where count: "with_ramp (countAutomatedSend (pm_id (plan_mailbox plan'))
      (dy_businessDate (plan_day plan')) (plan_cap plan')) db = (db1, ok)" by fastforce
  obtain db2 r where claim: "with_outbound (claimForDispatch (gt_env rd) (tk_now tk) (tk_token tk) (fm_id fence) (sd_actor deps)
      (Some (iso_of_day (dy_businessDate (plan_day plan')))) [(''releaseAdmission.attestation'', rl_attestation (plan_release plan')),
        (''releaseAdmission.releaseGateReference'', rl_releaseGateReference (plan_release plan'))]) db1 = (db2, r)" by fastforce
  have ok: "ok"
    using assms by (cases ok) (auto simp: reserve_and_claim_def Let_def count dest!: claim_holds_ramp)
  then obtain c' where r: "r = Accept c'" "spend_and_commit rd tk db0 fence permission plan' c' t' db2 = (db', Claimed plan c t)"
    using assms by (cases r) (auto simp: reserve_and_claim_def Let_def count claim rolled_back_def)
  have "t' = t" using r(2)
    by (auto simp: spend_and_commit_def stopped_def rolled_back_def set_rest_def split: prod.splits option.splits if_splits)
  then show ?thesis
    using spend_and_commit_ramp [OF r(2)] count claim ok r(1) with_outbound_ramp_eq [OF claim] by auto
qed

text \<open>The decisions a claim went through, one after the other.\<close>
lemma recheck_claimed:
  assumes "recheckAndClaim rd tk deps k precheck db = Inr (db', Claimed plan c t)"
  obtains fence db1 db2 db3 f rewritten where "readFence (sx_outbound db) k = Some fence" "fm_state fence = Prepared"
    "en_originKind (fm_envelope fence) = Origin_draft \<Longrightarrow>
       sc_humanReplyApprovalIsLive rd db (fm_id fence) (gd_humanReplyRevision deps)"
    "decideSend rd tk (gate_deps deps) fence db = Inr (db1, Accept plan)"
    "claim_stop rd tk precheck plan fence (lockPermissionForClaim db (fm_id fence)) db1 = None"
    "reserve_touch rd tk fence db1 = Inr (db2, None)"
    "reconcileFenceFooter rd tk deps fence db2 = (db3, Footer_reconciled f rewritten)"
    "gt_verifyMeetingFence rd db3 (fm_id fence) (tk_clock tk) = None"
    "reserve_and_claim rd tk deps db fence (lockPermissionForClaim db (fm_id fence)) plan t db3 = (db', Claimed plan c t)"
proof -
  obtain fence where f: "readFence (sx_outbound db) k = Some fence" "fm_state fence = Prepared"
      "en_originKind (fm_envelope fence) = Origin_draft \<Longrightarrow>
         sc_humanReplyApprovalIsLive rd db (fm_id fence) (gd_humanReplyRevision deps)"
    using assms by (auto simp: recheckAndClaim_def lockFenceForClaim_def rolled_back_def stopped_def
        split: option.splits if_splits)
  let ?permission = "lockPermissionForClaim db (fm_id fence)"
  obtain db1 r where d: "decideSend rd tk (gate_deps deps) fence db = Inr (db1, r)"
    using assms f by (auto simp: recheckAndClaim_def lockFenceForClaim_def Let_def elim!: and_thenE split: if_splits)
  have gate: "and_then (decideSend rd tk (gate_deps deps) fence db) h = h (db1, r)" for h :: "_ \<Rightarrow> SendError + 'd"
    by (simp add: d)
  have go: "(case r of Refuse reason detail \<Rightarrow> Inr (claim_holds rd tk deps fence reason detail db1)
      | Accept plan \<Rightarrow> (case claim_stop rd tk precheck plan fence ?permission db1 of
           Some (refusal, detail) \<Rightarrow> Inr (rolled_back db refusal (Some detail))
         | None \<Rightarrow> and_then (reserve_touch rd tk fence db1) (\<lambda>(db2, refused). case refused of
               Some reason \<Rightarrow> Inr (stopped db reason)
             | None \<Rightarrow> (case reconcileFenceFooter rd tk deps fence db2 of
                 (db3, Footer_refused reason detail) \<Rightarrow> Inr (claim_holds rd tk deps fence reason (Some detail) db3)
               | (db3, Footer_reconciled f rewritten) \<Rightarrow>
                   Inr (claim_composed rd tk deps db fence ?permission plan db3))))) = Inr (db', Claimed plan c t)"
    using assms f by (auto simp: recheckAndClaim_def lockFenceForClaim_def Let_def gate split: if_splits)
  have held: "claim_holds rd tk deps fence reason detail d \<noteq> (db', Claimed plan c t)" for reason detail d
    using claim_holds_ramp by blast
  obtain plan' db2 db3 g rewritten where s: "r = Accept plan'" "claim_stop rd tk precheck plan' fence ?permission db1 = None"
      "reserve_touch rd tk fence db1 = Inr (db2, None)"
      "reconcileFenceFooter rd tk deps fence db2 = (db3, Footer_reconciled g rewritten)"
      "claim_composed rd tk deps db fence ?permission plan' db3 = (db', Claimed plan c t)"
    using go held
    by (auto simp: rolled_back_def stopped_def elim!: and_thenE split: SendResult.splits option.splits prod.splits
        FenceFooterReconciliation.splits)
  then obtain t' where v: "gt_verifyMeetingFence rd db3 (fm_id fence) (tk_clock tk) = None"
      "reserve_and_claim rd tk deps db fence ?permission plan' t' db3 = (db', Claimed plan c t)"
    by (auto simp: claim_composed_def stopped_def rolled_back_def split: option.splits sum.splits)
  have "plan' = plan" "t' = t" using reserve_claimed [OF v(2)] by blast+
  then show ?thesis using that f d s v by blast
qed

lemma count_refused:
  "with_ramp (countAutomatedSend m date cap) db = (db', False) \<Longrightarrow> rd_days (sx_ramp db') = rd_days (sx_ramp db)"
  by (auto simp: with_ramp_def countAutomatedSend_def Let_def ramp_view_def sql_count_0 split: prod.splits
      intro!: sql_update_none)

lemma count_day: "sql_one (day_at m' date') (rd_days (fst (countAutomatedSend m date cap r))) =
    map_option (\<lambda>d. if day_at m date d \<and> int (dy_automatedSent d) < cap then d\<lparr> dy_automatedSent := dy_automatedSent d + 1 \<rparr> else d)
      (sql_one (day_at m' date') (rd_days r))"
  using sql_one_update_same [of "\<lambda>d. day_at m date d \<and> int (dy_automatedSent d) < cap" day_key
      "\<lambda>d. d\<lparr> dy_automatedSent := dy_automatedSent d + 1 \<rparr>" "(m', date')" "rd_days r"]
  by (simp add: countAutomatedSend_def Let_def day_key_def)

lemma count_accepted:
  assumes "with_ramp (countAutomatedSend m date cap) db = (db', True)" "distinct (map day_key (rd_days (sx_ramp db)))"
    and "sql_one (day_at m date) (rd_days (sx_ramp db)) = Some d"
  shows "int (dy_automatedSent d) < cap \<and>
    (\<forall>m' date'. sent_on db' m' date' = sent_on db m' date' + (if m' = m \<and> date' = date then 1 else 0))"
proof -
  let ?r = "countAutomatedSend m date cap (ramp_view db)"
  have r: "sx_ramp db' = fst ?r" "snd ?r"
    using assms(1) by (auto simp: with_ramp_def split: prod.splits)
  have days: "rd_days (ramp_view db) = rd_days (sx_ramp db)" by (simp add: ramp_view_def)
  have cap: "int (dy_automatedSent d) < cap"
    using countAutomatedSend_read(1) [of m date "ramp_view db" d cap] r(2) assms(2,3) days by simp
  have "sent_on db' m' date' = sent_on db m' date' + (if m' = m \<and> date' = date then 1 else 0)" for m' date'
    using count_day [of m' date' m date cap "ramp_view db"] cap assms(3)
    by (auto simp: sent_on_def r(1) days split: option.split dest!: sql_one_Some)
  then show ?thesis using cap by blast
qed

lemma composed_held:
  assumes "claim_composed rd tk deps db0 fence permission plan db = (db', Claim_held f reason detail retry)"
  shows "rd_days (sx_ramp db') = rd_days (sx_ramp db)"
  using assms
  by (auto simp: claim_composed_def reserve_and_claim_def spend_and_commit_def stopped_def rolled_back_def Let_def
      split: option.splits sum.splits prod.splits bool.splits SendResult.splits if_splits
      dest!: claim_holds_ramp count_refused)

lemma held_counts:
  assumes "recheckAndClaim rd tk deps k precheck db = Inr (db', Claim_held f reason detail retry)"
  shows "same_counts db db'"
proof -
  have days: "same_counts db d" if "same_counts db d1" "rd_days (sx_ramp d) = rd_days (sx_ramp d1)" for d d1
    using that same_counts_trans same_countsI by metis
  show ?thesis
    using assms
    by (auto simp: recheckAndClaim_def lockFenceForClaim_def rolled_back_def stopped_def Let_def elim!: and_thenE
        split: option.splits if_splits SendResult.splits prod.splits FenceFooterReconciliation.splits
        dest!: reserve_touch_ramp footer_ramp composed_held claim_holds_ramp decide_accepts) (erule days, simp)+
qed

lemma never_mailbox:
  "decide_never rd now deps fence db = Accept (mailbox, incident, permission) \<Longrightarrow>
   mailbox_of db (en_mailboxId (fm_envelope fence)) = Some mailbox"
  by (auto simp: decide_never_def with_detail_def Let_def split: if_splits option.splits SendResult.splits OriginKind.splits)

lemma cap_ceiling: "effectiveDailyCap ramp \<le> int RAMP_HARD_CEILING"
  by (auto simp: effectiveDailyCap_def Let_def RAMP_HARD_CEILING_def)


definition send_precheck :: SendPlan where
  "send_precheck = \<lparr> plan_fence = send_fence, plan_mailbox = planMailbox send_mailbox, plan_domain = send_domain,
     plan_ramp = ramp30, plan_day = \<lparr> dy_mailboxId = ''m1'', dy_businessDate = 20458, dy_automatedSent = 0, dy_bounces = 0,
       dy_optOuts = 0, dy_providerErrors = 0, dy_capGranted = 5, dy_healthy = None, dy_closedAt = None,
       dy_recoveryEpochId = None, dy_recoveryCap = None, dy_recoveryStage = None, dy_recoveryCredited = False \<rparr>,
     plan_cap = 5, plan_release = \<lparr> rl_attestation = ''att'', rl_releaseGateReference = ''gate'' \<rparr> \<rparr>"

lemma send_claim_run: "(case recheckAndClaim send_rd (send_tick 0) send_deps ''f1'' send_precheck send_db of
    Inr (db, Claimed plan c threading) \<Rightarrow> en_mailboxId (fm_envelope (claim_fence c)) = ''m1'' | _ \<Rightarrow> False)"
  by code_simp

lemma send_claim: "\<exists>db plan c threading. recheckAndClaim send_rd (send_tick 0) send_deps ''f1'' send_precheck send_db =
    Inr (db, Claimed plan c threading) \<and> en_mailboxId (fm_envelope (claim_fence c)) = ''m1''"
  using send_claim_run by (auto split: sum.splits prod.splits ClaimOutcome.splits)


section \<open>What permits a claim\<close>

lemma sort_key_Nil [simp]: "sort_key f xs = [] \<longleftrightarrow> xs = []"
  using length_sort [of f xs] by (metis length_0_conv)

text \<open>A fence of the mailbox that is in flight, or of an outcome nobody knows, is an incident.\<close>
lemma no_incident:
  assumes "providerIncidentRefusal rd db m now = None"
  shows "\<forall>f\<in>set (outbound_messages (sx_outbound db)). en_mailboxId (fm_envelope f) = m \<longrightarrow> \<not> unresolved_fence f"
    and "\<forall>i\<in>set (sx_incidents db). pi_mailboxId i = m \<longrightarrow> pi_resolvedAt i \<noteq> None"
proof -
  have none: "readProviderIncidents rd db m now = []"
    using assms by (auto simp: providerIncidentRefusal_def refusal_of_incidents_def split: if_splits)
  have "filter (\<lambda>f. en_mailboxId (fm_envelope f) = m \<and> unresolved_fence f) (outbound_messages (sx_outbound db)) = []"
    using none by (simp add: readProviderIncidents_def Let_def del: filter_empty_conv)
  then show "\<forall>f\<in>set (outbound_messages (sx_outbound db)). en_mailboxId (fm_envelope f) = m \<longrightarrow> \<not> unresolved_fence f"
    by (auto simp: filter_empty_conv)
  have "filter (\<lambda>i. pi_mailboxId i = m \<and> pi_resolvedAt i = None) (sx_incidents db) = []"
    using none by (simp add: readProviderIncidents_def Let_def del: filter_empty_conv)
  then show "\<forall>i\<in>set (sx_incidents db). pi_mailboxId i = m \<longrightarrow> pi_resolvedAt i \<noteq> None"
    by (auto simp: filter_empty_conv)
qed

lemma not_suppressed:
  assumes "firstSuppressed db keys channel = None" "s \<in> set (sx_suppressions db)" "es_channel s = channel \<or> es_channel s = ''all''"
  shows "(es_scope s, es_canonicalKey s) \<notin> set (map (\<lambda>(scope, key). (scope, js_lower key)) keys)"
proof
  let ?hits = "filter (\<lambda>s. (es_scope s, es_canonicalKey s) \<in> set (map (\<lambda>(scope, key). (scope, js_lower key)) keys) \<and>
      (es_channel s = channel \<or> es_channel s = ''all'')) (sx_suppressions db)"
  assume "(es_scope s, es_canonicalKey s) \<in> set (map (\<lambda>(scope, key). (scope, js_lower key)) keys)"
  then have "s \<in> set ?hits" using assms(2,3) by auto
  moreover have "?hits = []"
    using assms(1) by (simp add: firstSuppressed_def Let_def del: filter_empty_conv split: list.splits)
  ultimately have "s \<in> set []" by (simp only:)
  then show False by simp
qed

lemma never_cases:
  assumes "decide_never rd now deps fence db = Accept (mailbox, None, permission)"
  shows "mb_status mailbox = ''connected'' \<and> providerIncidentRefusal rd db (mb_id mailbox) now = None \<and>
    firstSuppressed db [(''firm'', en_firmId (fm_envelope fence)), (''handle'', en_recipientAddress (fm_envelope fence))] ''email'' = None \<and>
    (case en_originKind (fm_envelope fence) of
       Origin_draft \<Rightarrow> gt_decideHumanReply rd db fence (gd_humanReplyRevision deps) = Accept ()
     | Origin_step_execution \<Rightarrow> (\<exists>p. decideStepPermission rd db fence mailbox now = Accept p)
     | Origin_standing_booking \<Rightarrow> False)"
  using assms
  by (auto simp: decide_never_def with_detail_def refuseSend_def Let_def
      split: if_splits option.splits SendResult.splits OriginKind.splits)

text \<open>Whatever calendar a step was frozen with, the workspace's current holidays are in it.\<close>
lemma window_open:
  assumes "decide_window rd now fence permission db = Inr (Accept ())"
  shows "\<exists>calendar. insideSendingWindow (env_tz (gt_env rd)) now (en_sourceZone (fm_envelope fence)) calendar
      (is_prospecting permission) = Inr True \<and> set (hc_dates (currentHolidayCalendar db)) \<subseteq> set (hc_dates calendar)"
proof -
  let ?calendar = "case permission of Some p \<Rightarrow> dispatchHolidayCalendar db (sp_enrollment p) | None \<Rightarrow> currentHolidayCalendar db"
  have "insideSendingWindow (env_tz (gt_env rd)) now (en_sourceZone (fm_envelope fence)) ?calendar (is_prospecting permission) = Inr True"
    using assms by (auto simp: decide_window_def Let_def with_detail_def elim!: and_thenE split: if_splits)
  moreover have "set (hc_dates (currentHolidayCalendar db)) \<subseteq> set (hc_dates ?calendar)"
    by (auto simp: dispatchHolidayCalendar_def Let_def split: option.split)
  ultimately show ?thesis by blast
qed

text \<open>C2: What a claim was permitted by, read in the transaction that claims.  The fence was
  prepared and is not an automatic booking; its mailbox is connected, has no unresolved provider
  incident and no other fence in flight or of an unknown outcome; neither the firm nor the
  recipient is suppressed for email; the deployment and the workspace attest sending and the
  release that admits it is the plan's; the primary domain authenticates and is enabled; the
  instant is in the sending window of the recipient's zone under a calendar that holds the
  workspace's current holidays; a step's permission answers for it, a human reply carries its
  live approval.\<close>
theorem claimed_send_permitted:
  assumes "recheckAndClaim rd tk deps k precheck db = Inr (db', Claimed plan c threading)"
  shows "\<exists>fence mailbox. readFence (sx_outbound db) k = Some fence \<and> fm_state fence = Prepared \<and>
    mailbox_of db (en_mailboxId (fm_envelope fence)) = Some mailbox \<and> mb_status mailbox = ''connected'' \<and>
    (\<forall>i\<in>set (sx_incidents db). pi_mailboxId i = mb_id mailbox \<longrightarrow> pi_resolvedAt i \<noteq> None) \<and>
    (\<forall>f\<in>set (outbound_messages (sx_outbound db)). en_mailboxId (fm_envelope f) = mb_id mailbox \<longrightarrow> \<not> unresolved_fence f) \<and>
    (\<forall>s\<in>set (sx_suppressions db). es_channel s = ''email'' \<or> es_channel s = ''all'' \<longrightarrow>
       \<not> (es_scope s = ''firm'' \<and> es_canonicalKey s = js_lower (en_firmId (fm_envelope fence))) \<and>
       \<not> (es_scope s = ''handle'' \<and> es_canonicalKey s = js_lower (en_recipientAddress (fm_envelope fence)))) \<and>
    gd_deploymentSendingEnabled deps = Some True \<and>
    (\<exists>s ref. sx_sendingEnabled db = Some s \<and> se_enabled s \<and> se_releaseGateReference s = Some ref \<and>
       gt_bindRelease rd db ref (gd_workerImageDigest deps) (gd_production deps \<noteq> Some False) = Inr (plan_release plan)) \<and>
    (\<exists>d. primary_domain db = Some d \<and> authenticationPasses d \<and> sd_automatedSendingEnabled d) \<and>
    (\<exists>calendar prospecting. insideSendingWindow (env_tz (gt_env rd)) (tk_clock tk) (en_sourceZone (fm_envelope fence)) calendar
       prospecting = Inr True \<and> set (hc_dates (currentHolidayCalendar db)) \<subseteq> set (hc_dates calendar)) \<and>
    (case en_originKind (fm_envelope fence) of
       Origin_draft \<Rightarrow> sc_humanReplyApprovalIsLive rd db (fm_id fence) (gd_humanReplyRevision deps) \<and>
         gt_decideHumanReply rd db fence (gd_humanReplyRevision deps) = Accept ()
     | Origin_step_execution \<Rightarrow> (\<exists>p. decideStepPermission rd db fence mailbox (tk_clock tk) = Accept p)
     | Origin_standing_booking \<Rightarrow> False)"
proof -
  obtain fence db1 where s: "readFence (sx_outbound db) k = Some fence" "fm_state fence = Prepared"
      "en_originKind (fm_envelope fence) = Origin_draft \<Longrightarrow>
         sc_humanReplyApprovalIsLive rd db (fm_id fence) (gd_humanReplyRevision deps)"
      "decideSend rd tk (gate_deps deps) fence db = Inr (db1, Accept plan)"
    using assms by (elim recheck_claimed) blast
  obtain mailbox permission domain where g: "decide_never rd (tk_clock tk) (gate_deps deps) fence db = Accept (mailbox, None, permission)"
      "decide_attested rd (gate_deps deps) db = Accept (plan_release plan)" "primary_domain db = Some domain"
      "authenticationPasses domain" "sd_automatedSendingEnabled domain"
      "decide_window rd (tk_clock tk) fence permission db = Inr (Accept ())"
    using s(4) by (elim decide_accept_cases) blast
  note never = never_cases [OF g(1)]
  have attested: "gd_deploymentSendingEnabled deps = Some True \<and>
    (\<exists>s ref. sx_sendingEnabled db = Some s \<and> se_enabled s \<and> se_releaseGateReference s = Some ref \<and>
       gt_bindRelease rd db ref (gd_workerImageDigest deps) (gd_production deps \<noteq> Some False) = Inr (plan_release plan))"
    using g(2)
    by (auto simp: decide_attested_def attestedReleaseBinding_def effectiveSendingEnabled_def with_detail_def Let_def
        SendGateDeps.truncate_def split: if_splits option.splits sum.splits)
  have suppression: "\<not> (es_scope s = ''firm'' \<and> es_canonicalKey s = js_lower (en_firmId (fm_envelope fence))) \<and>
       \<not> (es_scope s = ''handle'' \<and> es_canonicalKey s = js_lower (en_recipientAddress (fm_envelope fence)))"
    if "s \<in> set (sx_suppressions db)" "es_channel s = ''email'' \<or> es_channel s = ''all''" for s
    using not_suppressed [OF never [THEN conjunct2, THEN conjunct2, THEN conjunct1] that] by auto
  have origin: "case en_originKind (fm_envelope fence) of
       Origin_draft \<Rightarrow> sc_humanReplyApprovalIsLive rd db (fm_id fence) (gd_humanReplyRevision deps) \<and>
         gt_decideHumanReply rd db fence (gd_humanReplyRevision deps) = Accept ()
     | Origin_step_execution \<Rightarrow> (\<exists>p. decideStepPermission rd db fence mailbox (tk_clock tk) = Accept p)
     | Origin_standing_booking \<Rightarrow> False"
    using never s(3) by (auto simp: SendGateDeps.truncate_def split: OriginKind.splits)
  show ?thesis
    using s(1,2) never_mailbox [OF g(1)] never no_incident attested g(3-5) window_open [OF g(6)] suppression origin
    by (intro exI [of _ fence] exI [of _ mailbox] conjI ballI impI) (blast+)
qed

theorem claimed_send_permitted_witness:
  "\<exists>fence mailbox. readFence (sx_outbound send_db) ''f1'' = Some fence \<and>
     mailbox_of send_db (en_mailboxId (fm_envelope fence)) = Some mailbox \<and> mb_status mailbox = ''connected''"
proof -
  obtain db plan c threading where r: "recheckAndClaim send_rd (send_tick 0) send_deps ''f1'' send_precheck send_db =
      Inr (db, Claimed plan c threading)" using send_claim by blast
  show ?thesis using claimed_send_permitted [OF r] by blast
qed

end
