(* ===== verification/Reconcile.thy ===== *)
theory Reconcile
  imports SendPath
begin

text \<open>
  \<open>packages/domain/outbound/reconcile.ts\<close>: the half of at-most-once sending that runs when
  nobody knows whether a mail left.  \<open>reconcileOutboundMessage\<close> searches the mailbox's Sent
  folder for the fence's Message-ID and settles the fence by what it finds.  Like a dispatch it
  is a sequence of statements and two network calls, a \<open>ReconcilePhase\<close> being where it stands
  between two of them; \<open>reconcileMailbox\<close> runs it over the fences of a mailbox.
\<close>

definition DEFAULT_ADOPT_AFTER_SECONDS :: int where
  "DEFAULT_ADOPT_AFTER_SECONDS = 300"

record ReconcileDeps =
  rc_actor :: "string option"
  rc_windowHours :: "int option"
  rc_adoptAfterSeconds :: "int option"

datatype ReconcileOutcome = Rc_sent | Rc_still_unknown | Rc_unknown_terminal | Rc_adopted | Rc_not_reconciling
  | Rc_fence_unknown | Rc_grant_revoked | Rc_cooldown | Rc_incident_held | Rc_rate_limited

record ReconcileReport =
  rr_outcome :: ReconcileOutcome
  rr_outboundMessageId :: uuid
  rr_attempts :: nat
  rr_nextAttemptInSeconds :: "int option"
  rr_retryAt :: "instant option"

definition rc_report :: "ReconcileOutcome \<Rightarrow> uuid \<Rightarrow> nat \<Rightarrow> ReconcileReport" where
  "rc_report outcome k attempts = \<lparr> rr_outcome = outcome, rr_outboundMessageId = k, rr_attempts = attempts,
     rr_nextAttemptInSeconds = None, rr_retryAt = None \<rparr>"

text \<open>\<open>GmailSentSearchOutcome\<close>, with the exception the client may throw.\<close>
datatype SearchRefusal = Search_grant_revoked | Search_rate_limited

datatype GmailSentSearchOutcome =
    Search_ok "(string \<times> string) option"
  | Search_refused SearchRefusal "ProviderIncidentClass option" "string option" "instant option"
  | Search_threw

record ReconcileAnswers =
  ra_refreshedAt :: instant
  ra_refresh :: GmailAccessOutcome
  ra_search :: GmailSentSearchOutcome

datatype ReconcilePhase =
    Rc_start
  | Rc_adopt OutboundFenceRow
  | Rc_incidents OutboundFenceRow instant
  | Rc_bind OutboundFenceRow instant
  | Rc_access OutboundFenceRow instant "ProviderBinding option"
  | Rc_search OutboundFenceRow instant "ProviderBinding option" string
  | Rc_search_threw OutboundFenceRow instant "ProviderBinding option"
  | Rc_search_refused OutboundFenceRow instant "ProviderBinding option" SearchRefusal "ProviderIncidentClass option"
      "string option" "instant option"
  | Rc_refused_miss OutboundFenceRow SearchRefusal "instant option"
  | Rc_resolve OutboundFenceRow instant "ProviderBinding option" "(string \<times> string) option"
  | Rc_found OutboundFenceRow string string
  | Rc_deliver OutboundFenceRow instant
  | Rc_release OutboundFenceRow
  | Rc_miss OutboundFenceRow instant
  | Rc_expire OutboundFenceRow nat
  | Rc_release_doubt OutboundFenceRow nat
  | Rc_open_terminal OutboundFenceRow nat
  | Rc_finished ReconcileReport
  | Rc_failed SendError

text \<open>The read of the fence: adopt it, observe it, or leave it.\<close>
definition rc_begin :: "ReconcileDeps \<Rightarrow> Tick \<Rightarrow> uuid \<Rightarrow> 'w SendDb \<Rightarrow> ReconcilePhase" where
  "rc_begin deps tk k db = (case readFence (sx_outbound db) k of
     None \<Rightarrow> Rc_finished (rc_report Rc_fence_unknown k 0)
   | Some fence \<Rightarrow>
       if fm_state fence = Dispatching then
         (if tk_clock tk - dispatch_instant fence < 1000 * (case rc_adoptAfterSeconds deps of
               None \<Rightarrow> DEFAULT_ADOPT_AFTER_SECONDS | Some s \<Rightarrow> s)
          then Rc_finished (rc_report Rc_not_reconciling (fm_id fence) (fm_reconcileAttempts fence))
          else Rc_adopt fence)
       else if fm_state fence \<noteq> Reconciling
         then Rc_finished (rc_report Rc_not_reconciling (fm_id fence) (fm_reconcileAttempts fence))
       else Rc_incidents fence (tk_clock tk))"

definition rc_adopt_why :: string where
  "rc_adopt_why = ''adopted from dispatching after the owning process went quiet''"

definition rc_adopt :: "SendEnv \<Rightarrow> ReconcileDeps \<Rightarrow> Tick \<Rightarrow> OutboundFenceRow \<Rightarrow> 'w SendDb \<Rightarrow> 'w SendDb \<times> ReconcilePhase" where
  "rc_adopt env deps tk fence db =
     (case with_outbound (beginReconciling env (tk_now tk) (fm_id fence) rc_adopt_why
         (case rc_windowHours deps of None \<Rightarrow> RECONCILE_WINDOW_HOURS | Some h \<Rightarrow> h) (rc_actor deps)) db of
        (db1, Refuse _ _) \<Rightarrow> (db1, Rc_finished (rc_report Rc_not_reconciling (fm_id fence) (fm_reconcileAttempts fence)))
      | (db1, Accept f) \<Rightarrow> (db1, Rc_finished (rc_report Rc_adopted (fm_id fence) (fm_reconcileAttempts f))))"

text \<open>The incidents of the mailbox, those of its own unresolved sends aside.\<close>
definition rc_watch :: "('w, 'z) IncidentReads_scheme \<Rightarrow> OutboundFenceRow \<Rightarrow> instant \<Rightarrow> 'w SendDb \<Rightarrow> ReconcilePhase" where
  "rc_watch rd fence now db =
     (let incidents = filter (\<lambda>i. \<not> (pv_sourceKind i = Source_provider_send \<and> pv_reason i = ''unresolved_submission''))
            (readProviderIncidents rd db (en_mailboxId (fm_envelope fence)) now) in
      if list_ex (\<lambda>i. pv_state i = Action_required) incidents
      then Rc_finished (rc_report Rc_incident_held (fm_id fence) (fm_reconcileAttempts fence)) else
      (case latest_retry incidents of
         Some wait \<Rightarrow> Rc_finished ((rc_report Rc_cooldown (fm_id fence) (fm_reconcileAttempts fence))\<lparr> rr_retryAt := Some wait \<rparr>)
       | None \<Rightarrow> Rc_bind fence now))"

definition rc_access :: "('w, 'z) SendCallees_scheme \<Rightarrow> Tick \<Rightarrow> ReconcileAnswers \<Rightarrow> OutboundFenceRow \<Rightarrow> instant \<Rightarrow>
    ProviderBinding option \<Rightarrow> 'w SendDb \<Rightarrow> 'w SendDb \<times> ReconcilePhase" where
  "rc_access rd tk answers fence now binding db =
     (case accessForMailbox rd tk (ra_refreshedAt answers) (ra_refresh answers) (en_mailboxId (fm_envelope fence)) db of
        (db1, Inl e) \<Rightarrow> (db1, Rc_failed e)
      | (db1, Inr (Access grant)) \<Rightarrow> (db1, Rc_search fence now binding grant)
      | (db1, Inr Access_revoked) \<Rightarrow> (db1, Rc_finished (rc_report Rc_grant_revoked (fm_id fence) (fm_reconcileAttempts fence)))
      | (db1, Inr Access_incident) \<Rightarrow> (db1, Rc_finished (rc_report Rc_incident_held (fm_id fence) (fm_reconcileAttempts fence))))"

text \<open>The one question put to Gmail; it changes nothing.\<close>
definition rc_answered :: "GmailSentSearchOutcome \<Rightarrow> OutboundFenceRow \<Rightarrow> instant \<Rightarrow> ProviderBinding option \<Rightarrow> ReconcilePhase" where
  "rc_answered answer fence now binding = (case answer of
     Search_threw \<Rightarrow> Rc_search_threw fence now binding
   | Search_refused reason given incidentReason retryAt \<Rightarrow>
       Rc_search_refused fence now binding reason given incidentReason retryAt
   | Search_ok found \<Rightarrow> Rc_resolve fence now binding found)"

definition search_class :: "SearchRefusal \<Rightarrow> ProviderIncidentClass option \<Rightarrow> ProviderIncidentClass" where
  "search_class reason given = (case given of Some c \<Rightarrow> c
     | None \<Rightarrow> if reason = Search_rate_limited then Class_transient else Class_authentication)"

definition search_reason_name :: "SearchRefusal \<Rightarrow> string" where
  "search_reason_name reason = (case reason of Search_grant_revoked \<Rightarrow> ''grant_revoked''
     | Search_rate_limited \<Rightarrow> ''rate_limited'')"

definition rc_or_failed :: "'w SendDb \<Rightarrow> SendError + 'w SendDb \<Rightarrow> ReconcilePhase \<Rightarrow> 'w SendDb \<times> ReconcilePhase" where
  "rc_or_failed db r ph = (case r of Inl e \<Rightarrow> (db, Rc_failed e) | Inr db1 \<Rightarrow> (db1, ph))"

definition rc_record_incident :: "Tick \<Rightarrow> OutboundFenceRow \<Rightarrow> instant \<Rightarrow> ProviderBinding option \<Rightarrow> ProviderIncidentClass \<Rightarrow>
    string \<Rightarrow> instant option \<Rightarrow> 'w SendDb \<Rightarrow> SendError + 'w SendDb" where
  "rc_record_incident tk fence now binding classification reason retryAt db =
     record_if_bound tk now (en_mailboxId (fm_envelope fence)) Source_sent_search (fm_id fence) classification reason
       retryAt binding db"

definition rc_missed :: "Tick \<Rightarrow> OutboundFenceRow \<Rightarrow> 'w SendDb \<Rightarrow> 'w SendDb \<times> nat" where
  "rc_missed tk fence db = with_outbound (recordReconcileMiss (tk_now tk) (fm_id fence)) db"

definition rc_refused_miss :: "Tick \<Rightarrow> OutboundFenceRow \<Rightarrow> SearchRefusal \<Rightarrow> instant option \<Rightarrow> 'w SendDb \<Rightarrow>
    'w SendDb \<times> ReconcilePhase" where
  "rc_refused_miss tk fence reason retryAt db = (case rc_missed tk fence db of (db1, attempts) \<Rightarrow>
     (db1, Rc_finished \<lparr> rr_outcome = (if reason = Search_grant_revoked then Rc_grant_revoked else Rc_rate_limited),
        rr_outboundMessageId = fm_id fence, rr_attempts = attempts,
        rr_nextAttemptInSeconds = Some (reconcileBackoffSeconds (int attempts)), rr_retryAt = retryAt \<rparr>))"

definition rc_sources :: "ProviderIncidentSource list" where
  "rc_sources = [Source_sent_search, Source_mail_read, Source_token_refresh, Source_provider_send]"

definition rc_resolved :: "('w, 'z) IncidentReads_scheme \<Rightarrow> Tick \<Rightarrow> OutboundFenceRow \<Rightarrow> instant \<Rightarrow> ProviderBinding option \<Rightarrow>
    'w SendDb \<Rightarrow> SendError + 'w SendDb" where
  "rc_resolved rd tk fence now binding db = (case binding of None \<Rightarrow> Inr db
     | Some b \<Rightarrow> resolveProviderIncidentsAfterRead rd tk (en_mailboxId (fm_envelope fence)) b now rc_sources db)"

definition rc_sent_report :: "OutboundFenceRow \<Rightarrow> ReconcilePhase" where
  "rc_sent_report fence = Rc_finished (rc_report Rc_sent (fm_id fence) (fm_reconcileAttempts fence + 1))"

definition rc_found :: "SendEnv \<Rightarrow> ReconcileDeps \<Rightarrow> Tick \<Rightarrow> OutboundFenceRow \<Rightarrow> string \<Rightarrow> string \<Rightarrow> 'w SendDb \<Rightarrow>
    'w SendDb \<times> ReconcilePhase" where
  "rc_found env deps tk fence pid tid db =
     (case with_outbound (recordReconciledSent env (tk_now tk) (fm_id fence) pid tid (rc_actor deps)) db of
        (db1, Refuse _ _) \<Rightarrow> (db1, rc_sent_report fence)
      | (db1, Accept f) \<Rightarrow> (db1, Rc_deliver fence (case fm_sentAt f of None \<Rightarrow> 0 | Some s \<Rightarrow> s)))"

definition rc_deliver :: "('w, 'z) SendCallees_scheme \<Rightarrow> OutboundFenceRow \<Rightarrow> instant \<Rightarrow> 'w SendDb \<Rightarrow> 'w SendDb" where
  "rc_deliver rd fence sentAt db =
     (let db1 = db\<lparr> sx_rest := sc_recordRoutineDelivery rd db (fm_id fence) \<rparr>;
          db2 = recordHumanReplyDelivery rd (fm_id fence) db1 in
      case en_stepExecutionId (fm_envelope fence) of None \<Rightarrow> db2
      | Some s \<Rightarrow> db2\<lparr> sx_rest := sc_recordMeetingDelivery rd db2 s (fm_id fence) sentAt \<rparr>)"

text \<open>The doubt's own hold comes off, and no other.\<close>
definition rc_release_hold :: "Tick \<Rightarrow> OutboundFenceRow \<Rightarrow> 'w SendDb \<Rightarrow> SendError + 'w SendDb" where
  "rc_release_hold tk fence db =
     and_then (with_holds (releaseHoldsOfEvent (tk_now tk) (fm_id fence) ''send_unknown_reconciling'') db) (\<lambda>(db1, _). Inr db1)"

definition rc_miss :: "Tick \<Rightarrow> OutboundFenceRow \<Rightarrow> instant \<Rightarrow> 'w SendDb \<Rightarrow> 'w SendDb \<times> ReconcilePhase" where
  "rc_miss tk fence now db = (case rc_missed tk fence db of (db1, attempts) \<Rightarrow>
     (db1, if (case fm_reconcileDeadlineAt fence of None \<Rightarrow> 0 | Some d \<Rightarrow> d) > now
       then Rc_finished ((rc_report Rc_still_unknown (fm_id fence) attempts)\<lparr>
         rr_nextAttemptInSeconds := Some (reconcileBackoffSeconds (int attempts)) \<rparr>)
       else Rc_expire fence attempts))"

definition rc_expire :: "SendEnv \<Rightarrow> ReconcileDeps \<Rightarrow> Tick \<Rightarrow> OutboundFenceRow \<Rightarrow> nat \<Rightarrow> 'w SendDb \<Rightarrow> 'w SendDb \<times> ReconcilePhase" where
  "rc_expire env deps tk fence attempts db =
     (case with_outbound (markUnknownTerminal env (tk_now tk) (fm_id fence) (rc_actor deps)) db of
        (db1, Refuse _ _) \<Rightarrow> (db1, Rc_finished (rc_report Rc_still_unknown (fm_id fence) attempts))
      | (db1, Accept _) \<Rightarrow> (db1, Rc_release_doubt fence attempts))"

definition rc_open_terminal :: "Tick \<Rightarrow> OutboundFenceRow \<Rightarrow> 'w SendDb \<Rightarrow> SendError + 'w SendDb" where
  "rc_open_terminal tk fence db =
     and_then (with_holds (openHold (tk_now tk) (tk_hold tk) (step_hold_input fence ''send_unknown_terminal''
       [''email_send'', ''enrollment_advance''] (Some ''mark_delivered_or_skipped''))) db) (\<lambda>(db1, _). Inr db1)"

text \<open>One statement or one network call of \<open>reconcileOutboundMessage(k)\<close>.\<close>
definition reconcile_next :: "('w, 'z) SendCallees_scheme \<Rightarrow> ReconcileDeps \<Rightarrow> uuid \<Rightarrow> Tick \<Rightarrow> ReconcileAnswers \<Rightarrow>
    ReconcilePhase \<Rightarrow> 'w SendDb \<Rightarrow> 'w SendDb \<times> ReconcilePhase" where
  "reconcile_next rd deps k tk answers ph db = (case ph of
     Rc_start \<Rightarrow> (db, rc_begin deps tk k db)
   | Rc_adopt fence \<Rightarrow> rc_adopt (gt_env rd) deps tk fence db
   | Rc_incidents fence now \<Rightarrow> (db, rc_watch rd fence now db)
   | Rc_bind fence now \<Rightarrow> (db, Rc_access fence now (readProviderBinding rd db (en_mailboxId (fm_envelope fence))))
   | Rc_access fence now binding \<Rightarrow> rc_access rd tk answers fence now binding db
   | Rc_search fence now binding grant \<Rightarrow> (db, rc_answered (ra_search answers) fence now binding)
   | Rc_search_threw fence now binding \<Rightarrow>
       rc_or_failed db (rc_record_incident tk fence now binding Class_unknown ''unknown_provider_failure'' None db)
         (Rc_finished (rc_report Rc_incident_held (fm_id fence) (fm_reconcileAttempts fence)))
   | Rc_search_refused fence now binding reason given incidentReason retryAt \<Rightarrow>
       rc_or_failed db (rc_record_incident tk fence now binding (search_class reason given)
           (case incidentReason of None \<Rightarrow> search_reason_name reason | Some r \<Rightarrow> r) retryAt db)
         (Rc_refused_miss fence reason retryAt)
   | Rc_refused_miss fence reason retryAt \<Rightarrow> rc_refused_miss tk fence reason retryAt db
   | Rc_resolve fence now binding found \<Rightarrow>
       rc_or_failed db (rc_resolved rd tk fence now binding db)
         (case found of None \<Rightarrow> Rc_miss fence now | Some (pid, tid) \<Rightarrow> Rc_found fence pid tid)
   | Rc_found fence pid tid \<Rightarrow> rc_found (gt_env rd) deps tk fence pid tid db
   | Rc_deliver fence sentAt \<Rightarrow> (rc_deliver rd fence sentAt db, Rc_release fence)
   | Rc_release fence \<Rightarrow> rc_or_failed db (rc_release_hold tk fence db) (rc_sent_report fence)
   | Rc_miss fence now \<Rightarrow> rc_miss tk fence now db
   | Rc_expire fence attempts \<Rightarrow> rc_expire (gt_env rd) deps tk fence attempts db
   | Rc_release_doubt fence attempts \<Rightarrow>
       rc_or_failed db (rc_release_hold tk fence db) (Rc_open_terminal fence attempts)
   | Rc_open_terminal fence attempts \<Rightarrow>
       rc_or_failed db (rc_open_terminal tk fence db) (Rc_finished (rc_report Rc_unknown_terminal (fm_id fence) attempts))
   | Rc_finished report \<Rightarrow> (db, ph)
   | Rc_failed err \<Rightarrow> (db, ph))"

text \<open>The steps left to a phase, at most.\<close>
fun reconcile_left :: "ReconcilePhase \<Rightarrow> nat" where
  "reconcile_left Rc_start = 10"
| "reconcile_left (Rc_adopt _) = 1"
| "reconcile_left (Rc_incidents _ _) = 9"
| "reconcile_left (Rc_bind _ _) = 8"
| "reconcile_left (Rc_access _ _ _) = 7"
| "reconcile_left (Rc_search _ _ _ _) = 6"
| "reconcile_left (Rc_search_threw _ _ _) = 1"
| "reconcile_left (Rc_search_refused _ _ _ _ _ _ _) = 2"
| "reconcile_left (Rc_refused_miss _ _ _) = 1"
| "reconcile_left (Rc_resolve _ _ _ _) = 5"
| "reconcile_left (Rc_found _ _ _) = 3"
| "reconcile_left (Rc_deliver _ _) = 2"
| "reconcile_left (Rc_release _) = 1"
| "reconcile_left (Rc_miss _ _) = 4"
| "reconcile_left (Rc_expire _ _) = 3"
| "reconcile_left (Rc_release_doubt _ _) = 2"
| "reconcile_left (Rc_open_terminal _ _) = 1"
| "reconcile_left (Rc_finished _) = 0"
| "reconcile_left (Rc_failed _) = 0"

fun reconcile_run :: "('w, 'z) SendCallees_scheme \<Rightarrow> ReconcileDeps \<Rightarrow> uuid \<Rightarrow> ReconcileAnswers \<Rightarrow> (nat \<Rightarrow> Tick) \<Rightarrow> nat \<Rightarrow>
    'w SendDb \<times> ReconcilePhase \<Rightarrow> 'w SendDb \<times> ReconcilePhase" where
  "reconcile_run rd deps k answers ticks 0 s = s"
| "reconcile_run rd deps k answers ticks (Suc n) s =
     (if reconcile_left (snd s) = 0 then s
      else reconcile_run rd deps k answers ticks n (reconcile_next rd deps k (ticks n) answers (snd s) (fst s)))"

definition reconcileOutboundMessage :: "('w, 'z) SendCallees_scheme \<Rightarrow> ReconcileDeps \<Rightarrow> uuid \<Rightarrow> ReconcileAnswers \<Rightarrow>
    (nat \<Rightarrow> Tick) \<Rightarrow> 'w SendDb \<Rightarrow> 'w SendDb \<times> ReconcilePhase" where
  "reconcileOutboundMessage rd deps k answers ticks db = reconcile_run rd deps k answers ticks 10 (db, Rc_start)"

section \<open>The sweeps\<close>

text \<open>\<open>ORDER BY\<close> an instant that may be null: the nulls come last.\<close>
definition null_last :: "instant option \<Rightarrow> bool \<times> instant" where
  "null_last t = (case t of None \<Rightarrow> (True, 0) | Some x \<Rightarrow> (False, x))"

definition quiet_dispatch :: "instant \<Rightarrow> int option \<Rightarrow> OutboundFenceRow \<Rightarrow> bool" where
  "quiet_dispatch now adoptAfterSeconds f \<longleftrightarrow> fm_state f = Dispatching \<and> (case fm_dispatchStartedAt f of None \<Rightarrow> False
     | Some d \<Rightarrow> d < now - 1000 * (case adoptAfterSeconds of None \<Rightarrow> DEFAULT_ADOPT_AFTER_SECONDS | Some s \<Rightarrow> s))"

text \<open>The statement's own backoff: 30 seconds doubled seven times at most, an hour at most.\<close>
definition sweep_backoff :: "nat \<Rightarrow> int" where
  "sweep_backoff attempts = min (30 * 2 ^ (min attempts 7)) 3600"

definition owed_observation :: "instant \<Rightarrow> OutboundFenceRow \<Rightarrow> bool" where
  "owed_observation now f \<longleftrightarrow> fm_state f = Reconciling \<and> (case fm_reconcileLastAttemptAt f of None \<Rightarrow> True
     | Some t \<Rightarrow> t < now - 1000 * sweep_backoff (fm_reconcileAttempts f))"

definition listFencesToReconcile :: "instant \<Rightarrow> int option \<Rightarrow> nat option \<Rightarrow> 'w SendDb \<Rightarrow> (uuid \<times> uuid) list" where
  "listFencesToReconcile now adoptAfterSeconds limit db =
     map (\<lambda>f. (en_mailboxId (fm_envelope f), fm_id f))
       (take (case limit of None \<Rightarrow> 200 | Some n \<Rightarrow> n)
         (sort_key (\<lambda>f. null_last (case fm_reconcileLastAttemptAt f of None \<Rightarrow> fm_dispatchStartedAt f | Some t \<Rightarrow> Some t))
           (filter (\<lambda>f. owed_observation now f \<or> quiet_dispatch now adoptAfterSeconds f)
             (outbound_messages (sx_outbound db)))))"

definition listMailboxesToReconcile :: "instant \<Rightarrow> int option \<Rightarrow> 'w SendDb \<Rightarrow> uuid list" where
  "listMailboxesToReconcile now adoptAfterSeconds db =
     sort (remdups (map (\<lambda>f. en_mailboxId (fm_envelope f))
       (filter (\<lambda>f. fm_state f = Reconciling \<or> quiet_dispatch now adoptAfterSeconds f)
         (outbound_messages (sx_outbound db)))))"

definition reconcile_batch :: "uuid \<Rightarrow> nat option \<Rightarrow> 'w SendDb \<Rightarrow> uuid list" where
  "reconcile_batch mailboxId limit db =
     map fm_id (take (case limit of None \<Rightarrow> 50 | Some n \<Rightarrow> n)
       (sort_key (\<lambda>f. null_last (fm_dispatchStartedAt f))
         (filter (\<lambda>f. en_mailboxId (fm_envelope f) = mailboxId \<and> (fm_state f = Reconciling \<or> fm_state f = Dispatching))
           (outbound_messages (sx_outbound db)))))"

text \<open>One fence after the other; an exception ends the sweep.\<close>
fun reconcile_each :: "('w, 'z) SendCallees_scheme \<Rightarrow> ReconcileDeps \<Rightarrow> (uuid \<Rightarrow> ReconcileAnswers) \<Rightarrow> (uuid \<Rightarrow> nat \<Rightarrow> Tick) \<Rightarrow>
    uuid list \<Rightarrow> ReconcileReport list \<Rightarrow> 'w SendDb \<Rightarrow> 'w SendDb \<times> (SendError + ReconcileReport list)" where
  "reconcile_each rd deps answers ticks [] reports db = (db, Inr reports)"
| "reconcile_each rd deps answers ticks (k # ks) reports db =
     (case reconcileOutboundMessage rd deps k (answers k) (ticks k) db of
        (db1, Rc_finished report) \<Rightarrow> reconcile_each rd deps answers ticks ks (reports @ [report]) db1
      | (db1, Rc_failed err) \<Rightarrow> (db1, Inl err)
      | (db1, _) \<Rightarrow> (db1, Inr reports))"

definition reconcileMailbox :: "('w, 'z) SendCallees_scheme \<Rightarrow> ReconcileDeps \<Rightarrow> (uuid \<Rightarrow> ReconcileAnswers) \<Rightarrow> (uuid \<Rightarrow> nat \<Rightarrow> Tick) \<Rightarrow>
    uuid \<Rightarrow> nat option \<Rightarrow> 'w SendDb \<Rightarrow> 'w SendDb \<times> (SendError + ReconcileReport list)" where
  "reconcileMailbox rd deps answers ticks mailboxId limit db =
     reconcile_each rd deps answers ticks (reconcile_batch mailboxId limit db) [] db"

end
