(* ===== verification/ReconcileProperties.thy ===== *)
theory ReconcileProperties
  imports Reconcile SendDemo
begin

text \<open>
  What the reconciliation promises: it never calls Gmail's send, whoever else is running; what
  its report says of the fence is so; past the deadline an answered search settles the doubt;
  and it ends.
\<close>

section \<open>What a step does to the fences\<close>

definition rc_window_positive :: "ReconcileDeps \<Rightarrow> bool" where
  "rc_window_positive deps \<longleftrightarrow> (case rc_windowHours deps of None \<Rightarrow> True | Some h \<Rightarrow> 0 < h)"

lemma rc_adopt_moves: "rc_window_positive deps \<Longrightarrow> fences_move db (fst (rc_adopt env deps tk fence db))"
proof -
  assume "rc_window_positive deps"
  then have "0 < (case rc_windowHours deps of None \<Rightarrow> RECONCILE_WINDOW_HOURS | Some h \<Rightarrow> h)"
    by (auto simp: rc_window_positive_def RECONCILE_WINDOW_HOURS_def split: option.splits)
  then show ?thesis
    by (auto simp: rc_adopt_def split: prod.split SendResult.split intro: outbound_moves [OF _ reconciling_prim])
qed

lemma rc_access_same: "same_fences db (fst (rc_access rd tk answers fence now b db))"
  using access_same [of db rd tk "ra_refreshedAt answers" "ra_refresh answers" "en_mailboxId (fm_envelope fence)"]
  by (auto simp: rc_access_def split: prod.split sum.split AccessOutcome.split)

lemma rc_incident_same: "rc_record_incident tk fence now b c r t db = Inr db' \<Longrightarrow> same_fences db db'"
  unfolding rc_record_incident_def by (rule record_if_bound_same)

lemma rc_resolved_same: "rc_resolved rd tk fence now b db = Inr db' \<Longrightarrow> same_fences db db'"
  by (auto simp: rc_resolved_def split: option.splits dest: resolve_after_read_same)

lemma rc_release_same: "rc_release_hold tk fence db = Inr db' \<Longrightarrow> same_fences db db'"
  by (auto simp: rc_release_hold_def elim!: and_thenE split: prod.splits dest: with_holds_same)

lemma rc_open_same: "rc_open_terminal tk fence db = Inr db' \<Longrightarrow> same_fences db db'"
  by (auto simp: rc_open_terminal_def elim!: and_thenE split: prod.splits dest: with_holds_same)

lemma rc_or_failed_same:
  "(\<And>d. r = Inr d \<Longrightarrow> same_fences db d) \<Longrightarrow> same_fences db (fst (rc_or_failed db r ph))"
  by (auto simp: rc_or_failed_def split: sum.split)

lemma rc_missed_moves: "fences_move db (fst (rc_missed tk fence db))"
  unfolding rc_missed_def by (rule outbound_moves_fst [OF miss_prim])

lemma rc_found_moves: "fences_move db (fst (rc_found env deps tk fence pid tid db))"
  by (auto simp: rc_found_def split: prod.split SendResult.split intro: outbound_moves [OF _ reconciled_prim])

lemma rc_expire_moves: "fences_move db (fst (rc_expire env deps tk fence n db))"
  by (auto simp: rc_expire_def split: prod.split SendResult.split intro: outbound_moves [OF _ unknown_prim])

lemma rc_deliver_moves: "delivery_keeps_fences rd \<Longrightarrow> fences_move db (rc_deliver rd fence sentAt db)"
proof -
  assume hook: "delivery_keeps_fences rd"
  let ?d = "db\<lparr> sx_rest := sc_recordRoutineDelivery rd db (fm_id fence) \<rparr>"
  have "fences_move db (recordHumanReplyDelivery rd (fm_id fence) ?d)"
    by (rule fences_move_trans [OF same_moves delivery_moves [OF hook]]) simp
  then show ?thesis
    by (auto simp: rc_deliver_def Let_def split: option.split intro: fences_move_trans [OF _ same_moves])
qed

lemma rc_missed_moves': "rc_missed tk fence db = (db', n) \<Longrightarrow> fences_move db db'"
  using rc_missed_moves [of db tk fence] by simp

lemmas rc_moves = rc_adopt_moves rc_found_moves rc_expire_moves rc_deliver_moves
  rc_access_same [THEN same_moves] rc_or_failed_same [THEN same_moves]
lemmas rc_sames = rc_incident_same rc_resolved_same rc_release_same rc_open_same

text \<open>No step of a reconciliation sends: the fences move as calls of their functions move them,
  and the history of calls is as it was.\<close>
lemma reconcile_moves:
  assumes "delivery_keeps_fences rd" "rc_window_positive deps"
  shows "fences_move db (fst (reconcile_next rd deps k tk answers ph db))"
  using assms
  by (cases ph) (auto simp: reconcile_next_def rc_moves rc_refused_miss_def rc_miss_def
      split: prod.split intro!: rc_moves intro: rc_sames rc_missed_moves')

section \<open>Sweeps among senders\<close>

record 'w SweepSystem =
  sw_send :: "'w SendSystem"
  sw_sweeps :: "(uuid \<times> ReconcilePhase) list"

text \<open>Any interleaving of the steps of the sending system with those of any number of
  reconciliations, which begin, go on and die at will.\<close>
inductive sweep_step :: "('w, 'z) SendCallees_scheme \<Rightarrow> 'w SweepSystem \<Rightarrow> 'w SweepSystem \<Rightarrow> bool" for rd where
  send: "send_step rd (sw_send s) t \<Longrightarrow> sweep_step rd s \<lparr> sw_send = t, sw_sweeps = sw_sweeps s \<rparr>"
| observe: "sweep_step rd s \<lparr> sw_send = sw_send s, sw_sweeps = sw_sweeps s @ [(k, Rc_start)] \<rparr>"
| sweep: "i < length (sw_sweeps s) \<Longrightarrow> sw_sweeps s ! i = (k, ph) \<Longrightarrow> rc_window_positive deps \<Longrightarrow>
     reconcile_next rd deps k tk answers ph (sy_db (sw_send s)) = (db', ph') \<Longrightarrow>
     sweep_step rd s \<lparr> sw_send = \<lparr> sy_db = db', sy_workers = sy_workers (sw_send s) \<rparr>,
       sw_sweeps = (sw_sweeps s)[i := (k, ph')] \<rparr>"
| die: "i < length (sw_sweeps s) \<Longrightarrow> sw_sweeps s ! i = (k, ph) \<Longrightarrow>
     sweep_step rd s \<lparr> sw_send = sw_send s, sw_sweeps = (sw_sweeps s)[i := (k, Rc_failed Gmail_threw)] \<rparr>"

inductive_cases sweep_stepE: "sweep_step rd s s'"

lemma sweep_inv:
  assumes "sweep_step rd s s'" "delivery_keeps_fences rd" "send_inv (sw_send s)" "report_inv (sw_send s)"
  shows "send_inv (sw_send s') \<and> report_inv (sw_send s')"
  using assms(1)
proof cases
  case (send t)
  then show ?thesis using send_step_inv [OF send(2) assms(2,3)] report_step_inv [OF send(2) assms(2-4)] by simp
next
  case (sweep i k ph deps tk answers db' ph')
  have moved: "fences_move (sy_db (sw_send s)) db'"
    using reconcile_moves [OF assms(2) sweep(4), of "sy_db (sw_send s)" k tk answers ph] sweep(5) by simp
  then have "report_inv \<lparr> sy_db = db', sy_workers = sy_workers (sw_send s) \<rparr>"
    using assms(4) phase_true_move [OF moved send_invD(1) [OF assms(3)]] by (auto simp: report_inv_def)
  then show ?thesis using send_inv_moved [OF assms(3) moved] sweep(1) by simp
qed (use assms(3,4) in simp_all)

lemma sweeps_inv:
  "(sweep_step rd)\<^sup>*\<^sup>* s s' \<Longrightarrow> delivery_keeps_fences rd \<Longrightarrow> send_inv (sw_send s) \<Longrightarrow> report_inv (sw_send s) \<Longrightarrow>
   send_inv (sw_send s') \<and> report_inv (sw_send s')"
  by (induction rule: rtranclp_induct) (simp, metis sweep_inv)

section \<open>The statements that settle a doubt, read back\<close>

lemma reconciled_reads:
  assumes "fence_inv db" "recordReconciledSent env now k pid tid actor db = (db', r)"
  shows "case r of
      Accept f \<Rightarrow> \<exists>g. readFence db k = Some g \<and> fm_state g = Reconciling \<and> readFence db' k = Some f \<and> fm_state f = Sent \<and>
        fm_sentAt f = fm_dispatchStartedAt g
    | Refuse _ _ \<Rightarrow> db' = db \<and> \<not> (\<exists>g. readFence db k = Some g \<and> fm_state g = Reconciling)"
proof -
  obtain e h where u: "update_fence (in_state Reconciling) (reconciled_change now pid tid) k db = (e, h)" by fastforce
  have "fm_dispatchStartedAt g \<noteq> None" if "readFence db k = Some g" "fm_state g = Reconciling" for g
    using row_checked [OF assms(1) that(1)] that(2) by (auto simp: fence_row_checks_def past_dispatch_def)
  then show ?thesis
    using assms(2) update_fence_read [OF reconciled_move.fence_move_axioms assms(1) u]
    by (auto simp: recordReconciledSent_def u reconciled_change_def split: option.splits if_splits)
qed

lemma unknown_reads:
  assumes "fence_inv db" "markUnknownTerminal env now k actor db = (db', r)"
  shows "case r of
      Accept f \<Rightarrow> readFence db' k = Some f \<and> fm_state f = Unknown_terminal
    | Refuse _ _ \<Rightarrow> db' = db \<and>
        \<not> (\<exists>g d. readFence db k = Some g \<and> fm_state g = Reconciling \<and> fm_reconcileDeadlineAt g = Some d \<and> d \<le> now)"
proof -
  obtain e h where u: "update_fence (unknown_guard now) (unknown_change now) k db = (e, h)" by fastforce
  show ?thesis
    using assms(2) update_fence_read [OF unknown_move.fence_move_axioms assms(1) u]
    by (auto simp: markUnknownTerminal_def u unknown_guard_def unknown_change_def split: option.splits if_splits)
qed

lemma adopt_reads:
  assumes "fence_inv db" "0 < hours" "beginReconciling env now k why hours actor db = (db', r)"
  shows "case r of Accept f \<Rightarrow> readFence db' k = Some f \<and> fm_state f = Reconciling
    | Refuse _ _ \<Rightarrow> db' = db \<and> \<not> (\<exists>g. readFence db k = Some g \<and> fm_state g = Dispatching)"
proof -
  obtain e h where u: "update_fence (in_state Dispatching) (reconciling_change now hours) k db = (e, h)" by fastforce
  show ?thesis
    using assms(3) update_fence_read [OF reconciling_move [OF assms(2)] assms(1) u]
    by (auto simp: beginReconciling_def u reconciling_change_def split: option.splits if_splits)
qed

lemma miss_reads:
  assumes "fence_inv db" "recordReconcileMiss now k db = (db', n)" "readFence db k = Some f" "fm_state f = Reconciling"
  shows "readFence db' k = Some (miss_change now f) \<and> n = fm_reconcileAttempts f + 1"
proof -
  obtain e h where u: "update_fence (in_state Reconciling) (miss_change now) k db = (e, h)" by fastforce
  show ?thesis
    using assms(2-4) update_fence_read [OF miss_move.fence_move_axioms assms(1) u]
    by (auto simp: recordReconcileMiss_def u miss_change_def split: option.splits if_splits)
qed

section \<open>What a report says\<close>

text \<open>The fence a phase is about.\<close>
fun rc_fence :: "ReconcilePhase \<Rightarrow> OutboundFenceRow option" where
  "rc_fence (Rc_adopt f) = Some f"
| "rc_fence (Rc_incidents f _) = Some f"
| "rc_fence (Rc_bind f _) = Some f"
| "rc_fence (Rc_access f _ _) = Some f"
| "rc_fence (Rc_search f _ _ _) = Some f"
| "rc_fence (Rc_search_threw f _ _) = Some f"
| "rc_fence (Rc_search_refused f _ _ _ _ _ _) = Some f"
| "rc_fence (Rc_refused_miss f _ _) = Some f"
| "rc_fence (Rc_resolve f _ _ _) = Some f"
| "rc_fence (Rc_found f _ _) = Some f"
| "rc_fence (Rc_deliver f _) = Some f"
| "rc_fence (Rc_release f) = Some f"
| "rc_fence (Rc_miss f _) = Some f"
| "rc_fence (Rc_expire f _) = Some f"
| "rc_fence (Rc_release_doubt f _) = Some f"
| "rc_fence (Rc_open_terminal f _) = Some f"
| "rc_fence _ = None"

text \<open>The states a report leaves the fence in, now and for ever.\<close>
fun outcome_states :: "ReconcileOutcome \<Rightarrow> OutboundState set" where
  "outcome_states Rc_sent = {Sent, Unknown_terminal}"
| "outcome_states Rc_unknown_terminal = {Unknown_terminal}"
| "outcome_states Rc_fence_unknown = UNIV"
| "outcome_states Rc_not_reconciling = UNIV"
| "outcome_states _ = {Reconciling, Sent, Unknown_terminal}"

fun rc_states :: "ReconcilePhase \<Rightarrow> OutboundState set" where
  "rc_states (Rc_finished r) = outcome_states (rr_outcome r)"
| "rc_states (Rc_deliver _ _) = {Sent}"
| "rc_states (Rc_release _) = {Sent}"
| "rc_states (Rc_release_doubt _ _) = {Unknown_terminal}"
| "rc_states (Rc_open_terminal _ _) = {Unknown_terminal}"
| "rc_states Rc_start = UNIV"
| "rc_states (Rc_adopt _) = UNIV"
| "rc_states (Rc_failed _) = UNIV"
| "rc_states _ = {Reconciling, Sent, Unknown_terminal}"

definition fence_in :: "uuid \<Rightarrow> 'w SendDb \<Rightarrow> OutboundState set \<Rightarrow> bool" where
  "fence_in k db S \<longleftrightarrow> S = UNIV \<or> (\<exists>f. readFence (sx_outbound db) k = Some f \<and> fm_state f \<in> S)"

definition rc_true :: "'w SendDb \<Rightarrow> uuid \<times> ReconcilePhase \<Rightarrow> bool" where
  "rc_true db x \<longleftrightarrow> (\<forall>f. rc_fence (snd x) = Some f \<longrightarrow> fm_id f = fst x) \<and> fence_in (fst x) db (rc_states (snd x))"

text \<open>None of these sets is left by an edge of the state machine.\<close>
lemma outcome_states_edge: "allowed_edge s t \<Longrightarrow> s \<in> outcome_states out \<Longrightarrow> t \<in> outcome_states out"
  by (cases out) (auto simp: allowed_edge_def)

lemma rc_states_edge:
  assumes "allowed_edge s t" "s \<in> rc_states ph"
  shows "t \<in> rc_states ph"
proof (cases ph)
  case (Rc_finished r)
  then show ?thesis using outcome_states_edge assms by simp
qed (use assms in \<open>auto simp: allowed_edge_def\<close>)

lemma rc_states_closed: "allowed_edge\<^sup>*\<^sup>* s t \<Longrightarrow> s \<in> rc_states ph \<Longrightarrow> t \<in> rc_states ph"
  by (induction rule: rtranclp_induct) (auto intro: rc_states_edge)

lemma fence_in_move:
  assumes "fences_move db db'" "fence_inv (sx_outbound db)" "fence_in k db (rc_states ph)"
  shows "fence_in k db' (rc_states ph)"
  using assms(3) moves_later [OF assms(1,2), of k] rc_states_closed
  unfolding fence_in_def later_row_def by metis

lemma rc_true_move:
  "fences_move db db' \<Longrightarrow> fence_inv (sx_outbound db) \<Longrightarrow> rc_true db x \<Longrightarrow> rc_true db' x"
  unfolding rc_true_def using fence_in_move by blast

lemma fence_in_UNIV [simp]: "fence_in k db UNIV"
  by (simp add: fence_in_def)

lemma fence_in_read: "readFence (sx_outbound db) k = Some f \<Longrightarrow> fm_state f \<in> S \<Longrightarrow> fence_in k db S"
  by (auto simp: fence_in_def)

lemma rc_report_simps [simp]:
  "rr_outcome (rc_report out k n) = out" "rr_outboundMessageId (rc_report out k n) = k" "rr_attempts (rc_report out k n) = n"
  by (simp_all add: rc_report_def)

lemma rc_report_retry [simp]:
  "rr_outcome ((rc_report out k n)\<lparr> rr_retryAt := r \<rparr>) = out"
  "rr_outcome ((rc_report out k n)\<lparr> rr_nextAttemptInSeconds := s \<rparr>) = out"
  by (simp_all add: rc_report_def)

lemma fence_in_settled:
  "fence_in k db S \<Longrightarrow> Prepared \<notin> S \<Longrightarrow> \<exists>f. readFence (sx_outbound db) k = Some f \<and> fm_state f \<in> S"
  by (auto simp: fence_in_def)

lemma with_outbound_simp: "with_outbound f db = (db\<lparr> sx_outbound := fst (f (sx_outbound db)) \<rparr>, snd (f (sx_outbound db)))"
  by (simp add: with_outbound_def split: prod.split)

lemma begin_true:
  assumes "fence_inv (sx_outbound db)"
  shows "rc_true db (k, rc_begin deps tk k db)"
proof (cases "readFence (sx_outbound db) k")
  case (Some f)
  then have "fm_id f = k" using readFence_iff [OF assms] by blast
  then show ?thesis using Some by (auto simp: rc_true_def rc_begin_def intro: fence_in_read)
qed (simp add: rc_true_def rc_begin_def)

lemma adopt_true:
  assumes "fence_inv (sx_outbound db)" "rc_window_positive deps" "fm_id f = k"
    and "rc_adopt env deps tk f db = (db', ph')"
  shows "rc_true db' (k, ph')"
proof -
  let ?hours = "case rc_windowHours deps of None \<Rightarrow> RECONCILE_WINDOW_HOURS | Some h \<Rightarrow> h"
  have hours: "0 < ?hours" using assms(2) by (auto simp: rc_window_positive_def RECONCILE_WINDOW_HOURS_def split: option.splits)
  obtain d r where c: "beginReconciling env (tk_now tk) (fm_id f) rc_adopt_why ?hours (rc_actor deps) (sx_outbound db) = (d, r)"
    by fastforce
  show ?thesis
    using adopt_reads [OF assms(1) hours c] assms(3,4)
    by (cases r) (auto simp: rc_adopt_def with_outbound_simp c rc_true_def fence_in_def)
qed

lemma found_true:
  assumes "fence_inv (sx_outbound db)" "fm_id f = k" "fence_in k db {Reconciling, Sent, Unknown_terminal}"
    and "rc_found env deps tk f pid tid db = (db', ph')"
  shows "rc_true db' (k, ph')"
proof -
  obtain d r where c: "recordReconciledSent env (tk_now tk) (fm_id f) pid tid (rc_actor deps) (sx_outbound db) = (d, r)"
    by fastforce
  show ?thesis
    using reconciled_reads [OF assms(1) c] assms(2-4)
    by (cases r) (auto simp: rc_found_def with_outbound_simp c rc_true_def rc_sent_report_def fence_in_def)
qed

lemma expire_true:
  assumes "fence_inv (sx_outbound db)" "fm_id f = k" "fence_in k db {Reconciling, Sent, Unknown_terminal}"
    and "rc_expire env deps tk f n db = (db', ph')"
  shows "rc_true db' (k, ph')"
proof -
  obtain d r where c: "markUnknownTerminal env (tk_now tk) (fm_id f) (rc_actor deps) (sx_outbound db) = (d, r)"
    by fastforce
  show ?thesis
    using unknown_reads [OF assms(1) c] assms(2-4)
    by (cases r) (auto simp: rc_expire_def with_outbound_simp c rc_true_def fence_in_def)
qed

text \<open>A phase that asks no more than the one before it, of the same fence.\<close>
definition rc_follows :: "ReconcilePhase \<Rightarrow> ReconcilePhase \<Rightarrow> bool" where
  "rc_follows ph ph' \<longleftrightarrow> (rc_fence ph' = None \<or> rc_fence ph' = rc_fence ph) \<and> rc_states ph \<subseteq> rc_states ph'"

lemma rc_true_follows: "rc_true db (k, ph) \<Longrightarrow> rc_follows ph ph' \<Longrightarrow> rc_true db (k, ph')"
  by (auto simp: rc_true_def rc_follows_def fence_in_def)

lemma rc_follows_refl [simp]: "rc_follows ph ph"
  by (simp add: rc_follows_def)

lemma access_follows: "rc_access rd tk answers f now b db = (db', ph') \<Longrightarrow> rc_follows (Rc_access f now b) ph'"
  by (auto simp: rc_access_def rc_follows_def split: prod.splits sum.splits AccessOutcome.splits)

lemma watch_follows: "rc_follows (Rc_incidents f now) (rc_watch rd f now db)"
  by (simp add: rc_watch_def rc_follows_def Let_def split: option.split)

lemma answered_follows: "rc_follows (Rc_search f now b g) (rc_answered answer f now b)"
  by (simp add: rc_answered_def rc_follows_def split: GmailSentSearchOutcome.split)

lemma or_failed_follows: "rc_or_failed db r ph1 = (db', ph') \<Longrightarrow> rc_follows ph ph1 \<Longrightarrow> rc_follows ph ph'"
  by (auto simp: rc_or_failed_def rc_follows_def split: sum.splits)

lemma refused_miss_follows:
  "rc_refused_miss tk f reason retry db = (db', ph') \<Longrightarrow> rc_follows (Rc_refused_miss f reason retry) ph'"
  by (auto simp: rc_refused_miss_def rc_follows_def split: prod.splits)

lemma miss_follows: "rc_miss tk f now db = (db', ph') \<Longrightarrow> rc_follows (Rc_miss f now) ph'"
  by (auto simp: rc_miss_def rc_follows_def split: prod.splits if_splits)

lemma fixed_follows:
  "rc_follows (Rc_search_threw f now b) (Rc_finished (rc_report Rc_incident_held i n))"
  "rc_follows (Rc_search_refused f now b reason given inc retry) (Rc_refused_miss f reason retry)"
  "rc_follows (Rc_bind f now) (Rc_access f now b)" "rc_follows (Rc_deliver f s) (Rc_release f)"
  "rc_follows (Rc_release_doubt f m) (Rc_open_terminal f m)"
  "rc_follows (Rc_open_terminal f m) (Rc_finished (rc_report Rc_unknown_terminal i n))"
  "rc_follows (Rc_release f) (rc_sent_report g)"
  "rc_follows (Rc_resolve f now b found) (case found of None \<Rightarrow> Rc_miss f now | Some (pid, tid) \<Rightarrow> Rc_found f pid tid)"
  by (auto simp: rc_follows_def rc_sent_report_def split: option.split)

lemmas step_follows = fixed_follows access_follows watch_follows answered_follows or_failed_follows refused_miss_follows miss_follows

text \<open>Every step but the three that move the fence asks no more than the phase did.\<close>
lemma next_follows:
  assumes "reconcile_next rd deps k tk answers ph db = (db', ph')"
  shows "(\<exists>f. ph = Rc_adopt f) \<or> (\<exists>f pid tid. ph = Rc_found f pid tid) \<or> (\<exists>f n. ph = Rc_expire f n) \<or> ph = Rc_start \<or>
    rc_follows ph ph'"
  using assms by (cases ph) (auto simp: reconcile_next_def intro: step_follows)

lemma step_true:
  assumes "reconcile_next rd deps k tk answers ph db = (db', ph')" "rc_true db (k, ph)"
    and "delivery_keeps_fences rd" "rc_window_positive deps" "fence_inv (sx_outbound db)"
  shows "rc_true db' (k, ph')"
proof -
  have "fences_move db db'" using reconcile_moves [OF assms(3,4), of db k tk answers ph] assms(1) by simp
  then have kept: "rc_true db' (k, ph)" by (rule rc_true_move [OF _ assms(5,2)])
  from next_follows [OF assms(1)] show ?thesis
  proof (elim disjE exE)
    note step = assms(1) [unfolded reconcile_next_def] and here = assms(2) [unfolded rc_true_def]
    show ?thesis if "ph = Rc_adopt f" for f
      by (rule adopt_true [OF assms(5,4)]) (use that step here in simp_all)
    show ?thesis if "ph = Rc_found f pid tid" for f pid tid
      by (rule found_true [OF assms(5)]) (use that step here in simp_all)
    show ?thesis if "ph = Rc_expire f n" for f n
      by (rule expire_true [OF assms(5)]) (use that step here in simp_all)
    show ?thesis if "ph = Rc_start"
      using that step begin_true [OF assms(5)] by auto
    show ?thesis if "rc_follows ph ph'" by (rule rc_true_follows [OF kept that])
  qed
qed

section \<open>Sweeps and senders together\<close>

lemma rc_true_call: "rc_true (db\<lparr> sx_calls := c \<rparr>) x \<longleftrightarrow> rc_true db x"
  by (simp add: rc_true_def fence_in_def)

lemma send_step_true:
  assumes "send_step rd s s'" "delivery_keeps_fences rd" "send_inv s" "rc_true (sy_db s) x"
  shows "rc_true (sy_db s') x"
  using assms(1)
proof cases
  case (fence_call o')
  then show ?thesis
    using rc_true_move [OF _ send_invD(1) [OF assms(3)] assms(4)] fence_step_prim by (simp add: fences_move_def)
next
  case (other db')
  then show ?thesis using rc_true_move [OF same_moves send_invD(1) [OF assms(3)] assms(4)] by simp
next
  case (work i k ph deps tk answers db' ph')
  show ?thesis
    using assms(2) work(4) send_invD(1) [OF assms(3)] work(5)
  proof (cases rule: phase_cases)
    case quiet
    then show ?thesis using rc_true_move [OF quiet(1) send_invD(1) [OF assms(3)] assms(4)] work(1) by simp
  next
    case claim
    then show ?thesis using rc_true_move [OF claim(1) send_invD(1) [OF assms(3)] assms(4)] work(1) by simp
  next
    case (call plan c threading grant)
    then show ?thesis using assms(4) work(1) by (simp add: rc_true_call)
  qed
qed (use assms(4) in simp_all)

definition sweep_ok :: "'w SweepSystem \<Rightarrow> bool" where
  "sweep_ok s \<longleftrightarrow> send_inv (sw_send s) \<and> report_inv (sw_send s) \<and> (\<forall>x\<in>set (sw_sweeps s). rc_true (sy_db (sw_send s)) x)"

lemma sweep_step_ok:
  assumes "sweep_step rd s s'" "delivery_keeps_fences rd" "sweep_ok s"
  shows "sweep_ok s'"
proof -
  have inv: "send_inv (sw_send s') \<and> report_inv (sw_send s')"
    using sweep_inv [OF assms(1,2)] assms(3) by (simp add: sweep_ok_def)
  have old: "send_inv (sw_send s)" "\<forall>x\<in>set (sw_sweeps s). rc_true (sy_db (sw_send s)) x"
    using assms(3) by (simp_all add: sweep_ok_def)
  have "\<forall>x\<in>set (sw_sweeps s'). rc_true (sy_db (sw_send s')) x"
    using assms(1)
  proof cases
    case (send t)
    then show ?thesis using send_step_true [OF send(2) assms(2) old(1)] old(2) by simp
  next
    case (observe k)
    then show ?thesis using old(2) by (auto simp: rc_true_def)
  next
    case (die i k ph)
    then show ?thesis using old(2) by (auto simp: rc_true_def dest!: set_update_cases)
  next
    case (sweep i k ph deps tk answers db' ph')
    note inv_fences = send_invD(1) [OF old(1)]
    have "rc_true (sy_db (sw_send s)) (k, ph)" using old(2) sweep(2,3) by (metis nth_mem)
    then have new: "rc_true db' (k, ph')" by (rule step_true [OF sweep(5) _ assms(2) sweep(4) inv_fences])
    have "fences_move (sy_db (sw_send s)) db'"
      using reconcile_moves [OF assms(2) sweep(4), of "sy_db (sw_send s)" k tk answers ph] sweep(5) by simp
    then show ?thesis
      using new old(2) rc_true_move [OF _ inv_fences] sweep(1) by (auto dest!: set_update_cases)
  qed
  then show ?thesis using inv by (simp add: sweep_ok_def)
qed

lemma sweeps_ok: "(sweep_step rd)\<^sup>*\<^sup>* s s' \<Longrightarrow> delivery_keeps_fences rd \<Longrightarrow> sweep_ok s \<Longrightarrow> sweep_ok s'"
  by (induction rule: rtranclp_induct) (auto intro: sweep_step_ok)

section \<open>One reconciliation on its own\<close>

definition fence_unknown_terminal :: "uuid \<Rightarrow> 'w SendDb \<Rightarrow> bool" where
  "fence_unknown_terminal k db \<longleftrightarrow> (\<exists>f. readFence (sx_outbound db) k = Some f \<and> fm_state f = Unknown_terminal)"

text \<open>A hold that the doubt about this fence opened is still on.\<close>
definition doubt_open :: "uuid \<Rightarrow> 'w SendDb \<Rightarrow> bool" where
  "doubt_open k db \<longleftrightarrow> (\<exists>h\<in>set (sx_holds db). hd_sourceEventId h = Some k \<and>
     hd_reasonCode h = ''send_unknown_reconciling'' \<and> hd_releasedAt h = None)"

text \<open>The hold that asks a person what became of the mail.\<close>
definition question_open :: "OutboundFenceRow \<Rightarrow> 'w SendDb \<Rightarrow> bool" where
  "question_open f db \<longleftrightarrow> (\<exists>h\<in>set (sx_holds db). hd_scopeKind h = ''firm'' \<and> hd_scopeKey h = Some (en_firmId (fm_envelope f)) \<and>
     hd_reasonCode h = ''send_unknown_terminal'' \<and> hd_sourceEventId h = Some (fm_id f) \<and> hd_releasedAt h = None \<and>
     ''email_send'' \<in> set (hd_blockedActionKinds h))"

definition doubtful :: "uuid \<Rightarrow> 'w SendDb \<Rightarrow> OutboundFenceRow \<Rightarrow> bool" where
  "doubtful k db f \<longleftrightarrow> readFence (sx_outbound db) k = Some f \<and> fm_state f = Reconciling"

text \<open>The doubt goes on, after one more observation at most.\<close>
definition still_doubtful :: "uuid \<Rightarrow> 'w SendDb \<Rightarrow> 'w SendDb \<Rightarrow> nat \<Rightarrow> bool" where
  "still_doubtful k db0 db n \<longleftrightarrow> (\<exists>f g. doubtful k db0 f \<and> doubtful k db g \<and> n = fm_reconcileAttempts g \<and>
     n \<le> fm_reconcileAttempts f + 1)"

lemma still_doubtfulI: "doubtful k db0 f \<Longrightarrow> doubtful k db g \<Longrightarrow> n = fm_reconcileAttempts g \<Longrightarrow>
    n \<le> fm_reconcileAttempts f + 1 \<Longrightarrow> still_doubtful k db0 db n"
  by (auto simp: still_doubtful_def)

text \<open>What each outcome says of the state it began in and the one it ends in.\<close>
definition outcome_true :: "uuid \<Rightarrow> 'w SendDb \<Rightarrow> 'w SendDb \<Rightarrow> ReconcileReport \<Rightarrow> bool" where
  "outcome_true k db0 db r \<longleftrightarrow> (case rr_outcome r of
     Rc_fence_unknown \<Rightarrow> db = db0 \<and> readFence (sx_outbound db0) k = None
   | Rc_not_reconciling \<Rightarrow> db = db0
   | Rc_adopted \<Rightarrow> (\<exists>f. readFence (sx_outbound db0) k = Some f \<and> fm_state f = Dispatching) \<and> (\<exists>g. doubtful k db g)
   | Rc_sent \<Rightarrow> (\<exists>f. doubtful k db0 f) \<and> fence_sent k db \<and> \<not> doubt_open k db
   | Rc_unknown_terminal \<Rightarrow> (\<exists>f. doubtful k db0 f \<and> question_open f db) \<and> fence_unknown_terminal k db \<and> \<not> doubt_open k db
   | _ \<Rightarrow> still_doubtful k db0 db (rr_attempts r))"

fun lone :: "uuid \<Rightarrow> 'w SendDb \<Rightarrow> 'w SendDb \<Rightarrow> ReconcilePhase \<Rightarrow> bool" where
  "lone k db0 db Rc_start \<longleftrightarrow> db = db0"
| "lone k db0 db (Rc_adopt f) \<longleftrightarrow> db = db0 \<and> readFence (sx_outbound db0) k = Some f \<and> fm_state f = Dispatching"
| "lone k db0 db (Rc_deliver f _) \<longleftrightarrow> doubtful k db0 f \<and> fence_sent k db"
| "lone k db0 db (Rc_release f) \<longleftrightarrow> doubtful k db0 f \<and> fence_sent k db"
| "lone k db0 db (Rc_expire f n) \<longleftrightarrow> doubtful k db0 f \<and> (\<exists>g. doubtful k db g \<and> n = fm_reconcileAttempts g \<and>
     n = fm_reconcileAttempts f + 1 \<and> fm_reconcileDeadlineAt g = fm_reconcileDeadlineAt f)"
| "lone k db0 db (Rc_release_doubt f _) \<longleftrightarrow> doubtful k db0 f \<and> fence_unknown_terminal k db"
| "lone k db0 db (Rc_open_terminal f _) \<longleftrightarrow> doubtful k db0 f \<and> fence_unknown_terminal k db \<and> \<not> doubt_open k db"
| "lone k db0 db (Rc_finished r) \<longleftrightarrow> outcome_true k db0 db r"
| "lone k db0 db (Rc_failed _) \<longleftrightarrow> True"
| "lone k db0 db ph \<longleftrightarrow> (\<exists>f. rc_fence ph = Some f \<and> doubtful k db0 f \<and> doubtful k db f)"

lemma doubtful_same: "same_fences db db' \<Longrightarrow> doubtful k db' f \<longleftrightarrow> doubtful k db f"
  by (simp add: doubtful_def readFence_same)

lemma settled_same:
  "same_fences db db' \<Longrightarrow> fence_sent k db' \<longleftrightarrow> fence_sent k db"
  "same_fences db db' \<Longrightarrow> fence_unknown_terminal k db' \<longleftrightarrow> fence_unknown_terminal k db"
  by (simp_all add: fence_sent_def fence_unknown_terminal_def readFence_same)

lemma doubtful_id: "fence_inv (sx_outbound db) \<Longrightarrow> doubtful k db f \<Longrightarrow> fm_id f = k"
  using readFence_iff unfolding doubtful_def by blast

lemma release_ends_doubt: "rc_release_hold tk f db = Inr db' \<Longrightarrow> \<not> doubt_open (fm_id f) db'"
  by (auto simp: rc_release_hold_def with_holds_def lift_hold_def releaseHoldsOfEvent_def release_where_def doubt_open_def
      sql_update_def elim!: and_thenE split: if_splits sum.splits)

lemma open_asks: "rc_open_terminal tk f db = Inr db' \<Longrightarrow> question_open f db' \<and> (doubt_open k db' \<longleftrightarrow> doubt_open k db)"
  by (auto simp: rc_open_terminal_def with_holds_def lift_hold_def openHold_def new_hold_def step_hold_input_def
      question_open_def doubt_open_def elim!: and_thenE split: if_splits sum.splits)

lemma doubtful_ex: "Ex (doubtful k db) \<longleftrightarrow> (\<exists>f. readFence (sx_outbound db) k = Some f \<and> fm_state f = Reconciling)"
  by (auto simp: doubtful_def)

lemma begin_lone:
  "lone k db db (rc_begin deps tk k db)"
  by (auto simp: rc_begin_def outcome_true_def doubtful_def split: option.split)

lemma adopt_lone:
  assumes "fence_inv (sx_outbound db)" "rc_window_positive deps" "lone k db0 db (Rc_adopt f)"
    and "rc_adopt env deps tk f db = (db', ph')"
  shows "lone k db0 db' ph'"
proof -
  let ?hours = "case rc_windowHours deps of None \<Rightarrow> RECONCILE_WINDOW_HOURS | Some h \<Rightarrow> h"
  have hours: "0 < ?hours" using assms(2) by (auto simp: rc_window_positive_def RECONCILE_WINDOW_HOURS_def split: option.splits)
  obtain d r where c: "beginReconciling env (tk_now tk) (fm_id f) rc_adopt_why ?hours (rc_actor deps) (sx_outbound db) = (d, r)"
    by fastforce
  have here: "db0 = db" "readFence (sx_outbound db) k = Some f" "fm_state f = Dispatching" using assms(3) by simp_all
  have "fm_id f = k" using readFence_iff [OF assms(1)] here(2) by blast
  then show ?thesis
    using adopt_reads [OF assms(1) hours c] assms(4) here(2,3) unfolding here(1)
    by (cases r) (auto simp: rc_adopt_def with_outbound_simp c outcome_true_def doubtful_ex)
qed

lemma found_lone:
  assumes "fence_inv (sx_outbound db)" "lone k db0 db (Rc_found f pid tid)"
    and "rc_found env deps tk f pid tid db = (db', ph')"
  shows "lone k db0 db' ph'"
proof -
  obtain d r where c: "recordReconciledSent env (tk_now tk) (fm_id f) pid tid (rc_actor deps) (sx_outbound db) = (d, r)"
    by fastforce
  have "fm_id f = k" using assms(1,2) doubtful_id by auto
  then show ?thesis
    using reconciled_reads [OF assms(1) c] assms(2,3)
    by (cases r) (auto simp: rc_found_def with_outbound_simp c doubtful_def fence_sent_def)
qed

lemma missed_doubtful:
  assumes "fence_inv (sx_outbound db)" "doubtful k db f" "rc_missed tk f db = (db', n)"
  shows "doubtful k db' (miss_change (tk_now tk) f) \<and> n = fm_reconcileAttempts f + 1"
proof -
  obtain d m where c: "recordReconcileMiss (tk_now tk) (fm_id f) (sx_outbound db) = (d, m)" by fastforce
  have "fm_id f = k" using assms(1,2) doubtful_id by auto
  then show ?thesis
    using miss_reads [OF assms(1) c] assms(2,3)
    by (auto simp: rc_missed_def with_outbound_simp c doubtful_def miss_change_def)
qed

lemma miss_change_simps [simp]:
  "fm_reconcileAttempts (miss_change now f) = fm_reconcileAttempts f + 1"
  "fm_reconcileDeadlineAt (miss_change now f) = fm_reconcileDeadlineAt f"
  by (simp_all add: miss_change_def)

lemma missed_still:
  assumes "fence_inv (sx_outbound db)" "doubtful k db0 f" "doubtful k db f" "rc_missed tk f db = (d, n)"
  shows "still_doubtful k db0 d n"
  using missed_doubtful [OF assms(1,3,4)] by (intro still_doubtfulI [OF assms(2)]) auto

lemma refused_miss_lone:
  assumes "fence_inv (sx_outbound db)" "lone k db0 db (Rc_refused_miss f reason retry)"
    and "rc_refused_miss tk f reason retry db = (db', ph')"
  shows "lone k db0 db' ph'"
proof -
  obtain d n where c: "rc_missed tk f db = (d, n)" by fastforce
  have "still_doubtful k db0 d n" by (rule missed_still [OF assms(1) _ _ c]) (use assms(2) in auto)
  then show ?thesis using assms(3) by (cases reason) (auto simp: rc_refused_miss_def c outcome_true_def)
qed

lemma miss_lone:
  assumes "fence_inv (sx_outbound db)" "lone k db0 db (Rc_miss f now)" "rc_miss tk f now db = (db', ph')"
  shows "lone k db0 db' ph'"
proof -
  obtain d n where c: "rc_missed tk f db = (d, n)" by fastforce
  have f: "doubtful k db0 f" "doubtful k db f" using assms(2) by auto
  note g = missed_doubtful [OF assms(1) f(2) c] and still = missed_still [OF assms(1) f c]
  have "lone k db0 d (Rc_expire f n)"
    using f(1) g by (auto intro!: exI [of _ "miss_change (tk_now tk) f"])
  moreover have "lone k db0 d (Rc_finished ((rc_report Rc_still_unknown i n)\<lparr> rr_nextAttemptInSeconds := x \<rparr>))" for i x
    using still by (simp add: outcome_true_def rc_report_def)
  ultimately show ?thesis using assms(3) by (auto simp: rc_miss_def c simp del: lone.simps)
qed

lemma expire_lone:
  assumes "fence_inv (sx_outbound db)" "lone k db0 db (Rc_expire f n)" "rc_expire env deps tk f n db = (db', ph')"
    and "fence_inv (sx_outbound db0)"
  shows "lone k db0 db' ph'"
proof -
  obtain d r where c: "markUnknownTerminal env (tk_now tk) (fm_id f) (rc_actor deps) (sx_outbound db) = (d, r)"
    by fastforce
  have still: "still_doubtful k db0 db n" using assms(2) by (auto intro: still_doubtfulI)
  have id: "fm_id f = k" using doubtful_id [OF assms(4)] assms(2) by auto
  show ?thesis
    using unknown_reads [OF assms(1) c] assms(2,3) still id
    by (cases r) (auto simp: rc_expire_def with_outbound_simp c fence_unknown_terminal_def outcome_true_def)
qed

lemma or_failed_lone:
  assumes "rc_or_failed db r ph = (db', ph')" "\<And>d. r = Inr d \<Longrightarrow> lone k db0 d ph"
  shows "lone k db0 db' ph'"
  using assms by (auto simp: rc_or_failed_def split: sum.splits)

lemma still_now: "doubtful k db0 f \<Longrightarrow> doubtful k db f \<Longrightarrow> still_doubtful k db0 db (fm_reconcileAttempts f)"
  by (auto intro: still_doubtfulI)

lemma access_lone:
  assumes "lone k db0 db (Rc_access f now b)" "rc_access rd tk answers f now b db = (db', ph')"
  shows "lone k db0 db' ph'"
proof -
  have "same_fences db db'" using rc_access_same [of db rd tk answers f now b] assms(2) by simp
  then have "doubtful k db0 f" "doubtful k db' f" using assms(1) doubtful_same by auto
  then show ?thesis using assms(2) still_now
    by (auto simp: rc_access_def outcome_true_def split: prod.splits sum.splits AccessOutcome.splits)
qed

lemma watch_lone: "lone k db0 db (Rc_incidents f now) \<Longrightarrow> lone k db0 db (rc_watch rd f now db)"
  using still_now by (auto simp: rc_watch_def outcome_true_def rc_report_def Let_def split: option.split)

lemma answered_lone: "lone k db0 db (Rc_search f now b g) \<Longrightarrow> lone k db0 db (rc_answered answer f now b)"
  by (auto simp: rc_answered_def split: GmailSentSearchOutcome.split)

lemma pending_lone:
  assumes "doubtful k db0 f" "doubtful k db f"
  shows "lone k db0 db (Rc_refused_miss f reason retry)" "lone k db0 db (Rc_miss f now)" "lone k db0 db (Rc_found f pid tid)"
    "lone k db0 db (Rc_finished (rc_report Rc_incident_held i (fm_reconcileAttempts f)))"
  using assms still_now by (auto simp: outcome_true_def)

lemma lone_next:
  assumes "reconcile_next rd deps k tk answers ph db = (db', ph')" "lone k db0 db ph"
    and "delivery_keeps_fences rd" "rc_window_positive deps" "fence_inv (sx_outbound db0)" "fence_inv (sx_outbound db)"
  shows "lone k db0 db' ph'"
proof -
  note step = assms(1) [unfolded reconcile_next_def]
  have kept: "doubtful k d f" if "same_fences db d" "doubtful k db f" for d f using that doubtful_same by blast
  show ?thesis
  proof (cases ph)
    case Rc_start
    then show ?thesis using step assms(2) by (auto simp: begin_lone)
  next
    case (Rc_adopt f)
    show ?thesis by (rule adopt_lone [OF assms(6,4)]) (use Rc_adopt step assms(2) in simp_all)
  next
    case (Rc_incidents f now)
    then have "db' = db" "ph' = rc_watch rd f now db" using step by auto
    then show ?thesis using watch_lone [of k db0 db f now rd] assms(2) Rc_incidents by simp
  next
    case (Rc_access f now b)
    show ?thesis by (rule access_lone) (use Rc_access step assms(2) in simp_all)
  next
    case (Rc_search f now b g)
    then have "db' = db" "ph' = rc_answered (ra_search answers) f now b" using step by auto
    then show ?thesis using answered_lone [of k db0 db f now b g] assms(2) Rc_search by simp
  next
    case (Rc_search_threw f now b)
    then have "rc_or_failed db (rc_record_incident tk f now b Class_unknown ''unknown_provider_failure'' None db)
         (Rc_finished (rc_report Rc_incident_held (fm_id f) (fm_reconcileAttempts f))) = (db', ph')"
      and "doubtful k db0 f" "doubtful k db f" using step assms(2) by auto
    then show ?thesis by (auto elim!: or_failed_lone intro!: pending_lone(4) kept dest: rc_incident_same simp del: lone.simps)
  next
    case (Rc_search_refused f now b reason given inc retry)
    then show ?thesis using step assms(2) by (auto intro!: kept elim!: or_failed_lone dest: rc_incident_same)
  next
    case (Rc_refused_miss f reason retry)
    show ?thesis by (rule refused_miss_lone [OF assms(6)]) (use Rc_refused_miss step assms(2) in simp_all)
  next
    case (Rc_resolve f now b found)
    then show ?thesis using step assms(2)
      by (auto intro!: kept elim!: or_failed_lone dest: rc_resolved_same split: option.split)
  next
    case (Rc_found f pid tid)
    show ?thesis by (rule found_lone [OF assms(6)]) (use Rc_found step assms(2) in simp_all)
  next
    case (Rc_deliver f s)
    have "fence_sent k (rc_deliver rd f s db)"
      by (rule fence_sent_move [OF rc_deliver_moves [OF assms(3)] assms(6)]) (use assms(2) Rc_deliver in simp)
    then show ?thesis using step assms(2) Rc_deliver by auto
  next
    case (Rc_release f)
    then have f: "doubtful k db0 f" "fence_sent k db" using assms(2) by simp_all
    then have "lone k db0 d (rc_sent_report f)" if "rc_release_hold tk f db = Inr d" for d
      using that release_ends_doubt [OF that] doubtful_id [OF assms(5) f(1)] settled_same(1) [OF rc_release_same [OF that], of k]
      by (auto simp: outcome_true_def rc_sent_report_def)
    then show ?thesis using step Rc_release or_failed_lone by fastforce
  next
    case (Rc_miss f now)
    show ?thesis by (rule miss_lone [OF assms(6)]) (use Rc_miss step assms(2) in simp_all)
  next
    case (Rc_expire f n)
    show ?thesis by (rule expire_lone [OF assms(6) _ _ assms(5)]) (use Rc_expire step assms(2) in simp_all)
  next
    case (Rc_release_doubt f n)
    then have f: "doubtful k db0 f" "fence_unknown_terminal k db" using assms(2) by simp_all
    then have "lone k db0 d (Rc_open_terminal f n)" if "rc_release_hold tk f db = Inr d" for d
      using that release_ends_doubt [OF that] doubtful_id [OF assms(5) f(1)] settled_same(2) [OF rc_release_same [OF that], of k]
      by auto
    then show ?thesis using step Rc_release_doubt or_failed_lone by fastforce
  next
    case (Rc_open_terminal f n)
    then have f: "doubtful k db0 f" "fence_unknown_terminal k db" "\<not> doubt_open k db" using assms(2) by simp_all
    then have "lone k db0 d (Rc_finished (rc_report Rc_unknown_terminal (fm_id f) n))" if "rc_open_terminal tk f db = Inr d" for d
      using that open_asks [OF that, of k] settled_same(2) [OF rc_open_same [OF that], of k] by (auto simp: outcome_true_def)
    then show ?thesis using step Rc_open_terminal or_failed_lone by fastforce
  qed (use step assms(2) in auto)
qed

section \<open>The run\<close>

lemma reconcile_fewer:
  assumes "reconcile_left ph \<noteq> 0"
  shows "reconcile_left (snd (reconcile_next rd deps k tk answers ph db)) < reconcile_left ph"
  using assms
  by (cases ph) (auto simp: reconcile_next_def rc_begin_def rc_adopt_def rc_watch_def rc_access_def rc_answered_def rc_or_failed_def
      rc_refused_miss_def rc_found_def rc_sent_report_def rc_miss_def rc_expire_def Let_def
      split: option.split sum.split prod.split SendResult.split AccessOutcome.split GmailSentSearchOutcome.split)

lemma reconcile_ends: "reconcile_left (snd s) \<le> n \<Longrightarrow> reconcile_left (snd (reconcile_run rd deps k answers ticks n s)) = 0"
proof (induction n arbitrary: s)
  case (Suc n)
  show ?case
  proof (cases "reconcile_left (snd s) = 0")
    case False
    then have "reconcile_left (snd (reconcile_next rd deps k (ticks n) answers (snd s) (fst s))) \<le> n"
      using reconcile_fewer [OF False, of rd deps k "ticks n" answers "fst s"] Suc.prems by simp
    then show ?thesis using Suc.IH False by simp
  qed simp
qed simp

text \<open>A property of the phases that every step keeps holds at the end of the run.\<close>
lemma run_keeps:
  assumes "\<And>i db ph db' ph'. fence_inv (sx_outbound db) \<Longrightarrow> Q db ph \<Longrightarrow>
      reconcile_next rd deps k (ticks i) answers ph db = (db', ph') \<Longrightarrow> Q db' ph'"
    and "delivery_keeps_fences rd" "rc_window_positive deps" "fence_inv (sx_outbound (fst s))" "Q (fst s) (snd s)"
  shows "Q (fst (reconcile_run rd deps k answers ticks n s)) (snd (reconcile_run rd deps k answers ticks n s))"
  using assms(4,5)
proof (induction n arbitrary: s)
  case (Suc n)
  show ?case
  proof (cases "reconcile_left (snd s) = 0")
    case False
    let ?t = "reconcile_next rd deps k (ticks n) answers (snd s) (fst s)"
    have "fence_inv (sx_outbound (fst ?t))" by (rule inv_moves [OF reconcile_moves [OF assms(2,3)] Suc.prems(1)])
    moreover have "Q (fst ?t) (snd ?t)" by (rule assms(1) [OF Suc.prems, of n]) simp
    ultimately show ?thesis using Suc.IH [of ?t] False by simp
  qed (use Suc.prems in simp)
qed simp

lemma lone_run:
  assumes "delivery_keeps_fences rd" "rc_window_positive deps" "fence_inv (sx_outbound db)"
    and "reconcileOutboundMessage rd deps k answers ticks db = (db', ph)"
  shows "lone k db db' ph"
proof -
  have "lone k db (fst (reconcile_run rd deps k answers ticks 10 (db, Rc_start)))
      (snd (reconcile_run rd deps k answers ticks 10 (db, Rc_start)))"
    by (rule run_keeps [where Q = "lone k db"])
      (use assms(1-3) lone_next [OF _ _ assms(1-3)] in auto)
  then show ?thesis using assms(4) by (simp add: reconcileOutboundMessage_def)
qed

section \<open>Past the deadline\<close>

text \<open>What a search past the deadline can still end in.\<close>
definition late_outcomes :: "(string \<times> string) option \<Rightarrow> ReconcileOutcome set" where
  "late_outcomes found = {Rc_incident_held, Rc_cooldown, Rc_grant_revoked,
     if found = None then Rc_unknown_terminal else Rc_sent}"

fun late :: "instant \<Rightarrow> (string \<times> string) option \<Rightarrow> ReconcilePhase \<Rightarrow> bool" where
  "late d found Rc_start \<longleftrightarrow> True"
| "late d found (Rc_adopt _) \<longleftrightarrow> False"
| "late d found (Rc_incidents _ now) \<longleftrightarrow> d \<le> now"
| "late d found (Rc_bind _ now) \<longleftrightarrow> d \<le> now"
| "late d found (Rc_access _ now _) \<longleftrightarrow> d \<le> now"
| "late d found (Rc_search _ now _ _) \<longleftrightarrow> d \<le> now"
| "late d found (Rc_search_threw _ _ _) \<longleftrightarrow> False"
| "late d found (Rc_search_refused _ _ _ _ _ _ _) \<longleftrightarrow> False"
| "late d found (Rc_refused_miss _ _ _) \<longleftrightarrow> False"
| "late d found (Rc_resolve _ now _ h) \<longleftrightarrow> d \<le> now \<and> h = found"
| "late d found (Rc_found _ _ _) \<longleftrightarrow> found \<noteq> None"
| "late d found (Rc_deliver _ _) \<longleftrightarrow> found \<noteq> None"
| "late d found (Rc_release _) \<longleftrightarrow> found \<noteq> None"
| "late d found (Rc_miss _ now) \<longleftrightarrow> d \<le> now \<and> found = None"
| "late d found (Rc_expire _ _) \<longleftrightarrow> found = None"
| "late d found (Rc_release_doubt _ _) \<longleftrightarrow> found = None"
| "late d found (Rc_open_terminal _ _) \<longleftrightarrow> found = None"
| "late d found (Rc_finished r) \<longleftrightarrow> rr_outcome r \<in> late_outcomes found"
| "late d found (Rc_failed _) \<longleftrightarrow> True"

lemma expire_late:
  assumes "fence_inv (sx_outbound db)" "lone k db0 db (Rc_expire f n)" "fence_inv (sx_outbound db0)"
    and "fm_reconcileDeadlineAt f = Some d" "d \<le> tk_now tk" "rc_expire env deps tk f n db = (db', ph')"
  shows "ph' = Rc_release_doubt f n"
proof -
  obtain e r where c: "markUnknownTerminal env (tk_now tk) (fm_id f) (rc_actor deps) (sx_outbound db) = (e, r)"
    by fastforce
  obtain g where g: "doubtful k db g" "fm_reconcileDeadlineAt g = Some d" using assms(2,4) by auto
  have "fm_id f = k" using doubtful_id [OF assms(3)] assms(2) by auto
  then show ?thesis
    using unknown_reads [OF assms(1) c] g assms(5,6)
    by (cases r) (auto simp: rc_expire_def with_outbound_simp c doubtful_def)
qed

lemma late_next:
  assumes "reconcile_next rd deps k tk answers ph db = (db', ph')" "lone k db0 db ph" "late d found ph"
    and "fence_inv (sx_outbound db0)" "fence_inv (sx_outbound db)"
    and "doubtful k db0 f0" "fm_reconcileDeadlineAt f0 = Some d" "d \<le> tk_clock tk" "d \<le> tk_now tk"
    and "ra_search answers = Search_ok found"
  shows "late d found ph'"
proof -
  note step = assms(1) [unfolded reconcile_next_def]
  have same: "f = f0" if "doubtful k db0 f" for f using that assms(6) by (simp add: doubtful_def)
  show ?thesis
  proof (cases ph)
    case Rc_start
    then show ?thesis using step assms(2,6,8) by (auto simp: rc_begin_def doubtful_def)
  next
    case (Rc_miss f now)
    then have "f = f0" using assms(2) same by auto
    then show ?thesis using step assms(3,7) Rc_miss by (auto simp: rc_miss_def split: prod.splits if_splits)
  next
    case (Rc_expire f n)
    then have f: "f = f0" using assms(2) same by auto
    have "ph' = Rc_release_doubt f n"
      by (rule expire_late [OF assms(5) _ assms(4) _ assms(9)]) (use Rc_expire assms(2,7) f step in simp_all)
    then show ?thesis using assms(3) Rc_expire by simp
  next
    case (Rc_found f pid tid)
    then show ?thesis using step assms(3)
      by (auto simp: rc_found_def rc_sent_report_def late_outcomes_def split: prod.splits SendResult.splits)
  qed (use step assms(3,10) in \<open>auto simp: rc_watch_def rc_access_def rc_answered_def rc_or_failed_def rc_sent_report_def
      late_outcomes_def Let_def split: option.splits sum.splits prod.splits AccessOutcome.splits if_splits\<close>)
qed

section \<open>An example\<close>

text \<open>The reply of \<open>send_db\<close>, claimed and put in doubt for 24 hours, with the hold of its doubt.\<close>
definition doubt_outbound :: OutboundDb where
  "doubt_outbound = fst (beginReconciling env0 1767628800000 ''f1'' ''timeout'' 24 None
     (fst (claimForDispatch env0 1767628800000 ''tok'' ''f1'' None None [] send_outbound)))"

definition doubt_hold :: HoldRow where
  "doubt_hold = new_hold 1767628800000 ''h0'' (step_hold_input send_fence ''send_unknown_reconciling'' [''email_send''] None)"

definition doubt_db :: "unit SendDb" where
  "doubt_db = send_db\<lparr> sx_outbound := doubt_outbound, sx_holds := [doubt_hold] \<rparr>"

definition sweep_deps :: ReconcileDeps where
  "sweep_deps = \<lparr> rc_actor = None, rc_windowHours = None, rc_adoptAfterSeconds = None \<rparr>"

text \<open>Twenty-five hours later, Gmail finds nothing.\<close>
definition sweep_tick :: "nat \<Rightarrow> Tick" where
  "sweep_tick n = \<lparr> tk_now = 1767718800000, tk_clock = 1767718800000, tk_token = ''tok'', tk_touch = ''x1'', tk_epoch = ''e1'',
     tk_hold = ''h2'', tk_incident = ''i1'' \<rparr>"

definition sweep_answers :: ReconcileAnswers where
  "sweep_answers = \<lparr> ra_refreshedAt = 1767718800000, ra_refresh = Refresh_ok ''at'', ra_search = Search_ok None \<rparr>"

definition sweep_final :: "unit SendDb \<times> ReconcilePhase" where
  "sweep_final = reconcileOutboundMessage send_rd sweep_deps ''f1'' sweep_answers sweep_tick doubt_db"

lemma sweep_window: "rc_window_positive sweep_deps"
  by (simp add: rc_window_positive_def sweep_deps_def)

lemma doubt_inv: "fence_inv (sx_outbound doubt_db)"
  unfolding doubt_db_def doubt_outbound_def
  by (simp, rule prim_steps_inv [OF reconciling_prim prim_steps_inv [OF claim_prim send_outbound_inv]]) simp

lemma sweep_report: "snd sweep_final = Rc_finished (rc_report Rc_unknown_terminal ''f1'' 1)"
  by code_simp

lemma doubt_row: "map_option fm_reconcileDeadlineAt (readFence (sx_outbound doubt_db) ''f1'') = Some (Some 1767715200000)"
  "map_option fm_state (readFence (sx_outbound doubt_db) ''f1'') = Some Reconciling"
  by code_simp+

section \<open>The properties\<close>

lemma sweep_alone:
  assumes "rc_window_positive deps"
  shows "(sweep_step rd)\<^sup>*\<^sup>* \<lparr> sw_send = \<lparr> sy_db = fst s, sy_workers = ws' \<rparr>, sw_sweeps = [(k, snd s)] \<rparr>
     \<lparr> sw_send = \<lparr> sy_db = fst (reconcile_run rd deps k answers ticks n s), sy_workers = ws' \<rparr>,
       sw_sweeps = [(k, snd (reconcile_run rd deps k answers ticks n s))] \<rparr>"
proof (induction n arbitrary: s)
  case (Suc n)
  let ?s = "\<lparr> sw_send = \<lparr> sy_db = fst s, sy_workers = ws' \<rparr>, sw_sweeps = [(k, snd s)] \<rparr>"
  show ?case
  proof (cases "reconcile_left (snd s) = 0")
    case False
    define t where "t = reconcile_next rd deps k (ticks n) answers (snd s) (fst s)"
    have "sweep_step rd ?s \<lparr> sw_send = \<lparr> sy_db = fst t, sy_workers = ws' \<rparr>, sw_sweeps = [(k, snd t)] \<rparr>"
      using sweep_step.sweep [of 0 ?s k "snd s" deps rd "ticks n" answers "fst t" "snd t"] assms by (simp add: t_def)
    then show ?thesis
      using Suc.IH [of t] False by (auto simp: t_def [symmetric] intro: converse_rtranclp_into_rtranclp [where r = "sweep_step rd"])
  qed simp
qed simp

lemma sweep_demo_steps:
  "(sweep_step send_rd)\<^sup>*\<^sup>* \<lparr> sw_send = \<lparr> sy_db = doubt_db, sy_workers = [] \<rparr>, sw_sweeps = [] \<rparr>
     \<lparr> sw_send = \<lparr> sy_db = fst sweep_final, sy_workers = [] \<rparr>, sw_sweeps = [(''f1'', snd sweep_final)] \<rparr>"
proof -
  have "sweep_step send_rd \<lparr> sw_send = \<lparr> sy_db = doubt_db, sy_workers = [] \<rparr>, sw_sweeps = [] \<rparr>
      \<lparr> sw_send = \<lparr> sy_db = doubt_db, sy_workers = [] \<rparr>, sw_sweeps = [(''f1'', Rc_start)] \<rparr>"
    using sweep_step.observe [of send_rd "\<lparr> sw_send = \<lparr> sy_db = doubt_db, sy_workers = [] \<rparr>, sw_sweeps = [] \<rparr>" "''f1''"] by simp
  then show ?thesis
    using sweep_alone [OF sweep_window, of send_rd "(doubt_db, Rc_start)" "[]" "''f1''" sweep_answers sweep_tick 10]
    by (simp add: sweep_final_def reconcileOutboundMessage_def converse_rtranclp_into_rtranclp [where r = "sweep_step send_rd"])
qed

text \<open>C1: Reconciliations among senders.  However dispatches and reconciliations interleave and
  die, Gmail is called at most once for a fence, and a reconciliation that has reported an email
  as sent, or as given up, has left a settled fence: one given up is in \<open>unknown_terminal\<close>, and
  one found is sent, or was given up by somebody else in between.\<close>
theorem sweeps_send_nothing:
  assumes "delivery_keeps_fences rd" "fence_inv (sx_outbound db)" "sx_calls db = []"
    and "(sweep_step rd)\<^sup>*\<^sup>* \<lparr> sw_send = \<lparr> sy_db = db, sy_workers = [] \<rparr>, sw_sweeps = [] \<rparr> s"
  shows "length (filter (\<lambda>c. gc_fence c = k) (sx_calls (sy_db (sw_send s)))) \<le> 1 \<and>
    ((k, Rc_finished r) \<in> set (sw_sweeps s) \<longrightarrow> rr_outcome r \<in> {Rc_sent, Rc_unknown_terminal} \<longrightarrow>
      (\<exists>f. readFence (sx_outbound (sy_db (sw_send s))) k = Some f \<and>
         (fm_state f = Unknown_terminal \<or> rr_outcome r = Rc_sent \<and> fm_state f = Sent)))"
proof -
  have "sweep_ok \<lparr> sw_send = \<lparr> sy_db = db, sy_workers = [] \<rparr>, sw_sweeps = [] \<rparr>"
    using send_inv_initial [of "\<lparr> sy_db = db, sy_workers = [] \<rparr>"] assms(2,3) by (simp add: sweep_ok_def report_inv_def)
  then have ok: "sweep_ok s" by (rule sweeps_ok [OF assms(4,1)])
  have "fence_in k (sy_db (sw_send s)) (outcome_states (rr_outcome r))" if "(k, Rc_finished r) \<in> set (sw_sweeps s)"
    using ok that by (fastforce simp: sweep_ok_def rc_true_def)
  moreover have "length (filter (\<lambda>c. gc_fence c = k) (sx_calls (sy_db (sw_send s)))) \<le> 1"
    using ok send_invD(4) [of "sw_send s" k] by (auto simp: sweep_ok_def calls_of_def split: if_splits)
  ultimately show ?thesis
    using fence_in_settled [of k "sy_db (sw_send s)" "outcome_states (rr_outcome r)"] by auto
qed

theorem sweeps_send_nothing_witness:
  "snd sweep_final = Rc_finished (rc_report Rc_unknown_terminal ''f1'' 1) \<and>
   (\<exists>f. readFence (sx_outbound (fst sweep_final)) ''f1'' = Some f \<and> fm_state f = Unknown_terminal)"
  using sweeps_send_nothing [OF send_hook doubt_inv _ sweep_demo_steps, of "''f1''" "rc_report Rc_unknown_terminal ''f1'' 1"]
  by (simp add: sweep_report) (simp add: doubt_db_def send_db_def)

text \<open>C1: What a reconciliation on its own reports is so.  Sent and given up: the fence was in
  doubt and is now sent, or \<open>unknown_terminal\<close> with the question put to a person as an open hold
  on the firm, and no hold of the doubt is left open.  Adopted: it was dispatching and is now in
  doubt.  Unknown, or not in doubt: nothing has changed.  Every other outcome leaves it in doubt,
  with the attempts reported and one more at most.\<close>
theorem reconcile_report_true:
  assumes "delivery_keeps_fences rd" "rc_window_positive deps" "fence_inv (sx_outbound db)"
    and "reconcileOutboundMessage rd deps k answers ticks db = (db', Rc_finished r)"
  shows "outcome_true k db db' r"
  using lone_run [OF assms] by simp

theorem reconcile_report_true_witness:
  "question_open (the (readFence (sx_outbound doubt_db) ''f1'')) (fst sweep_final) \<and> \<not> doubt_open ''f1'' (fst sweep_final) \<and>
   doubt_open ''f1'' doubt_db"
proof -
  have "outcome_true ''f1'' doubt_db (fst sweep_final) (rc_report Rc_unknown_terminal ''f1'' 1)"
    using reconcile_report_true [OF send_hook sweep_window doubt_inv, of "''f1''" sweep_answers sweep_tick "fst sweep_final"]
      sweep_report by (simp add: sweep_final_def prod_eq_iff)
  moreover have "doubt_open ''f1'' doubt_db"
    by (simp add: doubt_open_def doubt_db_def doubt_hold_def new_hold_def step_hold_input_def send_fence_def prepared_row_simps)
  ultimately show ?thesis by (auto simp: outcome_true_def doubtful_def)
qed

text \<open>The doubt ends.  Once the deadline has passed, a reconciliation whose search Gmail
  answers never reports that the fate of the mail is still unknown: a mail found is sent, one not
  found is given up, unless the mailbox's incidents or its grant kept it from asking.\<close>
theorem late_search_settles:
  assumes "delivery_keeps_fences rd" "rc_window_positive deps" "fence_inv (sx_outbound db)"
    and "readFence (sx_outbound db) k = Some f" "fm_state f = Reconciling" "fm_reconcileDeadlineAt f = Some d"
    and "\<And>i. d \<le> tk_clock (ticks i)" "\<And>i. d \<le> tk_now (ticks i)" "ra_search answers = Search_ok found"
    and "reconcileOutboundMessage rd deps k answers ticks db = (db', Rc_finished r)"
  shows "rr_outcome r \<in> {Rc_incident_held, Rc_cooldown, Rc_grant_revoked} \<or>
    (rr_outcome r = Rc_sent \<and> found \<noteq> None \<and> fence_sent k db') \<or>
    (rr_outcome r = Rc_unknown_terminal \<and> found = None \<and> fence_unknown_terminal k db')"
proof -
  have doubt: "doubtful k db f" using assms(4,5) by (simp add: doubtful_def)
  let ?Q = "\<lambda>d' ph. lone k db d' ph \<and> late d found ph"
  have "?Q (fst (reconcile_run rd deps k answers ticks 10 (db, Rc_start)))
      (snd (reconcile_run rd deps k answers ticks 10 (db, Rc_start)))"
  proof (rule run_keeps [where Q = ?Q])
    show "?Q d2 ph2" if "fence_inv (sx_outbound d1)" "?Q d1 ph1"
      "reconcile_next rd deps k (ticks i) answers ph1 d1 = (d2, ph2)" for i d1 ph1 d2 ph2
      using lone_next [OF that(3) _ assms(1-3) that(1)]
        late_next [OF that(3) _ _ assms(3) that(1) doubt assms(6) assms(7,8) [of i] assms(9)] that(2) by blast
  qed (use assms(1-3) in auto)
  then have "outcome_true k db db' r" "rr_outcome r \<in> late_outcomes found"
    using assms(10) by (auto simp: reconcileOutboundMessage_def)
  then show ?thesis by (auto simp: late_outcomes_def outcome_true_def split: if_splits)
qed

theorem late_search_settles_witness:
  "rr_outcome (rc_report Rc_unknown_terminal ''f1'' 1) = Rc_unknown_terminal \<and> fence_unknown_terminal ''f1'' (fst sweep_final)"
proof -
  obtain f where f: "readFence (sx_outbound doubt_db) ''f1'' = Some f" "fm_state f = Reconciling"
      "fm_reconcileDeadlineAt f = Some 1767715200000"
    using doubt_row by auto
  show ?thesis
    using late_search_settles [OF send_hook sweep_window doubt_inv f, of sweep_tick sweep_answers None "fst sweep_final"
        "rc_report Rc_unknown_terminal ''f1'' 1"] sweep_report
    by (simp add: sweep_final_def prod_eq_iff sweep_tick_def [abs_def] sweep_answers_def)
qed

text \<open>A reconciliation ends, in a report or in an exception, within ten steps.\<close>
theorem reconcile_returns:
  "(\<exists>r. snd (reconcileOutboundMessage rd deps k answers ticks db) = Rc_finished r) \<or>
   (\<exists>e. snd (reconcileOutboundMessage rd deps k answers ticks db) = Rc_failed e)"
proof -
  have "reconcile_left (snd (reconcileOutboundMessage rd deps k answers ticks db)) = 0"
    unfolding reconcileOutboundMessage_def by (rule reconcile_ends) simp
  then show ?thesis by (cases "snd (reconcileOutboundMessage rd deps k answers ticks db)") auto
qed

end
