(* ===== verification/Policy.thy ===== *)
theory Policy
  imports JobStore Holds CallingWindow
begin

text \<open>
  The legal and administrative policy of calls: \<open>packages/domain/src/rules/statePosture.ts\<close>
  (the states, the zone of a firm, the applicable posture), \<open>packages/domain/policy/postures.ts\<close>
  (the table of postures), \<open>pauses.ts\<close> and \<open>callingWindows.ts\<close>.  The quoted texts of the
  statutes are data nothing decides on; of them only the titles and addresses a row stores are
  kept, as a parameter.  \<open>toUpperCase\<close> is the parameter \<open>up\<close>.
\<close>

section \<open>Refusals (types.ts)\<close>

datatype PolicyRefusalCode = Admin_only | Not_assigned | Firm_unknown | Posture_unknown | Refuse_posture_overlapping
  | Posture_already_revoked | Pause_unknown | Pause_already_released | Callback_unknown | Callback_not_open
  | Window_not_narrower | Invalid_input | Callback_instant_mismatch | Call_log_unknown | Callback_already_scheduled
  | Route_unknown | Contact_unknown | Ticket_mismatch | Identity_unknown | Item_unknown | Occurred_at_in_future
  | Version_unknown | Version_not_published | Agreement_exists | Call_too_old | Not_call_actor | Follow_up_expired
  | Call_already_logged

datatype 'a PolicyResult = Policy_ok 'a | Policy_refused PolicyRefusalCode

definition CHANNEL_BLOCKED_ACTION_KINDS :: "string \<Rightarrow> string list" where
  "CHANNEL_BLOCKED_ACTION_KINDS channel =
     (if channel = ''email'' then [''email_send'']
      else if channel = ''call'' then [''call_task'', ''dial_authorization'']
      else if channel = ''research'' then [''research''] else [])"

definition ALL_BLOCKED_ACTION_KINDS :: "string list" where
  "ALL_BLOCKED_ACTION_KINDS = BLOCKED_ACTION_KINDS"

section \<open>States and their zones (statePosture.ts)\<close>

definition US_STATE_CODES :: "string list" where
  "US_STATE_CODES = [
    ''AL'', ''AK'', ''AZ'', ''AR'', ''CA'', ''CO'', ''CT'', ''DE'', ''DC'', ''FL'', ''GA'', ''HI'', ''ID'', ''IL'', ''IN'',
    ''IA'', ''KS'', ''KY'', ''LA'', ''ME'', ''MD'', ''MA'', ''MI'', ''MN'', ''MS'', ''MO'', ''MT'', ''NE'', ''NV'', ''NH'',
    ''NJ'', ''NM'', ''NY'', ''NC'', ''ND'', ''OH'', ''OK'', ''OR'', ''PA'', ''RI'', ''SC'', ''SD'', ''TN'', ''TX'', ''UT'',
    ''VT'', ''VA'', ''WA'', ''WV'', ''WI'', ''WY'']"

definition isUsStateCode :: "string \<Rightarrow> bool" where
  "isUsStateCode value \<longleftrightarrow> value \<in> set US_STATE_CODES"

definition MULTI_ZONE_STATES :: "(string \<times> string \<times> string) list" where
  "MULTI_ZONE_STATES = [
    (''AK'', ''America/Anchorage'', ''America/Adak''), (''AZ'', ''America/Phoenix'', ''America/Denver''),
    (''FL'', ''America/New_York'', ''America/Chicago''), (''ID'', ''America/Boise'', ''America/Los_Angeles''),
    (''IN'', ''America/Indiana/Indianapolis'', ''America/Chicago''), (''KS'', ''America/Chicago'', ''America/Denver''),
    (''KY'', ''America/Kentucky/Louisville'', ''America/Chicago''), (''MI'', ''America/Detroit'', ''America/Menominee''),
    (''NE'', ''America/Chicago'', ''America/Denver''), (''NV'', ''America/Los_Angeles'', ''America/Boise''),
    (''ND'', ''America/Chicago'', ''America/Denver''), (''OR'', ''America/Los_Angeles'', ''America/Boise''),
    (''SD'', ''America/Chicago'', ''America/Denver''), (''TN'', ''America/New_York'', ''America/Chicago''),
    (''TX'', ''America/Chicago'', ''America/Denver'')]"

definition isMultiZoneState :: "string \<Rightarrow> bool" where
  "isMultiZoneState value \<longleftrightarrow> isUsStateCode value \<and> map_of MULTI_ZONE_STATES value \<noteq> None"

definition STATE_DEFAULT_ZONES :: "(string \<times> string) list" where
  "STATE_DEFAULT_ZONES =
     map (\<lambda>s. (s, ''America/New_York'')) [''CT'', ''DE'', ''DC'', ''MA'', ''MD'', ''ME'', ''NH'', ''NJ'', ''NY'', ''PA'', ''RI'',
       ''VT'', ''VA'', ''WV'', ''GA'', ''NC'', ''SC'', ''OH''] @
     map (\<lambda>s. (s, ''America/Chicago'')) [''AL'', ''AR'', ''IA'', ''IL'', ''LA'', ''MN'', ''MO'', ''MS'', ''OK'', ''WI''] @
     map (\<lambda>s. (s, ''America/Denver'')) [''CO'', ''MT'', ''NM'', ''UT'', ''WY''] @
     map (\<lambda>s. (s, ''America/Los_Angeles'')) [''CA'', ''WA''] @ [(''HI'', ''Pacific/Honolulu'')]"

definition stateDefaultZone :: "(string \<Rightarrow> string) \<Rightarrow> string \<Rightarrow> string option" where
  "stateDefaultZone up state =
     (let code = up (js_trim state) in
      if \<not> isUsStateCode code then None else
      if map_of MULTI_ZONE_STATES code \<noteq> None then None else map_of STATE_DEFAULT_ZONES code)"

record FirmLocation =
  recordedZone :: "string option"
  fl_state :: "string option"
  fl_postalCode :: "string option"
  fl_latitude :: "rat option"
  fl_longitude :: "rat option"

datatype FirmZoneSourceName = Zone_recorded | Zone_postal | Zone_coordinates | Zone_state_default

datatype ZoneUnresolved = No_location | State_spans_zones | State_unknown | No_default_for_state

datatype FirmZoneResolution =
    Zone_resolved string FirmZoneSourceName bool
  | Zone_unresolved ZoneUnresolved

text \<open>A source is its name and its \<open>resolve\<close>.\<close>
type_synonym FirmZoneSource = "FirmZoneSourceName \<times> (FirmLocation \<Rightarrow> string option)"

fun first_zone :: "FirmZoneSource list \<Rightarrow> FirmLocation \<Rightarrow> (string \<times> FirmZoneSourceName) option" where
  "first_zone [] location = None"
| "first_zone ((name, resolve) # sources) location = (case resolve location of
     Some zone \<Rightarrow> if zone \<noteq> [] then Some (zone, name) else first_zone sources location
   | None \<Rightarrow> first_zone sources location)"

text \<open>The flag is the confidence: high for a zone of the firm's own location.\<close>
definition resolveFirmZone :: "(string \<Rightarrow> string) \<Rightarrow> FirmLocation \<Rightarrow> FirmZoneSource list \<Rightarrow> FirmZoneResolution" where
  "resolveFirmZone up location sources =
     (let recorded = map_option js_trim (recordedZone location) in
      if recorded \<noteq> None \<and> recorded \<noteq> Some [] then Zone_resolved (the recorded) Zone_recorded True else
      (case first_zone sources location of
         Some (zone, name) \<Rightarrow> Zone_resolved zone name True
       | None \<Rightarrow>
           (case map_option (\<lambda>s. up (js_trim s)) (fl_state location) of
              None \<Rightarrow> Zone_unresolved No_location
            | Some state \<Rightarrow>
                if state = [] then Zone_unresolved No_location else
                if \<not> isUsStateCode state then Zone_unresolved State_unknown else
                if isMultiZoneState state then Zone_unresolved State_spans_zones else
                (case stateDefaultZone up state of
                   None \<Rightarrow> Zone_unresolved No_default_for_state
                 | Some fallback \<Rightarrow> Zone_resolved fallback Zone_state_default False))))"

section \<open>Postures (statePosture.ts)\<close>

definition POSTURE_RULES_REVISION :: nat where
  "POSTURE_RULES_REVISION = 2"

definition POSTURE_STATEMENT_KEYS :: "string list" where
  "POSTURE_STATEMENT_KEYS = [''businessToBusiness'', ''registrationStatusChecked'', ''stateDncSubscriptionChecked'',
     ''consentRuleConfirmed'']"

record StatePostureRecord =
  pr_state :: string
  pr_revision :: nat
  pr_effectiveFrom :: "instant option"
  pr_effectiveTo :: "instant option option"
  pr_reviewAt :: "instant option"
  pr_revokedAt :: "instant option option"

datatype PostureRefusal = Posture_missing | Posture_overlapping

datatype PostureDecision = Posture_applies StatePostureRecord | Posture_refused PostureRefusal

definition posture_applicable :: "(string \<Rightarrow> string) \<Rightarrow> string \<Rightarrow> instant \<Rightarrow> StatePostureRecord \<Rightarrow> bool" where
  "posture_applicable up code moment p \<longleftrightarrow>
     up (js_trim (pr_state p)) = code \<and> pr_revokedAt p = None \<and>
     (case pr_effectiveFrom p of None \<Rightarrow> False | Some s \<Rightarrow> s \<le> moment) \<and>
     (case pr_effectiveTo p of None \<Rightarrow> True | Some None \<Rightarrow> False | Some (Some e) \<Rightarrow> moment < e)"

definition selectApplicablePosture :: "(string \<Rightarrow> string) \<Rightarrow> StatePostureRecord list \<Rightarrow> string \<Rightarrow> instant option \<Rightarrow>
    HoldRuleError + PostureDecision" where
  "selectApplicablePosture up postures state now = (case now of
     None \<Rightarrow> Inl Type_error
   | Some moment \<Rightarrow> Inr (case filter (posture_applicable up (up (js_trim state)) moment) postures of
       [] \<Rightarrow> Posture_refused Posture_missing
     | [p] \<Rightarrow> Posture_applies p
     | _ \<Rightarrow> Posture_refused Posture_overlapping))"

text \<open>One calendar year later: \<open>setUTCFullYear\<close> keeps the month and the day, and 29 February
  becomes 1 March.\<close>
definition postureReviewAt :: "instant option \<Rightarrow> HoldRuleError + instant" where
  "postureReviewAt confirmedAt = (case confirmedAt of
     None \<Rightarrow> Inl Type_error
   | Some parsed \<Rightarrow>
       (let n = parsed div ms_per_day;
            later = ms_per_day * make_day (year_of n + 1) (month_of n) (date_of n) + parsed mod ms_per_day in
        if \<bar>later\<bar> > 8640000000000000 then Inl Range_error else Inr later))"

section \<open>The table of postures (postures.ts)\<close>

record StatePostureRow =
  sp_id :: uuid
  sp_state :: string
  sp_revision :: nat
  sp_effectiveFrom :: instant
  sp_effectiveTo :: "instant option"
  sp_reviewAt :: instant
  sp_rulesRevision :: nat
  sp_confirmedStatements :: "string list"
  sp_sources :: "(string \<times> string) list"
  sp_confirmedByUserId :: uuid
  sp_note :: "string option"
  sp_createdAt :: instant
  sp_revokedAt :: "instant option"
  sp_revokedByUserId :: "uuid option"

definition toRecord :: "StatePostureRow \<Rightarrow> StatePostureRecord" where
  "toRecord p = \<lparr> pr_state = sp_state p, pr_revision = sp_revision p, pr_effectiveFrom = Some (sp_effectiveFrom p),
     pr_effectiveTo = map_option Some (sp_effectiveTo p), pr_reviewAt = Some (sp_reviewAt p),
     pr_revokedAt = map_option Some (sp_revokedAt p) \<rparr>"

definition listStatePostures :: "StatePostureRow list \<Rightarrow> string option \<Rightarrow> StatePostureRow list" where
  "listStatePostures rows state = sort_key (\<lambda>p. (sp_state p, sp_revision p))
     (filter (\<lambda>p. case state of None \<Rightarrow> True | Some s \<Rightarrow> sp_state p = s) rows)"

definition applicablePosture :: "(string \<Rightarrow> string) \<Rightarrow> StatePostureRow list \<Rightarrow> string \<Rightarrow> instant option \<Rightarrow>
    HoldRuleError + (StatePostureRow option \<times> PostureDecision)" where
  "applicablePosture up rows state now =
     (let postures = listStatePostures rows (Some (up (js_trim state))) in
      and_then (selectApplicablePosture up (map toRecord postures) state now) (\<lambda>decision.
        case decision of
          Posture_refused r \<Rightarrow> Inr (None, decision)
        | Posture_applies p \<Rightarrow>
            (case find (\<lambda>row. sp_revision row = pr_revision p \<and> sp_state row = pr_state p) postures of
               None \<Rightarrow> Inr (None, Posture_refused Posture_missing)
             | Some chosen \<Rightarrow> Inr (Some chosen, decision))))"

text \<open>The CHECK constraints of \<open>0006_policy.sql\<close>; \<open>0019\<close> drops the one on the review date.\<close>
definition posture_row_ok :: "StatePostureRow \<Rightarrow> bool" where
  "posture_row_ok p \<longleftrightarrow>
     length (sp_state p) = 2 \<and> list_all (\<lambda>c. CHR ''A'' \<le> c \<and> c \<le> CHR ''Z'') (sp_state p) \<and>
     1 \<le> sp_revision p \<and> 1 \<le> sp_rulesRevision p \<and>
     (case sp_effectiveTo p of None \<Rightarrow> True | Some e \<Rightarrow> sp_effectiveFrom p < e) \<and>
     sp_confirmedStatements p \<noteq> [] \<and>
     (case sp_note p of None \<Rightarrow> True | Some n \<Rightarrow> (\<exists>c\<in>set n. c \<noteq> CHR '' '') \<and> length n \<le> 1000) \<and>
     ((sp_revokedAt p = None) = (sp_revokedByUserId p = None)) \<and>
     (case sp_revokedAt p of None \<Rightarrow> True | Some r \<Rightarrow> sp_createdAt p \<le> r)"

text \<open>The exclusion constraint, partial on the rows that are not revoked.\<close>
definition postures_overlap :: "StatePostureRow \<Rightarrow> StatePostureRow \<Rightarrow> bool" where
  "postures_overlap p q \<longleftrightarrow> sp_state p = sp_state q \<and> sp_revokedAt p = None \<and> sp_revokedAt q = None \<and>
     (case sp_effectiveTo q of None \<Rightarrow> True | Some e \<Rightarrow> sp_effectiveFrom p < e) \<and>
     (case sp_effectiveTo p of None \<Rightarrow> True | Some e \<Rightarrow> sp_effectiveFrom q < e)"

datatype PostureDbError = Posture_check | Posture_exclusion

definition insert_posture :: "StatePostureRow \<Rightarrow> StatePostureRow list \<Rightarrow> PostureDbError + StatePostureRow list" where
  "insert_posture p rows =
     (if \<not> posture_row_ok p then Inl Posture_check else
      if list_ex (postures_overlap p) rows then Inl Posture_exclusion else Inr (rows @ [p]))"

definition next_revision :: "StatePostureRow list \<Rightarrow> string \<Rightarrow> nat" where
  "next_revision rows state = foldl max 0 (map sp_revision (filter (\<lambda>p. sp_state p = state) rows)) + 1"

text \<open>What a statement draws: \<open>now()\<close> and the row's default id.\<close>
record PostureInput =
  po_state :: string
  po_effectiveFrom :: "instant option"
  po_effectiveTo :: "instant option"
  po_reviewAt :: "instant option"
  po_confirmedStatements :: "string list"
  po_note :: "string option"

definition posture_row :: "instant \<Rightarrow> uuid \<Rightarrow> uuid \<Rightarrow> (string \<Rightarrow> (string \<times> string) list) \<Rightarrow> StatePostureRow list \<Rightarrow> string \<Rightarrow>
    instant \<Rightarrow> instant option \<Rightarrow> instant \<Rightarrow> string list \<Rightarrow> string option \<Rightarrow> StatePostureRow" where
  "posture_row now fresh userId sources rows state effectiveFrom effectiveTo reviewAt statements note =
     \<lparr> sp_id = fresh, sp_state = state, sp_revision = next_revision rows state, sp_effectiveFrom = effectiveFrom,
       sp_effectiveTo = effectiveTo, sp_reviewAt = reviewAt, sp_rulesRevision = POSTURE_RULES_REVISION,
       sp_confirmedStatements = statements, sp_sources = sources state, sp_confirmedByUserId = userId, sp_note = note,
       sp_createdAt = now, sp_revokedAt = None, sp_revokedByUserId = None \<rparr>"

definition admin_user :: "ScopeActor \<Rightarrow> uuid option" where
  "admin_user actor = (if isAdminScope actor then (case actor of Actor_user u _ \<Rightarrow> Some u | Actor_system _ \<Rightarrow> None) else None)"

definition recordStatePosture :: "(string \<Rightarrow> string) \<Rightarrow> (string \<Rightarrow> (string \<times> string) list) \<Rightarrow> instant \<Rightarrow> uuid \<Rightarrow> ScopeActor \<Rightarrow>
    PostureInput \<Rightarrow> StatePostureRow list \<Rightarrow> HoldRuleError + (StatePostureRow list \<times> StatePostureRow PolicyResult)" where
  "recordStatePosture up sources now fresh actor input rows = (case admin_user actor of
     None \<Rightarrow> Inr (rows, Policy_refused Admin_only)
   | Some userId \<Rightarrow>
       (let state = up (js_trim (po_state input));
            confirmed = sort (remdups (po_confirmedStatements input)) in
        if \<not> isUsStateCode state then Inr (rows, Policy_refused Invalid_input) else
        if confirmed \<noteq> sort POSTURE_STATEMENT_KEYS then Inr (rows, Policy_refused Invalid_input) else
        (case po_effectiveFrom input of
           None \<Rightarrow> Inr (rows, Policy_refused Invalid_input)
         | Some effectiveFrom \<Rightarrow>
             and_then (case po_reviewAt input of Some r \<Rightarrow> Inr r | None \<Rightarrow> postureReviewAt (Some effectiveFrom)) (\<lambda>reviewAt.
               let row = posture_row now fresh userId sources rows state effectiveFrom (po_effectiveTo input) reviewAt
                     confirmed (po_note input) in
               case insert_posture row rows of
                 Inr rows' \<Rightarrow> Inr (rows', Policy_ok row)
               | Inl Posture_exclusion \<Rightarrow> Inr (rows, Policy_refused Refuse_posture_overlapping)
               | Inl Posture_check \<Rightarrow> Inr (rows, Policy_refused Invalid_input)))))"

record AllowedStates =
  as_postures :: "StatePostureRow list"
  as_added :: "string list"
  as_alreadyAllowed :: "string list"

datatype AllowError = Allow_rule HoldRuleError | Allow_check

text \<open>The loop over the states.  A refusal part way leaves the rows it had added, which the
  caller's savepoint takes back.\<close>
fun allow_each :: "(string \<Rightarrow> string) \<Rightarrow> (string \<Rightarrow> (string \<times> string) list) \<Rightarrow> instant \<Rightarrow> (string \<Rightarrow> uuid) \<Rightarrow> uuid \<Rightarrow>
    string option \<Rightarrow> string list \<Rightarrow> AllowedStates \<Rightarrow> StatePostureRow list \<Rightarrow>
    AllowError + (StatePostureRow list \<times> AllowedStates PolicyResult)" where
  "allow_each up sources moment fresh userId note [] acc rows = Inr (rows, Policy_ok acc)"
| "allow_each up sources moment fresh userId note (state # states) acc rows =
     (case applicablePosture up rows state (Some moment) of
        Inl e \<Rightarrow> Inl (Allow_rule e)
      | Inr (Some posture, _) \<Rightarrow>
          allow_each up sources moment fresh userId note states
            (acc\<lparr> as_postures := as_postures acc @ [posture], as_alreadyAllowed := as_alreadyAllowed acc @ [state] \<rparr>) rows
      | Inr (None, _) \<Rightarrow>
          (case postureReviewAt (Some moment) of
             Inl e \<Rightarrow> Inl (Allow_rule e)
           | Inr reviewAt \<Rightarrow>
               let row = posture_row moment (fresh state) userId sources rows state moment None reviewAt
                     (sort POSTURE_STATEMENT_KEYS) note in
               (case insert_posture row rows of
                  Inl Posture_exclusion \<Rightarrow> Inr (rows, Policy_refused Refuse_posture_overlapping)
                | Inl Posture_check \<Rightarrow> Inl Allow_check
                | Inr rows' \<Rightarrow> allow_each up sources moment fresh userId note states
                    (acc\<lparr> as_postures := as_postures acc @ [row], as_added := as_added acc @ [state] \<rparr>) rows')))"

definition unique_first :: "'a list \<Rightarrow> 'a list" where
  "unique_first xs = rev (remdups (rev xs))"

definition allowCallingStates :: "(string \<Rightarrow> string) \<Rightarrow> (string \<Rightarrow> (string \<times> string) list) \<Rightarrow> instant \<Rightarrow> (string \<Rightarrow> uuid) \<Rightarrow>
    ScopeActor \<Rightarrow> string list \<Rightarrow> string option \<Rightarrow> StatePostureRow list \<Rightarrow>
    AllowError + (StatePostureRow list \<times> AllowedStates PolicyResult)" where
  "allowCallingStates up sources now fresh actor asked note rows = (case admin_user actor of
     None \<Rightarrow> Inr (rows, Policy_refused Admin_only)
   | Some userId \<Rightarrow>
       (let states = unique_first (map (\<lambda>s. up (js_trim s)) asked);
            trimmed = (case note of None \<Rightarrow> [] | Some n \<Rightarrow> js_trim n) in
        if states = [] \<or> list_ex (\<lambda>s. \<not> isUsStateCode s) states then Inr (rows, Policy_refused Invalid_input) else
        if length trimmed > 1000 then Inr (rows, Policy_refused Invalid_input) else
        allow_each up sources now fresh userId (if trimmed = [] then None else Some trimmed) states
          \<lparr> as_postures = [], as_added = [], as_alreadyAllowed = [] \<rparr> rows))"

text \<open>The last case is the CHECK that a revocation is not before the creation.\<close>
definition revokeStatePosture :: "instant \<Rightarrow> ScopeActor \<Rightarrow> uuid \<Rightarrow> StatePostureRow list \<Rightarrow>
    PostureDbError + (StatePostureRow list \<times> StatePostureRow PolicyResult)" where
  "revokeStatePosture now actor postureId rows = (case admin_user actor of
     None \<Rightarrow> Inr (rows, Policy_refused Admin_only)
   | Some userId \<Rightarrow>
       (let revoke = (\<lambda>p. p\<lparr> sp_revokedAt := Some now, sp_revokedByUserId := Some userId \<rparr>);
            hit = (\<lambda>p. sp_id p = postureId \<and> sp_revokedAt p = None) in
        case sql_one hit rows of
          Some p \<Rightarrow> if posture_row_ok (revoke p) then Inr (sql_update hit revoke rows, Policy_ok (revoke p))
            else Inl Posture_check
        | None \<Rightarrow> Inr (rows, Policy_refused (if sql_one (\<lambda>p. sp_id p = postureId) rows = None then Posture_unknown
            else Posture_already_revoked))))"

section \<open>Administrative pauses (pauses.ts)\<close>

definition PAUSE_SCOPE_KINDS :: "string list" where
  "PAUSE_SCOPE_KINDS = [''workspace'', ''owner'', ''mailbox'', ''opportunity'', ''channel'', ''all_automation'']"

definition PAUSE_CHANNELS :: "string list" where
  "PAUSE_CHANNELS = [''email'', ''call'', ''research'']"

record OpenPauseInput =
  op_scopeKind :: string
  op_scopeKey :: "string option"
  op_channel :: "string option"
  op_reasonNote :: "string option"
  op_commandId :: "string option"

record PauseDbRow =
  ps_id :: uuid
  ps_scopeKind :: string
  ps_scopeKey :: "string option"
  ps_channel :: "string option"
  ps_reasonNote :: "string option"
  ps_holdId :: uuid
  ps_createdByUserId :: uuid
  ps_createdAt :: instant
  ps_releasedByUserId :: "uuid option"
  ps_releasedAt :: "instant option"

record PauseDb =
  pd_holds :: "HoldRow list"
  pd_pauses :: "PauseDbRow list"

text \<open>\<open>toPause\<close> blanks a channel that is no longer known; the columns it drops are not read.\<close>
definition isKnownChannel :: "string option \<Rightarrow> bool" where
  "isKnownChannel channel \<longleftrightarrow> (case channel of None \<Rightarrow> True | Some c \<Rightarrow> c \<in> set PAUSE_CHANNELS)"

definition toPause :: "PauseDbRow \<Rightarrow> PauseDbRow" where
  "toPause row = row\<lparr> ps_channel := (if isKnownChannel (ps_channel row) then ps_channel row else None) \<rparr>"

definition holdScopeOf :: "string \<Rightarrow> string" where
  "holdScopeOf scopeKind = (if scopeKind = ''all_automation'' then ''workspace'' else scopeKind)"

definition blockedKindsOf :: "OpenPauseInput \<Rightarrow> string list" where
  "blockedKindsOf input = (case op_channel input of Some c \<Rightarrow> CHANNEL_BLOCKED_ACTION_KINDS c
     | None \<Rightarrow> ALL_BLOCKED_ACTION_KINDS)"

definition keyless :: "OpenPauseInput \<Rightarrow> bool" where
  "keyless input \<longleftrightarrow> op_scopeKind input = ''workspace'' \<or> op_scopeKind input = ''all_automation''"

definition pause_key :: "OpenPauseInput \<Rightarrow> string option" where
  "pause_key input = (if op_scopeKind input = ''channel'' then op_channel input else op_scopeKey input)"

definition pause_hold :: "OpenPauseInput \<Rightarrow> OpenHoldInput" where
  "pause_hold input = \<lparr> oi_scopeKind = holdScopeOf (op_scopeKind input),
     oi_scopeKey = (if keyless input then None else Some (case pause_key input of None \<Rightarrow> [] | Some k \<Rightarrow> k)),
     oi_reasonCode = ''scoped_pause'', oi_blockedActionKinds = blockedKindsOf input,
     oi_sourceEventKind = ''administrative_pause'', oi_sourceEventId = op_commandId input,
     oi_ownerUserId = (if op_scopeKind input = ''owner'' then pause_key input else None),
     oi_recoveryAction = Some ''release_pause'' \<rparr>"

text \<open>The CHECK constraints of \<open>administrative_pauses\<close>.\<close>
definition pause_row_ok :: "PauseDbRow \<Rightarrow> bool" where
  "pause_row_ok p \<longleftrightarrow> ps_scopeKind p \<in> set PAUSE_SCOPE_KINDS \<and>
     (ps_scopeKind p \<in> {''workspace'', ''all_automation''}) = (ps_scopeKey p = None) \<and>
     (case ps_channel p of None \<Rightarrow> True | Some c \<Rightarrow> c \<in> set PAUSE_CHANNELS) \<and>
     (ps_scopeKind p = ''channel'') = (ps_channel p \<noteq> None) \<and>
     (case ps_reasonNote p of None \<Rightarrow> True | Some n \<Rightarrow> (\<exists>c\<in>set n. c \<noteq> CHR '' '') \<and> length n \<le> 500) \<and>
     ((ps_releasedAt p = None) = (ps_releasedByUserId p = None)) \<and>
     (case ps_releasedAt p of None \<Rightarrow> True | Some r \<Rightarrow> ps_createdAt p \<le> r)"

definition openPause :: "instant \<Rightarrow> uuid \<Rightarrow> uuid \<Rightarrow> ScopeActor \<Rightarrow> OpenPauseInput \<Rightarrow> PauseDb \<Rightarrow>
    HoldDbError + (PauseDb \<times> PauseDbRow PolicyResult)" where
  "openPause now freshHold freshPause actor input db = (case admin_user actor of
     None \<Rightarrow> Inr (db, Policy_refused Admin_only)
   | Some userId \<Rightarrow>
       if (op_scopeKind input = ''channel'') \<noteq> (op_channel input \<noteq> None) then Inr (db, Policy_refused Invalid_input) else
       if keyless input \<and> op_scopeKey input \<noteq> None then Inr (db, Policy_refused Invalid_input) else
       if \<not> keyless input \<and> pause_key input = None then Inr (db, Policy_refused Invalid_input) else
       and_then (openHold now freshHold (pause_hold input) (pd_holds db)) (\<lambda>(holds, holdId).
         let row = \<lparr> ps_id = freshPause, ps_scopeKind = op_scopeKind input,
               ps_scopeKey = (if keyless input then None else pause_key input), ps_channel = op_channel input,
               ps_reasonNote = op_reasonNote input, ps_holdId = holdId, ps_createdByUserId = userId,
               ps_createdAt = now, ps_releasedByUserId = None, ps_releasedAt = None \<rparr> in
         if \<not> pause_row_ok row then Inl Check_violation
         else Inr (\<lparr> pd_holds = holds, pd_pauses = pd_pauses db @ [row] \<rparr>, Policy_ok (toPause row))))"

definition pause_released :: "instant \<Rightarrow> uuid \<Rightarrow> PauseDbRow \<Rightarrow> PauseDbRow" where
  "pause_released now userId p = p\<lparr> ps_releasedAt := Some now, ps_releasedByUserId := Some userId \<rparr>"

definition releasePause :: "instant \<Rightarrow> ScopeActor \<Rightarrow> uuid \<Rightarrow> PauseDb \<Rightarrow> HoldDbError + (PauseDb \<times> PauseDbRow PolicyResult)" where
  "releasePause now actor pauseId db = (case admin_user actor of
     None \<Rightarrow> Inr (db, Policy_refused Admin_only)
   | Some userId \<Rightarrow>
       (let hit = (\<lambda>p. ps_id p = pauseId \<and> ps_releasedAt p = None) in
        case sql_one hit (pd_pauses db) of
          None \<Rightarrow> Inr (db, Policy_refused (if sql_one (\<lambda>p. ps_id p = pauseId) (pd_pauses db) = None then Pause_unknown
            else Pause_already_released))
        | Some row \<Rightarrow>
            if now < ps_createdAt row then Inl Check_violation else
            and_then (releaseHold now (ps_holdId row) None (pd_holds db)) (\<lambda>(holds, _).
              Inr (\<lparr> pd_holds = holds, pd_pauses = sql_update hit (pause_released now userId) (pd_pauses db) \<rparr>,
                Policy_ok (toPause (pause_released now userId row))))))"

text \<open>Newest first.\<close>
definition listPauses :: "bool \<Rightarrow> PauseDb \<Rightarrow> PauseDbRow list" where
  "listPauses openOnly db = map toPause (filter (\<lambda>p. isKnownChannel (ps_channel p))
     (sort_key (\<lambda>p. - ps_createdAt p) (filter (\<lambda>p. openOnly \<longrightarrow> ps_releasedAt p = None) (pd_pauses db))))"

section \<open>The configured calling window (callingWindows.ts)\<close>

record ConfiguredCallingWindow =
  cc_id :: uuid
  cc_version :: nat
  cc_window :: CallingWindow
  cc_weekdays :: "int list"

record CallingWindowRow =
  cw_id :: uuid
  cw_version :: nat
  cw_startMinute :: int
  cw_endMinute :: int
  cw_weekdays :: "int list"
  cw_createdByUserId :: uuid
  cw_supersededAt :: "instant option"
  cw_supersededByUserId :: "uuid option"

definition FLOOR_CALLING_WINDOW :: ConfiguredCallingWindow where
  "FLOOR_CALLING_WINDOW = \<lparr> cc_id = [], cc_version = 0, cc_window = CALLING_WINDOW_FLOOR,
     cc_weekdays = CALLING_WINDOW_WEEKDAYS \<rparr>"

definition narrowWeekdays :: "int list \<Rightarrow> int list" where
  "narrowWeekdays configured =
     (let inside = sort (filter (\<lambda>d. d \<in> set CALLING_WINDOW_WEEKDAYS) configured) in
      if inside = [] then CALLING_WINDOW_WEEKDAYS else inside)"

definition as_number :: "CallingWindow \<Rightarrow> rat window" where
  "as_number w = \<lparr> startMinute = rat_of_int (startMinute w), endMinute = rat_of_int (endMinute w) \<rparr>"

definition currentCallingWindow :: "CallingWindowRow list \<Rightarrow> ConfiguredCallingWindow" where
  "currentCallingWindow rows = (case sql_one (\<lambda>r. cw_supersededAt r = None) rows of
     None \<Rightarrow> FLOOR_CALLING_WINDOW
   | Some row \<Rightarrow> \<lparr> cc_id = cw_id row, cc_version = cw_version row,
       cc_window = narrowCallingWindow (Some (as_number \<lparr> startMinute = cw_startMinute row, endMinute = cw_endMinute row \<rparr>)),
       cc_weekdays = narrowWeekdays (cw_weekdays row) \<rparr>)"

definition evaluateConfiguredCallingWindow :: "tzdb \<Rightarrow> instant option \<Rightarrow> string option \<Rightarrow> ConfiguredCallingWindow \<Rightarrow>
    clock_code + CallingWindowDecision" where
  "evaluateConfiguredCallingWindow tz time zone configured =
     and_then (evaluateCallingWindow tz time zone (Some (as_number (cc_window configured)))) (\<lambda>decision.
       case decision of
         Call_refused _ _ _ _ _ \<Rightarrow> Inr decision
       | Call_allowed localTime localDate' openNow w \<Rightarrow>
           and_then (localParts tz time (case zone of None \<Rightarrow> [] | Some z \<Rightarrow> z)) (\<lambda>parts.
             if lp_weekday parts \<notin> set (cc_weekdays configured)
             then Inr (Call_refused Outside_calling_window (Some localTime) (Some localDate') (Some openNow) w)
             else Inr decision))"

definition is_allowed :: "CallingWindowDecision \<Rightarrow> bool" where
  "is_allowed d \<longleftrightarrow> (case d of Call_allowed _ _ _ _ \<Rightarrow> True | _ \<Rightarrow> False)"

text \<open>The opening of one day, when it is ahead and nothing else refuses it.\<close>
definition opening_on :: "tzdb \<Rightarrow> instant \<Rightarrow> string \<Rightarrow> ConfiguredCallingWindow \<Rightarrow> string \<Rightarrow> int \<Rightarrow> clock_code + instant option" where
  "opening_on tz time zone configured date day =
     and_then (addCalendarDays date day) (\<lambda>d.
     and_then (localInstant tz d (time_of_day (startMinute (cc_window configured) div 60)
         (startMinute (cc_window configured) mod 60)) zone) (\<lambda>candidate.
     if candidate \<le> time then Inr None else
     and_then (evaluateConfiguredCallingWindow tz (Some candidate) (Some zone) configured) (\<lambda>decision.
       Inr (if is_allowed decision then Some candidate else None))))"

fun first_opening :: "tzdb \<Rightarrow> instant \<Rightarrow> string \<Rightarrow> ConfiguredCallingWindow \<Rightarrow> string \<Rightarrow> int list \<Rightarrow> clock_code + instant option" where
  "first_opening tz time zone configured date [] = Inr None"
| "first_opening tz time zone configured date (day # days) =
     and_then (opening_on tz time zone configured date day) (\<lambda>found.
       case found of None \<Rightarrow> first_opening tz time zone configured date days | Some c \<Rightarrow> Inr (Some c))"

text \<open>An exception anywhere is \<open>null\<close>.\<close>
definition nextCallingWindowOpening :: "tzdb \<Rightarrow> instant option \<Rightarrow> string option \<Rightarrow> ConfiguredCallingWindow \<Rightarrow> instant option" where
  "nextCallingWindowOpening tz time zone configured = (case zone of
     None \<Rightarrow> None
   | Some z \<Rightarrow>
       (case and_then (evaluateConfiguredCallingWindow tz time zone configured) (\<lambda>decision.
            if is_allowed decision then Inr None else
            and_then (localParts tz time z) (\<lambda>parts.
              first_opening tz (case time of None \<Rightarrow> 0 | Some x \<Rightarrow> x) z configured (lp_date parts) [0, 1, 2, 3, 4, 5, 6, 7])) of
          Inl _ \<Rightarrow> None
        | Inr opening \<Rightarrow> opening))"

text \<open>A minute that is not finite is \<open>None\<close>.\<close>
record SetCallingWindowInput =
  sw_startMinute :: "rat option"
  sw_endMinute :: "rat option"
  sw_weekdays :: "int list option"

definition supersede_window :: "instant \<Rightarrow> uuid \<Rightarrow> CallingWindowRow \<Rightarrow> CallingWindowRow" where
  "supersede_window now userId r = r\<lparr> cw_supersededAt := Some now, cw_supersededByUserId := Some userId \<rparr>"

definition setCallingWindow :: "instant \<Rightarrow> uuid \<Rightarrow> ScopeActor \<Rightarrow> SetCallingWindowInput \<Rightarrow> CallingWindowRow list \<Rightarrow>
    CallingWindowRow list \<times> ConfiguredCallingWindow PolicyResult" where
  "setCallingWindow now fresh actor input rows = (case admin_user actor of
     None \<Rightarrow> (rows, Policy_refused Admin_only)
   | Some userId \<Rightarrow>
       (case (map_option js_trunc (sw_startMinute input), map_option js_trunc (sw_endMinute input)) of
          (Some s, Some e) \<Rightarrow>
            if e \<le> s then (rows, Policy_refused Invalid_input) else
            if s < startMinute CALLING_WINDOW_FLOOR \<or> e > endMinute CALLING_WINDOW_FLOOR
            then (rows, Policy_refused Window_not_narrower) else
            (let weekdays = sort (remdups (case sw_weekdays input of None \<Rightarrow> CALLING_WINDOW_WEEKDAYS | Some d \<Rightarrow> d)) in
             if weekdays = [] \<or> list_ex (\<lambda>d. d \<notin> set CALLING_WINDOW_WEEKDAYS) weekdays
             then (rows, Policy_refused Window_not_narrower) else
             let kept = sql_update (\<lambda>r. cw_supersededAt r = None) (supersede_window now userId) rows;
                 version = foldl max 0 (map cw_version rows) + 1;
                 row = \<lparr> cw_id = fresh, cw_version = version, cw_startMinute = s, cw_endMinute = e, cw_weekdays = weekdays,
                   cw_createdByUserId = userId, cw_supersededAt = None, cw_supersededByUserId = None \<rparr> in
             (kept @ [row], Policy_ok \<lparr> cc_id = fresh, cc_version = version,
                cc_window = \<lparr> startMinute = s, endMinute = e \<rparr>, cc_weekdays = weekdays \<rparr>))
        | _ \<Rightarrow> (rows, Policy_refused Invalid_input)))"

end
