(* ===== verification/PolicyProperties.thy ===== *)
theory PolicyProperties
  imports Policy HoldProperties
begin

text \<open>
  What the policy tables promise: at most one posture is in force for a state, whoever records,
  allows or revokes; a firm's zone is never guessed; a pause blocks its scope and its release
  gives back exactly what it took; a configured window is read back, and an opening that is
  announced is one.
\<close>

section \<open>The zone of a firm\<close>

text \<open>\<open>toUpperCase\<close> leaves the two capitals of a state's code alone.\<close>
definition keeps_state_codes :: "(string \<Rightarrow> string) \<Rightarrow> bool" where
  "keeps_state_codes up \<longleftrightarrow> (\<forall>s\<in>set US_STATE_CODES. up s = s)"

lemma trim_state_codes: "s \<in> set US_STATE_CODES \<Longrightarrow> js_trim s = s"
proof -
  have "list_all (\<lambda>s. js_trim s = s) US_STATE_CODES" by code_simp
  then show "s \<in> set US_STATE_CODES \<Longrightarrow> js_trim s = s" by (simp add: list_all_iff)
qed

lemma state_code: "keeps_state_codes up \<Longrightarrow> isUsStateCode s \<Longrightarrow> up (js_trim s) = s"
  by (simp add: keeps_state_codes_def isUsStateCode_def trim_state_codes)

text \<open>Every state either spans zones or has a default, and none does both.\<close>
lemma states_partition:
  "isUsStateCode s \<Longrightarrow> (map_of MULTI_ZONE_STATES s = None) = (map_of STATE_DEFAULT_ZONES s \<noteq> None)"
proof -
  have "list_all (\<lambda>s. (map_of MULTI_ZONE_STATES s = None) = (map_of STATE_DEFAULT_ZONES s \<noteq> None)) US_STATE_CODES"
    by code_simp
  then show "isUsStateCode s \<Longrightarrow> ?thesis" by (simp add: list_all_iff isUsStateCode_def)
qed

lemma default_zone_iff:
  "keeps_state_codes up \<Longrightarrow> isUsStateCode s \<Longrightarrow>
   stateDefaultZone up s = (if isMultiZoneState s then None else map_of STATE_DEFAULT_ZONES s)"
  by (simp add: stateDefaultZone_def state_code isMultiZoneState_def)

lemma first_zone_source: "first_zone sources l = Some (z, n) \<Longrightarrow> z \<noteq> [] \<and> (\<exists>resolve. (n, resolve) \<in> set sources \<and> resolve l = Some z)"
  by (induction sources l rule: first_zone.induct) (auto split: option.splits if_splits)

text \<open>The zone of a firm is never guessed.  A zone of low confidence is the default of a
  state of a single zone, a firm whose state spans zones and that nothing else places is left
  without one, no state lacks both a default and several zones, and a zone of high confidence
  is not empty and is the firm's own record or what a source said of it.\<close>
theorem resolveFirmZone_never_guesses:
  assumes "keeps_state_codes up"
  shows "case resolveFirmZone up location sources of
      Zone_resolved zone source high \<Rightarrow>
        (if high then zone \<noteq> [] \<and> (source = Zone_recorded \<and> map_option js_trim (recordedZone location) = Some zone \<or>
           (\<exists>resolve. (source, resolve) \<in> set sources \<and> resolve location = Some zone))
         else source = Zone_state_default \<and> (\<exists>s. fl_state location = Some s \<and> isUsStateCode (up (js_trim s)) \<and>
           \<not> isMultiZoneState (up (js_trim s)) \<and> map_of STATE_DEFAULT_ZONES (up (js_trim s)) = Some zone))
    | Zone_unresolved reason \<Rightarrow> reason \<noteq> No_default_for_state \<and>
        (reason = State_spans_zones \<longleftrightarrow> (\<exists>s. fl_state location = Some s \<and> isMultiZoneState (up (js_trim s))))"
proof (cases "\<exists>z. map_option js_trim (recordedZone location) = Some z \<and> z \<noteq> []")
  case True
  then show ?thesis by (auto simp: resolveFirmZone_def Let_def)
next
  case False
  then have recorded: "map_option js_trim (recordedZone location) = None \<or> map_option js_trim (recordedZone location) = Some []"
    by (cases "recordedZone location") auto
  show ?thesis
  proof (cases "first_zone sources location")
    case (Some zn)
    then show ?thesis using recorded first_zone_source [of sources location "fst zn" "snd zn"]
      by (cases zn) (auto simp: resolveFirmZone_def Let_def)
  next
    case None
    show ?thesis
    proof (cases "fl_state location")
      case (Some s)
      let ?code = "up (js_trim s)"
      have no_code: "\<not> isUsStateCode []" by (simp add: isUsStateCode_def US_STATE_CODES_def)
      have "\<not> isMultiZoneState c" if "\<not> isUsStateCode c" for c using that by (simp add: isMultiZoneState_def)
      then show ?thesis
        using recorded None Some no_code default_zone_iff [OF assms, of ?code] states_partition [of ?code]
        by (auto simp: resolveFirmZone_def Let_def isMultiZoneState_def)
    qed (use recorded None in \<open>auto simp: resolveFirmZone_def Let_def\<close>)
  qed
qed

theorem resolveFirmZone_never_guesses_witness:
  "resolveFirmZone (\<lambda>s. s) \<lparr> recordedZone = None, fl_state = Some ''TX'', fl_postalCode = None, fl_latitude = None,
     fl_longitude = None \<rparr> [] = Zone_unresolved State_spans_zones \<and> isMultiZoneState ''TX''"
proof -
  let ?l = "\<lparr> recordedZone = None, fl_state = Some ''TX'', fl_postalCode = None, fl_latitude = None, fl_longitude = None \<rparr>"
  have r: "resolveFirmZone (\<lambda>s. s) ?l [] = Zone_unresolved State_spans_zones" by code_simp
  have t: "js_trim ''TX'' = ''TX''" by (rule trim_state_codes) (simp add: US_STATE_CODES_def)
  show ?thesis
    using resolveFirmZone_never_guesses [of "\<lambda>s. s" ?l "[]"] r t by (simp add: keeps_state_codes_def)
qed

section \<open>Postures\<close>

definition in_force :: "instant \<Rightarrow> StatePostureRow \<Rightarrow> bool" where
  "in_force t p \<longleftrightarrow> sp_revokedAt p = None \<and> sp_effectiveFrom p \<le> t \<and>
     (case sp_effectiveTo p of None \<Rightarrow> True | Some e \<Rightarrow> t < e)"

definition posture_inv :: "StatePostureRow list \<Rightarrow> bool" where
  "posture_inv rows \<longleftrightarrow> (\<forall>p\<in>set rows. isUsStateCode (sp_state p)) \<and>
     distinct (map (\<lambda>p. (sp_state p, sp_revision p)) rows) \<and>
     (\<forall>p\<in>set rows. \<forall>q\<in>set rows. p \<noteq> q \<longrightarrow> \<not> postures_overlap p q)"

text \<open>What any caller may do to the table.\<close>
inductive posture_step :: "(string \<Rightarrow> string) \<Rightarrow> StatePostureRow list \<Rightarrow> StatePostureRow list \<Rightarrow> bool" for up where
  recorded: "recordStatePosture up sources now fresh actor input rows = Inr (rows', r) \<Longrightarrow> posture_step up rows rows'"
| allowed: "allowCallingStates up sources now ids actor states note rows = Inr (rows', s) \<Longrightarrow> posture_step up rows rows'"
| revoked: "revokeStatePosture now actor k rows = Inr (rows', r) \<Longrightarrow> posture_step up rows rows'"

lemma foldl_max_start: "m \<le> foldl max m xs" for m :: nat
proof (induction xs arbitrary: m)
  case (Cons y ys)
  show ?case using Cons.IH [of "max m y"] by simp
qed simp

lemma foldl_max_bound: "x \<in> set xs \<Longrightarrow> x \<le> foldl max m xs" for m :: nat
proof (induction xs arbitrary: m)
  case (Cons y ys)
  show ?case
  proof (cases "x = y")
    case True
    then show ?thesis using foldl_max_start [of "max m y" ys] by simp
  next
    case False
    then show ?thesis using Cons by simp
  qed
qed simp

lemma next_revision_fresh: "p \<in> set rows \<Longrightarrow> sp_state p = s \<Longrightarrow> sp_revision p < next_revision rows s"
  using foldl_max_bound [of "sp_revision p" "map sp_revision (filter (\<lambda>p. sp_state p = s) rows)" 0]
  by (fastforce simp: next_revision_def)

lemma overlap_sym: "postures_overlap p q \<longleftrightarrow> postures_overlap q p"
  by (auto simp: postures_overlap_def)

lemma posture_row_simps [simp]:
  "sp_state (posture_row now i u src rows s f t r st n) = s" "sp_revision (posture_row now i u src rows s f t r st n) = next_revision rows s"
  "sp_revokedAt (posture_row now i u src rows s f t r st n) = None" "sp_effectiveFrom (posture_row now i u src rows s f t r st n) = f"
  "sp_effectiveTo (posture_row now i u src rows s f t r st n) = t"
  by (simp_all add: posture_row_def)

lemma insert_inv:
  assumes "posture_inv rows" "insert_posture p rows = Inr rows'" "isUsStateCode (sp_state p)"
    and "sp_revision p = next_revision rows (sp_state p)"
  shows "posture_inv rows' \<and> rows' = rows @ [p]"
proof -
  have rows': "rows' = rows @ [p]" and apart: "\<forall>q\<in>set rows. \<not> postures_overlap p q"
    using assms(2) by (auto simp: insert_posture_def list_ex_iff split: if_splits)
  have fresh: "(sp_state p, sp_revision p) \<notin> (\<lambda>p. (sp_state p, sp_revision p)) ` set rows"
    using assms(4) by (fastforce dest: next_revision_fresh)
  have new: "\<not> postures_overlap q q'" if "q \<in> set (rows @ [p])" "q' \<in> set (rows @ [p])" "q \<noteq> q'" for q q'
  proof (cases "q = p \<or> q' = p")
    case True
    then show ?thesis using apart that overlap_sym [of q q'] by auto
  next
    case False
    then show ?thesis using assms(1) that by (simp add: posture_inv_def)
  qed
  have "posture_inv (rows @ [p])"
    unfolding posture_inv_def
  proof (intro conjI)
    show "\<forall>q\<in>set (rows @ [p]). isUsStateCode (sp_state q)" using assms(1,3) by (simp add: posture_inv_def)
    show "distinct (map (\<lambda>p. (sp_state p, sp_revision p)) (rows @ [p]))"
      using assms(1) fresh by (simp add: posture_inv_def)
    show "\<forall>q\<in>set (rows @ [p]). \<forall>q'\<in>set (rows @ [p]). q \<noteq> q' \<longrightarrow> \<not> postures_overlap q q'" using new by blast
  qed
  then show ?thesis using rows' by simp
qed

lemma allow_inv:
  "allow_each up src t ids u note states acc rows = Inr (rows', r) \<Longrightarrow> posture_inv rows \<Longrightarrow> (\<forall>s\<in>set states. isUsStateCode s) \<Longrightarrow>
   posture_inv rows'"
proof (induction states arbitrary: acc rows)
  case (Cons s ss)
  show ?case
  proof (cases "applicablePosture up rows s (Some t)")
    case (Inr x)
    show ?thesis
    proof (cases "fst x")
      case None
      obtain d where x: "x = (None, d)" using None by (cases x) auto
      obtain review where review: "postureReviewAt (Some t) = Inr review"
        using Cons.prems(1) Inr x by (auto split: sum.splits)
      let ?row = "posture_row t (ids s) u src rows s t None review (sort POSTURE_STATEMENT_KEYS) note"
      show ?thesis
      proof (cases "insert_posture ?row rows")
        case (Inl e)
        then show ?thesis using Cons.prems Inr x review by (cases e) auto
      next
        case (Inr rows1)
        have "isUsStateCode s" using Cons.prems(3) by simp
        then have "posture_inv rows1" by (intro conjunct1 [OF insert_inv [OF Cons.prems(2) Inr]]) simp_all
        moreover have "\<exists>acc. allow_each up src t ids u note ss acc rows1 = Inr (rows', r)"
          using Cons.prems(1) \<open>applicablePosture up rows s (Some t) = Inr x\<close> x review Inr by (auto simp: Let_def)
        ultimately show ?thesis using Cons.IH Cons.prems(3) by auto
      qed
    next
      case (Some p)
      obtain d where x: "x = (Some p, d)" using Some by (cases x) auto
      have "\<exists>acc. allow_each up src t ids u note ss acc rows = Inr (rows', r)"
        using Cons.prems(1) Inr x by auto
      then show ?thesis using Cons.IH Cons.prems(2,3) by auto
    qed
  qed (use Cons.prems in simp)
qed simp

lemma revoke_posture_inv: "posture_inv rows \<Longrightarrow> revokeStatePosture now actor k rows = Inr (rows', r) \<Longrightarrow> posture_inv rows'"
proof -
  assume inv: "posture_inv rows" and step: "revokeStatePosture now actor k rows = Inr (rows', r)"
  consider "rows' = rows" | hit u where "rows' = sql_update hit (\<lambda>p. p\<lparr> sp_revokedAt := Some now, sp_revokedByUserId := Some u \<rparr>) rows"
    using step by (auto simp: revokeStatePosture_def Let_def split: option.splits if_splits)
  then show ?thesis
  proof cases
    case 2
    define change where "change = (\<lambda>p. if hit p then p\<lparr> sp_revokedAt := Some now, sp_revokedByUserId := Some u \<rparr> else p)"
    have rows': "rows' = map change rows" using 2 by (simp add: sql_update_def change_def)
    have key: "(sp_state (change p), sp_revision (change p)) = (sp_state p, sp_revision p)" for p by (simp add: change_def)
    have weaker: "postures_overlap (change p) (change q) \<Longrightarrow> postures_overlap p q" for p q
      by (auto simp: change_def postures_overlap_def split: if_splits)
    have "map (\<lambda>p. (sp_state p, sp_revision p)) rows' = map (\<lambda>p. (sp_state p, sp_revision p)) rows"
      by (simp add: rows' key o_def)
    then have "distinct (map (\<lambda>p. (sp_state p, sp_revision p)) rows')" using inv by (simp add: posture_inv_def)
    moreover have "isUsStateCode (sp_state q)" if "q \<in> set rows'" for q
      using that inv by (auto simp: rows' posture_inv_def change_def)
    moreover have "\<not> postures_overlap q q'" if moved: "q \<in> set rows'" "q' \<in> set rows'" "q \<noteq> q'" for q q'
    proof -
      obtain p p' where p: "p \<in> set rows" "q = change p" "p' \<in> set rows" "q' = change p'"
        using moved by (auto simp: rows')
      then have "p \<noteq> p'" using moved(3) by blast
      then have "\<not> postures_overlap p p'" using inv p by (simp add: posture_inv_def)
      then show ?thesis using weaker p by blast
    qed
    ultimately show ?thesis by (simp add: posture_inv_def)
  qed (use inv in simp)
qed

lemma posture_step_inv: "posture_step up rows rows' \<Longrightarrow> posture_inv rows \<Longrightarrow> posture_inv rows'"
proof (induction rule: posture_step.induct)
  case (recorded sources now fresh actor input rows rows' r)
  show ?case
  proof (cases "rows' = rows")
    case False
    obtain u f review where new: "isUsStateCode (up (js_trim (po_state input)))"
      "insert_posture (posture_row now fresh u sources rows (up (js_trim (po_state input))) f (po_effectiveTo input) review
         (sort (remdups (po_confirmedStatements input))) (po_note input)) rows = Inr rows'"
      using recorded(1) False
      by (fastforce simp: recordStatePosture_def Let_def and_then_def split: option.splits if_splits sum.splits PostureDbError.splits)
    show ?thesis by (rule conjunct1 [OF insert_inv [OF recorded(2) new(2)]]) (simp_all add: new(1))
  qed (use recorded in simp)
next
  case (allowed sources now ids actor states remark rows rows' s)
  show ?case
  proof (cases "rows' = rows")
    case False
    let ?states = "unique_first (map (\<lambda>s. up (js_trim s)) states)"
    obtain u n acc where "\<forall>s\<in>set ?states. isUsStateCode s"
        "allow_each up sources now ids u n ?states acc rows = Inr (rows', s)"
      using allowed(1) False
      by (auto simp: allowCallingStates_def Let_def list_ex_iff split: option.splits if_splits)
    then show ?thesis using allow_inv allowed(2) by blast
  qed (use allowed in simp)
next
  case (revoked now actor k rows rows' r)
  then show ?case using revoke_posture_inv by blast
qed

lemma posture_steps_inv: "(posture_step up)\<^sup>*\<^sup>* rows rows' \<Longrightarrow> posture_inv rows \<Longrightarrow> posture_inv rows'"
  by (induction rule: rtranclp_induct) (auto intro: posture_step_inv)

lemma in_force_overlap: "in_force t p \<Longrightarrow> in_force t q \<Longrightarrow> sp_state p = sp_state q \<Longrightarrow> postures_overlap p q"
  by (auto simp: in_force_def postures_overlap_def split: option.splits)

lemma find_only: "p \<in> set xs \<Longrightarrow> P p \<Longrightarrow> (\<And>q. q \<in> set xs \<Longrightarrow> P q \<Longrightarrow> q = p) \<Longrightarrow> find P xs = Some p"
proof (induction xs)
  case (Cons x xs)
  show ?case
  proof (cases "P x")
    case True
    then have "x = p" by (intro Cons.prems(3)) simp_all
    then show ?thesis using True by simp
  next
    case False
    then have "p \<in> set xs" using Cons.prems(1,2) by auto
    then have "find P xs = Some p"
    proof (rule Cons.IH)
      show "P p" by (rule Cons.prems(2))
      show "q = p" if "q \<in> set xs" "P q" for q using that by (intro Cons.prems(3)) simp_all
    qed
    then show ?thesis using False by simp
  qed
qed simp

lemma short_list: "distinct xs \<Longrightarrow> (\<And>x y. x \<in> set xs \<Longrightarrow> y \<in> set xs \<Longrightarrow> x = y) \<Longrightarrow> length xs \<le> 1"
proof (cases xs)
  case (Cons x ys)
  assume "distinct xs" and same: "\<And>x y. x \<in> set xs \<Longrightarrow> y \<in> set xs \<Longrightarrow> x = y"
  show ?thesis
  proof (cases ys)
    case (Cons y zs)
    have "x = y" by (rule same) (simp_all add: Cons \<open>xs = x # ys\<close>)
    then show ?thesis using \<open>distinct xs\<close> Cons \<open>xs = x # ys\<close> by simp
  qed (simp add: Cons)
qed simp

lemma sort_short: "length xs \<le> 1 \<Longrightarrow> sort_key k xs = xs"
  by (cases xs rule: remdups_adj.cases) auto

lemma one_in_force:
  assumes "posture_inv rows"
  shows "length (filter (\<lambda>p. sp_state p = s \<and> in_force t p) rows) \<le> 1"
proof -
  let ?f = "filter (\<lambda>p. sp_state p = s \<and> in_force t p) rows"
  have "distinct rows" using assms by (simp add: posture_inv_def distinct_map)
  then have d: "distinct ?f" by simp
  have "p = q" if "p \<in> set ?f" "q \<in> set ?f" for p q
    using that assms in_force_overlap [of t p q] by (auto simp: posture_inv_def)
  then show ?thesis using d short_list by blast
qed

lemma applicable_row: "keeps_state_codes up \<Longrightarrow> isUsStateCode (sp_state p) \<Longrightarrow>
   posture_applicable up s t (toRecord p) = (sp_state p = s \<and> in_force t p)"
  by (auto simp: posture_applicable_def toRecord_def in_force_def state_code split: option.splits)

text \<open>C31: Whatever is recorded, allowed and revoked, by anyone and in any order, at any instant
  at most one posture is in force for a state: the answer that two overlap is never given, and
  the posture the answer names is the one row of the table that is in force.\<close>
theorem one_posture_in_force:
  assumes "keeps_state_codes up" "(posture_step up)\<^sup>*\<^sup>* [] rows" "isUsStateCode s"
  shows "case applicablePosture up rows s (Some t) of Inl _ \<Rightarrow> False
     | Inr (chosen, decision) \<Rightarrow> decision \<noteq> Posture_refused Posture_overlapping \<and>
         filter (\<lambda>p. sp_state p = s \<and> in_force t p) rows = (case chosen of None \<Rightarrow> [] | Some p \<Rightarrow> [p])"
proof -
  have inv: "posture_inv rows" using posture_steps_inv [OF assms(2)] by (simp add: posture_inv_def)
  let ?listed = "listStatePostures rows (Some s)"
  let ?now = "filter (\<lambda>p. sp_state p = s \<and> in_force t p) rows"
  have code: "up (js_trim s) = s" using state_code assms(1,3) by blast
  have "\<forall>p\<in>set rows. isUsStateCode (sp_state p)" using inv by (simp add: posture_inv_def)
  then have members: "isUsStateCode (sp_state p)" "sp_state p = s" if "p \<in> set ?listed" for p
    using that by (auto simp: listStatePostures_def)
  have "filter (posture_applicable up s t) (map toRecord ?listed) =
      map toRecord (filter (\<lambda>p. posture_applicable up s t (toRecord p)) ?listed)"
    by (simp add: filter_map o_def)
  also have "filter (\<lambda>p. posture_applicable up s t (toRecord p)) ?listed = filter (\<lambda>p. sp_state p = s \<and> in_force t p) ?listed"
    using applicable_row [OF assms(1)] members by (intro filter_cong) auto
  also have "\<dots> = sort_key (\<lambda>p. (sp_state p, sp_revision p)) ?now"
    by (simp add: listStatePostures_def filter_sort conj_comms conj_left_commute)
  also have "\<dots> = ?now"
    by (rule sort_short) (rule one_in_force [OF inv])
  finally have selected: "filter (posture_applicable up s t) (map toRecord ?listed) = map toRecord ?now" .
  show ?thesis
  proof (cases ?now)
    case Nil
    then show ?thesis using selected code
      by (simp add: applicablePosture_def selectApplicablePosture_def and_then_def)
  next
    case (Cons p ps)
    then have one: "?now = [p]" using one_in_force [OF inv, of s t] by simp
    then have "p \<in> set ?now" by (metis list.set_intros(1))
    then have p: "p \<in> set rows" "sp_state p = s" by simp_all
    have in_listed: "p \<in> set ?listed" using p by (simp add: listStatePostures_def)
    have "q = p" if "q \<in> set ?listed" "sp_revision q = sp_revision p" for q
    proof -
      have "inj_on (\<lambda>p. (sp_state p, sp_revision p)) (set rows)" using inv by (simp add: posture_inv_def distinct_map)
      then show ?thesis using that p members(2) [of q]
        by (auto simp: listStatePostures_def inj_on_def)
    qed
    then have "find (\<lambda>row. sp_revision row = sp_revision p \<and> sp_state row = sp_state p) ?listed = Some p"
      using in_listed p(2) by (intro find_only) auto
    then show ?thesis using selected code one
      by (simp add: applicablePosture_def selectApplicablePosture_def and_then_def toRecord_def)
  qed
qed

definition posture_input1 :: PostureInput where
  "posture_input1 = \<lparr> po_state = ''CA'', po_effectiveFrom = Some 5, po_effectiveTo = Some 90, po_reviewAt = None,
     po_confirmedStatements = POSTURE_STATEMENT_KEYS, po_note = None \<rparr>"

definition posture_row1 :: StatePostureRow where
  "posture_row1 = posture_row 5 ''p1'' ''u1'' (\<lambda>_. []) [] ''CA'' 5 (Some 90) 31536000005 (sort POSTURE_STATEMENT_KEYS) None"

theorem one_posture_in_force_witness:
  "filter (\<lambda>p. sp_state p = ''CA'' \<and> in_force 7 p) [posture_row1] = [posture_row1] \<and>
   applicablePosture (\<lambda>s. s) [posture_row1] ''CA'' (Some 7) = Inr (Some posture_row1, Posture_applies (toRecord posture_row1))"
proof -
  have "recordStatePosture (\<lambda>s. s) (\<lambda>_. []) 5 ''p1'' (Actor_user ''u1'' Role_admin) posture_input1 [] =
    Inr ([posture_row1], Policy_ok posture_row1)" by code_simp
  then have "(posture_step (\<lambda>s. s))\<^sup>*\<^sup>* [] [posture_row1]"
    by (intro r_into_rtranclp [where r = "posture_step (\<lambda>s. s)"] posture_step.recorded)
  moreover have "applicablePosture (\<lambda>s. s) [posture_row1] ''CA'' (Some 7) = Inr (Some posture_row1, Posture_applies (toRecord posture_row1))"
    by code_simp
  moreover have "isUsStateCode ''CA''" by code_simp
  ultimately show ?thesis
    using one_posture_in_force [of "\<lambda>s. s" "[posture_row1]" "''CA''" 7] by (simp add: keeps_state_codes_def)
qed

section \<open>Pauses\<close>

text \<open>What a pause is about: the actions it blocks, of the subjects in its scope.\<close>
definition pause_covers :: "OpenPauseInput \<Rightarrow> HoldSubject \<Rightarrow> bool" where
  "pause_covers input subject \<longleftrightarrow> hs_actionKind subject \<in> set (blockedKindsOf input) \<and>
     (keyless input \<or>
      op_scopeKind input = ''owner'' \<and> hs_ownerUserId subject = op_scopeKey input \<or>
      op_scopeKind input = ''mailbox'' \<and> hs_mailboxId subject = op_scopeKey input \<or>
      op_scopeKind input = ''opportunity'' \<and> hs_opportunityId subject = op_scopeKey input \<or>
      op_scopeKind input = ''channel'' \<and> hs_channel subject = op_channel input)"

definition applies_now :: "HoldSubject \<Rightarrow> HoldRow \<Rightarrow> bool" where
  "applies_now subject h \<longleftrightarrow> hd_releasedAt h = None \<and> hs_actionKind subject \<in> set (hd_blockedActionKinds h) \<and>
     scope_matches subject h"

lemma listed_by: "filter (applies_now s) xs = filter (applies_now s) ys \<Longrightarrow> listApplicableHolds xs s = listApplicableHolds ys s"
  by (simp add: listApplicableHolds_def applies_now_def [abs_def])

lemma listed_ids: "k \<in> set (map oh_id (listApplicableHolds rows s)) \<longleftrightarrow>
   (\<exists>h\<in>set rows. hd_id h = k \<and> applies_now s h \<and> (hd_scopeKind h = ''workspace'' \<or> hd_scopeKey h \<noteq> None))"
  by (auto simp: listApplicableHolds_def Let_def by_start_def applies_now_def toOpenHold_def image_iff)

lemma sql_one_snoc: "sql_one P (xs @ ys) = (case sql_one P xs of None \<Rightarrow> sql_one P ys | Some x \<Rightarrow> Some x)"
  by (induction xs) auto

lemma sql_update_append: "sql_update P f (xs @ ys) = sql_update P f xs @ sql_update P f ys"
  by (simp add: sql_update_def)

lemma pause_opened:
  assumes "openPause t hid pid actor input db = Inr (db1, Policy_ok p)"
  obtains row where "pd_holds db1 = pd_holds db @ [new_hold t hid (pause_hold input)]" "pd_pauses db1 = pd_pauses db @ [row]"
    "p = toPause row" "ps_id row = pid" "ps_holdId row = hid" "ps_createdAt row = t" "ps_releasedAt row = None"
    "op_scopeKind input \<in> set PAUSE_SCOPE_KINDS" "keyless input \<or> pause_key input \<noteq> None"
    "op_scopeKind input = ''channel'' \<longleftrightarrow> op_channel input \<noteq> None"
  using assms
  by (fastforce simp: openPause_def Let_def openHold_def pause_row_ok_def split: option.splits if_splits elim!: and_thenE)

lemma pause_hold_facts:
  assumes "op_scopeKind input \<in> set PAUSE_SCOPE_KINDS" "keyless input \<or> pause_key input \<noteq> None"
    and "op_scopeKind input = ''channel'' \<longleftrightarrow> op_channel input \<noteq> None"
  shows pause_applies: "applies_now s (new_hold t hid (pause_hold input)) \<longleftrightarrow> pause_covers input s"
    and pause_scoped: "hd_scopeKind (new_hold t hid (pause_hold input)) = ''workspace'' \<or>
      hd_scopeKey (new_hold t hid (pause_hold input)) \<noteq> None"
proof -
  let ?h = "new_hold t hid (pause_hold input)"
  consider "keyless input" | "op_scopeKind input = ''owner''" | "op_scopeKind input = ''mailbox''" |
    "op_scopeKind input = ''opportunity''" | "op_scopeKind input = ''channel''"
    using assms(1) by (auto simp: PAUSE_SCOPE_KINDS_def keyless_def)
  then have "(scope_matches s ?h \<longleftrightarrow> (keyless input \<or>
      op_scopeKind input = ''owner'' \<and> hs_ownerUserId s = op_scopeKey input \<or>
      op_scopeKind input = ''mailbox'' \<and> hs_mailboxId s = op_scopeKey input \<or>
      op_scopeKind input = ''opportunity'' \<and> hs_opportunityId s = op_scopeKey input \<or>
      op_scopeKind input = ''channel'' \<and> hs_channel s = op_channel input)) \<and>
    (hd_scopeKind ?h = ''workspace'' \<or> hd_scopeKey ?h \<noteq> None)"
  proof cases
    case 1
    then show ?thesis by (auto simp: new_hold_def pause_hold_def scope_matches_def keyless_def holdScopeOf_def)
  next
    case 2
    then obtain k where "op_scopeKey input = Some k" using assms(2) by (auto simp: keyless_def pause_key_def)
    with 2 show ?thesis by (auto simp: new_hold_def pause_hold_def scope_matches_def keyless_def holdScopeOf_def pause_key_def)
  next
    case 3
    then obtain k where "op_scopeKey input = Some k" using assms(2) by (auto simp: keyless_def pause_key_def)
    with 3 show ?thesis by (auto simp: new_hold_def pause_hold_def scope_matches_def keyless_def holdScopeOf_def pause_key_def)
  next
    case 4
    then obtain k where "op_scopeKey input = Some k" using assms(2) by (auto simp: keyless_def pause_key_def)
    with 4 show ?thesis by (auto simp: new_hold_def pause_hold_def scope_matches_def keyless_def holdScopeOf_def pause_key_def)
  next
    case 5
    then obtain k where "op_channel input = Some k" using assms(3) by auto
    with 5 show ?thesis by (auto simp: new_hold_def pause_hold_def scope_matches_def keyless_def holdScopeOf_def pause_key_def)
  qed
  then show "applies_now s ?h \<longleftrightarrow> pause_covers input s" "hd_scopeKind ?h = ''workspace'' \<or> hd_scopeKey ?h \<noteq> None"
    by (auto simp: applies_now_def pause_covers_def new_hold_def pause_hold_def)
qed

text \<open>A pause holds its scope and nothing else, and its release undoes it.  Once it is open,
  its hold is among the holds of exactly the subjects and actions it covers; releasing it
  succeeds, and leaves every subject with the holds, and the list of open pauses, that there
  were before it.\<close>
theorem pause_roundtrip:
  assumes "openPause t hid pid actor input db = Inr (db1, Policy_ok p)"
    and "hid \<notin> hd_id ` set (pd_holds db)" "pid \<notin> ps_id ` set (pd_pauses db)"
    and "admin_user admin \<noteq> None" "t \<le> t'"
  shows "(hid \<in> set (map oh_id (listApplicableHolds (pd_holds db1) subject)) \<longleftrightarrow> pause_covers input subject) \<and>
    (case releasePause t' admin pid db1 of Inl _ \<Rightarrow> False | Inr (db2, r) \<Rightarrow>
       r = Policy_ok (p\<lparr> ps_releasedAt := Some t', ps_releasedByUserId := admin_user admin \<rparr>) \<and>
       listApplicableHolds (pd_holds db2) subject = listApplicableHolds (pd_holds db) subject \<and>
       listPauses True db2 = listPauses True db)"
proof -
  obtain row where db1: "pd_holds db1 = pd_holds db @ [new_hold t hid (pause_hold input)]" "pd_pauses db1 = pd_pauses db @ [row]"
    and p: "p = toPause row" "ps_id row = pid" "ps_holdId row = hid" "ps_createdAt row = t" "ps_releasedAt row = None"
    and ok: "op_scopeKind input \<in> set PAUSE_SCOPE_KINDS" "keyless input \<or> pause_key input \<noteq> None"
    "op_scopeKind input = ''channel'' \<longleftrightarrow> op_channel input \<noteq> None"
    using assms(1) by (rule pause_opened)
  obtain u where u: "admin_user admin = Some u" using assms(4) by blast
  let ?h = "new_hold t hid (pause_hold input)"
  have h: "hd_id ?h = hid" "hd_releasedAt ?h = None" "hd_startedAt ?h = t" by (simp_all add: new_hold_def)
  have old: "hd_id g \<noteq> hid" if "g \<in> set (pd_holds db)" for g using that assms(2) by blast
  have covered: "hid \<in> set (map oh_id (listApplicableHolds (pd_holds db1) subject)) \<longleftrightarrow> pause_covers input subject"
    unfolding listed_ids db1 using old h pause_hold_facts [OF ok] by auto
  let ?hit = "\<lambda>q. ps_id q = pid \<and> ps_releasedAt q = None"
  have other: "\<not> ?hit q" if "q \<in> set (pd_pauses db)" for q using that assms(3) by blast
  then have none: "sql_one ?hit (pd_pauses db) = None" by (simp add: sql_one_None)
  have found: "sql_one ?hit (pd_pauses db1) = Some row"
    using none p by (simp add: db1 sql_one_snoc)
  have kept: "sql_update ?hit f (pd_pauses db1) = pd_pauses db @ [f row]" for f
    using sql_update_none [of "pd_pauses db" ?hit f] other p by (simp add: db1 sql_update_append)
  let ?gone = "?h\<lparr> hd_releasedAt := Some t' \<rparr>"
  have released: "releaseHold t' hid None (pd_holds db1) = Inr (pd_holds db @ [?gone],
      Some \<lparr> rh_id = hid, rh_startedAt = t, rh_releasedAt = t' \<rparr>)"
    using old h assms(5) by (auto simp: releaseHold_def release_where_def db1 sql_update_def list_ex_iff map_idI filter_empty_conv)
  have "releasePause t' admin pid db1 = Inr (\<lparr> pd_holds = pd_holds db @ [?gone],
      pd_pauses = pd_pauses db @ [pause_released t' u row] \<rparr>, Policy_ok (toPause (pause_released t' u row)))"
    using assms(5) p by (simp add: releasePause_def u found kept released)
  moreover have "listApplicableHolds (pd_holds db @ [?gone]) subject = listApplicableHolds (pd_holds db) subject"
    by (rule listed_by) (simp add: applies_now_def)
  moreover have "toPause (pause_released t' u row) = p\<lparr> ps_releasedAt := Some t', ps_releasedByUserId := Some u \<rparr>"
    by (simp add: p toPause_def pause_released_def)
  ultimately show ?thesis using covered u by (simp add: listPauses_def pause_released_def)
qed

definition pause_input1 :: OpenPauseInput where
  "pause_input1 = \<lparr> op_scopeKind = ''channel'', op_scopeKey = None, op_channel = Some ''email'', op_reasonNote = None,
     op_commandId = None \<rparr>"

theorem pause_roundtrip_witness:
  "pause_covers pause_input1 (subject1\<lparr> hs_channel := Some ''email'' \<rparr>) \<and>
   (case openPause 5 ''h2'' ''p1'' (Actor_user ''u1'' Role_admin) pause_input1 \<lparr> pd_holds = [hold_row1], pd_pauses = [] \<rparr> of
      Inl _ \<Rightarrow> False
    | Inr (db1, _) \<Rightarrow> ''h2'' \<in> set (map oh_id (listApplicableHolds (pd_holds db1) (subject1\<lparr> hs_channel := Some ''email'' \<rparr>))))"
proof -
  let ?open = "openPause 5 ''h2'' ''p1'' (Actor_user ''u1'' Role_admin) pause_input1 \<lparr> pd_holds = [hold_row1], pd_pauses = [] \<rparr>"
  have covers: "pause_covers pause_input1 (subject1\<lparr> hs_channel := Some ''email'' \<rparr>)" by code_simp
  have ok: "case ?open of Inl _ \<Rightarrow> False | Inr (_, r) \<Rightarrow> case r of Policy_ok _ \<Rightarrow> True | _ \<Rightarrow> False" by code_simp
  obtain db1 p where run: "?open = Inr (db1, Policy_ok p)"
  proof (cases "?open")
    case (Inr y)
    then show ?thesis using that ok by (cases y; cases "snd y") auto
  qed (use ok in simp)
  have "''h2'' \<notin> hd_id ` set [hold_row1]" "admin_user (Actor_user ''u1'' Role_admin) \<noteq> None" by code_simp+
  then show ?thesis
    using covers pause_roundtrip [OF run, of "Actor_user ''u1'' Role_admin" 9 "subject1\<lparr> hs_channel := Some ''email'' \<rparr>"] run
    by simp
qed

section \<open>The configured calling window\<close>

lemma narrow_inside: "480 \<le> s \<Longrightarrow> s < e \<Longrightarrow> e \<le> 1200 \<Longrightarrow>
   narrowCallingWindow (Some (as_number \<lparr> startMinute = s, endMinute = e \<rparr>)) = \<lparr> startMinute = s, endMinute = e \<rparr>"
  by (simp add: narrowCallingWindow_def as_number_def CALLING_WINDOW_FLOOR_def Let_def)

lemma narrowWeekdays_inside:
  "days \<noteq> [] \<Longrightarrow> set days \<subseteq> set CALLING_WINDOW_WEEKDAYS \<Longrightarrow> sorted days \<Longrightarrow> narrowWeekdays days = days"
proof -
  assume "days \<noteq> []" "set days \<subseteq> set CALLING_WINDOW_WEEKDAYS" "sorted days"
  moreover from this(2) have "filter (\<lambda>d. d \<in> set CALLING_WINDOW_WEEKDAYS) days = days" by (auto intro: filter_True)
  ultimately show ?thesis by (simp add: narrowWeekdays_def Let_def sorted_sort_id)
qed

text \<open>Setting a calling window either refuses and changes nothing, or supersedes every
  window there was, gives the new one a higher version than any, and it is what the next read
  returns, as given.  It is never wider than the floor, in minutes or in weekdays.\<close>
theorem calling_window_read_back:
  "case setCallingWindow now fresh actor input rows of
     (rows', Policy_refused _) \<Rightarrow> rows' = rows
   | (rows', Policy_ok c) \<Rightarrow> currentCallingWindow rows' = c \<and>
       map cc_id [currentCallingWindow rows'] = map cw_id (filter (\<lambda>r. cw_supersededAt r = None) rows') \<and>
       list_all (\<lambda>r. cw_version r < cc_version c) rows \<and> map cw_id rows' = map cw_id rows @ [fresh] \<and>
       480 \<le> startMinute (cc_window c) \<and> startMinute (cc_window c) < endMinute (cc_window c) \<and>
       endMinute (cc_window c) \<le> 1200 \<and> cc_weekdays c \<noteq> [] \<and> set (cc_weekdays c) \<subseteq> {1..5}"
proof (cases "snd (setCallingWindow now fresh actor input rows)")
  case (Policy_refused code)
  have "fst (setCallingWindow now fresh actor input rows) = rows"
    using Policy_refused by (auto simp: setCallingWindow_def Let_def split: option.splits if_splits)
  then show ?thesis using Policy_refused by (auto split: prod.splits)
next
  case (Policy_ok c)
  obtain u a b where u: "admin_user actor = Some u" and ab: "sw_startMinute input = Some a" "sw_endMinute input = Some b"
    using Policy_ok by (auto simp: setCallingWindow_def split: option.splits)
  define s e days where "s = js_trunc a" and "e = js_trunc b" and
    "days = sort (remdups (case sw_weekdays input of None \<Rightarrow> CALLING_WINDOW_WEEKDAYS | Some d \<Rightarrow> d))"
  note local_defs = this
  let ?version = "foldl max 0 (map cw_version rows) + 1"
  let ?row = "\<lparr> cw_id = fresh, cw_version = ?version, cw_startMinute = s, cw_endMinute = e, cw_weekdays = days,
     cw_createdByUserId = u, cw_supersededAt = None, cw_supersededByUserId = None \<rparr>"
  let ?kept = "sql_update (\<lambda>r. cw_supersededAt r = None) (supersede_window now u) rows"
  let ?c = "\<lparr> cc_id = fresh, cc_version = ?version, cc_window = \<lparr> startMinute = s, endMinute = e \<rparr>, cc_weekdays = days \<rparr>"
  have run0: "setCallingWindow now fresh actor input rows =
      (if e \<le> s then (rows, Policy_refused Invalid_input) else
       if s < 480 \<or> e > 1200 then (rows, Policy_refused Window_not_narrower) else
       if days = [] \<or> list_ex (\<lambda>d. d \<notin> set CALLING_WINDOW_WEEKDAYS) days then (rows, Policy_refused Window_not_narrower)
       else (?kept @ [?row], Policy_ok ?c))"
    unfolding setCallingWindow_def Let_def CALLING_WINDOW_FLOOR_def local_defs ab u by simp
  then have bounds: "480 \<le> s" "s < e" "e \<le> 1200" and days: "days \<noteq> []" "set days \<subseteq> set CALLING_WINDOW_WEEKDAYS"
    and run: "setCallingWindow now fresh actor input rows = (?kept @ [?row], Policy_ok ?c)"
    using Policy_ok by (auto simp: list_ex_iff split: if_splits)
  have sorted: "sorted days" by (simp add: local_defs)
  have superseded: "filter (\<lambda>r. cw_supersededAt r = None) ?kept = []"
    by (auto simp: filter_empty_conv set_sql_update supersede_window_def)
  then have "sql_one (\<lambda>r. cw_supersededAt r = None) ?kept = None" by (simp only: sql_one_None filter_empty_conv)
  then have "sql_one (\<lambda>r. cw_supersededAt r = None) (?kept @ [?row]) = Some ?row" by (simp add: sql_one_snoc)
  then have read: "currentCallingWindow (?kept @ [?row]) = ?c"
    using narrow_inside [OF bounds] narrowWeekdays_inside [OF days sorted] by (simp add: currentCallingWindow_def)
  have versions: "list_all (\<lambda>r. cw_version r < ?version) rows"
    using foldl_max_bound [of _ "map cw_version rows" 0] by (fastforce simp: list_all_iff)
  have ids: "map cw_id ?kept = map cw_id rows" by (rule sql_update_map_key) (simp add: supersede_window_def)
  show ?thesis
    using read versions ids superseded bounds days by (simp add: run CALLING_WINDOW_WEEKDAYS_def) auto
qed

lemma opening_on_open:
  "opening_on tz t z w date day = Inr (Some c) \<Longrightarrow>
   t < c \<and> (case evaluateConfiguredCallingWindow tz (Some c) (Some z) w of Inl _ \<Rightarrow> False | Inr d \<Rightarrow> is_allowed d)"
  by (auto simp: opening_on_def split: if_splits elim!: and_thenE)

lemma first_opening_open:
  "first_opening tz t z w date days = Inr (Some c) \<Longrightarrow> \<exists>day\<in>set days. opening_on tz t z w date day = Inr (Some c)"
  by (induction days) (auto split: option.splits elim!: and_thenE)

text \<open>An opening that is announced is one: it is ahead, nothing refuses a call at it, and it
  is announced only when a call now would be refused.\<close>
theorem opening_is_open:
  "case nextCallingWindowOpening tz now zone configured of
     None \<Rightarrow> True
   | Some opening \<Rightarrow>
       (case now of None \<Rightarrow> False | Some t \<Rightarrow> t < opening) \<and>
       (case evaluateConfiguredCallingWindow tz (Some opening) zone configured of Inl _ \<Rightarrow> False | Inr d \<Rightarrow> is_allowed d) \<and>
       (case evaluateConfiguredCallingWindow tz now zone configured of Inl _ \<Rightarrow> False | Inr d \<Rightarrow> \<not> is_allowed d)"
proof (cases "nextCallingWindowOpening tz now zone configured")
  case (Some c)
  obtain z where z: "zone = Some z" using Some by (auto simp: nextCallingWindowOpening_def split: option.splits)
  obtain d parts where d: "evaluateConfiguredCallingWindow tz now zone configured = Inr d" "\<not> is_allowed d"
    and parts: "localParts tz now z = Inr parts"
    and found: "first_opening tz (case now of None \<Rightarrow> 0 | Some x \<Rightarrow> x) z configured (lp_date parts) [0, 1, 2, 3, 4, 5, 6, 7] =
      Inr (Some c)"
    using Some by (auto simp: nextCallingWindowOpening_def z split: sum.splits if_splits elim!: and_thenE)
  obtain t where t: "now = Some t" using parts by (cases now) (auto simp: localParts_def)
  obtain day where "opening_on tz t z configured (lp_date parts) day = Inr (Some c)"
    using first_opening_open [OF found] by (auto simp: t)
  then show ?thesis using opening_on_open [of tz t z configured "lp_date parts" day c] d
    unfolding Some by (simp add: z t)
qed simp

end
