(* ===== verification/SuppressionRules.thy ===== *)
theory SuppressionRules
  imports Footer "HOL-Library.List_Lexorder" "HOL-Library.Multiset"
begin

text \<open>
  \<open>packages/domain/src/rules/suppressionCanonicalization.ts\<close>: the one spelling a phone number
  or an email address has in the suppression set, the routes of a firm in that spelling, and
  the ten minutes in which a salesperson may correct a suppression.  Unicode normalisation and
  \<open>toLowerCase\<close> are the parameter \<open>TextEnv\<close>; what is asked of them is that they do to ASCII
  what Unicode says (\<open>text_env_ascii\<close>).
\<close>

record TextEnv =
  tx_nfkc :: "jstring \<Rightarrow> jstring"
  tx_lower :: "jstring \<Rightarrow> jstring"

definition CANONICALIZER_VERSION :: string where
  "CANONICALIZER_VERSION = ''e164-lower.1''"

datatype CanonicalChannel = Channel_phone | Channel_email

record CanonicalHandle =
  ch_channel :: CanonicalChannel
  ch_value :: jstring
  ch_canonicalizerVersion :: string

datatype CanonicalizationRefusal = Canon_empty | Phone_not_canonical_international | Phone_invalid | Phone_ambiguous
  | Email_invalid

datatype CanonicalizationResult = Canonical CanonicalHandle | Uncanonical CanonicalizationRefusal

definition handle_of :: "CanonicalChannel \<Rightarrow> jstring \<Rightarrow> CanonicalHandle" where
  "handle_of channel value = \<lparr> ch_channel = channel, ch_value = value, ch_canonicalizerVersion = CANONICALIZER_VERSION \<rparr>"

section \<open>Phone numbers\<close>

definition digit_unit :: "nat \<Rightarrow> bool" where
  "digit_unit c \<longleftrightarrow> 48 \<le> c \<and> c \<le> 57"

text \<open>\<open>[\d\s().-]\<close>\<close>
definition phone_unit :: "nat \<Rightarrow> bool" where
  "phone_unit c \<longleftrightarrow> digit_unit c \<or> ws c \<or> c \<in> {40, 41, 46, 45}"

text \<open>\<open>/^[\d\s().-]+$/\<close>\<close>
definition phone_text :: "jstring \<Rightarrow> bool" where
  "phone_text s \<longleftrightarrow> s \<noteq> [] \<and> list_all phone_unit s"

text \<open>\<open>/^[1-9]\d{7,14}$/\<close>\<close>
definition e164_digits :: "jstring \<Rightarrow> bool" where
  "e164_digits ds \<longleftrightarrow> 8 \<le> length ds \<and> length ds \<le> 15 \<and> list_all digit_unit ds \<and> hd ds \<noteq> 48"

definition canonicalizePhone :: "TextEnv \<Rightarrow> jstring \<Rightarrow> CanonicalizationResult" where
  "canonicalizePhone env value =
     (let normalized = trim (tx_nfkc env value) in
      case normalized of
        [] \<Rightarrow> Uncanonical Canon_empty
      | c # rest \<Rightarrow>
          if c = 43 then
            (let digits = filter digit_unit rest in
             if phone_text rest \<and> e164_digits digits then Canonical (handle_of Channel_phone (43 # digits))
             else Uncanonical Phone_not_canonical_international)
          else if \<not> phone_text normalized then Uncanonical Phone_invalid
          else
            (let digits = filter digit_unit normalized in
             if length digits = 10 then Canonical (handle_of Channel_phone (43 # 49 # digits))
             else if length digits = 11 \<and> hd digits = 49 then Canonical (handle_of Channel_phone (43 # digits))
             else Uncanonical Phone_ambiguous))"

section \<open>Email addresses\<close>

definition lower_alnum :: "nat \<Rightarrow> bool" where
  "lower_alnum c \<longleftrightarrow> digit_unit c \<or> (97 \<le> c \<and> c \<le> 122)"

definition local_unit :: "nat \<Rightarrow> bool" where
  "local_unit c \<longleftrightarrow> lower_alnum c \<or> c \<in> set (lit ''.!#$%&*+/=?^_`{|}~-'') \<or> c = 39"

text \<open>\<open>[a-z0-9](?:[a-z0-9-]{0,61}[a-z0-9])?\<close>, over a part of the domain that holds no dot.\<close>
definition domain_label :: "jstring \<Rightarrow> bool" where
  "domain_label l \<longleftrightarrow> l \<noteq> [] \<and> length l \<le> 63 \<and> lower_alnum (hd l) \<and> lower_alnum (last l) \<and>
     list_all (\<lambda>c. lower_alnum c \<or> c = 45) l"

fun split_at :: "nat \<Rightarrow> jstring \<Rightarrow> jstring list" where
  "split_at d [] = [[]]"
| "split_at d (c # cs) = (if c = d then [] # split_at d cs
     else (case split_at d cs of l # ls \<Rightarrow> (c # l) # ls | [] \<Rightarrow> [[c]]))"

text \<open>\<open>EMAIL_PATTERN\<close>: neither side of the sign holds another one.\<close>
definition EMAIL_PATTERN :: "jstring \<Rightarrow> bool" where
  "EMAIL_PATTERN s \<longleftrightarrow>
     (let before_at = takeWhile (\<lambda>c. c \<noteq> 64) s; rest = dropWhile (\<lambda>c. c \<noteq> 64) s in
      before_at \<noteq> [] \<and> list_all local_unit before_at \<and> rest \<noteq> [] \<and>
      (let labels = split_at 46 (tl rest) in 2 \<le> length labels \<and> list_all domain_label labels))"

definition canonicalizeEmail :: "TextEnv \<Rightarrow> jstring \<Rightarrow> CanonicalizationResult" where
  "canonicalizeEmail env value =
     (let normalized = tx_lower env (trim (tx_nfkc env value)) in
      if normalized = [] then Uncanonical Canon_empty else
      let localPart = (if 64 \<in> set normalized then takeWhile (\<lambda>c. c \<noteq> 64) normalized else butlast normalized) in
      if length normalized \<le> 254 \<and> EMAIL_PATTERN normalized \<and> \<not> has_sub [46, 46] normalized \<and>
         \<not> prefix [46] localPart \<and> \<not> suffix [46] localPart
      then Canonical (handle_of Channel_email normalized) else Uncanonical Email_invalid)"

section \<open>Handles and routes\<close>

definition canonicalizeHandle :: "TextEnv \<Rightarrow> jstring \<Rightarrow> CanonicalizationResult" where
  "canonicalizeHandle env value =
     (let raw = trim (tx_nfkc env value) in
      if raw = [] then Uncanonical Canon_empty
      else if 64 \<in> set raw then canonicalizeEmail env raw else canonicalizePhone env raw)"

record FirmRoute =
  ro_channel :: string
  ro_value :: jstring

definition channel_name :: "CanonicalChannel \<Rightarrow> string" where
  "channel_name c = (case c of Channel_phone \<Rightarrow> ''phone'' | Channel_email \<Rightarrow> ''email'')"

text \<open>One turn of the loop: the handles seen, first ones first.\<close>
definition route_seen :: "TextEnv \<Rightarrow> CanonicalHandle list \<Rightarrow> FirmRoute \<Rightarrow> CanonicalHandle list" where
  "route_seen env seen route =
     (if ro_channel route \<notin> {''phone'', ''email''} then seen else
      case canonicalizeHandle env (ro_value route) of
        Uncanonical _ \<Rightarrow> seen
      | Canonical h \<Rightarrow>
          if channel_name (ch_channel h) \<noteq> ro_channel route \<or> ch_value h \<in> set (map ch_value seen) then seen
          else seen @ [h])"

definition canonicalizeRoutes :: "TextEnv \<Rightarrow> FirmRoute list \<Rightarrow> CanonicalHandle list" where
  "canonicalizeRoutes env routes = sort_key ch_value (foldl (route_seen env) [] routes)"

definition SUPPORTED_CANONICALIZER_VERSIONS :: "string list" where
  "SUPPORTED_CANONICALIZER_VERSIONS = [CANONICALIZER_VERSION]"

definition isSupportedCanonicalizerVersion :: "string \<Rightarrow> bool" where
  "isSupportedCanonicalizerVersion version \<longleftrightarrow> version \<in> set SUPPORTED_CANONICALIZER_VERSIONS"

section \<open>Corrections\<close>

definition MANUAL_SUPPRESSION_CORRECTION_MILLISECONDS :: int where
  "MANUAL_SUPPRESSION_CORRECTION_MILLISECONDS = 10 * 60 * 1000"

datatype CorrectionRefusal = Not_your_event | Not_salesperson_originated | Window_expired

datatype CorrectionDecision = Correction_allowed | Correction_refused CorrectionRefusal

text \<open>An instant that does not parse is \<open>None\<close>, and the answer then a TypeError.\<close>
definition mayCorrectSuppression :: "string \<Rightarrow> string option \<Rightarrow> instant option \<Rightarrow> string \<Rightarrow> instant option \<Rightarrow>
    unit + CorrectionDecision" where
  "mayCorrectSuppression source eventActor recordedAt actorUserId now =
     (if source \<noteq> ''salesperson_manual'' then Inr (Correction_refused Not_salesperson_originated) else
      if eventActor = None \<or> eventActor \<noteq> Some actorUserId then Inr (Correction_refused Not_your_event) else
      case (recordedAt, now) of
        (Some recorded, Some at) \<Rightarrow>
          Inr (if at - recorded < MANUAL_SUPPRESSION_CORRECTION_MILLISECONDS then Correction_allowed
               else Correction_refused Window_expired)
      | _ \<Rightarrow> Inl ())"

section \<open>Facts\<close>

definition ascii :: "jstring \<Rightarrow> bool" where
  "ascii s \<longleftrightarrow> (\<forall>c\<in>set s. c < 128)"

text \<open>What Unicode says of ASCII text: it is its own NFKC form, and lowering it lowers its
  capitals.\<close>
definition text_env_ascii :: "TextEnv \<Rightarrow> bool" where
  "text_env_ascii env \<longleftrightarrow> (\<forall>s. ascii s \<longrightarrow> tx_nfkc env s = s \<and> tx_lower env s = ascii_lower s)"

text \<open>A unit that trimming, normalisation and lowering leave alone.\<close>
definition plain_unit :: "nat \<Rightarrow> bool" where
  "plain_unit c \<longleftrightarrow> c < 128 \<and> \<not> ws c \<and> \<not> (65 \<le> c \<and> c \<le> 90)"

lemma digit_units: "digit_unit c \<Longrightarrow> plain_unit c \<and> c \<noteq> 43 \<and> c \<noteq> 64 \<and> c \<noteq> 46"
  by (auto simp: plain_unit_def digit_unit_def ws_def)

lemma lower_units: "lower_alnum c \<Longrightarrow> plain_unit c \<and> c \<noteq> 46 \<and> c \<noteq> 64"
  by (auto simp: plain_unit_def lower_alnum_def digit_unit_def ws_def)

lemma plain_marks: "plain_unit 46" "plain_unit 45" "plain_unit 64" "plain_unit 43" "plain_unit 49"
  by (simp_all add: plain_unit_def ws_def)

lemma local_units: "local_unit c \<Longrightarrow> plain_unit c \<and> c \<noteq> 64"
proof -
  have "list_all (\<lambda>c. plain_unit c \<and> c \<noteq> 64) (lit ''.!#$%&*+/=?^_`{|}~-'')"
    by (simp add: lit_def plain_unit_def ws_def)
  moreover have "plain_unit 39" by (simp add: plain_unit_def ws_def)
  ultimately show "local_unit c \<Longrightarrow> ?thesis" using lower_units unfolding local_unit_def list_all_iff by auto
qed

lemma split_at_units: "c \<in> set s \<Longrightarrow> c = d \<or> (\<exists>l\<in>set (split_at d s). c \<in> set l)"
proof (induction s)
  case (Cons x xs)
  then show ?case by (cases "split_at d xs") (auto split: if_splits)
qed simp

lemma pattern_units:
  assumes "EMAIL_PATTERN s"
  shows "\<forall>c\<in>set s. plain_unit c" and "64 \<in> set s"
proof -
  define b where "b = takeWhile (\<lambda>c. c \<noteq> 64) s"
  define r where "r = dropWhile (\<lambda>c. c \<noteq> 64) s"
  have p: "list_all local_unit b" "r \<noteq> []" "list_all domain_label (split_at 46 (tl r))"
    using assms by (auto simp: EMAIL_PATTERN_def Let_def b_def r_def)
  have s: "s = b @ 64 # tl r"
    using p(2) hd_dropWhile [of "\<lambda>c. c \<noteq> 64" s] unfolding b_def r_def by (metis list.collapse takeWhile_dropWhile_id)
  have "plain_unit c" if "c \<in> set (tl r)" for c
    using split_at_units [OF that, of 46] p(3) lower_units plain_marks unfolding list_all_iff domain_label_def by blast
  moreover have "plain_unit c" if "c \<in> set b" for c
    using that p(1) local_units unfolding list_all_iff by blast
  moreover have "set s = set b \<union> {64} \<union> set (tl r)" by (subst s) simp
  ultimately show "\<forall>c\<in>set s. plain_unit c" "64 \<in> set s" using plain_marks by auto
qed

lemma trim_solid: "(\<forall>c\<in>set s. \<not> ws c) \<Longrightarrow> trim s = s"
proof (cases s)
  case (Cons c cs)
  assume "\<forall>c\<in>set s. \<not> ws c"
  then show ?thesis using Cons strip_end_append [of s ws "[]"] by (simp add: trim_def trim_end_def)
qed (simp add: trim_def trim_end_def strip_end_def)

lemma ascii_lower_id: "(\<forall>c\<in>set s. \<not> (65 \<le> c \<and> c \<le> 90)) \<Longrightarrow> ascii_lower s = s"
  by (auto simp: ascii_lower_def intro!: map_idI)

lemma plain_text:
  assumes "\<forall>c\<in>set s. plain_unit c"
  shows "ascii s" "trim s = s" "ascii_lower s = s"
  using assms trim_solid ascii_lower_id by (auto simp: plain_unit_def ascii_def)

lemma plain_env: "text_env_ascii env \<Longrightarrow> \<forall>c\<in>set s. plain_unit c \<Longrightarrow> tx_nfkc env s = s \<and> tx_lower env s = s \<and> trim s = s"
  using plain_text [of s] by (simp add: text_env_ascii_def)

text \<open>The two forms of a canonical value.\<close>
definition email_value :: "jstring \<Rightarrow> bool" where
  "email_value v \<longleftrightarrow> length v \<le> 254 \<and> EMAIL_PATTERN v \<and> \<not> has_sub [46, 46] v \<and>
     \<not> prefix [46] (takeWhile (\<lambda>c. c \<noteq> 64) v) \<and> \<not> suffix [46] (takeWhile (\<lambda>c. c \<noteq> 64) v)"

definition phone_value :: "jstring \<Rightarrow> bool" where
  "phone_value v \<longleftrightarrow> (\<exists>ds. v = 43 # ds \<and> e164_digits ds)"

lemma us_digits:
  "length (filter digit_unit xs) = 10 \<Longrightarrow> e164_digits (49 # filter digit_unit xs)"
  "length (filter digit_unit xs) = 11 \<Longrightarrow> hd (filter digit_unit xs) = 49 \<Longrightarrow> e164_digits (filter digit_unit xs)"
  by (auto simp: e164_digits_def list_all_iff) (simp add: digit_unit_def)

lemma phone_value_form: "canonicalizePhone env s = Canonical h \<Longrightarrow> \<exists>v. h = handle_of Channel_phone v \<and> phone_value v"
  unfolding canonicalizePhone_def Let_def phone_value_def
  by (split list.splits) (auto simp del: filter.simps split: if_splits intro: us_digits)

lemma email_value_form: "canonicalizeEmail env s = Canonical h \<Longrightarrow> \<exists>v. h = handle_of Channel_email v \<and> email_value v"
proof -
  assume e: "canonicalizeEmail env s = Canonical h"
  let ?v = "tx_lower env (trim (tx_nfkc env s))"
  have "EMAIL_PATTERN ?v" using e by (auto simp: canonicalizeEmail_def Let_def split: if_splits)
  then have "64 \<in> set ?v" by (rule pattern_units)
  then show ?thesis using e by (auto simp: canonicalizeEmail_def Let_def email_value_def split: if_splits)
qed

lemma canonical_form:
  "canonicalizeHandle env s = Canonical h \<Longrightarrow>
   \<exists>v. (h = handle_of Channel_phone v \<and> phone_value v) \<or> (h = handle_of Channel_email v \<and> email_value v)"
  unfolding canonicalizeHandle_def Let_def using phone_value_form email_value_form by (metis CanonicalizationResult.distinct(1))

lemma phone_value_units: "phone_value v \<Longrightarrow> (\<forall>c\<in>set v. plain_unit c) \<and> 64 \<notin> set v \<and> v \<noteq> []"
  using plain_marks by (auto simp: phone_value_def e164_digits_def list_all_iff dest: digit_units)

lemma email_value_units: "email_value v \<Longrightarrow> (\<forall>c\<in>set v. plain_unit c) \<and> 64 \<in> set v \<and> v \<noteq> []"
  using pattern_units [of v] by (auto simp: email_value_def)

lemma phone_value_fixed: "text_env_ascii env \<Longrightarrow> phone_value v \<Longrightarrow> canonicalizePhone env v = Canonical (handle_of Channel_phone v)"
proof -
  assume env: "text_env_ascii env" and v: "phone_value v"
  then obtain ds where ds: "v = 43 # ds" "e164_digits ds" by (auto simp: phone_value_def)
  have "filter digit_unit ds = ds" "phone_text ds"
    using ds(2) by (auto simp: e164_digits_def list_all_iff phone_text_def phone_unit_def filter_id_conv)
  then show ?thesis
    using plain_env [OF env] phone_value_units [OF v] ds by (simp add: canonicalizePhone_def)
qed

lemma email_value_fixed: "text_env_ascii env \<Longrightarrow> email_value v \<Longrightarrow> canonicalizeEmail env v = Canonical (handle_of Channel_email v)"
  using plain_env [of env v] email_value_units [of v] by (simp add: canonicalizeEmail_def email_value_def Let_def)

definition ascii_env :: TextEnv where
  "ascii_env = \<lparr> tx_nfkc = (\<lambda>s. s), tx_lower = ascii_lower \<rparr>"

text \<open>C30: A handle has one spelling.  Whatever was written, the canonical value is its own
  canonical form, in the same channel; it is an E.164 number of 8 to 15 digits, or a lower-case
  address of at most 254 units without two dots in a row.\<close>
theorem canonicalizeHandle_fixed:
  assumes "text_env_ascii env" "canonicalizeHandle env s = Canonical h"
  shows "canonicalizeHandle env (ch_value h) = Canonical h \<and>
    (case ch_channel h of Channel_phone \<Rightarrow> \<exists>ds. ch_value h = 43 # ds \<and> e164_digits ds
     | Channel_email \<Rightarrow> length (ch_value h) \<le> 254 \<and> EMAIL_PATTERN (ch_value h) \<and> \<not> has_sub [46, 46] (ch_value h) \<and>
        tx_lower env (ch_value h) = ch_value h)"
proof -
  obtain v where v: "(h = handle_of Channel_phone v \<and> phone_value v) \<or> (h = handle_of Channel_email v \<and> email_value v)"
    using canonical_form [OF assms(2)] by blast
  then show ?thesis
  proof
    assume p: "h = handle_of Channel_phone v \<and> phone_value v"
    note u = phone_value_units [OF conjunct2 [OF p]]
    have "canonicalizeHandle env v = Canonical h"
      using phone_value_fixed [OF assms(1) conjunct2 [OF p]] u plain_env [OF assms(1), of v] p
      by (simp add: canonicalizeHandle_def)
    then show ?thesis using p by (simp add: handle_of_def phone_value_def)
  next
    assume e: "h = handle_of Channel_email v \<and> email_value v"
    note u = email_value_units [OF conjunct2 [OF e]]
    have "canonicalizeHandle env v = Canonical h" "tx_lower env v = v"
      using email_value_fixed [OF assms(1) conjunct2 [OF e]] u plain_env [OF assms(1), of v] e
      by (simp_all add: canonicalizeHandle_def)
    then show ?thesis using e by (simp add: handle_of_def email_value_def)
  qed
qed

text \<open>\<open>(555) 010-4477\<close>, and a name with a capital between spaces.\<close>
theorem canonicalizeHandle_fixed_witness:
  "canonicalizeHandle ascii_env (lit ''+15550104477'') = Canonical (handle_of Channel_phone (lit ''+15550104477'')) \<and>
   canonicalizeHandle ascii_env (lit ''ana@b.co'') = Canonical (handle_of Channel_email (lit ''ana@b.co''))"
proof -
  have env: "text_env_ascii ascii_env" by (simp add: text_env_ascii_def ascii_env_def)
  have p: "canonicalizeHandle ascii_env (lit ''(555) 010-4477'') = Canonical (handle_of Channel_phone (lit ''+15550104477''))"
    by code_simp
  have e: "canonicalizeHandle ascii_env (lit '' Ana@b.co '') = Canonical (handle_of Channel_email (lit ''ana@b.co''))"
    by code_simp
  show ?thesis
    using canonicalizeHandle_fixed [OF env p] canonicalizeHandle_fixed [OF env e] by (simp add: handle_of_def)
qed

section \<open>Routes\<close>

definition route_handle :: "TextEnv \<Rightarrow> FirmRoute \<Rightarrow> CanonicalHandle option" where
  "route_handle env r = (case canonicalizeHandle env (ro_value r) of Uncanonical _ \<Rightarrow> None
     | Canonical h \<Rightarrow> if channel_name (ch_channel h) = ro_channel r then Some h else None)"

text \<open>The channel of a handle shows in its value.\<close>
definition handle_at :: "jstring \<Rightarrow> CanonicalHandle" where
  "handle_at v = handle_of (if 64 \<in> set v then Channel_email else Channel_phone) v"

lemma route_handle_iff: "route_handle env r = Some h \<longleftrightarrow>
    canonicalizeHandle env (ro_value r) = Canonical h \<and> channel_name (ch_channel h) = ro_channel r"
  by (auto simp: route_handle_def split: CanonicalizationResult.splits if_splits)

lemma route_handle_at: "route_handle env r = Some h \<Longrightarrow> h = handle_at (ch_value h)"
proof -
  assume "route_handle env r = Some h"
  then have "canonicalizeHandle env (ro_value r) = Canonical h"
    by (auto simp: route_handle_def split: CanonicalizationResult.splits if_splits)
  then show ?thesis
    using canonical_form phone_value_units email_value_units by (fastforce simp: handle_at_def handle_of_def)
qed

lemma channel_name_cases: "channel_name c = n \<Longrightarrow> n = ''phone'' \<or> n = ''email''"
  by (cases c) (auto simp: channel_name_def)

lemma route_seen_eq: "route_seen env seen r = (case route_handle env r of None \<Rightarrow> seen
     | Some h \<Rightarrow> if ch_value h \<in> set (map ch_value seen) then seen else seen @ [h])"
  by (auto simp: route_seen_def route_handle_def split: CanonicalizationResult.splits dest: channel_name_cases)

definition route_values :: "TextEnv \<Rightarrow> FirmRoute list \<Rightarrow> jstring set" where
  "route_values env routes = {v. \<exists>r\<in>set routes. \<exists>h. route_handle env r = Some h \<and> ch_value h = v}"

lemma routes_seen:
  "distinct (map ch_value seen) \<Longrightarrow> (\<forall>h\<in>set seen. h = handle_at (ch_value h)) \<Longrightarrow>
   distinct (map ch_value (foldl (route_seen env) seen routes)) \<and>
   (\<forall>h\<in>set (foldl (route_seen env) seen routes). h = handle_at (ch_value h)) \<and>
   ch_value ` set (foldl (route_seen env) seen routes) = ch_value ` set seen \<union> route_values env routes"
proof (induction routes arbitrary: seen)
  case (Cons r rs)
  let ?next = "route_seen env seen r"
  have "distinct (map ch_value ?next)" "\<forall>h\<in>set ?next. h = handle_at (ch_value h)"
    using Cons.prems route_handle_at by (auto simp: route_seen_eq split: option.split)
  moreover have "ch_value ` set ?next \<union> route_values env rs = ch_value ` set seen \<union> route_values env (r # rs)"
    by (auto simp: route_seen_eq route_values_def split: option.splits)
  ultimately show ?case using Cons.IH by simp
qed (simp add: route_values_def)

lemma canonicalizeRoutes_eq:
  "canonicalizeRoutes env routes = map handle_at (sorted_list_of_set (route_values env routes))"
proof -
  let ?L = "foldl (route_seen env) [] routes" and ?R = "canonicalizeRoutes env routes"
  have l: "distinct (map ch_value ?L)" "\<forall>h\<in>set ?L. h = handle_at (ch_value h)" "ch_value ` set ?L = route_values env routes"
    using routes_seen [of "[]"] by auto
  have r: "mset ?R = mset ?L" by (simp add: canonicalizeRoutes_def)
  have "distinct (map ch_value ?R)" using l(1) r mset_eq_imp_distinct_iff [of "map ch_value ?R" "map ch_value ?L"] by simp
  moreover have "sorted (map ch_value ?R)" by (simp add: canonicalizeRoutes_def)
  moreover have "set (map ch_value ?R) = route_values env routes" using l(3) r by (metis list.set_map mset_eq_setD)
  ultimately have keys: "map ch_value ?R = sorted_list_of_set (route_values env routes)"
    by (metis sorted_list_of_set.idem_if_sorted_distinct)
  have "?R = map handle_at (map ch_value ?R)"
    using l(2) mset_eq_setD [OF r] by (simp add: map_idI [symmetric] o_def) (metis (mono_tags, lifting) map_idI)
  then show ?thesis using keys by simp
qed

text \<open>A replayed suppression writes exactly the same set.  The handles of a firm's routes
  depend on which routes there are, and not on their order or on how often one is listed; they
  are in strictly increasing order of their values, each what the canonicaliser makes of a
  route of that channel.\<close>
theorem canonicalizeRoutes_stable:
  assumes "set routes = set routes'"
  shows "canonicalizeRoutes env routes = canonicalizeRoutes env routes' \<and>
    sorted_wrt (<) (map ch_value (canonicalizeRoutes env routes)) \<and>
    (\<forall>h. h \<in> set (canonicalizeRoutes env routes) \<longleftrightarrow>
      (\<exists>r\<in>set routes. canonicalizeHandle env (ro_value r) = Canonical h \<and> channel_name (ch_channel h) = ro_channel r))"
proof (intro conjI allI)
  show "canonicalizeRoutes env routes = canonicalizeRoutes env routes'"
    using assms by (simp add: canonicalizeRoutes_eq route_values_def)
  have v: "ch_value (handle_at w) = w" for w by (simp add: handle_at_def handle_of_def)
  have fin: "finite (route_values env routes)"
    using routes_seen [of "[]" env routes] by (metis List.finite_set finite_imageI Un_empty_left image_empty list.set(1) distinct.simps(1) empty_iff list.map(1))
  show "sorted_wrt (<) (map ch_value (canonicalizeRoutes env routes))"
    using sorted_list_of_set.strict_sorted_key_list_of_set [of "route_values env routes"] by (simp add: canonicalizeRoutes_eq o_def v)
  fix h
  have "h \<in> set (canonicalizeRoutes env routes) \<longleftrightarrow> (\<exists>r\<in>set routes. route_handle env r = Some h)"
    using fin route_handle_at by (fastforce simp: canonicalizeRoutes_eq route_values_def)
  then show "h \<in> set (canonicalizeRoutes env routes) \<longleftrightarrow>
      (\<exists>r\<in>set routes. canonicalizeHandle env (ro_value r) = Canonical h \<and> channel_name (ch_channel h) = ro_channel r)"
    by (simp add: route_handle_iff)
qed

definition sample_routes :: "FirmRoute list" where
  "sample_routes = [\<lparr> ro_channel = ''phone'', ro_value = lit ''555 010 4477'' \<rparr>,
     \<lparr> ro_channel = ''email'', ro_value = lit ''Ana@b.co'' \<rparr>, \<lparr> ro_channel = ''phone'', ro_value = lit ''1-555-010-4477'' \<rparr>]"

theorem canonicalizeRoutes_stable_witness:
  "canonicalizeRoutes ascii_env (rev sample_routes) = canonicalizeRoutes ascii_env sample_routes \<and>
   map ch_value (canonicalizeRoutes ascii_env sample_routes) = [lit ''+15550104477'', lit ''ana@b.co'']"
proof -
  have "map ch_value (canonicalizeRoutes ascii_env sample_routes) = [lit ''+15550104477'', lit ''ana@b.co'']"
    by code_simp
  then show ?thesis using canonicalizeRoutes_stable [of "rev sample_routes" sample_routes ascii_env] by simp
qed

end
