(* ===== verification/Suppression.thy ===== *)
theory Suppression
  imports SuppressionRules JobStore SendGate
begin

text \<open>
  The insert-only suppression protocol: \<open>packages/domain/suppression/journal.ts\<close>,
  \<open>effective.ts\<close>, \<open>finalize.ts\<close>, \<open>events.ts\<close>, the two tables and the view of migrations
  \<open>0001\<close>, \<open>0006\<close>, \<open>0014\<close> and \<open>0037\<close>, the firm rule of \<open>crm/authorization.ts\<close>, and the
  copies of \<open>crm/merges.ts\<close>.  One workspace's rows; its advisory locks make each command one
  step.  SHA-256 is the parameter \<open>st_sha256\<close>, the journal a list of the records it holds,
  which a rollback of the database leaves as it is.
\<close>

section \<open>Who may change a firm (crm/authorization.ts)\<close>

record FirmRow =
  fi_id :: uuid
  fi_assignedUserId :: "uuid option"
  fi_merged :: bool

datatype CrmRefusalCode = Crm_firm_merged | Crm_not_assigned | Crm_admin_only

datatype FirmMutationDecision = Firm_permitted | Firm_refused CrmRefusalCode

definition decideFirmMutation :: "ScopeActor \<Rightarrow> FirmRow \<Rightarrow> FirmMutationDecision" where
  "decideFirmMutation actor firm =
     (if fi_merged firm then Firm_refused Crm_firm_merged else
      case actor of
        Actor_system _ \<Rightarrow> Firm_permitted
      | Actor_user userId role \<Rightarrow>
          if role = Role_admin then Firm_permitted else
          if fi_assignedUserId firm \<noteq> Some userId then Firm_refused Crm_not_assigned else Firm_permitted)"

definition decideAdminOnly :: "ScopeActor \<Rightarrow> FirmMutationDecision" where
  "decideAdminOnly actor = (case actor of
     Actor_system _ \<Rightarrow> Firm_permitted
   | Actor_user _ role \<Rightarrow> if role = Role_admin then Firm_permitted else Firm_refused Crm_admin_only)"

datatype FirmReadVisibility = Any_active_member | Assigned_or_admin

definition decideFirmRead :: "ScopeActor \<Rightarrow> FirmRow \<Rightarrow> FirmReadVisibility" where
  "decideFirmRead actor firm = (case actor of
     Actor_system _ \<Rightarrow> Assigned_or_admin
   | Actor_user userId role \<Rightarrow> if role = Role_admin then Assigned_or_admin
       else if fi_assignedUserId firm = Some userId then Assigned_or_admin else Any_active_member)"

definition firmReadIsAudited :: "ScopeActor \<Rightarrow> FirmRow \<Rightarrow> bool" where
  "firmReadIsAudited actor firm \<longleftrightarrow> (case actor of
     Actor_system _ \<Rightarrow> False
   | Actor_user userId role \<Rightarrow> role = Role_admin \<and> fi_assignedUserId firm \<noteq> Some userId)"

definition loadFirmForUpdate :: "FirmRow list \<Rightarrow> uuid \<Rightarrow> FirmRow option" where
  "loadFirmForUpdate firm_rows firmId = sql_one (\<lambda>f. fi_id f = firmId) firm_rows"

section \<open>Events and their ids (events.ts, journal.ts)\<close>

record SuppressionEventRow =
  sv_eventId :: string
  sv_scope :: string
  sv_canonicalKey :: string
  sv_canonicalizerVersion :: string
  sv_source :: string
  sv_actorUserId :: "uuid option"
  sv_commandId :: "string option"
  sv_recordedAt :: instant
  sv_supersedesEventId :: "string option"
  sv_supersessionReason :: "string option"
  sv_channel :: string

text \<open>A journal object: the event's fields, and the firm of its review hold, absent on an object
  older than the field.\<close>
record SuppressionJournalRecord =
  jr_workspaceId :: uuid
  jr_event :: SuppressionEventRow
  jr_firmId :: "uuid option option"
  jr_committed :: bool

text \<open>What the protocol takes from outside: Unicode, the workspace and SHA-256 in hex.\<close>
record StopEnv =
  st_text :: TextEnv
  st_workspaceId :: uuid
  st_sha256 :: "string \<Rightarrow> string"

fun join_with :: "string \<Rightarrow> string list \<Rightarrow> string" where
  "join_with sep [] = []"
| "join_with sep [x] = x"
| "join_with sep (x # y # ys) = x @ sep @ join_with sep (y # ys)"

definition id_parts :: "uuid \<Rightarrow> string \<Rightarrow> string \<Rightarrow> string \<Rightarrow> string option \<Rightarrow> string option \<Rightarrow> string \<Rightarrow> string list" where
  "id_parts workspaceId scope key source commandId supersedes channel =
     [workspaceId, scope, key, source, case_option [] id commandId, case_option [] id supersedes] @
     (if channel \<noteq> ''all'' then [channel] else [])"

definition deterministicEventId :: "StopEnv \<Rightarrow> string \<Rightarrow> string \<Rightarrow> string \<Rightarrow> string option \<Rightarrow> string option \<Rightarrow> string \<Rightarrow> string" where
  "deterministicEventId env scope key source commandId supersedes channel =
     ''sup_'' @ st_sha256 env (join_with [CHR 0x00] (id_parts (st_workspaceId env) scope key source commandId supersedes channel))"

definition journalObjectKey :: "SuppressionJournalRecord \<Rightarrow> string" where
  "journalObjectKey r = ''suppressions/'' @ jr_workspaceId r @ ''/'' @ sv_eventId (jr_event r) @ ''.json''"

definition MERGE_COPY_PREFIX :: string where
  "MERGE_COPY_PREFIX = ''mergecopy:''"

definition LEGACY_MERGE_COPY_PREFIX :: string where
  "LEGACY_MERGE_COPY_PREFIX = ''merge:''"

definition mergeCopyId :: "string \<Rightarrow> string \<Rightarrow> string" where
  "mergeCopyId eventId survivorFirmId = MERGE_COPY_PREFIX @ eventId @ ''@'' @ js_lower survivorFirmId"

definition isMergeCopyId :: "string \<Rightarrow> bool" where
  "isMergeCopyId eventId \<longleftrightarrow> prefix MERGE_COPY_PREFIX eventId \<or> prefix LEGACY_MERGE_COPY_PREFIX eventId"

definition journalRecordOf :: "StopEnv \<Rightarrow> SuppressionEventRow \<Rightarrow> SuppressionJournalRecord" where
  "journalRecordOf env event = \<lparr> jr_workspaceId = st_workspaceId env, jr_event = event, jr_firmId = None, jr_committed = False \<rparr>"

section \<open>The table of events\<close>

definition SUPPRESSION_SOURCES :: "string list" where
  "SUPPRESSION_SOURCES = [''prospect_opt_out'', ''prospect_do_not_call'', ''salesperson_manual'', ''import'',
     ''deletion_tombstone'', ''mistaken_entry_correction'', ''admin_supersession'']"

definition SUPERSESSION_SOURCES :: "string list" where
  "SUPERSESSION_SOURCES = [''mistaken_entry_correction'', ''admin_supersession'']"

definition TERMINAL_SOURCES :: "string list" where
  "TERMINAL_SOURCES = [''prospect_opt_out'', ''prospect_do_not_call'', ''import'', ''deletion_tombstone'']"

definition channelFitsKey :: "string \<Rightarrow> string \<Rightarrow> string \<Rightarrow> bool" where
  "channelFitsKey scope key channel \<longleftrightarrow>
     scope = ''firm'' \<or> channel = ''all'' \<or> (channel = ''email'') = (CHR ''@'' \<in> set key)"

text \<open>\<open>^[a-z0-9._-]{1,40}$\<close>\<close>
definition version_shape :: "string \<Rightarrow> bool" where
  "version_shape v \<longleftrightarrow> v \<noteq> [] \<and> length v \<le> 40 \<and>
     list_all (\<lambda>c. JobStore.ascii_lower c \<or> is_digit c \<or> c \<in> {CHR ''.'', CHR ''_'', CHR ''-''}) v"

definition event_row_ok :: "SuppressionEventRow \<Rightarrow> bool" where
  "event_row_ok e \<longleftrightarrow> sv_scope e \<in> {''firm'', ''handle''} \<and>
     present_bounded 320 (sv_canonicalKey e) \<and> sv_canonicalKey e = js_lower (sv_canonicalKey e) \<and>
     version_shape (sv_canonicalizerVersion e) \<and> sv_source e \<in> set SUPPRESSION_SOURCES \<and>
     (sv_source e \<in> set SUPERSESSION_SOURCES) = (sv_supersedesEventId e \<noteq> None) \<and>
     null_or (\<lambda>r. r \<in> {''mistaken_entry'', ''correction'', ''documented_reconsent''}) (sv_supersessionReason e) \<and>
     (sv_supersedesEventId e = None) = (sv_supersessionReason e = None) \<and>
     sv_channel e \<in> {''phone'', ''email'', ''all''} \<and>
     channelFitsKey (sv_scope e) (sv_canonicalKey e) (sv_channel e)"

definition same_stop_key :: "SuppressionEventRow \<Rightarrow> SuppressionEventRow \<Rightarrow> bool" where
  "same_stop_key a b \<longleftrightarrow> sv_scope a = sv_scope b \<and> sv_canonicalKey a = sv_canonicalKey b \<and> sv_channel a = sv_channel b"

datatype EventDbError = Event_check | Event_unique | Event_foreign | Event_same_key

definition readSuppressionEvent :: "SuppressionEventRow list \<Rightarrow> string \<Rightarrow> SuppressionEventRow option" where
  "readSuppressionEvent events eventId = sql_one (\<lambda>e. sv_eventId e = eventId) events"

definition alreadySuperseded :: "SuppressionEventRow list \<Rightarrow> string \<Rightarrow> bool" where
  "alreadySuperseded events eventId \<longleftrightarrow> list_ex (\<lambda>s. sv_supersedesEventId s = Some eventId) events"

text \<open>\<open>INSERT INTO suppression_events\<close>: the CHECKs, the two unique indexes (\<open>23505\<close>), the
  foreign key and the trigger \<open>assert_supersession_same_key\<close>.\<close>
definition insert_event :: "SuppressionEventRow \<Rightarrow> SuppressionEventRow list \<Rightarrow> EventDbError + SuppressionEventRow list" where
  "insert_event e events =
     (if \<not> event_row_ok e then Inl Event_check else
      if readSuppressionEvent events (sv_eventId e) \<noteq> None then Inl Event_unique else
      case sv_supersedesEventId e of
        None \<Rightarrow> Inr (events @ [e])
      | Some original \<Rightarrow>
          if alreadySuperseded events original then Inl Event_unique else
          (case readSuppressionEvent events original of
             None \<Rightarrow> Inl Event_foreign
           | Some o' \<Rightarrow> if same_stop_key e o' then Inr (events @ [e]) else Inl Event_same_key))"

section \<open>What is in force (effective.ts, the view)\<close>

text \<open>A stop nothing supersedes.\<close>
definition standing :: "SuppressionEventRow list \<Rightarrow> SuppressionEventRow \<Rightarrow> bool" where
  "standing events e \<longleftrightarrow> sv_supersedesEventId e = None \<and> \<not> alreadySuperseded events (sv_eventId e)"

definition event_order :: "SuppressionEventRow \<Rightarrow> instant \<times> string" where
  "event_order e = (sv_recordedAt e, sv_eventId e)"

text \<open>The view \<open>effective_suppressions\<close>: the first standing stop of every key and channel.\<close>
definition effective_events :: "SuppressionEventRow list \<Rightarrow> SuppressionEventRow list" where
  "effective_events events =
     (let stand = filter (standing events) events in
      filter (\<lambda>e. \<not> list_ex (\<lambda>f. same_stop_key f e \<and> event_order f < event_order e) stand) stand)"

record EffectiveStop =
  ef_event :: SuppressionEventRow
  ef_versionSupported :: bool

definition toEffective :: "SuppressionEventRow \<Rightarrow> EffectiveStop" where
  "toEffective e = \<lparr> ef_event = e, ef_versionSupported = isSupportedCanonicalizerVersion (sv_canonicalizerVersion e) \<rparr>"

definition isSuppressed :: "SuppressionEventRow list \<Rightarrow> string \<Rightarrow> string \<Rightarrow> EffectiveStop option" where
  "isSuppressed events scope key =
     (case sort_key event_order (filter (\<lambda>e. sv_scope e = scope \<and> sv_canonicalKey e = js_lower key) (effective_events events)) of
        [] \<Rightarrow> None | e # _ \<Rightarrow> Some (toEffective e))"

text \<open>Newest first.\<close>
definition listEffectiveSuppressions :: "SuppressionEventRow list \<Rightarrow> string option \<Rightarrow> nat \<Rightarrow> EffectiveStop list" where
  "listEffectiveSuppressions events scope limit = map toEffective (take limit
     (sort_key (\<lambda>e. (- sv_recordedAt e, sv_eventId e))
       (filter (\<lambda>e. case scope of None \<Rightarrow> True | Some s \<Rightarrow> sv_scope e = s) (effective_events events))))"

text \<open>The view's columns as the send gate reads them.\<close>
definition gate_row :: "SuppressionEventRow \<Rightarrow> EffectiveSuppression" where
  "gate_row e = \<lparr> es_eventId = sv_eventId e, es_scope = sv_scope e, es_canonicalKey = sv_canonicalKey e,
     es_channel = sv_channel e, es_recordedAt = sv_recordedAt e \<rparr>"

section \<open>The decision on an event (finalize.ts)\<close>

datatype FinalizationOutcome = Finalized | Corrected

record FinalizationRow =
  fz_eventId :: string
  fz_outcome :: FinalizationOutcome
  fz_decidedAt :: instant
  fz_decidedByUserId :: "uuid option"
  fz_correctionEventId :: "string option"

record SuppressionDb =
  su_firms :: "FirmRow list"
  su_events :: "SuppressionEventRow list"
  su_finalizations :: "FinalizationRow list"
  su_holds :: "HoldRow list"
  su_jobs :: JobsDb

datatype SuppressionError = Stop_event EventDbError | Stop_hold HoldDbError | Stop_job JobError | Stop_journal | Stop_fuel

definition event_step :: "EventDbError + 'a \<Rightarrow> SuppressionError + 'a" where
  "event_step r = (case r of Inl e \<Rightarrow> Inl (Stop_event e) | Inr x \<Rightarrow> Inr x)"

definition hold_step :: "HoldDbError + 'a \<Rightarrow> SuppressionError + 'a" where
  "hold_step r = (case r of Inl e \<Rightarrow> Inl (Stop_hold e) | Inr x \<Rightarrow> Inr x)"

definition job_step :: "JobError + 'a \<Rightarrow> SuppressionError + 'a" where
  "job_step r = (case r of Inl e \<Rightarrow> Inl (Stop_job e) | Inr x \<Rightarrow> Inr x)"

definition readFinalization :: "SuppressionDb \<Rightarrow> string \<Rightarrow> FinalizationRow option" where
  "readFinalization db eventId = sql_one (\<lambda>f. fz_eventId f = eventId) (su_finalizations db)"

text \<open>\<open>INSERT ... ON CONFLICT DO NOTHING\<close> and the read of who won.  The foreign key to the
  correction is checked when the transaction commits, after its event is written.\<close>
definition claimFinalization :: "instant \<Rightarrow> string \<Rightarrow> FinalizationOutcome \<Rightarrow> string option \<Rightarrow> uuid option \<Rightarrow> SuppressionDb \<Rightarrow>
    SuppressionError + (SuppressionDb \<times> bool \<times> FinalizationOutcome)" where
  "claimFinalization now eventId outcome correctionEventId decidedBy db = (case readFinalization db eventId of
     Some f \<Rightarrow> Inr (db, False, fz_outcome f)
   | None \<Rightarrow>
       if readSuppressionEvent (su_events db) eventId = None then Inl (Stop_event Event_foreign) else
       if outcome = Corrected \<and> correctionEventId = None then Inl (Stop_event Event_check) else
       Inr (db\<lparr> su_finalizations := su_finalizations db @ [\<lparr> fz_eventId = eventId, fz_outcome = outcome, fz_decidedAt = now,
              fz_decidedByUserId = decidedBy,
              fz_correctionEventId = (if outcome = Corrected then correctionEventId else None) \<rparr>] \<rparr>, True, outcome))"

definition release_review :: "instant \<Rightarrow> string \<Rightarrow> SuppressionDb \<Rightarrow> SuppressionError + (SuppressionDb \<times> ReleasedHold list)" where
  "release_review now eventId db =
     and_then (hold_step (releaseHoldsOfEvent now eventId ''manual_suppression_review'' (su_holds db))) (\<lambda>(rows, released).
       Inr (db\<lparr> su_holds := rows \<rparr>, released))"

definition MANUAL_SUPPRESSION_CORRECTION_SECONDS :: int where
  "MANUAL_SUPPRESSION_CORRECTION_SECONDS = 600"

datatype FinalizeResult = Fr_finalized | Fr_lost_to_correction | Fr_already_finalized | Fr_not_due | Fr_not_applicable
  | Fr_unknown

text \<open>\<open>asked\<close> is the input's instant, \<open>None\<close> when the database's own clock decides; one that
  does not parse is not modelled, the job handler never gives one.\<close>
definition finalizeManualSuppression :: "instant \<Rightarrow> instant option \<Rightarrow> string \<Rightarrow> SuppressionDb \<Rightarrow>
    SuppressionError + (SuppressionDb \<times> FinalizeResult)" where
  "finalizeManualSuppression now asked eventId db = (case readSuppressionEvent (su_events db) eventId of
     None \<Rightarrow> Inr (db, Fr_unknown)
   | Some event \<Rightarrow>
       if sv_source event \<noteq> ''salesperson_manual'' then Inr (db, Fr_not_applicable) else
       if (case asked of None \<Rightarrow> now | Some t \<Rightarrow> t) < sv_recordedAt event + MANUAL_SUPPRESSION_CORRECTION_SECONDS * 1000
       then Inr (db, Fr_not_due) else
       and_then (claimFinalization now eventId Finalized None None db) (\<lambda>(db1, won, outcome).
         if \<not> won then Inr (db1, if outcome = Corrected then Fr_lost_to_correction else Fr_already_finalized) else
         and_then (release_review now eventId db1) (\<lambda>(db2, _). Inr (db2, Fr_finalized))))"

text \<open>\<open>handle\<close> of the job: a payload without an event, or one that names none here, throws.\<close>
definition suppressionFinalizeHandler :: "instant \<Rightarrow> string option \<Rightarrow> SuppressionDb \<Rightarrow> (SuppressionError option) + SuppressionDb" where
  "suppressionFinalizeHandler now eventId db = (case eventId of
     None \<Rightarrow> Inl None
   | Some e \<Rightarrow> if e = [] then Inl None else
       (case finalizeManualSuppression now None e db of
          Inl err \<Rightarrow> Inl (Some err)
        | Inr (db', outcome) \<Rightarrow> if outcome = Fr_unknown then Inl None else Inr db'))"

section \<open>Recording a stop (events.ts)\<close>

datatype SuppressionRefusalCode = Su_suppression_unknown | Su_not_your_event | Su_not_salesperson_originated
  | Su_window_expired | Su_already_finalized | Su_already_superseded | Su_canonicalizer_unsupported
  | Su_handle_uncanonical | Su_firm_unknown | Su_not_assigned | Su_admin_only | Su_journal_unavailable | Su_invalid_input

datatype 'a SuppressionResult = Su_ok 'a | Su_refused SuppressionRefusalCode

definition reviewHoldBlocks :: "string \<Rightarrow> string list" where
  "reviewHoldBlocks channel =
     (if channel = ''email'' then [''email_send'']
      else if channel = ''phone'' then [''call_task'', ''dial_authorization'']
      else [''email_send'', ''call_task'', ''dial_authorization'', ''enrollment_advance''])"

record RecordSuppressionInput =
  rs_scope :: string
  rs_firmId :: "uuid option"
  rs_value :: "jstring option"
  rs_source :: string
  rs_channel :: string
  rs_commandId :: "string option"
  rs_fallbackKey :: "string option"

record RecordedSuppression =
  rd_event :: SuppressionEventRow
  rd_terminal :: bool
  rd_reviewHoldIds :: "uuid list"
  rd_correctionDeadline :: "instant option"
  rd_replayed :: bool

text \<open>What the statements of one command draw: \<open>now()\<close>, the ids of a hold and of a job, and
  whether the journal accepts.\<close>
record StopDraw =
  dw_now :: instant
  dw_hold :: uuid
  dw_job :: uuid
  dw_journalled :: bool

text \<open>A canonical handle is ASCII.\<close>
definition text_of :: "jstring \<Rightarrow> string" where
  "text_of s = map char_of s"

definition firm_refusal :: "ScopeActor \<Rightarrow> FirmRow list \<Rightarrow> uuid \<Rightarrow> SuppressionRefusalCode + FirmRow" where
  "firm_refusal actor firm_rows firmId = (case loadFirmForUpdate firm_rows firmId of
     None \<Rightarrow> Inl Su_firm_unknown
   | Some firm \<Rightarrow> (case decideFirmMutation actor firm of
       Firm_permitted \<Rightarrow> Inr firm
     | Firm_refused reason \<Rightarrow> Inl (if reason = Crm_not_assigned then Su_not_assigned else Su_firm_unknown)))"

text \<open>The key of the stop, or the refusal.\<close>
definition stop_key :: "StopEnv \<Rightarrow> ScopeActor \<Rightarrow> FirmRow list \<Rightarrow> RecordSuppressionInput \<Rightarrow> SuppressionRefusalCode + string" where
  "stop_key env actor firm_rows input =
     (if rs_scope input = ''firm'' then
        (case rs_firmId input of
           None \<Rightarrow> Inl Su_invalid_input
         | Some firmId \<Rightarrow> and_then (firm_refusal actor firm_rows firmId) (\<lambda>firm. Inr (js_lower (fi_id firm))))
      else case rs_fallbackKey input of
        Some key \<Rightarrow>
          if rs_source input \<noteq> ''deletion_tombstone'' then Inl Su_invalid_input else
          if js_trim key = [] \<or> key \<noteq> js_lower key \<or> length key > 320 then Inl Su_handle_uncanonical else Inr key
      | None \<Rightarrow>
          (case rs_value input of
             None \<Rightarrow> Inl Su_invalid_input
           | Some raw \<Rightarrow> (case canonicalizeHandle (st_text env) raw of
               Uncanonical _ \<Rightarrow> Inl Su_handle_uncanonical
             | Canonical handle \<Rightarrow>
                 (case rs_firmId input of
                    None \<Rightarrow> Inr (text_of (ch_value handle))
                  | Some firmId \<Rightarrow> and_then (firm_refusal actor firm_rows firmId) (\<lambda>_. Inr (text_of (ch_value handle)))))))"

definition sameCommandEvent :: "SuppressionEventRow list \<Rightarrow> string \<Rightarrow> string \<Rightarrow> string \<Rightarrow> string option \<Rightarrow> string \<Rightarrow>
    SuppressionEventRow option" where
  "sameCommandEvent events scope key source commandId channel = (case commandId of
     None \<Rightarrow> None
   | Some c \<Rightarrow>
       (case sort_key event_order (filter (\<lambda>e. sv_scope e = scope \<and> sv_canonicalKey e = key \<and> sv_source e = source \<and>
            sv_commandId e = Some c \<and> sv_supersedesEventId e = None \<and> sv_channel e \<in> {channel, ''all''}) events) of
          [] \<Rightarrow> None | e # _ \<Rightarrow> Some e))"

definition recorded_before :: "SuppressionEventRow \<Rightarrow> RecordedSuppression" where
  "recorded_before e = \<lparr> rd_event = e, rd_terminal = (sv_source e \<in> set TERMINAL_SOURCES), rd_reviewHoldIds = [],
     rd_correctionDeadline = None, rd_replayed = True \<rparr>"

definition actor_user :: "ScopeActor \<Rightarrow> uuid option" where
  "actor_user actor = (case actor of Actor_user u _ \<Rightarrow> Some u | Actor_system _ \<Rightarrow> None)"

definition new_stop :: "StopEnv \<Rightarrow> instant \<Rightarrow> ScopeActor \<Rightarrow> string \<Rightarrow> RecordSuppressionInput \<Rightarrow> SuppressionEventRow" where
  "new_stop env now actor key input =
     \<lparr> sv_eventId = deterministicEventId env (rs_scope input) key (rs_source input) (rs_commandId input) None (rs_channel input),
       sv_scope = rs_scope input, sv_canonicalKey = key, sv_canonicalizerVersion = CANONICALIZER_VERSION,
       sv_source = rs_source input, sv_actorUserId = actor_user actor, sv_commandId = rs_commandId input,
       sv_recordedAt = now, sv_supersedesEventId = None, sv_supersessionReason = None, sv_channel = rs_channel input \<rparr>"

definition review_hold :: "string \<Rightarrow> SuppressionEventRow \<Rightarrow> OpenHoldInput" where
  "review_hold firmId e = \<lparr> oi_scopeKind = ''firm'', oi_scopeKey = Some firmId, oi_reasonCode = ''manual_suppression_review'',
     oi_blockedActionKinds = reviewHoldBlocks (sv_channel e), oi_sourceEventKind = ''suppression.manual'',
     oi_sourceEventId = Some (sv_eventId e), oi_ownerUserId = sv_actorUserId e, oi_recoveryAction = None \<rparr>"

definition finalize_job :: "StopEnv \<Rightarrow> string \<Rightarrow> instant \<Rightarrow> JobSpecification" where
  "finalize_job env eventId deadline = \<lparr> sp_workspaceId = st_workspaceId env, sp_kind = ''suppression.finalize'',
     sp_idempotencyKey = job_key (SuppressionFinalize eventId),
     sp_payload = empty_payload\<lparr> pl_body := [(''eventId'', eventId)] \<rparr>,
     sp_runAt = Some deadline, sp_notBefore = Some deadline, sp_maxAttempts = None \<rparr>"

text \<open>The window of a stop that has one: its hold, when it names a firm, and its finalizer.\<close>
definition open_window :: "StopEnv \<Rightarrow> StopDraw \<Rightarrow> string option \<Rightarrow> SuppressionEventRow \<Rightarrow> instant \<Rightarrow> SuppressionDb \<Rightarrow>
    SuppressionError + (SuppressionDb \<times> uuid list)" where
  "open_window env dw firmId e deadline db =
     and_then (case firmId of
         None \<Rightarrow> Inr (su_holds db, [])
       | Some f \<Rightarrow> and_then (hold_step (openHold (dw_now dw) (dw_hold dw) (review_hold f e) (su_holds db))) (\<lambda>(rows, k). Inr (rows, [k])))
       (\<lambda>(rows, ids).
     and_then (job_step (enqueueJob (dw_job dw) (dw_now dw) (finalize_job env (sv_eventId e) deadline) (su_jobs db))) (\<lambda>(queue, _).
       Inr (db\<lparr> su_holds := rows, su_jobs := queue \<rparr>, ids)))"

definition correction_deadline :: "SuppressionEventRow \<Rightarrow> instant" where
  "correction_deadline e = sv_recordedAt e + MANUAL_SUPPRESSION_CORRECTION_SECONDS * 1000"

text \<open>The row and what comes with it, after the journal has it.\<close>
definition write_stop :: "StopEnv \<Rightarrow> StopDraw \<Rightarrow> string option \<Rightarrow> SuppressionEventRow \<Rightarrow> SuppressionDb \<Rightarrow>
    SuppressionError + (SuppressionDb \<times> RecordedSuppression)" where
  "write_stop env dw firmId e db =
     and_then (event_step (insert_event e (su_events db))) (\<lambda>events.
       let db1 = db\<lparr> su_events := events \<rparr> in
       if sv_source e \<in> set TERMINAL_SOURCES then
         and_then (claimFinalization (dw_now dw) (sv_eventId e) Finalized None None db1) (\<lambda>(db2, _).
           Inr (db2, \<lparr> rd_event = e, rd_terminal = True, rd_reviewHoldIds = [], rd_correctionDeadline = None, rd_replayed = False \<rparr>))
       else
         and_then (open_window env dw firmId e (correction_deadline e) db1) (\<lambda>(db2, ids).
           Inr (db2, \<lparr> rd_event = e, rd_terminal = False, rd_reviewHoldIds = ids,
              rd_correctionDeadline = Some (correction_deadline e), rd_replayed = False \<rparr>)))"

text \<open>The journal keeps what it was given whatever becomes of the transaction.\<close>
definition recordSuppression :: "StopEnv \<Rightarrow> StopDraw \<Rightarrow> ScopeActor \<Rightarrow> RecordSuppressionInput \<Rightarrow> SuppressionDb \<Rightarrow>
    SuppressionJournalRecord list \<Rightarrow>
    (SuppressionError + (SuppressionDb \<times> RecordedSuppression SuppressionResult)) \<times> SuppressionJournalRecord list" where
  "recordSuppression env dw actor input db journal =
     (if rs_source input = ''salesperson_manual'' \<and> actor_user actor = None then (Inr (db, Su_refused Su_invalid_input), journal) else
      case stop_key env actor (su_firms db) input of
        Inl refusal \<Rightarrow> (Inr (db, Su_refused refusal), journal)
      | Inr key \<Rightarrow>
          if \<not> channelFitsKey (rs_scope input) key (rs_channel input) then (Inr (db, Su_refused Su_invalid_input), journal) else
          (let e = new_stop env (dw_now dw) actor key input in
           case (case readSuppressionEvent (su_events db) (sv_eventId e) of
                   Some found \<Rightarrow> Some found
                 | None \<Rightarrow> sameCommandEvent (su_events db) (rs_scope input) key (rs_source input) (rs_commandId input) (rs_channel input)) of
             Some found \<Rightarrow> (Inr (db, Su_ok (recorded_before found)), journal)
           | None \<Rightarrow>
               if \<not> dw_journalled dw then (Inl Stop_journal, journal) else
               (and_then (write_stop env dw (rs_firmId input) e db) (\<lambda>(db', r). Inr (db', Su_ok r)),
                journal @ [(journalRecordOf env e)\<lparr> jr_firmId := Some (rs_firmId input) \<rparr>])))"

section \<open>Supersessions (events.ts)\<close>

text \<open>The copies of a stop that a merge made, in either form, and that nothing lifts yet.\<close>
definition merge_copies :: "SuppressionEventRow list \<Rightarrow> string \<Rightarrow> SuppressionEventRow list" where
  "merge_copies events original = filter (\<lambda>c. sv_scope c = ''firm'' \<and>
     (sv_eventId c = LEGACY_MERGE_COPY_PREFIX @ original \<or>
      sv_eventId c = MERGE_COPY_PREFIX @ original @ ''@'' @ sv_canonicalKey c) \<and>
     \<not> alreadySuperseded events (sv_eventId c)) events"

definition copied_lift_id :: "string \<Rightarrow> string \<Rightarrow> SuppressionEventRow \<Rightarrow> string" where
  "copied_lift_id original liftId c =
     (if sv_eventId c = LEGACY_MERGE_COPY_PREFIX @ original then LEGACY_MERGE_COPY_PREFIX @ liftId
      else mergeCopyId liftId (sv_canonicalKey c))"

definition copied_lift :: "string \<Rightarrow> SuppressionEventRow \<Rightarrow> SuppressionEventRow \<Rightarrow> SuppressionEventRow" where
  "copied_lift original lift c = c\<lparr> sv_eventId := copied_lift_id original (sv_eventId lift) c, sv_source := sv_source lift,
     sv_actorUserId := sv_actorUserId lift, sv_commandId := sv_commandId lift, sv_recordedAt := sv_recordedAt lift,
     sv_supersedesEventId := Some (sv_eventId c), sv_supersessionReason := sv_supersessionReason lift \<rparr>"

text \<open>The lift a row is copied from is \<open>INSERT ... SELECT\<close>'s join: without it, no row.\<close>
definition insert_lift :: "string \<Rightarrow> string \<Rightarrow> SuppressionEventRow \<Rightarrow> SuppressionEventRow list \<Rightarrow>
    SuppressionError + (SuppressionEventRow list \<times> SuppressionEventRow list)" where
  "insert_lift original liftId c events = (case readSuppressionEvent events liftId of
     None \<Rightarrow> Inr (events, [])
   | Some lift \<Rightarrow> and_then (event_step (insert_event (copied_lift original lift c) events)) (\<lambda>events1.
       Inr (events1, [copied_lift original lift c])))"

text \<open>The loop over the copies and its recursion into theirs.  The fuel is the depth of copies of
  copies.\<close>
fun lift_each :: "nat \<Rightarrow> string \<Rightarrow> string \<Rightarrow> SuppressionEventRow list \<Rightarrow> SuppressionEventRow list \<Rightarrow>
    SuppressionError + (SuppressionEventRow list \<times> SuppressionEventRow list)" where
  "lift_each fuel original liftId [] events = Inr (events, [])"
| "lift_each fuel original liftId (c # cs) events =
     (if fuel = 0 then Inl Stop_fuel else
      and_then (insert_lift original liftId c events) (\<lambda>(events1, inserted).
      and_then (lift_each (fuel - 1) (sv_eventId c) (copied_lift_id original liftId c) (merge_copies events1 (sv_eventId c)) events1)
        (\<lambda>(events2, below).
      and_then (lift_each fuel original liftId cs events2) (\<lambda>(events3, after).
        Inr (events3, inserted @ below @ after)))))"

definition liftMergeCopies :: "string \<Rightarrow> string \<Rightarrow> SuppressionEventRow list \<Rightarrow>
    SuppressionError + (SuppressionEventRow list \<times> SuppressionEventRow list)" where
  "liftMergeCopies original liftId events = lift_each (length events) original liftId (merge_copies events original) events"

definition supersession_row :: "StopEnv \<Rightarrow> instant \<Rightarrow> uuid \<Rightarrow> string \<Rightarrow> string \<Rightarrow> string option \<Rightarrow> SuppressionEventRow \<Rightarrow>
    SuppressionEventRow" where
  "supersession_row env now userId source reason commandId original =
     original\<lparr> sv_eventId := deterministicEventId env (sv_scope original) (sv_canonicalKey original) source commandId
         (Some (sv_eventId original)) (sv_channel original),
       sv_source := source, sv_actorUserId := Some userId, sv_commandId := commandId, sv_recordedAt := now,
       sv_supersedesEventId := Some (sv_eventId original), sv_supersessionReason := Some reason \<rparr>"

text \<open>What follows a supersession that was written: the copies' lifts and the review hold.\<close>
definition after_supersession :: "StopEnv \<Rightarrow> instant \<Rightarrow> string \<Rightarrow> SuppressionEventRow \<Rightarrow> SuppressionDb \<Rightarrow>
    SuppressionError + (SuppressionDb \<times> SuppressionJournalRecord list \<times> ReleasedHold list)" where
  "after_supersession env now originalId lift db =
     and_then (liftMergeCopies originalId (sv_eventId lift) (su_events db)) (\<lambda>(events, copied).
     and_then (release_review now originalId (db\<lparr> su_events := events \<rparr>)) (\<lambda>(db', released).
       Inr (db', journalRecordOf env lift # map (journalRecordOf env) copied, released)))"

record CorrectionOutcome =
  co_journalRecords :: "SuppressionJournalRecord list"
  co_correctionEventId :: string
  co_originalEventId :: string
  co_releasedHoldIds :: "uuid list"
  co_blockedMilliseconds :: int

text \<open>\<open>underSupersessionSavepoint\<close>: a unique violation undoes the work and is a lost race.\<close>
definition underSupersessionSavepoint :: "SuppressionError + (SuppressionDb \<times> bool) \<Rightarrow> SuppressionDb \<Rightarrow>
    SuppressionError + (SuppressionDb \<times> bool)" where
  "underSupersessionSavepoint work db = (case work of
     Inl e \<Rightarrow> if e = Stop_event Event_unique then Inr (db, False) else Inl e
   | Inr r \<Rightarrow> Inr r)"

text \<open>The claim and the row of a correction; a lost claim is \<open>False\<close> and changes nothing.\<close>
definition claim_and_write :: "instant \<Rightarrow> uuid \<Rightarrow> SuppressionEventRow \<Rightarrow> SuppressionEventRow \<Rightarrow> SuppressionDb \<Rightarrow>
    SuppressionError + (SuppressionDb \<times> bool)" where
  "claim_and_write now userId original lift db =
     and_then (claimFinalization now (sv_eventId original) Corrected (Some (sv_eventId lift)) (Some userId) db) (\<lambda>(db1, won, _).
       if \<not> won then Inr (db1, False) else
       and_then (event_step (insert_event lift (su_events db1))) (\<lambda>events. Inr (db1\<lparr> su_events := events \<rparr>, True)))"

definition lost_claim_refusal :: "SuppressionDb \<Rightarrow> string \<Rightarrow> SuppressionRefusalCode" where
  "lost_claim_refusal db eventId = (case readFinalization db eventId of
     Some f \<Rightarrow> if fz_outcome f = Finalized then Su_already_finalized else Su_already_superseded
   | None \<Rightarrow> Su_already_superseded)"

definition correction_refusal :: "CorrectionRefusal \<Rightarrow> SuppressionRefusalCode" where
  "correction_refusal r = (case r of Not_your_event \<Rightarrow> Su_not_your_event
     | Not_salesperson_originated \<Rightarrow> Su_not_salesperson_originated | Window_expired \<Rightarrow> Su_window_expired)"

definition recordCorrection :: "StopEnv \<Rightarrow> instant \<Rightarrow> ScopeActor \<Rightarrow> string \<Rightarrow> string option \<Rightarrow> SuppressionDb \<Rightarrow>
    SuppressionError + (SuppressionDb \<times> CorrectionOutcome SuppressionResult)" where
  "recordCorrection env now actor eventId commandId db = (case actor of
     Actor_system _ \<Rightarrow> Inr (db, Su_refused Su_not_your_event)
   | Actor_user userId _ \<Rightarrow> (case readSuppressionEvent (su_events db) eventId of
       None \<Rightarrow> Inr (db, Su_refused Su_suppression_unknown)
     | Some original \<Rightarrow>
         if \<not> isSupportedCanonicalizerVersion (sv_canonicalizerVersion original)
         then Inr (db, Su_refused Su_canonicalizer_unsupported) else
         (case mayCorrectSuppression (sv_source original) (sv_actorUserId original) (Some (sv_recordedAt original)) userId (Some now) of
            Inl _ \<Rightarrow> Inr (db, Su_refused Su_invalid_input)
          | Inr (Correction_refused r) \<Rightarrow> Inr (db, Su_refused (correction_refusal r))
          | Inr Correction_allowed \<Rightarrow>
              if alreadySuperseded (su_events db) eventId then Inr (db, Su_refused Su_already_superseded) else
              (let lift = supersession_row env now userId ''mistaken_entry_correction'' ''mistaken_entry'' commandId original in
               and_then (underSupersessionSavepoint (claim_and_write now userId original lift db) db) (\<lambda>(db1, written).
                 if \<not> written then Inr (db1, Su_refused (lost_claim_refusal db eventId)) else
                 and_then (after_supersession env now eventId lift db1) (\<lambda>(db2, records, released).
                   Inr (db2, Su_ok \<lparr> co_journalRecords = records, co_correctionEventId = sv_eventId lift,
                     co_originalEventId = eventId, co_releasedHoldIds = map rh_id released,
                     co_blockedMilliseconds = unionDuration (map (\<lambda>h. \<lparr> iv_start = rh_startedAt h, iv_end = rh_releasedAt h \<rparr>) released) \<rparr>)))))))"

record SupersessionOutcome =
  so_supersessionEventId :: string
  so_originalEventId :: string
  so_journalRecords :: "SuppressionJournalRecord list"

definition recordAdminSupersession :: "StopEnv \<Rightarrow> instant \<Rightarrow> ScopeActor \<Rightarrow> string \<Rightarrow> string \<Rightarrow> string option \<Rightarrow> SuppressionDb \<Rightarrow>
    SuppressionError + (SuppressionDb \<times> SupersessionOutcome SuppressionResult)" where
  "recordAdminSupersession env now actor eventId reason commandId db =
     (if \<not> isAdminScope actor then Inr (db, Su_refused Su_admin_only) else
      case actor of
        Actor_system _ \<Rightarrow> Inr (db, Su_refused Su_admin_only)
      | Actor_user userId _ \<Rightarrow> (case readSuppressionEvent (su_events db) eventId of
          None \<Rightarrow> Inr (db, Su_refused Su_suppression_unknown)
        | Some original \<Rightarrow>
            if \<not> isSupportedCanonicalizerVersion (sv_canonicalizerVersion original)
            then Inr (db, Su_refused Su_canonicalizer_unsupported) else
            if alreadySuperseded (su_events db) eventId then Inr (db, Su_refused Su_already_superseded) else
            (let lift = supersession_row env now userId ''admin_supersession'' reason commandId original in
             and_then (underSupersessionSavepoint (and_then (event_step (insert_event lift (su_events db))) (\<lambda>events.
                 Inr (db\<lparr> su_events := events \<rparr>, True))) db) (\<lambda>(db1, written).
               if \<not> written then Inr (db1, Su_refused Su_already_superseded) else
               and_then (after_supersession env now eventId lift db1) (\<lambda>(db2, records, _).
                 Inr (db2, Su_ok \<lparr> so_supersessionEventId = sv_eventId lift, so_originalEventId = eventId,
                   so_journalRecords = records \<rparr>))))))"

text \<open>\<open>routes/suppressions.ts\<close>: the releases of an accepted command, each tried three times.\<close>
definition journalCommittedLifts :: "bool list list \<Rightarrow> SuppressionJournalRecord list \<Rightarrow> SuppressionJournalRecord list \<Rightarrow>
    SuppressionJournalRecord list" where
  "journalCommittedLifts answers lifts journal =
     journal @ map (\<lambda>(lift, _). lift\<lparr> jr_committed := True \<rparr>) (filter (\<lambda>(_, answer). True \<in> set (take 3 answer)) (zip lifts answers))"

section \<open>The survivor of a merge (crm/merges.ts)\<close>

definition merge_copy :: "instant \<Rightarrow> string \<Rightarrow> string option \<Rightarrow> string option \<Rightarrow> SuppressionEventRow \<Rightarrow> SuppressionEventRow" where
  "merge_copy now target commandId supersedes original =
     original\<lparr> sv_eventId := mergeCopyId (sv_eventId original) target, sv_scope := ''firm'', sv_canonicalKey := js_lower target,
       sv_commandId := commandId, sv_recordedAt := now,
       sv_supersedesEventId := map_option (\<lambda>s. mergeCopyId s target) supersedes \<rparr>"

text \<open>What the copying carries: the ids done, the events, the journal and the releases.\<close>
record MergeCarry =
  mc_done :: "string list"
  mc_events :: "SuppressionEventRow list"
  mc_journal :: "SuppressionJournalRecord list"
  mc_releases :: "SuppressionJournalRecord list"

definition write_copy :: "StopEnv \<Rightarrow> bool \<Rightarrow> instant \<Rightarrow> string \<Rightarrow> string option \<Rightarrow> string option \<Rightarrow> string \<Rightarrow> MergeCarry \<Rightarrow>
    (SuppressionError + MergeCarry) \<times> SuppressionJournalRecord list" where
  "write_copy env journalled now target commandId supersedes eventId carry =
     (if readSuppressionEvent (mc_events carry) (mergeCopyId eventId target) \<noteq> None then (Inr carry, mc_journal carry) else
      case readSuppressionEvent (mc_events carry) eventId of
        None \<Rightarrow> (Inr carry, mc_journal carry)
      | Some original \<Rightarrow>
          (let row = merge_copy now target commandId supersedes original; object = journalRecordOf env row in
           if supersedes = None \<and> \<not> journalled then (Inl Stop_journal, mc_journal carry) else
           let journal = (if supersedes = None then mc_journal carry @ [object] else mc_journal carry) in
           (and_then (event_step (insert_event row (mc_events carry))) (\<lambda>events.
              Inr (carry\<lparr> mc_events := events, mc_journal := journal,
                mc_releases := (if supersedes = None then mc_releases carry else mc_releases carry @ [object]) \<rparr>)), journal)))"

text \<open>\<open>copy\<close>: an event after the one it supersedes.  The fuel bounds the chain of supersessions.\<close>
fun copy_event :: "nat \<Rightarrow> StopEnv \<Rightarrow> (string \<Rightarrow> bool) \<Rightarrow> instant \<Rightarrow> string \<Rightarrow> string option \<Rightarrow> (string \<times> string option) list \<Rightarrow>
    string \<Rightarrow> MergeCarry \<Rightarrow> (SuppressionError + MergeCarry) \<times> SuppressionJournalRecord list" where
  "copy_event fuel env journalled now target commandId onSource eventId carry =
     (if eventId \<in> set (mc_done carry) then (Inr carry, mc_journal carry) else
      if fuel = 0 then (Inl Stop_fuel, mc_journal carry) else
      let carry1 = carry\<lparr> mc_done := eventId # mc_done carry \<rparr>;
          accepts = journalled (mergeCopyId eventId target) in
      case map_of onSource eventId of
        Some (Some s) \<Rightarrow>
          if map_of onSource s = None then (Inr carry1, mc_journal carry1) else
          (case copy_event (fuel - 1) env journalled now target commandId onSource s carry1 of
             (Inl e, journal) \<Rightarrow> (Inl e, journal)
           | (Inr carry2, _) \<Rightarrow> write_copy env accepts now target commandId (Some s) eventId carry2)
      | _ \<Rightarrow> write_copy env accepts now target commandId None eventId carry1)"

fun copy_all :: "StopEnv \<Rightarrow> (string \<Rightarrow> bool) \<Rightarrow> instant \<Rightarrow> string \<Rightarrow> string option \<Rightarrow> (string \<times> string option) list \<Rightarrow>
    string list \<Rightarrow> MergeCarry \<Rightarrow> (SuppressionError + MergeCarry) \<times> SuppressionJournalRecord list" where
  "copy_all env journalled now target commandId onSource [] carry = (Inr carry, mc_journal carry)"
| "copy_all env journalled now target commandId onSource (eventId # rest) carry =
     (case copy_event (Suc (length onSource)) env journalled now target commandId onSource eventId carry of
        (Inl e, journal) \<Rightarrow> (Inl e, journal)
      | (Inr carry1, _) \<Rightarrow> copy_all env journalled now target commandId onSource rest carry1)"

definition preserveFirmSuppressions :: "StopEnv \<Rightarrow> (string \<Rightarrow> bool) \<Rightarrow> instant \<Rightarrow> string \<Rightarrow> string \<Rightarrow> string option \<Rightarrow> SuppressionDb \<Rightarrow>
    SuppressionJournalRecord list \<Rightarrow>
    (SuppressionError + (SuppressionDb \<times> SuppressionJournalRecord list)) \<times> SuppressionJournalRecord list" where
  "preserveFirmSuppressions env journalled now source target commandId db journal =
     (let rows = sort_key event_order (filter (\<lambda>e. sv_scope e = ''firm'' \<and> sv_canonicalKey e = source) (su_events db));
          onSource = map (\<lambda>e. (sv_eventId e, sv_supersedesEventId e)) rows in
      case copy_all env journalled now target commandId onSource (map fst onSource)
          \<lparr> mc_done = [], mc_events = su_events db, mc_journal = journal, mc_releases = [] \<rparr> of
        (Inl e, journal') \<Rightarrow> (Inl e, journal')
      | (Inr carry, journal') \<Rightarrow> (Inr (db\<lparr> su_events := mc_events carry \<rparr>, mc_releases carry), journal'))"

end
