(* ===== verification/SuppressionInvariant.thy ===== *)
theory SuppressionInvariant
  imports Suppression
begin

text \<open>
  The invariant of the suppression tables, through every command: the table of events only
  grows; an event is superseded at most once, by a row of its own key and channel; a merge's
  copy is a copy of an event that is there, of the same source; and the decision of an event,
  its correction and the terminal sources agree.
\<close>

section \<open>The table only grows\<close>

text \<open>\<open>c\<close> has the id a copy of \<open>x\<close> on its own key has, in either form.\<close>
definition copy_form :: "SuppressionEventRow \<Rightarrow> string \<Rightarrow> bool" where
  "copy_form c x \<longleftrightarrow> sv_scope c = ''firm'' \<and>
     (sv_eventId c = LEGACY_MERGE_COPY_PREFIX @ x \<or> sv_eventId c = MERGE_COPY_PREFIX @ x @ ''@'' @ sv_canonicalKey c)"

definition events_inv :: "SuppressionEventRow list \<Rightarrow> bool" where
  "events_inv events \<longleftrightarrow> (\<forall>e\<in>set events. event_row_ok e) \<and> distinct (map sv_eventId events) \<and>
     (\<forall>s\<in>set events. \<forall>x. sv_supersedesEventId s = Some x \<longrightarrow>
        (\<exists>e\<in>set events. sv_eventId e = x \<and> same_stop_key s e) \<and>
        (\<forall>s'\<in>set events. sv_supersedesEventId s' = Some x \<longrightarrow> s' = s)) \<and>
     (\<forall>c\<in>set events. \<forall>x. copy_form c x \<longrightarrow> (\<exists>e\<in>set events. sv_eventId e = x \<and> sv_source e = sv_source c \<and>
        (sv_supersedesEventId e = None) = (sv_supersedesEventId c = None)))"

lemma read_event_Some: "readSuppressionEvent events k = Some e \<Longrightarrow> e \<in> set events \<and> sv_eventId e = k"
  by (auto simp: readSuppressionEvent_def dest: sql_one_Some)

lemma read_event_None: "readSuppressionEvent events k = None \<longleftrightarrow> (\<forall>e\<in>set events. sv_eventId e \<noteq> k)"
  by (simp add: readSuppressionEvent_def sql_one_None)

lemma read_event_key: "distinct (map sv_eventId events) \<Longrightarrow> e \<in> set events \<Longrightarrow> readSuppressionEvent events (sv_eventId e) = Some e"
  by (simp add: readSuppressionEvent_def sql_one_key)

lemma superseded_iff: "alreadySuperseded events k \<longleftrightarrow> (\<exists>s\<in>set events. sv_supersedesEventId s = Some k)"
  by (auto simp: alreadySuperseded_def list_ex_iff)

lemma insert_eventD:
  assumes "insert_event e events = Inr events'"
  shows "events' = events @ [e]" "event_row_ok e" "\<forall>x\<in>set events. sv_eventId x \<noteq> sv_eventId e"
    "sv_supersedesEventId e = Some k \<Longrightarrow> (\<forall>s\<in>set events. sv_supersedesEventId s \<noteq> Some k) \<and>
       (\<exists>x\<in>set events. sv_eventId x = k \<and> same_stop_key e x)"
  using assms
  by (auto simp: insert_event_def superseded_iff read_event_None [symmetric] dest!: read_event_Some split: if_splits option.splits)

text \<open>\<open>origin\<close>: the new row, when its id is that of a copy, is a copy of a row that is there.\<close>
definition has_origin :: "SuppressionEventRow list \<Rightarrow> SuppressionEventRow \<Rightarrow> bool" where
  "has_origin events c \<longleftrightarrow> (\<forall>x. copy_form c x \<longrightarrow> (\<exists>e\<in>set events. sv_eventId e = x \<and> sv_source e = sv_source c \<and>
     (sv_supersedesEventId e = None) = (sv_supersedesEventId c = None)))"

lemma insert_event_inv:
  assumes "events_inv events" "insert_event e events = Inr events'" "has_origin events e"
  shows "events_inv events'"
proof -
  note new = insert_eventD [OF assms(2)]
  have old: "\<forall>e\<in>set events. event_row_ok e" "distinct (map sv_eventId events)"
    using assms(1) by (simp_all add: events_inv_def)
  have sup: "(\<exists>x\<in>set events. sv_eventId x = k \<and> same_stop_key s x) \<and> (\<forall>s'\<in>set events. sv_supersedesEventId s' = Some k \<longrightarrow> s' = s)"
    if "s \<in> set events" "sv_supersedesEventId s = Some k" for s k
    using assms(1) that unfolding events_inv_def by blast
  have supers: "(\<exists>x\<in>set events'. sv_eventId x = k \<and> same_stop_key s x) \<and> (\<forall>s'\<in>set events'. sv_supersedesEventId s' = Some k \<longrightarrow> s' = s)"
    if s: "s \<in> set events'" "sv_supersedesEventId s = Some k" for s k
  proof (cases "s = e")
    case True
    then have "sv_supersedesEventId e = Some k" using s by simp
    from new(4) [OF this] show ?thesis using True new(1) by auto
  next
    case False
    then have in_old: "s \<in> set events" using s new(1) by simp
    moreover have "sv_supersedesEventId e \<noteq> Some k" using new(4) [of k] in_old s(2) by blast
    ultimately show ?thesis using sup [OF in_old s(2)] new(1) by auto
  qed
  have "(\<exists>x\<in>set events'. sv_eventId x = y \<and> sv_source x = sv_source c \<and> (sv_supersedesEventId x = None) = (sv_supersedesEventId c = None))"
    if c: "c \<in> set events'" "copy_form c y" for c y
  proof (cases "c = e")
    case True
    then show ?thesis using assms(3) c new(1) unfolding has_origin_def by auto
  next
    case False
    then have "c \<in> set events" using c new(1) by simp
    then have "\<exists>x\<in>set events. sv_eventId x = y \<and> sv_source x = sv_source c \<and> (sv_supersedesEventId x = None) = (sv_supersedesEventId c = None)"
      using assms(1) c(2) unfolding events_inv_def by blast
    then show ?thesis using new(1) by auto
  qed
  moreover have "distinct (map sv_eventId events')" using old(2) new(1,3) by auto
  moreover have "\<forall>e\<in>set events'. event_row_ok e" using old(1) new(1,2) by auto
  ultimately show ?thesis using supers unfolding events_inv_def by blast
qed

text \<open>A run of inserts, each of a row that \<open>P\<close> allows in the table it finds.\<close>
inductive grows :: "(SuppressionEventRow list \<Rightarrow> SuppressionEventRow \<Rightarrow> bool) \<Rightarrow> SuppressionEventRow list \<Rightarrow>
    SuppressionEventRow list \<Rightarrow> bool" for P where
  grows_refl: "grows P events events"
| grows_step: "grows P events events1 \<Longrightarrow> P events1 e \<Longrightarrow> insert_event e events1 = Inr events2 \<Longrightarrow> grows P events events2"

lemma grows_trans: "grows P b c \<Longrightarrow> grows P a b \<Longrightarrow> grows P a c"
  by (induction rule: grows.induct) (auto intro: grows_step)

lemma grows_one: "P events e \<Longrightarrow> insert_event e events = Inr events' \<Longrightarrow> grows P events events'"
  using grows_step [OF grows_refl] .

lemma grows_mono: "grows P a b \<Longrightarrow> (\<And>t e. P t e \<Longrightarrow> Q t e) \<Longrightarrow> grows Q a b"
  by (induction rule: grows.induct) (auto intro: grows_refl grows_step)

lemma grows_prefix: "grows P a b \<Longrightarrow> \<exists>new. b = a @ new"
  by (induction rule: grows.induct) (auto dest: insert_eventD(1))

lemma grows_subset: "grows P a b \<Longrightarrow> set a \<subseteq> set b"
  by (auto dest: grows_prefix)

lemma grows_inv: "grows P a b \<Longrightarrow> (\<And>t e. P t e \<Longrightarrow> has_origin t e) \<Longrightarrow> events_inv a \<Longrightarrow> events_inv b"
  by (induction rule: grows.induct) (auto intro: insert_event_inv)

text \<open>What holds of every new row, when it is kept as the table grows.\<close>
lemma grows_rows: "grows P a b \<Longrightarrow> e \<in> set b \<Longrightarrow> e \<in> set a \<or> (\<exists>t. P t e \<and> set a \<subseteq> set t \<and> set t \<subseteq> set b)"
proof (induction arbitrary: e rule: grows.induct)
  case (grows_step a t x b)
  have b: "b = t @ [x]" using grows_step.hyps(3) by (rule insert_eventD(1))
  show ?case
  proof (cases "e = x")
    case True
    have "P t e \<and> set a \<subseteq> set t \<and> set t \<subseteq> set b"
      using True grows_step.hyps(2) grows_subset [OF grows_step.hyps(1)] b by auto
    then show ?thesis by blast
  next
    case False
    then have "e \<in> set t" using grows_step.prems b by simp
    then show ?thesis using grows_step.IH b by fastforce
  qed
qed simp

section \<open>The copies' lifts and the merge\<close>

lemma prefixes_apart [simp]:
  "LEGACY_MERGE_COPY_PREFIX @ x \<noteq> MERGE_COPY_PREFIX @ y" "MERGE_COPY_PREFIX @ y \<noteq> LEGACY_MERGE_COPY_PREFIX @ x"
  by (simp_all add: LEGACY_MERGE_COPY_PREFIX_def MERGE_COPY_PREFIX_def)

lemma copy_form_id: "copy_form c x \<Longrightarrow> isMergeCopyId (sv_eventId c)"
  by (auto simp: copy_form_def isMergeCopyId_def)

lemma stop_id_not_copy [simp]: "\<not> isMergeCopyId (deterministicEventId env scope key source c s channel)"
  by (simp add: isMergeCopyId_def deterministicEventId_def MERGE_COPY_PREFIX_def LEGACY_MERGE_COPY_PREFIX_def)

lemma not_copy_origin: "\<not> isMergeCopyId (sv_eventId e) \<Longrightarrow> has_origin t e"
  by (auto simp: has_origin_def dest: copy_form_id)

lemma event_by_id: "events_inv t \<Longrightarrow> a \<in> set t \<Longrightarrow> b \<in> set t \<Longrightarrow> sv_eventId a = sv_eventId b \<Longrightarrow> a = b"
  by (auto simp: events_inv_def distinct_map inj_on_def)

text \<open>The row of a copied lift: it supersedes a copy of the source \<open>osrc\<close>, as the lift it is copied from.\<close>
definition lift_row :: "string \<Rightarrow> string \<Rightarrow> SuppressionEventRow list \<Rightarrow> SuppressionEventRow \<Rightarrow> bool" where
  "lift_row osrc src t e \<longleftrightarrow> has_origin t e \<and> isMergeCopyId (sv_eventId e) \<and> sv_source e = src \<and>
     (\<exists>c\<in>set t. sv_supersedesEventId e = Some (sv_eventId c) \<and> sv_source c = osrc \<and> isMergeCopyId (sv_eventId c))"

lemma copied_lift_simps [simp]:
  "sv_eventId (copied_lift original lift c) = copied_lift_id original (sv_eventId lift) c"
  "sv_source (copied_lift original lift c) = sv_source lift"
  "sv_supersedesEventId (copied_lift original lift c) = Some (sv_eventId c)"
  "sv_scope (copied_lift original lift c) = sv_scope c" "sv_canonicalKey (copied_lift original lift c) = sv_canonicalKey c"
  by (simp_all add: copied_lift_def)

lemma copied_lift_row:
  assumes "events_inv t" "lift \<in> set t" "sv_supersedesEventId lift \<noteq> None" "c \<in> set t" "copy_form c original"
    and "sv_source c = osrc"
  shows "lift_row osrc (sv_source lift) t (copied_lift original lift c)"
proof -
  have key: "js_lower (sv_canonicalKey c) = sv_canonicalKey c" using assms(1,4) by (simp add: events_inv_def event_row_ok_def)
  have "x = sv_eventId lift" if "copy_form (copied_lift original lift c) x" for x
    using that by (auto simp: copy_form_def copied_lift_id_def mergeCopyId_def key split: if_splits)
  then have "has_origin t (copied_lift original lift c)" using assms(2,3) by (auto simp: has_origin_def)
  moreover have "isMergeCopyId (copied_lift_id original (sv_eventId lift) c)"
    by (simp add: copied_lift_id_def isMergeCopyId_def mergeCopyId_def)
  ultimately show ?thesis using assms(4,5,6) by (auto simp: lift_row_def dest: copy_form_id)
qed

lemma lift_each_grows:
  "lift_each fuel original liftId cs t = Inr (t', rows) \<Longrightarrow> events_inv t \<Longrightarrow>
   lift \<in> set t \<Longrightarrow> sv_eventId lift = liftId \<Longrightarrow> sv_supersedesEventId lift \<noteq> None \<Longrightarrow> sv_source lift = src \<Longrightarrow>
   (\<forall>c\<in>set cs. c \<in> set t \<and> copy_form c original \<and> sv_source c = osrc) \<Longrightarrow>
   grows (lift_row osrc src) t t' \<and> t' = t @ rows"
proof (induction fuel original liftId cs t arbitrary: lift t' rows rule: lift_each.induct)
  case (2 fuel original liftId c cs t)
  have fuel: "fuel \<noteq> 0" using "2.prems"(1) by (cases "fuel = 0") simp_all
  have lift: "readSuppressionEvent t liftId = Some lift"
    using read_event_key [of t lift] "2.prems"(2,3,4) by (simp add: events_inv_def)
  obtain t1 t2 below after where ins: "insert_event (copied_lift original lift c) t = Inr t1"
    and rec: "lift_each (fuel - 1) (sv_eventId c) (copied_lift_id original liftId c) (merge_copies t1 (sv_eventId c)) t1 = Inr (t2, below)"
    and rest: "lift_each fuel original liftId cs t2 = Inr (t', after)"
    and rows: "rows = [copied_lift original lift c] @ below @ after"
    using "2.prems"(1) fuel lift by (auto simp: insert_lift_def event_step_def split: sum.splits elim!: and_thenE)
  have row: "lift_row osrc src t (copied_lift original lift c)"
    using copied_lift_row [OF "2.prems"(2,3,5)] "2.prems"(6,7) by auto
  have t1: "t1 = t @ [copied_lift original lift c]" using ins by (rule insert_eventD(1))
  have inv1: "events_inv t1" using insert_event_inv [OF "2.prems"(2) ins] row by (simp add: lift_row_def)
  have same: "sv_source c = osrc" "c \<in> set t" using "2.prems"(7) by simp_all
  have "x \<in> set t1 \<and> copy_form x (sv_eventId c) \<and> sv_source x = osrc" if "x \<in> set (merge_copies t1 (sv_eventId c))" for x
  proof -
    have x: "x \<in> set t1" "copy_form x (sv_eventId c)" using that by (auto simp: merge_copies_def copy_form_def)
    then obtain o' where "o' \<in> set t1" "sv_eventId o' = sv_eventId c" "sv_source o' = sv_source x"
      using inv1 unfolding events_inv_def by blast
    moreover have "c \<in> set t1" using same t1 by simp
    ultimately show ?thesis using event_by_id [OF inv1, of o' c] x same by simp
  qed
  then have below: "grows (lift_row osrc src) t1 t2 \<and> t2 = t1 @ below"
    using "2.IH"(1) [OF fuel rec inv1, of "copied_lift original lift c"]
      "2.prems"(4,6) t1 by auto
  have inv2: "events_inv t2" using grows_inv [OF conjunct1 [OF below] _ inv1] by (auto simp: lift_row_def)
  have "grows (lift_row osrc src) t2 t' \<and> t' = t2 @ after"
    using "2.IH"(2) [OF fuel rest inv2, of lift]
      "2.prems"(3,4,5,6,7) below t1 by auto
  moreover have "grows (lift_row osrc src) t t1" by (rule grows_one) (rule row, rule ins)
  ultimately have "grows (lift_row osrc src) t t'" using below grows_trans by blast
  moreover have "t' = t @ rows" using \<open>grows (lift_row osrc src) t2 t' \<and> t' = t2 @ after\<close> below t1 rows by simp
  ultimately show ?case by blast
qed (auto intro: grows_refl)

text \<open>The row of a merge's copy.\<close>
definition merge_row :: "SuppressionEventRow list \<Rightarrow> SuppressionEventRow \<Rightarrow> bool" where
  "merge_row t e \<longleftrightarrow> has_origin t e \<and> isMergeCopyId (sv_eventId e) \<and>
     (\<forall>k. sv_supersedesEventId e = Some k \<longrightarrow> isMergeCopyId k)"

lemma merge_copy_row:
  assumes "original \<in> set t" "supersedes = sv_supersedesEventId original"
  shows "merge_row t (merge_copy now target cmd supersedes original)"
proof -
  have "x = sv_eventId original" if "copy_form (merge_copy now target cmd supersedes original) x" for x
    using that by (auto simp: copy_form_def merge_copy_def mergeCopyId_def)
  then have "has_origin t (merge_copy now target cmd supersedes original)"
    using assms by (auto simp: has_origin_def merge_copy_def)
  then show ?thesis by (auto simp: merge_row_def merge_copy_def isMergeCopyId_def mergeCopyId_def)
qed

text \<open>What the map of the source's rows says of an event that is there.\<close>
definition reads_source :: "(string \<times> string option) list \<Rightarrow> SuppressionEventRow list \<Rightarrow> bool" where
  "reads_source onSource t \<longleftrightarrow> (\<forall>e\<in>set t. \<forall>s. map_of onSource (sv_eventId e) = Some s \<longrightarrow> s = sv_supersedesEventId e)"

lemma write_copy_grows:
  assumes "write_copy env ok now target cmd supersedes k carry = (Inr carry', j)" "reads_source onSource (mc_events carry)"
    and "map_of onSource k = Some supersedes"
  shows "grows merge_row (mc_events carry) (mc_events carry')"
proof (cases "readSuppressionEvent (mc_events carry) (mergeCopyId k target) = None")
  case False
  then show ?thesis using assms(1) by (simp add: write_copy_def grows_refl)
next
  case fresh: True
  show ?thesis
  proof (cases "readSuppressionEvent (mc_events carry) k")
    case None
    then show ?thesis using assms(1) fresh by (simp add: write_copy_def grows_refl)
  next
    case (Some original)
    obtain t where ins: "insert_event (merge_copy now target cmd supersedes original) (mc_events carry) = Inr t"
      and t: "mc_events carry' = t"
      using assms(1) fresh Some
      by (auto simp: write_copy_def Let_def event_step_def and_then_Inr_iff simp del: not_None_eq split: if_split_asm sum.split_asm)
    have original: "original \<in> set (mc_events carry)" "sv_eventId original = k" using read_event_Some [OF Some] by simp_all
    then have "supersedes = sv_supersedesEventId original" using assms(2,3) unfolding reads_source_def by blast
    then have "merge_row (mc_events carry) (merge_copy now target cmd supersedes original)" by (rule merge_copy_row [OF original(1)])
    then have "grows merge_row (mc_events carry) t" using ins by (rule grows_one)
    then show ?thesis by (simp only: t)
  qed
qed

lemma grows_ids: "grows P a b \<Longrightarrow> reads_source onSource a \<Longrightarrow> (\<And>k. map_of onSource k \<noteq> None \<Longrightarrow> k \<in> sv_eventId ` set a) \<Longrightarrow>
   reads_source onSource b"
proof (induction rule: grows.induct)
  case (grows_step a t e b)
  have "map_of onSource (sv_eventId e) = None"
  proof (rule ccontr)
    assume "map_of onSource (sv_eventId e) \<noteq> None"
    then have "sv_eventId e \<in> sv_eventId ` set a" by (rule grows_step.prems(2))
    then show False using insert_eventD(3) [OF grows_step.hyps(3)] grows_subset [OF grows_step.hyps(1)] by force
  qed
  moreover have "reads_source onSource t" using grows_step.IH grows_step.prems by blast
  ultimately show ?case by (simp add: reads_source_def insert_eventD(1) [OF grows_step.hyps(3)])
qed

definition source_map :: "(string \<times> string option) list \<Rightarrow> SuppressionEventRow list \<Rightarrow> bool" where
  "source_map onSource t \<longleftrightarrow> reads_source onSource t \<and> fst ` set onSource \<subseteq> sv_eventId ` set t"

lemma grows_source: "grows P a b \<Longrightarrow> source_map onSource a \<Longrightarrow> source_map onSource b"
proof -
  assume g: "grows P a b" and m: "source_map onSource a"
  have "k \<in> sv_eventId ` set a" if "map_of onSource k \<noteq> None" for k
    using that m map_of_eq_None_iff [of onSource k] by (auto simp: source_map_def)
  then have "reads_source onSource b" using grows_ids [OF g] m by (simp add: source_map_def)
  moreover have "sv_eventId ` set a \<subseteq> sv_eventId ` set b" using grows_subset [OF g] by (rule image_mono)
  moreover have "fst ` set onSource \<subseteq> sv_eventId ` set a" using m by (simp add: source_map_def)
  ultimately show ?thesis unfolding source_map_def by blast
qed

lemma copy_event_grows:
  "copy_event fuel env ok now target cmd onSource k carry = (Inr carry', j) \<Longrightarrow> source_map onSource (mc_events carry) \<Longrightarrow>
   map_of onSource k \<noteq> None \<Longrightarrow> grows merge_row (mc_events carry) (mc_events carry')"
proof (induction fuel env ok now target cmd onSource k carry arbitrary: carry' j rule: copy_event.induct)
  case (1 fuel env ok now target cmd onSource k carry)
  let ?carry1 = "carry\<lparr> mc_done := k # mc_done carry \<rparr>"
  show ?case
  proof (cases "k \<in> set (mc_done carry)")
    case True
    then show ?thesis using "1.prems"(1) by (auto intro: grows_refl)
  next
    case False
    have fuel: "fuel \<noteq> 0" using "1.prems"(1) False by (cases "fuel = 0") simp_all
    obtain s where s: "map_of onSource k = Some s" using "1.prems"(3) by blast
    show ?thesis
    proof (cases s)
      case None
      then have "write_copy env (ok (mergeCopyId k target)) now target cmd None k ?carry1 = (Inr carry', j)"
        using "1.prems"(1) False fuel s by (simp add: Let_def)
      from write_copy_grows [OF this, of onSource] show ?thesis using "1.prems"(2) s None by (simp add: source_map_def)
    next
      case (Some x)
      show ?thesis
      proof (cases "map_of onSource x")
        case None
        then show ?thesis using "1.prems"(1) False fuel s Some by (auto simp: Let_def intro: grows_refl)
      next
        case known: (Some y)
        obtain carry2 j2 where first: "copy_event (fuel - 1) env ok now target cmd onSource x ?carry1 = (Inr carry2, j2)"
          and second: "write_copy env (ok (mergeCopyId k target)) now target cmd (Some x) k carry2 = (Inr carry', j)"
          using "1.prems"(1) False fuel s Some known by (auto simp: Let_def split: prod.splits sum.splits)
        have g1: "grows merge_row (mc_events carry) (mc_events carry2)"
          using "1.IH" [OF False fuel refl refl s Some _ first] "1.prems"(2) known by simp
        have "source_map onSource (mc_events carry2)" using grows_source [OF g1 "1.prems"(2)] .
        then have "grows merge_row (mc_events carry2) (mc_events carry')"
          using write_copy_grows [OF second, of onSource] s Some by (simp add: source_map_def)
        then show ?thesis using g1 by (rule grows_trans)
      qed
    qed
  qed
qed

lemma copy_all_grows:
  "copy_all env ok now target cmd onSource ks carry = (Inr carry', j) \<Longrightarrow> source_map onSource (mc_events carry) \<Longrightarrow>
   set ks \<subseteq> fst ` set onSource \<Longrightarrow> grows merge_row (mc_events carry) (mc_events carry')"
proof (induction ks arbitrary: carry)
  case (Cons k ks)
  obtain carry1 j1 where first: "copy_event (Suc (length onSource)) env ok now target cmd onSource k carry = (Inr carry1, j1)"
    and rest: "copy_all env ok now target cmd onSource ks carry1 = (Inr carry', j)"
    using Cons.prems(1) by (auto simp del: copy_event.simps split: prod.splits sum.splits)
  have "map_of onSource k \<noteq> None" using Cons.prems(3) by (simp add: map_of_eq_None_iff)
  from copy_event_grows [OF first Cons.prems(2) this] have g: "grows merge_row (mc_events carry) (mc_events carry1)" .
  then have "grows merge_row (mc_events carry1) (mc_events carry')"
    using Cons.IH [OF rest] grows_source [OF g Cons.prems(2)] Cons.prems(3) by simp
  then show ?case using g by (rule grows_trans)
qed (auto intro: grows_refl)

lemma preserve_grows:
  assumes "preserveFirmSuppressions env ok now source target cmd db journal = (Inr (db', rel), j)" "events_inv (su_events db)"
  shows "grows merge_row (su_events db) (su_events db')"
    and "su_finalizations db' = su_finalizations db" "su_holds db' = su_holds db" "su_firms db' = su_firms db"
proof -
  let ?rows = "sort_key event_order (filter (\<lambda>e. sv_scope e = ''firm'' \<and> sv_canonicalKey e = source) (su_events db))"
  let ?map = "map (\<lambda>e. (sv_eventId e, sv_supersedesEventId e)) ?rows"
  obtain carry where run: "copy_all env ok now target cmd ?map (map fst ?map)
      \<lparr> mc_done = [], mc_events = su_events db, mc_journal = journal, mc_releases = [] \<rparr> = (Inr carry, j)"
    and db': "db' = db\<lparr> su_events := mc_events carry \<rparr>"
    using assms(1) by (auto simp: preserveFirmSuppressions_def Let_def split: prod.splits sum.splits)
  have "s = sv_supersedesEventId e" if here: "e \<in> set (su_events db)" "map_of ?map (sv_eventId e) = Some s" for e s
  proof -
    obtain e' where "e' \<in> set (su_events db)" "sv_eventId e' = sv_eventId e" "s = sv_supersedesEventId e'"
      using map_of_SomeD [OF here(2)] by auto
    then show ?thesis using event_by_id [OF assms(2), of e' e] here(1) by simp
  qed
  then have "source_map ?map (su_events db)" by (auto simp: source_map_def reads_source_def)
  then show "grows merge_row (su_events db) (su_events db')" using copy_all_grows [OF run] by (simp add: db' image_image)
  show "su_finalizations db' = su_finalizations db" "su_holds db' = su_holds db" "su_firms db' = su_firms db" by (simp_all add: db')
qed

section \<open>Decisions\<close>

text \<open>A correction that a person made, not one a merge or a lift copied.\<close>
definition own_correction :: "SuppressionEventRow \<Rightarrow> bool" where
  "own_correction s \<longleftrightarrow> sv_source s = ''mistaken_entry_correction'' \<and> \<not> isMergeCopyId (sv_eventId s)"

text \<open>The correction \<open>s\<close> takes back \<open>e\<close>, by its own author, inside the window.\<close>
definition takes_back :: "SuppressionEventRow \<Rightarrow> SuppressionEventRow \<Rightarrow> bool" where
  "takes_back s e \<longleftrightarrow> sv_supersedesEventId s = Some (sv_eventId e) \<and> sv_source e = ''salesperson_manual'' \<and>
     sv_actorUserId e \<noteq> None \<and> sv_actorUserId s = sv_actorUserId e \<and> sv_recordedAt s < correction_deadline e"

definition decision_ok :: "SuppressionEventRow list \<Rightarrow> FinalizationRow \<Rightarrow> bool" where
  "decision_ok events f \<longleftrightarrow> (\<exists>e\<in>set events. sv_eventId e = fz_eventId f \<and>
     (fz_outcome f = Corrected \<longrightarrow> (\<exists>s\<in>set events. fz_correctionEventId f = Some (sv_eventId s) \<and>
        own_correction s \<and> takes_back s e)))"

definition correction_decided :: "SuppressionEventRow list \<Rightarrow> FinalizationRow list \<Rightarrow> SuppressionEventRow \<Rightarrow> bool" where
  "correction_decided events fins s \<longleftrightarrow> (\<exists>e\<in>set events. takes_back s e \<and> (\<exists>f\<in>set fins. fz_eventId f = sv_eventId e \<and>
     fz_outcome f = Corrected \<and> fz_correctionEventId f = Some (sv_eventId s)))"

definition own_terminal :: "SuppressionEventRow \<Rightarrow> bool" where
  "own_terminal e \<longleftrightarrow> sv_supersedesEventId e = None \<and> sv_source e \<in> set TERMINAL_SOURCES \<and> \<not> isMergeCopyId (sv_eventId e)"

definition suppression_inv :: "SuppressionDb \<Rightarrow> bool" where
  "suppression_inv db \<longleftrightarrow> events_inv (su_events db) \<and> distinct (map fz_eventId (su_finalizations db)) \<and>
     (\<forall>f\<in>set (su_finalizations db). decision_ok (su_events db) f) \<and>
     (\<forall>s\<in>set (su_events db). own_correction s \<longrightarrow> correction_decided (su_events db) (su_finalizations db) s) \<and>
     (\<forall>e\<in>set (su_events db). own_terminal e \<longrightarrow>
        (\<exists>f\<in>set (su_finalizations db). fz_eventId f = sv_eventId e \<and> fz_outcome f = Finalized))"

lemma decision_mono: "decision_ok a f \<Longrightarrow> set a \<subseteq> set b \<Longrightarrow> decision_ok b f"
  unfolding decision_ok_def by (meson subset_iff)

lemma correction_mono: "correction_decided a fins s \<Longrightarrow> set a \<subseteq> set b \<Longrightarrow> set fins \<subseteq> set fins' \<Longrightarrow> correction_decided b fins' s"
  unfolding correction_decided_def by (meson subset_iff)

lemma inv_parts:
  assumes "suppression_inv db"
  shows "events_inv (su_events db)" "distinct (map fz_eventId (su_finalizations db))"
    "f \<in> set (su_finalizations db) \<Longrightarrow> decision_ok (su_events db) f"
    "s \<in> set (su_events db) \<Longrightarrow> own_correction s \<Longrightarrow> correction_decided (su_events db) (su_finalizations db) s"
    "e \<in> set (su_events db) \<Longrightarrow> own_terminal e \<Longrightarrow> \<exists>f\<in>set (su_finalizations db). fz_eventId f = sv_eventId e \<and> fz_outcome f = Finalized"
  using assms by (simp_all add: suppression_inv_def)

text \<open>Copies and their lifts concern no decision.\<close>
lemma copies_inv:
  assumes "suppression_inv db" "grows P (su_events db) (su_events db')" "su_finalizations db' = su_finalizations db"
    and P: "\<And>t e. P t e \<Longrightarrow> has_origin t e \<and> isMergeCopyId (sv_eventId e)"
  shows "suppression_inv db'"
proof -
  have sub: "set (su_events db) \<subseteq> set (su_events db')" using assms(2) by (rule grows_subset)
  have new: "e \<in> set (su_events db) \<or> isMergeCopyId (sv_eventId e)" if "e \<in> set (su_events db')" for e
    using grows_rows [OF assms(2) that] P by blast
  have "events_inv (su_events db')" using grows_inv [OF assms(2)] P inv_parts(1) [OF assms(1)] by blast
  moreover have "decision_ok (su_events db') f" if "f \<in> set (su_finalizations db')" for f
    using decision_mono [OF inv_parts(3) [OF assms(1)] sub] that assms(3) by simp
  moreover have "correction_decided (su_events db') (su_finalizations db') s" if "s \<in> set (su_events db')" "own_correction s" for s
    using correction_mono [OF inv_parts(4) [OF assms(1)] sub] new [OF that(1)] that(2) assms(3) by (simp add: own_correction_def)
  moreover have "\<exists>f\<in>set (su_finalizations db'). fz_eventId f = sv_eventId e \<and> fz_outcome f = Finalized"
    if "e \<in> set (su_events db')" "own_terminal e" for e
    using inv_parts(5) [OF assms(1), of e] new [OF that(1)] that(2) assms(3) by (simp add: own_terminal_def)
  ultimately show ?thesis using inv_parts(2) [OF assms(1)] assms(3) by (simp add: suppression_inv_def)
qed

lemma unchanged_inv: "suppression_inv db \<Longrightarrow> su_events db' = su_events db \<Longrightarrow> su_finalizations db' = su_finalizations db \<Longrightarrow> suppression_inv db'"
  by (simp add: suppression_inv_def)

lemma release_review_keeps: "release_review now k db = Inr (db', rel) \<Longrightarrow>
   su_events db' = su_events db \<and> su_finalizations db' = su_finalizations db \<and> su_firms db' = su_firms db \<and> su_jobs db' = su_jobs db"
  by (auto simp: release_review_def hold_step_def split: sum.splits elim!: and_thenE)

lemma claimD:
  assumes "claimFinalization now k outcome c u db = Inr (db', won, o')"
  shows "su_events db' = su_events db" "su_holds db' = su_holds db" "su_firms db' = su_firms db" "su_jobs db' = su_jobs db"
    "won \<Longrightarrow> o' = outcome \<and> readFinalization db k = None \<and> (\<exists>e\<in>set (su_events db). sv_eventId e = k) \<and>
       (\<exists>f. su_finalizations db' = su_finalizations db @ [f] \<and> fz_eventId f = k \<and> fz_outcome f = outcome \<and>
          fz_correctionEventId f = (if outcome = Corrected then c else None))"
    "\<not> won \<Longrightarrow> db' = db \<and> (\<exists>f\<in>set (su_finalizations db). fz_eventId f = k \<and> fz_outcome f = o')"
  using assms
  by (auto simp: claimFinalization_def readFinalization_def dest!: sql_one_Some read_event_Some split: option.splits if_splits)

lemma no_decision: "readFinalization db k = None \<longleftrightarrow> (\<forall>f\<in>set (su_finalizations db). fz_eventId f \<noteq> k)"
  by (simp add: readFinalization_def sql_one_None)

text \<open>The supersession itself: one row of its own id.\<close>
lemma supersession_simps [simp]:
  "sv_source (supersession_row env now u src reason c original) = src"
  "sv_supersedesEventId (supersession_row env now u src reason c original) = Some (sv_eventId original)"
  "sv_actorUserId (supersession_row env now u src reason c original) = Some u"
  "sv_recordedAt (supersession_row env now u src reason c original) = now"
  "\<not> isMergeCopyId (sv_eventId (supersession_row env now u src reason c original))"
  by (simp_all add: supersession_row_def)

lemma own_row_inv:
  assumes "suppression_inv db" "insert_event e (su_events db) = Inr events" "\<not> isMergeCopyId (sv_eventId e)"
    and "distinct (map fz_eventId fins)" "set (su_finalizations db) \<subseteq> set fins"
    and "\<And>f. f \<in> set fins \<Longrightarrow> f \<in> set (su_finalizations db) \<or> decision_ok events f"
    and "own_correction e \<Longrightarrow> correction_decided events fins e"
    and "own_terminal e \<Longrightarrow> \<exists>f\<in>set fins. fz_eventId f = sv_eventId e \<and> fz_outcome f = Finalized"
  shows "suppression_inv (db\<lparr> su_events := events, su_finalizations := fins \<rparr>)"
proof -
  have events: "events = su_events db @ [e]" using assms(2) by (rule insert_eventD(1))
  have sub: "set (su_events db) \<subseteq> set events" by (simp add: events subset_insertI)
  have "events_inv events" by (rule insert_event_inv [OF inv_parts(1) [OF assms(1)] assms(2) not_copy_origin [OF assms(3)]])
  moreover have "decision_ok events f" if "f \<in> set fins" for f
    using assms(6) [OF that] decision_mono [OF inv_parts(3) [OF assms(1)] sub] by blast
  moreover have "correction_decided events fins s" if "s \<in> set events" "own_correction s" for s
  proof (cases "s = e")
    case False
    then have "s \<in> set (su_events db)" using that(1) events by simp
    then show ?thesis using correction_mono [OF inv_parts(4) [OF assms(1)] sub assms(5)] that(2) by blast
  qed (use assms(7) that in simp)
  moreover have "\<exists>f\<in>set fins. fz_eventId f = sv_eventId x \<and> fz_outcome f = Finalized" if "x \<in> set events" "own_terminal x" for x
  proof (cases "x = e")
    case False
    then have "x \<in> set (su_events db)" using that(1) events by simp
    then show ?thesis using inv_parts(5) [OF assms(1)] that(2) assms(5) by blast
  qed (use assms(8) that in simp)
  ultimately show ?thesis using assms(4) by (simp add: suppression_inv_def)
qed

lemma after_supersessionD:
  assumes "after_supersession env now (sv_eventId original) lift db = Inr (db', records, released)"
    and "events_inv (su_events db)" "lift \<in> set (su_events db)" "sv_supersedesEventId lift \<noteq> None"
    and "original \<in> set (su_events db)"
  obtains copied where "grows (lift_row (sv_source original) (sv_source lift)) (su_events db) (su_events db')"
    "su_events db' = su_events db @ copied" "su_finalizations db' = su_finalizations db" "su_firms db' = su_firms db"
    "records = journalRecordOf env lift # map (journalRecordOf env) copied"
    "release_review now (sv_eventId original) (db\<lparr> su_events := su_events db' \<rparr>) = Inr (db', released)"
proof -
  obtain events copied where lifted: "liftMergeCopies (sv_eventId original) (sv_eventId lift) (su_events db) = Inr (events, copied)"
    and rel: "release_review now (sv_eventId original) (db\<lparr> su_events := events \<rparr>) = Inr (db', released)"
    and records: "records = journalRecordOf env lift # map (journalRecordOf env) copied"
    using assms(1) by (auto simp: after_supersession_def elim!: and_thenE)
  have "c \<in> set (su_events db) \<and> copy_form c (sv_eventId original) \<and> sv_source c = sv_source original"
    if "c \<in> set (merge_copies (su_events db) (sv_eventId original))" for c
  proof -
    have c: "c \<in> set (su_events db)" "copy_form c (sv_eventId original)" using that by (auto simp: merge_copies_def copy_form_def)
    then obtain x where "x \<in> set (su_events db)" "sv_eventId x = sv_eventId original" "sv_source x = sv_source c"
      using assms(2) unfolding events_inv_def by blast
    then show ?thesis using c event_by_id [OF assms(2), of x original] assms(5) by simp
  qed
  then have "grows (lift_row (sv_source original) (sv_source lift)) (su_events db) events \<and> events = su_events db @ copied"
    using lift_each_grows [OF lifted [unfolded liftMergeCopies_def] assms(2,3) refl assms(4) refl] by blast
  then have g: "grows (lift_row (sv_source original) (sv_source lift)) (su_events db) events" "events = su_events db @ copied" by blast+
  have same: "su_events db' = events" "su_finalizations db' = su_finalizations db" "su_firms db' = su_firms db"
    using release_review_keeps [OF rel] by simp_all
  show ?thesis
    by (rule that [of copied]) (use g same records rel in \<open>simp_all only: simp_thms\<close>)
qed

section \<open>The commands\<close>

lemma new_stop_simps [simp]:
  "sv_supersedesEventId (new_stop env now actor key input) = None" "sv_source (new_stop env now actor key input) = rs_source input"
  "sv_scope (new_stop env now actor key input) = rs_scope input" "sv_canonicalKey (new_stop env now actor key input) = key"
  "sv_channel (new_stop env now actor key input) = rs_channel input" "sv_recordedAt (new_stop env now actor key input) = now"
  "\<not> isMergeCopyId (sv_eventId (new_stop env now actor key input))"
  by (simp_all add: new_stop_def)

lemma open_window_keeps: "open_window env dw f e deadline db = Inr (db', ids) \<Longrightarrow>
   su_events db' = su_events db \<and> su_finalizations db' = su_finalizations db \<and> su_firms db' = su_firms db"
  by (auto simp: open_window_def job_step_def split: sum.splits elim!: and_thenE)

lemma write_stopD:
  assumes "write_stop env dw firm e db = Inr (db', r)"
  shows "insert_event e (su_events db) = Inr (su_events db')" "rd_event r = e" "\<not> rd_replayed r"
    "if sv_source e \<in> set TERMINAL_SOURCES
       then \<exists>won o'. claimFinalization (dw_now dw) (sv_eventId e) Finalized None None (db\<lparr> su_events := su_events db' \<rparr>) = Inr (db', won, o')
       else su_finalizations db' = su_finalizations db"
proof -
  obtain events where ins: "insert_event e (su_events db) = Inr events"
    and next': "(if sv_source e \<in> set TERMINAL_SOURCES then
         and_then (claimFinalization (dw_now dw) (sv_eventId e) Finalized None None (db\<lparr> su_events := events \<rparr>)) (\<lambda>(db2, _).
           Inr (db2, \<lparr> rd_event = e, rd_terminal = True, rd_reviewHoldIds = [], rd_correctionDeadline = None, rd_replayed = False \<rparr>))
       else
         and_then (open_window env dw firm e (correction_deadline e) (db\<lparr> su_events := events \<rparr>)) (\<lambda>(db2, ids).
           Inr (db2, \<lparr> rd_event = e, rd_terminal = False, rd_reviewHoldIds = ids,
              rd_correctionDeadline = Some (correction_deadline e), rd_replayed = False \<rparr>))) = Inr (db', r)"
    using assms by (auto simp: write_stop_def event_step_def Let_def split: sum.splits elim!: and_thenE)
  have *: "su_events db' = events \<and> rd_event r = e \<and> \<not> rd_replayed r \<and> (if sv_source e \<in> set TERMINAL_SOURCES
       then \<exists>won o'. claimFinalization (dw_now dw) (sv_eventId e) Finalized None None (db\<lparr> su_events := events \<rparr>) = Inr (db', won, o')
       else su_finalizations db' = su_finalizations db)"
  proof (cases "sv_source e \<in> set TERMINAL_SOURCES")
    case True
    then show ?thesis using next' by (auto dest: claimD(1) elim!: and_thenE)
  next
    case False
    then show ?thesis using next' by (auto dest: open_window_keeps elim!: and_thenE)
  qed
  then show "insert_event e (su_events db) = Inr (su_events db')" "rd_event r = e" "\<not> rd_replayed r" using ins by simp_all
  from * show "if sv_source e \<in> set TERMINAL_SOURCES
       then \<exists>won o'. claimFinalization (dw_now dw) (sv_eventId e) Finalized None None (db\<lparr> su_events := su_events db' \<rparr>) = Inr (db', won, o')
       else su_finalizations db' = su_finalizations db" by simp
qed

lemma write_stop_inv:
  assumes "suppression_inv db" "write_stop env dw firm e db = Inr (db', r)" "\<not> isMergeCopyId (sv_eventId e)"
    and "sv_supersedesEventId e = None" "sv_source e \<noteq> ''mistaken_entry_correction''"
  shows "suppression_inv db'"
proof -
  note w = write_stopD [OF assms(2)]
  have not_correction: "\<not> own_correction e" using assms(5) by (simp add: own_correction_def)
  have events: "su_events db' = su_events db @ [e]" using w(1) by (rule insert_eventD(1))
  show ?thesis
  proof (cases "sv_source e \<in> set TERMINAL_SOURCES")
    case False
    then have fins: "su_finalizations db' = su_finalizations db" using w(4) by simp
    have "suppression_inv (db\<lparr> su_events := su_events db', su_finalizations := su_finalizations db \<rparr>)"
      by (rule own_row_inv [OF assms(1) w(1) assms(3)]) (use inv_parts(2) [OF assms(1)] not_correction False in \<open>simp_all add: own_terminal_def\<close>)
    then show ?thesis by (rule unchanged_inv) (simp_all add: fins)
  next
    case True
    obtain won o' where claim: "claimFinalization (dw_now dw) (sv_eventId e) Finalized None None (db\<lparr> su_events := su_events db' \<rparr>) = Inr (db', won, o')"
      using w(4) True by auto
    have undecided: "fz_eventId f \<noteq> sv_eventId e" if "f \<in> set (su_finalizations db)" for f
      using inv_parts(3) [OF assms(1) that] insert_eventD(3) [OF w(1)] unfolding decision_ok_def by auto
    have "won" using claimD(6) [OF claim] undecided by (cases won) auto
    from claimD(5) [OF claim this] obtain f where f: "su_finalizations db' = su_finalizations db @ [f]" "fz_eventId f = sv_eventId e"
      "fz_outcome f = Finalized" by auto
    have "suppression_inv (db\<lparr> su_events := su_events db', su_finalizations := su_finalizations db' \<rparr>)"
    proof (rule own_row_inv [OF assms(1) w(1) assms(3)])
      have "fz_eventId f \<noteq> fz_eventId g" if "g \<in> set (su_finalizations db)" for g using undecided [OF that] f(2) by simp
      then show "distinct (map fz_eventId (su_finalizations db'))" using inv_parts(2) [OF assms(1)] f(1) by (auto simp: image_iff)
      show "g \<in> set (su_finalizations db) \<or> decision_ok (su_events db') g" if "g \<in> set (su_finalizations db')" for g
        using that f events by (auto simp: decision_ok_def)
    qed (use f not_correction in auto)
    then show ?thesis by (rule unchanged_inv) simp_all
  qed
qed

lemma recordD:
  assumes "recordSuppression env dw actor input db journal = (Inr (db', r), j)"
  obtains "db' = db" "j = journal"
  | key out where "stop_key env actor (su_firms db) input = Inr key" "r = Su_ok out"
      "write_stop env dw (rs_firmId input) (new_stop env (dw_now dw) actor key input) db = Inr (db', out)"
      "j = journal @ [(journalRecordOf env (new_stop env (dw_now dw) actor key input))\<lparr> jr_firmId := Some (rs_firmId input) \<rparr>]"
  using assms
  by (auto simp: recordSuppression_def Let_def split: if_split_asm sum.split_asm option.split_asm elim!: and_thenE)

text \<open>A correction that is accepted: its claim, its row, and what follows.\<close>
lemma correctionD:
  assumes "recordCorrection env now actor k c db = Inr (db', r)"
  obtains "db' = db" "\<And>out. r \<noteq> Su_ok out"
  | u role original lift db1 released out where "actor = Actor_user u role" "readSuppressionEvent (su_events db) k = Some original"
      "mayCorrectSuppression (sv_source original) (sv_actorUserId original) (Some (sv_recordedAt original)) u (Some now) = Inr Correction_allowed"
      "lift = supersession_row env now u ''mistaken_entry_correction'' ''mistaken_entry'' c original"
      "\<not> alreadySuperseded (su_events db) k" "claim_and_write now u original lift db = Inr (db1, True)"
      "after_supersession env now k lift db1 = Inr (db', co_journalRecords out, released)"
      "r = Su_ok out" "co_correctionEventId out = sv_eventId lift" "co_releasedHoldIds out = map rh_id released"
proof -
  consider (refused) "db' = db" "\<And>out. r \<noteq> Su_ok out"
    | (written) u role original lift db1 written where "actor = Actor_user u role" "readSuppressionEvent (su_events db) k = Some original"
      "mayCorrectSuppression (sv_source original) (sv_actorUserId original) (Some (sv_recordedAt original)) u (Some now) = Inr Correction_allowed"
      "lift = supersession_row env now u ''mistaken_entry_correction'' ''mistaken_entry'' c original"
      "\<not> alreadySuperseded (su_events db) k"
      "underSupersessionSavepoint (claim_and_write now u original lift db) db = Inr (db1, written)"
      "(if \<not> written then Inr (db1, Su_refused (lost_claim_refusal db k)) else
         and_then (after_supersession env now k lift db1) (\<lambda>(db2, records, released).
           Inr (db2, Su_ok \<lparr> co_journalRecords = records, co_correctionEventId = sv_eventId lift,
             co_originalEventId = k, co_releasedHoldIds = map rh_id released,
             co_blockedMilliseconds = unionDuration (map (\<lambda>h. \<lparr> iv_start = rh_startedAt h, iv_end = rh_releasedAt h \<rparr>) released) \<rparr>)))
         = Inr (db', r)"
    using assms
    by (auto simp: recordCorrection_def Let_def split: ScopeActor.split_asm option.split_asm if_split_asm sum.split_asm
        CorrectionDecision.split_asm elim!: and_thenE)
  then show thesis
  proof cases
    case written
    show thesis
    proof (cases written)
      case True
      then have claim: "claim_and_write now u original lift db = Inr (db1, True)"
        using written(6) by (auto simp: underSupersessionSavepoint_def split: sum.split_asm if_split_asm)
      obtain records released where followed: "after_supersession env now k lift db1 = Inr (db', records, released)"
        and r: "r = Su_ok \<lparr> co_journalRecords = records, co_correctionEventId = sv_eventId lift,
             co_originalEventId = k, co_releasedHoldIds = map rh_id released,
             co_blockedMilliseconds = unionDuration (map (\<lambda>h. \<lparr> iv_start = rh_startedAt h, iv_end = rh_releasedAt h \<rparr>) released) \<rparr>"
        using written(7) True by (auto elim!: and_thenE)
      show thesis by (rule that(2) [OF written(1-5) claim _ r]) (simp_all add: followed)
    next
      case False
      then have "db1 = db" using written(6)
        by (auto simp: underSupersessionSavepoint_def claim_and_write_def event_step_def dest: claimD(6)
            split: sum.split_asm if_split_asm elim!: and_thenE)
      then show thesis using that(1) written(7) False by auto
    qed
  qed (use that(1) in blast)
qed

lemma mayCorrect_allowed:
  "mayCorrectSuppression src who (Some recorded) u (Some now) = Inr Correction_allowed \<longleftrightarrow>
   src = ''salesperson_manual'' \<and> who = Some u \<and> now < recorded + 600000"
  by (auto simp: mayCorrectSuppression_def MANUAL_SUPPRESSION_CORRECTION_MILLISECONDS_def)

lemma claim_and_writeD:
  assumes "claim_and_write now u original lift db = Inr (db1, True)"
  obtains f where "insert_event lift (su_events db) = Inr (su_events db1)" "su_finalizations db1 = su_finalizations db @ [f]"
    "fz_eventId f = sv_eventId original" "fz_outcome f = Corrected" "fz_correctionEventId f = Some (sv_eventId lift)"
    "readFinalization db (sv_eventId original) = None" "su_firms db1 = su_firms db" "su_holds db1 = su_holds db"
proof -
  obtain mid o' events where claim: "claimFinalization now (sv_eventId original) Corrected (Some (sv_eventId lift)) (Some u) db = Inr (mid, True, o')"
    and ins: "insert_event lift (su_events mid) = Inr events" and db1: "db1 = mid\<lparr> su_events := events \<rparr>"
    using assms by (auto simp: claim_and_write_def event_step_def split: sum.split_asm if_split_asm elim!: and_thenE)
  obtain f where f: "su_finalizations mid = su_finalizations db @ [f]" "fz_eventId f = sv_eventId original" "fz_outcome f = Corrected"
    "fz_correctionEventId f = Some (sv_eventId lift)" and free: "readFinalization db (sv_eventId original) = None"
    using claimD(5) [OF claim TrueI] by auto
  show ?thesis
    by (rule that [of f]) (use f free ins claimD(1-3) [OF claim] in \<open>simp_all add: db1\<close>)
qed

text \<open>The steps of an accepted correction, and the invariant between them.\<close>
lemma correction_steps:
  assumes "suppression_inv db" "recordCorrection env now actor k c db = Inr (db', r)"
  obtains "db' = db" "\<And>out. r \<noteq> Su_ok out"
  | u role original lift db1 f released out where "actor = Actor_user u role" "original \<in> set (su_events db)" "sv_eventId original = k"
      "lift = supersession_row env now u ''mistaken_entry_correction'' ''mistaken_entry'' c original" "takes_back lift original"
      "insert_event lift (su_events db) = Inr (su_events db1)" "suppression_inv db1"
      "grows (lift_row (sv_source original) (sv_source lift)) (su_events db1) (su_events db')"
      "su_finalizations db' = su_finalizations db @ [f]" "fz_eventId f = k" "fz_outcome f = Corrected" "readFinalization db k = None"
      "su_holds db1 = su_holds db" "release_review now k (db1\<lparr> su_events := su_events db' \<rparr>) = Inr (db', released)"
      "r = Su_ok out" "co_releasedHoldIds out = map rh_id released"
      "\<exists>copied. su_events db' = su_events db1 @ copied \<and>
         co_journalRecords out = journalRecordOf env lift # map (journalRecordOf env) copied"
  using assms(2)
proof (cases rule: correctionD)
  case 1
  then show thesis by (rule that(1))
next
  case (2 u role original lift db1 released out)
  have original: "original \<in> set (su_events db)" "sv_eventId original = k" using read_event_Some [OF 2(2)] by simp_all
  obtain f where ins: "insert_event lift (su_events db) = Inr (su_events db1)" and f: "su_finalizations db1 = su_finalizations db @ [f]"
      "fz_eventId f = sv_eventId original" "fz_outcome f = Corrected" "fz_correctionEventId f = Some (sv_eventId lift)"
    and free: "readFinalization db (sv_eventId original) = None" and holds1: "su_holds db1 = su_holds db"
    using 2(6) by (rule claim_and_writeD)
  have events: "su_events db1 = su_events db @ [lift]" using ins by (rule insert_eventD(1))
  have own: "own_correction lift" "takes_back lift original" "\<not> own_terminal lift"
    using 2(3) by (simp_all add: 2(4) own_correction_def takes_back_def own_terminal_def mayCorrect_allowed correction_deadline_def
        MANUAL_SUPPRESSION_CORRECTION_SECONDS_def)
  have decided: "decision_ok (su_events db1) f"
    using original own f events by (auto simp: decision_ok_def)
  have "suppression_inv (db\<lparr> su_events := su_events db1, su_finalizations := su_finalizations db1 \<rparr>)"
  proof (rule own_row_inv [OF assms(1) ins])
    show "\<not> isMergeCopyId (sv_eventId lift)" by (simp add: 2(4))
    show "distinct (map fz_eventId (su_finalizations db1))"
      using inv_parts(2) [OF assms(1)] free f by (auto simp: no_decision image_iff)
    show "correction_decided (su_events db1) (su_finalizations db1) lift"
      using original own f events by (auto simp: correction_decided_def)
  qed (use f decided own in auto)
  then have inv1: "suppression_inv db1" by (rule unchanged_inv) simp_all
  have lift: "lift \<in> set (su_events db1)" "sv_supersedesEventId lift \<noteq> None" "original \<in> set (su_events db1)"
    using original by (simp_all add: events 2(4))
  obtain copied where g: "grows (lift_row (sv_source original) (sv_source lift)) (su_events db1) (su_events db')"
      "su_events db' = su_events db1 @ copied" "su_finalizations db' = su_finalizations db1"
      "co_journalRecords out = journalRecordOf env lift # map (journalRecordOf env) copied"
      "release_review now (sv_eventId original) (db1\<lparr> su_events := su_events db' \<rparr>) = Inr (db', released)"
    using after_supersessionD [OF 2(7) [folded original(2)] inv_parts(1) [OF inv1] lift] by blast
  show thesis
  proof (rule that(2) [OF 2(1) original 2(4) own(2) ins inv1 g(1) _ _ f(3) _ holds1 _ 2(8,10)])
    show "\<exists>copied. su_events db' = su_events db1 @ copied \<and>
         co_journalRecords out = journalRecordOf env lift # map (journalRecordOf env) copied" using g(2,4) by blast
  qed (use f(1,2) free original(2) g(3,5) in simp_all)
qed

lemma correction_inv:
  assumes "suppression_inv db" "recordCorrection env now actor k c db = Inr (db', r)"
  shows "suppression_inv db'"
  using assms
proof (cases rule: correction_steps)
  case (2 u role original lift db1 f released out)
  have "su_finalizations db' = su_finalizations db1" using release_review_keeps [OF 2(14)] by simp
  with 2(7,8) show ?thesis by (rule copies_inv) (simp add: lift_row_def)
qed (use assms(1) in simp)

lemma adminD:
  assumes "recordAdminSupersession env now actor k reason c db = Inr (db', r)"
  obtains "db' = db" "\<And>out. r \<noteq> Su_ok out"
  | u original lift events records released where "actor = Actor_user u Role_admin" "readSuppressionEvent (su_events db) k = Some original"
      "lift = supersession_row env now u ''admin_supersession'' reason c original"
      "insert_event lift (su_events db) = Inr events"
      "after_supersession env now k lift (db\<lparr> su_events := events \<rparr>) = Inr (db', records, released)"
      "r = Su_ok \<lparr> so_supersessionEventId = sv_eventId lift, so_originalEventId = k, so_journalRecords = records \<rparr>"
  using assms
  by (auto simp: recordAdminSupersession_def isAdminScope_def Let_def underSupersessionSavepoint_def event_step_def
      split: ScopeActor.split_asm option.split_asm if_split_asm sum.split_asm elim!: and_thenE)

lemma admin_steps:
  assumes "suppression_inv db" "recordAdminSupersession env now actor k reason c db = Inr (db', r)"
  obtains "db' = db" "\<And>out. r \<noteq> Su_ok out"
  | u original lift db1 released records where "actor = Actor_user u Role_admin" "original \<in> set (su_events db)" "sv_eventId original = k"
      "lift = supersession_row env now u ''admin_supersession'' reason c original"
      "insert_event lift (su_events db) = Inr (su_events db1)" "suppression_inv db1"
      "grows (lift_row (sv_source original) (sv_source lift)) (su_events db1) (su_events db')"
      "su_finalizations db' = su_finalizations db" "su_finalizations db1 = su_finalizations db" "su_holds db1 = su_holds db"
      "release_review now k (db1\<lparr> su_events := su_events db' \<rparr>) = Inr (db', released)"
      "r = Su_ok \<lparr> so_supersessionEventId = sv_eventId lift, so_originalEventId = k, so_journalRecords = records \<rparr>"
      "\<exists>copied. su_events db' = su_events db1 @ copied \<and> records = journalRecordOf env lift # map (journalRecordOf env) copied"
  using assms(2)
proof (cases rule: adminD)
  case 1
  then show thesis by (rule that(1))
next
  case (2 u original lift events records released)
  have original: "original \<in> set (su_events db)" "sv_eventId original = k" using read_event_Some [OF 2(2)] by simp_all
  let ?db1 = "db\<lparr> su_events := events \<rparr>"
  have events: "events = su_events db @ [lift]" using 2(4) by (rule insert_eventD(1))
  have "suppression_inv (db\<lparr> su_events := events, su_finalizations := su_finalizations db \<rparr>)"
    by (rule own_row_inv [OF assms(1) 2(4)])
      (use inv_parts(2) [OF assms(1)] in \<open>simp_all add: 2(3) own_correction_def own_terminal_def\<close>)
  then have inv1: "suppression_inv ?db1" by (rule unchanged_inv) simp_all
  have lift: "lift \<in> set (su_events ?db1)" "sv_supersedesEventId lift \<noteq> None" "original \<in> set (su_events ?db1)"
    using original by (simp_all add: events 2(3))
  obtain copied where g: "grows (lift_row (sv_source original) (sv_source lift)) (su_events ?db1) (su_events db')"
      "su_events db' = su_events ?db1 @ copied" "su_finalizations db' = su_finalizations ?db1"
      "records = journalRecordOf env lift # map (journalRecordOf env) copied"
      "release_review now (sv_eventId original) (?db1\<lparr> su_events := su_events db' \<rparr>) = Inr (db', released)"
    using after_supersessionD [OF 2(5) [folded original(2)] inv_parts(1) [OF inv1] lift] by blast
  show thesis
  proof (rule that(2) [OF 2(1) original 2(3) _ inv1 g(1) _ _ _ _ 2(6)])
    show "\<exists>copied. su_events db' = su_events ?db1 @ copied \<and> records = journalRecordOf env lift # map (journalRecordOf env) copied"
      using g(2,4) by blast
  qed (use 2(4) original(2) g(3,5) in simp_all)
qed

lemma admin_inv:
  assumes "suppression_inv db" "recordAdminSupersession env now actor k reason c db = Inr (db', r)"
  shows "suppression_inv db'"
  using assms
proof (cases rule: admin_steps)
  case (2 u original lift db1 released records)
  have "su_finalizations db' = su_finalizations db1" using 2(8,9) by simp
  with 2(6,7) show ?thesis by (rule copies_inv) (simp add: lift_row_def)
qed (use assms(1) in simp)

lemma finalizeD:
  assumes "finalizeManualSuppression now asked k db = Inr (db', r)"
  obtains "su_events db' = su_events db" "su_finalizations db' = su_finalizations db" "su_holds db' = su_holds db" "su_firms db' = su_firms db"
      "r \<noteq> Fr_finalized"
  | event f db1 released where "readSuppressionEvent (su_events db) k = Some event" "sv_source event = ''salesperson_manual''"
      "sv_recordedAt event + 600000 \<le> (case asked of None \<Rightarrow> now | Some t \<Rightarrow> t)" "readFinalization db k = None"
      "su_finalizations db' = su_finalizations db @ [f]" "fz_eventId f = k" "fz_outcome f = Finalized"
      "su_events db' = su_events db" "su_holds db1 = su_holds db" "release_review now k db1 = Inr (db', released)" "r = Fr_finalized"
      "su_firms db' = su_firms db"
proof (cases "readSuppressionEvent (su_events db) k")
  case None
  then show thesis using assms that(1) by (simp add: finalizeManualSuppression_def)
next
  case (Some event)
  show thesis
  proof (cases "sv_source event = ''salesperson_manual'' \<and>
      sv_recordedAt event + 600000 \<le> (case asked of None \<Rightarrow> now | Some t \<Rightarrow> t)")
    case False
    then show thesis using assms that(1) Some
      by (auto simp: finalizeManualSuppression_def MANUAL_SUPPRESSION_CORRECTION_SECONDS_def split: if_split_asm)
  next
    case due: True
    obtain db1 won o' where claim: "claimFinalization now k Finalized None None db = Inr (db1, won, o')"
      and next': "(if \<not> won then Inr (db1, if o' = Corrected then Fr_lost_to_correction else Fr_already_finalized) else
         and_then (release_review now k db1) (\<lambda>(db2, _). Inr (db2, Fr_finalized))) = Inr (db', r)"
      using assms Some due
      by (auto simp: finalizeManualSuppression_def MANUAL_SUPPRESSION_CORRECTION_SECONDS_def elim!: and_thenE)
    show thesis
    proof (cases won)
      case False
      then show thesis using that(1) next' claimD(6) [OF claim] by (auto split: if_split_asm)
    next
      case True
      obtain released where rel: "release_review now k db1 = Inr (db', released)" "r = Fr_finalized"
        using next' True by (auto elim!: and_thenE)
      obtain f where f: "su_finalizations db1 = su_finalizations db @ [f]" "fz_eventId f = k" "fz_outcome f = Finalized"
        and free: "readFinalization db k = None"
        using claimD(5) [OF claim True] by auto
      show thesis
        by (rule that(2) [OF Some _ _ free _ _ _ _ _ rel]) (use due f release_review_keeps [OF rel(1)] claimD(1-3) [OF claim] in simp_all)
    qed
  qed
qed

lemma finalize_inv:
  assumes "suppression_inv db" "finalizeManualSuppression now asked k db = Inr (db', r)"
  shows "suppression_inv db'"
  using assms(2)
proof (cases rule: finalizeD)
  case 1
  then show ?thesis using unchanged_inv [OF assms(1)] by simp
next
  case (2 event f db1 released)
  have "event \<in> set (su_events db)" "sv_eventId event = k" using read_event_Some [OF 2(1)] by simp_all
  then have ok: "decision_ok (su_events db) f" using 2(6,7) by (auto simp: decision_ok_def)
  have "distinct (map fz_eventId (su_finalizations db'))"
    using inv_parts(2) [OF assms(1)] 2(4,5,6) by (auto simp: no_decision image_iff)
  moreover have "correction_decided (su_events db) (su_finalizations db') s" if "s \<in> set (su_events db)" "own_correction s" for s
    by (rule correction_mono [OF inv_parts(4) [OF assms(1) that]]) (simp_all add: 2(5) subset_insertI)
  moreover have "\<exists>f\<in>set (su_finalizations db'). fz_eventId f = sv_eventId e \<and> fz_outcome f = Finalized"
    if "e \<in> set (su_events db)" "own_terminal e" for e
    using inv_parts(5) [OF assms(1) that] by (auto simp: 2(5))
  moreover have "decision_ok (su_events db) g" if "g \<in> set (su_finalizations db')" for g
    using that ok inv_parts(3) [OF assms(1)] by (auto simp: 2(5))
  ultimately show ?thesis using inv_parts(1) [OF assms(1)] by (simp add: suppression_inv_def 2(8))
qed

end
