(* ===== verification/SuppressionProperties.thy ===== *)
theory SuppressionProperties
  imports SuppressionInvariant ClaimProperties
begin

text \<open>
  What the suppression protocol promises, over any sequence of its commands: the tables are
  only added to; a stop stands until its own correction or an administrator lifts it, and
  while it stands no email to what it covers is claimed; a correction and a finalizer never
  both win; the journal holds every stop, and no release that did not happen; a command that
  comes again finds what it recorded.
\<close>

section \<open>Runs\<close>

text \<open>The commands, with what their statements draw, and whatever else changes the firms, the
  holds and the queue.  An answer of the journal is the outcomes of its attempts.\<close>
datatype StopAct =
    Act_stop StopDraw ScopeActor RecordSuppressionInput
  | Act_correct instant ScopeActor string "string option" "bool list list"
  | Act_supersede instant ScopeActor string string "string option" "bool list list"
  | Act_finalize instant "instant option" string
  | Act_merge "string \<Rightarrow> bool" instant string string "string option" "bool list list"
  | Act_world "FirmRow list" "HoldRow list" JobsDb

type_synonym StopWorld = "SuppressionDb \<times> SuppressionJournalRecord list"

text \<open>A command that throws is rolled back; the journal keeps what it has.\<close>
fun stop_act :: "StopEnv \<Rightarrow> StopAct \<Rightarrow> StopWorld \<Rightarrow> StopWorld" where
  "stop_act env (Act_stop dw actor input) (db, journal) = (case recordSuppression env dw actor input db journal of
     (Inl _, j) \<Rightarrow> (db, j) | (Inr (db', _), j) \<Rightarrow> (db', j))"
| "stop_act env (Act_correct now actor k c answers) (db, journal) = (case recordCorrection env now actor k c db of
     Inl _ \<Rightarrow> (db, journal)
   | Inr (db', Su_refused _) \<Rightarrow> (db', journal)
   | Inr (db', Su_ok out) \<Rightarrow> (db', journalCommittedLifts answers (co_journalRecords out) journal))"
| "stop_act env (Act_supersede now actor k reason c answers) (db, journal) = (case recordAdminSupersession env now actor k reason c db of
     Inl _ \<Rightarrow> (db, journal)
   | Inr (db', Su_refused _) \<Rightarrow> (db', journal)
   | Inr (db', Su_ok out) \<Rightarrow> (db', journalCommittedLifts answers (so_journalRecords out) journal))"
| "stop_act env (Act_finalize now asked k) (db, journal) = (case finalizeManualSuppression now asked k db of
     Inl _ \<Rightarrow> (db, journal) | Inr (db', _) \<Rightarrow> (db', journal))"
| "stop_act env (Act_merge ok now source target c answers) (db, journal) =
     (case preserveFirmSuppressions env ok now source target c db journal of
        (Inl _, j) \<Rightarrow> (db, j)
      | (Inr (db', releases), j) \<Rightarrow> (db', journalCommittedLifts answers releases j))"
| "stop_act env (Act_world firm_rows hold_rows queue) (db, journal) =
     (db\<lparr> su_firms := firm_rows, su_holds := hold_rows, su_jobs := queue \<rparr>, journal)"

definition stop_run :: "StopEnv \<Rightarrow> StopAct list \<Rightarrow> StopWorld \<Rightarrow> StopWorld" where
  "stop_run env acts w = fold (stop_act env) acts w"

lemma stop_run_simps [simp]: "stop_run env [] w = w" "stop_run env (a # acts) w = stop_run env acts (stop_act env a w)"
  by (simp_all add: stop_run_def)

text \<open>What a command may come to: the tables it leaves.\<close>
lemma stop_act_cases:
  obtains "fst (stop_act env a (db, journal)) = db"
  | dw actor input out j where "a = Act_stop dw actor input" "recordSuppression env dw actor input db journal =
      (Inr (fst (stop_act env a (db, journal)), out), j)"
  | now actor k c answers out where "a = Act_correct now actor k c answers"
      "recordCorrection env now actor k c db = Inr (fst (stop_act env a (db, journal)), out)"
  | now actor k reason c answers out where "a = Act_supersede now actor k reason c answers"
      "recordAdminSupersession env now actor k reason c db = Inr (fst (stop_act env a (db, journal)), out)"
  | now asked k out where "a = Act_finalize now asked k"
      "finalizeManualSuppression now asked k db = Inr (fst (stop_act env a (db, journal)), out)"
  | ok now source target c answers rel j where "a = Act_merge ok now source target c answers"
      "preserveFirmSuppressions env ok now source target c db journal = (Inr (fst (stop_act env a (db, journal)), rel), j)"
  | "su_events (fst (stop_act env a (db, journal))) = su_events db"
      "su_finalizations (fst (stop_act env a (db, journal))) = su_finalizations db"
proof (cases a)
  case (Act_stop dw actor input)
  then show thesis using that(1,2)
    by (cases "recordSuppression env dw actor input db journal"; cases "fst (recordSuppression env dw actor input db journal)") auto
next
  case (Act_correct now actor k c answers)
  show thesis
  proof (cases "recordCorrection env now actor k c db")
    case (Inr y)
    then show thesis using that(3) [OF Act_correct] Act_correct by (cases y; cases "snd y") auto
  qed (use that(1) Act_correct in simp)
next
  case (Act_supersede now actor k reason c answers)
  show thesis
  proof (cases "recordAdminSupersession env now actor k reason c db")
    case (Inr y)
    then show thesis using that(4) [OF Act_supersede] Act_supersede by (cases y; cases "snd y") auto
  qed (use that(1) Act_supersede in simp)
next
  case (Act_finalize now asked k)
  show thesis
  proof (cases "finalizeManualSuppression now asked k db")
    case (Inr y)
    then show thesis using that(5) [OF Act_finalize] Act_finalize by (cases y) auto
  qed (use that(1) Act_finalize in simp)
next
  case (Act_merge ok now source target c answers)
  then show thesis using that(1,6)
    by (cases "preserveFirmSuppressions env ok now source target c db journal";
        cases "fst (preserveFirmSuppressions env ok now source target c db journal)") auto
qed (use that(7) in simp)

lemma stop_source: "event_row_ok e \<Longrightarrow> sv_supersedesEventId e = None \<Longrightarrow> sv_source e \<notin> set SUPERSESSION_SOURCES"
  by (simp add: event_row_ok_def)

lemma record_inv:
  assumes "suppression_inv db" "recordSuppression env dw actor input db journal = (Inr (db', r), j)"
  shows "suppression_inv db'"
  using assms(2)
proof (cases rule: recordD)
  case (2 key out)
  have "sv_source (new_stop env (dw_now dw) actor key input) \<notin> set SUPERSESSION_SOURCES"
    by (rule stop_source) (use insert_eventD(2) [OF write_stopD(1) [OF 2(3)]] in simp_all)
  then show ?thesis using write_stop_inv [OF assms(1) 2(3)] by (simp add: SUPERSESSION_SOURCES_def)
qed (use assms(1) in simp)

lemma merge_inv:
  assumes "suppression_inv db" "preserveFirmSuppressions env ok now source target c db journal = (Inr (db', rel), j)"
  shows "suppression_inv db'"
  using preserve_grows [OF assms(2) inv_parts(1) [OF assms(1)]]
  by (intro copies_inv [OF assms(1), where P = merge_row]) (simp_all add: merge_row_def)

lemma stop_act_inv: "suppression_inv db \<Longrightarrow> suppression_inv (fst (stop_act env a (db, journal)))"
proof (cases rule: stop_act_cases [of env a db journal])
  case 7
  then show "suppression_inv db \<Longrightarrow> ?thesis" using unchanged_inv by blast
qed (auto dest: record_inv correction_inv admin_inv finalize_inv merge_inv)

lemma stop_run_inv: "suppression_inv (fst w) \<Longrightarrow> suppression_inv (fst (stop_run env acts w))"
proof (induction acts arbitrary: w)
  case (Cons a acts)
  then show ?case using stop_act_inv [of "fst w" env a "snd w"] by simp
qed simp

section \<open>Only added to\<close>

text \<open>A command that takes the stop \<open>e\<close> back: its author's correction inside the window, if it was
  a salesperson's, or an administrator's supersession.\<close>
fun act_lifts :: "SuppressionEventRow \<Rightarrow> StopAct \<Rightarrow> bool" where
  "act_lifts e (Act_correct now actor k c answers) \<longleftrightarrow> k = sv_eventId e \<and> sv_source e = ''salesperson_manual'' \<and>
     actor_user actor \<noteq> None \<and> sv_actorUserId e = actor_user actor \<and> now < correction_deadline e"
| "act_lifts e (Act_supersede now actor k reason c answers) \<longleftrightarrow> k = sv_eventId e \<and> isAdminScope actor"
| "act_lifts e _ \<longleftrightarrow> False"

text \<open>The new rows of one command.\<close>
definition act_row :: "StopAct \<Rightarrow> SuppressionEventRow list \<Rightarrow> SuppressionEventRow \<Rightarrow> bool" where
  "act_row a t e \<longleftrightarrow> isMergeCopyId (sv_eventId e) \<and> (\<forall>k. sv_supersedesEventId e = Some k \<longrightarrow> isMergeCopyId k) \<or>
     sv_supersedesEventId e = None \<or> (\<exists>x\<in>set t. sv_supersedesEventId e = Some (sv_eventId x) \<and> act_lifts x a)"

lemma lift_row_act: "lift_row osrc src t e \<Longrightarrow> act_row a t e"
  by (auto simp: lift_row_def act_row_def)

lemma merge_row_act: "merge_row t e \<Longrightarrow> act_row a t e"
  by (auto simp: merge_row_def act_row_def)

lemma stop_act_grows:
  assumes "suppression_inv db"
  shows "grows (act_row a) (su_events db) (su_events (fst (stop_act env a (db, journal))))"
proof (cases rule: stop_act_cases [of env a db journal])
  case (2 dw actor input out j)
  show ?thesis using 2(2)
  proof (cases rule: recordD)
    case (2 key r)
    show ?thesis by (rule grows_one [OF _ write_stopD(1) [OF 2(3)]]) (simp add: act_row_def)
  qed (simp add: grows_refl)
next
  case (3 now actor k c answers out)
  show ?thesis using assms 3(2)
  proof (cases rule: correction_steps)
    case (2 u role original lift db1 f released res)
    have "act_lifts original a" using 2(1,3,4,5) by (simp add: 3(1) takes_back_def actor_user_def)
    then have "act_row a (su_events db) lift" using 2(2,4) by (auto simp: act_row_def)
    then have "grows (act_row a) (su_events db) (su_events db1)" using 2(6) by (rule grows_one)
    moreover have "grows (act_row a) (su_events db1) (su_events (fst (stop_act env a (db, journal))))"
      by (rule grows_mono [OF 2(8)]) (rule lift_row_act)
    ultimately show ?thesis using grows_trans by blast
  qed (simp add: grows_refl)
next
  case (4 now actor k reason c answers out)
  show ?thesis using assms 4(2)
  proof (cases rule: admin_steps)
    case (2 u original lift db1 released records)
    have "act_lifts original a" using 2(1,3) by (simp add: 4(1) isAdminScope_def)
    then have "act_row a (su_events db) lift" using 2(2,4) by (auto simp: act_row_def)
    then have "grows (act_row a) (su_events db) (su_events db1)" using 2(5) by (rule grows_one)
    moreover have "grows (act_row a) (su_events db1) (su_events (fst (stop_act env a (db, journal))))"
      by (rule grows_mono [OF 2(7)]) (rule lift_row_act)
    ultimately show ?thesis using grows_trans by blast
  qed (simp add: grows_refl)
next
  case (5 now asked k out)
  show ?thesis using 5(2) by (cases rule: finalizeD) (simp_all add: grows_refl)
next
  case (6 ok now source target c answers rel j)
  show ?thesis by (rule grows_mono [OF preserve_grows(1) [OF 6(2) inv_parts(1) [OF assms]]]) (rule merge_row_act)
qed (simp_all add: grows_refl)

lemma stop_act_decides:
  assumes "suppression_inv db"
  shows "\<exists>dec. su_finalizations (fst (stop_act env a (db, journal))) = su_finalizations db @ dec"
proof (cases rule: stop_act_cases [of env a db journal])
  case (2 dw actor input out j)
  show ?thesis using 2(2)
  proof (cases rule: recordD)
    case (2 key r)
    show ?thesis
    proof (cases "rs_source input \<in> set TERMINAL_SOURCES")
      case True
      then obtain won o' where claim: "claimFinalization (dw_now dw) (sv_eventId (new_stop env (dw_now dw) actor key input)) Finalized None None
          (db\<lparr> su_events := su_events (fst (stop_act env a (db, journal))) \<rparr>) = Inr (fst (stop_act env a (db, journal)), won, o')"
        using write_stopD(4) [OF 2(3)] by auto
      show ?thesis
      proof (cases won)
        case True
        then show ?thesis using claimD(5) [OF claim] by auto
      next
        case False
        then have "su_finalizations (fst (stop_act env a (db, journal))) = su_finalizations db" using claimD(6) [OF claim] by (metis SuppressionDb.select_convs(3) SuppressionDb.surjective SuppressionDb.update_convs(2))
        then show ?thesis by simp
      qed
    qed (use write_stopD(4) [OF 2(3)] in simp)
  qed simp
next
  case (3 now actor k c answers out)
  show ?thesis using assms 3(2) by (cases rule: correction_steps) simp_all
next
  case (4 now actor k reason c answers out)
  show ?thesis using assms 4(2) by (cases rule: admin_steps) simp_all
next
  case (5 now asked k out)
  show ?thesis using 5(2) by (cases rule: finalizeD) simp_all
next
  case (6 ok now source target c answers rel j)
  show ?thesis using preserve_grows(2) [OF 6(2) inv_parts(1) [OF assms]] by simp
qed simp_all

definition empty_stops :: "FirmRow list \<Rightarrow> HoldRow list \<Rightarrow> JobsDb \<Rightarrow> SuppressionDb" where
  "empty_stops firm_rows hold_rows queue = \<lparr> su_firms = firm_rows, su_events = [], su_finalizations = [], su_holds = hold_rows,
     su_jobs = queue \<rparr>"

lemma empty_stops_inv: "suppression_inv (empty_stops firm_rows hold_rows queue)"
  by (simp add: suppression_inv_def events_inv_def empty_stops_def)

lemma reachable_stops_inv: "suppression_inv (fst (stop_run env acts (empty_stops firm_rows hold_rows queue, journal)))"
  by (rule stop_run_inv) (simp add: empty_stops_inv)

lemma stop_run_only_adds:
  "suppression_inv (fst w) \<Longrightarrow> \<exists>new dec. su_events (fst (stop_run env acts w)) = su_events (fst w) @ new \<and>
     su_finalizations (fst (stop_run env acts w)) = su_finalizations (fst w) @ dec"
proof (induction acts arbitrary: w)
  case (Cons a acts)
  obtain db journal where w: "w = (db, journal)" by (cases w)
  have inv: "suppression_inv db" using Cons.prems w by simp
  obtain new dec where "su_events (fst (stop_act env a w)) = su_events db @ new" "su_finalizations (fst (stop_act env a w)) = su_finalizations db @ dec"
    using grows_prefix [OF stop_act_grows [OF inv, of a env journal]] stop_act_decides [OF inv, of env a journal] w by auto
  moreover have "suppression_inv (fst (stop_act env a w))" using stop_act_inv [OF inv] w by simp
  ultimately show ?case using Cons.IH [of "stop_act env a w"] w by auto
qed simp

section \<open>A stop stands until it is lifted\<close>

lemma act_keeps_standing:
  assumes "suppression_inv db" "e \<in> set (su_events db)" "standing (su_events db) e" "\<not> isMergeCopyId (sv_eventId e)" "\<not> act_lifts e a"
  shows "standing (su_events (fst (stop_act env a (db, journal)))) e"
proof -
  let ?t = "su_events (fst (stop_act env a (db, journal)))"
  note g = stop_act_grows [OF assms(1), of a env journal]
  have inv': "events_inv ?t" by (rule inv_parts(1) [OF stop_act_inv [OF assms(1)]])
  have "sv_supersedesEventId s \<noteq> Some (sv_eventId e)" if s: "s \<in> set ?t" for s
  proof
    assume sup: "sv_supersedesEventId s = Some (sv_eventId e)"
    have "s \<notin> set (su_events db)" using assms(3) sup by (auto simp: standing_def superseded_iff)
    then obtain t where t: "act_row a t s" "set t \<subseteq> set ?t" using grows_rows [OF g s] by blast
    then obtain x where x: "x \<in> set t" "sv_eventId x = sv_eventId e" "act_lifts x a"
      using sup assms(4) unfolding act_row_def by auto
    moreover have "e \<in> set ?t" using grows_subset [OF g] assms(2) by blast
    ultimately have "x = e" using event_by_id [OF inv', of x e] t(2) by blast
    then show False using x(3) assms(5) by simp
  qed
  then show ?thesis using assms(3) by (simp add: standing_def superseded_iff)
qed

lemma run_keeps_standing:
  "suppression_inv (fst w) \<Longrightarrow> e \<in> set (su_events (fst w)) \<Longrightarrow> standing (su_events (fst w)) e \<Longrightarrow> \<not> isMergeCopyId (sv_eventId e) \<Longrightarrow>
   \<forall>a\<in>set acts. \<not> act_lifts e a \<Longrightarrow>
   e \<in> set (su_events (fst (stop_run env acts w))) \<and> standing (su_events (fst (stop_run env acts w))) e"
proof (induction acts arbitrary: w)
  case (Cons a acts)
  obtain db journal where w: "w = (db, journal)" by (cases w)
  have "standing (su_events (fst (stop_act env a w))) e"
    using act_keeps_standing [of db e a env journal] Cons.prems w by simp
  moreover have "e \<in> set (su_events (fst (stop_act env a w)))"
    using grows_subset [OF stop_act_grows [of db a env journal]] Cons.prems(1,2) w by auto
  moreover have "suppression_inv (fst (stop_act env a w))" using stop_act_inv Cons.prems(1) w by simp
  ultimately show ?case using Cons.IH [of "stop_act env a w"] Cons.prems(4,5) by simp
qed simp

text \<open>A standing stop is in the view, itself or an earlier one of its key and channel.\<close>
lemma standing_effective:
  assumes "e \<in> set events" "standing events e"
  shows "\<exists>f\<in>set (effective_events events). same_stop_key f e"
proof -
  let ?rivals = "{f \<in> set events. standing events f \<and> same_stop_key f e}"
  have fin: "finite (event_order ` ?rivals)" by simp
  have "e \<in> ?rivals" using assms by (simp add: same_stop_key_def)
  then have "event_order ` ?rivals \<noteq> {}" by blast
  with fin have "Min (event_order ` ?rivals) \<in> event_order ` ?rivals" by (rule Min_in)
  then obtain f where f: "Min (event_order ` ?rivals) = event_order f" "f \<in> ?rivals" by (rule imageE)
  have "\<not> event_order g < event_order f" if "g \<in> set events" "standing events g" "same_stop_key g f" for g
  proof -
    have "g \<in> ?rivals" using that f(2) by (auto simp: same_stop_key_def)
    then have "Min (event_order ` ?rivals) \<le> event_order g" using fin by (intro Min_le) simp_all
    then show ?thesis by (simp only: f(1) not_less)
  qed
  then have "f \<in> set (effective_events events)" using f(2) by (auto simp: effective_events_def Let_def list_ex_iff)
  then show ?thesis using f(2) by blast
qed

lemma view_refuses:
  assumes "e \<in> set events" "standing events e" "sv_channel e = channel \<or> sv_channel e = ''all''"
    and "(sv_scope e, sv_canonicalKey e) \<in> set (map (\<lambda>(scope, key). (scope, js_lower key)) keys)"
    and "sx_suppressions db = map gate_row (effective_events events)"
  shows "firstSuppressed db keys channel \<noteq> None"
proof
  assume none: "firstSuppressed db keys channel = None"
  obtain f where f: "f \<in> set (effective_events events)" "same_stop_key f e" using standing_effective [OF assms(1,2)] by blast
  have "gate_row f \<in> set (sx_suppressions db)" using f(1) assms(5) by simp
  from not_suppressed [OF none this] show False using f(2) assms(3,4) by (simp add: gate_row_def same_stop_key_def)
qed

lemma record_fresh:
  assumes "recordSuppression env dw actor input db journal = (Inr (db1, Su_ok out), j)" "\<not> rd_replayed out"
  shows "rd_event out \<in> set (su_events db1)" "\<not> isMergeCopyId (sv_eventId (rd_event out))" "sv_supersedesEventId (rd_event out) = None"
    "su_events db1 = su_events db @ [rd_event out]" "\<forall>x\<in>set (su_events db). sv_eventId x \<noteq> sv_eventId (rd_event out)"
proof -
  have "rd_event out \<in> set (su_events db1) \<and> \<not> isMergeCopyId (sv_eventId (rd_event out)) \<and> sv_supersedesEventId (rd_event out) = None \<and>
    su_events db1 = su_events db @ [rd_event out] \<and> (\<forall>x\<in>set (su_events db). sv_eventId x \<noteq> sv_eventId (rd_event out))"
    using assms(1)
  proof (cases rule: recordD)
    case 1
    then show ?thesis using assms
      by (auto simp: recordSuppression_def Let_def recorded_before_def split: if_split_asm sum.split_asm option.split_asm elim!: and_thenE
          dest: write_stopD(3))
  next
    case (2 key res)
    then have "res = out" by simp
    then show ?thesis using write_stopD(1,2) [OF 2(3)] insert_eventD(1,3) [OF write_stopD(1) [OF 2(3)]] by simp
  qed
  then show "rd_event out \<in> set (su_events db1)" "\<not> isMergeCopyId (sv_eventId (rd_event out))" "sv_supersedesEventId (rd_event out) = None"
    "su_events db1 = su_events db @ [rd_event out]" "\<forall>x\<in>set (su_events db). sv_eventId x \<noteq> sv_eventId (rd_event out)" by simp_all
qed

lemma fresh_stands:
  assumes "suppression_inv db" "recordSuppression env dw actor input db journal = (Inr (db1, Su_ok out), j)" "\<not> rd_replayed out"
  shows "suppression_inv db1" "standing (su_events db1) (rd_event out)"
proof -
  note fresh = record_fresh [OF assms(2,3)]
  show "suppression_inv db1" by (rule record_inv [OF assms(1,2)])
  have "sv_supersedesEventId s \<noteq> Some (sv_eventId (rd_event out))" if "s \<in> set (su_events db1)" for s
  proof (cases "s = rd_event out")
    case False
    then have "s \<in> set (su_events db)" using that fresh(4) by simp
    then show ?thesis using inv_parts(1) [OF assms(1)] fresh(5) unfolding events_inv_def by metis
  qed (use fresh(3) in simp)
  then show "standing (su_events db1) (rd_event out)" using fresh(3) by (simp add: standing_def superseded_iff)
qed

text \<open>C5: Once a stop for email is recorded, no email to what it covers is claimed again until the
  stop itself is taken back.  Whatever ran before and whatever runs after it, by anyone (other
  stops, corrections and supersessions of other events, finalizers, merges, changes of firms and
  holds), as long as no administrator supersedes this very event and its author does not correct
  it inside the window, a send that reads the view of the events is claimed neither for the
  stopped firm nor for the stopped address.\<close>
theorem stopped_never_mailed:
  assumes "stop_run env past (empty_stops firm_rows hold_rows queue, journal0) = (db, journal)"
    and "recordSuppression env dw actor input db journal = (Inr (db1, Su_ok out), j)" "\<not> rd_replayed out"
    and "sv_channel (rd_event out) \<in> {''email'', ''all''}" "\<forall>a\<in>set acts. \<not> act_lifts (rd_event out) a"
    and "sx_suppressions sdb = map gate_row (effective_events (su_events (fst (stop_run env acts (db1, j)))))"
    and "recheckAndClaim rd tk deps k precheck sdb = Inr (sdb', Claimed plan c threading)"
    and "readFence (sx_outbound sdb) k = Some fence"
  shows "\<not> (sv_scope (rd_event out) = ''firm'' \<and> sv_canonicalKey (rd_event out) = js_lower (en_firmId (fm_envelope fence))) \<and>
    \<not> (sv_scope (rd_event out) = ''handle'' \<and> sv_canonicalKey (rd_event out) = js_lower (en_recipientAddress (fm_envelope fence)))"
proof -
  let ?e = "rd_event out" and ?events = "su_events (fst (stop_run env acts (db1, j)))"
  have inv: "suppression_inv db" using reachable_stops_inv [of env past firm_rows hold_rows queue journal0] assms(1) by simp
  note fresh = record_fresh [OF assms(2,3)] fresh_stands [OF inv assms(2,3)]
  have stands: "?e \<in> set ?events" "standing ?events ?e"
    using run_keeps_standing [of "(db1, j)" ?e acts env] fresh assms(5) by simp_all
  obtain fence' db2 where s: "readFence (sx_outbound sdb) k = Some fence'" "decideSend rd tk (gate_deps deps) fence' sdb = Inr (db2, Accept plan)"
    using assms(7) by (elim recheck_claimed) blast
  have fence: "fence' = fence" using s(1) assms(8) by simp
  obtain mailbox permission where "decide_never rd (tk_clock tk) (gate_deps deps) fence sdb = Accept (mailbox, None, permission)"
    using s(2) fence by (elim decide_accept_cases) blast
  note free = never_cases [OF this, THEN conjunct2, THEN conjunct2, THEN conjunct1]
  let ?keys = "[(''firm'', en_firmId (fm_envelope fence)), (''handle'', en_recipientAddress (fm_envelope fence))]"
  have "(sv_scope ?e, sv_canonicalKey ?e) \<notin> set (map (\<lambda>(scope, key). (scope, js_lower key)) ?keys)"
    using view_refuses [OF stands, of "''email''" ?keys sdb] free assms(4,6) by blast
  then show ?thesis by auto
qed

definition stop_env1 :: StopEnv where
  "stop_env1 = \<lparr> st_text = ascii_env, st_workspaceId = ''w1'', st_sha256 = (\<lambda>s. s) \<rparr>"

definition stop_input1 :: RecordSuppressionInput where
  "stop_input1 = \<lparr> rs_scope = ''firm'', rs_firmId = Some ''z9'', rs_value = None, rs_source = ''prospect_opt_out'',
     rs_channel = ''all'', rs_commandId = Some ''c1'', rs_fallbackKey = None \<rparr>"

definition stop_draw1 :: StopDraw where
  "stop_draw1 = \<lparr> dw_now = 5, dw_hold = ''h1'', dw_job = ''j1'', dw_journalled = True \<rparr>"

definition stop_db0 :: SuppressionDb where
  "stop_db0 = empty_stops [\<lparr> fi_id = ''z9'', fi_assignedUserId = Some ''u1'', fi_merged = False \<rparr>] [] \<lparr> jobs = [], job_audits = [] \<rparr>"

definition stop_event1 :: SuppressionEventRow where
  "stop_event1 = new_stop stop_env1 5 (Actor_user ''u1'' Role_salesperson) ''z9'' stop_input1"

definition stop_finalization1 :: FinalizationRow where
  "stop_finalization1 = \<lparr> fz_eventId = sv_eventId stop_event1, fz_outcome = Finalized, fz_decidedAt = 5, fz_decidedByUserId = None,
     fz_correctionEventId = None \<rparr>"

lemma stop_recorded1:
  "recordSuppression stop_env1 stop_draw1 (Actor_user ''u1'' Role_salesperson) stop_input1 stop_db0 [] =
     (Inr (stop_db0\<lparr> su_events := [stop_event1], su_finalizations := [stop_finalization1] \<rparr>,
        Su_ok \<lparr> rd_event = stop_event1, rd_terminal = True, rd_reviewHoldIds = [], rd_correctionDeadline = None, rd_replayed = False \<rparr>),
      [(journalRecordOf stop_env1 stop_event1)\<lparr> jr_firmId := Some (Some ''z9'') \<rparr>])"
  by code_simp

definition stopped_send_db :: "unit SendDb" where
  "stopped_send_db = send_db\<lparr> sx_suppressions := [gate_row stop_event1] \<rparr>"

lemma stopped_send_run: "(case recheckAndClaim send_rd (send_tick 0) send_deps ''f1'' send_precheck stopped_send_db of
    Inr (db, Claimed plan c threading) \<Rightarrow> readFence (sx_outbound stopped_send_db) ''f1'' \<noteq> None | _ \<Rightarrow> False)"
  by code_simp

theorem stopped_never_mailed_witness:
  "\<exists>fence. readFence (sx_outbound stopped_send_db) ''f1'' = Some fence \<and> js_lower (en_firmId (fm_envelope fence)) \<noteq> ''z9'' \<and>
     effective_events [stop_event1] = [stop_event1]"
proof -
  obtain sdb' plan c threading fence where claim: "recheckAndClaim send_rd (send_tick 0) send_deps ''f1'' send_precheck stopped_send_db =
      Inr (sdb', Claimed plan c threading)" and fence: "readFence (sx_outbound stopped_send_db) ''f1'' = Some fence"
    using stopped_send_run by (auto split: sum.splits prod.splits ClaimOutcome.splits)
  have view: "effective_events [stop_event1] = [stop_event1]" by code_simp
  have start: "stop_run stop_env1 [] (empty_stops (su_firms stop_db0) [] \<lparr> jobs = [], job_audits = [] \<rparr>, []) = (stop_db0, [])"
    by (simp add: stop_db0_def empty_stops_def)
  have e: "sv_channel stop_event1 = ''all''" "sv_scope stop_event1 = ''firm''" "sv_canonicalKey stop_event1 = ''z9''" by code_simp+
  have "js_lower (en_firmId (fm_envelope fence)) \<noteq> ''z9''"
    using stopped_never_mailed [OF start stop_recorded1 _ _ _ _ claim fence, of "[]"] e view by (auto simp: stopped_send_db_def)
  then show ?thesis using fence view by blast
qed

section \<open>One decision, one supersession\<close>

lemma superseded_once:
  assumes "events_inv events"
  shows "distinct (map sv_supersedesEventId (filter (\<lambda>s. sv_supersedesEventId s \<noteq> None) events))"
proof -
  have "distinct events" using assms by (simp add: events_inv_def distinct_map)
  moreover have "inj_on sv_supersedesEventId (set (filter (\<lambda>s. sv_supersedesEventId s \<noteq> None) events))"
  proof (rule inj_onI)
    fix s s' assume "s \<in> set (filter (\<lambda>s. sv_supersedesEventId s \<noteq> None) events)"
      and "s' \<in> set (filter (\<lambda>s. sv_supersedesEventId s \<noteq> None) events)" and same: "sv_supersedesEventId s = sv_supersedesEventId s'"
    then obtain k where "s \<in> set events" "s' \<in> set events" "sv_supersedesEventId s = Some k" "sv_supersedesEventId s' = Some k" by auto
    then show "s = s'" using assms unfolding events_inv_def by blast
  qed
  ultimately show ?thesis by (simp add: distinct_map)
qed

lemma finalized_uncorrected:
  assumes "suppression_inv db" "f \<in> set (su_finalizations db)" "fz_outcome f = Finalized" "s \<in> set (su_events db)" "own_correction s"
  shows "sv_supersedesEventId s \<noteq> Some (fz_eventId f)"
proof
  assume sup: "sv_supersedesEventId s = Some (fz_eventId f)"
  obtain e g where "takes_back s e" and g: "g \<in> set (su_finalizations db)" "fz_eventId g = sv_eventId e" "fz_outcome g = Corrected"
    using inv_parts(4) [OF assms(1,4,5)] unfolding correction_decided_def by blast
  then have "fz_eventId g = fz_eventId f" using sup by (simp add: takes_back_def)
  then have "g = f" using inv_parts(2) [OF assms(1)] g(1) assms(2) by (auto simp: distinct_map inj_on_def)
  then show False using g(3) assms(3) by simp
qed

text \<open>C10: A correction and a finalizer never both win, and nothing is rewritten.  After any commands
  from the empty tables, every event has at most one decision and at most one supersession;
  every correction a person made takes back a salesperson's stop of their own, inside the ten
  minutes, and holds the decision of it; no event that was decided final is corrected; and
  whatever runs later, the rows there are stay as they are, at the front of the tables.\<close>
theorem one_decision_per_event:
  "let w = stop_run env acts (empty_stops firm_rows hold_rows queue, journal); w' = stop_run env later w;
       events = su_events (fst w); fins = su_finalizations (fst w) in
   distinct (map fz_eventId fins) \<and> distinct (map sv_supersedesEventId (filter (\<lambda>s. sv_supersedesEventId s \<noteq> None) events)) \<and>
   list_all (\<lambda>s. list_ex (\<lambda>e. takes_back s e \<and> list_ex (\<lambda>f. fz_eventId f = sv_eventId e \<and> fz_outcome f = Corrected) fins) events)
     (filter own_correction events) \<and>
   list_all (\<lambda>f. \<not> list_ex (\<lambda>s. own_correction s \<and> sv_supersedesEventId s = Some (fz_eventId f)) events)
     (filter (\<lambda>f. fz_outcome f = Finalized) fins) \<and>
   prefix events (su_events (fst w')) \<and> prefix fins (su_finalizations (fst w'))"
proof -
  define w where "w = stop_run env acts (empty_stops firm_rows hold_rows queue, journal)"
  have inv: "suppression_inv (fst w)" using reachable_stops_inv by (simp add: w_def)
  have "list_all (\<lambda>s. list_ex (\<lambda>e. takes_back s e \<and> list_ex (\<lambda>f. fz_eventId f = sv_eventId e \<and> fz_outcome f = Corrected)
      (su_finalizations (fst w))) (su_events (fst w))) (filter own_correction (su_events (fst w)))"
    using inv_parts(4) [OF inv] unfolding list_all_iff list_ex_iff correction_decided_def by (simp; blast)
  moreover have "list_all (\<lambda>f. \<not> list_ex (\<lambda>s. own_correction s \<and> sv_supersedesEventId s = Some (fz_eventId f)) (su_events (fst w)))
      (filter (\<lambda>f. fz_outcome f = Finalized) (su_finalizations (fst w)))"
    using finalized_uncorrected [OF inv] unfolding list_all_iff list_ex_iff by (simp; blast)
  moreover obtain new dec where "su_events (fst (stop_run env later w)) = su_events (fst w) @ new"
      "su_finalizations (fst (stop_run env later w)) = su_finalizations (fst w) @ dec"
    using stop_run_only_adds [OF inv] by blast
  ultimately show ?thesis
    using inv_parts(2) [OF inv] superseded_once [OF inv_parts(1) [OF inv]] by (simp add: Let_def w_def [symmetric])
qed

section \<open>A correction\<close>

lemma release_reviewD:
  assumes "release_review now k db = Inr (db', released)"
  shows "map rh_id released = map hd_id (filter (\<lambda>h. hd_sourceEventId h = Some k \<and> hd_reasonCode h = ''manual_suppression_review'' \<and>
       hd_releasedAt h = None) (su_holds db))"
  using assms
  by (auto simp: release_review_def hold_step_def releaseHoldsOfEvent_def release_where_def conj_ac
      split: sum.splits if_splits elim!: and_thenE)

text \<open>C32: A correction lifts its own stop and nothing else.  When it is accepted, the event was a
  standing stop by the same person inside the ten minutes; afterwards it does not stand and its
  decision is that it was corrected; every other stop that is not a merge's copy stands exactly
  if it stood; and the holds released are the open review holds of that event.\<close>
theorem correction_exact:
  assumes "stop_run env past (empty_stops firm_rows hold_rows queue, journal0) = (db, journal)"
    and "recordCorrection env now actor k c db = Inr (db', Su_ok out)"
  shows "\<exists>e\<in>set (su_events db). sv_eventId e = k \<and> sv_source e = ''salesperson_manual'' \<and> sv_actorUserId e = actor_user actor \<and>
    now < sv_recordedAt e + 600000 \<and> standing (su_events db) e \<and> \<not> standing (su_events db') e \<and>
    map_option fz_outcome (readFinalization db' k) = Some Corrected \<and>
    (\<forall>x\<in>set (su_events db) - {e}. isMergeCopyId (sv_eventId x) \<or> standing (su_events db') x = standing (su_events db) x) \<and>
    co_releasedHoldIds out = map hd_id (filter (\<lambda>h. hd_sourceEventId h = Some k \<and>
      hd_reasonCode h = ''manual_suppression_review'' \<and> hd_releasedAt h = None) (su_holds db))"
proof -
  have inv: "suppression_inv db" using reachable_stops_inv [of env past firm_rows hold_rows queue journal0] assms(1) by simp
  show ?thesis
    using inv assms(2)
  proof (cases rule: correction_steps)
    case (2 u role e lift db1 f released out')
    let ?a = "Act_correct now actor k c []"
    have acts: "fst (stop_act env ?a (db, journal)) = db'" using assms(2) by simp
    note g = stop_act_grows [OF inv, of ?a env journal, unfolded acts]
    have sub: "set (su_events db) \<subseteq> set (su_events db')" by (rule grows_subset [OF g])
    have lift: "lift \<in> set (su_events db')" "sv_supersedesEventId lift = Some (sv_eventId e)" "lift \<notin> set (su_events db)"
      using grows_subset [OF 2(8)] insert_eventD(1,3) [OF 2(6)] by (auto simp: 2(4))
    have e: "sv_source e = ''salesperson_manual''" "sv_actorUserId e = actor_user actor" "now < sv_recordedAt e + 600000"
      using 2(1,4,5) by (simp_all add: takes_back_def actor_user_def correction_deadline_def MANUAL_SUPPRESSION_CORRECTION_SECONDS_def)
    have "event_row_ok e" using inv_parts(1) [OF inv] 2(2) by (simp add: events_inv_def)
    then have "sv_supersedesEventId e = None" using e(1) by (auto simp: event_row_ok_def SUPERSESSION_SOURCES_def)
    moreover have "\<not> alreadySuperseded (su_events db) (sv_eventId e)"
      using insert_eventD(4) [OF 2(6) lift(2)] by (auto simp: superseded_iff)
    ultimately have stood: "standing (su_events db) e" by (simp add: standing_def)
    have fell: "\<not> standing (su_events db') e" using lift by (auto simp: standing_def superseded_iff)
    have others: "standing (su_events db') x = standing (su_events db) x"
      if x: "x \<in> set (su_events db)" "x \<noteq> e" "\<not> isMergeCopyId (sv_eventId x)" for x
    proof
      assume "standing (su_events db) x"
      moreover have "\<not> act_lifts x ?a" using event_by_id [OF inv_parts(1) [OF inv] x(1) 2(2)] x(2) 2(3) by auto
      ultimately show "standing (su_events db') x" using act_keeps_standing [OF inv x(1) _ x(3), of ?a env journal] acts by simp
    next
      assume "standing (su_events db') x"
      then show "standing (su_events db) x" using sub by (auto simp: standing_def superseded_iff)
    qed
    have "distinct (map fz_eventId (su_finalizations db'))" by (rule inv_parts(2) [OF correction_inv [OF inv assms(2)]])
    then have "readFinalization db' k = Some f"
      using sql_one_key [of fz_eventId "su_finalizations db'" f] 2(9,10) by (simp add: readFinalization_def)
    moreover have "co_releasedHoldIds out = map hd_id (filter (\<lambda>h. hd_sourceEventId h = Some k \<and>
        hd_reasonCode h = ''manual_suppression_review'' \<and> hd_releasedAt h = None) (su_holds db))"
      using release_reviewD [OF 2(14)] 2(13,15,16) by simp
    ultimately show ?thesis using 2(2,3,11) e stood fell others by (intro bexI [of _ e]) auto
  qed blast
qed

definition stop_input2 :: RecordSuppressionInput where
  "stop_input2 = stop_input1\<lparr> rs_source := ''salesperson_manual'' \<rparr>"

definition stop_past2 :: "StopAct list" where
  "stop_past2 = [Act_stop stop_draw1 (Actor_user ''u1'' Role_salesperson) stop_input2]"

definition stop_event2 :: SuppressionEventRow where
  "stop_event2 = new_stop stop_env1 5 (Actor_user ''u1'' Role_salesperson) ''z9'' stop_input2"

lemma correction_run2: "(let db = fst (stop_run stop_env1 stop_past2 (stop_db0, [])) in su_events db = [stop_event2] \<and>
    map hd_id (su_holds db) = [''h1''] \<and> length (jobs (su_jobs db)) = 1 \<and>
    (case recordCorrection stop_env1 600004 (Actor_user ''u1'' Role_salesperson) (sv_eventId stop_event2) (Some ''c2'') db of
       Inr (_, Su_ok _) \<Rightarrow> True | _ \<Rightarrow> False))"
  by code_simp

theorem correction_exact_witness:
  "\<exists>db' out. recordCorrection stop_env1 600004 (Actor_user ''u1'' Role_salesperson) (sv_eventId stop_event2) (Some ''c2'')
     (fst (stop_run stop_env1 stop_past2 (stop_db0, []))) = Inr (db', Su_ok out) \<and> \<not> standing (su_events db') stop_event2 \<and>
     map_option fz_outcome (readFinalization db' (sv_eventId stop_event2)) = Some Corrected"
proof -
  let ?w = "stop_run stop_env1 stop_past2 (stop_db0, [])"
  obtain db' out where run: "recordCorrection stop_env1 600004 (Actor_user ''u1'' Role_salesperson) (sv_eventId stop_event2) (Some ''c2'')
      (fst ?w) = Inr (db', Su_ok out)" and events: "su_events (fst ?w) = [stop_event2]"
    using correction_run2 by (auto simp: Let_def split: sum.splits prod.splits SuppressionResult.splits)
  have start: "stop_run stop_env1 stop_past2 (empty_stops (su_firms stop_db0) [] \<lparr> jobs = [], job_audits = [] \<rparr>, []) = (fst ?w, snd ?w)"
    by (simp add: stop_db0_def empty_stops_def)
  show ?thesis using correction_exact [OF start run] run events by auto
qed

section \<open>A command that comes again\<close>

text \<open>C33: Recording is safe to retry, however late.  Once a stop was recorded, whatever ran since
  (its own correction and its supersession included), the same request, from anyone who may make
  it and in any later transaction, records nothing and journals nothing: it answers the event
  that is there.\<close>
theorem record_again:
  assumes "stop_run env past (empty_stops firm_rows hold_rows queue, journal0) = (db, journal)"
    and "recordSuppression env dw actor input db journal = (Inr (db1, Su_ok out), j)" "\<not> rd_replayed out"
    and "stop_run env acts (db1, j) = (db2, j2)"
    and "stop_key env actor' (su_firms db2) input = Inr (sv_canonicalKey (rd_event out))"
    and "rs_source input = ''salesperson_manual'' \<Longrightarrow> actor_user actor' \<noteq> None"
  shows "recordSuppression env dw' actor' input db2 j2 = (Inr (db2, Su_ok (recorded_before (rd_event out))), j2)"
proof -
  have inv: "suppression_inv db" using reachable_stops_inv [of env past firm_rows hold_rows queue journal0] assms(1) by simp
  note fresh = record_fresh [OF assms(2,3)] fresh_stands [OF inv assms(2,3)]
  obtain key where key: "rd_event out = new_stop env (dw_now dw) actor key input" "event_row_ok (rd_event out)"
    using assms(2)
  proof (cases rule: recordD)
    case 1
    then show thesis using fresh(4) by simp
  next
    case (2 key res)
    then have "res = out" by simp
    then show thesis using that write_stopD(2) [OF 2(3)] insert_eventD(2) [OF write_stopD(1) [OF 2(3)]] by simp
  qed
  have inv2: "suppression_inv db2" using stop_run_inv [of "(db1, j)" env acts] fresh(6) assms(4) by simp
  have "rd_event out \<in> set (su_events db2)"
    using stop_run_only_adds [of "(db1, j)" env acts] fresh(1,6) assms(4) by auto
  then have found: "readSuppressionEvent (su_events db2) (sv_eventId (rd_event out)) = Some (rd_event out)"
    using read_event_key inv_parts(1) [OF inv2] by (simp add: events_inv_def)
  have same_id: "sv_eventId (new_stop env (dw_now dw') actor' key input) = sv_eventId (rd_event out)" by (simp add: key(1) new_stop_def)
  have "channelFitsKey (rs_scope input) key (rs_channel input)" using key by (simp add: event_row_ok_def)
  then show ?thesis
    using assms(5,6) found by (simp add: recordSuppression_def Let_def key(1) same_id [unfolded key(1)] new_stop_simps)
qed

definition stop_later1 :: "StopAct list" where
  "stop_later1 = [Act_supersede 900000 (Actor_user ''a1'' Role_admin) (sv_eventId stop_event1) ''correction'' (Some ''c7'') [[True]]]"

definition stop_db1 :: SuppressionDb where
  "stop_db1 = stop_db0\<lparr> su_events := [stop_event1], su_finalizations := [stop_finalization1] \<rparr>"

definition stop_journal1 :: "SuppressionJournalRecord list" where
  "stop_journal1 = [(journalRecordOf stop_env1 stop_event1)\<lparr> jr_firmId := Some (Some ''z9'') \<rparr>]"

lemma again_run1: "(let w = stop_run stop_env1 stop_later1 (stop_db1, stop_journal1) in
    length (su_events (fst w)) = 2 \<and> length (snd w) = 2 \<and>
    stop_key stop_env1 (Actor_user ''a1'' Role_admin) (su_firms (fst w)) stop_input1 = Inr ''z9'')"
  by code_simp

theorem record_again_witness:
  "(let w = stop_run stop_env1 stop_later1 (stop_db1, stop_journal1) in length (su_events (fst w)) = 2 \<and>
     recordSuppression stop_env1 stop_draw1 (Actor_user ''a1'' Role_admin) stop_input1 (fst w) (snd w) =
       (Inr (fst w, Su_ok (recorded_before stop_event1)), snd w))"
proof -
  let ?w = "stop_run stop_env1 stop_later1 (stop_db1, stop_journal1)"
  have start: "stop_run stop_env1 [] (empty_stops (su_firms stop_db0) [] \<lparr> jobs = [], job_audits = [] \<rparr>, []) = (stop_db0, [])"
    by (simp add: stop_db0_def empty_stops_def)
  have key: "sv_canonicalKey stop_event1 = ''z9''" by code_simp
  have source: "rs_source stop_input1 = ''prospect_opt_out''" by (simp add: stop_input1_def)
  have "recordSuppression stop_env1 stop_draw1 (Actor_user ''a1'' Role_admin) stop_input1 (fst ?w) (snd ?w) =
       (Inr (fst ?w, Su_ok (recorded_before stop_event1)), snd ?w)"
    using record_again [OF start stop_recorded1 [folded stop_db1_def stop_journal1_def], of stop_later1 "fst ?w" "snd ?w"
        "Actor_user ''a1'' Role_admin" stop_draw1] again_run1 key source
    by (simp add: Let_def)
  then show ?thesis using again_run1 by (simp add: Let_def)
qed

end
