(* ===== verification/SuppressionReplay.thy ===== *)
theory SuppressionReplay
  imports Suppression
begin

text \<open>
  \<open>suppression/replay.ts\<close> and the body of \<open>suppression/journal.ts\<close>: the journal's objects as JSON
  values and the replay that puts back what a restored database has lost, as the passes of the
  code: what is missing, what may be applied, which of rivals, in what order, and each row with
  what comes with it.
\<close>

section \<open>The body of an object (journal.ts, replay.ts)\<close>

text \<open>A JSON value.  \<open>JSON.stringify\<close> and \<open>JSON.parse\<close> are inverse on these, so a body is its value,
  and one that is not JSON is \<open>None\<close>.\<close>
datatype Json = J_null | J_bool bool | J_number int | J_string string | J_array "Json list" | J_object "(string \<times> Json) list"

definition json_text :: "string option \<Rightarrow> Json" where
  "json_text s = (case s of None \<Rightarrow> J_null | Some x \<Rightarrow> J_string x)"

definition SUPPRESSION_JOURNAL_SCHEMA :: string where
  "SUPPRESSION_JOURNAL_SCHEMA = ''fss.suppression.v1''"

text \<open>\<open>show_instant\<close> writes an instant as its text.\<close>
definition journalObjectBody :: "(instant \<Rightarrow> string) \<Rightarrow> SuppressionJournalRecord \<Rightarrow> Json" where
  "journalObjectBody show_instant r = (let e = jr_event r in J_object (
     [(''schema'', J_string SUPPRESSION_JOURNAL_SCHEMA), (''eventId'', J_string (sv_eventId e)),
      (''workspaceId'', J_string (jr_workspaceId r)), (''scope'', J_string (sv_scope e)),
      (''canonicalKey'', J_string (sv_canonicalKey e)), (''canonicalizerVersion'', J_string (sv_canonicalizerVersion e)),
      (''source'', J_string (sv_source e)), (''actorUserId'', json_text (sv_actorUserId e)),
      (''commandId'', json_text (sv_commandId e)), (''supersedesEventId'', json_text (sv_supersedesEventId e)),
      (''supersessionReason'', json_text (sv_supersessionReason e)), (''recordedAt'', J_string (show_instant (sv_recordedAt e))),
      (''channel'', J_string (sv_channel e))] @
     (case jr_firmId r of None \<Rightarrow> [] | Some f \<Rightarrow> [(''firmId'', json_text f)]) @
     (if jr_committed r then [(''committed'', J_bool True)] else [])))"

datatype JournalParseRefusal = Not_json | Not_object | Schema_unknown | Field_missing string

definition json_string :: "(string \<times> Json) list \<Rightarrow> string \<Rightarrow> string option" where
  "json_string members name = (case map_of members name of Some (J_string s) \<Rightarrow> Some s | _ \<Rightarrow> None)"

definition required_fields :: "string list" where
  "required_fields = [''eventId'', ''workspaceId'', ''scope'', ''canonicalKey'', ''canonicalizerVersion'', ''source'', ''recordedAt'']"

definition json_or_empty :: "(string \<times> Json) list \<Rightarrow> string \<Rightarrow> string" where
  "json_or_empty members name = (case json_string members name of None \<Rightarrow> [] | Some s \<Rightarrow> s)"

text \<open>Absent, \<open>null\<close>, a string, or neither.\<close>
definition firm_field :: "(string \<times> Json) list \<Rightarrow> uuid option option option" where
  "firm_field members = (case map_of members ''firmId'' of
     None \<Rightarrow> Some None
   | Some J_null \<Rightarrow> Some (Some None)
   | Some (J_string s) \<Rightarrow> Some (Some (Some s))
   | Some _ \<Rightarrow> None)"

text \<open>\<open>instant_of\<close> is what the database and \<open>Date.parse\<close> read in \<open>recordedAt\<close>.\<close>
definition parseSuppressionJournalRecord :: "(string \<Rightarrow> instant) \<Rightarrow> Json option \<Rightarrow>
    JournalParseRefusal + SuppressionJournalRecord" where
  "parseSuppressionJournalRecord instant_of body = (case body of
     None \<Rightarrow> Inl Not_json
   | Some (J_object members) \<Rightarrow>
       if map_of members ''schema'' \<noteq> Some (J_string SUPPRESSION_JOURNAL_SCHEMA) then Inl Schema_unknown else
       (case find (\<lambda>name. json_string members name = None) required_fields of
          Some name \<Rightarrow> Inl (Field_missing name)
        | None \<Rightarrow>
            if json_or_empty members ''scope'' \<notin> {''firm'', ''handle''} then Inl (Field_missing ''scope'') else
            let channel = (case map_of members ''channel'' of None \<Rightarrow> Some ''all'' | Some _ \<Rightarrow> json_string members ''channel'') in
            if channel \<notin> {Some ''phone'', Some ''email'', Some ''all''} then Inl (Field_missing ''channel'') else
            (case firm_field members of
               None \<Rightarrow> Inl (Field_missing ''firmId'')
             | Some firmId \<Rightarrow> Inr \<lparr> jr_workspaceId = json_or_empty members ''workspaceId'',
                 jr_event = \<lparr> sv_eventId = json_or_empty members ''eventId'', sv_scope = json_or_empty members ''scope'',
                   sv_canonicalKey = json_or_empty members ''canonicalKey'',
                   sv_canonicalizerVersion = json_or_empty members ''canonicalizerVersion'',
                   sv_source = json_or_empty members ''source'', sv_actorUserId = json_string members ''actorUserId'',
                   sv_commandId = json_string members ''commandId'',
                   sv_recordedAt = instant_of (json_or_empty members ''recordedAt''),
                   sv_supersedesEventId = json_string members ''supersedesEventId'',
                   sv_supersessionReason = json_string members ''supersessionReason'', sv_channel = the channel \<rparr>,
                 jr_firmId = firmId, jr_committed = (map_of members ''committed'' = Some (J_bool True)) \<rparr>))
   | Some _ \<Rightarrow> Inl Not_object)"

section \<open>What is missing and may be applied (replay.ts)\<close>

record JournalReplayReport =
  rr_inserted :: nat
  rr_alreadyPresent :: nat
  rr_foreign :: nat
  rr_finalized :: nat
  rr_windowsReopened :: nat
  rr_released :: nat
  rr_competingSupersessions :: "string list"
  rr_orphanSupersessions :: "string list"
  rr_staleCorrections :: "string list"
  rr_unreconstructedHolds :: "string list"
  rr_unverifiedLegacyReleases :: "string list"

definition record_id :: "SuppressionJournalRecord \<Rightarrow> string" where
  "record_id r = sv_eventId (jr_event r)"

definition record_lifts :: "SuppressionJournalRecord \<Rightarrow> string option" where
  "record_lifts r = sv_supersedesEventId (jr_event r)"

definition isMergeCopy :: "SuppressionJournalRecord \<Rightarrow> bool" where
  "isMergeCopy r \<longleftrightarrow> isMergeCopyId (record_id r)"

definition byRecordedTime :: "SuppressionJournalRecord \<Rightarrow> instant \<times> string" where
  "byRecordedTime r = event_order (jr_event r)"

text \<open>The \<open>Map\<close> of missing records, in the order they were added; its size of each report.\<close>
fun collect_missing :: "uuid \<Rightarrow> SuppressionEventRow list \<Rightarrow> SuppressionJournalRecord list \<Rightarrow>
    SuppressionJournalRecord list \<times> nat \<times> nat \<Rightarrow> SuppressionJournalRecord list \<times> nat \<times> nat" where
  "collect_missing workspaceId events [] acc = acc"
| "collect_missing workspaceId events (r # rs) (missing, present, foreign) =
     collect_missing workspaceId events rs
       (if jr_workspaceId r \<noteq> workspaceId then (missing, present, Suc foreign) else
        if record_id r \<in> set (map record_id missing) then (missing, present, foreign) else
        if readSuppressionEvent events (record_id r) \<noteq> None then (missing, Suc present, foreign) else
        (missing @ [r], present, foreign))"

definition record_of :: "SuppressionJournalRecord list \<Rightarrow> string \<Rightarrow> SuppressionJournalRecord option" where
  "record_of missing k = find (\<lambda>r. record_id r = k) missing"

definition drop_record :: "SuppressionJournalRecord \<Rightarrow> SuppressionJournalRecord list \<Rightarrow> SuppressionJournalRecord list" where
  "drop_record r missing = filter (\<lambda>x. record_id x \<noteq> record_id r) missing"

text \<open>A correction that is a claim, as it was live.\<close>
definition is_claim :: "SuppressionJournalRecord \<Rightarrow> bool" where
  "is_claim r \<longleftrightarrow> sv_source (jr_event r) = ''mistaken_entry_correction'' \<and> record_lifts r \<noteq> None \<and> \<not> isMergeCopy r"

definition claim_lost :: "SuppressionDb \<Rightarrow> SuppressionJournalRecord list \<Rightarrow> string \<Rightarrow> bool" where
  "claim_lost db missing k = (case readFinalization db k of
     Some f \<Rightarrow> fz_outcome f = Finalized
   | None \<Rightarrow> (case record_of missing k of
       None \<Rightarrow> False
     | Some original \<Rightarrow> sv_source (jr_event original) \<in> set TERMINAL_SOURCES))"

text \<open>Validity, over a snapshot of the missing records: the rest, the unmarked releases and the
  corrections that lost.\<close>
fun check_validity :: "SuppressionDb \<Rightarrow> SuppressionJournalRecord list \<Rightarrow>
    SuppressionJournalRecord list \<times> string list \<times> string list \<Rightarrow> SuppressionJournalRecord list \<times> string list \<times> string list" where
  "check_validity db [] acc = acc"
| "check_validity db (r # rs) (missing, unverified, stale) = check_validity db rs (case record_lifts r of
     None \<Rightarrow> (missing, unverified, stale)
   | Some k \<Rightarrow>
       if \<not> jr_committed r then (drop_record r missing, unverified @ [record_id r], stale) else
       if sv_source (jr_event r) \<noteq> ''mistaken_entry_correction'' \<or> isMergeCopy r then (missing, unverified, stale) else
       if claim_lost db missing k then (drop_record r missing, unverified, stale @ [record_id r]) else
       (missing, unverified, stale))"

text \<open>The superseded ids in the order of the \<open>Map\<close>.\<close>
fun lifted_ids :: "SuppressionJournalRecord list \<Rightarrow> string list \<Rightarrow> string list" where
  "lifted_ids [] seen = seen"
| "lifted_ids (r # rs) seen = lifted_ids rs (case record_lifts r of
     None \<Rightarrow> seen | Some k \<Rightarrow> if k \<in> set seen then seen else seen @ [k])"

text \<open>The losers among the rivals of an event.\<close>
definition rival_losers :: "SuppressionEventRow list \<Rightarrow> SuppressionJournalRecord list \<Rightarrow> string \<Rightarrow> SuppressionJournalRecord list" where
  "rival_losers events missing k =
     (let ordered = sort_key byRecordedTime (filter (\<lambda>r. record_lifts r = Some k) missing) in
      if alreadySuperseded events k then ordered else drop 1 ordered)"

definition choose_lifts :: "SuppressionEventRow list \<Rightarrow> SuppressionJournalRecord list \<Rightarrow>
    SuppressionJournalRecord list \<times> string list" where
  "choose_lifts events missing =
     (let losers = concat (map (rival_losers events missing) (lifted_ids missing [])) in
      (filter (\<lambda>r. record_id r \<notin> record_id ` set losers) missing, map record_id losers))"

section \<open>The order\<close>

record PlaceState =
  pl_placed :: "string list"
  pl_ordered :: "SuppressionJournalRecord list"
  pl_orphans :: "string list"

text \<open>An original before what supersedes it.  The fuel bounds the chain; a journal whose records
  supersede each other in a circle overflows the stack.\<close>
fun place :: "nat \<Rightarrow> SuppressionEventRow list \<Rightarrow> SuppressionJournalRecord list \<Rightarrow> SuppressionJournalRecord \<Rightarrow> PlaceState \<Rightarrow>
    (bool \<times> PlaceState) option" where
  "place fuel events missing r s =
     (if record_id r \<in> set (pl_placed s) then Some (True, s) else
      if fuel = 0 then None else
      let put = (\<lambda>s. Some (True, s\<lparr> pl_placed := record_id r # pl_placed s, pl_ordered := pl_ordered s @ [r] \<rparr>));
          orphan = (\<lambda>s. Some (False, s\<lparr> pl_orphans := pl_orphans s @ [record_id r] \<rparr>)) in
      case record_lifts r of
        None \<Rightarrow> put s
      | Some k \<Rightarrow> (case record_of missing k of
          Some original \<Rightarrow> (case place (fuel - 1) events missing original s of
             None \<Rightarrow> None
           | Some (ok, s1) \<Rightarrow> if ok then put s1 else orphan s1)
        | None \<Rightarrow> if readSuppressionEvent events k \<noteq> None then put s else orphan s))"

fun place_all :: "nat \<Rightarrow> SuppressionEventRow list \<Rightarrow> SuppressionJournalRecord list \<Rightarrow> SuppressionJournalRecord list \<Rightarrow> PlaceState \<Rightarrow>
    PlaceState option" where
  "place_all fuel events missing [] s = Some s"
| "place_all fuel events missing (r # rs) s =
     (if record_id r \<in> set (pl_placed s) \<or> record_id r \<in> set (pl_orphans s) then place_all fuel events missing rs s else
      case place fuel events missing r s of
        None \<Rightarrow> None
      | Some (_, s1) \<Rightarrow> place_all fuel events missing rs s1)"

definition correctedBy :: "SuppressionJournalRecord list \<Rightarrow> string \<Rightarrow> bool" where
  "correctedBy ordered k \<longleftrightarrow> list_ex (\<lambda>r. is_claim r \<and> record_lifts r = Some k) ordered"

section \<open>Applying\<close>

text \<open>The rest of a record's transaction once its row is there.  \<open>draw\<close> gives the ids its
  statements draw.\<close>
definition apply_stop :: "StopEnv \<Rightarrow> instant \<Rightarrow> (string \<Rightarrow> StopDraw) \<Rightarrow> bool \<Rightarrow> SuppressionJournalRecord \<Rightarrow>
    SuppressionDb \<times> JournalReplayReport \<Rightarrow> SuppressionError + (SuppressionDb \<times> JournalReplayReport)" where
  "apply_stop env now draw corrected r acc = (case acc of (db, report) \<Rightarrow>
     (let e = jr_event r; deadline = correction_deadline e in
      if sv_source e \<in> set TERMINAL_SOURCES \<or> deadline \<le> now then
        if corrected then Inr (db, report) else
        and_then (claimFinalization now (sv_eventId e) Finalized None None db) (\<lambda>(db1, _).
          Inr (db1, report\<lparr> rr_finalized := Suc (rr_finalized report) \<rparr>))
      else
        let holdFirm = (if sv_scope e = ''firm'' then Some (sv_canonicalKey e) else case_option None id (jr_firmId r));
            report1 = (if sv_scope e = ''handle'' \<and> jr_firmId r = None
              then report\<lparr> rr_unreconstructedHolds := rr_unreconstructedHolds report @ [sv_eventId e] \<rparr> else report) in
        and_then (open_window env ((draw (sv_eventId e))\<lparr> dw_now := now \<rparr>) holdFirm e deadline db) (\<lambda>(db1, _).
          Inr (db1, report1\<lparr> rr_windowsReopened := Suc (rr_windowsReopened report1) \<rparr>))))"

definition apply_row :: "StopEnv \<Rightarrow> instant \<Rightarrow> (string \<Rightarrow> StopDraw) \<Rightarrow> bool \<Rightarrow> SuppressionJournalRecord \<Rightarrow>
    SuppressionDb \<times> JournalReplayReport \<Rightarrow> SuppressionError + (SuppressionDb \<times> JournalReplayReport)" where
  "apply_row env now draw corrected r acc = (case acc of (db, report) \<Rightarrow>
     and_then (event_step (insert_event (jr_event r) (su_events db))) (\<lambda>events.
       let db1 = db\<lparr> su_events := events \<rparr>; report1 = report\<lparr> rr_inserted := Suc (rr_inserted report) \<rparr> in
       if isMergeCopy r then Inr (db1, report1) else
       case record_lifts r of
         Some k \<Rightarrow>
           if sv_source (jr_event r) \<in> set SUPERSESSION_SOURCES then
             and_then (release_review now k db1) (\<lambda>(db2, _).
               Inr (db2, report1\<lparr> rr_released := Suc (rr_released report1) \<rparr>))
           else apply_stop env now draw corrected r (db1, report1)
       | None \<Rightarrow> apply_stop env now draw corrected r (db1, report1)))"

definition apply_record :: "StopEnv \<Rightarrow> instant \<Rightarrow> (string \<Rightarrow> StopDraw) \<Rightarrow> bool \<Rightarrow> SuppressionJournalRecord \<Rightarrow>
    SuppressionDb \<times> JournalReplayReport \<Rightarrow> SuppressionError + (SuppressionDb \<times> JournalReplayReport)" where
  "apply_record env now draw corrected r acc = (case acc of (db, report) \<Rightarrow>
     if is_claim r then
       and_then (claimFinalization now (the (record_lifts r)) Corrected (Some (record_id r)) (sv_actorUserId (jr_event r)) db)
         (\<lambda>(db1, won, outcome).
         if \<not> won \<and> outcome \<noteq> Corrected
         then Inr (db1, report\<lparr> rr_staleCorrections := rr_staleCorrections report @ [record_id r] \<rparr>)
         else apply_row env now draw corrected r (db1, report))
     else apply_row env now draw corrected r (db, report))"

fun apply_all :: "StopEnv \<Rightarrow> instant \<Rightarrow> (string \<Rightarrow> StopDraw) \<Rightarrow> (string \<Rightarrow> bool) \<Rightarrow> SuppressionJournalRecord list \<Rightarrow>
    SuppressionDb \<times> JournalReplayReport \<Rightarrow> SuppressionError + (SuppressionDb \<times> JournalReplayReport)" where
  "apply_all env now draw corrected [] acc = Inr acc"
| "apply_all env now draw corrected (r # rs) acc =
     and_then (apply_record env now draw (corrected (record_id r)) r acc) (apply_all env now draw corrected rs)"

definition replaySuppressionJournal :: "StopEnv \<Rightarrow> instant \<Rightarrow> (string \<Rightarrow> StopDraw) \<Rightarrow> SuppressionJournalRecord list \<Rightarrow>
    SuppressionDb \<Rightarrow> SuppressionError + (SuppressionDb \<times> JournalReplayReport)" where
  "replaySuppressionJournal env now draw records db =
     (let (missing, present, foreign) = collect_missing (st_workspaceId env) (su_events db) records ([], 0, 0);
          (valid, unverified, stale) = check_validity db missing (missing, [], []);
          (chosen, competing) = choose_lifts (su_events db) valid in
      case place_all (Suc (length chosen)) (su_events db) chosen (sort_key byRecordedTime chosen)
          \<lparr> pl_placed = [], pl_ordered = [], pl_orphans = [] \<rparr> of
        None \<Rightarrow> Inl Stop_fuel
      | Some s \<Rightarrow> apply_all env now draw (correctedBy (pl_ordered s)) (pl_ordered s)
          (db, \<lparr> rr_inserted = 0, rr_alreadyPresent = present, rr_foreign = foreign, rr_finalized = 0, rr_windowsReopened = 0,
             rr_released = 0, rr_competingSupersessions = competing, rr_orphanSupersessions = pl_orphans s,
             rr_staleCorrections = stale, rr_unreconstructedHolds = [], rr_unverifiedLegacyReleases = unverified \<rparr>))"

end
