(* ===== verification/SuppressionJournal.thy ===== *)
theory SuppressionJournal
  imports SuppressionProperties SuppressionReplay
begin

text \<open>
  The journal of the stops (\<open>suppression/journal.ts\<close>, \<open>events.ts\<close>, \<open>crm/merges.ts\<close>): every stop
  that a command leaves in the table is journalled before it is written, every release only
  after its transaction committed.
\<close>

section \<open>The journal\<close>

definition journal_inv :: "StopEnv \<Rightarrow> StopWorld \<Rightarrow> bool" where
  "journal_inv env w \<longleftrightarrow>
     (\<forall>e\<in>set (su_events (fst w)). sv_supersedesEventId e = None \<longrightarrow> e \<in> jr_event ` set (snd w)) \<and>
     (\<forall>r\<in>set (snd w). sv_supersedesEventId (jr_event r) \<noteq> None \<longrightarrow> jr_committed r \<and> jr_event r \<in> set (su_events (fst w))) \<and>
     (\<forall>r\<in>set (snd w). jr_workspaceId r = st_workspaceId env)"

lemma record_of_simps [simp]: "jr_event (journalRecordOf env e) = e" "\<not> jr_committed (journalRecordOf env e)"
  "jr_workspaceId (journalRecordOf env e) = st_workspaceId env"
  by (simp_all add: journalRecordOf_def)

lemma committed_lifts:
  "r \<in> set (journalCommittedLifts answers lifts journal) \<Longrightarrow> r \<in> set journal \<or> jr_committed r \<and> jr_event r \<in> jr_event ` set lifts \<and>
     jr_workspaceId r \<in> jr_workspaceId ` set lifts"
  by (auto simp: journalCommittedLifts_def dest!: set_zip_leftD)

lemma journal_kept: "set journal \<subseteq> set (journalCommittedLifts answers lifts journal)"
  by (auto simp: journalCommittedLifts_def)

lemma journal_invD:
  assumes "journal_inv env (db, journal)"
  shows "e \<in> set (su_events db) \<Longrightarrow> sv_supersedesEventId e = None \<Longrightarrow> e \<in> jr_event ` set journal"
    "r \<in> set journal \<Longrightarrow> sv_supersedesEventId (jr_event r) \<noteq> None \<Longrightarrow> jr_committed r \<and> jr_event r \<in> set (su_events db)"
    "r \<in> set journal \<Longrightarrow> jr_workspaceId r = st_workspaceId env"
  using assms by (simp_all add: journal_inv_def)

text \<open>Rows that supersede are added, and their releases journalled once they are.\<close>
lemma lifted_journal:
  assumes "journal_inv env (db, journal)" "set (su_events db) \<subseteq> set (su_events db')"
    and "\<And>e. e \<in> set (su_events db') \<Longrightarrow> sv_supersedesEventId e = None \<Longrightarrow> e \<in> set (su_events db)"
    and "\<And>r. r \<in> set lifts \<Longrightarrow> jr_event r \<in> set (su_events db') \<and> jr_workspaceId r = st_workspaceId env"
  shows "journal_inv env (db', journalCommittedLifts answers lifts journal)"
proof -
  have "e \<in> jr_event ` set (journalCommittedLifts answers lifts journal)"
    if "e \<in> set (su_events db')" "sv_supersedesEventId e = None" for e
    using journal_invD(1) [OF assms(1) assms(3) [OF that] that(2)] journal_kept by blast
  moreover have "jr_committed r \<and> jr_event r \<in> set (su_events db')"
    if "r \<in> set (journalCommittedLifts answers lifts journal)" "sv_supersedesEventId (jr_event r) \<noteq> None" for r
    using committed_lifts [OF that(1)]
  proof
    assume "r \<in> set journal"
    from journal_invD(2) [OF assms(1) this that(2)] show ?thesis using assms(2) by blast
  next
    assume "jr_committed r \<and> jr_event r \<in> jr_event ` set lifts \<and> jr_workspaceId r \<in> jr_workspaceId ` set lifts"
    then show ?thesis using assms(4) by auto
  qed
  moreover have "jr_workspaceId r = st_workspaceId env" if "r \<in> set (journalCommittedLifts answers lifts journal)" for r
    using committed_lifts [OF that] journal_invD(3) [OF assms(1)] assms(4) by auto
  ultimately show ?thesis by (simp add: journal_inv_def)
qed

text \<open>A journal that is only given stops.\<close>
lemma stops_journal:
  assumes "journal_inv env (db, journal)" "set journal \<subseteq> set journal'" "set (su_events db) \<subseteq> set (su_events db')"
    and "\<And>r. r \<in> set journal' \<Longrightarrow> r \<in> set journal \<or> sv_supersedesEventId (jr_event r) = None \<and> jr_workspaceId r = st_workspaceId env"
    and "\<And>e. e \<in> set (su_events db') \<Longrightarrow> sv_supersedesEventId e = None \<Longrightarrow> e \<in> set (su_events db) \<or> e \<in> jr_event ` set journal'"
  shows "journal_inv env (db', journal')"
proof -
  have "e \<in> jr_event ` set journal'" if "e \<in> set (su_events db')" "sv_supersedesEventId e = None" for e
    using assms(5) [OF that] journal_invD(1) [OF assms(1) _ that(2)] assms(2) by blast
  moreover have "jr_committed r \<and> jr_event r \<in> set (su_events db')"
    if "r \<in> set journal'" "sv_supersedesEventId (jr_event r) \<noteq> None" for r
    using assms(4) [OF that(1)] journal_invD(2) [OF assms(1) _ that(2)] that(2) assms(3) by blast
  moreover have "jr_workspaceId r = st_workspaceId env" if "r \<in> set journal'" for r
    using assms(4) [OF that] journal_invD(3) [OF assms(1)] by blast
  ultimately show ?thesis by (simp add: journal_inv_def)
qed

section \<open>Each command\<close>

lemma record_journal:
  assumes "recordSuppression env dw actor input db journal = (res, j)"
  shows "j = journal \<or> (\<exists>r. j = journal @ [r] \<and> sv_supersedesEventId (jr_event r) = None \<and> jr_workspaceId r = st_workspaceId env)"
  using assms by (auto simp: recordSuppression_def Let_def new_stop_simps split: if_split_asm sum.split_asm option.split_asm)

lemma record_journalled:
  assumes "recordSuppression env dw actor input db journal = (Inr (db', r), j)" "e \<in> set (su_events db')"
  shows "e \<in> set (su_events db) \<or> e \<in> jr_event ` set j"
  using assms(1)
proof (cases rule: recordD)
  case (2 key out)
  then show ?thesis using assms(2) insert_eventD(1) [OF write_stopD(1) [OF 2(3)]] by auto
qed (use assms(2) in simp)

lemma record_keeps_journal:
  assumes "journal_inv env (db, journal)"
  shows "journal_inv env (stop_act env (Act_stop dw actor input) (db, journal))"
proof (cases "recordSuppression env dw actor input db journal")
  case (Pair res j)
  note kept = record_journal [OF Pair]
  show ?thesis
  proof (cases res)
    case (Inl err)
    have "journal_inv env (db, j)" by (rule stops_journal [OF assms]) (use kept in auto)
    then show ?thesis using Pair Inl by simp
  next
    case (Inr y)
    obtain db' r where y: "y = (db', r)" by (cases y)
    note run = Pair [unfolded Inr y]
    have grown: "set (su_events db) \<subseteq> set (su_events db')" using run
      by (cases rule: recordD) (auto dest!: write_stopD(1) insert_eventD(1))
    have "journal_inv env (db', j)" by (rule stops_journal [OF assms _ grown]) (use kept record_journalled [OF run] in auto)
    then show ?thesis using Pair Inr y by simp
  qed
qed

lemma grows_lift_sup: "grows (lift_row osrc src) a b \<Longrightarrow> e \<in> set b \<Longrightarrow> sv_supersedesEventId e = None \<Longrightarrow> e \<in> set a"
  by (auto dest!: grows_rows simp: lift_row_def)

lemma correction_keeps_journal:
  assumes "suppression_inv db" "journal_inv env (db, journal)"
  shows "journal_inv env (stop_act env (Act_correct now actor k c answers) (db, journal))"
proof (cases "recordCorrection env now actor k c db")
  case (Inr y)
  obtain db' r where y: "y = (db', r)" by (cases y)
  show ?thesis using assms(1) Inr [unfolded y]
  proof (cases rule: correction_steps)
    case 1
    obtain refusal where "r = Su_refused refusal" using 1(2) by (cases r) blast+
    then show ?thesis using assms(2) Inr y 1(1) by simp
  next
    case (2 u role original lift db1 f released out)
    obtain copied where copied: "su_events db' = su_events db1 @ copied"
      "co_journalRecords out = journalRecordOf env lift # map (journalRecordOf env) copied" using 2(17) by blast
    have db1: "su_events db1 = su_events db @ [lift]" "sv_supersedesEventId lift \<noteq> None"
      using insert_eventD(1) [OF 2(6)] by (simp_all add: 2(4))
    have "journal_inv env (db', journalCommittedLifts answers (co_journalRecords out) journal)"
    proof (rule lifted_journal [OF assms(2)])
      fix e assume e: "e \<in> set (su_events db')" "sv_supersedesEventId e = None"
      then show "e \<in> set (su_events db)" using grows_lift_sup [OF 2(8) e] db1 by auto
    qed (use copied db1 in auto)
    then show ?thesis using Inr y 2(15) by simp
  qed
qed (use assms(2) in simp)

lemma supersede_keeps_journal:
  assumes "suppression_inv db" "journal_inv env (db, journal)"
  shows "journal_inv env (stop_act env (Act_supersede now actor k reason c answers) (db, journal))"
proof (cases "recordAdminSupersession env now actor k reason c db")
  case (Inr y)
  obtain db' r where y: "y = (db', r)" by (cases y)
  show ?thesis using assms(1) Inr [unfolded y]
  proof (cases rule: admin_steps)
    case 1
    obtain refusal where "r = Su_refused refusal" using 1(2) by (cases r) blast+
    then show ?thesis using assms(2) Inr y 1(1) by simp
  next
    case (2 u original lift db1 released records)
    obtain copied where copied: "su_events db' = su_events db1 @ copied"
      "records = journalRecordOf env lift # map (journalRecordOf env) copied" using 2(13) by blast
    have db1: "su_events db1 = su_events db @ [lift]" "sv_supersedesEventId lift \<noteq> None"
      using insert_eventD(1) [OF 2(5)] by (simp_all add: 2(4))
    have "journal_inv env (db', journalCommittedLifts answers records journal)"
    proof (rule lifted_journal [OF assms(2)])
      fix e assume e: "e \<in> set (su_events db')" "sv_supersedesEventId e = None"
      then show "e \<in> set (su_events db)" using grows_lift_sup [OF 2(7) e] db1 by auto
    qed (use copied db1 in auto)
    then show ?thesis using Inr y 2(12) by simp
  qed
qed (use assms(2) in simp)

section \<open>The merge\<close>

text \<open>What the copying carries, against the journal \<open>j0\<close> it began with.\<close>
definition carry_ok :: "StopEnv \<Rightarrow> MergeCarry \<Rightarrow> bool" where
  "carry_ok env carry \<longleftrightarrow>
     (\<forall>e\<in>set (mc_events carry). sv_supersedesEventId e = None \<longrightarrow> e \<in> jr_event ` set (mc_journal carry)) \<and>
     (\<forall>r\<in>set (mc_releases carry). jr_event r \<in> set (mc_events carry) \<and> jr_workspaceId r = st_workspaceId env)"

definition stops_only :: "StopEnv \<Rightarrow> SuppressionJournalRecord list \<Rightarrow> SuppressionJournalRecord list \<Rightarrow> bool" where
  "stops_only env j0 j \<longleftrightarrow> (\<exists>new. j = j0 @ new \<and> list_all (\<lambda>r. sv_supersedesEventId (jr_event r) = None \<and> jr_workspaceId r = st_workspaceId env) new)"

lemma stops_only_simps [simp]: "stops_only env j j"
  "sv_supersedesEventId (jr_event r) = None \<Longrightarrow> jr_workspaceId r = st_workspaceId env \<Longrightarrow> stops_only env j (j @ [r])"
  by (simp_all add: stops_only_def)

lemma stops_only_trans: "stops_only env a b \<Longrightarrow> stops_only env b c \<Longrightarrow> stops_only env a c"
  by (auto simp: stops_only_def)

definition copied_ok :: "StopEnv \<Rightarrow> MergeCarry \<Rightarrow> SuppressionError + MergeCarry \<Rightarrow> SuppressionJournalRecord list \<Rightarrow> bool" where
  "copied_ok env carry res j \<longleftrightarrow> (case res of Inl _ \<Rightarrow> True
     | Inr carry' \<Rightarrow> j = mc_journal carry' \<and> (carry_ok env carry \<longrightarrow> carry_ok env carry'))"

lemma copied_ok_simps [simp]: "copied_ok env carry (Inl e) j"
  "copied_ok env carry (Inr carry') j \<longleftrightarrow> j = mc_journal carry' \<and> (carry_ok env carry \<longrightarrow> carry_ok env carry')"
  by (simp_all add: copied_ok_def)

lemma write_copy_journal:
  assumes "write_copy env ok now target cmd supersedes k carry = (res, j)"
  shows "stops_only env (mc_journal carry) j \<and> copied_ok env carry res j"
  using assms
  by (auto simp: write_copy_def Let_def merge_copy_def carry_ok_def event_step_def and_then_Inr_iff
      split: if_split_asm option.split_asm sum.split_asm dest!: insert_eventD(1))

lemma copy_event_journal:
  "copy_event fuel env ok now target cmd onSource k carry = (res, j) \<Longrightarrow>
   stops_only env (mc_journal carry) j \<and> copied_ok env carry res j"
proof (induction fuel env ok now target cmd onSource k carry arbitrary: res j rule: copy_event.induct)
  case (1 fuel env ok now target cmd onSource k carry)
  let ?carry1 = "carry\<lparr> mc_done := k # mc_done carry \<rparr>"
  have same: "carry_ok env ?carry1 = carry_ok env carry" by (simp add: carry_ok_def)
  show ?case
  proof (cases "k \<in> set (mc_done carry) \<or> fuel = 0")
    case True
    then show ?thesis using "1.prems" by (auto split: if_split_asm)
  next
    case False
    then have go: "k \<notin> set (mc_done carry)" "fuel \<noteq> 0" by simp_all
    consider (own) "write_copy env (ok (mergeCopyId k target)) now target cmd None k ?carry1 = (res, j)"
      | (skip) "res = Inr ?carry1" "j = mc_journal carry"
      | (lift) s where "map_of onSource k = Some (Some s)" "map_of onSource s \<noteq> None"
      using "1.prems" go by (auto simp: Let_def split: option.split_asm if_split_asm)
    then show ?thesis
    proof cases
      case own
      show ?thesis using write_copy_journal [OF own] same by (cases res) auto
    next
      case skip
      then show ?thesis by (auto simp: same)
    next
      case (lift s)
      obtain res1 j1 where first: "copy_event (fuel - 1) env ok now target cmd onSource s ?carry1 = (res1, j1)"
        by (cases "copy_event (fuel - 1) env ok now target cmd onSource s ?carry1")
      note ih = "1.IH" [OF go refl refl lift(1) refl lift(2) first]
      show ?thesis
      proof (cases res1)
        case (Inl e)
        then have "res = Inl e \<and> j = j1" using "1.prems" go lift first by (simp add: Let_def)
        then show ?thesis using ih by simp
      next
        case (Inr carry2)
        then have second: "write_copy env (ok (mergeCopyId k target)) now target cmd (Some s) k carry2 = (res, j)"
          using "1.prems" go lift first by (simp add: Let_def)
        have here: "stops_only env (mc_journal carry) (mc_journal carry2)" "carry_ok env carry \<longrightarrow> carry_ok env carry2"
          using ih Inr same by auto
        note there = write_copy_journal [OF second]
        have "stops_only env (mc_journal carry) j" using stops_only_trans [OF here(1)] there by blast
        moreover have "copied_ok env carry res j" using there here(2) by (cases res) simp_all
        ultimately show ?thesis by blast
      qed
    qed
  qed
qed

lemma copy_all_journal:
  "copy_all env ok now target cmd onSource ks carry = (res, j) \<Longrightarrow> stops_only env (mc_journal carry) j \<and> copied_ok env carry res j"
proof (induction ks arbitrary: carry)
  case (Cons k ks)
  obtain res1 j1 where first: "copy_event (Suc (length onSource)) env ok now target cmd onSource k carry = (res1, j1)"
    by (cases "copy_event (Suc (length onSource)) env ok now target cmd onSource k carry")
  note here = copy_event_journal [OF first]
  show ?case
  proof (cases res1)
    case (Inl e)
    then have "res = Inl e \<and> j = j1" using Cons.prems first by (simp del: copy_event.simps)
    then show ?thesis using here by simp
  next
    case (Inr carry1)
    then have rest: "copy_all env ok now target cmd onSource ks carry1 = (res, j)"
      using Cons.prems first by (simp del: copy_event.simps)
    note there = Cons.IH [OF rest]
    have "stops_only env (mc_journal carry) (mc_journal carry1)" using here Inr by auto
    then have "stops_only env (mc_journal carry) j" using there by (blast intro: stops_only_trans)
    moreover have "copied_ok env carry res j" using there here Inr by (cases res) simp_all
    ultimately show ?thesis by blast
  qed
qed auto

lemma stops_only_set:
  assumes "stops_only env j0 j"
  shows "set j0 \<subseteq> set j" "r \<in> set j \<Longrightarrow> r \<in> set j0 \<or> sv_supersedesEventId (jr_event r) = None \<and> jr_workspaceId r = st_workspaceId env"
  using assms by (auto simp: stops_only_def list_all_iff)

lemma merge_keeps_journal:
  assumes "suppression_inv db" "journal_inv env (db, journal)"
  shows "journal_inv env (stop_act env (Act_merge ok now source target c answers) (db, journal))"
proof -
  let ?rows = "sort_key event_order (filter (\<lambda>e. sv_scope e = ''firm'' \<and> sv_canonicalKey e = source) (su_events db))"
  let ?map = "map (\<lambda>e. (sv_eventId e, sv_supersedesEventId e)) ?rows"
  let ?carry = "\<lparr> mc_done = [], mc_events = su_events db, mc_journal = journal, mc_releases = [] \<rparr>"
  obtain res j where run: "copy_all env ok now target c ?map (map fst ?map) ?carry = (res, j)"
    by (cases "copy_all env ok now target c ?map (map fst ?map) ?carry")
  note kept = copy_all_journal [OF run]
  have stops: "stops_only env journal j" using kept by simp
  note j = stops_only_set [OF stops]
  have "carry_ok env ?carry" using journal_invD(1) [OF assms(2)] by (simp add: carry_ok_def)
  show ?thesis
  proof (cases res)
    case (Inl err)
    have "preserveFirmSuppressions env ok now source target c db journal = (Inl err, j)"
      using run Inl by (simp add: preserveFirmSuppressions_def Let_def)
    moreover have "journal_inv env (db, j)" by (rule stops_journal [OF assms(2) j(1)]) (use j(2) in auto)
    ultimately show ?thesis by simp
  next
    case (Inr carry')
    let ?db = "db\<lparr> su_events := mc_events carry' \<rparr>"
    have pres: "preserveFirmSuppressions env ok now source target c db journal = (Inr (?db, mc_releases carry'), j)"
      using run Inr by (simp add: preserveFirmSuppressions_def Let_def)
    have ok: "carry_ok env carry'" "j = mc_journal carry'" using kept Inr \<open>carry_ok env ?carry\<close> by simp_all
    have sub: "set (su_events db) \<subseteq> set (su_events ?db)"
      by (rule grows_subset [OF preserve_grows(1) [OF pres inv_parts(1) [OF assms(1)]]])
    have "journal_inv env (?db, j)"
      by (rule stops_journal [OF assms(2) j(1) sub j(2)]) (use ok in \<open>auto simp: carry_ok_def\<close>)
    then have "journal_inv env (?db, journalCommittedLifts answers (mc_releases carry') j)"
      by (rule lifted_journal) (use ok(1) in \<open>auto simp: carry_ok_def\<close>)
    then show ?thesis using pres by simp
  qed
qed

section \<open>The journal is safe\<close>

lemma stop_act_journal:
  assumes "suppression_inv (fst w)" "journal_inv env w"
  shows "journal_inv env (stop_act env a w)"
proof (cases w)
  case (Pair db journal)
  note here = assms [unfolded Pair, simplified]
  show ?thesis
  proof (cases a)
    case (Act_finalize now asked k)
    have "journal_inv env (db', journal)" if "finalizeManualSuppression now asked k db = Inr (db', r)" for db' r
    proof -
      have "su_events db' = su_events db" using that by (cases rule: finalizeD) simp_all
      then show ?thesis using here(2) by (simp add: journal_inv_def)
    qed
    then show ?thesis using Pair Act_finalize here(2) by (auto split: sum.splits)
  next
    case (Act_world firm_rows hold_rows queue)
    then show ?thesis using Pair here(2) by (simp add: journal_inv_def)
  qed (simp_all only: Pair record_keeps_journal [OF here(2)] correction_keeps_journal [OF here] supersede_keeps_journal [OF here]
      merge_keeps_journal [OF here])
qed

lemma stop_run_journal: "suppression_inv (fst w) \<Longrightarrow> journal_inv env w \<Longrightarrow> journal_inv env (stop_run env acts w)"
proof (induction acts arbitrary: w)
  case (Cons a acts)
  have "suppression_inv (fst (stop_act env a w))" using stop_act_inv [of "fst w" env a "snd w"] Cons.prems(1) by simp
  then show ?case using Cons.IH [of "stop_act env a w"] stop_act_journal [OF Cons.prems] by simp
qed simp

lemma reachable_journal: "journal_inv env (stop_run env acts (empty_stops firm_rows hold_rows queue, []))"
  by (rule stop_run_journal) (simp_all add: empty_stops_inv, simp add: journal_inv_def empty_stops_def)


end
