(* ===== verification/ReplayProperties.thy ===== *)
theory ReplayProperties
  imports SuppressionJournal
begin

text \<open>
  What a replay of the journal gives back after a restore (\<open>suppression/replay.ts\<close>): the passes
  lose no stop, the rows that come are the journal's, and a stop that stood when the database
  was lost stands again.  And an object's body reads back.
\<close>

section \<open>The passes\<close>

lemma collect_keeps:
  "collect_missing ws' t rs (m, p, f) = (m', p', f') \<Longrightarrow> distinct (map record_id m) \<Longrightarrow>
   distinct (map record_id m') \<and> set m \<subseteq> set m' \<and> set m' \<subseteq> set m \<union> set rs \<and>
   (\<forall>r\<in>set rs. jr_workspaceId r = ws' \<longrightarrow> readSuppressionEvent t (record_id r) = None \<longrightarrow> record_id r \<in> record_id ` set m')"
proof (induction rs arbitrary: m p f)
  case (Cons r rs)
  obtain m1 p1 f1 where step: "(if jr_workspaceId r \<noteq> ws' then (m, p, Suc f) else
        if record_id r \<in> set (map record_id m) then (m, p, f) else
        if readSuppressionEvent t (record_id r) \<noteq> None then (m, Suc p, f) else (m @ [r], p, f)) = (m1, p1, f1)"
    by (metis prod_cases3)
  have rest: "collect_missing ws' t rs (m1, p1, f1) = (m', p', f')" using Cons.prems(1) step by simp
  have m1: "distinct (map record_id m1)" "set m \<subseteq> set m1" "set m1 \<subseteq> insert r (set m)"
    "jr_workspaceId r = ws' \<Longrightarrow> readSuppressionEvent t (record_id r) = None \<Longrightarrow> record_id r \<in> record_id ` set m1"
    using step Cons.prems(2) by (auto split: if_split_asm)
  note ih = Cons.IH [OF rest m1(1)]
  have "record_id r \<in> record_id ` set m'" if "jr_workspaceId r = ws'" "readSuppressionEvent t (record_id r) = None"
    using m1(4) [OF that] ih by blast
  then show ?case using ih m1(2,3) by auto
qed simp

lemma same_record: "distinct (map record_id m) \<Longrightarrow> a \<in> set m \<Longrightarrow> b \<in> set m \<Longrightarrow> record_id a = record_id b \<Longrightarrow> a = b"
  by (auto simp: distinct_map inj_on_def)

lemma validity_keeps:
  "check_validity db rs (m, u, s) = (m', u', s') \<Longrightarrow> distinct (map record_id m0) \<Longrightarrow> set rs \<subseteq> set m0 \<Longrightarrow> set m \<subseteq> set m0 \<Longrightarrow>
   distinct (map record_id m) \<Longrightarrow>
   distinct (map record_id m') \<and> set m' \<subseteq> set m \<and> {r \<in> set m. record_lifts r = None} \<subseteq> set m' \<and>
   (\<forall>r\<in>set rs. r \<in> set m' \<longrightarrow> record_lifts r \<noteq> None \<longrightarrow> jr_committed r)"
proof (induction rs arbitrary: m u s)
  case (Cons r rs)
  obtain m1 u1 s1 where step: "(case record_lifts r of None \<Rightarrow> (m, u, s) | Some k \<Rightarrow>
       if \<not> jr_committed r then (drop_record r m, u @ [record_id r], s) else
       if sv_source (jr_event r) \<noteq> ''mistaken_entry_correction'' \<or> isMergeCopy r then (m, u, s) else
       if claim_lost db m k then (drop_record r m, u, s @ [record_id r]) else (m, u, s)) = (m1, u1, s1)"
    by (metis prod_cases3)
  have rest: "check_validity db rs (m1, u1, s1) = (m', u', s')" using Cons.prems(1) step by simp
  have m1: "m1 = m \<or> m1 = drop_record r m \<and> record_lifts r \<noteq> None"
    "record_lifts r \<noteq> None \<Longrightarrow> \<not> jr_committed r \<Longrightarrow> m1 = drop_record r m"
    using step by (auto split: option.split_asm if_split_asm)
  have kept: "r' \<in> set m1" if "r' \<in> set m" "record_lifts r' = None" for r'
    using m1(1)
  proof
    assume dropped: "m1 = drop_record r m \<and> record_lifts r \<noteq> None"
    have "record_id r' \<noteq> record_id r" using same_record [OF Cons.prems(2), of r' r] that dropped Cons.prems(3,4) by auto
    then show ?thesis using dropped that(1) by (simp add: drop_record_def)
  qed (use that in simp)
  have sub: "set m1 \<subseteq> set m" "distinct (map record_id m1)"
    using m1(1) Cons.prems(5) by (auto simp: drop_record_def distinct_map_filter)
  have "distinct (map record_id m') \<and> set m' \<subseteq> set m1 \<and> {r \<in> set m1. record_lifts r = None} \<subseteq> set m' \<and>
      (\<forall>r\<in>set rs. r \<in> set m' \<longrightarrow> record_lifts r \<noteq> None \<longrightarrow> jr_committed r)"
    using Cons.IH [OF rest Cons.prems(2)] Cons.prems(3,4) sub by auto
  moreover have "jr_committed r" if "r \<in> set m'" "record_lifts r \<noteq> None"
  proof (rule ccontr)
    assume "\<not> jr_committed r"
    then have "r \<notin> set m1" using m1(2) that(2) by (simp add: drop_record_def)
    then show False using calculation that(1) by blast
  qed
  ultimately show ?case using kept sub(1) by auto
qed simp

lemma choose_keeps:
  assumes "choose_lifts t m = (m', competing)" "distinct (map record_id m)"
  shows "distinct (map record_id m') \<and> set m' \<subseteq> set m \<and> {r \<in> set m. record_lifts r = None} \<subseteq> set m'"
proof -
  define losers where "losers = concat (map (rival_losers t m) (lifted_ids m []))"
  have m': "m' = filter (\<lambda>r. record_id r \<notin> record_id ` set losers) m"
    using assms(1) by (auto simp: choose_lifts_def losers_def Let_def)
  have "r \<in> set m \<and> record_lifts r = Some k" if "r \<in> set (rival_losers t m k)" for r k
    using that by (auto simp: rival_losers_def Let_def dest: in_set_dropD split: if_split_asm)
  then have losers: "r \<in> set m \<and> record_lifts r \<noteq> None" if "r \<in> set losers" for r using that by (fastforce simp: losers_def)
  have "r \<in> set m'" if "r \<in> set m" "record_lifts r = None" for r
  proof -
    have "record_id r \<notin> record_id ` set losers"
    proof
      assume "record_id r \<in> record_id ` set losers"
      then obtain x where x: "record_id r = record_id x" "x \<in> set losers" by (rule imageE)
      then have "x = r" using same_record [OF assms(2)] losers that(1) by metis
      then show False using losers [OF x(2)] that(2) by simp
    qed
    then show ?thesis using that(1) m' by simp
  qed
  then show ?thesis using assms(2) by (auto simp: m' distinct_map_filter)
qed

definition lifting_ids :: "SuppressionJournalRecord set \<Rightarrow> string set" where
  "lifting_ids m = record_id ` {r \<in> m. record_lifts r \<noteq> None}"

lemma lifting_ids_mem: "r \<in> m \<Longrightarrow> record_lifts r = Some k \<Longrightarrow> record_id r \<in> lifting_ids m"
  by (auto simp: lifting_ids_def)

lemma place_keeps:
  "place fuel t m r s = Some (ok, s') \<Longrightarrow> pl_placed s = rev (map record_id (pl_ordered s)) \<Longrightarrow>
   pl_placed s' = rev (map record_id (pl_ordered s')) \<and> set (pl_ordered s) \<subseteq> set (pl_ordered s') \<and>
   set (pl_ordered s') \<subseteq> set (pl_ordered s) \<union> insert r (set m) \<and>
   (record_lifts r = None \<longrightarrow> record_id r \<in> set (pl_placed s')) \<and>
   set (pl_orphans s') \<subseteq> set (pl_orphans s) \<union> lifting_ids (insert r (set m))"
proof (induction fuel t m r s arbitrary: ok s' rule: place.induct)
  case (1 fuel t m r s)
  show ?case
  proof (cases "record_id r \<in> set (pl_placed s) \<or> fuel = 0 \<or> record_lifts r = None")
    case True
    then show ?thesis using "1.prems" by (auto simp: Let_def split: if_split_asm)
  next
    case False
    then have go: "record_id r \<notin> set (pl_placed s)" "fuel \<noteq> 0" by simp_all
    obtain k where k: "record_lifts r = Some k" using False by blast
    show ?thesis
    proof (cases "record_of m k")
      case None
      then show ?thesis using "1.prems" go k by (auto simp: Let_def lifting_ids_mem split: if_split_asm)
    next
      case (Some original)
      obtain ok1 s1 where first: "place (fuel - 1) t m original s = Some (ok1, s1)"
        using "1.prems"(1) go k Some by (auto simp: Let_def split: option.split_asm)
      have original: "original \<in> set m" using Some by (simp add: record_of_def find_Some_iff) (metis nth_mem)
      note ih = "1.IH" [OF go refl refl k Some first "1.prems"(2)]
      have s': "pl_placed s' = record_id r # pl_placed s1 \<and> pl_ordered s' = pl_ordered s1 @ [r] \<and> pl_orphans s' = pl_orphans s1 \<or>
          pl_placed s' = pl_placed s1 \<and> pl_ordered s' = pl_ordered s1 \<and> pl_orphans s' = pl_orphans s1 @ [record_id r]"
        using "1.prems"(1) go k Some first by (auto simp: Let_def split: if_split_asm)
      have "lifting_ids (insert original (set m)) \<subseteq> lifting_ids (insert r (set m))"
        using original by (auto simp: lifting_ids_def)
      moreover have "record_id r \<in> lifting_ids (insert r (set m))" using k by (simp add: lifting_ids_mem)
      ultimately show ?thesis using s' ih original k by auto
    qed
  qed
qed

lemma place_all_keeps:
  "place_all fuel t m rs s = Some s' \<Longrightarrow> pl_placed s = rev (map record_id (pl_ordered s)) \<Longrightarrow> set rs \<subseteq> set m \<Longrightarrow>
   set (pl_orphans s) \<subseteq> lifting_ids (set m) \<Longrightarrow> distinct (map record_id m) \<Longrightarrow>
   pl_placed s' = rev (map record_id (pl_ordered s')) \<and> set (pl_ordered s) \<subseteq> set (pl_ordered s') \<and>
   set (pl_ordered s') \<subseteq> set (pl_ordered s) \<union> set m \<and>
   (\<forall>r\<in>set rs. record_lifts r = None \<longrightarrow> record_id r \<in> set (pl_placed s'))"
proof (induction rs arbitrary: s)
  case (Cons r rs)
  show ?case
  proof (cases "record_id r \<in> set (pl_placed s) \<or> record_id r \<in> set (pl_orphans s)")
    case True
    then have rest: "place_all fuel t m rs s = Some s'" using Cons.prems(1) by simp
    note ih = Cons.IH [OF rest Cons.prems(2) _ Cons.prems(4,5)]
    have "record_id r \<in> set (pl_placed s')" if none: "record_lifts r = None"
    proof -
      have "record_id r \<notin> set (pl_orphans s)"
      proof
        assume "record_id r \<in> set (pl_orphans s)"
        then have "record_id r \<in> record_id ` {x \<in> set m. record_lifts x \<noteq> None}" using Cons.prems(4)
          unfolding lifting_ids_def by blast
        then obtain x where x: "record_id r = record_id x" "x \<in> {x \<in> set m. record_lifts x \<noteq> None}" by (rule imageE)
        then have "r = x" using same_record [OF Cons.prems(5), of r x] Cons.prems(3) by simp
        then show False using x(2) none by simp
      qed
      then have "record_id r \<in> record_id ` set (pl_ordered s)" using True Cons.prems(2) by simp
      then show ?thesis using ih Cons.prems(3) by (simp add: subset_iff image_iff) blast
    qed
    then show ?thesis using ih Cons.prems(3) by auto
  next
    case False
    then obtain ok s1 where first: "place fuel t m r s = Some (ok, s1)" and rest: "place_all fuel t m rs s1 = Some s'"
      using Cons.prems(1) by (auto simp del: place.simps split: option.split_asm)
    note here = place_keeps [OF first Cons.prems(2)]
    have "insert r (set m) = set m" using Cons.prems(3) by auto
    then have s1: "pl_placed s1 = rev (map record_id (pl_ordered s1))" "set (pl_ordered s) \<subseteq> set (pl_ordered s1)"
      "set (pl_ordered s1) \<subseteq> set (pl_ordered s) \<union> set m" "record_lifts r = None \<Longrightarrow> record_id r \<in> set (pl_placed s1)"
      "set (pl_orphans s1) \<subseteq> lifting_ids (set m)"
      using here [unfolded \<open>insert r (set m) = set m\<close>] Cons.prems(4) by blast+
    note ih = Cons.IH [OF rest s1(1) _ s1(5) Cons.prems(5)]
    have "record_id r \<in> set (pl_placed s')" if "record_lifts r = None"
    proof -
      have "record_id r \<in> record_id ` set (pl_ordered s1)" using s1(4) [OF that] s1(1) by simp
      then show ?thesis using ih Cons.prems(3) by (simp add: subset_iff image_iff) blast
    qed
    then show ?thesis using ih s1(2,3) Cons.prems(3) by auto
  qed
qed simp

section \<open>The rows that come\<close>

lemma apply_stop_events:
  assumes "apply_stop env now draw corrected r (db, report) = Inr (db', report')"
  shows "su_events db' = su_events db"
  using assms
  by (auto simp: apply_stop_def Let_def open_window_def hold_step_def job_step_def dest: claimD(1)
      split: if_split_asm sum.split_asm option.split_asm elim!: and_thenE)

lemma apply_row_events:
  assumes "apply_row env now draw corrected r (db, report) = Inr (db', report')"
  shows "su_events db' = su_events db @ [jr_event r]"
proof -
  obtain events where ins: "insert_event (jr_event r) (su_events db) = Inr events"
    using assms by (auto simp: apply_row_def event_step_def Let_def split: sum.split_asm elim!: and_thenE)
  have "su_events db' = events" using assms ins
    by (auto simp: apply_row_def event_step_def Let_def dest: apply_stop_events release_review_keeps
        split: if_split_asm option.split_asm elim!: and_thenE)
  then show ?thesis using insert_eventD(1) [OF ins] by simp
qed

lemma apply_record_events:
  assumes "apply_record env now draw corrected r (db, report) = Inr (db', report')"
  shows "su_events db' = su_events db @ [jr_event r] \<or> su_events db' = su_events db \<and> record_lifts r \<noteq> None"
proof (cases "is_claim r")
  case True
  obtain db1 won outcome where claim: "claimFinalization now (the (record_lifts r)) Corrected (Some (record_id r))
      (sv_actorUserId (jr_event r)) db = Inr (db1, won, outcome)"
    and next': "(if \<not> won \<and> outcome \<noteq> Corrected
         then Inr (db1, report\<lparr> rr_staleCorrections := rr_staleCorrections report @ [record_id r] \<rparr>)
         else apply_row env now draw corrected r (db1, report)) = Inr (db', report')"
    using assms True by (auto simp: apply_record_def elim!: and_thenE)
  have "su_events db1 = su_events db" using claimD(1) [OF claim] .
  moreover have "record_lifts r \<noteq> None" using True by (simp add: is_claim_def)
  ultimately show ?thesis using next' by (auto dest: apply_row_events split: if_split_asm)
next
  case False
  then show ?thesis using assms by (auto simp: apply_record_def dest: apply_row_events)
qed

lemma apply_all_events:
  "apply_all env now draw corrected rs (db, report) = Inr (db', report') \<Longrightarrow>
   set (su_events db) \<subseteq> set (su_events db') \<and> set (su_events db') \<subseteq> set (su_events db) \<union> jr_event ` set rs \<and>
   (\<forall>r\<in>set rs. record_lifts r = None \<longrightarrow> jr_event r \<in> set (su_events db'))"
proof (induction rs arbitrary: db report)
  case (Cons r rs)
  obtain db1 report1 where first: "apply_record env now draw (corrected (record_id r)) r (db, report) = Inr (db1, report1)"
    and rest: "apply_all env now draw corrected rs (db1, report1) = Inr (db', report')"
    using Cons.prems by (auto elim!: and_thenE)
  show ?case using apply_record_events [OF first] Cons.IH [OF rest] by auto
qed simp

text \<open>What a replay that commits leaves.\<close>
lemma replayD:
  assumes "replaySuppressionJournal env now draw records db = Inr (db', report)"
  shows "set (su_events db) \<subseteq> set (su_events db')"
    and "e \<in> set (su_events db') \<Longrightarrow> e \<in> set (su_events db) \<or>
      (\<exists>r\<in>set records. e = jr_event r \<and> (record_lifts r = None \<or> jr_committed r))"
    and "r \<in> set records \<Longrightarrow> jr_workspaceId r = st_workspaceId env \<Longrightarrow> readSuppressionEvent (su_events db) (record_id r) = None \<Longrightarrow>
      \<exists>m\<in>set records. record_id m = record_id r \<and> (record_lifts m = None \<longrightarrow> jr_event m \<in> set (su_events db'))"
proof -
  obtain m p f where collect: "collect_missing (st_workspaceId env) (su_events db) records ([], 0, 0) = (m, p, f)" by (metis prod_cases3)
  obtain v u s where valid: "check_validity db m (m, [], []) = (v, u, s)" by (metis prod_cases3)
  obtain c competing where choose: "choose_lifts (su_events db) v = (c, competing)" by fastforce
  let ?s = "\<lparr> pl_placed = [], pl_ordered = [], pl_orphans = [] \<rparr>"
  obtain o' report0 where placed: "place_all (Suc (length c)) (su_events db) c (sort_key byRecordedTime c) ?s = Some o'"
    and run: "apply_all env now draw (correctedBy (pl_ordered o')) (pl_ordered o') (db, report0) = Inr (db', report)"
    using assms collect valid choose by (auto simp: replaySuppressionJournal_def Let_def split: option.split_asm)
  have m: "distinct (map record_id m)" "set m \<subseteq> set records"
    "\<forall>r\<in>set records. jr_workspaceId r = st_workspaceId env \<longrightarrow> readSuppressionEvent (su_events db) (record_id r) = None \<longrightarrow>
       record_id r \<in> record_id ` set m"
    using collect_keeps [OF collect] by simp_all
  have v: "distinct (map record_id v)" "set v \<subseteq> set m" "{r \<in> set m. record_lifts r = None} \<subseteq> set v"
    "\<forall>r\<in>set m. r \<in> set v \<longrightarrow> record_lifts r \<noteq> None \<longrightarrow> jr_committed r"
    using validity_keeps [OF valid m(1) _ _ m(1)] by simp_all
  have c: "distinct (map record_id c)" "set c \<subseteq> set v" "{r \<in> set v. record_lifts r = None} \<subseteq> set c"
    using choose_keeps [OF choose v(1)] by simp_all
  have o': "pl_placed o' = rev (map record_id (pl_ordered o'))" "set (pl_ordered o') \<subseteq> set c"
    "\<forall>r\<in>set c. record_lifts r = None \<longrightarrow> record_id r \<in> set (pl_placed o')"
    using place_all_keeps [OF placed _ _ _ c(1)] by auto
  have stops: "r \<in> set (pl_ordered o')" if "r \<in> set m" "record_lifts r = None" for r
  proof -
    have "r \<in> set c" using that v(3) c(3) by blast
    then have "record_id r \<in> record_id ` set (pl_ordered o')" using o'(1,3) that(2) by simp
    then obtain x where "record_id r = record_id x" "x \<in> set (pl_ordered o')" by (rule imageE)
    then show ?thesis using same_record [OF c(1), of r x] \<open>r \<in> set c\<close> o'(2) by auto
  qed
  note rows = apply_all_events [OF run]
  show "set (su_events db) \<subseteq> set (su_events db')" using rows by blast
  show "e \<in> set (su_events db) \<or> (\<exists>r\<in>set records. e = jr_event r \<and> (record_lifts r = None \<or> jr_committed r))"
    if "e \<in> set (su_events db')"
  proof -
    have "e \<in> set (su_events db) \<or> e \<in> jr_event ` set (pl_ordered o')" using rows that by blast
    moreover have "r \<in> set records \<and> (record_lifts r = None \<or> jr_committed r)" if "r \<in> set (pl_ordered o')" for r
      using that o'(2) c(2) v(2,4) m(2) by blast
    ultimately show ?thesis by blast
  qed
  show "\<exists>m\<in>set records. record_id m = record_id r \<and> (record_lifts m = None \<longrightarrow> jr_event m \<in> set (su_events db'))"
    if "r \<in> set records" "jr_workspaceId r = st_workspaceId env" "readSuppressionEvent (su_events db) (record_id r) = None"
  proof -
    have "record_id r \<in> record_id ` set m" using m(3) that by blast
    then obtain x where x: "record_id r = record_id x" "x \<in> set m" by (rule imageE)
    have "jr_event x \<in> set (su_events db')" if "record_lifts x = None" using rows stops [OF x(2) that] that by blast
    moreover have "x \<in> set records" using x(2) m(2) by blast
    ultimately show ?thesis using x(1) by metis
  qed
qed

section \<open>A restore loses no stop\<close>

text \<open>C6: A restore and a replay lose no stop.  The commands ran from the empty tables to the restore
  point, and on until the database was lost; its tables are back at the restore point, and the
  journal, every object of it, is replayed on them.  When the replay commits, every stop that
  stood when the database was lost stands again under its id, and the view stops its key and
  channel again.  Provided one id names one stop, as SHA-256 promises.\<close>
theorem replay_loses_no_stop:
  assumes "stop_run env past (empty_stops firm_rows hold_rows queue, []) = (db1, journal1)"
    and "stop_run env later (db1, journal1) = (db2, journal)"
    and "replaySuppressionJournal env now draw journal db1 = Inr (db', report)"
    and one_id: "\<And>r r'. r \<in> set journal \<Longrightarrow> r' \<in> set journal \<Longrightarrow> record_id r = record_id r' \<Longrightarrow>
      same_stop_key (jr_event r) (jr_event r') \<and> (record_lifts r = None) = (record_lifts r' = None)"
    and e: "e \<in> set (su_events db2)" "standing (su_events db2) e"
  shows "(\<exists>e'\<in>set (su_events db'). sv_eventId e' = sv_eventId e \<and> same_stop_key e' e \<and> standing (su_events db') e') \<and>
    (\<exists>f\<in>set (effective_events (su_events db')). same_stop_key f e)"
proof -
  let ?w = "(empty_stops firm_rows hold_rows queue, [])"
  have inv1: "suppression_inv db1" using reachable_stops_inv [of env past firm_rows hold_rows queue "[]"] assms(1) by simp
  then have inv2: "events_inv (su_events db2)" using stop_run_inv [of "(db1, journal1)" env later] assms(2) inv_parts(1) by simp
  have sub: "set (su_events db1) \<subseteq> set (su_events db2)"
    using stop_run_only_adds [of "(db1, journal1)" env later] inv1 assms(2) by auto
  have "journal_inv env (db1, journal1)" using reachable_journal [of env past firm_rows hold_rows queue] assms(1) by simp
  then have j: "journal_inv env (db2, journal)" using stop_run_journal [of "(db1, journal1)" env later] inv1 assms(2) by simp
  have stop: "sv_supersedesEventId e = None" using e(2) by (simp add: standing_def)
  note replay = replayD [OF assms(3)]
  have "\<exists>e'\<in>set (su_events db'). sv_eventId e' = sv_eventId e \<and> same_stop_key e' e \<and> sv_supersedesEventId e' = None"
  proof (cases "readSuppressionEvent (su_events db1) (sv_eventId e)")
    case (Some x)
    then have "x \<in> set (su_events db1)" "sv_eventId x = sv_eventId e" using read_event_Some by blast+
    moreover from this have "x = e" using event_by_id [OF inv2, of x e] sub e(1) by blast
    ultimately show ?thesis using replay(1) stop by (intro bexI [of _ e]) (auto simp: same_stop_key_def)
  next
    case None
    obtain r where r: "r \<in> set journal" "e = jr_event r" using journal_invD(1) [OF j e(1) stop] by blast
    obtain m where m: "m \<in> set journal" "record_id m = record_id r" "record_lifts m = None \<longrightarrow> jr_event m \<in> set (su_events db')"
      using replay(3) [OF r(1) journal_invD(3) [OF j r(1)]] None r(2) by (auto simp: record_id_def)
    have same: "same_stop_key (jr_event m) e" "record_lifts m = None"
      using one_id [OF m(1) r(1) m(2)] r(2) stop by (simp_all add: record_lifts_def)
    then have "jr_event m \<in> set (su_events db')" using m(3) by blast
    then show ?thesis using m(2) r(2) same by (intro bexI [of _ "jr_event m"]) (simp_all add: record_id_def record_lifts_def)
  qed
  then obtain e' where e': "e' \<in> set (su_events db')" "sv_eventId e' = sv_eventId e" "same_stop_key e' e" "sv_supersedesEventId e' = None"
    by blast
  have "s \<in> set (su_events db2)" if "s \<in> set (su_events db')" "sv_supersedesEventId s \<noteq> None" for s
    using replay(2) [OF that(1)]
  proof
    assume "\<exists>r\<in>set journal. s = jr_event r \<and> (record_lifts r = None \<or> jr_committed r)"
    then obtain r where "r \<in> set journal" "s = jr_event r" by blast
    then show ?thesis using journal_invD(2) [OF j] that(2) by blast
  qed (use sub in blast)
  then have "\<not> alreadySuperseded (su_events db') (sv_eventId e')"
    using e(2) e'(2) by (auto simp: standing_def superseded_iff)
  then have "standing (su_events db') e'" using e'(4) by (simp add: standing_def)
  moreover from standing_effective [OF e'(1) this] have "\<exists>f\<in>set (effective_events (su_events db')). same_stop_key f e"
    using e'(3) by (auto simp: same_stop_key_def)
  ultimately show ?thesis using e'(1-3) by blast
qed

definition replay_journal1 :: "SuppressionJournalRecord list" where
  "replay_journal1 = [(journalRecordOf stop_env1 stop_event1)\<lparr> jr_firmId := Some (Some ''z9'') \<rparr>]"

lemma replay_run1: "(case replaySuppressionJournal stop_env1 700000 (\<lambda>_. stop_draw1) replay_journal1 stop_db0 of
    Inr (db', report) \<Rightarrow> su_events db' = [stop_event1] \<and> rr_inserted report = 1 \<and> rr_finalized report = 1 | Inl _ \<Rightarrow> False)"
  by code_simp

theorem replay_loses_no_stop_witness:
  "\<exists>db' report. replaySuppressionJournal stop_env1 700000 (\<lambda>_. stop_draw1) replay_journal1 stop_db0 = Inr (db', report) \<and>
     (\<exists>f\<in>set (effective_events (su_events db')). same_stop_key f stop_event1)"
proof -
  obtain db' report where run: "replaySuppressionJournal stop_env1 700000 (\<lambda>_. stop_draw1) replay_journal1 stop_db0 = Inr (db', report)"
    using replay_run1 by (auto split: sum.splits prod.splits)
  have start: "stop_run stop_env1 [] (empty_stops (su_firms stop_db0) [] \<lparr> jobs = [], job_audits = [] \<rparr>, []) = (stop_db0, [])"
    by (simp add: stop_db0_def empty_stops_def)
  have later: "stop_run stop_env1 [Act_stop stop_draw1 (Actor_user ''u1'' Role_salesperson) stop_input1] (stop_db0, []) =
      (stop_db0\<lparr> su_events := [stop_event1], su_finalizations := [stop_finalization1] \<rparr>, replay_journal1)"
    by (simp add: stop_recorded1 replay_journal1_def)
  have "standing [stop_event1] stop_event1" by code_simp
  then show ?thesis using replay_loses_no_stop [OF start later run, of stop_event1] run
    by (auto simp: replay_journal1_def same_stop_key_def)
qed

section \<open>The body of an object\<close>

text \<open>C35: The body of a journal object reads back as the record it was written from, the firm of
  the review hold (absent, none or named) and the marker of a release included, when instants
  are written so that they read back and the scope and the channel are the ones the table
  allows.\<close>
theorem journal_body_reads_back:
  assumes "instant_of (show_instant (sv_recordedAt (jr_event r))) = sv_recordedAt (jr_event r)"
    and "sv_scope (jr_event r) \<in> {''firm'', ''handle''}" "sv_channel (jr_event r) \<in> {''phone'', ''email'', ''all''}"
  shows "parseSuppressionJournalRecord instant_of (Some (journalObjectBody show_instant r)) = Inr r"
  using assms
  by (cases r; cases "jr_event r")
    (auto simp: parseSuppressionJournalRecord_def journalObjectBody_def required_fields_def json_string_def json_text_def
      json_or_empty_def firm_field_def Let_def split: option.splits)

theorem journal_body_reads_back_witness:
  "parseSuppressionJournalRecord (\<lambda>_. 5) (Some (journalObjectBody (\<lambda>_. ''1970-01-01T00:00:00.005Z'') (hd replay_journal1))) =
     Inr (hd replay_journal1)"
proof (rule journal_body_reads_back)
  show "(\<lambda>_. 5) ((\<lambda>_. ''1970-01-01T00:00:00.005Z'') (sv_recordedAt (jr_event (hd replay_journal1)))) =
      sv_recordedAt (jr_event (hd replay_journal1))" by code_simp
qed code_simp+

section \<open>Orphans\<close>

definition orphan_record :: "string \<Rightarrow> string \<Rightarrow> instant \<Rightarrow> SuppressionJournalRecord" where
  "orphan_record k original at_time = (journalRecordOf stop_env1 (stop_event1\<lparr> sv_eventId := k, sv_source := ''admin_supersession'',
     sv_supersedesEventId := Some original, sv_supersessionReason := Some ''correction'', sv_recordedAt := at_time \<rparr>))\<lparr> jr_committed := True \<rparr>"

text \<open>A lift of a lift that lifts nothing here is reported with the latter twice.\<close>
lemma orphan_listed_twice:
  "(case replaySuppressionJournal stop_env1 9 (\<lambda>_. stop_draw1) [orphan_record ''a'' ''gone'' 1, orphan_record ''b'' ''a'' 2] stop_db0 of
     Inr (db', report) \<Rightarrow> rr_orphanSupersessions report = [''a'', ''a'', ''b''] | Inl _ \<Rightarrow> False)"
  by code_simp

end
