(* ===== verification/Spending.thy ===== *)
theory Spending
  imports LocalClock "HOL-Library.List_Lexorder" "HOL-Library.Char_ord"
begin

text \<open>
  The money of the paid providers: who pays for one (\<open>settings/funding.ts\<close>), the ledger of what
  was invoiced (\<open>research/ledger.ts\<close>), the reservations, one row per paid attempt
  (\<open>research/reservations.ts\<close>), the daily budget of the models paid from credits
  (\<open>research/modelBudget.ts\<close>) and the month's cash ceiling (\<open>settings/cashCeiling.ts\<close>).  One
  workspace's rows; the monthly lock every command takes makes each one step.  Cents are
  integers, as the commands require, in columns of 32 bits; the shapes the columns of names and
  keys check are not modelled.
\<close>

section \<open>Who pays (settings/funding.ts)\<close>

datatype ProviderFunding = Cash | Credits

definition PROVIDER_KIND_FUNDING :: "(string \<times> ProviderFunding) list" where
  "PROVIDER_KIND_FUNDING = [(''aws_transcribe'', Credits), (''twilio'', Cash), (''deepgram'', Cash),
     (''anthropic_extraction'', Cash), (''anthropic_classifier'', Cash), (''anthropic_call_summary'', Cash),
     (''anthropic_call_analysis'', Cash), (''aws_bedrock'', Credits)]"

definition providerKind :: "string \<Rightarrow> string" where
  "providerKind key = takeWhile (\<lambda>c. c \<noteq> CHR ''.'') key"

text \<open>A kind that names a member of every object (\<open>constructor\<close>) reads that in the source, which is
  as far from \<open>'credits'\<close> as \<open>'cash'\<close> is.\<close>
definition providerFunding :: "string \<Rightarrow> ProviderFunding" where
  "providerFunding key = (case map_of PROVIDER_KIND_FUNDING (providerKind key) of None \<Rightarrow> Cash | Some f \<Rightarrow> f)"

definition CREDIT_FUNDED_PROVIDER_KINDS :: "string list" where
  "CREDIT_FUNDED_PROVIDER_KINDS = sort (map fst (filter (\<lambda>(_, f). f = Credits) PROVIDER_KIND_FUNDING))"

section \<open>The tables\<close>

datatype ReservationState = Rv_reserved | Rv_calling | Rv_settled | Rv_estimated | Rv_released

definition OPEN_RESERVATION_STATES :: "ReservationState list" where
  "OPEN_RESERVATION_STATES = [Rv_reserved, Rv_calling]"

text \<open>A business date is the text \<open>YYYY-MM-DD\<close>; dates compare as texts.\<close>
record ReservationRow =
  rv_id :: uuid
  rv_providerKey :: string
  rv_subjectKind :: string
  rv_subjectId :: uuid
  rv_attempt :: int
  rv_businessDate :: string
  rv_businessTimeZone :: string
  rv_cents :: int
  rv_modelName :: string
  rv_maxInputTokens :: int
  rv_maxOutputTokens :: int
  rv_state :: ReservationState
  rv_settledCents :: int
  rv_settledAt :: "instant option"

record LedgerRow =
  lg_providerKey :: string
  lg_businessDate :: string
  lg_businessTimeZone :: string
  lg_calls :: int
  lg_failures :: int
  lg_costCents :: int
  lg_lastFailureCode :: "string option"
  lg_lastFailureAt :: "instant option"

record SpendDb =
  sp_ledger :: "LedgerRow list"
  sp_reservations :: "ReservationRow list"

datatype ModelBudgetRefusalCode = Credit_model_daily_ceiling | Model_reservation_stale | Model_reservation_mismatch

text \<open>\<open>Out_of_range\<close> is the database's answer to a number that does not fit the column, \<open>Key_taken\<close>
  to an id that is there.\<close>
datatype SpendError = Spend_clock clock_code | Budget_refused ModelBudgetRefusalCode | Out_of_range | Key_taken

definition clock_step :: "clock_code + 'a \<Rightarrow> SpendError + 'a" where
  "clock_step r = (case r of Inl e \<Rightarrow> Inl (Spend_clock e) | Inr x \<Rightarrow> Inr x)"

definition int4 :: "int \<Rightarrow> bool" where
  "int4 n \<longleftrightarrow> - 2147483648 \<le> n \<and> n \<le> 2147483647"

section \<open>The ledger (research/ledger.ts)\<close>

definition is_ledger :: "string \<Rightarrow> string \<Rightarrow> LedgerRow \<Rightarrow> bool" where
  "is_ledger key date row \<longleftrightarrow> lg_providerKey row = key \<and> lg_businessDate row = date"

text \<open>\<open>INSERT ... ON CONFLICT DO UPDATE\<close> of one row of the ledger.\<close>
definition upsert_ledger :: "LedgerRow \<Rightarrow> (LedgerRow \<Rightarrow> LedgerRow) \<Rightarrow> SpendDb \<Rightarrow> SpendError + SpendDb" where
  "upsert_ledger fresh change db =
     (let hit = is_ledger (lg_providerKey fresh) (lg_businessDate fresh) in
      case sql_one hit (sp_ledger db) of
        None \<Rightarrow> if int4 (lg_costCents fresh) then Inr (db\<lparr> sp_ledger := sp_ledger db @ [fresh] \<rparr>) else Inl Out_of_range
      | Some row \<Rightarrow> if int4 (lg_costCents (change row)) then Inr (db\<lparr> sp_ledger := sql_update hit change (sp_ledger db) \<rparr>)
          else Inl Out_of_range)"

record RecordProviderCallInput =
  pc_providerKey :: string
  pc_at :: "instant option"
  pc_businessTimeZone :: string
  pc_costCents :: int
  pc_failureCode :: "string option"

definition recordProviderCall :: "tzdb \<Rightarrow> RecordProviderCallInput \<Rightarrow> SpendDb \<Rightarrow> SpendError + SpendDb" where
  "recordProviderCall tz input db =
     and_then (clock_step (localDate tz (pc_at input) (pc_businessTimeZone input))) (\<lambda>date.
       let failed = (if pc_failureCode input = None then 0 else 1); cents = max 0 (pc_costCents input);
           at_time = (if pc_failureCode input = None then None else pc_at input) in
       upsert_ledger \<lparr> lg_providerKey = pc_providerKey input, lg_businessDate = date, lg_businessTimeZone = pc_businessTimeZone input,
           lg_calls = 1, lg_failures = failed, lg_costCents = cents, lg_lastFailureCode = pc_failureCode input,
           lg_lastFailureAt = at_time \<rparr>
         (\<lambda>row. row\<lparr> lg_calls := lg_calls row + 1, lg_failures := lg_failures row + failed, lg_costCents := lg_costCents row + cents,
           lg_lastFailureCode := (if pc_failureCode input = None then lg_lastFailureCode row else pc_failureCode input),
           lg_lastFailureAt := (if at_time = None then lg_lastFailureAt row else at_time) \<rparr>) db)"

text \<open>The row a settlement adds when the day has none.\<close>
definition settled_row :: "string \<Rightarrow> string \<Rightarrow> string \<Rightarrow> int \<Rightarrow> LedgerRow" where
  "settled_row key date zone cents = \<lparr> lg_providerKey = key, lg_businessDate = date, lg_businessTimeZone = zone, lg_calls = 0,
     lg_failures = 0, lg_costCents = cents, lg_lastFailureCode = None, lg_lastFailureAt = None \<rparr>"

definition addLedgerCost :: "string \<Rightarrow> string \<Rightarrow> string \<Rightarrow> int \<Rightarrow> SpendDb \<Rightarrow> SpendError + SpendDb" where
  "addLedgerCost key date zone cents db =
     upsert_ledger (settled_row key date zone cents) (\<lambda>row. row\<lparr> lg_costCents := lg_costCents row + cents \<rparr>) db"

record Spend =
  sd_todayCents :: int
  sd_monthToDateCents :: int

definition is_open :: "ReservationRow \<Rightarrow> bool" where
  "is_open row \<longleftrightarrow> rv_state row \<in> set OPEN_RESERVATION_STATES"

text \<open>\<open>WITH spend AS (...)\<close>: date and cents of what was invoiced and of what is open.\<close>
definition spend_rows :: "(string \<Rightarrow> bool) \<Rightarrow> SpendDb \<Rightarrow> (string \<times> int) list" where
  "spend_rows funded db =
     map (\<lambda>row. (lg_businessDate row, lg_costCents row)) (filter (\<lambda>row. funded (lg_providerKey row)) (sp_ledger db)) @
     map (\<lambda>row. (rv_businessDate row, rv_cents row)) (filter (\<lambda>row. is_open row \<and> funded (rv_providerKey row)) (sp_reservations db))"

definition spend_between :: "string \<Rightarrow> string \<Rightarrow> (string \<times> int) list \<Rightarrow> int" where
  "spend_between since until rows = sum_list (map snd (filter (\<lambda>(d, _). since \<le> d \<and> d \<le> until) rows))"

definition spend_on :: "(string \<Rightarrow> bool) \<Rightarrow> string \<Rightarrow> SpendDb \<Rightarrow> Spend" where
  "spend_on funded date db = \<lparr> sd_todayCents = spend_between date date (spend_rows funded db),
     sd_monthToDateCents = spend_between (take 7 date @ ''-01'') date (spend_rows funded db) \<rparr>"

definition readFundedSpend :: "tzdb \<Rightarrow> instant option \<Rightarrow> string \<Rightarrow> (string \<Rightarrow> bool) \<Rightarrow> SpendDb \<Rightarrow> SpendError + Spend" where
  "readFundedSpend tz at_time zone funded db =
     and_then (clock_step (localDate tz at_time zone)) (\<lambda>date. Inr (spend_on funded date db))"

definition credit_kind :: "string \<Rightarrow> bool" where
  "credit_kind key \<longleftrightarrow> providerKind key \<in> set CREDIT_FUNDED_PROVIDER_KINDS"

definition readSpend :: "tzdb \<Rightarrow> instant option \<Rightarrow> string \<Rightarrow> SpendDb \<Rightarrow> SpendError + Spend" where
  "readSpend tz at_time zone db = readFundedSpend tz at_time zone (\<lambda>key. \<not> credit_kind key) db"

definition readCreditSpend :: "tzdb \<Rightarrow> instant option \<Rightarrow> string \<Rightarrow> SpendDb \<Rightarrow> SpendError + Spend" where
  "readCreditSpend tz at_time zone db = readFundedSpend tz at_time zone credit_kind db"

definition readResearchSpend :: "tzdb \<Rightarrow> instant option \<Rightarrow> string \<Rightarrow> SpendDb \<Rightarrow> SpendError + Spend" where
  "readResearchSpend tz at_time zone db = readFundedSpend tz at_time zone (\<lambda>_. True) db"

section \<open>The credit models' day (research/modelBudget.ts)\<close>

definition DAILY_CREDIT_MODEL_CAP_CENTS :: int where
  "DAILY_CREDIT_MODEL_CAP_CENTS = 5000"

definition isCreditModelProvider :: "string \<Rightarrow> bool" where
  "isCreditModelProvider key \<longleftrightarrow> providerFunding key = Credits \<and> providerKind key \<noteq> ''aws_transcribe''"

text \<open>\<open>CREDIT_FUNDED_PROVIDER_KINDS\<close> without Transcribe.\<close>
definition credit_model_kind :: "string \<Rightarrow> bool" where
  "credit_model_kind key \<longleftrightarrow> providerKind key \<in> set (filter (\<lambda>k. k \<noteq> ''aws_transcribe'') CREDIT_FUNDED_PROVIDER_KINDS)"

definition readCreditModelSpend :: "tzdb \<Rightarrow> instant option \<Rightarrow> string \<Rightarrow> SpendDb \<Rightarrow> SpendError + Spend" where
  "readCreditModelSpend tz at_time zone db = readFundedSpend tz at_time zone credit_model_kind db"

definition clearCreditModelBudget :: "tzdb \<Rightarrow> string \<Rightarrow> instant option \<Rightarrow> string \<Rightarrow> int \<Rightarrow> SpendDb \<Rightarrow> SpendError + unit" where
  "clearCreditModelBudget tz key at_time zone additionalCents db =
     (if \<not> isCreditModelProvider key then Inr () else
      and_then (readCreditModelSpend tz at_time zone db) (\<lambda>spend.
        if sd_todayCents spend + additionalCents > DAILY_CREDIT_MODEL_CAP_CENTS
        then Inl (Budget_refused Credit_model_daily_ceiling) else Inr ()))"

section \<open>Reservations (research/reservations.ts)\<close>

record ReserveInput =
  ri_providerKey :: string
  ri_subjectKind :: string
  ri_subjectId :: uuid
  ri_attempt :: int
  ri_at :: "instant option"
  ri_businessTimeZone :: string
  ri_cents :: int
  ri_modelName :: string
  ri_maxInputTokens :: int
  ri_maxOutputTokens :: int

text \<open>\<open>Number.isSafeInteger\<close>, of an integer.\<close>
definition isSafeInteger :: "int \<Rightarrow> bool" where
  "isSafeInteger n \<longleftrightarrow> \<bar>n\<bar> \<le> 9007199254740991"

definition readAttempt :: "string \<Rightarrow> uuid \<Rightarrow> int \<Rightarrow> SpendDb \<Rightarrow> ReservationRow option" where
  "readAttempt kind subjectId attempt db =
     sql_one (\<lambda>r. rv_subjectKind r = kind \<and> rv_subjectId r = subjectId \<and> rv_attempt r = attempt) (sp_reservations db)"

text \<open>Newest attempt first.\<close>
definition listAttempts :: "string \<Rightarrow> uuid \<Rightarrow> SpendDb \<Rightarrow> ReservationRow list" where
  "listAttempts kind subjectId db = sort_key (\<lambda>r. - rv_attempt r)
     (filter (\<lambda>r. rv_subjectKind r = kind \<and> rv_subjectId r = subjectId) (sp_reservations db))"

definition same_obligation :: "ReserveInput \<Rightarrow> ReservationRow \<Rightarrow> bool" where
  "same_obligation input row \<longleftrightarrow> rv_providerKey row = ri_providerKey input \<and> rv_modelName row = ri_modelName input \<and>
     rv_cents row = ri_cents input \<and> rv_maxInputTokens row = ri_maxInputTokens input \<and>
     rv_maxOutputTokens row = ri_maxOutputTokens input"

definition reserved_row :: "uuid \<Rightarrow> string \<Rightarrow> ReserveInput \<Rightarrow> ReservationRow" where
  "reserved_row drawn date input = \<lparr> rv_id = drawn, rv_providerKey = ri_providerKey input, rv_subjectKind = ri_subjectKind input,
     rv_subjectId = ri_subjectId input, rv_attempt = max 1 (ri_attempt input), rv_businessDate = date,
     rv_businessTimeZone = ri_businessTimeZone input, rv_cents = max 0 (ri_cents input), rv_modelName = ri_modelName input,
     rv_maxInputTokens = max 1 (ri_maxInputTokens input), rv_maxOutputTokens = max 1 (ri_maxOutputTokens input),
     rv_state = Rv_reserved, rv_settledCents = 0, rv_settledAt = None \<rparr>"

definition find_reservation :: "uuid \<Rightarrow> SpendDb \<Rightarrow> ReservationRow option" where
  "find_reservation k db = sql_one (\<lambda>r. rv_id r = k) (sp_reservations db)"

definition reserveAttempt :: "tzdb \<Rightarrow> uuid \<Rightarrow> ReserveInput \<Rightarrow> SpendDb \<Rightarrow> SpendError + (SpendDb \<times> ReservationRow)" where
  "reserveAttempt tz drawn input db =
     (if \<not> list_all isSafeInteger [ri_cents input, ri_maxInputTokens input, ri_maxOutputTokens input, ri_attempt input] \<or>
         ri_cents input < 0 \<or> ri_maxInputTokens input < 1 \<or> ri_maxOutputTokens input < 1 \<or> ri_attempt input < 1
      then Inl (Budget_refused Model_reservation_mismatch) else
      and_then (clock_step (localDate tz (ri_at input) (ri_businessTimeZone input))) (\<lambda>date.
      if \<not> int4 (ri_attempt input) then Inl Out_of_range else
      case readAttempt (ri_subjectKind input) (ri_subjectId input) (ri_attempt input) db of
        Some existing \<Rightarrow> if same_obligation input existing then Inr (db, existing)
          else Inl (Budget_refused Model_reservation_mismatch)
      | None \<Rightarrow>
          and_then (clearCreditModelBudget tz (ri_providerKey input) (ri_at input) (ri_businessTimeZone input) (ri_cents input) db) (\<lambda>_.
          if \<not> list_all int4 [ri_cents input, ri_maxInputTokens input, ri_maxOutputTokens input]
          then Inl Out_of_range else
          if find_reservation drawn db \<noteq> None then Inl Key_taken else
          Inr (db\<lparr> sp_reservations := sp_reservations db @ [reserved_row drawn date input] \<rparr>, reserved_row drawn date input))))"

text \<open>\<open>current\<close> is the database's clock, \<open>zone\<close> the workspace's.\<close>
definition markCalling :: "tzdb \<Rightarrow> instant \<Rightarrow> string \<Rightarrow> uuid \<Rightarrow> SpendDb \<Rightarrow> SpendError + (SpendDb \<times> bool)" where
  "markCalling tz current zone k db = (case find_reservation k db of
     None \<Rightarrow> Inr (db, False)
   | Some row \<Rightarrow>
       if rv_state row \<noteq> Rv_reserved then Inr (db, False) else
       and_then (if \<not> isCreditModelProvider (rv_providerKey row) then Inr () else
         and_then (clock_step (localDate tz (Some current) zone)) (\<lambda>date.
         if rv_businessDate row \<noteq> date \<or> rv_businessTimeZone row \<noteq> zone then Inl (Budget_refused Model_reservation_stale) else
         clearCreditModelBudget tz (rv_providerKey row) (Some current) zone 0 db))
       (\<lambda>_. Inr (db\<lparr> sp_reservations := sql_update (\<lambda>r. rv_id r = k \<and> rv_state r = Rv_reserved) (\<lambda>r. r\<lparr> rv_state := Rv_calling \<rparr>)
              (sp_reservations db) \<rparr>, True)))"

datatype AttemptOutcome = So_settled int | So_estimated "int option" | So_released | So_released_not_called

definition closing_state :: "AttemptOutcome \<Rightarrow> ReservationState" where
  "closing_state outcome = (case outcome of So_settled _ \<Rightarrow> Rv_settled | So_estimated _ \<Rightarrow> Rv_estimated | _ \<Rightarrow> Rv_released)"

definition closing_cents :: "AttemptOutcome \<Rightarrow> ReservationRow \<Rightarrow> int" where
  "closing_cents outcome row = (case outcome of
     So_settled cents \<Rightarrow> max 0 cents
   | So_estimated (Some cents) \<Rightarrow> max 0 cents
   | So_estimated None \<Rightarrow> rv_cents row
   | _ \<Rightarrow> 0)"

definition closable :: "uuid \<Rightarrow> AttemptOutcome \<Rightarrow> ReservationRow \<Rightarrow> bool" where
  "closable k outcome row \<longleftrightarrow> rv_id row = k \<and> (rv_state row = Rv_reserved \<or> (rv_state row = Rv_calling \<and> outcome \<noteq> So_released))"

definition close_row :: "instant \<Rightarrow> AttemptOutcome \<Rightarrow> ReservationRow \<Rightarrow> ReservationRow" where
  "close_row at_time outcome row = row\<lparr> rv_state := closing_state outcome, rv_settledCents := closing_cents outcome row,
     rv_settledAt := Some at_time \<rparr>"

text \<open>The figures bound as parameters fit their column, whether or not a row is hit.\<close>
definition outcome_fits :: "AttemptOutcome \<Rightarrow> bool" where
  "outcome_fits outcome = (case outcome of
     So_settled cents \<Rightarrow> int4 (max 0 cents)
   | So_estimated (Some cents) \<Rightarrow> int4 (max 0 cents)
   | _ \<Rightarrow> True)"

definition settleAttempt :: "uuid \<Rightarrow> instant \<Rightarrow> AttemptOutcome \<Rightarrow> SpendDb \<Rightarrow>
    SpendError + (SpendDb \<times> (int \<times> ReservationState) option)" where
  "settleAttempt k at_time outcome db =
     (if \<not> outcome_fits outcome then Inl Out_of_range else
      case sql_one (closable k outcome) (sp_reservations db) of
     None \<Rightarrow> Inr (db, None)
   | Some row \<Rightarrow>
       (let cents = closing_cents outcome row;
            db1 = db\<lparr> sp_reservations := sql_update (closable k outcome) (close_row at_time outcome) (sp_reservations db) \<rparr> in
        and_then (if cents > 0 then addLedgerCost (rv_providerKey row) (rv_businessDate row) (rv_businessTimeZone row) cents db1 else Inr db1)
          (\<lambda>db2. Inr (db2, Some (cents, closing_state outcome)))))"

definition correctable :: "uuid \<Rightarrow> int \<Rightarrow> ReservationRow \<Rightarrow> bool" where
  "correctable k cents row \<longleftrightarrow> rv_id row = k \<and> rv_state row \<in> {Rv_settled, Rv_estimated} \<and>
     (rv_settledCents row \<noteq> cents \<or> rv_state row \<noteq> Rv_settled)"

text \<open>The ledger moves by the difference, and never below zero.\<close>
definition correctSettledCents :: "uuid \<Rightarrow> int \<Rightarrow> SpendDb \<Rightarrow> SpendError + (SpendDb \<times> (int \<times> int) option)" where
  "correctSettledCents k input db =
     (let cents = max 0 input in
      if \<not> int4 cents then Inl Out_of_range else
      case sql_one (correctable k cents) (sp_reservations db) of
        None \<Rightarrow> Inr (db, None)
      | Some row \<Rightarrow>
          (let delta = cents - rv_settledCents row;
               db1 = db\<lparr> sp_reservations := sql_update (correctable k cents)
                 (\<lambda>r. r\<lparr> rv_state := Rv_settled, rv_settledCents := cents \<rparr>) (sp_reservations db) \<rparr> in
           and_then (if delta = 0 then Inr db1 else
               upsert_ledger (settled_row (rv_providerKey row) (rv_businessDate row) (rv_businessTimeZone row) (max 0 delta))
                 (\<lambda>l. l\<lparr> lg_costCents := max 0 (lg_costCents l + delta) \<rparr>) db1)
             (\<lambda>db2. Inr (db2, Some (rv_settledCents row, cents)))))"

text \<open>The loop over the attempts read at the start.\<close>
fun finalise_each :: "instant \<Rightarrow> ReservationRow list \<Rightarrow> SpendDb \<Rightarrow> int \<Rightarrow> bool \<Rightarrow> SpendError + (SpendDb \<times> int \<times> bool)" where
  "finalise_each at_time [] db cents estimated = Inr (db, cents, estimated)"
| "finalise_each at_time (row # rows) db cents estimated =
     (if \<not> is_open row then finalise_each at_time rows db (cents + rv_settledCents row) (estimated \<or> rv_state row = Rv_estimated) else
      and_then (settleAttempt (rv_id row) at_time (if rv_state row = Rv_calling then So_estimated None else So_released) db)
        (\<lambda>(db1, settled). finalise_each at_time rows db1 (cents + (case settled of None \<Rightarrow> 0 | Some (c, _) \<Rightarrow> c))
          (estimated \<or> rv_state row = Rv_calling)))"

definition finaliseSubjectReservations :: "string \<Rightarrow> uuid \<Rightarrow> instant \<Rightarrow> SpendDb \<Rightarrow> SpendError + (SpendDb \<times> int \<times> bool)" where
  "finaliseSubjectReservations kind subjectId at_time db = finalise_each at_time (listAttempts kind subjectId db) db 0 False"

definition subjectSettledCents :: "string \<Rightarrow> uuid \<Rightarrow> SpendDb \<Rightarrow> int" where
  "subjectSettledCents kind subjectId db =
     sum_list (map rv_settledCents (filter (\<lambda>r. rv_subjectKind r = kind \<and> rv_subjectId r = subjectId) (sp_reservations db)))"

section \<open>The month's cash (settings/cashCeiling.ts)\<close>

text \<open>The stored setting, \<open>None\<close> when it does not parse.\<close>
definition readMonthlyCashCeiling :: "int option \<Rightarrow> int" where
  "readMonthlyCashCeiling setting = (case setting of None \<Rightarrow> 0 | Some cents \<Rightarrow> cents)"

definition clearMonthlyCash :: "tzdb \<Rightarrow> int option \<Rightarrow> instant option \<Rightarrow> string \<Rightarrow> int \<Rightarrow> SpendDb \<Rightarrow> SpendError + bool" where
  "clearMonthlyCash tz setting at_time zone cents db =
     and_then (readSpend tz at_time zone db) (\<lambda>spend.
       Inr (sd_monthToDateCents spend + max 0 cents \<le> readMonthlyCashCeiling setting))"

definition monthWithinCeiling :: "tzdb \<Rightarrow> int option \<Rightarrow> instant option \<Rightarrow> string \<Rightarrow> SpendDb \<Rightarrow> SpendError + bool" where
  "monthWithinCeiling tz setting at_time zone db =
     and_then (readSpend tz at_time zone db) (\<lambda>spend. Inr (sd_monthToDateCents spend \<le> readMonthlyCashCeiling setting))"

record CashStatus =
  ca_ceilingCents :: int
  ca_spentMonthCents :: int
  ca_creditsMonthCents :: "int option"

definition monthlyCashStatus :: "tzdb \<Rightarrow> int option \<Rightarrow> instant \<Rightarrow> string \<Rightarrow> bool \<Rightarrow> SpendDb \<Rightarrow> SpendError + CashStatus" where
  "monthlyCashStatus tz setting now zone credits db =
     and_then (readSpend tz (Some now) zone db) (\<lambda>spend.
     and_then (if credits then and_then (readCreditSpend tz (Some now) zone db) (\<lambda>c. Inr (Some (sd_monthToDateCents c))) else Inr None)
       (\<lambda>credit. Inr \<lparr> ca_ceilingCents = readMonthlyCashCeiling setting, ca_spentMonthCents = sd_monthToDateCents spend,
         ca_creditsMonthCents = credit \<rparr>))"

end
