(* ===== verification/SpendingProperties.thy ===== *)
theory SpendingProperties
  imports Spending "HOL-Library.Multiset"
begin

text \<open>
  What the money's tables keep, over any sequence of commands: the ledger is exactly what the
  reservations settled and the direct calls cost; a day of the credit models stays under its
  cap; and a reservation that may have been called is never given back by anyone but the claim
  that marked it, nor closed twice.
\<close>

section \<open>Runs\<close>

datatype SpendAct =
    Sa_reserve uuid ReserveInput
  | Sa_mark instant string uuid
  | Sa_settle uuid instant AttemptOutcome
  | Sa_correct uuid int
  | Sa_finalise string uuid instant
  | Sa_call RecordProviderCallInput

text \<open>The tables, and the cost of every direct call with its provider and date.\<close>
type_synonym SpendWorld = "SpendDb \<times> (string \<times> string \<times> int) list"

text \<open>A command that throws is rolled back.\<close>
definition kept :: "SpendDb \<Rightarrow> SpendError + (SpendDb \<times> 'a) \<Rightarrow> SpendDb" where
  "kept db r = (case r of Inl _ \<Rightarrow> db | Inr (db', _) \<Rightarrow> db')"

fun spend_act :: "tzdb \<Rightarrow> SpendAct \<Rightarrow> SpendWorld \<Rightarrow> SpendWorld" where
  "spend_act tz (Sa_reserve drawn input) (db, calls) = (kept db (reserveAttempt tz drawn input db), calls)"
| "spend_act tz (Sa_mark current zone k) (db, calls) = (kept db (markCalling tz current zone k db), calls)"
| "spend_act tz (Sa_settle k at_time outcome) (db, calls) = (kept db (settleAttempt k at_time outcome db), calls)"
| "spend_act tz (Sa_correct k cents) (db, calls) = (kept db (correctSettledCents k cents db), calls)"
| "spend_act tz (Sa_finalise kind subjectId at_time) (db, calls) = (kept db (finaliseSubjectReservations kind subjectId at_time db), calls)"
| "spend_act tz (Sa_call input) (db, calls) = (case recordProviderCall tz input db of
     Inl _ \<Rightarrow> (db, calls)
   | Inr db' \<Rightarrow> (db', calls @ [(pc_providerKey input, projr (localDate tz (pc_at input) (pc_businessTimeZone input)),
       max 0 (pc_costCents input))]))"

definition spend_run :: "tzdb \<Rightarrow> SpendAct list \<Rightarrow> SpendWorld \<Rightarrow> SpendWorld" where
  "spend_run tz acts w = fold (spend_act tz) acts w"

lemma spend_run_simps [simp]: "spend_run tz [] w = w" "spend_run tz (a # acts) w = spend_run tz acts (spend_act tz a w)"
  by (simp_all add: spend_run_def)

section \<open>Sums over the tables\<close>

definition invoiced :: "(string \<Rightarrow> string \<Rightarrow> bool) \<Rightarrow> LedgerRow list \<Rightarrow> int" where
  "invoiced Q rows = sum_list (map (\<lambda>l. if Q (lg_providerKey l) (lg_businessDate l) then lg_costCents l else 0) rows)"

lemma invoiced_absent: "(\<And>l. l \<in> set rows \<Longrightarrow> \<not> Q (lg_providerKey l) (lg_businessDate l)) \<Longrightarrow> invoiced Q rows = 0"
  by (induction rows) (auto simp: invoiced_def)

definition settled_cents :: "(string \<Rightarrow> string \<Rightarrow> bool) \<Rightarrow> ReservationRow list \<Rightarrow> int" where
  "settled_cents Q rows = sum_list (map (\<lambda>r. if Q (rv_providerKey r) (rv_businessDate r) then rv_settledCents r else 0) rows)"

definition called_cents :: "(string \<Rightarrow> string \<Rightarrow> bool) \<Rightarrow> (string \<times> string \<times> int) list \<Rightarrow> int" where
  "called_cents Q calls = sum_list (map (\<lambda>(key, date, cents). if Q key date then cents else 0) calls)"

text \<open>An update of one row changes a sum by what it changes of that row.\<close>
lemma sum_update_one:
  fixes weight :: "'r \<Rightarrow> int"
  assumes "distinct (map key rows)" "sql_one P rows = Some row" "\<And>x. P x \<Longrightarrow> key x = key row"
  shows "sum_list (map weight (sql_update P f rows)) = sum_list (map weight rows) + weight (f row) - weight row"
  using assms
proof (induction rows)
  case (Cons x xs)
  show ?case
  proof (cases "P x")
    case True
    then have "x = row" using Cons.prems(2) by simp
    then have "\<not> P y" if "y \<in> set xs" for y using that Cons.prems(1,3) by (force simp: image_iff)
    then have "sql_update P f xs = xs" by (rule sql_update_none)
    then show ?thesis using True \<open>x = row\<close> by simp
  next
    case False
    then show ?thesis using Cons by simp
  qed
qed simp

lemma in_sql_update:
  assumes "r \<in> set (sql_update P f rows)"
  obtains x where "r = (if P x then f x else x)" "x \<in> set rows"
  using assms unfolding set_sql_update by (rule imageE)

definition ledger_key :: "LedgerRow \<Rightarrow> string \<times> string" where
  "ledger_key l = (lg_providerKey l, lg_businessDate l)"

lemma invoiced_one:
  "distinct (map ledger_key rows) \<Longrightarrow> l \<in> set rows \<Longrightarrow>
   invoiced (\<lambda>key date. key = lg_providerKey l \<and> date = lg_businessDate l) rows = lg_costCents l"
proof (induction rows)
  case (Cons x xs)
  show ?case
  proof (cases "x = l")
    case True
    have "ledger_key l \<notin> ledger_key ` set xs" using Cons.prems(1) True by simp
    then have "ledger_key y \<noteq> ledger_key l" if "y \<in> set xs" for y using that by (metis imageI)
    then have "\<not> (lg_providerKey y = lg_providerKey l \<and> lg_businessDate y = lg_businessDate l)" if "y \<in> set xs" for y
      using that by (simp add: ledger_key_def)
    then have "invoiced (\<lambda>key date. key = lg_providerKey l \<and> date = lg_businessDate l) xs = 0" by (rule invoiced_absent)
    then show ?thesis using True by (simp add: invoiced_def)
  next
    case False
    have "ledger_key x \<notin> ledger_key ` set xs" "l \<in> set xs" using Cons.prems False by auto
    then have "ledger_key x \<noteq> ledger_key l" by (metis imageI)
    then have "\<not> (lg_providerKey x = lg_providerKey l \<and> lg_businessDate x = lg_businessDate l)"
      by (simp add: ledger_key_def)
    then show ?thesis using Cons False by (auto simp: invoiced_def)
  qed
qed simp

lemma upsert_ledgerD:
  assumes "upsert_ledger fresh change db = Inr db'" "distinct (map ledger_key (sp_ledger db))"
    and same: "\<And>l. ledger_key (change l) = ledger_key l"
    and moves: "\<And>l. l \<in> set (sp_ledger db) \<Longrightarrow> ledger_key l = ledger_key fresh \<Longrightarrow> lg_costCents (change l) = lg_costCents l + d"
    and new: "\<And>l. sql_one (is_ledger (lg_providerKey fresh) (lg_businessDate fresh)) (sp_ledger db) = None \<Longrightarrow> lg_costCents fresh = d"
  shows "sp_reservations db' = sp_reservations db" "distinct (map ledger_key (sp_ledger db'))"
    "invoiced Q (sp_ledger db') = invoiced Q (sp_ledger db) + (if Q (lg_providerKey fresh) (lg_businessDate fresh) then d else 0)"
proof -
  let ?hit = "is_ledger (lg_providerKey fresh) (lg_businessDate fresh)"
  have hit: "?hit l \<longleftrightarrow> ledger_key l = ledger_key fresh" for l by (simp add: is_ledger_def ledger_key_def)
  have "sp_reservations db' = sp_reservations db \<and> distinct (map ledger_key (sp_ledger db')) \<and>
    invoiced Q (sp_ledger db') = invoiced Q (sp_ledger db) + (if Q (lg_providerKey fresh) (lg_businessDate fresh) then d else 0)"
  proof (cases "sql_one ?hit (sp_ledger db)")
    case None
    then have db': "db' = db\<lparr> sp_ledger := sp_ledger db @ [fresh] \<rparr>"
      using assms(1) by (auto simp: upsert_ledger_def Let_def split: if_split_asm)
    have "ledger_key fresh \<notin> set (map ledger_key (sp_ledger db))" using None by (auto simp: sql_one_None hit)
    then show ?thesis using assms(2) new [OF None] by (simp add: db' invoiced_def)
  next
    case (Some row)
    then have db': "db' = db\<lparr> sp_ledger := sql_update ?hit change (sp_ledger db) \<rparr>"
      using assms(1) by (auto simp: upsert_ledger_def Let_def split: if_split_asm)
    have row: "row \<in> set (sp_ledger db)" "ledger_key row = ledger_key fresh" using sql_one_Some [OF Some] hit by blast+
    have keys: "lg_providerKey row = lg_providerKey fresh" "lg_businessDate row = lg_businessDate fresh"
      "lg_providerKey (change row) = lg_providerKey fresh" "lg_businessDate (change row) = lg_businessDate fresh"
      using row(2) same [of row] by (simp_all add: ledger_key_def)
    have "invoiced Q (sp_ledger db') = invoiced Q (sp_ledger db) +
        (if Q (lg_providerKey fresh) (lg_businessDate fresh) then lg_costCents (change row) else 0) -
        (if Q (lg_providerKey fresh) (lg_businessDate fresh) then lg_costCents row else 0)"
      unfolding invoiced_def db'
      using sum_update_one [OF assms(2) Some, where f = change and weight = "\<lambda>l. if Q (lg_providerKey l) (lg_businessDate l) then lg_costCents l else 0"]
      by (simp add: hit row(2) keys)
    moreover have "map ledger_key (sql_update ?hit change (sp_ledger db)) = map ledger_key (sp_ledger db)"
      by (rule sql_update_map_key) (rule same)
    ultimately show ?thesis using assms(2) moves [OF row] by (simp add: db')
  qed
  then show "sp_reservations db' = sp_reservations db" "distinct (map ledger_key (sp_ledger db'))"
    "invoiced Q (sp_ledger db') = invoiced Q (sp_ledger db) + (if Q (lg_providerKey fresh) (lg_businessDate fresh) then d else 0)"
    by blast+
qed

section \<open>The invariant\<close>

definition reservation_ok :: "ReservationRow \<Rightarrow> bool" where
  "reservation_ok r \<longleftrightarrow> 0 \<le> rv_cents r \<and> 0 \<le> rv_settledCents r \<and> (rv_state r \<in> {Rv_reserved, Rv_calling, Rv_released} \<longrightarrow> rv_settledCents r = 0) \<and>
     (is_open r \<longleftrightarrow> rv_settledAt r = None)"

definition spend_inv :: "SpendWorld \<Rightarrow> bool" where
  "spend_inv w \<longleftrightarrow> distinct (map rv_id (sp_reservations (fst w))) \<and> distinct (map ledger_key (sp_ledger (fst w))) \<and>
     (\<forall>r\<in>set (sp_reservations (fst w)). reservation_ok r) \<and> (\<forall>(key, date, cents)\<in>set (snd w). 0 \<le> cents) \<and>
     (\<forall>Q. invoiced Q (sp_ledger (fst w)) = called_cents Q (snd w) + settled_cents Q (sp_reservations (fst w)))"

lemma spend_invD:
  assumes "spend_inv (db, calls)"
  shows "distinct (map rv_id (sp_reservations db))" "distinct (map ledger_key (sp_ledger db))"
    "r \<in> set (sp_reservations db) \<Longrightarrow> reservation_ok r" "c \<in> set calls \<Longrightarrow> 0 \<le> snd (snd c)"
    "invoiced Q (sp_ledger db) = called_cents Q calls + settled_cents Q (sp_reservations db)"
  using assms by (auto simp: spend_inv_def)

lemma called_nonneg: "spend_inv (db, calls) \<Longrightarrow> 0 \<le> called_cents Q calls"
  using spend_invD(4) by (force simp: called_cents_def intro: sum_list_nonneg)

lemma member_le_sum: "x \<in> set xs \<Longrightarrow> (\<And>y. y \<in> set xs \<Longrightarrow> 0 \<le> f y) \<Longrightarrow> f x \<le> sum_list (map f xs)" for f :: "'a \<Rightarrow> int"
proof (induction xs)
  case (Cons y ys)
  have "0 \<le> sum_list (map f ys)" by (rule sum_list_nonneg) (use Cons.prems(2) in auto)
  then show ?case using Cons by force
qed simp

section \<open>Each command\<close>

lemma reserveD:
  assumes "reserveAttempt tz drawn input db = Inr (db', row)"
  obtains "db' = db" "row \<in> set (sp_reservations db)"
  | date where "db' = db\<lparr> sp_reservations := sp_reservations db @ [reserved_row drawn date input] \<rparr>" "row = reserved_row drawn date input"
      "0 \<le> ri_cents input" "find_reservation drawn db = None" "localDate tz (ri_at input) (ri_businessTimeZone input) = Inr date"
      "clearCreditModelBudget tz (ri_providerKey input) (ri_at input) (ri_businessTimeZone input) (ri_cents input) db = Inr ()"
  using assms sql_one_Some
  by (fastforce simp: reserveAttempt_def clock_step_def readAttempt_def split: if_split_asm option.split_asm sum.split_asm elim!: and_thenE)

lemma markD:
  assumes "markCalling tz current zone k db = Inr (db', marked)"
  obtains "db' = db" "\<not> marked"
  | row where "find_reservation k db = Some row" "rv_state row = Rv_reserved" "marked"
      "db' = db\<lparr> sp_reservations := sql_update (\<lambda>r. rv_id r = k \<and> rv_state r = Rv_reserved) (\<lambda>r. r\<lparr> rv_state := Rv_calling \<rparr>) (sp_reservations db) \<rparr>"
  using assms by (auto simp: markCalling_def split: option.split_asm if_split_asm elim!: and_thenE)

lemma settleD:
  assumes "settleAttempt k at_time outcome db = Inr (db', r)"
  obtains "db' = db" "r = None" "sql_one (closable k outcome) (sp_reservations db) = None"
  | row db1 where "sql_one (closable k outcome) (sp_reservations db) = Some row"
      "db1 = db\<lparr> sp_reservations := sql_update (closable k outcome) (close_row at_time outcome) (sp_reservations db) \<rparr>"
      "(if closing_cents outcome row > 0 then addLedgerCost (rv_providerKey row) (rv_businessDate row) (rv_businessTimeZone row)
          (closing_cents outcome row) db1 else Inr db1) = Inr db'"
      "r = Some (closing_cents outcome row, closing_state outcome)"
  using assms by (auto simp: settleAttempt_def Let_def split: option.split_asm if_split_asm elim!: and_thenE)

lemma correctD:
  assumes "correctSettledCents k input db = Inr (db', r)"
  obtains "db' = db" "r = None"
  | row db1 where "sql_one (correctable k (max 0 input)) (sp_reservations db) = Some row"
      "db1 = db\<lparr> sp_reservations := sql_update (correctable k (max 0 input))
         (\<lambda>r. r\<lparr> rv_state := Rv_settled, rv_settledCents := max 0 input \<rparr>) (sp_reservations db) \<rparr>"
      "(if max 0 input = rv_settledCents row then Inr db1 else
          upsert_ledger (settled_row (rv_providerKey row) (rv_businessDate row) (rv_businessTimeZone row) (max 0 (max 0 input - rv_settledCents row)))
            (\<lambda>l. l\<lparr> lg_costCents := max 0 (lg_costCents l + (max 0 input - rv_settledCents row)) \<rparr>) db1) = Inr db'"
      "r = Some (rv_settledCents row, max 0 input)"
  using assms by (auto simp: correctSettledCents_def Let_def split: option.split_asm if_split_asm elim!: and_thenE)

lemma settled_update:
  assumes "distinct (map rv_id rows)" "sql_one P rows = Some row" "\<And>x. P x \<Longrightarrow> rv_id x = rv_id row"
    and "rv_providerKey (f row) = rv_providerKey row" "rv_businessDate (f row) = rv_businessDate row"
  shows "settled_cents Q (sql_update P f rows) = settled_cents Q rows +
      (if Q (rv_providerKey row) (rv_businessDate row) then rv_settledCents (f row) - rv_settledCents row else 0)"
  using sum_update_one [OF assms(1-3), of "\<lambda>r. if Q (rv_providerKey r) (rv_businessDate r) then rv_settledCents r else 0" f] assms(4,5)
  by (simp add: settled_cents_def)

lemma reserve_inv:
  assumes "spend_inv (db, calls)" "reserveAttempt tz drawn input db = Inr (db', row)"
  shows "spend_inv (db', calls)"
  using assms(2)
proof (cases rule: reserveD)
  case (2 date)
  then show ?thesis using assms(1)
    by (force simp: spend_inv_def find_reservation_def sql_one_None reserved_row_def reservation_ok_def is_open_def
        OPEN_RESERVATION_STATES_def settled_cents_def)
qed (use assms(1) in simp)

lemma mark_inv:
  assumes "spend_inv (db, calls)" "markCalling tz current zone k db = Inr (db', marked)"
  shows "spend_inv (db', calls)"
  using assms(2)
proof (cases rule: markD)
  case (2 row)
  let ?hit = "\<lambda>r. rv_id r = k \<and> rv_state r = Rv_reserved"
  let ?rows = "sql_update ?hit (\<lambda>r. r\<lparr> rv_state := Rv_calling \<rparr>) (sp_reservations db)"
  have ids: "map rv_id ?rows = map rv_id (sp_reservations db)" by (rule sql_update_map_key) simp
  have "reservation_ok r" if here: "r \<in> set ?rows" for r
  proof -
    obtain x where "r = (if ?hit x then x\<lparr> rv_state := Rv_calling \<rparr> else x)" "x \<in> set (sp_reservations db)"
      using here by (rule in_sql_update)
    then show ?thesis using spend_invD(3) [OF assms(1), of x]
      by (auto simp: reservation_ok_def is_open_def OPEN_RESERVATION_STATES_def split: if_split_asm)
  qed
  moreover have "settled_cents Q ?rows = settled_cents Q (sp_reservations db)" for Q
    by (auto simp: settled_cents_def sql_update_def comp_def intro!: arg_cong [where f = sum_list])
  ultimately show ?thesis using assms(1) ids by (simp add: spend_inv_def 2(4))
qed (use assms(1) in simp)

lemma settle_inv:
  assumes "spend_inv (db, calls)" "settleAttempt k at_time outcome db = Inr (db', r)"
  shows "spend_inv (db', calls)"
  using assms(2)
proof (cases rule: settleD)
  case (2 row db1)
  let ?P = "closable k outcome" and ?f = "close_row at_time outcome"
  have row: "?P row" "row \<in> set (sp_reservations db)" using sql_one_Some [OF 2(1)] by blast+
  have one: "\<And>x. ?P x \<Longrightarrow> rv_id x = rv_id row" using row(1) by (simp add: closable_def)
  have "rv_settledCents row = 0" using spend_invD(3) [OF assms(1) row(2)] row(1) by (auto simp: closable_def reservation_ok_def)
  then have settled: "settled_cents Q (sp_reservations db1) = settled_cents Q (sp_reservations db) +
      (if Q (rv_providerKey row) (rv_businessDate row) then closing_cents outcome row else 0)" for Q
    using settled_update [OF spend_invD(1) [OF assms(1)] 2(1) one, of ?f Q] by (simp add: 2(2) close_row_def)
  have ids: "distinct (map rv_id (sp_reservations db1))"
    using spend_invD(1) [OF assms(1)] sql_update_map_key [of ?P rv_id ?f "sp_reservations db"] by (simp add: 2(2) close_row_def)
  have nonneg: "0 \<le> closing_cents outcome r" if "reservation_ok r" for r
    using that by (auto simp: closing_cents_def reservation_ok_def split: AttemptOutcome.split option.split)
  have rows: "reservation_ok r" if "r \<in> set (sp_reservations db1)" for r
    using that spend_invD(3) [OF assms(1)] nonneg
    by (auto simp: 2(2) set_sql_update reservation_ok_def close_row_def is_open_def OPEN_RESERVATION_STATES_def closing_state_def
        closing_cents_def split: AttemptOutcome.splits)
  show ?thesis
  proof (cases "closing_cents outcome row > 0")
    case True
    then have add: "upsert_ledger (settled_row (rv_providerKey row) (rv_businessDate row) (rv_businessTimeZone row) (closing_cents outcome row))
        (\<lambda>l. l\<lparr> lg_costCents := lg_costCents l + closing_cents outcome row \<rparr>) db1 = Inr db'"
      using 2(3) by (simp add: addLedgerCost_def)
    note after = upsert_ledgerD [OF add, where d = "closing_cents outcome row"]
    have "sp_ledger db1 = sp_ledger db" by (simp add: 2(2))
    then show ?thesis using assms(1) after settled ids rows
      by (simp add: spend_inv_def ledger_key_def settled_row_def)
  next
    case False
    then have "closing_cents outcome row = 0" using nonneg spend_invD(3) [OF assms(1) row(2)] by force
    moreover from this have "db' = db1" using 2(3) by simp
    moreover have "sp_ledger db1 = sp_ledger db" by (simp add: 2(2))
    ultimately show ?thesis using assms(1) settled ids rows by (simp add: spend_inv_def)
  qed
qed (use assms(1) in simp)

lemma correct_inv:
  assumes "spend_inv (db, calls)" "correctSettledCents k input db = Inr (db', r)"
  shows "spend_inv (db', calls)"
  using assms(2)
proof (cases rule: correctD)
  case (2 row db1)
  define cents where "cents = max 0 input"
  let ?P = "correctable k cents" and ?f = "\<lambda>r. r\<lparr> rv_state := Rv_settled, rv_settledCents := cents \<rparr>"
  note step = 2 [folded cents_def]
  have row: "?P row" "row \<in> set (sp_reservations db)" using sql_one_Some [OF step(1)] by blast+
  have one: "\<And>x. ?P x \<Longrightarrow> rv_id x = rv_id row" using row(1) by (simp add: correctable_def)
  have settled: "settled_cents Q (sp_reservations db1) = settled_cents Q (sp_reservations db) +
      (if Q (rv_providerKey row) (rv_businessDate row) then cents - rv_settledCents row else 0)" for Q
    using settled_update [OF spend_invD(1) [OF assms(1)] step(1) one, of ?f Q] by (simp add: step(2))
  have ids: "distinct (map rv_id (sp_reservations db1))"
    using spend_invD(1) [OF assms(1)] sql_update_map_key [of ?P rv_id ?f "sp_reservations db"] by (simp add: step(2))
  have rows: "reservation_ok r" if "r \<in> set (sp_reservations db1)" for r
  proof -
    have "r \<in> set (sql_update ?P ?f (sp_reservations db))" using that by (simp add: step(2))
    then obtain x where "r = (if ?P x then ?f x else x)" "x \<in> set (sp_reservations db)" by (rule in_sql_update)
    then show ?thesis using spend_invD(3) [OF assms(1), of x]
      by (auto simp: reservation_ok_def is_open_def OPEN_RESERVATION_STATES_def correctable_def cents_def split: if_split_asm)
  qed
  let ?key = "rv_providerKey row" and ?date = "rv_businessDate row"
  let ?Q = "\<lambda>key date. key = ?key \<and> date = ?date"
  have ledger: "sp_ledger db1 = sp_ledger db" by (simp add: step(2))
  have "(if ?Q (rv_providerKey row) (rv_businessDate row) then rv_settledCents row else 0) \<le> settled_cents ?Q (sp_reservations db)"
    unfolding settled_cents_def
    by (rule member_le_sum [OF row(2), of "\<lambda>r. if ?Q (rv_providerKey r) (rv_businessDate r) then rv_settledCents r else 0"])
      (use spend_invD(3) [OF assms(1)] in \<open>auto simp: reservation_ok_def\<close>)
  then have least: "rv_settledCents row \<le> invoiced ?Q (sp_ledger db)"
    using spend_invD(5) [OF assms(1), of ?Q] called_nonneg [OF assms(1), of ?Q] by simp
  show ?thesis
  proof (cases "cents = rv_settledCents row")
    case True
    then have "db' = db1" using step(3) by simp
    then show ?thesis using assms(1) settled ids rows ledger True by (simp add: spend_inv_def)
  next
    case False
    let ?fresh = "settled_row ?key ?date (rv_businessTimeZone row) (max 0 (cents - rv_settledCents row))"
    let ?change = "\<lambda>l. l\<lparr> lg_costCents := max 0 (lg_costCents l + (cents - rv_settledCents row)) \<rparr>"
    have up: "upsert_ledger ?fresh ?change db1 = Inr db'" using step(3) False by simp
    have invoice: "lg_costCents l = invoiced ?Q (sp_ledger db)" if "l \<in> set (sp_ledger db1)" "ledger_key l = ledger_key ?fresh" for l
      using invoiced_one [OF spend_invD(2) [OF assms(1)], of l] that ledger by (simp add: ledger_key_def settled_row_def)
    have absent: "rv_settledCents row = 0" if "sql_one (is_ledger (lg_providerKey ?fresh) (lg_businessDate ?fresh)) (sp_ledger db1) = None"
    proof -
      have "invoiced ?Q (sp_ledger db) = 0"
        by (rule invoiced_absent) (use that ledger in \<open>auto simp: sql_one_None is_ledger_def settled_row_def\<close>)
      then show ?thesis using least spend_invD(3) [OF assms(1) row(2)] by (simp add: reservation_ok_def)
    qed
    have moves: "lg_costCents (?change l) = lg_costCents l + (cents - rv_settledCents row)"
      if "l \<in> set (sp_ledger db1)" "ledger_key l = ledger_key ?fresh" for l
      using invoice [OF that] least by (simp add: cents_def)
    have keys: "ledger_key (?change l) = ledger_key l" for l by (simp add: ledger_key_def)
    have new: "lg_costCents ?fresh = cents - rv_settledCents row"
      if "sql_one (is_ledger (lg_providerKey ?fresh) (lg_businessDate ?fresh)) (sp_ledger db1) = None"
      using absent [OF that] by (simp add: settled_row_def cents_def)
    have distinct1: "distinct (map ledger_key (sp_ledger db1))" using spend_invD(2) [OF assms(1)] ledger by simp
    note after = upsert_ledgerD [OF up distinct1 keys moves new]
    show ?thesis using assms(1) after settled ids rows ledger by (simp add: spend_inv_def settled_row_def)
  qed
qed (use assms(1) in simp)

lemma call_inv:
  assumes "spend_inv (db, calls)" "recordProviderCall tz input db = Inr db'"
  shows "spend_inv (db', calls @ [(pc_providerKey input, projr (localDate tz (pc_at input) (pc_businessTimeZone input)), max 0 (pc_costCents input))])"
proof -
  obtain date where date: "localDate tz (pc_at input) (pc_businessTimeZone input) = Inr date"
    using assms(2) by (auto simp: recordProviderCall_def clock_step_def split: sum.split_asm elim!: and_thenE)
  note up = assms(2) [unfolded recordProviderCall_def date clock_step_def Let_def, simplified]
  note after = upsert_ledgerD [OF up spend_invD(2) [OF assms(1)], where d = "max 0 (pc_costCents input)"]
  show ?thesis using assms(1) after date by (simp add: spend_inv_def ledger_key_def called_cents_def)
qed

text \<open>What every settlement keeps, the sweep's settlements keep.\<close>
lemma finalise_keeps:
  assumes settle: "\<And>db db' k outcome r. P db \<Longrightarrow> outcome \<in> {So_estimated None, So_released} \<Longrightarrow>
      settleAttempt k at_time outcome db = Inr (db', r) \<Longrightarrow> P db'"
  shows "P db \<Longrightarrow> finalise_each at_time rows db cents estimated = Inr (db', r) \<Longrightarrow> P db'"
proof (induction rows arbitrary: db cents estimated)
  case (Cons row rows)
  show ?case
  proof (cases "is_open row")
    case True
    let ?o = "if rv_state row = Rv_calling then So_estimated None else So_released"
    obtain db1 settled where "settleAttempt (rv_id row) at_time ?o db = Inr (db1, settled)"
      and rest: "finalise_each at_time rows db1 (cents + (case settled of None \<Rightarrow> 0 | Some (c, _) \<Rightarrow> c))
          (estimated \<or> rv_state row = Rv_calling) = Inr (db', r)"
      using Cons.prems(2) True by (auto elim!: and_thenE)
    then have "P db1" using settle [OF Cons.prems(1), of ?o] by simp
    then show ?thesis using Cons.IH rest by blast
  next
    case False
    then show ?thesis using Cons.IH [OF Cons.prems(1)] Cons.prems(2) by simp
  qed
qed simp

lemma kept_law: "P db \<Longrightarrow> (\<And>db' x. r = Inr (db', x) \<Longrightarrow> P db') \<Longrightarrow> P (kept db r)"
  by (auto simp: kept_def split: sum.split)

text \<open>A run whose every command is allowed where it runs.\<close>
fun allowed_run :: "(SpendAct \<Rightarrow> SpendDb \<Rightarrow> bool) \<Rightarrow> tzdb \<Rightarrow> SpendAct list \<Rightarrow> SpendWorld \<Rightarrow> bool" where
  "allowed_run ok tz [] w \<longleftrightarrow> True"
| "allowed_run ok tz (a # acts) w \<longleftrightarrow> ok a (fst w) \<and> allowed_run ok tz acts (spend_act tz a w)"

text \<open>The contract of a law of the money: what each allowed command owes it, the sweep's own two
  settlements being allowed at any time.\<close>
locale spend_law =
  fixes tz :: tzdb and P :: "SpendWorld \<Rightarrow> bool" and ok :: "SpendAct \<Rightarrow> SpendDb \<Rightarrow> bool"
  assumes reserve: "P (db, calls) \<Longrightarrow> reserveAttempt tz drawn input db = Inr (db', row) \<Longrightarrow> P (db', calls)"
    and mark: "P (db, calls) \<Longrightarrow> markCalling tz current zone k db = Inr (db', marked) \<Longrightarrow> P (db', calls)"
    and settle: "P (db, calls) \<Longrightarrow> ok (Sa_settle k t outcome) db \<Longrightarrow> settleAttempt k t outcome db = Inr (db', r) \<Longrightarrow> P (db', calls)"
    and correct: "P (db, calls) \<Longrightarrow> ok (Sa_correct k cents) db \<Longrightarrow> correctSettledCents k cents db = Inr (db', c) \<Longrightarrow> P (db', calls)"
    and call: "P (db, calls) \<Longrightarrow> ok (Sa_call pc) db \<Longrightarrow> recordProviderCall tz pc db = Inr db' \<Longrightarrow>
      P (db', calls @ [(pc_providerKey pc, projr (localDate tz (pc_at pc) (pc_businessTimeZone pc)), max 0 (pc_costCents pc))])"
    and sweep: "P (db, calls) \<Longrightarrow> outcome \<in> {So_estimated None, So_released} \<Longrightarrow> ok (Sa_settle k t outcome) db"
begin

lemma finalise:
  "P (db, calls) \<Longrightarrow> finaliseSubjectReservations kind subjectId t db = Inr (db', r) \<Longrightarrow> P (db', calls)"
  unfolding finaliseSubjectReservations_def
  by (erule finalise_keeps [where P = "\<lambda>db. P (db, calls)", rotated]) (blast intro: settle sweep)+

lemma act:
  assumes "P w" "ok a (fst w)"
  shows "P (spend_act tz a w)"
proof -
  obtain db calls where w: "w = (db, calls)" by (cases w)
  note here = assms(1) [unfolded w] and fit = assms(2) [unfolded w fst_conv]
  note keep = kept_law [of "\<lambda>db. P (db, calls)", OF here]
  show ?thesis
  proof (cases a)
    case (Sa_reserve drawn input)
    show ?thesis unfolding Sa_reserve w spend_act.simps by (rule keep) (rule reserve [OF here])
  next
    case (Sa_mark current zone k)
    show ?thesis unfolding Sa_mark w spend_act.simps by (rule keep) (rule mark [OF here])
  next
    case (Sa_settle k t outcome)
    show ?thesis unfolding Sa_settle w spend_act.simps by (rule keep) (rule settle [OF here fit [unfolded Sa_settle]])
  next
    case (Sa_correct k cents)
    show ?thesis unfolding Sa_correct w spend_act.simps by (rule keep) (rule correct [OF here fit [unfolded Sa_correct]])
  next
    case (Sa_finalise kind subjectId t)
    show ?thesis unfolding Sa_finalise w spend_act.simps by (rule keep) (rule finalise [OF here])
  next
    case (Sa_call input)
    show ?thesis using call [OF here fit [unfolded Sa_call]] here by (simp add: Sa_call w split: sum.split)
  qed
qed

lemma run: "P w \<Longrightarrow> allowed_run ok tz acts w \<Longrightarrow> P (spend_run tz acts w)"
  by (induction acts arbitrary: w) (simp_all add: act)

end

interpretation spend_table: spend_law tz spend_inv "\<lambda>_ _. True" for tz
  by unfold_locales (blast intro: reserve_inv mark_inv settle_inv correct_inv call_inv)+

lemma allowed_all: "allowed_run (\<lambda>_ _. True) tz acts w"
  by (induction acts arbitrary: w) simp_all

lemmas spend_run_inv = spend_table.run [OF _ allowed_all]

definition no_spend :: SpendDb where
  "no_spend = \<lparr> sp_ledger = [], sp_reservations = [] \<rparr>"

lemma no_spend_inv: "spend_inv (no_spend, [])"
  by (simp add: spend_inv_def no_spend_def invoiced_def called_cents_def settled_cents_def)

text \<open>
  C1: Whatever commands run and in whatever order, refused and rolled back ones included, the ledger of
  every provider and date is the cost of its direct calls and the settled cents of its reservations,
  cent for cent; it has one row a provider and date, and no two reservations have one id.
\<close>
theorem ledger_is_the_invoices:
  "case spend_run tz acts (no_spend, []) of (db, calls) \<Rightarrow>
     invoiced (\<lambda>k d. k = key \<and> d = date) (sp_ledger db) =
       called_cents (\<lambda>k d. k = key \<and> d = date) calls + settled_cents (\<lambda>k d. k = key \<and> d = date) (sp_reservations db) \<and>
     distinct (map ledger_key (sp_ledger db)) \<and> distinct (map rv_id (sp_reservations db))"
proof -
  obtain db calls where w: "spend_run tz acts (no_spend, []) = (db, calls)" by (cases "spend_run tz acts (no_spend, [])")
  have "spend_inv (db, calls)" using spend_run_inv [OF no_spend_inv, of tz acts] w by simp
  then show ?thesis using spend_invD w by simp
qed

section \<open>The day's cap\<close>

text \<open>
  What the callers owe: a credit model's attempt settles for at most what it reserved, a correction
  of it only lowers, and no direct call is recorded for it.
\<close>
fun fits :: "SpendAct \<Rightarrow> SpendDb \<Rightarrow> bool" where
  "fits (Sa_settle k at_time outcome) db \<longleftrightarrow>
     list_all (\<lambda>r. rv_id r = k \<and> credit_model_kind (rv_providerKey r) \<longrightarrow> closing_cents outcome r \<le> rv_cents r) (sp_reservations db)"
| "fits (Sa_correct k cents) db \<longleftrightarrow>
     list_all (\<lambda>r. rv_id r = k \<and> credit_model_kind (rv_providerKey r) \<longrightarrow> cents \<le> rv_settledCents r) (sp_reservations db)"
| "fits (Sa_call input) db \<longleftrightarrow> \<not> credit_model_kind (pc_providerKey input) \<or> pc_costCents input \<le> 0"
| "fits _ db \<longleftrightarrow> True"

text \<open>What a row counts for: its settled cents, and its reserved ones while it is open.\<close>
definition weight :: "string \<Rightarrow> ReservationRow \<Rightarrow> int" where
  "weight date r = (if credit_model_kind (rv_providerKey r) \<and> rv_businessDate r = date
     then rv_settledCents r + (if is_open r then rv_cents r else 0) else 0)"

definition day_total :: "string \<Rightarrow> SpendWorld \<Rightarrow> int" where
  "day_total date w = called_cents (\<lambda>key d. credit_model_kind key \<and> d = date) (snd w) +
     sum_list (map (weight date) (sp_reservations (fst w)))"

lemma credit_kinds: "isCreditModelProvider key \<longleftrightarrow> credit_model_kind key"
  by (auto simp: isCreditModelProvider_def credit_model_kind_def CREDIT_FUNDED_PROVIDER_KINDS_def providerFunding_def
      PROVIDER_KIND_FUNDING_def)

lemma sum_filtered:
  "sum_list (map snd (filter (\<lambda>(d, _). p d) (map (\<lambda>x. (f x, g x)) (filter q xs)))) =
   sum_list (map (\<lambda>x. if q x \<and> p (f x) then g x else 0) xs)" for g :: "'a \<Rightarrow> int"
  by (induction xs) auto

lemma day_total_spend:
  assumes "spend_inv (db, calls)"
  shows "sd_todayCents (spend_on credit_model_kind date db) = day_total date (db, calls)"
proof -
  have same: "date \<le> d \<and> d \<le> date \<longleftrightarrow> d = date" for d :: string by auto
  have "sd_todayCents (spend_on credit_model_kind date db) =
      invoiced (\<lambda>key d. credit_model_kind key \<and> d = date) (sp_ledger db) +
      sum_list (map (\<lambda>r. if (is_open r \<and> credit_model_kind (rv_providerKey r)) \<and> rv_businessDate r = date then rv_cents r else 0)
        (sp_reservations db))"
    by (simp add: spend_on_def spend_between_def spend_rows_def same sum_filtered invoiced_def)
  also have "\<dots> = day_total date (db, calls)"
    by (simp add: spend_invD(5) [OF assms] day_total_def settled_cents_def weight_def sum_list_addf [symmetric])
      (rule arg_cong [where f = sum_list], simp add: weight_def)
  finally show ?thesis .
qed

lemma weight_update:
  assumes "spend_inv (db, calls)" "sql_one P (sp_reservations db) = Some row" "\<And>x. P x \<Longrightarrow> rv_id x = rv_id row"
    and "weight date (f row) \<le> weight date row"
  shows "sum_list (map (weight date) (sql_update P f (sp_reservations db))) \<le> sum_list (map (weight date) (sp_reservations db))"
  using sum_update_one [OF spend_invD(1) [OF assms(1)] assms(2,3), of "weight date" f] assms(4) by simp

lemma ledger_only: "upsert_ledger fresh change db = Inr db' \<Longrightarrow> sp_reservations db' = sp_reservations db"
  by (auto simp: upsert_ledger_def Let_def split: option.split_asm if_split_asm)

lemma settle_total:
  assumes "spend_inv (db, calls)" "settleAttempt k at_time outcome db = Inr (db', r)"
    and fits: "\<And>r. r \<in> set (sp_reservations db) \<Longrightarrow> rv_id r = k \<Longrightarrow> credit_model_kind (rv_providerKey r) \<Longrightarrow> closing_cents outcome r \<le> rv_cents r"
  shows "day_total date (db', calls) \<le> day_total date (db, calls)"
  using assms(2)
proof (cases rule: settleD)
  case (2 row db1)
  have row: "closable k outcome row" "row \<in> set (sp_reservations db)" using sql_one_Some [OF 2(1)] by blast+
  have "sp_reservations db' = sp_reservations db1"
    using 2(3) ledger_only by (auto simp: addLedgerCost_def split: if_split_asm)
  moreover have "weight date (close_row at_time outcome row) \<le> weight date row"
    using row fits [OF row(2)] spend_invD(3) [OF assms(1) row(2)]
    by (auto simp: weight_def close_row_def closable_def is_open_def OPEN_RESERVATION_STATES_def closing_state_def reservation_ok_def
        split: AttemptOutcome.splits)
  ultimately show ?thesis
    using weight_update [OF assms(1) 2(1), of date "close_row at_time outcome"] row(1) by (simp add: 2(2) day_total_def closable_def)
qed simp

lemma correct_total:
  assumes "spend_inv (db, calls)" "correctSettledCents k cents db = Inr (db', r)"
    and fits: "\<And>r. r \<in> set (sp_reservations db) \<Longrightarrow> rv_id r = k \<Longrightarrow> credit_model_kind (rv_providerKey r) \<Longrightarrow> cents \<le> rv_settledCents r"
  shows "day_total date (db', calls) \<le> day_total date (db, calls)"
  using assms(2)
proof (cases rule: correctD)
  case (2 row db1)
  let ?f = "\<lambda>r. r\<lparr> rv_state := Rv_settled, rv_settledCents := max 0 cents \<rparr>"
  have row: "correctable k (max 0 cents) row" "row \<in> set (sp_reservations db)" using sql_one_Some [OF 2(1)] by blast+
  have "sp_reservations db' = sp_reservations db1"
    using 2(3) ledger_only by (auto split: if_split_asm)
  moreover have "weight date (?f row) \<le> weight date row"
    using row fits [OF row(2)] spend_invD(3) [OF assms(1) row(2)]
    by (auto simp: weight_def correctable_def is_open_def OPEN_RESERVATION_STATES_def reservation_ok_def)
  ultimately show ?thesis
    using weight_update [OF assms(1) 2(1), of date ?f] row(1) by (simp add: 2(2) day_total_def correctable_def)
qed simp

lemma mark_total:
  assumes "spend_inv (db, calls)" "markCalling tz current zone k db = Inr (db', marked)"
  shows "day_total date (db', calls) \<le> day_total date (db, calls)"
  using assms(2)
proof (cases rule: markD)
  case (2 row)
  have "sum_list (map (weight date) (sp_reservations db')) = sum_list (map (weight date) (sp_reservations db))"
    unfolding 2(4)
    by (auto simp: sql_update_def comp_def weight_def is_open_def OPEN_RESERVATION_STATES_def intro!: arg_cong [where f = sum_list])
  then show ?thesis by (simp add: day_total_def)
qed simp

lemma reserve_total:
  assumes "spend_inv (db, calls)" "reserveAttempt tz drawn input db = Inr (db', row)"
  shows "day_total date (db', calls) \<le> max DAILY_CREDIT_MODEL_CAP_CENTS (day_total date (db, calls))"
  using assms(2)
proof (cases rule: reserveD)
  case (2 today)
  have grows: "day_total date (db', calls) = day_total date (db, calls) + weight date (reserved_row drawn today input)"
    by (simp add: 2(1) day_total_def)
  show ?thesis
  proof (cases "credit_model_kind (ri_providerKey input) \<and> today = date")
    case True
    then have "sd_todayCents (spend_on credit_model_kind date db) + ri_cents input \<le> DAILY_CREDIT_MODEL_CAP_CENTS"
      using 2(5,6) by (auto simp: clearCreditModelBudget_def credit_kinds readCreditModelSpend_def readFundedSpend_def clock_step_def
          split: if_split_asm)
    then show ?thesis using grows True 2(3) day_total_spend [OF assms(1), of date]
      by (simp add: weight_def reserved_row_def is_open_def OPEN_RESERVATION_STATES_def)
  next
    case False
    then show ?thesis using grows by (auto simp: weight_def reserved_row_def)
  qed
qed simp

lemma call_total:
  assumes "recordProviderCall tz input db = Inr db'" "fits (Sa_call input) db"
  shows "day_total date (db', calls @ [(pc_providerKey input, d, max 0 (pc_costCents input))]) = day_total date (db, calls)"
proof -
  have "sp_reservations db' = sp_reservations db"
    using assms(1) ledger_only by (auto simp: recordProviderCall_def clock_step_def Let_def split: sum.split_asm elim!: and_thenE)
  then show ?thesis using assms(2) by (auto simp: day_total_def called_cents_def)
qed

lemma sweep_fits: "spend_inv (db, calls) \<Longrightarrow> outcome \<in> {So_estimated None, So_released} \<Longrightarrow> fits (Sa_settle k t outcome) db"
  using spend_invD(3) by (auto simp: list_all_iff closing_cents_def reservation_ok_def)

definition under_cap :: "string \<Rightarrow> SpendWorld \<Rightarrow> bool" where
  "under_cap date w \<longleftrightarrow> spend_inv w \<and> day_total date w \<le> DAILY_CREDIT_MODEL_CAP_CENTS"

interpretation day_cap: spend_law tz "under_cap date" fits for tz date
proof
  fix db calls k t outcome db' r
  assume "under_cap date (db, calls)" "fits (Sa_settle k t outcome) db" "settleAttempt k t outcome db = Inr (db', r)"
  then show "under_cap date (db', calls)"
    using settle_total [of db calls k t outcome db' r date] settle_inv by (auto simp: under_cap_def list_all_iff)
next
  fix db calls k cents db' c
  assume "under_cap date (db, calls)" "fits (Sa_correct k cents) db" "correctSettledCents k cents db = Inr (db', c)"
  then show "under_cap date (db', calls)"
    using correct_total [of db calls k cents db' c date] correct_inv by (auto simp: under_cap_def list_all_iff)
next
  fix db calls drawn input db' row
  assume "under_cap date (db, calls)" "reserveAttempt tz drawn input db = Inr (db', row)"
  then show "under_cap date (db', calls)"
    using reserve_total [of db calls tz drawn input db' row date] reserve_inv by (auto simp: under_cap_def)
next
  fix db calls current zone k db' marked
  assume "under_cap date (db, calls)" "markCalling tz current zone k db = Inr (db', marked)"
  then show "under_cap date (db', calls)"
    using mark_total [of db calls tz current zone k db' marked date] mark_inv by (auto simp: under_cap_def)
qed (auto simp: under_cap_def call_total call_inv sweep_fits simp del: fits.simps)


section \<open>A called reservation is paid\<close>

definition state_of :: "uuid \<Rightarrow> SpendDb \<Rightarrow> ReservationState option" where
  "state_of k db = map_option rv_state (find_reservation k db)"

text \<open>The command by which the claim that marked a row says no request was sent.\<close>
fun not_called :: "uuid \<Rightarrow> SpendAct \<Rightarrow> bool" where
  "not_called k (Sa_settle k' at_time outcome) \<longleftrightarrow> k' = k \<and> outcome = So_released_not_called"
| "not_called k _ \<longleftrightarrow> False"

definition committed :: "ReservationState option \<Rightarrow> bool" where
  "committed s \<longleftrightarrow> s \<in> {Some Rv_calling, Some Rv_settled, Some Rv_estimated}"

lemma find_after_update:
  assumes "\<And>r. rv_id (f r) = rv_id r"
  shows "sql_one (\<lambda>r. rv_id r = k) (sql_update P f rows) = map_option (\<lambda>r. if P r then f r else r) (sql_one (\<lambda>r. rv_id r = k) rows)"
  by (induction rows) (simp_all add: assms)

lemma update_committed:
  assumes "committed (state_of k db)" "sp_reservations db' = sql_update P f (sp_reservations db)"
    and same: "\<And>r. rv_id (f r) = rv_id r"
    and keeps: "\<And>r. P r \<Longrightarrow> rv_id r = k \<Longrightarrow> committed (Some (rv_state r)) \<Longrightarrow> committed (Some (rv_state (f r)))"
  shows "committed (state_of k db')"
proof -
  obtain r where r: "find_reservation k db = Some r" "committed (Some (rv_state r))"
    using assms(1) by (cases "find_reservation k db") (simp_all add: state_of_def committed_def)
  have "rv_id r = k" using r(1) sql_one_Some by (force simp: find_reservation_def)
  then have "committed (Some (rv_state (if P r then f r else r)))" using r(2) keeps [of r] by simp
  then show ?thesis using r(1) by (simp add: state_of_def find_reservation_def assms(2) find_after_update [OF same])
qed

lemma settle_committed:
  assumes "settleAttempt k' at_time outcome db = Inr (db', r)" "committed (state_of k db)" "k' = k \<longrightarrow> outcome \<noteq> So_released_not_called"
  shows "committed (state_of k db')"
  using assms(1)
proof (cases rule: settleD)
  case (2 row db1)
  have "sp_reservations db' = sql_update (closable k' outcome) (close_row at_time outcome) (sp_reservations db)"
    using 2(2,3) ledger_only by (force simp: addLedgerCost_def split: if_split_asm)
  then show ?thesis
    by (rule update_committed [OF assms(2)])
      (use assms(3) in \<open>auto simp: close_row_def committed_def closable_def closing_state_def split: AttemptOutcome.splits\<close>)
qed (use assms(2) in simp)

lemma correct_committed:
  assumes "correctSettledCents k' cents db = Inr (db', r)" "committed (state_of k db)"
  shows "committed (state_of k db')"
  using assms(1)
proof (cases rule: correctD)
  case (2 row db1)
  have "sp_reservations db' = sql_update (correctable k' (max 0 cents))
      (\<lambda>r. r\<lparr> rv_state := Rv_settled, rv_settledCents := max 0 cents \<rparr>) (sp_reservations db)"
    using 2(2,3) ledger_only by (force split: if_split_asm)
  then show ?thesis by (rule update_committed [OF assms(2)]) (simp_all add: committed_def)
qed (use assms(2) in simp)

lemma mark_committed:
  assumes "markCalling tz current zone k' db = Inr (db', marked)" "committed (state_of k db)"
  shows "committed (state_of k db')"
  using assms(1)
proof (cases rule: markD)
  case (2 row)
  then have "sp_reservations db' = sql_update (\<lambda>r. rv_id r = k' \<and> rv_state r = Rv_reserved) (\<lambda>r. r\<lparr> rv_state := Rv_calling \<rparr>)
      (sp_reservations db)" by simp
  then show ?thesis by (rule update_committed [OF assms(2)]) (simp_all add: committed_def)
qed (use assms(2) in simp)

lemma reserve_committed:
  assumes "reserveAttempt tz drawn input db = Inr (db', row)" "committed (state_of k db)"
  shows "committed (state_of k db')"
  using assms(1)
proof (cases rule: reserveD)
  case (2 date)
  then show ?thesis using assms(2)
    by (auto simp: state_of_def find_reservation_def committed_def sql_one_append split: option.split)
qed (use assms(2) in simp)

lemma call_committed:
  assumes "recordProviderCall tz input db = Inr db'"
  shows "state_of k db' = state_of k db"
proof -
  have "sp_reservations db' = sp_reservations db"
    using assms ledger_only by (auto simp: recordProviderCall_def clock_step_def Let_def split: sum.split_asm elim!: and_thenE)
  then show ?thesis by (simp add: state_of_def find_reservation_def)
qed

interpretation committed_row: spend_law tz "\<lambda>w. committed (state_of k (fst w))" "\<lambda>a db. \<not> not_called k a" for tz k
  by unfold_locales (auto simp: call_committed intro: reserve_committed mark_committed settle_committed correct_committed)

lemma never_not_called: "\<not> list_ex (not_called k) acts \<Longrightarrow> allowed_run (\<lambda>a db. \<not> not_called k a) tz acts w"
  by (induction acts arbitrary: w) simp_all

text \<open>
  C1: Once an attempt is marked as called, it stays called until it settles or is estimated, and what
  settled or was estimated never opens again nor is released, whatever commands run: only the claim
  that says it sent nothing gives the cents back.
\<close>
theorem called_is_never_given_back:
  assumes "state_of k (fst w) \<in> {Some Rv_calling, Some Rv_settled, Some Rv_estimated}" "\<not> list_ex (not_called k) acts"
  shows "state_of k (fst (spend_run tz acts w)) \<in> {Some Rv_calling, Some Rv_settled, Some Rv_estimated}"
  using committed_row.run [OF _ never_not_called [OF assms(2)]] assms(1) unfolding committed_def .

section \<open>The sweep of a subject\<close>

text \<open>What the sweep makes of a row: a called one is charged in full, an uncalled one given back.\<close>
definition swept :: "instant \<Rightarrow> ReservationRow \<Rightarrow> ReservationRow" where
  "swept at_time r = (case rv_state r of
     Rv_calling \<Rightarrow> r\<lparr> rv_state := Rv_estimated, rv_settledCents := rv_cents r, rv_settledAt := Some at_time \<rparr>
   | Rv_reserved \<Rightarrow> r\<lparr> rv_state := Rv_released, rv_settledCents := 0, rv_settledAt := Some at_time \<rparr>
   | _ \<Rightarrow> r)"

lemma swept_id [simp]: "rv_id (swept t r) = rv_id r" "rv_subjectKind (swept t r) = rv_subjectKind r"
  "rv_subjectId (swept t r) = rv_subjectId r"
  by (simp_all add: swept_def split: ReservationState.split)

lemma is_open_states: "is_open r \<longleftrightarrow> rv_state r = Rv_reserved \<or> rv_state r = Rv_calling"
  by (simp add: is_open_def OPEN_RESERVATION_STATES_def)

lemma same_row: "distinct (map rv_id rows) \<Longrightarrow> r \<in> set rows \<Longrightarrow> x \<in> set rows \<Longrightarrow> rv_id x = rv_id r \<Longrightarrow> x = r"
  by (meson distinct_map inj_onD)

lemma settle_swept:
  assumes "distinct (map rv_id (sp_reservations db))" "row \<in> set (sp_reservations db)" "is_open row"
    and "settleAttempt (rv_id row) at_time (if rv_state row = Rv_calling then So_estimated None else So_released) db = Inr (db1, settled)"
  shows "sp_reservations db1 = map (\<lambda>r. if r = row then swept at_time r else r) (sp_reservations db)"
    "settled = Some (rv_settledCents (swept at_time row), rv_state (swept at_time row))"
proof -
  let ?o = "if rv_state row = Rv_calling then So_estimated None else So_released"
  have closable: "closable (rv_id row) ?o r \<longleftrightarrow> r = row" if "r \<in> set (sp_reservations db)" for r
    using same_row [OF assms(1,2) that] assms(3) by (auto simp: closable_def is_open_states)
  have found: "sql_one (closable (rv_id row) ?o) (sp_reservations db) = Some row"
  proof (cases "sql_one (closable (rv_id row) ?o) (sp_reservations db)")
    case None
    then show ?thesis using closable assms(2) by (auto simp: sql_one_None)
  next
    case (Some r)
    then show ?thesis using sql_one_Some [OF Some] closable [of r] by simp
  qed
  have close: "close_row at_time ?o row = swept at_time row"
    using assms(3) by (auto simp: close_row_def swept_def is_open_states closing_state_def closing_cents_def)
  have "sp_reservations db1 = sql_update (closable (rv_id row) ?o) (close_row at_time ?o) (sp_reservations db)"
    using assms(4) found ledger_only by (force simp: settleAttempt_def Let_def addLedgerCost_def split: if_split_asm elim!: and_thenE)
  also have "\<dots> = map (\<lambda>r. if r = row then swept at_time r else r) (sp_reservations db)"
    using closable close by (auto simp: sql_update_def)
  finally show "sp_reservations db1 = map (\<lambda>r. if r = row then swept at_time r else r) (sp_reservations db)" .
  have "settled = Some (closing_cents ?o row, closing_state ?o)"
    using assms(4) found by (auto simp: settleAttempt_def Let_def split: if_split_asm elim!: and_thenE)
  then show "settled = Some (rv_settledCents (swept at_time row), rv_state (swept at_time row))"
    using assms(3) by (auto simp: swept_def is_open_states closing_state_def closing_cents_def)
qed

lemma finalise_each_swept:
  "distinct (map rv_id (sp_reservations db)) \<Longrightarrow> distinct rows \<Longrightarrow> set rows \<subseteq> set (sp_reservations db) \<Longrightarrow>
   finalise_each at_time rows db cents estimated = Inr (db', owed, any) \<Longrightarrow>
   sp_reservations db' = map (\<lambda>r. if r \<in> set rows then swept at_time r else r) (sp_reservations db) \<and>
   owed = cents + sum_list (map (\<lambda>r. rv_settledCents (swept at_time r)) rows)"
proof (induction rows arbitrary: db cents estimated)
  case (Cons row rows)
  show ?case
  proof (cases "is_open row")
    case True
    let ?o = "if rv_state row = Rv_calling then So_estimated None else So_released"
    obtain db1 settled where s: "settleAttempt (rv_id row) at_time ?o db = Inr (db1, settled)"
      and rest: "finalise_each at_time rows db1 (cents + (case settled of None \<Rightarrow> 0 | Some (c, _) \<Rightarrow> c))
          (estimated \<or> rv_state row = Rv_calling) = Inr (db', owed, any)"
      using Cons.prems(4) True by (auto elim!: and_thenE)
    have row: "row \<in> set (sp_reservations db)" using Cons.prems(3) by simp
    note one = settle_swept [OF Cons.prems(1) row True s]
    have "map rv_id (sp_reservations db1) = map rv_id (sp_reservations db)" by (simp add: one(1))
    then have ids: "distinct (map rv_id (sp_reservations db1))" using Cons.prems(1) by simp
    have "set rows \<subseteq> set (sp_reservations db1)"
      using Cons.prems(2,3) by (auto simp: one(1) image_iff)
    then have IH: "sp_reservations db' = map (\<lambda>r. if r \<in> set rows then swept at_time r else r) (sp_reservations db1) \<and>
        owed = cents + rv_settledCents (swept at_time row) + sum_list (map (\<lambda>r. rv_settledCents (swept at_time r)) rows)"
      using Cons.IH [OF ids _ _ rest] Cons.prems(2) by (simp add: one(2))
    have "swept at_time row \<notin> set rows"
    proof
      assume "swept at_time row \<in> set rows"
      then have "swept at_time row = row" using same_row [OF Cons.prems(1) row] Cons.prems(3) by auto
      then show False using \<open>swept at_time row \<in> set rows\<close> Cons.prems(2) by simp
    qed
    then show ?thesis using IH Cons.prems(2) by (auto simp: one(1))
  next
    case False
    then have same: "swept at_time row = row" by (simp add: swept_def is_open_states split: ReservationState.split)
    have IH: "sp_reservations db' = map (\<lambda>r. if r \<in> set rows then swept at_time r else r) (sp_reservations db) \<and>
        owed = cents + rv_settledCents row + sum_list (map (\<lambda>r. rv_settledCents (swept at_time r)) rows)"
      using Cons.IH [OF Cons.prems(1) _ _ ] Cons.prems(2-4) False by simp
    then show ?thesis by (auto simp: same)
  qed
qed simp

lemma sum_list_sort_key: "sum_list (map f (sort_key g xs)) = sum_list (map f xs)" for f :: "'a \<Rightarrow> int"
  by (metis mset_map mset_sort sum_mset_sum_list)

text \<open>
  C1: The sweep of a subject charges each attempt that was marked as called with all it reserved, gives
  back each that was not, leaves the closed ones and every other subject's alone, and answers
  exactly the cents the subject's rows then hold.
\<close>
theorem finalise_settles_subject:
  assumes "distinct (map rv_id (sp_reservations db))"
    and "finaliseSubjectReservations kind subjectId at_time db = Inr (db', cents, estimated)"
  shows "sp_reservations db' = map (\<lambda>r. if rv_subjectKind r = kind \<and> rv_subjectId r = subjectId then swept at_time r else r)
      (sp_reservations db) \<and> cents = subjectSettledCents kind subjectId db'"
proof -
  let ?mine = "\<lambda>r. rv_subjectKind r = kind \<and> rv_subjectId r = subjectId"
  have "distinct (listAttempts kind subjectId db)"
    using assms(1) by (simp add: listAttempts_def distinct_map)
  note all = finalise_each_swept [OF assms(1) this _ assms(2) [unfolded finaliseSubjectReservations_def]]
  have rows: "sp_reservations db' = map (\<lambda>r. if ?mine r then swept at_time r else r) (sp_reservations db)"
    using all by (auto simp: listAttempts_def)
  have "cents = sum_list (map (\<lambda>r. rv_settledCents (swept at_time r)) (filter ?mine (sp_reservations db)))"
    using all by (auto simp: listAttempts_def sum_list_sort_key)
  moreover have "map rv_settledCents (filter ?mine (map (\<lambda>r. if ?mine r then swept at_time r else r) xs)) =
      map (\<lambda>r. rv_settledCents (swept at_time r)) (filter ?mine xs)" for xs
    by (induction xs) auto
  ultimately show ?thesis using rows by (simp add: subjectSettledCents_def)
qed

section \<open>Witnesses\<close>

definition demo_reserve :: "int \<Rightarrow> int \<Rightarrow> ReserveInput" where
  "demo_reserve attempt cents = \<lparr> ri_providerKey = ''aws_bedrock.drafts'', ri_subjectKind = ''draft'', ri_subjectId = ''d1'',
     ri_attempt = attempt, ri_at = Some 1767625200000, ri_businessTimeZone = ''America/New_York'', ri_cents = cents,
     ri_modelName = ''m'', ri_maxInputTokens = 1000, ri_maxOutputTokens = 100 \<rparr>"

definition demo_acts :: "SpendAct list" where
  "demo_acts = [Sa_reserve ''r1'' (demo_reserve 1 3000), Sa_mark 1767625200000 ''America/New_York'' ''r1'',
     Sa_reserve ''r2'' (demo_reserve 2 2001), Sa_reserve ''r2'' (demo_reserve 2 2000), Sa_settle ''r1'' 1767625260000 (So_settled 2500)]"

lemma demo_today: "localDate new_york_2026 (Some 1767625200000) ''America/New_York'' = Inr ''2026-01-05''"
  by code_simp

lemmas spend_steps = kept_def reserveAttempt_def markCalling_def settleAttempt_def outcome_fits_def clock_step_def isSafeInteger_def int4_def readAttempt_def
  find_reservation_def clearCreditModelBudget_def credit_kinds [symmetric] isCreditModelProvider_def providerFunding_def providerKind_def
  PROVIDER_KIND_FUNDING_def readCreditModelSpend_def readFundedSpend_def spend_on_def spend_rows_def spend_between_def is_open_states
  DAILY_CREDIT_MODEL_CAP_CENTS_def reserved_row_def closable_def close_row_def closing_cents_def closing_state_def addLedgerCost_def
  upsert_ledger_def is_ledger_def settled_row_def same_obligation_def


definition demo_called :: SpendDb where
  "demo_called = \<lparr> sp_ledger = [], sp_reservations =
     [(reserved_row ''r1'' ''2026-01-05'' (demo_reserve 1 3000))\<lparr> rv_state := Rv_calling \<rparr>,
      reserved_row ''r2'' ''2026-01-05'' (demo_reserve 2 2000)] \<rparr>"

lemma called_is_never_given_back_witness:
  "state_of ''r1'' (fst (spend_run new_york_2026 [Sa_settle ''r1'' 1767625260000 So_released, Sa_finalise ''draft'' ''d1'' 1767625260000]
     (demo_called, []))) \<in> {Some Rv_calling, Some Rv_settled, Some Rv_estimated}"
  by (rule called_is_never_given_back)
    (simp_all add: state_of_def demo_called_def find_reservation_def reserved_row_def)

lemma finalise_settles_subject_witness:
  "case finaliseSubjectReservations ''draft'' ''d1'' 1767625260000 demo_called of
     Inr (db', cents, estimated) \<Rightarrow> sp_reservations db' =
       map (\<lambda>r. if rv_subjectKind r = ''draft'' \<and> rv_subjectId r = ''d1'' then swept 1767625260000 r else r) (sp_reservations demo_called) \<and>
       cents = subjectSettledCents ''draft'' ''d1'' db' \<and> cents = 3000 \<and> estimated
   | Inl _ \<Rightarrow> False"
proof -
  have "case finaliseSubjectReservations ''draft'' ''d1'' 1767625260000 demo_called of
      Inr (_, cents, estimated) \<Rightarrow> cents = 3000 \<and> estimated | Inl _ \<Rightarrow> False" by code_simp
  then obtain db' where run: "finaliseSubjectReservations ''draft'' ''d1'' 1767625260000 demo_called = Inr (db', 3000, True)"
    by (auto split: sum.split_asm)
  have "distinct (map rv_id (sp_reservations demo_called))" by code_simp
  from finalise_settles_subject [OF this run] show ?thesis by (simp add: run)
qed

end
