(* ===== verification/Templates.thy ===== *)
theory Templates
  imports Policy "HOL-Library.List_Lexorder"
begin

text \<open>
  Templates: the rules a text must pass (\<open>packages/domain/src/rules/templates.ts\<close>) and the table of
  versions with its three commands (\<open>packages/domain/templates/templates.ts\<close>), under the CHECK
  constraints of migrations 0009 and 0024 and the trigger of 0026.  Texts are lists of UTF-16 code
  units; NFKC, \<open>toLowerCase\<close> and SHA-256 are parameters.
\<close>

section \<open>The text\<close>

definition TEMPLATE_SUBJECT_MAX_LENGTH :: nat where
  "TEMPLATE_SUBJECT_MAX_LENGTH = 160"

definition TEMPLATE_BODY_MAX_LENGTH :: nat where
  "TEMPLATE_BODY_MAX_LENGTH = 4000"

definition TEMPLATE_MAX_WORDS :: nat where
  "TEMPLATE_MAX_WORDS = 89"

definition TEMPLATE_MAX_URLS :: nat where
  "TEMPLATE_MAX_URLS = 1"

definition TEMPLATE_FORBIDDEN_PHRASES :: "jstring list" where
  "TEMPLATE_FORBIDDEN_PHRASES = map lit [''guarantee'', ''guaranteed'', ''guarantees'', ''warranty'', ''pricing'', ''price'',
     ''priced'', ''prices'', ''discount'', ''free trial'', ''risk-free'', ''money back'', ''refund'', ''we promise'', ''i promise'',
     ''we will'', ''we guarantee'', ''no obligation'', ''roi'']"

record TemplateText =
  tt_subject :: jstring
  tt_body :: jstring

text \<open>The functions outside the repository.\<close>
record TemplateEnv =
  te_nfkc :: "jstring \<Rightarrow> jstring"
  te_lower :: "jstring \<Rightarrow> jstring"
  te_sha :: "uuid \<times> int \<times> jstring \<times> jstring \<Rightarrow> string"

text \<open>The hash of the JSON of the four fields that vary.\<close>
definition templateContentHash :: "TemplateEnv \<Rightarrow> uuid \<Rightarrow> int \<Rightarrow> TemplateText \<Rightarrow> string" where
  "templateContentHash env templateId version text = te_sha env (templateId, version, tt_subject text, tt_body text)"

text \<open>\<open>trim().split(/\s+/).length\<close>, zero of a blank text: the maximal runs without white space.\<close>
fun word_count :: "bool \<Rightarrow> jstring \<Rightarrow> nat" where
  "word_count inside [] = 0"
| "word_count inside (c # cs) = (if ws c then word_count False cs else (if inside then 0 else 1) + word_count True cs)"

definition countWords :: "jstring \<Rightarrow> nat" where
  "countWords s = word_count False s"

fun countUrls :: "jstring \<Rightarrow> nat" where
  "countUrls [] = 0"
| "countUrls (c # cs) = (if prefix (lit ''http://'') (c # cs) \<or> prefix (lit ''https://'') (c # cs) then 1 else 0) + countUrls cs"

text \<open>\<open>/\{[^{}]*\}/g\<close> cuts a text into placeholders and the code units between them.\<close>
datatype piece = Unit nat | Named jstring

definition in_name :: "nat \<Rightarrow> bool" where
  "in_name c \<longleftrightarrow> c \<noteq> 123 \<and> c \<noteq> 125"

function pieces :: "jstring \<Rightarrow> piece list" where
  "pieces [] = []"
| "pieces (c # cs) =
     (if c = 123 \<and> (case dropWhile in_name cs of [] \<Rightarrow> False | d # _ \<Rightarrow> d = 125)
      then Named (takeWhile in_name cs) # pieces (tl (dropWhile in_name cs))
      else Unit c # pieces cs)"
  by pat_completeness auto

lemma after_name_shorter: "length (dropWhile p cs) - Suc 0 < Suc (length cs)"
  using length_dropWhile_le [of p cs] by linarith

termination pieces
  by (relation "measure length") (simp_all add: after_name_shorter)

fun piece_names :: "piece list \<Rightarrow> jstring list" where
  "piece_names [] = []"
| "piece_names (Unit c # ps) = piece_names ps"
| "piece_names (Named n # ps) = n # piece_names ps"

definition placeholders :: "jstring \<Rightarrow> jstring list" where
  "placeholders s = piece_names (pieces s)"

record TemplateRules =
  ru_footer :: SendFooterConfiguration
  ru_allowedVariables :: "jstring list"
  ru_requiredSentence :: "jstring option"

section \<open>The refusals and the advice\<close>

datatype TemplateIssue =
    Subject_empty | Subject_too_long | Subject_not_one_line | Body_too_long_in_characters | Body_not_plain_text | Body_markup
  | Issue_optout_link | Sign_off_repeats_stop_line | Footer_missing | Required_sentence_missing | Unknown_variable

text \<open>\<open>/[\x00-\x1f\x7f]/\<close> and \<open>/[\x00-\x08\x0b-\x1f\x7f]|\r/\<close>\<close>
definition control_unit :: "nat \<Rightarrow> bool" where
  "control_unit c \<longleftrightarrow> c \<le> 31 \<or> c = 127"

definition not_plain_unit :: "nat \<Rightarrow> bool" where
  "not_plain_unit c \<longleftrightarrow> c \<le> 8 \<or> (11 \<le> c \<and> c \<le> 31) \<or> c = 127 \<or> c = 13"

definition letter :: "nat \<Rightarrow> bool" where
  "letter c \<longleftrightarrow> (97 \<le> c \<and> c \<le> 122) \<or> (65 \<le> c \<and> c \<le> 90)"

text \<open>\<open>/<[a-z/!][^>]*>/i\<close>\<close>
fun has_markup :: "jstring \<Rightarrow> bool" where
  "has_markup [] \<longleftrightarrow> False"
| "has_markup (c # cs) \<longleftrightarrow>
     (c = 60 \<and> (case cs of [] \<Rightarrow> False | d # ds \<Rightarrow> (letter d \<or> d = 47 \<or> d = 33) \<and> 62 \<in> set ds)) \<or> has_markup cs"

definition when_issue :: "bool \<Rightarrow> TemplateIssue \<Rightarrow> TemplateIssue list" where
  "when_issue hit issue = (if hit then [issue] else [])"

text \<open>The composition an approval tries: without any address.\<close>
definition approval_composed :: "TemplateEnv \<Rightarrow> TemplateText \<Rightarrow> TemplateRules \<Rightarrow> ComposeSendBodyDecision" where
  "approval_composed env text rules = composeSendBody (te_nfkc env) (tt_body text)
     ((ru_footer rules)\<lparr> postalAddress := None, recordedAddresses := [] \<rparr>) APPROVAL_FOOTER_POLICY"

definition compose_issue :: "ComposeSendBodyRefusal \<Rightarrow> TemplateIssue" where
  "compose_issue reason = (case reason of Composed_body_too_long \<Rightarrow> Body_too_long_in_characters
     | Optout_link \<Rightarrow> Issue_optout_link | _ \<Rightarrow> Footer_missing)"

definition text_issues :: "TemplateEnv \<Rightarrow> TemplateText \<Rightarrow> TemplateRules \<Rightarrow> TemplateIssue list" where
  "text_issues env text rules =
     when_issue (trim (tt_subject text) = []) Subject_empty @
     when_issue (length (tt_subject text) > TEMPLATE_SUBJECT_MAX_LENGTH) Subject_too_long @
     when_issue (list_ex control_unit (tt_subject text)) Subject_not_one_line @
     when_issue (length (tt_body text) > TEMPLATE_BODY_MAX_LENGTH) Body_too_long_in_characters @
     when_issue (list_ex not_plain_unit (tt_body text)) Body_not_plain_text @
     when_issue (has_markup (tt_body text)) Body_markup @
     when_issue (hasOptOutLink (te_nfkc env) (tt_subject text) \<or> hasOptOutLink (te_nfkc env) (tt_body text) \<or>
       hasOptOutLink (te_nfkc env) (signOff (ru_footer rules))) Issue_optout_link @
     when_issue (hasStopLine (signOff (ru_footer rules))) Sign_off_repeats_stop_line"

definition templateTextIssues :: "TemplateEnv \<Rightarrow> TemplateText \<Rightarrow> TemplateRules \<Rightarrow> TemplateIssue list" where
  "templateTextIssues env text rules =
     (let issues = text_issues env text rules;
          composed = (case approval_composed env text rules of
              Composed _ _ _ \<Rightarrow> issues
            | Not_composed reason _ \<Rightarrow>
                if hasStopLine (signOff (ru_footer rules)) \<or> compose_issue reason \<in> set issues then issues
                else issues @ [compose_issue reason]) in
      composed @
      when_issue (case ru_requiredSentence rules of None \<Rightarrow> False | Some s \<Rightarrow> \<not> has_sub s (tt_body text)) Required_sentence_missing @
      when_issue (list_ex (\<lambda>n. n \<notin> set (ru_allowedVariables rules)) (placeholders (tt_subject text) @ placeholders (tt_body text)))
        Unknown_variable)"

datatype TemplateWarningCode = Warn_body_too_long | Warn_body_multiple_urls | Warn_subject_url | Warn_pricing_or_guarantee_language

text \<open>\<open>(^|[^a-z])phrase([^a-z]|$)\<close>; the first argument tells whether a boundary is before.\<close>
fun has_phrase :: "bool \<Rightarrow> jstring \<Rightarrow> jstring \<Rightarrow> bool" where
  "has_phrase boundary phrase [] \<longleftrightarrow> boundary \<and> phrase = []"
| "has_phrase boundary phrase (c # cs) \<longleftrightarrow>
     (boundary \<and> prefix phrase (c # cs) \<and>
      (case drop (length phrase) (c # cs) of [] \<Rightarrow> True | d # _ \<Rightarrow> \<not> (97 \<le> d \<and> d \<le> 122))) \<or>
     has_phrase (\<not> (97 \<le> c \<and> c \<le> 122)) phrase cs"

definition money_digit :: "nat \<Rightarrow> bool" where
  "money_digit c \<longleftrightarrow> 48 \<le> c \<and> c \<le> 57"

text \<open>\<open>\s?x\<close> at the start, for a class \<open>x\<close> without white space.\<close>
definition after_space :: "(nat \<Rightarrow> bool) \<Rightarrow> jstring \<Rightarrow> bool" where
  "after_space p cs = (case cs of [] \<Rightarrow> False | d # ds \<Rightarrow> p d \<or> (ws d \<and> (case ds of [] \<Rightarrow> False | e # _ \<Rightarrow> p e)))"

text \<open>\<open>/[$\<close>, euro, pound\<open>]\s?\d|\d\s?%/\<close>\<close>
fun has_money :: "jstring \<Rightarrow> bool" where
  "has_money [] \<longleftrightarrow> False"
| "has_money (c # cs) \<longleftrightarrow> (c \<in> {36, 0x20AC, 0xA3} \<and> after_space money_digit cs) \<or>
     (money_digit c \<and> after_space (\<lambda>d. d = 37) cs) \<or> has_money cs"

definition templateTextWarnings :: "TemplateEnv \<Rightarrow> TemplateText \<Rightarrow> TemplateWarningCode list" where
  "templateTextWarnings env text =
     (let lowered = te_lower env (tt_subject text @ nl @ tt_body text) in
      (if countWords (tt_body text) > TEMPLATE_MAX_WORDS then [Warn_body_too_long] else []) @
      (if countUrls (tt_body text) > TEMPLATE_MAX_URLS then [Warn_body_multiple_urls] else []) @
      (if countUrls (tt_subject text) > 0 then [Warn_subject_url] else []) @
      (if list_ex (\<lambda>phrase. has_phrase True phrase lowered) TEMPLATE_FORBIDDEN_PHRASES \<or> has_money lowered
       then [Warn_pricing_or_guarantee_language] else []))"

datatype TemplateApprovalDecision =
    Approve string "TemplateWarningCode list"
  | Not_approved "TemplateIssue list" "TemplateWarningCode list"

definition decideTemplateApproval :: "TemplateEnv \<Rightarrow> uuid \<Rightarrow> int \<Rightarrow> TemplateText \<Rightarrow> TemplateRules \<Rightarrow> TemplateApprovalDecision" where
  "decideTemplateApproval env templateId version text rules =
     (let issues = templateTextIssues env text rules; warnings = templateTextWarnings env text in
      if issues = [] then Approve (templateContentHash env templateId version text) warnings else Not_approved issues warnings)"

section \<open>Rendering\<close>

datatype RenderDecision = Rendered jstring jstring | Missing_variables "jstring list"

definition eligible :: "(jstring \<Rightarrow> jstring option) \<Rightarrow> jstring \<Rightarrow> bool" where
  "eligible assigned n \<longleftrightarrow> (case assigned n of None \<Rightarrow> False | Some r \<Rightarrow> trim r \<noteq> [])"

fun fill :: "(jstring \<Rightarrow> jstring option) \<Rightarrow> piece list \<Rightarrow> jstring" where
  "fill assigned [] = []"
| "fill assigned (Unit c # ps) = c # fill assigned ps"
| "fill assigned (Named n # ps) = (if eligible assigned n then the (assigned n) else []) @ fill assigned ps"

text \<open>The values are the record's own keys: a name every object has (\<open>constructor\<close>) is not one.\<close>
definition renderTemplate :: "TemplateText \<Rightarrow> (jstring \<Rightarrow> jstring option) \<Rightarrow> RenderDecision" where
  "renderTemplate text assigned =
     (let missing = filter (\<lambda>n. \<not> eligible assigned n) (placeholders (tt_subject text) @ placeholders (tt_body text)) in
      if missing = [] then Rendered (fill assigned (pieces (tt_subject text))) (fill assigned (pieces (tt_body text)))
      else Missing_variables (sort (remdups missing)))"

section \<open>The table of versions\<close>

record TemplateVersionRow =
  tpl_id :: uuid
  tpl_templateId :: uuid
  tpl_version :: int
  tpl_name :: jstring
  tpl_subject :: jstring
  tpl_body :: jstring
  tpl_contentHash :: string
  tpl_footerSignOff :: jstring
  tpl_requiredVariables :: "jstring list"
  tpl_approvedAt :: "instant option"
  tpl_approvedByUserId :: "uuid option"
  tpl_retiredAt :: "instant option"
  tpl_createdAt :: instant
  tpl_updatedAt :: instant

text \<open>\<open>length(text)\<close> of the database counts code points.\<close>
fun code_point_count :: "jstring \<Rightarrow> nat" where
  "code_point_count (c # d # cs) = (if 0xD800 \<le> c \<and> c \<le> 0xDBFF \<and> 0xDC00 \<le> d \<and> d \<le> 0xDFFF then 1 + code_point_count cs
     else 1 + code_point_count (d # cs))"
| "code_point_count [c] = 1"
| "code_point_count [] = 0"

text \<open>\<open>btrim(s) <> '' AND length(s) <= n\<close>, and no text of the database holds U+0000.  That a lone
  surrogate is stored as U+FFFD is not modelled.\<close>
definition stored_text :: "nat \<Rightarrow> jstring \<Rightarrow> bool" where
  "stored_text n s \<longleftrightarrow> list_ex (\<lambda>c. c \<noteq> 32) s \<and> code_point_count s \<le> n \<and> 0 \<notin> set s"

definition template_row_ok :: "TemplateEnv \<Rightarrow> TemplateVersionRow \<Rightarrow> bool" where
  "template_row_ok env r \<longleftrightarrow> 1 \<le> tpl_version r \<and> stored_text 200 (tpl_name r) \<and> stored_text 160 (tpl_subject r) \<and>
     stored_text 4000 (tpl_body r) \<and> stored_text 300 (tpl_footerSignOff r) \<and> length (tpl_requiredVariables r) \<le> 50 \<and>
     (tpl_approvedAt r = None) = (tpl_approvedByUserId r = None) \<and>
     \<not> hasOptOutLink (te_nfkc env) (tpl_body r) \<and> \<not> hasOptOutLink (te_nfkc env) (tpl_subject r) \<and>
     (case tpl_retiredAt r of None \<Rightarrow> True | Some t \<Rightarrow> tpl_createdAt r \<le> t) \<and> tpl_createdAt r \<le> tpl_updatedAt r"

text \<open>The trigger: of an approved row only the name, the retirement and the time of change move.\<close>
definition assert_approved_template_immutable :: "TemplateVersionRow \<Rightarrow> TemplateVersionRow \<Rightarrow> bool" where
  "assert_approved_template_immutable old new \<longleftrightarrow> tpl_approvedAt old = None \<or>
     new\<lparr> tpl_name := tpl_name old, tpl_retiredAt := tpl_retiredAt old, tpl_updatedAt := tpl_updatedAt old \<rparr> = old"

datatype TemplateSqlError = Template_check | Template_key_taken | Template_immutable

definition insert_template :: "TemplateEnv \<Rightarrow> TemplateVersionRow \<Rightarrow> TemplateVersionRow list \<Rightarrow>
    TemplateSqlError + TemplateVersionRow list" where
  "insert_template env row rows =
     (if \<not> template_row_ok env row then Inl Template_check else
      if list_ex (\<lambda>r. tpl_id r = tpl_id row \<or> (tpl_templateId r = tpl_templateId row \<and> tpl_version r = tpl_version row)) rows
      then Inl Template_key_taken else Inr (rows @ [row]))"

text \<open>\<open>UPDATE ... WHERE id = $2\<close> of a row that is there, under the trigger and the CHECKs.\<close>
definition update_template :: "TemplateEnv \<Rightarrow> TemplateVersionRow \<Rightarrow> TemplateVersionRow \<Rightarrow> TemplateVersionRow list \<Rightarrow>
    TemplateSqlError + TemplateVersionRow list" where
  "update_template env old new rows =
     (if \<not> assert_approved_template_immutable old new then Inl Template_immutable else
      if \<not> template_row_ok env new then Inl Template_check else
      Inr (sql_update (\<lambda>r. tpl_id r = tpl_id old) (\<lambda>_. new) rows))"

definition readTemplateVersion :: "uuid \<Rightarrow> TemplateVersionRow list \<Rightarrow> TemplateVersionRow option" where
  "readTemplateVersion k rows = sql_one (\<lambda>r. tpl_id r = k) rows"

text \<open>Newest first: by creation, then by version, descending.\<close>
definition listTemplateVersions :: "uuid option \<Rightarrow> TemplateVersionRow list \<Rightarrow> TemplateVersionRow list" where
  "listTemplateVersions templateId rows = sort_key (\<lambda>r. - tpl_createdAt r) (sort_key (\<lambda>r. - tpl_version r)
     (filter (\<lambda>r. case templateId of None \<Rightarrow> True | Some t \<Rightarrow> tpl_templateId r = t) rows))"

section \<open>Commands\<close>

datatype TemplateRefusalCode =
    Tr_admin_only | Tr_invalid_input | Tr_template_unknown | Tr_template_unapproved | Tr_template_already_approved | Tr_template_retired

datatype TemplateResult =
    Template_saved TemplateVersionRow "TemplateWarningCode list" "TemplateIssue list"
  | Template_refused TemplateRefusalCode "TemplateIssue list option"

record TemplateTextInput =
  ti_name :: jstring
  ti_subject :: jstring
  ti_body :: jstring
  ti_footerSignOff :: jstring
  ti_requiredVariables :: "jstring list"
  ti_approve :: bool

definition row_text :: "TemplateVersionRow \<Rightarrow> TemplateText" where
  "row_text r = \<lparr> tt_subject = tpl_subject r, tt_body = tpl_body r \<rparr>"

definition input_text :: "TemplateTextInput \<Rightarrow> TemplateText" where
  "input_text i = \<lparr> tt_subject = ti_subject i, tt_body = ti_body i \<rparr>"

definition linkedBytes :: "TemplateEnv \<Rightarrow> TemplateTextInput \<Rightarrow> bool" where
  "linkedBytes env i \<longleftrightarrow> hasOptOutLink (te_nfkc env) (ti_subject i) \<or> hasOptOutLink (te_nfkc env) (ti_body i) \<or>
     hasOptOutLink (te_nfkc env) (ti_footerSignOff i)"

definition rulesFor :: "jstring \<Rightarrow> jstring list \<Rightarrow> TemplateRules" where
  "rulesFor sign variables = \<lparr> ru_footer = \<lparr> signOff = sign, postalAddress = None, recordedAddresses = [] \<rparr>,
     ru_allowedVariables = variables, ru_requiredSentence = None \<rparr>"

definition input_issues :: "TemplateEnv \<Rightarrow> TemplateTextInput \<Rightarrow> TemplateIssue list" where
  "input_issues env i = templateTextIssues env (input_text i) (rulesFor (ti_footerSignOff i) (ti_requiredVariables i))"

definition approverOf :: "ScopeActor \<Rightarrow> uuid option" where
  "approverOf actor = admin_user actor"

text \<open>The checks a save makes before it reads anything.\<close>
definition save_refused :: "ScopeActor \<Rightarrow> TemplateTextInput \<Rightarrow> TemplateRefusalCode option" where
  "save_refused actor i =
     (if \<not> isAdminScope actor then Some Tr_admin_only else
      if trim (ti_name i) = [] then Some Tr_invalid_input else
      if ti_approve i \<and> approverOf actor = None then Some Tr_admin_only else None)"

text \<open>The checks it makes of the text.\<close>
definition text_refused :: "TemplateEnv \<Rightarrow> TemplateTextInput \<Rightarrow> TemplateResult option" where
  "text_refused env i =
     (if ti_approve i \<and> input_issues env i \<noteq> [] then Some (Template_refused Tr_template_unapproved (Some (input_issues env i))) else
      if linkedBytes env i then Some (Template_refused Tr_invalid_input None) else None)"

text \<open>\<open>coalesce(max(version), 0) + 1\<close>, of positive versions.\<close>
definition next_version :: "uuid \<Rightarrow> TemplateVersionRow list \<Rightarrow> int" where
  "next_version templateId rows =
     fold max (map tpl_version (filter (\<lambda>r. tpl_templateId r = templateId) rows)) 0 + 1"

definition createTemplateVersion :: "TemplateEnv \<Rightarrow> instant \<Rightarrow> uuid \<Rightarrow> uuid \<Rightarrow> ScopeActor \<Rightarrow> uuid option \<Rightarrow> TemplateTextInput \<Rightarrow>
    TemplateVersionRow list \<Rightarrow> TemplateSqlError + (TemplateVersionRow list \<times> TemplateResult)" where
  "createTemplateVersion env now fresh freshTemplate actor named i rows = (case save_refused actor i of
     Some code \<Rightarrow> Inr (rows, Template_refused code None)
   | None \<Rightarrow> (case text_refused env i of
     Some refusal \<Rightarrow> Inr (rows, refusal)
   | None \<Rightarrow>
       (let templateId = (case named of None \<Rightarrow> freshTemplate | Some t \<Rightarrow> t);
            version = next_version templateId rows;
            approvedBy = (if ti_approve i then approverOf actor else None);
            row = \<lparr> tpl_id = fresh, tpl_templateId = templateId, tpl_version = version, tpl_name = trim (ti_name i),
              tpl_subject = ti_subject i, tpl_body = ti_body i,
              tpl_contentHash = templateContentHash env templateId version (input_text i),
              tpl_footerSignOff = ti_footerSignOff i, tpl_requiredVariables = ti_requiredVariables i,
              tpl_approvedAt = (if approvedBy = None then None else Some now), tpl_approvedByUserId = approvedBy,
              tpl_retiredAt = None, tpl_createdAt = now, tpl_updatedAt = now \<rparr> in
        and_then (insert_template env row rows) (\<lambda>rows'.
          Inr (rows', Template_saved row (templateTextWarnings env (row_text row)) (input_issues env i))))))"

text \<open>The row an edit in place writes.\<close>
definition edited_row :: "TemplateEnv \<Rightarrow> instant \<Rightarrow> uuid option \<Rightarrow> TemplateTextInput \<Rightarrow> TemplateVersionRow \<Rightarrow> TemplateVersionRow" where
  "edited_row env now approvedBy i r = r\<lparr> tpl_name := trim (ti_name i), tpl_subject := ti_subject i, tpl_body := ti_body i,
     tpl_contentHash := templateContentHash env (tpl_templateId r) (tpl_version r) (input_text i),
     tpl_footerSignOff := ti_footerSignOff i, tpl_requiredVariables := ti_requiredVariables i,
     tpl_approvedAt := (if approvedBy = None then None else Some now), tpl_approvedByUserId := approvedBy,
     tpl_updatedAt := max now (tpl_createdAt r) \<rparr>"

text \<open>A refusal of the trigger rolls the work back and is an answer.\<close>
definition underImmutabilityGuard :: "TemplateVersionRow list \<Rightarrow>
    TemplateSqlError + (TemplateVersionRow list \<times> TemplateResult) \<Rightarrow> TemplateSqlError + (TemplateVersionRow list \<times> TemplateResult)" where
  "underImmutabilityGuard rows work = (case work of
     Inl Template_immutable \<Rightarrow> Inr (rows, Template_refused Tr_template_already_approved None)
   | _ \<Rightarrow> work)"

text \<open>The edit of the locked row.\<close>
definition update_work :: "TemplateEnv \<Rightarrow> instant \<Rightarrow> uuid \<Rightarrow> uuid \<Rightarrow> ScopeActor \<Rightarrow> uuid \<Rightarrow> TemplateTextInput \<Rightarrow>
    TemplateVersionRow list \<Rightarrow> TemplateSqlError + (TemplateVersionRow list \<times> TemplateResult)" where
  "update_work env now fresh freshTemplate actor k i rows = (case readTemplateVersion k rows of
     None \<Rightarrow> Inr (rows, Template_refused Tr_template_unknown None)
   | Some current \<Rightarrow>
       if tpl_retiredAt current \<noteq> None then Inr (rows, Template_refused Tr_template_retired None) else
       if tpl_approvedAt current \<noteq> None
       then createTemplateVersion env now fresh freshTemplate actor (Some (tpl_templateId current)) i rows else
       (case text_refused env i of
          Some refusal \<Rightarrow> Inr (rows, refusal)
        | None \<Rightarrow>
            (let row = edited_row env now (if ti_approve i then approverOf actor else None) i current in
             and_then (update_template env current row rows) (\<lambda>rows'.
               Inr (rows', Template_saved row (templateTextWarnings env (row_text row)) (input_issues env i))))))"

definition updateTemplateVersion :: "TemplateEnv \<Rightarrow> instant \<Rightarrow> uuid \<Rightarrow> uuid \<Rightarrow> ScopeActor \<Rightarrow> uuid \<Rightarrow> TemplateTextInput \<Rightarrow>
    TemplateVersionRow list \<Rightarrow> TemplateSqlError + (TemplateVersionRow list \<times> TemplateResult)" where
  "updateTemplateVersion env now fresh freshTemplate actor k i rows = (case save_refused actor i of
     Some code \<Rightarrow> Inr (rows, Template_refused code None)
   | None \<Rightarrow> underImmutabilityGuard rows (update_work env now fresh freshTemplate actor k i rows))"

definition approveTemplateVersion :: "TemplateEnv \<Rightarrow> instant \<Rightarrow> ScopeActor \<Rightarrow> uuid \<Rightarrow> TemplateVersionRow list \<Rightarrow>
    TemplateSqlError + (TemplateVersionRow list \<times> TemplateResult)" where
  "approveTemplateVersion env now actor k rows = (case approverOf actor of
     None \<Rightarrow> Inr (rows, Template_refused Tr_admin_only None)
   | Some approver \<Rightarrow> (case readTemplateVersion k rows of
     None \<Rightarrow> Inr (rows, Template_refused Tr_template_unknown None)
   | Some current \<Rightarrow>
       if tpl_retiredAt current \<noteq> None then Inr (rows, Template_refused Tr_template_retired None) else
       if tpl_approvedAt current \<noteq> None then Inr (rows, Template_refused Tr_template_already_approved None) else
       (let issues = templateTextIssues env (row_text current) (rulesFor (tpl_footerSignOff current) (tpl_requiredVariables current));
            row = current\<lparr> tpl_approvedAt := Some now, tpl_approvedByUserId := Some approver, tpl_updatedAt := max now (tpl_createdAt current) \<rparr> in
        if issues \<noteq> [] then Inr (rows, Template_refused Tr_template_unapproved (Some issues)) else
        and_then (update_template env current row rows) (\<lambda>rows'.
          Inr (rows', Template_saved row (templateTextWarnings env (row_text current)) [])))))"

definition renderTemplateVersion :: "TemplateVersionRow \<Rightarrow> (jstring \<Rightarrow> jstring option) \<Rightarrow> RenderDecision" where
  "renderTemplateVersion r assigned = renderTemplate (row_text r) assigned"

end
