(* ===== verification/TemplateProperties.thy ===== *)
theory TemplateProperties
  imports Templates
begin

text \<open>
  What holds of the templates: an approval is of bytes that pass every rule and never move again,
  the versions of a template are numbered without gaps, and an approved text renders for whoever
  has a value for each of its variables.
\<close>

section \<open>Texts and their pieces\<close>

lemma dropWhile_in_name: "dropWhile in_name (n @ 125 # cs) = 125 # cs" "takeWhile in_name (n @ 125 # cs) = n"
  if "list_all in_name n"
  using that by (induction n) (simp_all add: in_name_def)

fun piece_text :: "piece \<Rightarrow> jstring" where
  "piece_text (Unit c) = [c]"
| "piece_text (Named n) = [123] @ n @ [125]"

lemma pieces_text: "concat (map piece_text (pieces s)) = s"
proof (induction s rule: pieces.induct)
  case (2 c cs)
  show ?case
  proof (cases "c = 123 \<and> (case dropWhile in_name cs of [] \<Rightarrow> False | d # _ \<Rightarrow> d = 125)")
    case True
    then obtain ds where ds: "dropWhile in_name cs = 125 # ds" by (auto split: list.split_asm)
    have "cs = takeWhile in_name cs @ 125 # ds" using takeWhile_dropWhile_id [of in_name cs] ds by simp
    then show ?thesis using "2.IH"(1) [OF True] True ds by simp
  next
    case False
    then have "pieces (c # cs) = Unit c # pieces cs" by (subst pieces.simps) (rule if_not_P)
    then show ?thesis using "2.IH"(2) [OF False] by simp
  qed
qed simp

lemma fill_names: "(\<And>n. n \<in> set (piece_names ps) \<Longrightarrow> eligible f n \<and> the (f n) = [123] @ n @ [125]) \<Longrightarrow>
    fill f ps = concat (map piece_text ps)"
  by (induction ps rule: piece_names.induct) simp_all


section \<open>Commands and runs\<close>

datatype TemplateAct =
    Ta_create instant uuid uuid ScopeActor "uuid option" TemplateTextInput
  | Ta_update instant uuid uuid ScopeActor uuid TemplateTextInput
  | Ta_approve instant ScopeActor uuid

text \<open>A command that throws is rolled back.\<close>
definition template_kept :: "TemplateVersionRow list \<Rightarrow> TemplateSqlError + (TemplateVersionRow list \<times> TemplateResult) \<Rightarrow>
    TemplateVersionRow list" where
  "template_kept rows r = (case r of Inl _ \<Rightarrow> rows | Inr (rows', _) \<Rightarrow> rows')"

fun template_act :: "TemplateEnv \<Rightarrow> TemplateAct \<Rightarrow> TemplateVersionRow list \<Rightarrow> TemplateVersionRow list" where
  "template_act env (Ta_create now k t actor named i) rows = template_kept rows (createTemplateVersion env now k t actor named i rows)"
| "template_act env (Ta_update now k t actor edited i) rows = template_kept rows (updateTemplateVersion env now k t actor edited i rows)"
| "template_act env (Ta_approve now actor k) rows = template_kept rows (approveTemplateVersion env now actor k rows)"

definition template_run :: "TemplateEnv \<Rightarrow> TemplateAct list \<Rightarrow> TemplateVersionRow list \<Rightarrow> TemplateVersionRow list" where
  "template_run env acts rows = fold (template_act env) acts rows"

text \<open>What a command may do to the table: nothing, add a row, or rewrite one that is not approved.\<close>
inductive template_move :: "TemplateEnv \<Rightarrow> TemplateVersionRow list \<Rightarrow> TemplateVersionRow list \<Rightarrow> bool" for env where
  same: "template_move env rows rows"
| added: "insert_template env row rows = Inr rows' \<Longrightarrow> tpl_version row = next_version (tpl_templateId row) rows \<Longrightarrow>
     tpl_contentHash row = templateContentHash env (tpl_templateId row) (tpl_version row) (row_text row) \<Longrightarrow>
     (tpl_approvedAt row \<noteq> None \<longrightarrow> templateTextIssues env (row_text row) (rulesFor (tpl_footerSignOff row) (tpl_requiredVariables row)) = []) \<Longrightarrow>
     template_move env rows rows'"
| rewritten: "readTemplateVersion k rows = Some old \<Longrightarrow> tpl_approvedAt old = None \<Longrightarrow> update_template env old row rows = Inr rows' \<Longrightarrow>
     tpl_id row = tpl_id old \<Longrightarrow> tpl_templateId row = tpl_templateId old \<Longrightarrow> tpl_version row = tpl_version old \<Longrightarrow>
     (tpl_contentHash old = templateContentHash env (tpl_templateId old) (tpl_version old) (row_text old) \<longrightarrow>
      tpl_contentHash row = templateContentHash env (tpl_templateId row) (tpl_version row) (row_text row)) \<Longrightarrow>
     (tpl_approvedAt row \<noteq> None \<longrightarrow> templateTextIssues env (row_text row) (rulesFor (tpl_footerSignOff row) (tpl_requiredVariables row)) = []) \<Longrightarrow>
     template_move env rows rows'"

lemma text_refused_None: "text_refused env i = None \<Longrightarrow> ti_approve i \<longrightarrow> input_issues env i = []"
  by (auto simp: text_refused_def split: if_split_asm)

lemma create_move:
  assumes "createTemplateVersion env now k t actor named i rows = Inr (rows', r)"
  shows "template_move env rows rows'"
proof (cases "save_refused actor i = None \<and> text_refused env i = None")
  case True
  then have "ti_approve i \<longrightarrow> input_issues env i = []" using text_refused_None by blast
  then show ?thesis using assms True
    by (auto simp: createTemplateVersion_def Let_def row_text_def input_text_def input_issues_def split: if_split_asm option.split_asm
        elim!: and_thenE intro!: template_move.added)
next
  case False
  then show ?thesis using assms by (auto simp: createTemplateVersion_def split: option.split_asm intro: template_move.same)
qed

lemma guard_Inr: "underImmutabilityGuard rows work = Inr (rows', r) \<Longrightarrow> rows' = rows \<or> work = Inr (rows', r)"
  by (auto simp: underImmutabilityGuard_def split: sum.split_asm TemplateSqlError.split_asm)

lemma work_move:
  assumes "update_work env now k t actor edited i rows = Inr (rows', r)"
  shows "template_move env rows rows'"
proof (cases "readTemplateVersion edited rows")
  case None
  then show ?thesis using assms by (simp add: update_work_def template_move.same)
next
  case (Some current)
  consider "tpl_retiredAt current \<noteq> None" | "tpl_retiredAt current = None" "tpl_approvedAt current \<noteq> None"
    | "tpl_retiredAt current = None" "tpl_approvedAt current = None" by blast
  then show ?thesis
  proof cases
    case 1
    then show ?thesis using assms Some by (simp add: update_work_def template_move.same)
  next
    case 2
    then show ?thesis using assms Some create_move by (simp add: update_work_def)
  next
    case 3
    have work: "(case text_refused env i of
          Some refusal \<Rightarrow> Inr (rows, refusal)
        | None \<Rightarrow>
            (let row = edited_row env now (if ti_approve i then approverOf actor else None) i current in
             and_then (update_template env current row rows) (\<lambda>rows'.
               Inr (rows', Template_saved row (templateTextWarnings env (row_text row)) (input_issues env i))))) = Inr (rows', r)"
      using assms Some 3 by (simp add: update_work_def)
    show ?thesis
    proof (cases "text_refused env i")
      case None
      then have up: "update_template env current (edited_row env now (if ti_approve i then approverOf actor else None) i current) rows = Inr rows'"
        using work by (auto simp: Let_def elim!: and_thenE)
      have "ti_approve i \<longrightarrow> input_issues env i = []" using None by (rule text_refused_None)
      then show ?thesis
        by (intro template_move.rewritten [OF Some 3(2) up])
          (auto simp: edited_row_def row_text_def input_text_def input_issues_def)
    next
      case (Some refusal)
      then show ?thesis using work by (simp add: template_move.same)
    qed
  qed
qed

lemma update_move:
  assumes "updateTemplateVersion env now k t actor edited i rows = Inr (rows', r)"
  shows "template_move env rows rows'"
  using assms work_move
  by (auto simp: updateTemplateVersion_def split: option.split_asm dest!: guard_Inr intro: template_move.same)

lemma approve_move:
  assumes "approveTemplateVersion env now actor k rows = Inr (rows', r)"
  shows "template_move env rows rows'"
proof (cases "rows' = rows")
  case False
  then obtain approver current where current: "readTemplateVersion k rows = Some current" "tpl_approvedAt current = None"
    and issues: "templateTextIssues env (row_text current) (rulesFor (tpl_footerSignOff current) (tpl_requiredVariables current)) = []"
    and up: "update_template env current (current\<lparr> tpl_approvedAt := Some now, tpl_approvedByUserId := Some approver,
      tpl_updatedAt := max now (tpl_createdAt current) \<rparr>) rows = Inr rows'"
    using assms by (auto simp: approveTemplateVersion_def Let_def split: option.split_asm if_split_asm elim!: and_thenE)
  show ?thesis by (rule template_move.rewritten [OF current up]) (use issues in \<open>simp_all add: row_text_def\<close>)
qed (simp add: template_move.same)

lemma act_move: "template_move env rows (template_act env a rows)"
  by (cases a) (auto simp: template_kept_def split: sum.split intro: template_move.same create_move update_move approve_move)

text \<open>What every move keeps, every run keeps.\<close>
locale template_law =
  fixes env :: TemplateEnv and P :: "TemplateVersionRow list \<Rightarrow> bool"
  assumes keeps: "P rows \<Longrightarrow> template_move env rows rows' \<Longrightarrow> P rows'"
begin

lemma run: "P rows \<Longrightarrow> P (template_run env acts rows)"
  by (induction acts arbitrary: rows) (simp_all add: template_run_def keeps [OF _ act_move])

end

section \<open>The invariant\<close>

definition template_sound :: "TemplateEnv \<Rightarrow> TemplateVersionRow \<Rightarrow> bool" where
  "template_sound env r \<longleftrightarrow> template_row_ok env r \<and>
     tpl_contentHash r = templateContentHash env (tpl_templateId r) (tpl_version r) (row_text r) \<and>
     (tpl_approvedAt r = None \<or> templateTextIssues env (row_text r) (rulesFor (tpl_footerSignOff r) (tpl_requiredVariables r)) = [])"

definition versions_of :: "uuid \<Rightarrow> TemplateVersionRow list \<Rightarrow> int list" where
  "versions_of t rows = map tpl_version (filter (\<lambda>r. tpl_templateId r = t) rows)"

definition templates_inv :: "TemplateEnv \<Rightarrow> TemplateVersionRow list \<Rightarrow> bool" where
  "templates_inv env rows \<longleftrightarrow> list_all (template_sound env) rows \<and> distinct (map tpl_id rows) \<and>
     (\<forall>t. versions_of t rows = [1..int (length (versions_of t rows))])"

lemma fold_max_upto: "fold max [1..int n] 0 = int n"
proof (induction n)
  case (Suc n)
  have "[1..int (Suc n)] = [1..int n] @ [int (Suc n)]" using upto_rec2 [of 1 "int (Suc n)"] by simp
  then show ?case using Suc by simp
qed simp

lemma next_gapless: "versions_of t rows = [1..int (length (versions_of t rows))] \<Longrightarrow>
    next_version t rows = int (length (versions_of t rows)) + 1"
  by (metis fold_max_upto next_version_def versions_of_def)

lemma versions_update:
  assumes "distinct (map tpl_id rows)" "old \<in> set rows" "tpl_templateId new = tpl_templateId old" "tpl_version new = tpl_version old"
  shows "versions_of t (sql_update (\<lambda>r. tpl_id r = tpl_id old) (\<lambda>_. new) rows) = versions_of t rows"
proof -
  have "map (\<lambda>r. (tpl_templateId r, tpl_version r)) (sql_update (\<lambda>r. tpl_id r = tpl_id old) (\<lambda>_. new) rows) =
      map (\<lambda>r. (tpl_templateId r, tpl_version r)) rows"
    using assms by (auto simp: sql_update_def distinct_map dest: inj_onD)
  moreover have "versions_of t xs = map snd (filter (\<lambda>p. fst p = t) (map (\<lambda>r. (tpl_templateId r, tpl_version r)) xs))" for xs
    by (induction xs) (simp_all add: versions_of_def)
  ultimately show ?thesis by simp
qed

lemma move_inv: "templates_inv env rows \<Longrightarrow> template_move env rows rows' \<Longrightarrow> templates_inv env rows'"
proof (erule template_move.cases, goal_cases)
  case (2 row rows0 rows0')
  then have row: "template_row_ok env row" "rows' = rows @ [row]" "tpl_id row \<notin> tpl_id ` set rows"
    by (auto simp: insert_template_def list_ex_iff split: if_split_asm)
  have gapless: "versions_of t (rows @ [row]) = [1..int (length (versions_of t (rows @ [row])))]" for t
  proof (cases "tpl_templateId row = t")
    case True
    have "versions_of t rows = [1..int (length (versions_of t rows))]" using 2(1) by (simp add: templates_inv_def)
    moreover have "[1..int (length (versions_of t rows)) + 1] = [1..int (length (versions_of t rows))] @ [int (length (versions_of t rows)) + 1]"
      using upto_rec2 [of 1 "int (length (versions_of t rows)) + 1"] by simp
    moreover have "versions_of t (rows @ [row]) = versions_of t rows @ [int (length (versions_of t rows)) + 1]"
      using 2 True next_gapless [of t rows] by (simp add: versions_of_def templates_inv_def)
    ultimately show ?thesis by (simp add: add.commute)
  next
    case False
    then show ?thesis using 2(1) by (simp add: templates_inv_def versions_of_def)
  qed
  show ?case using 2 row gapless by (auto simp: templates_inv_def template_sound_def)
next
  case (3 k rows0 old row rows0')
  then have old: "old \<in> set rows" and row: "template_row_ok env row"
    and rows': "rows' = sql_update (\<lambda>r. tpl_id r = tpl_id old) (\<lambda>_. row) rows"
    using sql_one_Some by (force simp: readTemplateVersion_def update_template_def split: if_split_asm)+
  have ids: "map tpl_id rows' = map tpl_id rows" using 3 by (auto simp: rows' sql_update_def)
  have gapless: "versions_of t rows' = versions_of t rows" for t
    unfolding rows' by (rule versions_update) (use 3 old in \<open>simp_all add: templates_inv_def\<close>)
  have "template_sound env row" using 3 old row by (auto simp: templates_inv_def template_sound_def list_all_iff)
  then have "list_all (template_sound env) rows'"
    using 3(1) by (auto simp: rows' set_sql_update list_all_iff templates_inv_def)
  then show ?case using 3(1) ids gapless by (simp add: templates_inv_def)
qed simp

interpretation template_table: template_law env "templates_inv env" for env
  by unfold_locales (rule move_inv)

text \<open>An approved row is in the table for good, as it is.\<close>
lemma move_keeps_approved:
  assumes "template_move env rows rows'" "templates_inv env rows" "r \<in> set rows" "tpl_approvedAt r \<noteq> None"
  shows "r \<in> set rows'"
  using assms
proof (cases rule: template_move.cases)
  case (rewritten k old row)
  have "old \<in> set rows" using rewritten(1) sql_one_Some by (force simp: readTemplateVersion_def)
  then have "tpl_id r \<noteq> tpl_id old" using assms(2-4) rewritten(2) by (auto simp: templates_inv_def distinct_map dest: inj_onD)
  then show ?thesis using rewritten(3) assms(3) by (auto simp: update_template_def set_sql_update split: if_split_asm)
qed (auto simp: insert_template_def split: if_split_asm)

interpretation approved_row: template_law env "\<lambda>rows. templates_inv env rows \<and> (tpl_approvedAt r \<noteq> None \<and> r \<in> set rows)" for env r
  by unfold_locales (use move_inv move_keeps_approved in blast)

lemma no_templates: "templates_inv env []"
  by (simp add: templates_inv_def versions_of_def)

text \<open>
  C1: Whatever is created, edited and approved, and by whom: every approved version is bytes that pass
  every rule of approval under its own sign-off and variables, its hash is the hash of its own text,
  every row passes the table's CHECKs, and the versions of a template are numbered 1, 2, 3 and on
  without a gap in the order they were written.
\<close>
theorem approved_versions_pass:
  "templates_inv env (template_run env acts [])"
  by (rule template_table.run) (rule no_templates)

text \<open>
  C1: A version that was approved is in the table unchanged after any further commands, edits of that very
  version included: the edit writes another row.
\<close>
theorem approved_version_kept:
  assumes "r \<in> set (template_run env acts [])" "tpl_approvedAt r \<noteq> None"
  shows "r \<in> set (template_run env later (template_run env acts []))"
  using approved_row.run [of env "template_run env acts []" r later] template_table.run [OF no_templates] assms by blast

section \<open>Approved texts render\<close>

lemma no_issue [simp]: "when_issue hit issue = [] \<longleftrightarrow> \<not> hit"
  by (simp add: when_issue_def)

lemmas issues_split = templateTextIssues_def Let_def append_is_Nil_conv no_issue

lemma issues_names:
  assumes "templateTextIssues env text rules = []" "n \<in> set (placeholders (tt_subject text) @ placeholders (tt_body text))"
  shows "n \<in> set (ru_allowedVariables rules)"
proof -
  have "\<not> list_ex (\<lambda>n. n \<notin> set (ru_allowedVariables rules)) (placeholders (tt_subject text) @ placeholders (tt_body text))"
    using assms(1) unfolding issues_split by blast
  then show ?thesis using assms(2) unfolding list_ex_iff by blast
qed

lemma issues_composed:
  assumes "templateTextIssues env text rules = []"
  shows "\<exists>b changed deduped. approval_composed env text rules = Composed b changed deduped"
proof (cases "approval_composed env text rules")
  case (Not_composed reason n)
  then have stop: "hasStopLine (signOff (ru_footer rules)) \<or> compose_issue reason \<in> set (text_issues env text rules)"
    and none: "text_issues env text rules = []"
    using assms unfolding templateTextIssues_def Let_def append_is_Nil_conv by (simp_all split: if_split_asm)
  have "\<not> hasStopLine (signOff (ru_footer rules))" using none by (simp add: text_issues_def)
  then show ?thesis using stop none by simp
qed blast

text \<open>
  C1: An approved version takes exactly one footer, and renders for everyone who has a value for each of
  its declared variables: no placeholder of an approved text is outside them, so no send of it
  is ever held for a variable nobody declared.
\<close>
theorem approved_version_renders:
  assumes "r \<in> set (template_run env acts [])" "tpl_approvedAt r \<noteq> None" "list_all (eligible assigned) (tpl_requiredVariables r)"
  shows "renderTemplateVersion r assigned =
    Rendered (fill assigned (pieces (tpl_subject r))) (fill assigned (pieces (tpl_body r))) \<and>
    (\<exists>b changed deduped. composeSendBody (te_nfkc env) (tpl_body r)
       \<lparr> signOff = tpl_footerSignOff r, postalAddress = None, recordedAddresses = [] \<rparr> APPROVAL_FOOTER_POLICY = Composed b changed deduped)"
proof -
  have "template_sound env r"
    using template_table.run [OF no_templates, of env acts] assms(1) by (simp add: templates_inv_def list_all_iff)
  then have none: "templateTextIssues env (row_text r) (rulesFor (tpl_footerSignOff r) (tpl_requiredVariables r)) = []"
    using assms(2) by (simp add: template_sound_def)
  from issues_names [OF none] have "eligible assigned n"
    if "n \<in> set (placeholders (tt_subject (row_text r)) @ placeholders (tt_body (row_text r)))" for n
    using that assms(3) by (auto simp: rulesFor_def list_all_iff)
  then have "filter (\<lambda>n. \<not> eligible assigned n) (placeholders (tt_subject (row_text r)) @ placeholders (tt_body (row_text r))) = []"
    by (simp add: filter_empty_conv)
  then have "renderTemplateVersion r assigned =
      Rendered (fill assigned (pieces (tpl_subject r))) (fill assigned (pieces (tpl_body r)))"
    unfolding renderTemplateVersion_def renderTemplate_def Let_def by (simp add: row_text_def)
  moreover note issues_composed [OF none]
  ultimately show ?thesis by (simp add: approval_composed_def rulesFor_def row_text_def)
qed

section \<open>Witnesses\<close>

definition demo_env :: TemplateEnv where
  "demo_env = \<lparr> te_nfkc = (\<lambda>s. s), te_lower = (\<lambda>s. s), te_sha = (\<lambda>(t, v, s, b). t @ ''-'' @ str_nat (nat v)) \<rparr>"

definition demo_input :: TemplateTextInput where
  "demo_input = \<lparr> ti_name = lit ''Hello'', ti_subject = lit ''Hi {name}'', ti_body = lit ''Dear {name}, hello.'',
     ti_footerSignOff = lit ''Ann'', ti_requiredVariables = [lit ''name''], ti_approve = True \<rparr>"

definition demo_template_acts :: "TemplateAct list" where
  "demo_template_acts = [Ta_create 1 ''v1'' ''t1'' (Actor_user ''u1'' Role_admin) None demo_input]"

definition demo_approved :: TemplateVersionRow where
  "demo_approved = \<lparr> tpl_id = ''v1'', tpl_templateId = ''t1'', tpl_version = 1, tpl_name = trim (ti_name demo_input),
     tpl_subject = ti_subject demo_input, tpl_body = ti_body demo_input,
     tpl_contentHash = templateContentHash demo_env ''t1'' 1 (input_text demo_input),
     tpl_footerSignOff = ti_footerSignOff demo_input, tpl_requiredVariables = ti_requiredVariables demo_input,
     tpl_approvedAt = Some 1, tpl_approvedByUserId = Some ''u1'', tpl_retiredAt = None, tpl_createdAt = 1, tpl_updatedAt = 1 \<rparr>"

lemma demo_issues: "input_issues demo_env demo_input = []"
  by code_simp

lemma demo_input_ok: "\<not> linkedBytes demo_env demo_input" "trim (ti_name demo_input) \<noteq> []" "ti_approve demo_input"
  by code_simp+

lemma demo_row_ok: "template_row_ok demo_env demo_approved"
  by code_simp

lemma demo_created: "template_run demo_env demo_template_acts [] = [demo_approved]"
proof -
  have admin: "isAdminScope (Actor_user ''u1'' Role_admin)" "approverOf (Actor_user ''u1'' Role_admin) = Some ''u1''"
    by (simp_all add: isAdminScope_def approverOf_def admin_user_def)
  have "createTemplateVersion demo_env 1 ''v1'' ''t1'' (Actor_user ''u1'' Role_admin) None demo_input [] =
      Inr ([demo_approved], Template_saved demo_approved (templateTextWarnings demo_env (row_text demo_approved)) [])"
    using demo_row_ok
    by (simp add: createTemplateVersion_def save_refused_def text_refused_def demo_issues demo_input_ok admin insert_template_def
        next_version_def demo_approved_def Let_def)
  then show ?thesis by (simp add: template_run_def demo_template_acts_def template_kept_def)
qed

lemma demo_is_approved: "demo_approved \<in> set (template_run demo_env demo_template_acts [])" "tpl_approvedAt demo_approved \<noteq> None"
  by (simp add: demo_created) (simp add: demo_approved_def)

lemma approved_version_kept_witness:
  "demo_approved \<in> set (template_run demo_env [Ta_update 3 ''v3'' ''t3'' (Actor_user ''u1'' Role_admin) ''v1'' demo_input]
     (template_run demo_env demo_template_acts []))"
  by (rule approved_version_kept) (rule demo_is_approved)+

lemma approved_version_renders_witness:
  "renderTemplateVersion demo_approved [lit ''name'' \<mapsto> lit ''Bo''] = Rendered (lit ''Hi Bo'') (lit ''Dear Bo, hello.'')"
proof -
  let ?f = "[lit ''name'' \<mapsto> lit ''Bo'']"
  have "list_all (eligible ?f) (tpl_requiredVariables demo_approved)" by code_simp
  from approved_version_renders [OF demo_is_approved this]
  have "renderTemplateVersion demo_approved ?f =
      Rendered (fill ?f (pieces (tpl_subject demo_approved))) (fill ?f (pieces (tpl_body demo_approved)))" by (rule conjunct1)
  also have "\<dots> = Rendered (lit ''Hi Bo'') (lit ''Dear Bo, hello.'')" by code_simp
  finally show ?thesis .
qed

end
